(* ===== verification/FC_Prelude.thy ===== *)
theory FC_Prelude
  imports Complex_Main "HOL-Library.Word" "HOL-Library.Char_ord" "HOL-Library.List_Lexorder"
begin

text \<open>
  Shared vocabulary of the development.

  \<^item> Names for the machine integers of \<^verbatim>\<open>Define.h\<close>.
  \<^item> The ordered containers of the C++ standard library: a \<^verbatim>\<open>std::map\<close> is an association
    list in ascending key order, a \<^verbatim>\<open>std::set\<close> an ascending list, a \<^verbatim>\<open>std::multimap\<close>
    an ascending association list with repeated keys.  The operations keep the
    iteration order of the source, which several operations of the server depend on.
    The interface the components use is the locale \<open>ordered_map\<close>, interpreted on the
    association lists as \<open>sm\<close>.
  \<^item> Little-endian byte strings, the wire format of every integer the server sends.
  \<^item> Flag tests on machine words.
  \<^item> Reachability of a transition system and the locale \<open>invariant_system\<close>, from which
    every component obtains that its invariant holds in all reachable states.
\<close>

unbundle bit_operations_syntax

named_theorems flag_simps \<open>tests, sets and clears of single flag bits\<close>
named_theorems container_simps \<open>lookup and membership after container updates\<close>

section \<open>Machine integers\<close>

type_synonym uint8 = "8 word"
type_synonym uint16 = "16 word"
type_synonym uint32 = "32 word"
type_synonym uint64 = "64 word"

text \<open>A C++ condition \<^verbatim>\<open>flags & mask\<close> holds when some common bit is set.\<close>

definition has_flag :: "'a::len word \<Rightarrow> 'a word \<Rightarrow> bool" where
  "has_flag fl m \<longleftrightarrow> fl AND m \<noteq> 0"

definition set_flag :: "'a::len word \<Rightarrow> 'a word \<Rightarrow> 'a word" where
  "set_flag fl m = fl OR m"

definition clear_flag :: "'a::len word \<Rightarrow> 'a word \<Rightarrow> 'a word" where
  "clear_flag fl m = fl AND NOT m"

text \<open>Two masks are disjoint when no bit belongs to both.\<close>

definition disjoint_masks :: "'a::len word \<Rightarrow> 'a word \<Rightarrow> bool" where
  "disjoint_masks a b \<longleftrightarrow> a AND b = 0"

lemma has_flag_bit: "has_flag f m \<longleftrightarrow> (\<exists>n. bit f n \<and> bit m n)"
  by (auto simp: has_flag_def bit_eq_iff bit_and_iff dest: bit_imp_le_length)

lemma disjoint_masks_bit: "disjoint_masks a b \<longleftrightarrow> (\<forall>n. \<not> (bit a n \<and> bit b n))"
  by (auto simp: disjoint_masks_def bit_eq_iff bit_and_iff dest: bit_imp_le_length)

lemma has_flag_zero [flag_simps, simp]: "\<not> has_flag 0 m"
  by (simp add: has_flag_def)

lemma has_flag_set_same [flag_simps]: "m \<noteq> 0 \<Longrightarrow> has_flag (set_flag f m) m"
  by (auto simp: has_flag_bit set_flag_def bit_or_iff bit_eq_iff)

lemma has_flag_clear_same [flag_simps]: "\<not> has_flag (clear_flag f m) m"
  by (auto simp: has_flag_bit clear_flag_def bit_and_iff bit_not_iff)

lemma has_flag_set_other [flag_simps]:
  "disjoint_masks m k \<Longrightarrow> has_flag (set_flag f m) k = has_flag f k"
  by (auto simp: has_flag_bit disjoint_masks_bit set_flag_def bit_or_iff)

lemma has_flag_clear_other [flag_simps]:
  "disjoint_masks m k \<Longrightarrow> has_flag (clear_flag f m) k = has_flag f k"
  by (auto simp: has_flag_bit disjoint_masks_bit clear_flag_def bit_and_iff bit_not_iff
      dest: bit_imp_le_length)

lemma unat_drop_bit_less: "w \<noteq> 0 \<Longrightarrow> 0 < n \<Longrightarrow> unat (drop_bit n w) < unat w"
  unfolding unat_drop_bit_eq unfolding drop_bit_eq_div
  by (rule div_less_dividend) (simp_all add: unat_gt_0 del: One_nat_def)

section \<open>Results that may be errors\<close>

text \<open>A C++ function that throws returns \<open>Inl\<close> of the exception.\<close>

definition bindE :: "'e + 'a \<Rightarrow> ('a \<Rightarrow> 'e + 'b) \<Rightarrow> 'e + 'b" where
  "bindE r f = (case r of Inl e \<Rightarrow> Inl e | Inr x \<Rightarrow> f x)"

lemma bindE_simps [simp]: "bindE (Inl e) f = Inl e" "bindE (Inr x) f = f x"
  by (simp_all add: bindE_def)

lemma bindE_Inr_iff: "bindE r f = Inr y \<longleftrightarrow> (\<exists>x. r = Inr x \<and> f x = Inr y)"
  by (cases r) auto

lemma bindE_assoc: "bindE (bindE r f) g = bindE r (\<lambda>x. bindE (f x) g)"
  by (cases r) auto

section \<open>Ordered containers\<close>

type_synonym ('k, 'v) smap = "('k \<times> 'v) list"
type_synonym 'k sset = "'k list"

fun map_put :: "'k::linorder \<Rightarrow> 'v \<Rightarrow> ('k, 'v) smap \<Rightarrow> ('k, 'v) smap" where
  "map_put k v [] = [(k, v)]"
| "map_put k v (e # m) =
     (if fst e < k then e # map_put k v m
      else if fst e = k then (k, v) # m
      else (k, v) # e # m)"

definition map_erase :: "'k \<Rightarrow> ('k, 'v) smap \<Rightarrow> ('k, 'v) smap" where
  "map_erase k m = filter (\<lambda>e. fst e \<noteq> k) m"

text \<open>\<^verbatim>\<open>m[k]\<close> value-initialises a missing entry; \<open>map_at\<close> reads through it.\<close>

definition map_at :: "'v \<Rightarrow> ('k, 'v) smap \<Rightarrow> 'k \<Rightarrow> 'v" where
  "map_at d m k = (case map_of m k of None \<Rightarrow> d | Some v \<Rightarrow> v)"

definition map_modify ::
    "'v \<Rightarrow> ('v \<Rightarrow> 'v) \<Rightarrow> 'k::linorder \<Rightarrow> ('k, 'v) smap \<Rightarrow> ('k, 'v) smap" where
  "map_modify d f k m = map_put k (f (map_at d m k)) m"

definition map_wf :: "('k::linorder, 'v) smap \<Rightarrow> bool" where
  "map_wf m \<longleftrightarrow> sorted_wrt (<) (map fst m)"

lemma map_wf_simps [simp]:
  "map_wf []"
  "map_wf (e # m) \<longleftrightarrow> (\<forall>x \<in> set m. fst e < fst x) \<and> map_wf m"
  by (auto simp: map_wf_def)

lemma map_of_map_put [container_simps, simp]:
  "map_of (map_put k v m) = (map_of m)(k \<mapsto> v)"
  by (induction m) (auto simp: fun_eq_iff)

lemma map_of_map_erase [container_simps, simp]:
  "map_of (map_erase k m) = (map_of m)(k := None)"
  unfolding map_erase_def by (induction m) (auto simp: fun_eq_iff)

lemma map_of_map_modify [container_simps, simp]:
  "map_of (map_modify d f k m) = (map_of m)(k \<mapsto> f (map_at d m k))"
  by (simp add: map_modify_def)

lemma fst_set_map_put: "fst ` set (map_put k v m) = insert k (fst ` set m)"
  by (metis dom_fun_upd dom_map_of_conv_image_fst map_of_map_put option.discI)

lemma map_wf_put [container_simps, simp]: "map_wf m \<Longrightarrow> map_wf (map_put k v m)"
proof (induction m)
  case (Cons e m)
  show ?case
  proof (cases "fst e < k")
    case True
    have "fst e < fst x" if "x \<in> set (map_put k v m)" for x
    proof -
      from that have "fst x \<in> insert k (fst ` set m)"
        unfolding fst_set_map_put [of k v m, symmetric] by (rule imageI)
      with Cons.prems True show ?thesis by auto
    qed
    with Cons True show ?thesis by simp
  next
    case False
    then have "k < fst e \<or> fst e = k" by auto
    with Cons.prems show ?thesis by (auto dest: less_trans)
  qed
qed simp

lemma map_wf_erase [container_simps, simp]: "map_wf m \<Longrightarrow> map_wf (map_erase k m)"
  unfolding map_erase_def by (induction m) auto

lemma map_wf_modify [container_simps, simp]: "map_wf m \<Longrightarrow> map_wf (map_modify d f k m)"
  by (simp add: map_modify_def)

lemma map_wf_distinct: "map_wf m \<Longrightarrow> distinct (map fst m)"
  by (induction m) auto

lemma map_wf_find: "map_wf m \<Longrightarrow> (k, v) \<in> set m \<longleftrightarrow> map_of m k = Some v"
  by (simp add: map_wf_distinct)

lemma map_at_put [simp]:
  "map_at d (map_put k v m) k' = (if k' = k then v else map_at d m k')"
  by (simp add: map_at_def)

lemma length_map_put:
  "map_wf m \<Longrightarrow> length (map_put k v m) = (if map_of m k = None then Suc (length m) else length m)"
proof (induction m)
  case (Cons e m)
  have "map_of m k = None" if "k < fst e"
    using Cons.prems that by (force simp: map_of_eq_None_iff)
  with Cons show ?case by (cases e) (auto simp: not_less)
qed simp

lemma map_erase_put_fresh:
  "map_of m k = None \<Longrightarrow> map_erase k (map_put k v m) = m"
proof (induction m)
  case (Cons e m)
  then show ?case
    by (cases e) (auto simp: map_erase_def map_of_eq_None_iff filter_id_conv split: if_splits)
qed (simp add: map_erase_def)

lemma map_erase_absent: "map_of m k = None \<Longrightarrow> map_erase k m = m"
  by (auto simp: map_erase_def map_of_eq_None_iff filter_id_conv)

lemma map_erase_empty [simp]: "map_erase k [] = []"
  by (simp add: map_erase_def)

lemma map_put_twice [simp]: "map_put k v (map_put k u m) = map_put k v m"
  by (induction m) auto

lemma map_put_nonempty [simp]: "map_put k v m \<noteq> []"
  by (cases m) auto

text \<open>
  The contract the components rely on: what a lookup returns after an update, that updates
  keep the container well formed, and that iteration starts at the least key.
\<close>

locale ordered_map =
  fixes find :: "'m \<Rightarrow> 'k::linorder \<Rightarrow> 'v option"
    and put :: "'k \<Rightarrow> 'v \<Rightarrow> 'm \<Rightarrow> 'm"
    and erase :: "'k \<Rightarrow> 'm \<Rightarrow> 'm"
    and entries :: "'m \<Rightarrow> ('k \<times> 'v) list"
    and wf :: "'m \<Rightarrow> bool"
  assumes find_put: "find (put k v m) = (find m)(k \<mapsto> v)"
    and find_erase: "find (erase k m) = (find m)(k := None)"
    and find_entries: "wf m \<Longrightarrow> (k, v) \<in> set (entries m) \<longleftrightarrow> find m k = Some v"
    and entries_sorted: "wf m \<Longrightarrow> sorted_wrt (<) (map fst (entries m))"
    and wf_put: "wf m \<Longrightarrow> wf (put k v m)"
    and wf_erase: "wf m \<Longrightarrow> wf (erase k m)"
begin

lemma first_entry_found:
  assumes "wf m" "entries m = (k, v) # es"
  shows "find m k = Some v"
  using assms find_entries [of m k v] by simp

lemma first_entry_least:
  assumes "wf m" "entries m = (k, v) # es" "find m k' = Some v'"
  shows "k \<le> k'"
proof -
  from assms have "(k', v') \<in> set ((k, v) # es)" using find_entries by metis
  moreover have "sorted_wrt (<) (map fst ((k, v) # es))" using entries_sorted assms by metis
  ultimately show ?thesis by auto
qed

lemma find_dom: "wf m \<Longrightarrow> find m k \<noteq> None \<longleftrightarrow> k \<in> fst ` set (entries m)"
  using find_entries [of m k] by force

lemma entries_empty: "wf m \<Longrightarrow> entries m = [] \<longleftrightarrow> (\<forall>k. find m k = None)"
  using find_dom by (metis empty_iff image_is_empty list.set(1) list.set_intros(1) neq_Nil_conv image_eqI)

end

interpretation sm: ordered_map map_of map_put map_erase "\<lambda>m. m" map_wf
  by unfold_locales (auto simp: map_wf_find map_wf_def [symmetric] simp flip: map_wf_def)

text \<open>Sets: ascending lists without repetitions.\<close>

fun set_put :: "'k::linorder \<Rightarrow> 'k sset \<Rightarrow> 'k sset" where
  "set_put k [] = [k]"
| "set_put k (x # s) = (if x < k then x # set_put k s else if x = k then x # s else k # x # s)"

definition set_erase :: "'k \<Rightarrow> 'k sset \<Rightarrow> 'k sset" where
  "set_erase k s = filter (\<lambda>x. x \<noteq> k) s"

definition set_of_list :: "'k::linorder list \<Rightarrow> 'k sset" where
  "set_of_list xs = fold set_put xs []"

lemma set_set_put [container_simps, simp]: "set (set_put k s) = insert k (set s)"
  by (induction s) auto

lemma set_set_erase [container_simps, simp]: "set (set_erase k s) = set s - {k}"
  by (auto simp: set_erase_def)

lemma sorted_set_put [container_simps, simp]:
  "sorted_wrt (<) s \<Longrightarrow> sorted_wrt (<) (set_put k s)"
  by (induction s) (auto simp: not_less)

lemma sorted_set_erase [container_simps, simp]:
  "sorted_wrt (<) s \<Longrightarrow> sorted_wrt (<) (set_erase k s)"
  by (auto simp: set_erase_def sorted_wrt_filter)

lemma set_fold_set_put: "set (fold set_put xs s) = set xs \<union> set s"
  by (induction xs arbitrary: s) auto

lemma sorted_fold_set_put: "sorted_wrt (<) s \<Longrightarrow> sorted_wrt (<) (fold set_put xs s)"
  by (induction xs arbitrary: s) auto

lemma set_set_of_list [container_simps, simp]: "set (set_of_list xs) = set xs"
  by (simp add: set_of_list_def set_fold_set_put)

lemma sorted_set_of_list [container_simps, simp]: "sorted_wrt (<) (set_of_list xs)"
  by (simp add: set_of_list_def sorted_fold_set_put)

lemma set_of_list_cong: "set xs = set ys \<Longrightarrow> set_of_list xs = set_of_list ys"
  by (rule strict_sorted_equal) (simp_all)

text \<open>
  A \<^verbatim>\<open>std::multimap\<close> is an ascending association list in which equal keys may repeat; an insertion
  goes behind the entries with an equal key, so that these keep their order of arrival.
\<close>

type_synonym ('k, 'v) mmap = "('k \<times> 'v) list"

fun mm_insert :: "'k::linorder \<Rightarrow> 'v \<Rightarrow> ('k, 'v) mmap \<Rightarrow> ('k, 'v) mmap" where
  "mm_insert k v [] = [(k, v)]"
| "mm_insert k v (e # m) = (if fst e \<le> k then e # mm_insert k v m else (k, v) # e # m)"

definition mm_wf :: "('k::linorder, 'v) mmap \<Rightarrow> bool" where
  "mm_wf m \<longleftrightarrow> sorted (map fst m)"

lemma mm_wf_simps [simp]:
  "mm_wf []"
  "mm_wf (e # m) \<longleftrightarrow> (\<forall>x \<in> set m. fst e \<le> fst x) \<and> mm_wf m"
  by (auto simp: mm_wf_def)

lemma set_mm_insert [container_simps, simp]: "set (mm_insert k v m) = insert (k, v) (set m)"
  by (induction m) auto

lemma length_mm_insert [simp]: "length (mm_insert k v m) = Suc (length m)"
  by (induction m) auto

lemma mm_wf_insert [container_simps, simp]: "mm_wf m \<Longrightarrow> mm_wf (mm_insert k v m)"
  by (induction m) auto

lemma mm_wf_filter [container_simps, simp]: "mm_wf m \<Longrightarrow> mm_wf (filter P m)"
  by (induction m) auto

lemma filter_mm_insert:
  "mm_wf m \<Longrightarrow> filter P (mm_insert k v m) = (if P (k, v) then mm_insert k v (filter P m) else filter P m)"
proof (induction m)
  case (Cons e m)
  have "filter P m = [] \<or> \<not> fst (hd (filter P m)) \<le> k" if "\<not> fst e \<le> k"
  proof (cases "filter P m")
    case (Cons x xs)
    then have "x \<in> set m" by (metis filter_is_subset list.set_intros(1) subsetD)
    with Cons.prems that Cons show ?thesis using \<open>mm_wf (e # m)\<close> by (fastforce dest: order.trans)
  qed simp
  then have "(k, v) # filter P m = mm_insert k v (filter P m)" if "\<not> fst e \<le> k"
    using that by (cases "filter P m") auto
  with Cons show ?case by auto
qed simp

lemma mm_insert_below: "\<forall>e \<in> set m. fst e \<le> k \<Longrightarrow> mm_insert k v (m @ n) = m @ mm_insert k v n"
  by (induction m) auto

lemma mm_insert_above: "\<forall>e \<in> set n. k < fst e \<Longrightarrow> mm_insert k v (m @ n) = mm_insert k v m @ n"
proof (induction m)
  case Nil
  then show ?case by (cases n) auto
qed auto

text \<open>The entries up to a bound come first.\<close>

lemma mm_wf_split:
  "mm_wf m \<Longrightarrow> m = filter (\<lambda>e. fst e \<le> t) m @ filter (\<lambda>e. t < fst e) m"
proof (induction m)
  case (Cons e m)
  show ?case
  proof (cases "fst e \<le> t")
    case False
    with Cons.prems have "\<forall>x \<in> set (e # m). t < fst x" by auto
    then have "filter (\<lambda>e. fst e \<le> t) (e # m) = []" "filter (\<lambda>e. t < fst e) (e # m) = e # m"
      by (auto simp: filter_empty_conv filter_id_conv)
    then show ?thesis by simp
  qed (use Cons in auto)
qed simp

section \<open>Little-endian integers\<close>

fun le_bytes :: "nat \<Rightarrow> nat \<Rightarrow> uint8 list" where
  "le_bytes 0 n = []"
| "le_bytes (Suc k) n = word_of_nat (n mod 256) # le_bytes k (n div 256)"

fun le_nat :: "uint8 list \<Rightarrow> nat" where
  "le_nat [] = 0"
| "le_nat (b # bs) = unat b + 256 * le_nat bs"

lemma length_le_bytes [simp]: "length (le_bytes k n) = k"
  by (induction k arbitrary: n) auto

lemma unat_word_of_byte [simp]: "unat (word_of_nat (n mod 256) :: uint8) = n mod 256"
  by (simp add: unat_of_nat)

lemma unat_byte_less: "unat (b :: uint8) < 256"
  using unsigned_less [of b] by simp

lemma le_nat_le_bytes: "le_nat (le_bytes k n) = n mod 256 ^ k"
proof (induction k arbitrary: n)
  case (Suc k)
  then show ?case by (simp add: mod_mult2_eq mult.commute)
qed simp

lemma le_nat_bound: "le_nat bs < 256 ^ length bs"
proof (induction bs)
  case (Cons b bs)
  with Cons unat_byte_less [of b] show ?case by simp
qed simp

lemma le_bytes_le_nat: "le_bytes (length bs) (le_nat bs) = bs"
proof (induction bs)
  case (Cons b bs)
  with Cons unat_byte_less [of b] show ?case by simp
qed simp

lemma le_bytes_eq_iff: "le_bytes k m = le_bytes k n \<longleftrightarrow> m mod 256 ^ k = n mod 256 ^ k"
  by (metis le_bytes_le_nat le_nat_le_bytes length_le_bytes)

section \<open>Reachability and invariants\<close>

inductive reachable :: "('s \<Rightarrow> bool) \<Rightarrow> ('s \<Rightarrow> 's \<Rightarrow> bool) \<Rightarrow> 's \<Rightarrow> bool"
  for init :: "'s \<Rightarrow> bool" and step :: "'s \<Rightarrow> 's \<Rightarrow> bool" where
  reach_init: "init s \<Longrightarrow> reachable init step s"
| reach_step: "reachable init step s \<Longrightarrow> step s t \<Longrightarrow> reachable init step t"

locale invariant_system =
  fixes init :: "'s \<Rightarrow> bool"
    and step :: "'s \<Rightarrow> 's \<Rightarrow> bool"
    and inv :: "'s \<Rightarrow> bool"
  assumes init_inv: "init s \<Longrightarrow> inv s"
    and step_inv: "inv s \<Longrightarrow> step s t \<Longrightarrow> inv t"
begin

lemma reachable_inv: "reachable init step s \<Longrightarrow> inv s"
  by (induction rule: reachable.induct) (auto intro: init_inv step_inv)

lemma steps_inv: "step\<^sup>*\<^sup>* s t \<Longrightarrow> inv s \<Longrightarrow> inv t"
  by (induction rule: rtranclp_induct) (auto intro: step_inv)

end

end
