(* ===== verification/ByteBuffer.thy ===== *)
theory ByteBuffer
  imports FC_Prelude
begin

text \<open>
  The packet buffer of \<^verbatim>\<open>shared/Packets/ByteBuffer.h\<close>.

  A buffer is the vector of stored bytes with a read and a write position.  Positions are
  values of \<^verbatim>\<open>size_t\<close>, so additions on them wrap at \<open>2 ^ 64\<close> (\<open>size_add\<close>).  An operation
  that throws returns the exception with the arguments its constructor is given; an access
  outside the storage, which C++ leaves undefined, is the separate value \<open>OutOfBounds\<close>, so
  that memory safety is a statement about the model.  All integers are written in
  little-endian order (\<^verbatim>\<open>EndianConvert\<close> is the identity on the supported platforms).

  A C++ type that can be streamed is an instance of the locale \<open>byte_codec\<close>; the container
  templates are proved correct once, for every such type.
\<close>

section \<open>State and errors\<close>

datatype bb_error =
    PositionException (pe_add: bool) (pe_pos: nat) (pe_size: nat) (pe_valueSize: nat)
  | SourceException (se_pos: nat) (se_size: nat) (se_valueSize: nat)
  | AssertFailure
  | OutOfBounds
  | OutOfFuel

record ByteBuffer =
  bb_rpos :: nat
  bb_wpos :: nat
  bb_storage :: "uint8 list"

type_synonym 'a bb_result = "bb_error + 'a"

definition size_add :: "nat \<Rightarrow> nat \<Rightarrow> nat" where
  "size_add a b = (a + b) mod 2 ^ 64"

abbreviation bb_size :: "ByteBuffer \<Rightarrow> nat" where
  "bb_size b \<equiv> length (bb_storage b)"

definition bb_new :: ByteBuffer where
  "bb_new = \<lparr>bb_rpos = 0, bb_wpos = 0, bb_storage = []\<rparr>"

definition bb_clear :: "ByteBuffer \<Rightarrow> ByteBuffer" where
  "bb_clear b = b\<lparr>bb_storage := [], bb_rpos := 0, bb_wpos := 0\<rparr>"

section \<open>Writing\<close>

text \<open>\<^verbatim>\<open>memcpy\<close> of \<open>bs\<close> to offset \<open>pos\<close> of the storage.\<close>

definition mem_write :: "nat \<Rightarrow> uint8 list \<Rightarrow> uint8 list \<Rightarrow> uint8 list" where
  "mem_write pos bs st = take pos st @ bs @ drop (pos + length bs) st"

definition vec_resize :: "nat \<Rightarrow> uint8 list \<Rightarrow> uint8 list" where
  "vec_resize n st = take n st @ replicate (n - length st) 0"

definition bb_append_raw :: "uint8 list option \<Rightarrow> nat \<Rightarrow> ByteBuffer \<Rightarrow> ByteBuffer bb_result" where
  "bb_append_raw src cnt b =
     (if cnt = 0 then Inl (SourceException (bb_wpos b) (bb_size b) cnt)
      else case src of
        None \<Rightarrow> Inl (SourceException (bb_wpos b) (bb_size b) cnt)
      | Some bs \<Rightarrow>
          if \<not> bb_size b < 10000000 then Inl AssertFailure
          else
            let st = (if bb_size b < size_add (bb_wpos b) cnt
                      then vec_resize (size_add (bb_wpos b) cnt) (bb_storage b)
                      else bb_storage b)
            in if length bs < cnt \<or> length st < bb_wpos b + cnt then Inl OutOfBounds
               else Inr (b\<lparr>bb_storage := mem_write (bb_wpos b) (take cnt bs) st,
                           bb_wpos := size_add (bb_wpos b) cnt\<rparr>))"

definition bb_append_bytes :: "uint8 list \<Rightarrow> ByteBuffer \<Rightarrow> ByteBuffer bb_result" where
  "bb_append_bytes bs = bb_append_raw (Some bs) (length bs)"

text \<open>\<^verbatim>\<open>append<T>\<close> for the integer types; a float or double is its bit pattern.\<close>

definition bb_append :: "'a::len word \<Rightarrow> ByteBuffer \<Rightarrow> ByteBuffer bb_result" where
  "bb_append v = bb_append_bytes (le_bytes (LENGTH('a) div 8) (unat v))"

definition byte_of_char :: "char \<Rightarrow> uint8" where
  "byte_of_char c = word_of_nat (of_char c)"

definition char_of_byte :: "uint8 \<Rightarrow> char" where
  "char_of_byte b = char_of (unat b)"

definition bb_append_string :: "string \<Rightarrow> ByteBuffer \<Rightarrow> ByteBuffer bb_result" where
  "bb_append_string s b =
     bindE (if s \<noteq> [] then bb_append_bytes (map byte_of_char s) b else Inr b)
       (bb_append (0 :: uint8))"

text \<open>\<^verbatim>\<open>operator<<(const char*)\<close>: a null pointer is streamed like the empty string.\<close>

definition bb_append_cstr :: "string option \<Rightarrow> ByteBuffer \<Rightarrow> ByteBuffer bb_result" where
  "bb_append_cstr str b =
     (let len = (case str of None \<Rightarrow> 0 | Some s \<Rightarrow> length s)
      in bindE (if len \<noteq> 0 then bb_append_raw (map_option (map byte_of_char) str) len b else Inr b)
           (bb_append (0 :: uint8)))"

definition bb_append_buffer :: "ByteBuffer \<Rightarrow> ByteBuffer \<Rightarrow> ByteBuffer bb_result" where
  "bb_append_buffer src b =
     (if bb_wpos src \<noteq> 0 then bb_append_raw (Some (bb_storage src)) (bb_wpos src) b else Inr b)"

definition bb_put_raw :: "nat \<Rightarrow> uint8 list option \<Rightarrow> nat \<Rightarrow> ByteBuffer \<Rightarrow> ByteBuffer bb_result" where
  "bb_put_raw pos src cnt b =
     (if size_add pos cnt > bb_size b then Inl (PositionException True pos cnt (bb_size b))
      else case src of
        None \<Rightarrow> Inl (SourceException (bb_wpos b) (bb_size b) cnt)
      | Some bs \<Rightarrow>
          if length bs < cnt \<or> bb_size b < pos + cnt then Inl OutOfBounds
          else Inr (b\<lparr>bb_storage := mem_write pos (take cnt bs) (bb_storage b)\<rparr>))"

definition bb_put :: "nat \<Rightarrow> 'a::len word \<Rightarrow> ByteBuffer \<Rightarrow> ByteBuffer bb_result" where
  "bb_put pos v =
     bb_put_raw pos (Some (le_bytes (LENGTH('a) div 8) (unat v))) (LENGTH('a) div 8)"

text \<open>\<^verbatim>\<open>appendPackGUID\<close>: the mask byte says which of the eight bytes are not zero.\<close>

function pack_guid_loop :: "nat \<Rightarrow> uint64 \<Rightarrow> uint8 \<Rightarrow> uint8 list \<Rightarrow> uint8 \<times> uint8 list" where
  "pack_guid_loop i guid m bs =
     (if guid = 0 then (m, bs)
      else if guid AND 0xFF \<noteq> 0
      then pack_guid_loop (Suc i) (drop_bit 8 guid) (m OR push_bit i 1) (bs @ [ucast (guid AND 0xFF)])
      else pack_guid_loop (Suc i) (drop_bit 8 guid) m bs)"
  by pat_completeness auto

termination
  by (relation "measure (\<lambda>(i, guid, m, bs). unat guid)") (auto simp: unat_drop_bit_less)

definition bb_appendPackGUID :: "uint64 \<Rightarrow> ByteBuffer \<Rightarrow> ByteBuffer bb_result" where
  "bb_appendPackGUID guid b =
     (let (m, bs) = pack_guid_loop 0 guid 0 [] in bb_append_bytes (m # bs) b)"

text \<open>
  \<^verbatim>\<open>appendPackXYZ\<close>: the three quotients by \<^verbatim>\<open>0.25f\<close> (exact, a power of two), truncated to
  \<^verbatim>\<open>int\<close>, are packed in 11, 11 and 10 bits.
\<close>

definition trunc_quarter :: "rat \<Rightarrow> int" where
  "trunc_quarter x = (if x < 0 then \<lceil>x / (1 / 4)\<rceil> else \<lfloor>x / (1 / 4)\<rfloor>)"

definition pack_xyz :: "int \<Rightarrow> int \<Rightarrow> int \<Rightarrow> uint32" where
  "pack_xyz x y z =
     (word_of_int x AND 0x7FF) OR push_bit 11 (word_of_int y AND 0x7FF)
     OR push_bit 22 (word_of_int z AND 0x3FF)"

definition bb_appendPackXYZ :: "rat \<Rightarrow> rat \<Rightarrow> rat \<Rightarrow> ByteBuffer \<Rightarrow> ByteBuffer bb_result" where
  "bb_appendPackXYZ x y z =
     bb_append (pack_xyz (trunc_quarter x) (trunc_quarter y) (trunc_quarter z))"

text \<open>The calendar fields \<^verbatim>\<open>AppendPackedTime\<close> and \<^verbatim>\<open>ReadPackedTime\<close> use of \<^verbatim>\<open>struct tm\<close>.\<close>

record tm =
  tm_min :: int
  tm_hour :: int
  tm_mday :: int
  tm_mon :: int
  tm_year :: int
  tm_wday :: int

definition pack_tm :: "tm \<Rightarrow> uint32" where
  "pack_tm lt =
     push_bit 24 (word_of_int (tm_year lt - 100)) OR push_bit 20 (word_of_int (tm_mon lt))
     OR push_bit 14 (word_of_int (tm_mday lt - 1)) OR push_bit 11 (word_of_int (tm_wday lt))
     OR push_bit 6 (word_of_int (tm_hour lt)) OR word_of_int (tm_min lt)"

definition unpack_tm :: "uint32 \<Rightarrow> tm" where
  "unpack_tm packedDate =
     \<lparr>tm_min = uint (packedDate AND 0x3F),
      tm_hour = uint (drop_bit 6 packedDate AND 0x1F),
      tm_mday = uint (drop_bit 14 packedDate AND 0x3F) + 1,
      tm_mon = uint (drop_bit 20 packedDate AND 0xF),
      tm_year = uint (drop_bit 24 packedDate AND 0x1F) + 100,
      tm_wday = 0\<rparr>"

definition bb_AppendPackedTime ::
    "('t \<Rightarrow> tm) \<Rightarrow> 't \<Rightarrow> ByteBuffer \<Rightarrow> ByteBuffer bb_result" where
  "bb_AppendPackedTime localtime t = bb_append (pack_tm (localtime t))"

section \<open>Reading\<close>

definition bb_read_at :: "nat \<Rightarrow> ByteBuffer \<Rightarrow> ('a::len word) bb_result" where
  "bb_read_at pos b =
     (let k = LENGTH('a) div 8
      in if size_add pos k > bb_size b then Inl (PositionException False pos k (bb_size b))
         else if pos + k > bb_size b then Inl OutOfBounds
         else Inr (word_of_nat (le_nat (take k (drop pos (bb_storage b))))))"

definition bb_read :: "ByteBuffer \<Rightarrow> ('a::len word \<times> ByteBuffer) bb_result" where
  "bb_read b =
     bindE (bb_read_at (bb_rpos b) b)
       (\<lambda>r. Inr (r, b\<lparr>bb_rpos := size_add (bb_rpos b) (LENGTH('a) div 8)\<rparr>))"

text \<open>\<^verbatim>\<open>operator>>(bool&)\<close> compares a (signed) \<^verbatim>\<open>char\<close> with zero.\<close>

definition bb_read_bool :: "ByteBuffer \<Rightarrow> (bool \<times> ByteBuffer) bb_result" where
  "bb_read_bool b = bindE (bb_read b) (\<lambda>(c :: uint8, b'). Inr (sint c > 0, b'))"

fun bb_read_string_loop :: "nat \<Rightarrow> ByteBuffer \<Rightarrow> string \<Rightarrow> (string \<times> ByteBuffer) bb_result" where
  "bb_read_string_loop 0 b value = Inl OutOfFuel"
| "bb_read_string_loop (Suc fuel) b value =
     (if bb_rpos b < bb_size b
      then bindE (bb_read b) (\<lambda>(c :: uint8, b').
             if c = 0 then Inr (value, b')
             else bb_read_string_loop fuel b' (value @ [char_of_byte c]))
      else Inr (value, b))"

definition bb_read_string :: "ByteBuffer \<Rightarrow> (string \<times> ByteBuffer) bb_result" where
  "bb_read_string b = bb_read_string_loop (Suc (bb_size b - bb_rpos b)) b []"

definition bb_index :: "nat \<Rightarrow> ByteBuffer \<Rightarrow> uint8 bb_result" where
  "bb_index pos b =
     (if pos \<ge> bb_size b then Inl (PositionException False pos 1 (bb_size b))
      else Inr (bb_storage b ! pos))"

definition bb_set_rpos :: "nat \<Rightarrow> ByteBuffer \<Rightarrow> ByteBuffer" where
  "bb_set_rpos p b = b\<lparr>bb_rpos := p\<rparr>"

definition bb_rfinish :: "ByteBuffer \<Rightarrow> ByteBuffer" where
  "bb_rfinish b = b\<lparr>bb_rpos := bb_wpos b\<rparr>"

definition bb_set_wpos :: "nat \<Rightarrow> ByteBuffer \<Rightarrow> ByteBuffer" where
  "bb_set_wpos p b = b\<lparr>bb_wpos := p\<rparr>"

definition bb_read_skip :: "nat \<Rightarrow> ByteBuffer \<Rightarrow> ByteBuffer bb_result" where
  "bb_read_skip skip b =
     (if size_add (bb_rpos b) skip > bb_size b
      then Inl (PositionException False (bb_rpos b) skip (bb_size b))
      else Inr (b\<lparr>bb_rpos := size_add (bb_rpos b) skip\<rparr>))"

definition bb_read_skip_string :: "ByteBuffer \<Rightarrow> ByteBuffer bb_result" where
  "bb_read_skip_string b = bindE (bb_read_string b) (\<lambda>(temp, b'). Inr b')"

definition bb_read_bytes :: "nat \<Rightarrow> ByteBuffer \<Rightarrow> (uint8 list \<times> ByteBuffer) bb_result" where
  "bb_read_bytes len b =
     (if size_add (bb_rpos b) len > bb_size b
      then Inl (PositionException False (bb_rpos b) len (bb_size b))
      else if bb_rpos b + len > bb_size b then Inl OutOfBounds
      else Inr (take len (drop (bb_rpos b) (bb_storage b)),
                b\<lparr>bb_rpos := size_add (bb_rpos b) len\<rparr>))"

text \<open>The loop of \<^verbatim>\<open>readPackGUID\<close> over the mask bits \<open>i, \<dots>, 7\<close>; \<open>n = 8 - i\<close> steps remain.\<close>

fun read_guid_loop :: "nat \<Rightarrow> nat \<Rightarrow> uint8 \<Rightarrow> uint64 \<Rightarrow> ByteBuffer \<Rightarrow> (uint64 \<times> ByteBuffer) bb_result" where
  "read_guid_loop 0 i guidmark guid b = Inr (guid, b)"
| "read_guid_loop (Suc n) i guidmark guid b =
     (if guidmark AND push_bit i 1 \<noteq> 0
      then if size_add (bb_rpos b) 1 > bb_size b
           then Inl (PositionException False (bb_rpos b) 1 (bb_size b))
           else bindE (bb_read b) (\<lambda>(byt :: uint8, b').
                  read_guid_loop n (Suc i) guidmark (guid OR push_bit (i * 8) (ucast byt)) b')
      else read_guid_loop n (Suc i) guidmark guid b)"

definition bb_readPackGUID :: "ByteBuffer \<Rightarrow> (uint64 \<times> ByteBuffer) bb_result" where
  "bb_readPackGUID b =
     (if size_add (bb_rpos b) 1 > bb_size b
      then Inl (PositionException False (bb_rpos b) 1 (bb_size b))
      else bindE (bb_read b) (\<lambda>(guidmark :: uint8, b'). read_guid_loop 8 0 guidmark 0 b'))"

definition bb_ReadPackedTime ::
    "(tm \<Rightarrow> int) \<Rightarrow> int \<Rightarrow> ByteBuffer \<Rightarrow> (uint32 \<times> ByteBuffer) bb_result" where
  "bb_ReadPackedTime mktime timezone b =
     bindE (bb_read b) (\<lambda>(packedDate :: uint32, b').
       Inr (word_of_int (mktime (unpack_tm packedDate) + timezone), b'))"

definition bb_resize :: "nat \<Rightarrow> ByteBuffer \<Rightarrow> ByteBuffer" where
  "bb_resize newsize b =
     b\<lparr>bb_storage := vec_resize newsize (bb_storage b), bb_rpos := 0, bb_wpos := newsize\<rparr>"

section \<open>Container templates\<close>

fun write_elems :: "('a \<Rightarrow> ByteBuffer \<Rightarrow> ByteBuffer bb_result) \<Rightarrow> 'a list \<Rightarrow> ByteBuffer \<Rightarrow> ByteBuffer bb_result" where
  "write_elems wr [] b = Inr b"
| "write_elems wr (x # xs) b = bindE (wr x b) (write_elems wr xs)"

definition write_vector :: "('a \<Rightarrow> ByteBuffer \<Rightarrow> ByteBuffer bb_result) \<Rightarrow> 'a list \<Rightarrow> ByteBuffer \<Rightarrow> ByteBuffer bb_result" where
  "write_vector wr v b = bindE (bb_append (word_of_nat (length v) :: uint32) b) (write_elems wr v)"

fun read_elems :: "(ByteBuffer \<Rightarrow> ('a \<times> ByteBuffer) bb_result) \<Rightarrow> nat \<Rightarrow> 'a list \<Rightarrow> ByteBuffer \<Rightarrow> ('a list \<times> ByteBuffer) bb_result" where
  "read_elems rd 0 v b = Inr (v, b)"
| "read_elems rd (Suc n) v b = bindE (rd b) (\<lambda>(t, b'). read_elems rd n (v @ [t]) b')"

definition read_vector :: "(ByteBuffer \<Rightarrow> ('a \<times> ByteBuffer) bb_result) \<Rightarrow> ByteBuffer \<Rightarrow> ('a list \<times> ByteBuffer) bb_result" where
  "read_vector rd b = bindE (bb_read b) (\<lambda>(vsize :: uint32, b'). read_elems rd (unat vsize) [] b')"

definition write_pair ::
    "('k \<Rightarrow> ByteBuffer \<Rightarrow> ByteBuffer bb_result) \<Rightarrow> ('v \<Rightarrow> ByteBuffer \<Rightarrow> ByteBuffer bb_result) \<Rightarrow>
     'k \<times> 'v \<Rightarrow> ByteBuffer \<Rightarrow> ByteBuffer bb_result" where
  "write_pair wk wv e b = bindE (wk (fst e) b) (wv (snd e))"

definition read_pair ::
    "(ByteBuffer \<Rightarrow> ('k \<times> ByteBuffer) bb_result) \<Rightarrow> (ByteBuffer \<Rightarrow> ('v \<times> ByteBuffer) bb_result) \<Rightarrow>
     ByteBuffer \<Rightarrow> (('k \<times> 'v) \<times> ByteBuffer) bb_result" where
  "read_pair rk rv b = bindE (rk b) (\<lambda>(k, b'). bindE (rv b') (\<lambda>(v, b''). Inr ((k, v), b'')))"

text \<open>\<^verbatim>\<open>std::map::insert\<close> leaves an existing entry alone.\<close>

definition map_insert_new :: "'k::linorder \<times> 'v \<Rightarrow> ('k, 'v) smap \<Rightarrow> ('k, 'v) smap" where
  "map_insert_new e m = (if map_of m (fst e) = None then map_put (fst e) (snd e) m else m)"

definition write_map ::
    "('k \<Rightarrow> ByteBuffer \<Rightarrow> ByteBuffer bb_result) \<Rightarrow> ('v \<Rightarrow> ByteBuffer \<Rightarrow> ByteBuffer bb_result) \<Rightarrow>
     ('k, 'v) smap \<Rightarrow> ByteBuffer \<Rightarrow> ByteBuffer bb_result" where
  "write_map wk wv m b =
     bindE (bb_append (word_of_nat (length m) :: uint32) b) (write_elems (write_pair wk wv) m)"

definition read_map ::
    "(ByteBuffer \<Rightarrow> ('k::linorder \<times> ByteBuffer) bb_result) \<Rightarrow> (ByteBuffer \<Rightarrow> ('v \<times> ByteBuffer) bb_result) \<Rightarrow>
     ByteBuffer \<Rightarrow> (('k, 'v) smap \<times> ByteBuffer) bb_result" where
  "read_map rk rv b =
     bindE (read_vector (read_pair rk rv) b) (\<lambda>(es, b'). Inr (fold map_insert_new es [], b'))"

section \<open>Memory safety\<close>

text \<open>
  The class invariant: both positions lie inside the storage, which is far smaller than the
  address space.
\<close>

definition bb_wf :: "ByteBuffer \<Rightarrow> bool" where
  "bb_wf b \<longleftrightarrow> bb_rpos b \<le> bb_size b \<and> bb_wpos b \<le> bb_size b \<and> bb_size b < 2 ^ 62"

lemma size_add_small [simp]: "a + b < 2 ^ 64 \<Longrightarrow> size_add a b = a + b"
  by (simp add: size_add_def)

lemma length_mem_write:
  "pos + length bs \<le> length st \<Longrightarrow> length (mem_write pos bs st) = length st"
  by (simp add: mem_write_def)

lemma length_vec_resize [simp]: "length (vec_resize n st) = n"
  by (simp add: vec_resize_def)

text \<open>A read with an in-range position either throws or returns the bytes stored there.\<close>

lemma bb_read_at_cases:
  assumes "pos < 2 ^ 63" and "bb_size b < 2 ^ 63" and "LENGTH('a::len) \<le> 64"
  shows "(bb_read_at pos b :: 'a word bb_result) =
     (if pos + LENGTH('a) div 8 \<le> bb_size b
      then Inr (word_of_nat (le_nat (take (LENGTH('a) div 8) (drop pos (bb_storage b)))))
      else Inl (PositionException False pos (LENGTH('a) div 8) (bb_size b)))"
proof -
  have "LENGTH('a) div 8 \<le> 8" using assms(3) by simp
  then have "pos + LENGTH('a) div 8 < 2 ^ 64" using assms(1) by simp
  then show ?thesis by (simp add: bb_read_at_def)
qed

lemma bb_read_wf:
  assumes "bb_wf b" and "LENGTH('a::len) \<le> 64" and "bb_read b = Inr (v :: 'a word, b')"
  shows "bb_wf b' \<and> bb_storage b' = bb_storage b \<and> bb_wpos b' = bb_wpos b
    \<and> bb_rpos b' = bb_rpos b + LENGTH('a) div 8"
proof -
  from assms(1) have "bb_rpos b < 2 ^ 63" "bb_size b < 2 ^ 63" by (auto simp: bb_wf_def)
  with assms show ?thesis
    by (auto simp: bb_read_def bb_read_at_cases bb_wf_def split: if_splits)
qed

lemma bb_read_safe:
  assumes "bb_wf b" and "LENGTH('a::len) \<le> 64"
  shows "(bb_read b :: ('a word \<times> ByteBuffer) bb_result) \<noteq> Inl OutOfBounds"
proof -
  from assms(1) have "bb_rpos b < 2 ^ 63" "bb_size b < 2 ^ 63" by (auto simp: bb_wf_def)
  with assms show ?thesis by (simp add: bb_read_def bb_read_at_cases)
qed

lemma bb_read_string_loop_ok:
  assumes "bb_wf b" and "bb_size b - bb_rpos b < fuel"
  shows "\<exists>s b'. bb_read_string_loop fuel b val = Inr (s, b') \<and> bb_wf b'
    \<and> bb_storage b' = bb_storage b \<and> bb_rpos b \<le> bb_rpos b'"
  using assms
proof (induction fuel arbitrary: b val)
  case (Suc fuel)
  show ?case
  proof (cases "bb_rpos b < bb_size b")
    case True
    then obtain c :: uint8 and b' where r: "bb_read b = Inr (c, b')"
      using Suc.prems(1) by (auto simp: bb_read_def bb_read_at_cases bb_wf_def)
    then have wf': "bb_wf b' \<and> bb_storage b' = bb_storage b \<and> bb_rpos b' = Suc (bb_rpos b)"
      using bb_read_wf [OF Suc.prems(1) _ r] by simp
    have "\<exists>s b''. bb_read_string_loop fuel b' (val @ [char_of_byte c]) = Inr (s, b'')
        \<and> bb_wf b'' \<and> bb_storage b'' = bb_storage b' \<and> bb_rpos b' \<le> bb_rpos b''"
      using wf' True Suc.prems(2) by (intro Suc.IH) auto
    with True r wf' show ?thesis by (cases "c = 0") auto
  qed (use Suc.prems in auto)
qed simp

lemma bb_append_raw_ok:
  assumes "bb_wf b" and "bb_size b < 10000000" and "bs \<noteq> []" and "length bs < 2 ^ 60"
  shows "bb_append_bytes bs b =
     Inr (b\<lparr>bb_storage := take (bb_wpos b) (bb_storage b) @ bs
              @ drop (bb_wpos b + length bs) (bb_storage b),
           bb_wpos := bb_wpos b + length bs\<rparr>)"
proof -
  have small: "bb_wpos b + length bs < 2 ^ 64" and wpos: "bb_wpos b \<le> bb_size b"
    using assms by (auto simp: bb_wf_def)
  show ?thesis
  proof (cases "bb_size b < bb_wpos b + length bs")
    case True
    then have "mem_write (bb_wpos b) bs (vec_resize (bb_wpos b + length bs) (bb_storage b))
        = take (bb_wpos b) (bb_storage b) @ bs @ drop (bb_wpos b + length bs) (bb_storage b)"
      using wpos by (simp add: mem_write_def vec_resize_def)
    with True small assms show ?thesis
      by (simp add: bb_append_bytes_def bb_append_raw_def)
  next
    case False
    with small assms show ?thesis
      by (simp add: bb_append_bytes_def bb_append_raw_def mem_write_def Let_def)
  qed
qed

text \<open>Appending at the end of the storage, the normal use of a packet under construction.\<close>

definition at_end :: "ByteBuffer \<Rightarrow> bool" where
  "at_end b \<longleftrightarrow> bb_wf b \<and> bb_wpos b = bb_size b"

definition grow :: "uint8 list \<Rightarrow> ByteBuffer \<Rightarrow> ByteBuffer" where
  "grow bs b = b\<lparr>bb_storage := bb_storage b @ bs, bb_wpos := bb_wpos b + length bs\<rparr>"

lemma grow_simps [simp]:
  "bb_storage (grow bs b) = bb_storage b @ bs" "bb_wpos (grow bs b) = bb_wpos b + length bs"
  "bb_rpos (grow bs b) = bb_rpos b"
  by (simp_all add: grow_def)

lemma grow_grow [simp]: "grow cs (grow bs b) = grow (bs @ cs) b"
  by (simp add: grow_def)

lemma grow_Nil [simp]: "grow [] b = b"
  by (simp add: grow_def)

lemma at_end_grow: "at_end b \<Longrightarrow> bb_size b + length bs < 2 ^ 62 \<Longrightarrow> at_end (grow bs b)"
  by (auto simp: at_end_def bb_wf_def)

lemma at_end_new [simp]: "at_end bb_new"
  by (simp add: at_end_def bb_wf_def bb_new_def)

lemma append_bytes_at_end:
  assumes "at_end b" and "bb_size b < 10000000" and "bs \<noteq> []" and "length bs < 2 ^ 60"
  shows "bb_append_bytes bs b = Inr (grow bs b)"
  using assms bb_append_raw_ok [of b bs] by (simp add: at_end_def grow_def)

section \<open>Streamable types\<close>

definition advance :: "nat \<Rightarrow> ByteBuffer \<Rightarrow> ByteBuffer" where
  "advance n b = b\<lparr>bb_rpos := bb_rpos b + n\<rparr>"

lemma advance_simps [simp]:
  "bb_storage (advance n b) = bb_storage b" "bb_wpos (advance n b) = bb_wpos b"
  "bb_rpos (advance n b) = bb_rpos b + n" "advance m (advance n b) = advance (n + m) b"
  "advance 0 b = b"
  by (simp_all add: advance_def)

lemma bb_wf_advance:
  "bb_wf b \<Longrightarrow> drop (bb_rpos b) (bb_storage b) = bs @ rest \<Longrightarrow> bb_wf (advance (length bs) b)"
proof -
  assume "bb_wf b" and d: "drop (bb_rpos b) (bb_storage b) = bs @ rest"
  from arg_cong [OF d, of length] have "bb_size b - bb_rpos b = length bs + length rest" by simp
  with \<open>bb_wf b\<close> show ?thesis by (auto simp: bb_wf_def)
qed

lemma drop_advance:
  "drop (bb_rpos b) (bb_storage b) = bs @ rest \<Longrightarrow>
   drop (bb_rpos (advance (length bs) b)) (bb_storage (advance (length bs) b)) = rest"
  by (metis add.commute advance_simps(1,3) append_eq_conv_conj drop_drop)

text \<open>
  What \<^verbatim>\<open>operator<<\<close> and \<^verbatim>\<open>operator>>\<close> of a type promise: writing at the end of a buffer adds
  the byte image of the value, and reading where that image starts returns the value and
  moves the read position behind it.
\<close>

locale byte_codec =
  fixes wr :: "'a \<Rightarrow> ByteBuffer \<Rightarrow> ByteBuffer bb_result"
    and rd :: "ByteBuffer \<Rightarrow> ('a \<times> ByteBuffer) bb_result"
    and enc :: "'a \<Rightarrow> uint8 list"
    and valid :: "'a \<Rightarrow> bool"
  assumes wr_ok: "valid x \<Longrightarrow> at_end b \<Longrightarrow> bb_size b + length (enc x) < 10000000 \<Longrightarrow>
      wr x b = Inr (grow (enc x) b)"
    and rd_ok: "valid x \<Longrightarrow> bb_wf b \<Longrightarrow> drop (bb_rpos b) (bb_storage b) = enc x @ rest \<Longrightarrow>
      rd b = Inr (x, advance (length (enc x)) b)"
begin

lemma wr_rd_roundtrip:
  assumes "valid x" "at_end b" "bb_rpos b = bb_size b" "bb_size b + length (enc x) < 10000000"
  shows "bindE (wr x b) rd = Inr (x, advance (length (enc x)) (grow (enc x) b))"
proof -
  have "at_end (grow (enc x) b)" using assms by (intro at_end_grow) auto
  then have "rd (grow (enc x) b) = Inr (x, advance (length (enc x)) (grow (enc x) b))"
    using assms by (intro rd_ok [where rest = "[]"]) (auto simp: at_end_def)
  with assms show ?thesis by (simp add: wr_ok)
qed

lemma write_elems_ok:
  "\<forall>x \<in> set xs. valid x \<Longrightarrow> at_end b \<Longrightarrow> bb_size b + length (concat (map enc xs)) < 10000000 \<Longrightarrow>
   write_elems wr xs b = Inr (grow (concat (map enc xs)) b)"
proof (induction xs arbitrary: b)
  case (Cons x xs)
  have "wr x b = Inr (grow (enc x) b)" using Cons.prems by (intro wr_ok) auto
  moreover have "at_end (grow (enc x) b)" using Cons.prems by (intro at_end_grow) auto
  ultimately show ?case using Cons by simp
qed simp

lemma read_elems_ok:
  "\<forall>x \<in> set xs. valid x \<Longrightarrow> bb_wf b \<Longrightarrow>
   drop (bb_rpos b) (bb_storage b) = concat (map enc xs) @ rest \<Longrightarrow>
   read_elems rd (length xs) v b = Inr (v @ xs, advance (length (concat (map enc xs))) b)"
proof (induction xs arbitrary: b v)
  case (Cons x xs)
  then have d: "drop (bb_rpos b) (bb_storage b) = enc x @ concat (map enc xs) @ rest" by simp
  with Cons.prems have "rd b = Inr (x, advance (length (enc x)) b)" by (intro rd_ok) auto
  moreover have "read_elems rd (length xs) (v @ [x]) (advance (length (enc x)) b)
      = Inr ((v @ [x]) @ xs, advance (length (concat (map enc xs))) (advance (length (enc x)) b))"
    using Cons.prems d by (intro Cons.IH bb_wf_advance drop_advance) auto
  ultimately show ?case by simp
qed simp

end

definition word_enc :: "'a::len word \<Rightarrow> uint8 list" where
  "word_enc v = le_bytes (LENGTH('a) div 8) (unat v)"

lemma length_word_enc [simp]: "length (word_enc (v :: 'a::len word)) = LENGTH('a) div 8"
  by (simp add: word_enc_def)

lemma word_enc_decode:
  "8 dvd LENGTH('a::len) \<Longrightarrow> word_of_nat (le_nat (word_enc v)) = (v :: 'a word)"
proof -
  assume "8 dvd LENGTH('a)"
  then obtain k where k: "LENGTH('a) = 8 * k" by (elim dvdE)
  then have "(256 :: nat) ^ (LENGTH('a) div 8) = 2 ^ LENGTH('a)" by (simp add: power_mult)
  then show ?thesis by (simp add: word_enc_def le_nat_le_bytes)
qed

lemma word_codec:
  assumes "8 dvd LENGTH('a::len)" and "LENGTH('a) \<le> 64"
  shows "byte_codec (bb_append :: 'a word \<Rightarrow> _) bb_read word_enc (\<lambda>_. True)"
proof
  fix x :: "'a word" and b assume b: "at_end b" "bb_size b + length (word_enc x) < 10000000"
  obtain k where k: "LENGTH('a) = 8 * k" using assms(1) by (elim dvdE)
  moreover have "0 < k" using len_gt_0 [where 'a = 'a] k by linarith
  ultimately have "word_enc x \<noteq> []" by (simp flip: length_0_conv)
  then show "bb_append x b = Inr (grow (word_enc x) b)"
    using b assms by (simp add: bb_append_def append_bytes_at_end flip: word_enc_def)
next
  fix x :: "'a word" and b rest
  assume b: "bb_wf b" and d: "drop (bb_rpos b) (bb_storage b) = word_enc x @ rest"
  have "bb_rpos b + LENGTH('a) div 8 \<le> bb_size b"
    using arg_cong [OF d, of length] b by (auto simp: bb_wf_def)
  with b d assms show "bb_read b = Inr (x, advance (length (word_enc x)) b)"
    by (simp add: bb_read_def bb_read_at_cases bb_wf_def word_enc_decode advance_def)
qed

interpretation u8c: byte_codec "bb_append :: uint8 \<Rightarrow> _" bb_read word_enc "\<lambda>_. True"
  by (rule word_codec) simp_all

interpretation u16c: byte_codec "bb_append :: uint16 \<Rightarrow> _" bb_read word_enc "\<lambda>_. True"
  by (rule word_codec) simp_all

interpretation u32c: byte_codec "bb_append :: uint32 \<Rightarrow> _" bb_read word_enc "\<lambda>_. True"
  by (rule word_codec) simp_all

interpretation u64c: byte_codec "bb_append :: uint64 \<Rightarrow> _" bb_read word_enc "\<lambda>_. True"
  by (rule word_codec) simp_all

subsection \<open>Strings\<close>

definition string_enc :: "string \<Rightarrow> uint8 list" where
  "string_enc s = map byte_of_char s @ [0]"

lemma char_of_byte_of_char [simp]: "char_of_byte (byte_of_char c) = c"
  by (simp add: char_of_byte_def byte_of_char_def unat_of_nat)

lemma byte_of_char_zero: "byte_of_char c = 0 \<longleftrightarrow> c = CHR 0x00"
proof
  assume "byte_of_char c = 0"
  then have "c = char_of_byte 0" by (metis char_of_byte_of_char)
  then show "c = CHR 0x00" by (simp add: char_of_byte_def char_of_def)
qed (simp add: byte_of_char_def)

lemma word_enc_byte [simp]: "word_enc (x :: uint8) = [x]"
  using unat_byte_less [of x] by (simp add: word_enc_def)

lemma read_string_loop_enc:
  assumes "bb_wf b" and "CHR 0x00 \<notin> set s" and "length s < fuel"
    and "drop (bb_rpos b) (bb_storage b) = map byte_of_char s @ 0 # rest"
  shows "bb_read_string_loop fuel b val = Inr (val @ s, advance (Suc (length s)) b)"
  using assms
proof (induction s arbitrary: fuel b val)
  case Nil
  then obtain f where "fuel = Suc f" by (cases fuel) auto
  moreover have "bb_rpos b < bb_size b"
    using Nil.prems(4) by (metis drop_all list.simps(8) append_Nil list.discI not_less)
  moreover have "bb_read b = Inr (0 :: uint8, advance 1 b)"
    using u8c.rd_ok [of b 0] Nil.prems by simp
  ultimately show ?case by simp
next
  case (Cons c s)
  then obtain f where f: "fuel = Suc f" by (cases fuel) auto
  have lt: "bb_rpos b < bb_size b"
    using Cons.prems(4) by (metis drop_all list.simps(9) append_Cons list.discI not_less)
  have rd: "bb_read b = Inr (byte_of_char c, advance 1 b)"
    using u8c.rd_ok [of b "byte_of_char c"] Cons.prems by simp
  have wf: "bb_wf (advance 1 b)"
    using bb_wf_advance [of b "[byte_of_char c]"] Cons.prems by simp
  have "drop (bb_rpos (advance 1 b)) (bb_storage (advance 1 b)) = map byte_of_char s @ 0 # rest"
    using drop_advance [of b "[byte_of_char c]"] Cons.prems by simp
  then have "bb_read_string_loop f (advance 1 b) (val @ [c])
      = Inr ((val @ [c]) @ s, advance (Suc (length s)) (advance 1 b))"
    using Cons.prems f wf by (intro Cons.IH) auto
  with Cons.prems f lt rd show ?case by (auto simp: byte_of_char_zero)
qed

interpretation strc: byte_codec bb_append_string bb_read_string string_enc "\<lambda>s. CHR 0x00 \<notin> set s"
proof
  fix s b assume "at_end b" "bb_size b + length (string_enc s) < 10000000"
  then show "bb_append_string s b = Inr (grow (string_enc s) b)"
    by (auto simp: bb_append_string_def string_enc_def append_bytes_at_end u8c.wr_ok at_end_grow)
next
  fix s b rest
  assume v: "CHR 0x00 \<notin> set s" and b: "bb_wf b"
    and d: "drop (bb_rpos b) (bb_storage b) = string_enc s @ rest"
  have "length s < Suc (bb_size b - bb_rpos b)"
    using arg_cong [OF d, of length] by (simp add: string_enc_def)
  with v b d show "bb_read_string b = Inr (s, advance (length (string_enc s)) b)"
    using read_string_loop_enc [of b s _ rest "[]"]
    by (simp add: bb_read_string_def string_enc_def del: bb_read_string_loop.simps)
qed

subsection \<open>Vectors, lists and maps\<close>

definition vector_enc :: "('a \<Rightarrow> uint8 list) \<Rightarrow> 'a list \<Rightarrow> uint8 list" where
  "vector_enc enc xs = word_enc (word_of_nat (length xs) :: uint32) @ concat (map enc xs)"

definition vector_valid :: "('a \<Rightarrow> bool) \<Rightarrow> 'a list \<Rightarrow> bool" where
  "vector_valid valid xs \<longleftrightarrow> length xs < 2 ^ 32 \<and> (\<forall>x \<in> set xs. valid x)"

context byte_codec
begin

lemma vector_codec: "byte_codec (write_vector wr) (read_vector rd) (vector_enc enc) (vector_valid valid)"
proof
  fix xs b assume v: "vector_valid valid xs" and b: "at_end b"
    and len: "bb_size b + length (vector_enc enc xs) < 10000000"
  have "bb_append (word_of_nat (length xs) :: uint32) b
      = Inr (grow (word_enc (word_of_nat (length xs) :: uint32)) b)"
    using b len by (intro u32c.wr_ok) (auto simp: vector_enc_def)
  moreover have "write_elems wr xs (grow (word_enc (word_of_nat (length xs) :: uint32)) b)
      = Inr (grow (concat (map enc xs)) (grow (word_enc (word_of_nat (length xs) :: uint32)) b))"
    using v b len by (intro write_elems_ok at_end_grow) (auto simp: vector_enc_def vector_valid_def)
  ultimately show "write_vector wr xs b = Inr (grow (vector_enc enc xs) b)"
    by (simp add: write_vector_def vector_enc_def)
next
  fix xs b rest assume v: "vector_valid valid xs" and b: "bb_wf b"
    and d: "drop (bb_rpos b) (bb_storage b) = vector_enc enc xs @ rest"
  let ?n = "word_of_nat (length xs) :: uint32"
  have d': "drop (bb_rpos b) (bb_storage b) = word_enc ?n @ concat (map enc xs) @ rest"
    using d by (simp add: vector_enc_def)
  have "bb_read b = Inr (?n, advance (length (word_enc ?n)) b)"
    using b d' by (intro u32c.rd_ok) auto
  moreover have "read_elems rd (length xs) [] (advance (length (word_enc ?n)) b)
      = Inr ([] @ xs, advance (length (concat (map enc xs))) (advance (length (word_enc ?n)) b))"
    using v b d' by (intro read_elems_ok bb_wf_advance drop_advance) (auto simp: vector_valid_def)
  moreover have "unat ?n = length xs" using v by (simp add: vector_valid_def unat_of_nat)
  ultimately show "read_vector rd b = Inr (xs, advance (length (vector_enc enc xs)) b)"
    by (simp add: read_vector_def vector_enc_def)
qed

end

locale pair_codec = k: byte_codec wk rk ek vk + v: byte_codec wv rv ev vv
  for wk :: "'k \<Rightarrow> ByteBuffer \<Rightarrow> ByteBuffer bb_result" and rk and ek and vk
    and wv :: "'v \<Rightarrow> ByteBuffer \<Rightarrow> ByteBuffer bb_result" and rv and ev and vv
begin

lemma pair_codec:
  "byte_codec (write_pair wk wv) (read_pair rk rv) (\<lambda>e. ek (fst e) @ ev (snd e))
     (\<lambda>e. vk (fst e) \<and> vv (snd e))"
proof
  fix e b assume v: "vk (fst e) \<and> vv (snd e)" and b: "at_end b"
    and len: "bb_size b + length (ek (fst e) @ ev (snd e)) < 10000000"
  have "wk (fst e) b = Inr (grow (ek (fst e)) b)" using v b len by (intro k.wr_ok) auto
  moreover have "wv (snd e) (grow (ek (fst e)) b) = Inr (grow (ev (snd e)) (grow (ek (fst e)) b))"
    using v b len by (intro v.wr_ok at_end_grow) auto
  ultimately show "write_pair wk wv e b = Inr (grow (ek (fst e) @ ev (snd e)) b)"
    by (simp add: write_pair_def)
next
  fix e b rest assume v: "vk (fst e) \<and> vv (snd e)" and b: "bb_wf b"
    and d: "drop (bb_rpos b) (bb_storage b) = (ek (fst e) @ ev (snd e)) @ rest"
  then have d': "drop (bb_rpos b) (bb_storage b) = ek (fst e) @ ev (snd e) @ rest" by simp
  have "rk b = Inr (fst e, advance (length (ek (fst e))) b)"
    using v b d' by (intro k.rd_ok) auto
  moreover have "rv (advance (length (ek (fst e))) b)
      = Inr (snd e, advance (length (ev (snd e))) (advance (length (ek (fst e))) b))"
    using v b d' by (intro v.rd_ok [OF _ bb_wf_advance drop_advance]) auto
  ultimately show "read_pair rk rv b = Inr (e, advance (length (ek (fst e) @ ev (snd e))) b)"
    by (simp add: read_pair_def)
qed

end

interpretation u32vec: byte_codec "write_vector (bb_append :: uint32 \<Rightarrow> _)" "read_vector bb_read"
    "vector_enc word_enc" "vector_valid (\<lambda>_. True)"
  by (rule u32c.vector_codec)

interpretation strvec: byte_codec "write_vector bb_append_string" "read_vector bb_read_string"
    "vector_enc string_enc" "vector_valid (\<lambda>s. CHR 0x00 \<notin> set s)"
  by (rule strc.vector_codec)

interpretation u32str: pair_codec "bb_append :: uint32 \<Rightarrow> _" bb_read word_enc "\<lambda>_. True"
    bb_append_string bb_read_string string_enc "\<lambda>s. CHR 0x00 \<notin> set s"
  by unfold_locales

lemma map_put_greater:
  "\<forall>e \<in> set m. fst e < k \<Longrightarrow> map_put k v m = m @ [(k, v)]"
  by (induction m) auto

lemma fold_map_insert_new:
  "map_wf (m @ es) \<Longrightarrow> fold map_insert_new es m = m @ es"
proof (induction es arbitrary: m)
  case (Cons e es)
  have lt: "\<forall>x \<in> set m. fst x < fst e"
    using Cons.prems by (auto simp: map_wf_def sorted_wrt_append)
  then have "map_of m (fst e) = None" by (force simp: map_of_eq_None_iff)
  with lt have "map_insert_new e m = m @ [e]" by (simp add: map_insert_new_def map_put_greater)
  with Cons show ?case by simp
qed simp

section \<open>Packed GUIDs\<close>

declare pack_guid_loop.simps [simp del]

definition no_bits_from :: "nat \<Rightarrow> uint8 \<Rightarrow> bool" where
  "no_bits_from i m \<longleftrightarrow> (\<forall>j \<ge> i. \<not> bit m j)"

lemma and_exp_bit [simp]: "m AND 2 ^ i = 0 \<longleftrightarrow> \<not> bit (m :: 'a::len word) i"
  by (metis bit_iff_and_push_bit_not_eq_0 push_bit_of_1)

lemma read_guid_loop_no_bits:
  "no_bits_from i m \<Longrightarrow> read_guid_loop n i m acc b = Inr (acc, b)"
proof (induction n arbitrary: i)
  case (Suc n)
  then have "\<not> bit m i" by (simp add: no_bits_from_def)
  moreover have "no_bits_from (Suc i) m" using Suc.prems by (simp add: no_bits_from_def)
  ultimately show ?case using Suc.IH by simp
qed simp

text \<open>The eight bits peeled off by one round, put back in front of the remaining ones.\<close>

lemma word64_split_byte:
  fixes g :: uint64
  shows "push_bit (i * 8) g
    = push_bit (i * 8) (ucast (ucast (g AND 0xFF) :: uint8)) OR push_bit (Suc i * 8) (drop_bit 8 g)"
proof (rule bit_word_eqI)
  fix n assume "n < LENGTH(64)"
  have mask: "(0xFF :: uint64) = mask 8" by (simp add: mask_eq_exp_minus_1)
  show "bit (push_bit (i * 8) g) n \<longleftrightarrow> bit (push_bit (i * 8) (ucast (ucast (g AND 0xFF) :: uint8))
      OR push_bit (Suc i * 8) (drop_bit 8 g)) n"
  proof (cases "8 + i * 8 \<le> n")
    case True
    then have "8 + (n - (8 + i * 8)) = n - i * 8" by simp
    with True show ?thesis unfolding mask by (auto simp: bit_simps)
  next
    case False
    then show ?thesis unfolding mask by (auto simp: bit_simps)
  qed
qed

lemma drop_bit_drop_bit_8: "drop_bit (8 * Suc n) g = 0 \<Longrightarrow> drop_bit (8 * n) (drop_bit 8 g) = (0 :: uint64)"
  by (simp add: add.commute)

lemma pack_guid_loop_read:
  assumes "i + n = 8" and "drop_bit (8 * n) g = 0" and "no_bits_from i m"
  shows "\<exists>m' cs. pack_guid_loop i g m bs = (m', bs @ cs) \<and> length cs \<le> n
    \<and> (\<forall>j < i. bit m' j = bit m j)
    \<and> (\<forall>b acc rest. bb_wf b \<longrightarrow> drop (bb_rpos b) (bb_storage b) = cs @ rest \<longrightarrow>
         read_guid_loop n i m' acc b = Inr (acc OR push_bit (i * 8) g, advance (length cs) b))"
  using assms
proof (induction n arbitrary: i g m bs)
  case 0
  then show ?case by (simp add: pack_guid_loop.simps [of _ 0])
next
  case (Suc n)
  have step: "Suc i + n = 8" and small: "drop_bit (8 * n) (drop_bit 8 g) = 0"
    using Suc.prems drop_bit_drop_bit_8 by auto
  consider (zero) "g = 0" | (skip) "g \<noteq> 0" "g AND 0xFF = 0" | (byte) "g \<noteq> 0" "g AND 0xFF \<noteq> 0"
    by blast
  then show ?case
  proof cases
    case zero
    then show ?thesis
      using Suc.prems by (simp add: pack_guid_loop.simps [of _ 0] read_guid_loop_no_bits
          del: read_guid_loop.simps)
  next
    case skip
    have nb: "no_bits_from (Suc i) m" "\<not> bit m i" using Suc.prems by (auto simp: no_bits_from_def)
    obtain m' cs where IH: "pack_guid_loop (Suc i) (drop_bit 8 g) m bs = (m', bs @ cs)"
        "length cs \<le> n" "\<forall>j < Suc i. bit m' j = bit m j"
        "\<And>b acc rest. bb_wf b \<Longrightarrow> drop (bb_rpos b) (bb_storage b) = cs @ rest \<Longrightarrow>
           read_guid_loop n (Suc i) m' acc b
             = Inr (acc OR push_bit (Suc i * 8) (drop_bit 8 g), advance (length cs) b)"
      using Suc.IH [OF step small nb(1)] by metis
    have "\<not> bit m' i" using IH(3) nb by simp
    moreover have "push_bit (Suc i * 8) (drop_bit 8 g) = push_bit (i * 8) g"
      using word64_split_byte [of i g] skip by simp
    ultimately show ?thesis
      using IH skip by (intro exI [of _ m'] exI [of _ cs])
        (auto simp: pack_guid_loop.simps [of i])
  next
    case byte
    let ?c = "ucast (g AND 0xFF) :: uint8"
    let ?m = "m OR push_bit i 1"
    have nb: "no_bits_from (Suc i) ?m"
      using Suc.prems by (auto simp: no_bits_from_def bit_simps)
    obtain m' cs where IH: "pack_guid_loop (Suc i) (drop_bit 8 g) ?m (bs @ [?c]) = (m', (bs @ [?c]) @ cs)"
        "length cs \<le> n" "\<forall>j < Suc i. bit m' j = bit ?m j"
        "\<And>b acc rest. bb_wf b \<Longrightarrow> drop (bb_rpos b) (bb_storage b) = cs @ rest \<Longrightarrow>
           read_guid_loop n (Suc i) m' acc b
             = Inr (acc OR push_bit (Suc i * 8) (drop_bit 8 g), advance (length cs) b)"
      using Suc.IH [OF step small nb] by metis
    have "bit m' i" using IH(3) Suc.prems(1) by (simp add: bit_simps)
    have low: "\<forall>j < i. bit m' j = bit m j" using IH(3) by (auto simp: bit_simps)
    have "read_guid_loop (Suc n) i m' acc b
        = Inr (acc OR push_bit (i * 8) g, advance (length (?c # cs)) b)"
      if b: "bb_wf b" and d: "drop (bb_rpos b) (bb_storage b) = (?c # cs) @ rest" for b acc rest
    proof -
      have d1: "drop (bb_rpos b) (bb_storage b) = [?c] @ cs @ rest" using d by simp
      have "bb_rpos b < bb_size b" using d by (metis append_Cons drop_all list.discI not_less)
      then have "\<not> size_add (bb_rpos b) 1 > bb_size b" using b by (simp add: bb_wf_def)
      moreover have "bb_read b = Inr (?c, advance 1 b)"
        using u8c.rd_ok [of b ?c "cs @ rest"] b d1 by simp
      moreover have "read_guid_loop n (Suc i) m' (acc OR push_bit (i * 8) (ucast ?c)) (advance 1 b)
          = Inr ((acc OR push_bit (i * 8) (ucast ?c)) OR push_bit (Suc i * 8) (drop_bit 8 g),
                 advance (length cs) (advance 1 b))"
        using bb_wf_advance [OF b d1] drop_advance [OF d1] by (intro IH(4)) auto
      ultimately show ?thesis
        using \<open>bit m' i\<close> word64_split_byte [of i g] by (simp add: or.assoc)
    qed
    moreover have "pack_guid_loop i g m bs = (m', bs @ ?c # cs)"
      using IH(1) byte by (simp add: pack_guid_loop.simps [of i])
    ultimately show ?thesis
      using IH(2) low by (intro exI [of _ m'] exI [of _ "?c # cs"]) auto
  qed
qed

definition guid_enc :: "uint64 \<Rightarrow> uint8 list" where
  "guid_enc guid = (case pack_guid_loop 0 guid 0 [] of (m, bs) \<Rightarrow> m # bs)"

lemma guid_enc_read:
  "length (guid_enc guid) \<le> 9 \<and> (\<forall>b rest. bb_wf b \<longrightarrow> drop (bb_rpos b) (bb_storage b) = guid_enc guid @ rest \<longrightarrow>
     bb_readPackGUID b = Inr (guid, advance (length (guid_enc guid)) b))"
proof -
  have z: "drop_bit (8 * 8) guid = 0" by (rule bit_word_eqI) (simp add: bit_simps)
  have "no_bits_from 0 0" by (simp add: no_bits_from_def)
  from pack_guid_loop_read [of 0 8, OF _ z this, of "[]"] obtain m cs where
    p: "pack_guid_loop 0 guid 0 [] = (m, cs)" "length cs \<le> 8" and
    r: "\<And>b acc rest. bb_wf b \<Longrightarrow> drop (bb_rpos b) (bb_storage b) = cs @ rest \<Longrightarrow>
          read_guid_loop 8 0 m acc b = Inr (acc OR push_bit (0 * 8) guid, advance (length cs) b)"
    by auto
  have "bb_readPackGUID b = Inr (guid, advance (Suc (length cs)) b)"
    if b: "bb_wf b" and d: "drop (bb_rpos b) (bb_storage b) = m # cs @ rest" for b rest
  proof -
    have d1: "drop (bb_rpos b) (bb_storage b) = [m] @ cs @ rest" using d by simp
    have "bb_rpos b < bb_size b" using d by (metis drop_all list.discI not_less)
    then have "\<not> size_add (bb_rpos b) 1 > bb_size b" using b by (simp add: bb_wf_def)
    moreover have "bb_read b = Inr (m, advance 1 b)"
      using u8c.rd_ok [of b m "cs @ rest"] b d1 by simp
    moreover have "read_guid_loop 8 0 m 0 (advance 1 b) = Inr (guid, advance (length cs) (advance 1 b))"
      using r [of "advance 1 b" rest 0] bb_wf_advance [OF b d1] drop_advance [OF d1] by simp
    ultimately show ?thesis by (simp add: bb_readPackGUID_def del: read_guid_loop.simps)
  qed
  with p show ?thesis by (simp add: guid_enc_def)
qed

interpretation guidc: byte_codec bb_appendPackGUID bb_readPackGUID guid_enc "\<lambda>_. True"
proof
  fix guid b assume "at_end b" "bb_size b + length (guid_enc guid) < 10000000"
  then show "bb_appendPackGUID guid b = Inr (grow (guid_enc guid) b)"
    by (auto simp: bb_appendPackGUID_def guid_enc_def append_bytes_at_end split: prod.splits)
next
  fix guid b rest assume "bb_wf b" "drop (bb_rpos b) (bb_storage b) = guid_enc guid @ rest"
  then show "bb_readPackGUID b = Inr (guid, advance (length (guid_enc guid)) b)"
    using guid_enc_read by blast
qed

section \<open>Packed calendar times\<close>

lemma bit_of_small:
  assumes "0 \<le> x" "x < 2 ^ k"
  shows "bit (word_of_int x :: 'a::len word) n \<Longrightarrow> n < k"
proof (rule ccontr)
  assume b: "bit (word_of_int x :: 'a word) n" and "\<not> n < k"
  then have "x < 2 ^ n" using assms by (meson not_less order_less_le_trans power_increasing one_le_numeral)
  then have "\<not> bit x n" using assms by (simp add: bit_iff_odd)
  with b show False by (simp add: bit_simps)
qed

definition tm_in_range :: "tm \<Rightarrow> bool" where
  "tm_in_range lt \<longleftrightarrow> 0 \<le> tm_min lt \<and> tm_min lt < 60 \<and> 0 \<le> tm_hour lt \<and> tm_hour lt < 24
     \<and> 1 \<le> tm_mday lt \<and> tm_mday lt \<le> 31 \<and> 0 \<le> tm_mon lt \<and> tm_mon lt < 12
     \<and> 100 \<le> tm_year lt \<and> tm_year lt < 132 \<and> 0 \<le> tm_wday lt \<and> tm_wday lt < 7"

lemma packed_field:
  fixes x :: int and hi lo :: uint32
  assumes "0 \<le> x" "x < 2 ^ w" "p + w \<le> 32"
    and "\<And>n. bit lo n \<Longrightarrow> n < p" and "\<And>n. bit hi n \<Longrightarrow> p + w \<le> n"
  shows "uint (drop_bit p (hi OR push_bit p (word_of_int x) OR lo) AND mask w) = x"
proof -
  have "drop_bit p (hi OR push_bit p (word_of_int x) OR lo) AND mask w = (word_of_int x :: uint32)"
  proof (rule bit_word_eqI)
    fix n assume "n < LENGTH(32)"
    have "\<not> bit lo (p + n)" using assms(4) by fastforce
    moreover have "\<not> bit hi (p + n)" if "n < w" using assms(5) that by fastforce
    moreover have "n < w" if "bit (word_of_int x :: uint32) n" using bit_of_small assms that by blast
    ultimately show "bit (drop_bit p (hi OR push_bit p (word_of_int x) OR lo) AND mask w) n
        = bit (word_of_int x :: uint32) n"
      using assms(3) by (auto simp: bit_simps)
  qed
  moreover have "x < 2 ^ 32"
    using assms(2,3) by (meson add_leD2 le_trans order_less_le_trans power_increasing one_le_numeral)
  ultimately show ?thesis using assms(1) by (simp add: unsigned_of_int take_bit_int_eq_self)
qed

lemma bit_shifted_field:
  assumes "0 \<le> x" "x < 2 ^ k" "bit (push_bit q (word_of_int x) :: uint32) n"
  shows "q \<le> n \<and> n < q + k"
proof -
  from assms(3) have "q \<le> n" "bit (word_of_int x :: uint32) (n - q)" by (auto simp: bit_simps)
  with bit_of_small [OF assms(1,2)] show ?thesis by fastforce
qed

lemma unpack_pack_tm:
  assumes "tm_in_range lt"
  shows "unpack_tm (pack_tm lt) = lt\<lparr>tm_wday := 0\<rparr>"
proof -
  define F where "F q x = (push_bit q (word_of_int x) :: uint32)" for q x
  note packed = packed_field [folded F_def] and shifted = bit_shifted_field [folded F_def]
  let ?y = "F 24 (tm_year lt - 100)" and ?mo = "F 20 (tm_mon lt)" and ?d = "F 14 (tm_mday lt - 1)"
    and ?w = "F 11 (tm_wday lt)" and ?h = "F 6 (tm_hour lt)" and ?mi = "F 0 (tm_min lt)"
  have pk: "pack_tm lt = ?y OR ?mo OR ?d OR ?w OR ?h OR ?mi" by (simp add: pack_tm_def F_def)
  have y: "bit ?y n \<Longrightarrow> 24 \<le> n \<and> n < 29" and mo: "bit ?mo n \<Longrightarrow> 20 \<le> n \<and> n < 24"
    and d: "bit ?d n \<Longrightarrow> 14 \<le> n \<and> n < 20" and w: "bit ?w n \<Longrightarrow> 11 \<le> n \<and> n < 14"
    and h: "bit ?h n \<Longrightarrow> 6 \<le> n \<and> n < 11" and mi: "bit ?mi n \<Longrightarrow> 0 \<le> n \<and> n < 6" for n
    using assms shifted [of "tm_year lt - 100" 5 24 n] shifted [of "tm_mon lt" 4 20 n]
      shifted [of "tm_mday lt - 1" 6 14 n] shifted [of "tm_wday lt" 3 11 n]
      shifted [of "tm_hour lt" 5 6 n] shifted [of "tm_min lt" 6 0 n]
    by (auto simp: tm_in_range_def)
  have "uint (drop_bit 24 (0 OR ?y OR (?mo OR ?d OR ?w OR ?h OR ?mi)) AND mask 5) = tm_year lt - 100"
    by (rule packed) (use assms in \<open>auto simp: tm_in_range_def bit_or_iff dest: mo d w h mi\<close>)
  moreover have "uint (drop_bit 20 (?y OR ?mo OR (?d OR ?w OR ?h OR ?mi)) AND mask 4) = tm_mon lt"
    by (rule packed) (use assms in \<open>auto simp: tm_in_range_def bit_or_iff dest: y d w h mi\<close>)
  moreover have "uint (drop_bit 14 ((?y OR ?mo) OR ?d OR (?w OR ?h OR ?mi)) AND mask 6) = tm_mday lt - 1"
    by (rule packed) (use assms in \<open>auto simp: tm_in_range_def bit_or_iff dest: y mo w h mi\<close>)
  moreover have "uint (drop_bit 6 ((?y OR ?mo OR ?d OR ?w) OR ?h OR ?mi) AND mask 5) = tm_hour lt"
    by (rule packed) (use assms in \<open>auto simp: tm_in_range_def bit_or_iff dest: y mo d w mi\<close>)
  moreover have "uint (drop_bit 0 ((?y OR ?mo OR ?d OR ?w OR ?h) OR ?mi OR 0) AND mask 6) = tm_min lt"
    by (rule packed) (use assms in \<open>auto simp: tm_in_range_def bit_or_iff dest: y mo d w h\<close>)
  moreover have "mask 6 = (0x3F :: uint32)" "mask 5 = (0x1F :: uint32)" "mask 4 = (0xF :: uint32)"
    by (simp_all add: mask_eq_exp_minus_1)
  ultimately show ?thesis unfolding pk unpack_tm_def by (simp add: or.assoc)
qed

section \<open>Safe readers\<close>

text \<open>
  A reader is safe when, on a well-formed buffer, it fails with the position exception only (so that it
  never touches memory outside the storage and its loops end) and otherwise leaves a well-formed
  buffer with the same contents.  Reading a container of safely readable elements is safe.
\<close>

definition bb_safe :: "'a bb_result \<Rightarrow> bool" where
  "bb_safe r \<longleftrightarrow> (\<forall>e. r = Inl e \<longrightarrow> is_PositionException e)"

lemma bb_safe_simps [simp]: "bb_safe (Inr x)" "bb_safe (Inl e) \<longleftrightarrow> is_PositionException e"
  by (simp_all add: bb_safe_def)

lemma bb_safe_bindE: "bb_safe r \<Longrightarrow> (\<And>x. r = Inr x \<Longrightarrow> bb_safe (f x)) \<Longrightarrow> bb_safe (bindE r f)"
  by (cases r) simp_all

definition keeps_buffer :: "ByteBuffer \<Rightarrow> ByteBuffer \<Rightarrow> bool" where
  "keeps_buffer b b' \<longleftrightarrow> bb_wf b' \<and> bb_storage b' = bb_storage b \<and> bb_wpos b' = bb_wpos b"

locale safe_reader =
  fixes rd :: "ByteBuffer \<Rightarrow> ('a \<times> ByteBuffer) bb_result"
  assumes no_fault: "bb_wf b \<Longrightarrow> bb_safe (rd b)"
    and keeps: "bb_wf b \<Longrightarrow> rd b = Inr (x, b') \<Longrightarrow> keeps_buffer b b'"
begin

lemma read_elems_no_fault: "bb_wf b \<Longrightarrow> bb_safe (read_elems rd n v b)"
proof (induction n arbitrary: v b)
  case (Suc n)
  show ?case
  proof (cases "rd b")
    case (Inl e)
    then show ?thesis using no_fault [OF Suc.prems] by simp
  next
    case (Inr p)
    then obtain x b' where p: "rd b = Inr (x, b')" by (cases p) simp
    then have "bb_wf b'" using keeps [OF Suc.prems] by (simp add: keeps_buffer_def)
    with Suc.IH p show ?thesis by simp
  qed
qed simp

lemma read_elems_keeps: "bb_wf b \<Longrightarrow> read_elems rd n v b = Inr (xs, b') \<Longrightarrow> keeps_buffer b b'"
proof (induction n arbitrary: v b)
  case 0
  then show ?case by (simp add: keeps_buffer_def)
next
  case (Suc n)
  then obtain x c where c: "rd b = Inr (x, c)" "read_elems rd n (v @ [x]) c = Inr (xs, b')"
    by (auto simp: bindE_Inr_iff)
  then have "keeps_buffer b c" using keeps Suc.prems by blast
  with Suc.IH [OF _ c(2)] show ?case by (auto simp: keeps_buffer_def)
qed

end

lemma word_safe_reader:
  assumes "LENGTH('a::len) \<le> 64"
  shows "safe_reader (bb_read :: _ \<Rightarrow> ('a word \<times> ByteBuffer) bb_result)"
proof
  fix b :: ByteBuffer assume b: "bb_wf b"
  then show "bb_safe (bb_read b :: ('a word \<times> ByteBuffer) bb_result)"
    using assms by (auto simp: bb_read_def bb_read_at_cases bb_wf_def)
next
  fix b b' and x :: "'a word" assume "bb_wf b" "bb_read b = Inr (x, b')"
  then show "keeps_buffer b b'" using bb_read_wf assms by (auto simp: keeps_buffer_def)
qed

interpretation r8: safe_reader "bb_read :: _ \<Rightarrow> (uint8 \<times> ByteBuffer) bb_result"
  by (rule word_safe_reader) simp

interpretation r16: safe_reader "bb_read :: _ \<Rightarrow> (uint16 \<times> ByteBuffer) bb_result"
  by (rule word_safe_reader) simp

interpretation r32: safe_reader "bb_read :: _ \<Rightarrow> (uint32 \<times> ByteBuffer) bb_result"
  by (rule word_safe_reader) simp

interpretation r64: safe_reader "bb_read :: _ \<Rightarrow> (uint64 \<times> ByteBuffer) bb_result"
  by (rule word_safe_reader) simp

interpretation rbool: safe_reader bb_read_bool
proof
  fix b assume b: "bb_wf b"
  then show "bb_safe (bb_read_bool b)"
    using r8.no_fault [of b] by (cases "bb_read b :: (uint8 \<times> ByteBuffer) bb_result") (auto simp: bb_read_bool_def)
next
  fix b x b' assume "bb_wf b" "bb_read_bool b = Inr (x, b')"
  then show "keeps_buffer b b'" using r8.keeps by (auto simp: bb_read_bool_def bindE_Inr_iff)
qed

lemma read_string_loop_wpos:
  "bb_wf b \<Longrightarrow> bb_read_string_loop fuel b val = Inr (s, b') \<Longrightarrow> bb_wpos b' = bb_wpos b"
proof (induction fuel arbitrary: b val)
  case (Suc fuel)
  show ?case
  proof (cases "bb_rpos b < bb_size b")
    case True
    with Suc.prems obtain c :: uint8 and b1 where r: "bb_read b = Inr (c, b1)"
      and loop: "(if c = 0 then Inr (val, b1)
         else bb_read_string_loop fuel b1 (val @ [char_of_byte c])) = Inr (s, b')"
      by (auto simp: bindE_Inr_iff)
    have "keeps_buffer b b1" using r8.keeps Suc.prems(1) r by blast
    with loop Suc.IH [of b1] show ?thesis by (auto simp: keeps_buffer_def split: if_splits)
  qed (use Suc.prems in simp)
qed simp

interpretation rstr: safe_reader bb_read_string
proof
  fix b assume "bb_wf b"
  then show "bb_safe (bb_read_string b)"
    using bb_read_string_loop_ok [of b "Suc (bb_size b - bb_rpos b)" "[]"]
    by (auto simp: bb_read_string_def simp del: bb_read_string_loop.simps)
next
  fix b s b' assume "bb_wf b" "bb_read_string b = Inr (s, b')"
  then show "keeps_buffer b b'"
    using bb_read_string_loop_ok [of b "Suc (bb_size b - bb_rpos b)" "[]"] read_string_loop_wpos
    by (auto simp: bb_read_string_def keeps_buffer_def simp del: bb_read_string_loop.simps)
qed

lemma read_guid_loop_safe:
  "bb_wf b \<Longrightarrow> bb_safe (read_guid_loop n i m acc b)
     \<and> (\<forall>g b'. read_guid_loop n i m acc b = Inr (g, b') \<longrightarrow> keeps_buffer b b')"
proof (induction n arbitrary: i acc b)
  case 0
  then show ?case by (simp add: keeps_buffer_def)
next
  case (Suc n)
  show ?case
  proof (cases "bb_read b :: (uint8 \<times> ByteBuffer) bb_result")
    case (Inl e)
    then show ?thesis using r8.no_fault [OF Suc.prems] Suc by (auto simp: keeps_buffer_def)
  next
    case (Inr p)
    then obtain c :: uint8 and b1 where r: "bb_read b = Inr (c, b1)" by (cases p) simp
    then have k: "keeps_buffer b b1" using r8.keeps Suc.prems by blast
    then have "bb_wf b1" by (simp add: keeps_buffer_def)
    from Suc.IH [OF this] Suc.IH [OF Suc.prems] r k show ?thesis
      by (auto simp: keeps_buffer_def)
  qed
qed

interpretation rguid: safe_reader bb_readPackGUID
proof
  fix b assume b: "bb_wf b"
  show "bb_safe (bb_readPackGUID b)"
  proof (cases "bb_read b :: (uint8 \<times> ByteBuffer) bb_result")
    case (Inl e)
    then show ?thesis using r8.no_fault [OF b] by (simp add: bb_readPackGUID_def)
  next
    case (Inr p)
    then obtain m :: uint8 and c where r: "bb_read b = Inr (m, c)" by (cases p) simp
    then have "bb_wf c" using r8.keeps [OF b] by (simp add: keeps_buffer_def)
    from read_guid_loop_safe [OF this, of 8 0 m 0] r show ?thesis
      by (simp add: bb_readPackGUID_def del: read_guid_loop.simps)
  qed
next
  fix b g b' assume b: "bb_wf b" and r: "bb_readPackGUID b = Inr (g, b')"
  then obtain m :: uint8 and c where "bb_read b = Inr (m, c)" "read_guid_loop 8 0 m 0 c = Inr (g, b')"
    by (auto simp: bb_readPackGUID_def bindE_Inr_iff simp del: read_guid_loop.simps split: if_splits)
  then show "keeps_buffer b b'"
    using r8.keeps [OF b] read_guid_loop_safe [of c 8 0 m 0] by (auto simp: keeps_buffer_def)
qed

text \<open>A block read with a length below \<open>2 ^ 63\<close>, and skipping, which cannot fault at all.\<close>

lemma bytes_safe_reader: "len < 2 ^ 63 \<Longrightarrow> safe_reader (bb_read_bytes len)"
  by unfold_locales (auto simp: bb_read_bytes_def bb_wf_def keeps_buffer_def split: if_splits)

lemma skip_keeps: "bb_wf b \<Longrightarrow> bb_read_skip n b = Inr b' \<Longrightarrow> keeps_buffer b b'"
  by (auto simp: bb_read_skip_def bb_wf_def keeps_buffer_def split: if_splits)

lemma skip_no_fault [simp]: "bb_safe (bb_read_skip n b)"
  by (simp add: bb_read_skip_def)

text \<open>A packet handler reads a packet by a sequence of these operations.\<close>

datatype read_op = RU8 | RU16 | RU32 | RU64 | RBool | RString | RGuid | RBytes nat | RSkip nat | RFinish

definition drop_value :: "('a \<times> ByteBuffer) bb_result \<Rightarrow> ByteBuffer bb_result" where
  "drop_value r = bindE r (\<lambda>(x, b). Inr b)"

fun run_read :: "read_op \<Rightarrow> ByteBuffer \<Rightarrow> ByteBuffer bb_result" where
  "run_read RU8 b = drop_value (bb_read b :: (uint8 \<times> _) bb_result)"
| "run_read RU16 b = drop_value (bb_read b :: (uint16 \<times> _) bb_result)"
| "run_read RU32 b = drop_value (bb_read b :: (uint32 \<times> _) bb_result)"
| "run_read RU64 b = drop_value (bb_read b :: (uint64 \<times> _) bb_result)"
| "run_read RBool b = drop_value (bb_read_bool b)"
| "run_read RString b = drop_value (bb_read_string b)"
| "run_read RGuid b = drop_value (bb_readPackGUID b)"
| "run_read (RBytes n) b = drop_value (bb_read_bytes n b)"
| "run_read (RSkip n) b = bb_read_skip n b"
| "run_read RFinish b = Inr (bb_rfinish b)"

fun run_reads :: "read_op list \<Rightarrow> ByteBuffer \<Rightarrow> ByteBuffer bb_result" where
  "run_reads [] b = Inr b"
| "run_reads (r # rs) b = bindE (run_read r b) (run_reads rs)"

fun op_bounded :: "read_op \<Rightarrow> bool" where
  "op_bounded (RBytes n) = (n < 2 ^ 63)"
| "op_bounded _ = True"

definition safe_outcome :: "ByteBuffer \<Rightarrow> ByteBuffer bb_result \<Rightarrow> bool" where
  "safe_outcome b r \<longleftrightarrow>
     bb_safe r \<and> (\<forall>b'. r = Inr b' \<longrightarrow> keeps_buffer b b')"

lemma drop_value_safe:
  assumes "safe_reader rd" "bb_wf b"
  shows "safe_outcome b (drop_value (rd b))"
  using safe_reader.no_fault [OF assms] safe_reader.keeps [OF assms]
  by (cases "rd b") (auto simp: drop_value_def safe_outcome_def)

lemma run_read_safe:
  assumes "bb_wf b" "op_bounded r"
  shows "safe_outcome b (run_read r b)"
proof (cases r)
  case (RBytes n)
  then show ?thesis using drop_value_safe [OF bytes_safe_reader assms(1)] assms(2) by simp
next
  case (RSkip n)
  then show ?thesis using skip_keeps skip_no_fault assms(1) by (simp add: safe_outcome_def)
next
  case RFinish
  then show ?thesis using assms(1) by (simp add: safe_outcome_def bb_rfinish_def keeps_buffer_def bb_wf_def)
qed (use assms(1) in \<open>simp_all add: drop_value_safe r8.safe_reader_axioms
  r16.safe_reader_axioms r32.safe_reader_axioms r64.safe_reader_axioms rbool.safe_reader_axioms
  rstr.safe_reader_axioms rguid.safe_reader_axioms\<close>)

lemma run_reads_safe:
  "bb_wf b \<Longrightarrow> list_all op_bounded rs \<Longrightarrow> safe_outcome b (run_reads rs b)"
proof (induction rs arbitrary: b)
  case Nil
  then show ?case by (simp add: keeps_buffer_def safe_outcome_def)
next
  case (Cons r rs)
  then have r: "safe_outcome b (run_read r b)" using run_read_safe by auto
  show ?case
  proof (cases "run_read r b")
    case (Inl e)
    then show ?thesis using r by (simp add: safe_outcome_def)
  next
    case (Inr c)
    then have "keeps_buffer b c" using r by (simp add: safe_outcome_def)
    with Inr Cons.IH [of c] Cons.prems show ?thesis by (auto simp: keeps_buffer_def safe_outcome_def)
  qed
qed

section \<open>Properties\<close>

text \<open>
  C14.  However a handler reads a well-formed packet buffer, by integers, booleans,
  strings, packed GUIDs, blocks shorter than \<open>2 ^ 63\<close> bytes and skips in any order, the only
  failure is the position exception: no operation touches memory outside the storage and every loop
  ends.  Without an exception the buffer stays well formed with its contents unchanged.
\<close>

theorem packet_reads_memory_safe:
  assumes "bb_wf b" and "list_all op_bounded ops"
  shows "(\<forall>e. run_reads ops b = Inl e \<longrightarrow> (\<exists>add pos size valueSize. e = PositionException add pos size valueSize))
    \<and> (\<forall>b'. run_reads ops b = Inr b' \<longrightarrow>
          bb_wf b' \<and> bb_storage b' = bb_storage b \<and> bb_wpos b' = bb_wpos b)"
  using run_reads_safe [OF assms] by (auto simp: keeps_buffer_def safe_outcome_def bb_safe_def is_PositionException_def)

theorem packet_reads_memory_safe_witness:
  "\<exists>add pos size n. run_reads [RU8, RU16, RString] \<lparr>bb_rpos = 0, bb_wpos = 2, bb_storage = [5, 65]\<rparr> = Inl (PositionException add pos size n)"
proof -
  let ?b = "\<lparr>bb_rpos = 0, bb_wpos = 2, bb_storage = [5, 65]\<rparr>"
  have "bb_wf ?b" by (simp add: bb_wf_def)
  moreover have "list_all op_bounded [RU8, RU16, RString]" by simp
  ultimately have "run_reads [RU8, RU16, RString] ?b = Inl e \<Longrightarrow> \<exists>add pos size n. e = PositionException add pos size n" for e
    using packet_reads_memory_safe by blast
  moreover have "run_reads [RU8, RU16, RString] ?b \<noteq> Inr b'" for b'
    by (simp add: drop_value_def bb_read_def bb_read_at_cases)
  ultimately show ?thesis by (cases "run_reads [RU8, RU16, RString] ?b") auto
qed

text \<open>
  Every integer width the server streams (8 to 64 bits, signed or unsigned,
  and the bit patterns of floats and doubles): a value appended at the end of a buffer whose
  read position is there is read back unchanged, and exactly its bytes are consumed.
\<close>

theorem append_read_roundtrip:
  fixes v :: "'a::len word"
  assumes "8 dvd LENGTH('a)" and "LENGTH('a) \<le> 64" and "at_end b" and "bb_rpos b = bb_size b"
    and "bb_size b + LENGTH('a) div 8 < 10000000"
  shows "bindE (bb_append v b) bb_read = Inr (v, advance (LENGTH('a) div 8) (grow (word_enc v) b))"
  using byte_codec.wr_rd_roundtrip [OF word_codec [OF assms(1,2)], where x = v and b = b] assms(3-) by simp

theorem append_read_roundtrip_witness:
  "bindE (bb_append (0xCAFE :: uint16) bb_new) bb_read
     = Inr (0xCAFE :: uint16, advance 2 (grow (word_enc (0xCAFE :: uint16)) bb_new))"
proof -
  have "bb_rpos bb_new = bb_size bb_new" "bb_size bb_new + LENGTH(16) div 8 < 10000000"
    by (simp_all add: bb_new_def)
  from append_read_roundtrip [OF _ _ at_end_new this, of "0xCAFE :: uint16"] show ?thesis
    by simp
qed

text \<open>
  \<^verbatim>\<open>readPackGUID\<close> inverts \<^verbatim>\<open>appendPackGUID\<close> on every 64-bit GUID; the packed
  form takes at most nine bytes and reading it ends exactly at the end of the buffer.
\<close>

theorem packGUID_roundtrip:
  assumes "at_end b" and "bb_rpos b = bb_size b" and "bb_size b + 9 < 10000000"
  shows "\<exists>b'. bb_appendPackGUID guid b = Inr b' \<and> bb_size b' \<le> bb_size b + 9
    \<and> take (bb_size b) (bb_storage b') = bb_storage b
    \<and> bb_readPackGUID b' = Inr (guid, b'\<lparr>bb_rpos := bb_size b'\<rparr>)"
proof -
  have len: "length (guid_enc guid) \<le> 9" using guid_enc_read by blast
  with assms guidc.wr_rd_roundtrip [where x = guid and b = b] guidc.wr_ok [where x = guid and b = b] show ?thesis
    by (auto simp: advance_def)
qed

theorem packGUID_roundtrip_witness:
  "\<exists>b'. bb_appendPackGUID 0x4200000000000001 bb_new = Inr b' \<and> bb_size b' \<le> bb_size bb_new + 9
    \<and> take (bb_size bb_new) (bb_storage b') = bb_storage bb_new
    \<and> bb_readPackGUID b' = Inr (0x4200000000000001, b'\<lparr>bb_rpos := bb_size b'\<rparr>)"
  by (rule packGUID_roundtrip) (simp_all add: bb_new_def at_end_def bb_wf_def)

text \<open>
  The container templates: a map of NUL-free strings keyed by \<^verbatim>\<open>uint32\<close> that
  is streamed into an empty buffer is rebuilt, entry for entry, by the matching extraction
  operator.
\<close>

theorem map_stream_roundtrip:
  fixes m :: "(uint32, string) smap"
  assumes "map_wf m" and "length m < 2 ^ 32" and "\<forall>e \<in> set m. CHR 0x00 \<notin> set (snd e)"
    and "length (vector_enc (\<lambda>e. word_enc (fst e) @ string_enc (snd e)) m) < 10000000"
  shows "\<exists>b b'. write_map bb_append bb_append_string m bb_new = Inr b
    \<and> read_map bb_read bb_read_string b = Inr (m, b') \<and> bb_rpos b' = bb_size b'"
proof -
  let ?enc = "vector_enc (\<lambda>e. word_enc (fst e) @ string_enc (snd e)) m"
  note mapc = byte_codec.vector_codec [OF u32str.pair_codec]
  have wm: "write_map bb_append bb_append_string m = write_vector (write_pair bb_append bb_append_string) m"
    by (simp add: write_map_def write_vector_def fun_eq_iff)
  have valid: "vector_valid (\<lambda>e. True \<and> CHR 0x00 \<notin> set (snd e)) m"
    using assms(2,3) by (simp add: vector_valid_def)
  have len: "bb_size bb_new + length ?enc < 10000000"
    using assms(4) by (simp add: bb_new_def)
  have w: "write_map bb_append bb_append_string m bb_new = Inr (grow ?enc bb_new)"
    using byte_codec.wr_ok [OF mapc valid at_end_new len] by (simp add: wm)
  have "bindE (write_map bb_append bb_append_string m bb_new) (read_vector (read_pair bb_read bb_read_string))
      = Inr (m, advance (length ?enc) (grow ?enc bb_new))"
    using byte_codec.wr_rd_roundtrip [OF mapc valid at_end_new _ len] by (simp add: wm bb_new_def)
  with w fold_map_insert_new [of "[]" m] assms(1) show ?thesis
    by (simp add: read_map_def) (simp add: bb_new_def)
qed

theorem map_stream_roundtrip_witness:
  "\<exists>b b'. write_map bb_append bb_append_string [(3 :: uint32, ''ab''), (7, '''')] bb_new = Inr b
    \<and> read_map bb_read bb_read_string b = Inr ([(3 :: uint32, ''ab''), (7, '''')], b')
    \<and> bb_rpos b' = bb_size b'"
  by (rule map_stream_roundtrip) (simp_all add: vector_enc_def string_enc_def)

text \<open>
  The 32-bit calendar format: for every broken-down time of the years 2000
  to 2031 the packed fields are recovered exactly (the weekday is not read back).
\<close>

theorem packed_time_roundtrip:
  assumes "tm_in_range (localtime t)" and "at_end b" and "bb_rpos b = bb_size b"
    and "bb_size b + 4 < 10000000"
  shows "\<exists>b'. bindE (bb_AppendPackedTime localtime t b) (bb_ReadPackedTime mktime timezone)
    = Inr (word_of_int (mktime ((localtime t)\<lparr>tm_wday := 0\<rparr>) + timezone), b')"
  using assms u32c.wr_rd_roundtrip [where x = "pack_tm (localtime t)" and b = b]
    u32c.wr_ok [where x = "pack_tm (localtime t)" and b = b]
  by (simp add: bb_AppendPackedTime_def bb_ReadPackedTime_def unpack_pack_tm)

theorem packed_time_roundtrip_witness:
  "\<exists>b'. bindE (bb_AppendPackedTime (\<lambda>_ :: unit. \<lparr>tm_min = 59, tm_hour = 23, tm_mday = 31, tm_mon = 11,
         tm_year = 113, tm_wday = 2\<rparr>) () bb_new) (bb_ReadPackedTime (\<lambda>lt. tm_mday lt * 100 + tm_hour lt) 0)
     = Inr (3123, b')"
proof -
  let ?lt = "\<lparr>tm_min = 59, tm_hour = 23, tm_mday = 31, tm_mon = 11, tm_year = 113, tm_wday = 2\<rparr>"
  have "tm_in_range ((\<lambda>_ :: unit. ?lt) ())" by (simp add: tm_in_range_def)
  from packed_time_roundtrip [where localtime = "\<lambda>_. ?lt" and b = bb_new and t = "()"
      and mktime = "\<lambda>lt. tm_mday lt * 100 + tm_hour lt" and timezone = 0, OF this at_end_new]
  show ?thesis by (simp add: bb_new_def)
qed

text \<open>
  \<^verbatim>\<open>put\<close> patches in place: it changes exactly the bytes of the value, and the
  patched value is what a read at that position returns.
\<close>

theorem put_patches_in_place:
  fixes v :: uint32
  assumes "bb_wf b" and "pos + 4 \<le> bb_size b"
  shows "\<exists>b'. bb_put pos v b = Inr b' \<and> bb_read_at pos b' = Inr v \<and> bb_size b' = bb_size b
    \<and> bb_rpos b' = bb_rpos b \<and> bb_wpos b' = bb_wpos b
    \<and> (\<forall>i. i < pos \<or> pos + 4 \<le> i \<longrightarrow> i < bb_size b \<longrightarrow> bb_storage b' ! i = bb_storage b ! i)"
proof -
  let ?st = "mem_write pos (word_enc v) (bb_storage b)"
  have size: "bb_size b < 2 ^ 62" using assms by (simp add: bb_wf_def)
  have "bb_put pos v b = Inr (b\<lparr>bb_storage := ?st\<rparr>)"
    using assms size by (simp add: bb_put_def bb_put_raw_def word_enc_def)
  moreover have "length ?st = bb_size b" using assms by (simp add: length_mem_write)
  moreover have "take 4 (drop pos ?st) = word_enc v" using assms by (simp add: mem_write_def)
  moreover have "?st ! i = bb_storage b ! i" if "i < pos \<or> pos + 4 \<le> i" "i < bb_size b" for i
    using that assms by (auto simp: mem_write_def nth_append min_def)
  ultimately show ?thesis
    using assms size by (simp add: bb_read_at_cases word_enc_decode)
qed

theorem put_patches_in_place_witness:
  "\<exists>b'. bb_put 1 (0x01020304 :: uint32) (grow [9, 0, 0, 0, 0, 8] bb_new) = Inr b'
    \<and> bb_read_at 1 b' = Inr (0x01020304 :: uint32) \<and> bb_storage b' ! 5 = 8"
proof -
  let ?b = "grow [9, 0, 0, 0, 0, 8] bb_new"
  have "bb_wf ?b" "1 + 4 \<le> bb_size ?b" "5 < bb_size ?b" "bb_storage ?b ! 5 = 8" "(1 :: nat) + 4 \<le> 5"
    by (simp_all add: bb_wf_def bb_new_def)
  with put_patches_in_place [of ?b 1 "0x01020304"] show ?thesis by metis
qed

text \<open>
  A read past the end throws the position exception, and the arguments it is
  built from are in the wrong order: the constructor's parameter for the buffer size receives
  the size of the value, and its parameter for the value size receives the buffer size.
\<close>

theorem read_past_end_exception_arguments:
  assumes "bb_wf b" and "LENGTH('a::len) \<le> 64" and "bb_rpos b + LENGTH('a) div 8 > bb_size b"
  shows "\<exists>e. (bb_read b :: ('a word \<times> ByteBuffer) bb_result) = Inl e \<and> pe_add e = False
    \<and> pe_pos e = bb_rpos b \<and> pe_size e = LENGTH('a) div 8 \<and> pe_valueSize e = bb_size b"
  using assms by (simp add: bb_read_def bb_read_at_cases bb_wf_def)

theorem read_past_end_exception_arguments_witness:
  "\<exists>e. (bb_read (grow [1, 2, 3] bb_new) :: (uint32 \<times> ByteBuffer) bb_result) = Inl e \<and> pe_add e = False
    \<and> pe_pos e = 0 \<and> pe_size e = 4 \<and> pe_valueSize e = 3"
  using read_past_end_exception_arguments [of "grow [1, 2, 3] bb_new", where 'a = 32]
  by (simp add: bb_wf_def bb_new_def numeral_3_eq_3)

end
