(* ===== verification/Util.thy ===== *)
theory Util
  imports FC_Prelude
begin

text \<open>
  The string utilities of \<^verbatim>\<open>shared/Utilities/Util.cpp\<close> that other components use: the
  tokenizer, the removal of invisible characters from chat lines, and the printing and
  parsing of durations and of money; and the pieces of the C library they rest on, decimal
  output of \<^verbatim>\<open>ostream\<close> and \<^verbatim>\<open>atoi\<close>/\<^verbatim>\<open>atol\<close>.
\<close>

section \<open>Decimal output and input\<close>

definition digit_char :: "nat \<Rightarrow> char" where
  "digit_char d = char_of (48 + d)"

fun dec :: "nat \<Rightarrow> string" where
  "dec n = (if n < 10 then [digit_char n] else dec (n div 10) @ [digit_char (n mod 10)])"

declare dec.simps [simp del]

definition isdigit :: "char \<Rightarrow> bool" where
  "isdigit c \<longleftrightarrow> 48 \<le> (of_char c :: nat) \<and> (of_char c :: nat) \<le> 57"

definition digit_val :: "char \<Rightarrow> nat" where
  "digit_val c = of_char c - 48"

definition isspace :: "char \<Rightarrow> bool" where
  "isspace c \<longleftrightarrow> (of_char c :: nat) \<in> {9, 10, 11, 12, 13, 32}"

fun digits_val :: "nat \<Rightarrow> string \<Rightarrow> nat" where
  "digits_val acc [] = acc"
| "digits_val acc (c # cs) = (if isdigit c then digits_val (acc * 10 + digit_val c) cs else acc)"

text \<open>
  \<^verbatim>\<open>strtol\<close> in base ten: leading white space, one sign, then digits; out-of-range values
  saturate at the limits of a 64-bit \<^verbatim>\<open>long\<close>.  \<^verbatim>\<open>atol\<close> is that value and \<^verbatim>\<open>atoi\<close> its low 32
  bits read as a signed number.
\<close>

definition strtol10 :: "string \<Rightarrow> int" where
  "strtol10 s =
     (case dropWhile isspace s of
        [] \<Rightarrow> 0
      | c # cs \<Rightarrow>
          if c = CHR ''-'' then - int (digits_val 0 cs)
          else if c = CHR ''+'' then int (digits_val 0 cs)
          else int (digits_val 0 (c # cs)))"

definition atol :: "string \<Rightarrow> int" where
  "atol s = max (- (2 ^ 63)) (min (2 ^ 63 - 1) (strtol10 s))"

definition atoi :: "string \<Rightarrow> int" where
  "atoi s = signed_take_bit 31 (atol s)"

section \<open>Tokenizer\<close>

text \<open>
  \<open>cur\<close> is the text between \<^verbatim>\<open>posold\<close> and \<^verbatim>\<open>posnew\<close>.  An empty piece is a token when a
  separator ends it, not at the end of the string.
\<close>

fun Tokenizer_loop :: "char \<Rightarrow> string \<Rightarrow> string \<Rightarrow> string list" where
  "Tokenizer_loop sep cur [] = (if cur \<noteq> [] then [cur] else [])"
| "Tokenizer_loop sep cur (c # cs) =
     (if c = sep then cur # Tokenizer_loop sep [] cs
      else if c = CHR 0x00 then (if cur \<noteq> [] then [cur] else [])
      else Tokenizer_loop sep (cur @ [c]) cs)"

definition Tokenizer :: "string \<Rightarrow> char \<Rightarrow> string list" where
  "Tokenizer src sep = Tokenizer_loop sep [] src"

section \<open>Invisible characters\<close>

definition invChars :: string where
  "invChars = [CHR '' '', CHR 0x09, CHR 0x07, CHR 0x0A]"

function strip_loop :: "nat \<Rightarrow> nat \<Rightarrow> bool \<Rightarrow> string \<Rightarrow> string \<times> nat" where
  "strip_loop pos wpos space str =
     (if pos < length str
      then if str ! pos \<in> set invChars
           then if \<not> space
                then strip_loop (Suc pos) (Suc wpos) True (str[wpos := CHR '' ''])
                else strip_loop (Suc pos) wpos space str
           else if wpos \<noteq> pos
                then strip_loop (Suc pos) (Suc wpos) False (str[wpos := str ! pos])
                else strip_loop (Suc pos) (Suc wpos) False str
      else (str, wpos))"
  by pat_completeness auto
termination
  by (relation "measure (\<lambda>(pos, wpos, space, str). length str - pos)") auto

declare strip_loop.simps [simp del]

fun contains :: "string \<Rightarrow> string \<Rightarrow> bool" where
  "contains pat [] = (pat = [])"
| "contains pat (c # cs) = (take (length pat) (c # cs) = pat \<or> contains pat cs)"

definition stripLineInvisibleChars :: "string \<Rightarrow> string" where
  "stripLineInvisibleChars str =
     (case strip_loop 0 0 False str of (str', wpos) \<Rightarrow>
        let str'' = (if wpos < length str' then take wpos str' else str')
        in if contains ''|TInterface'' str'' then [] else str'')"

section \<open>Durations\<close>

abbreviation MINUTE :: nat where "MINUTE \<equiv> 60"
abbreviation HOUR :: nat where "HOUR \<equiv> 3600"
abbreviation DAY :: nat where "DAY \<equiv> 86400"

definition secsToTimeString :: "uint64 \<Rightarrow> bool \<Rightarrow> bool \<Rightarrow> string" where
  "secsToTimeString timeInSecs shortText hoursOnly =
     (let t = unat timeInSecs;
          secs = t mod MINUTE;
          minutes = t mod HOUR div MINUTE;
          hours = t mod DAY div HOUR;
          days = t div DAY
      in (if days \<noteq> 0 then dec days @ (if shortText then ''d'' else '' Day(s) '') else [])
         @ (if hours \<noteq> 0 \<or> hoursOnly then dec hours @ (if shortText then ''h'' else '' Hour(s) '') else [])
         @ (if \<not> hoursOnly
            then (if minutes \<noteq> 0 then dec minutes @ (if shortText then ''m'' else '' Minute(s) '') else [])
              @ (if secs \<noteq> 0 \<or> (days = 0 \<and> hours = 0 \<and> minutes = 0)
                 then dec secs @ (if shortText then ''s'' else '' Second(s).'') else [])
            else []))"

definition unit_multiplier :: "char \<Rightarrow> uint32 option" where
  "unit_multiplier c =
     (if c = CHR ''d'' then Some (of_nat DAY) else if c = CHR ''h'' then Some (of_nat HOUR)
      else if c = CHR ''m'' then Some (of_nat MINUTE) else if c = CHR ''s'' then Some 1 else None)"

fun TimeStringToSecs_loop :: "string \<Rightarrow> uint32 \<Rightarrow> uint32 \<Rightarrow> uint32" where
  "TimeStringToSecs_loop [] secs buffer = secs"
| "TimeStringToSecs_loop (c # cs) secs buffer =
     (if isdigit c then TimeStringToSecs_loop cs secs (buffer * 10 + of_nat (digit_val c))
      else case unit_multiplier c of
        None \<Rightarrow> 0
      | Some multiplier \<Rightarrow> TimeStringToSecs_loop cs (secs + buffer * multiplier) 0)"

definition TimeStringToSecs :: "string \<Rightarrow> uint32" where
  "TimeStringToSecs timestring = TimeStringToSecs_loop timestring 0 0"

section \<open>Money\<close>

fun MoneyStringToMoney_loop :: "string list \<Rightarrow> uint32 \<Rightarrow> uint32" where
  "MoneyStringToMoney_loop [] money = money"
| "MoneyStringToMoney_loop (tok # toks) money =
     (let gCount = count_list tok (CHR ''g''); sCount = count_list tok (CHR ''s'');
          cCount = count_list tok (CHR ''c'')
      in if gCount + sCount + cCount \<noteq> 1 then 0
         else
           let amount = word_of_int (atoi tok)
           in MoneyStringToMoney_loop toks
                (if gCount = 1 then money + amount * 100 * 100
                 else if sCount = 1 then money + amount * 100
                 else if cCount = 1 then money + amount else money))"

definition MoneyStringToMoney :: "string \<Rightarrow> int" where
  "MoneyStringToMoney s =
     (if \<not> (count_list s (CHR ''g'') = 1 \<or> count_list s (CHR ''s'') = 1 \<or> count_list s (CHR ''c'') = 1)
      then 0 else sint (MoneyStringToMoney_loop (Tokenizer s (CHR '' '')) 0))"

section \<open>Decimal round trips\<close>

lemma of_char_digit [simp]: "d < 10 \<Longrightarrow> of_char (digit_char d) = (48 + d :: nat)"
  by (simp add: digit_char_def)

lemma isdigit_digit_char [simp]: "d < 10 \<Longrightarrow> isdigit (digit_char d)"
  by (simp add: isdigit_def)

lemma digit_val_digit_char [simp]: "d < 10 \<Longrightarrow> digit_val (digit_char d) = d"
  by (simp add: digit_val_def)

lemma dec_digits: "c \<in> set (dec n) \<Longrightarrow> isdigit c"
proof (induction n rule: dec.induct)
  case (1 n)
  then show ?case by (subst (asm) (2) dec.simps) (auto split: if_splits)
qed

lemma dec_nonempty [simp]: "dec n \<noteq> []"
  by (subst dec.simps) simp

lemma isdigit_not_space: "isdigit c \<Longrightarrow> \<not> isspace c"
  by (auto simp: isdigit_def isspace_def)

lemma digits_val_append:
  "\<forall>c \<in> set ds. isdigit c \<Longrightarrow> digits_val acc (ds @ cs) = digits_val (digits_val acc ds) cs"
  by (induction ds arbitrary: acc) auto

lemma digits_val_dec_aux: "digits_val 0 (dec n) = n"
proof (induction n rule: dec.induct)
  case (1 n)
  show ?case
  proof (cases "n < 10")
    case True
    then show ?thesis by (subst dec.simps) simp
  next
    case False
    with 1 have "digits_val 0 (dec (n div 10)) = n div 10" by simp
    with False show ?thesis by (subst dec.simps) (simp add: digits_val_append dec_digits)
  qed
qed

lemma strtol10_dec: "strtol10 (dec n) = int n"
proof -
  obtain c cs where d: "dec n = c # cs" by (metis dec_nonempty neq_Nil_conv)
  then have c: "isdigit c" using dec_digits [of c n] by simp
  then have "c \<noteq> CHR ''-''" "c \<noteq> CHR ''+''" by (auto simp: isdigit_def)
  moreover have "dropWhile isspace (dec n) = dec n" using d c by (simp add: isdigit_not_space)
  ultimately show ?thesis using digits_val_dec_aux [of n] d by (simp add: strtol10_def)
qed

lemma atol_dec: "n < 2 ^ 63 \<Longrightarrow> atol (dec n) = int n"
  by (simp add: atol_def strtol10_dec)

lemma dec_inj [simp]: "dec m = dec n \<longleftrightarrow> m = n"
  by (metis strtol10_dec of_nat_eq_iff)

lemma dec_no_char: "\<not> isdigit c \<Longrightarrow> c \<notin> set (dec n)"
  using dec_digits by blast

section \<open>Tokenizer\<close>

lemma Tokenizer_loop_piece:
  "sep \<notin> set t \<Longrightarrow> CHR 0x00 \<notin> set t \<Longrightarrow>
   Tokenizer_loop sep cur (t @ sep # rest) = (cur @ t) # Tokenizer_loop sep [] rest"
  by (induction t arbitrary: cur) auto

lemma Tokenizer_pieces:
  "\<forall>t \<in> set ts. sep \<notin> set t \<and> CHR 0x00 \<notin> set t \<Longrightarrow>
   Tokenizer (concat (map (\<lambda>t. t @ [sep]) ts)) sep = ts"
  unfolding Tokenizer_def by (induction ts) (auto simp: Tokenizer_loop_piece)

section \<open>The in-place rewriting loop\<close>

text \<open>What the loop computes: runs of invisible characters become one blank.\<close>

fun collapse :: "bool \<Rightarrow> string \<Rightarrow> string" where
  "collapse space [] = []"
| "collapse space (c # cs) =
     (if c \<in> set invChars then if \<not> space then CHR '' '' # collapse True cs else collapse space cs
      else c # collapse False cs)"

lemma drop_nth_Cons: "pos < length str \<Longrightarrow> drop pos str = str ! pos # drop (Suc pos) str"
  by (rule Cons_nth_drop_Suc [symmetric])

lemma strip_loop_collapse:
  assumes "wpos \<le> pos" "pos \<le> length str" "strip_loop pos wpos space str = (str', w')"
  shows "take w' str' = take wpos str @ collapse space (drop pos str) \<and> w' \<le> length str'"
  using assms
proof (induction pos wpos space str arbitrary: str' w' rule: strip_loop.induct)
  case (1 pos wpos space str)
  show ?case
  proof (cases "pos < length str")
    case True
    note d = drop_nth_Cons [OF True]
    have w: "wpos < length str" using 1(5) True by simp
    have upd: "take (Suc wpos) (str[wpos := c]) @ xs = take wpos str @ c # xs"
      "drop (Suc pos) (str[wpos := c]) = drop (Suc pos) str" for c xs
      using w 1(5) by (simp_all add: take_Suc_conv_app_nth)
    consider (inv) "str ! pos \<in> set invChars" "\<not> space" | (rep) "str ! pos \<in> set invChars" "space"
      | (move) "str ! pos \<notin> set invChars" "wpos \<noteq> pos" | (same) "str ! pos \<notin> set invChars" "wpos = pos"
      by blast
    then show ?thesis
    proof cases
      case inv
      then show ?thesis
        using 1(1) [OF True inv] 1(5,6,7) True upd by (auto simp: strip_loop.simps [of pos] d)
    next
      case rep
      then show ?thesis using 1(2) [OF True rep(1)] 1(5,6,7) True by (auto simp: strip_loop.simps [of pos] d)
    next
      case move
      then show ?thesis
        using 1(3) [OF True move] 1(5,6,7) True upd by (auto simp: strip_loop.simps [of pos] d)
    next
      case same
      then show ?thesis
        using 1(4) [OF True same(1)] 1(5,6,7) True
        by (auto simp: strip_loop.simps [of pos] d take_Suc_conv_app_nth)
    qed
  next
    case False
    then show ?thesis using 1(5,6,7) by (auto simp: strip_loop.simps [of "length str"])
  qed
qed

lemma collapse_no_double:
  "successively (\<lambda>a b. \<not> (a = CHR '' '' \<and> b \<in> set invChars)) (collapse s cs)
   \<and> (s \<longrightarrow> collapse s cs \<noteq> [] \<longrightarrow> hd (collapse s cs) \<notin> set invChars)"
proof (induction cs arbitrary: s)
  case (Cons c cs)
  show ?case
    using Cons.IH [of True] Cons.IH [of False] Cons.IH [of s]
    by (cases "c \<in> set invChars"; cases s)
      (auto simp: successively_Cons invChars_def)
qed simp

section \<open>Durations\<close>

lemma time_loop_dec:
  assumes "\<forall>c \<in> set ds. isdigit c"
  shows "TimeStringToSecs_loop (ds @ cs) secs (of_nat acc)
    = TimeStringToSecs_loop cs secs (of_nat (digits_val acc ds))"
  using assms
proof (induction ds arbitrary: acc)
  case (Cons d ds)
  then show ?case using Cons.IH [of "acc * 10 + digit_val d"] by simp
qed simp

lemma time_loop_dec_unit:
  assumes "unit_multiplier u = Some m" "\<not> isdigit u"
  shows "TimeStringToSecs_loop (dec n @ u # cs) secs 0 = TimeStringToSecs_loop cs (secs + of_nat n * m) 0"
  using time_loop_dec [of "dec n" "u # cs" secs 0] dec_digits assms by (simp add: digits_val_dec_aux)

lemmas time_units =
  time_loop_dec_unit [of "CHR ''d''" "of_nat DAY"] time_loop_dec_unit [of "CHR ''h''" "of_nat HOUR"]
  time_loop_dec_unit [of "CHR ''m''" "of_nat MINUTE"] time_loop_dec_unit [of "CHR ''s''" 1]

lemma unit_not_digit [simp]:
  "\<not> isdigit (CHR ''d'')" "\<not> isdigit (CHR ''h'')" "\<not> isdigit (CHR ''m'')" "\<not> isdigit (CHR ''s'')"
  by (simp_all add: isdigit_def)

lemma duration_split:
  fixes t :: nat
  shows "t div DAY * DAY + t mod DAY div HOUR * HOUR + t mod HOUR div MINUTE * MINUTE + t mod MINUTE = t"
proof -
  have "t mod HOUR = t mod DAY mod HOUR" "t mod MINUTE = t mod HOUR mod MINUTE"
    by (simp_all add: mod_mod_cancel)
  then show ?thesis by (metis add.assoc div_mult_mod_eq)
qed

section \<open>Properties\<close>

text \<open>
  A duration printed in the short form by \<^verbatim>\<open>secsToTimeString\<close> is parsed back
  by \<^verbatim>\<open>TimeStringToSecs\<close> to the same number of seconds, for every duration that fits the
  32-bit result.
\<close>

theorem time_string_roundtrip:
  assumes "unat t < 2 ^ 32"
  shows "TimeStringToSecs (secsToTimeString t True False) = ucast t"
proof -
  let ?t = "unat t"
  have "TimeStringToSecs (secsToTimeString t True False)
      = of_nat (?t div DAY) * of_nat DAY + of_nat (?t mod DAY div HOUR) * of_nat HOUR
        + of_nat (?t mod HOUR div MINUTE) * of_nat MINUTE + of_nat (?t mod MINUTE)"
    by (simp add: TimeStringToSecs_def secsToTimeString_def time_units unit_multiplier_def Let_def
        del: of_nat_numeral)
  also have "\<dots> = of_nat ?t"
    by (simp only: of_nat_mult [symmetric] of_nat_add [symmetric] duration_split)
  finally show ?thesis by simp
qed

theorem time_string_roundtrip_witness:
  "TimeStringToSecs (secsToTimeString 93784 True False) = 93784"
  using time_string_roundtrip [of 93784] by simp

text \<open>
  The in-place loop of \<^verbatim>\<open>stripLineInvisibleChars\<close>, which overwrites the
  string while it scans it, computes the reference function: every run of blanks, tabs, bells
  and newlines becomes a single blank, the rest is kept in order; a line that then contains
  the texture escape is emptied.
\<close>

theorem strip_invisible_equiv:
  "stripLineInvisibleChars str =
     (if contains ''|TInterface'' (collapse False str) then [] else collapse False str)"
proof -
  obtain s w where l: "strip_loop 0 0 False str = (s, w)" by force
  from strip_loop_collapse [OF _ _ l] have "take w s = collapse False str" "w \<le> length s" by auto
  then show ?thesis by (auto simp: stripLineInvisibleChars_def l Let_def)
qed


end
