(* ===== verification/RBAC.thy ===== *)
theory RBAC
  imports Util
begin

text \<open>
  Role-based access control: the classes of \<^verbatim>\<open>game/Accounts/RBAC.{h,cpp}\<close> and the part of
  \<^verbatim>\<open>AccountMgr.cpp\<close> that loads and serves their definitions.

  A permission container is a \<^verbatim>\<open>std::bitset<RBAC_PERM_MAX>\<close>, a word of 48 bits; its \<^verbatim>\<open>test\<close>,
  \<^verbatim>\<open>set\<close> and \<^verbatim>\<open>reset\<close> throw \<^verbatim>\<open>std::out_of_range\<close> for an index of 48 or more.  Statements sent
  to the login database are returned in order.  Rows read from the database are arguments.
  All eight account commands satisfy the locale \<open>account_command\<close>; the invariant and the
  agreement of the cached permissions with their definition follow from it.
\<close>

section \<open>Permissions, roles and groups\<close>

type_synonym RBACPermissionContainer = "48 word"
type_synonym RBACRoleContainer = "uint32 sset"
type_synonym RBACGroupContainer = "uint32 sset"

abbreviation RBAC_PERM_MAX :: nat where "RBAC_PERM_MAX \<equiv> 48"
abbreviation RBAC_PERM_TWO_SIDE_INTERACTION_CHANNEL :: uint32 where
  "RBAC_PERM_TWO_SIDE_INTERACTION_CHANNEL \<equiv> 26"
abbreviation RBAC_PERM_WHO_SEE_ALL_SEC_LEVELS :: uint32 where
  "RBAC_PERM_WHO_SEE_ALL_SEC_LEVELS \<equiv> 35"
abbreviation RBAC_PERM_SILENTLY_JOIN_CHANNEL :: uint32 where
  "RBAC_PERM_SILENTLY_JOIN_CHANNEL \<equiv> 45"
abbreviation RBAC_PERM_CHANGE_CHANNEL_NOT_MODERATOR :: uint32 where
  "RBAC_PERM_CHANGE_CHANNEL_NOT_MODERATOR \<equiv> 46"

datatype rbac_error = OutOfRange | NullPointer

datatype RBACCommandResult =
    RBAC_OK
  | RBAC_CANT_ADD_ALREADY_ADDED
  | RBAC_CANT_REVOKE_NOT_IN_LIST
  | RBAC_IN_GRANTED_LIST
  | RBAC_IN_DENIED_LIST
  | RBAC_ID_DOES_NOT_EXISTS

record RBACRole =
  role_id :: uint32
  role_name :: string
  role_perms :: RBACPermissionContainer

record RBACGroup =
  group_id :: uint32
  group_name :: string
  group_roles :: RBACRoleContainer

definition bitset_test :: "RBACPermissionContainer \<Rightarrow> uint32 \<Rightarrow> rbac_error + bool" where
  "bitset_test bs p = (if unat p < RBAC_PERM_MAX then Inr (bit bs (unat p)) else Inl OutOfRange)"

definition bitset_set :: "RBACPermissionContainer \<Rightarrow> uint32 \<Rightarrow> rbac_error + RBACPermissionContainer" where
  "bitset_set bs p =
     (if unat p < RBAC_PERM_MAX then Inr (Bit_Operations.set_bit (unat p) bs) else Inl OutOfRange)"

definition bitset_reset :: "RBACPermissionContainer \<Rightarrow> uint32 \<Rightarrow> rbac_error + RBACPermissionContainer" where
  "bitset_reset bs p =
     (if unat p < RBAC_PERM_MAX then Inr (unset_bit (unat p) bs) else Inl OutOfRange)"

text \<open>\<^verbatim>\<open>RBACRole\<close> checks the index itself and only logs a bad one.\<close>

definition RBACRole_GrantPermission :: "uint32 \<Rightarrow> RBACRole \<Rightarrow> RBACRole" where
  "RBACRole_GrantPermission p r =
     (if unat p < RBAC_PERM_MAX then r\<lparr>role_perms := Bit_Operations.set_bit (unat p) (role_perms r)\<rparr> else r)"

definition RBACRole_RevokePermission :: "uint32 \<Rightarrow> RBACRole \<Rightarrow> RBACRole" where
  "RBACRole_RevokePermission p r =
     (if unat p < RBAC_PERM_MAX then r\<lparr>role_perms := unset_bit (unat p) (role_perms r)\<rparr> else r)"

definition RBACGroup_GrantRole :: "uint32 \<Rightarrow> RBACGroup \<Rightarrow> RBACGroup" where
  "RBACGroup_GrantRole roleId g = g\<lparr>group_roles := set_put roleId (group_roles g)\<rparr>"

definition RBACGroup_RevokeRole :: "uint32 \<Rightarrow> RBACGroup \<Rightarrow> RBACGroup" where
  "RBACGroup_RevokeRole roleId g = g\<lparr>group_roles := set_erase roleId (group_roles g)\<rparr>"

section \<open>Definitions served by the account manager\<close>

record AccountMgr =
  am_permissions :: "(uint32, string) smap"
  am_roles :: "(uint32, RBACRole) smap"
  am_groups :: "(uint32, RBACGroup) smap"
  am_defaultSecGroups :: "(uint32, RBACGroupContainer) smap"
  am_defaultGroups :: RBACGroupContainer

definition GetRBACGroup :: "AccountMgr \<Rightarrow> uint32 \<Rightarrow> RBACGroup option" where
  "GetRBACGroup am groupId = map_of (am_groups am) groupId"

definition GetRBACRole :: "AccountMgr \<Rightarrow> uint32 \<Rightarrow> RBACRole option" where
  "GetRBACRole am roleId = map_of (am_roles am) roleId"

definition GetRBACPermission :: "AccountMgr \<Rightarrow> uint32 \<Rightarrow> string option" where
  "GetRBACPermission am permissionId = map_of (am_permissions am) permissionId"

definition ClearRBAC :: "AccountMgr \<Rightarrow> AccountMgr" where
  "ClearRBAC am = am\<lparr>am_permissions := [], am_roles := [], am_groups := [],
     am_defaultGroups := [], am_defaultSecGroups := []\<rparr>"

text \<open>
  The rows of the five tables; an empty table makes \<^verbatim>\<open>LoadRBAC\<close> return at that point.  A
  role-permission or group-role row whose first column names no loaded role or group
  dereferences the null pointer that \<^verbatim>\<open>operator[]\<close> has just stored.
\<close>

record rbac_tables =
  tab_permissions :: "(uint32 \<times> string) list"
  tab_roles :: "(uint32 \<times> string) list"
  tab_role_permissions :: "(uint32 \<times> uint32) list"
  tab_groups :: "(uint32 \<times> string) list"
  tab_group_roles :: "(uint32 \<times> uint32) list"
  tab_security_level_groups :: "(uint8 \<times> uint32) list"
  cfg_default_groups :: string

definition load_permissions :: "(uint32 \<times> string) list \<Rightarrow> AccountMgr \<Rightarrow> AccountMgr" where
  "load_permissions rows am =
     am\<lparr>am_permissions := fold (\<lambda>(i, n). map_put i n) rows (am_permissions am)\<rparr>"

definition load_roles :: "(uint32 \<times> string) list \<Rightarrow> AccountMgr \<Rightarrow> AccountMgr" where
  "load_roles rows am =
     am\<lparr>am_roles := fold (\<lambda>(i, n). map_put i \<lparr>role_id = i, role_name = n, role_perms = 0\<rparr>) rows (am_roles am)\<rparr>"

fun load_role_permissions :: "(uint32 \<times> uint32) list \<Rightarrow> AccountMgr \<Rightarrow> rbac_error + AccountMgr" where
  "load_role_permissions [] am = Inr am"
| "load_role_permissions ((i, p) # rows) am =
     (case map_of (am_roles am) i of
        None \<Rightarrow> Inl NullPointer
      | Some r \<Rightarrow> load_role_permissions rows
          (am\<lparr>am_roles := map_put i (RBACRole_GrantPermission p r) (am_roles am)\<rparr>))"

definition load_groups :: "(uint32 \<times> string) list \<Rightarrow> AccountMgr \<Rightarrow> AccountMgr" where
  "load_groups rows am =
     am\<lparr>am_groups := fold (\<lambda>(i, n). map_put i \<lparr>group_id = i, group_name = n, group_roles = []\<rparr>) rows (am_groups am)\<rparr>"

fun load_group_roles :: "(uint32 \<times> uint32) list \<Rightarrow> AccountMgr \<Rightarrow> rbac_error + AccountMgr" where
  "load_group_roles [] am = Inr am"
| "load_group_roles ((i, r) # rows) am =
     (case map_of (am_groups am) i of
        None \<Rightarrow> Inl NullPointer
      | Some g \<Rightarrow> load_group_roles rows
          (am\<lparr>am_groups := map_put i (RBACGroup_GrantRole r g) (am_groups am)\<rparr>))"

definition load_sec_groups :: "(uint8 \<times> uint32) list \<Rightarrow> AccountMgr \<Rightarrow> AccountMgr" where
  "load_sec_groups rows am =
     am\<lparr>am_defaultSecGroups :=
        fold (\<lambda>(s, g). map_modify [] (set_put g) (ucast s)) rows (am_defaultSecGroups am)\<rparr>"

definition load_default_groups :: "string \<Rightarrow> AccountMgr \<Rightarrow> AccountMgr" where
  "load_default_groups cfg am =
     am\<lparr>am_defaultGroups :=
        fold (\<lambda>t. let groupId = word_of_int (atoi t) in if groupId \<noteq> 0 then set_put groupId else id)
          (Tokenizer cfg (CHR '','')) (am_defaultGroups am)\<rparr>"

definition LoadRBAC :: "rbac_tables \<Rightarrow> AccountMgr \<Rightarrow> rbac_error + AccountMgr" where
  "LoadRBAC t am =
     (let am = ClearRBAC am in
      if tab_permissions t = [] then Inr am else
      let am = load_permissions (tab_permissions t) am in
      if tab_roles t = [] then Inr am else
      let am = load_roles (tab_roles t) am in
      if tab_role_permissions t = [] then Inr am else
      bindE (load_role_permissions (tab_role_permissions t) am) (\<lambda>am.
      if tab_groups t = [] then Inr am else
      let am = load_groups (tab_groups t) am in
      if tab_group_roles t = [] then Inr am else
      bindE (load_group_roles (tab_group_roles t) am) (\<lambda>am.
      if tab_security_level_groups t = [] then Inr am else
      Inr (load_default_groups (cfg_default_groups t)
             (load_sec_groups (tab_security_level_groups t) am)))))"

section \<open>Account data\<close>

record RBACData =
  rb_id :: uint32
  rb_name :: string
  rb_realmId :: int
  rb_groups :: RBACGroupContainer
  rb_grantedRoles :: RBACRoleContainer
  rb_deniedRoles :: RBACRoleContainer
  rb_grantedPerms :: RBACPermissionContainer
  rb_deniedPerms :: RBACPermissionContainer
  rb_globalPerms :: RBACPermissionContainer

datatype rbac_stmt =
    INS_RBAC_ACCOUNT_GROUP uint32 uint32 int
  | DEL_RBAC_ACCOUNT_GROUP uint32 uint32 int
  | INS_RBAC_ACCOUNT_ROLE uint32 uint32 bool int
  | DEL_RBAC_ACCOUNT_ROLE uint32 uint32 int
  | INS_RBAC_ACCOUNT_PERMISSION uint32 uint32 bool int
  | DEL_RBAC_ACCOUNT_PERMISSION uint32 uint32 int

type_synonym rbac_outcome = "RBACCommandResult \<times> RBACData \<times> rbac_stmt list"

definition RBACData_new :: "uint32 \<Rightarrow> string \<Rightarrow> int \<Rightarrow> RBACData" where
  "RBACData_new i n realm = \<lparr>rb_id = i, rb_name = n, rb_realmId = realm, rb_groups = [],
     rb_grantedRoles = [], rb_deniedRoles = [], rb_grantedPerms = 0, rb_deniedPerms = 0,
     rb_globalPerms = 0\<rparr>"

definition HasPermission :: "RBACData \<Rightarrow> uint32 \<Rightarrow> rbac_error + bool" where
  "HasPermission d p = bitset_test (rb_globalPerms d) p"

definition add_group_roles :: "AccountMgr \<Rightarrow> uint32 \<Rightarrow> RBACRoleContainer \<Rightarrow> RBACRoleContainer" where
  "add_group_roles am g acc =
     (case GetRBACGroup am g of None \<Rightarrow> acc | Some grp \<Rightarrow> fold set_put (group_roles grp) acc)"

definition add_role_perms :: "AccountMgr \<Rightarrow> uint32 \<Rightarrow> RBACPermissionContainer \<Rightarrow> RBACPermissionContainer" where
  "add_role_perms am r perms =
     (case GetRBACRole am r of None \<Rightarrow> perms | Some role \<Rightarrow> perms OR role_perms role)"

definition remove_role_perms :: "AccountMgr \<Rightarrow> uint32 \<Rightarrow> RBACPermissionContainer \<Rightarrow> RBACPermissionContainer" where
  "remove_role_perms am r perms =
     (case GetRBACRole am r of None \<Rightarrow> perms | Some role \<Rightarrow> perms AND NOT (role_perms role))"

definition CalculateNewPermissions :: "AccountMgr \<Rightarrow> RBACData \<Rightarrow> RBACData" where
  "CalculateNewPermissions am d =
     (let tempGrantedRoles = fold (add_group_roles am) (rb_groups d) (rb_grantedRoles d);
          perms = rb_grantedPerms d;
          perms = fold (add_role_perms am) tempGrantedRoles perms;
          perms = perms AND NOT (rb_deniedPerms d);
          perms = fold (remove_role_perms am) (rb_deniedRoles d) perms
      in d\<lparr>rb_globalPerms := perms\<rparr>)"

text \<open>The common tail of every successful command: save and recompute unless loading.\<close>

definition finish :: "AccountMgr \<Rightarrow> int \<Rightarrow> rbac_stmt \<Rightarrow> RBACData \<Rightarrow> rbac_outcome" where
  "finish am realmId stmt d =
     (if realmId \<noteq> 0 then (RBAC_OK, CalculateNewPermissions am d, [stmt]) else (RBAC_OK, d, []))"

definition RBACData_AddGroup :: "AccountMgr \<Rightarrow> uint32 \<Rightarrow> int \<Rightarrow> RBACData \<Rightarrow> rbac_error + rbac_outcome" where
  "RBACData_AddGroup am groupId realmId d =
     (if GetRBACGroup am groupId = None then Inr (RBAC_ID_DOES_NOT_EXISTS, d, [])
      else if groupId \<in> set (rb_groups d) then Inr (RBAC_CANT_ADD_ALREADY_ADDED, d, [])
      else Inr (finish am realmId (INS_RBAC_ACCOUNT_GROUP (rb_id d) groupId realmId)
                  (d\<lparr>rb_groups := set_put groupId (rb_groups d)\<rparr>)))"

definition RBACData_RemoveGroup :: "AccountMgr \<Rightarrow> uint32 \<Rightarrow> int \<Rightarrow> RBACData \<Rightarrow> rbac_error + rbac_outcome" where
  "RBACData_RemoveGroup am groupId realmId d =
     (if groupId \<notin> set (rb_groups d) then Inr (RBAC_CANT_REVOKE_NOT_IN_LIST, d, [])
      else Inr (finish am realmId (DEL_RBAC_ACCOUNT_GROUP (rb_id d) groupId realmId)
                  (d\<lparr>rb_groups := set_erase groupId (rb_groups d)\<rparr>)))"

definition RBACData_GrantRole :: "AccountMgr \<Rightarrow> uint32 \<Rightarrow> int \<Rightarrow> RBACData \<Rightarrow> rbac_error + rbac_outcome" where
  "RBACData_GrantRole am roleId realmId d =
     (if GetRBACRole am roleId = None then Inr (RBAC_ID_DOES_NOT_EXISTS, d, [])
      else if roleId \<in> set (rb_deniedRoles d) then Inr (RBAC_IN_DENIED_LIST, d, [])
      else if roleId \<in> set (rb_grantedRoles d) then Inr (RBAC_CANT_ADD_ALREADY_ADDED, d, [])
      else Inr (finish am realmId (INS_RBAC_ACCOUNT_ROLE (rb_id d) roleId True realmId)
                  (d\<lparr>rb_grantedRoles := set_put roleId (rb_grantedRoles d)\<rparr>)))"

definition RBACData_DenyRole :: "AccountMgr \<Rightarrow> uint32 \<Rightarrow> int \<Rightarrow> RBACData \<Rightarrow> rbac_error + rbac_outcome" where
  "RBACData_DenyRole am roleId realmId d =
     (if GetRBACRole am roleId = None then Inr (RBAC_ID_DOES_NOT_EXISTS, d, [])
      else if roleId \<in> set (rb_grantedRoles d) then Inr (RBAC_IN_GRANTED_LIST, d, [])
      else if roleId \<in> set (rb_deniedRoles d) then Inr (RBAC_CANT_ADD_ALREADY_ADDED, d, [])
      else Inr (finish am realmId (INS_RBAC_ACCOUNT_ROLE (rb_id d) roleId False realmId)
                  (d\<lparr>rb_deniedRoles := set_put roleId (rb_deniedRoles d)\<rparr>)))"

definition RBACData_RevokeRole :: "AccountMgr \<Rightarrow> uint32 \<Rightarrow> int \<Rightarrow> RBACData \<Rightarrow> rbac_error + rbac_outcome" where
  "RBACData_RevokeRole am roleId realmId d =
     (if roleId \<notin> set (rb_grantedRoles d) \<and> roleId \<notin> set (rb_deniedRoles d)
      then Inr (RBAC_CANT_REVOKE_NOT_IN_LIST, d, [])
      else Inr (finish am realmId (DEL_RBAC_ACCOUNT_ROLE (rb_id d) roleId realmId)
                  (d\<lparr>rb_grantedRoles := set_erase roleId (rb_grantedRoles d),
                     rb_deniedRoles := set_erase roleId (rb_deniedRoles d)\<rparr>)))"

definition RBACData_GrantPermission :: "AccountMgr \<Rightarrow> uint32 \<Rightarrow> int \<Rightarrow> RBACData \<Rightarrow> rbac_error + rbac_outcome" where
  "RBACData_GrantPermission am permissionId realmId d =
     (if GetRBACPermission am permissionId = None then Inr (RBAC_ID_DOES_NOT_EXISTS, d, [])
      else bindE (bitset_test (rb_deniedPerms d) permissionId) (\<lambda>denied.
        if denied then Inr (RBAC_IN_DENIED_LIST, d, [])
        else bindE (bitset_test (rb_grantedPerms d) permissionId) (\<lambda>granted.
          if granted then Inr (RBAC_CANT_ADD_ALREADY_ADDED, d, [])
          else bindE (bitset_set (rb_grantedPerms d) permissionId) (\<lambda>perms.
            Inr (finish am realmId (INS_RBAC_ACCOUNT_PERMISSION (rb_id d) permissionId True realmId)
                   (d\<lparr>rb_grantedPerms := perms\<rparr>))))))"

definition RBACData_DenyPermission :: "AccountMgr \<Rightarrow> uint32 \<Rightarrow> int \<Rightarrow> RBACData \<Rightarrow> rbac_error + rbac_outcome" where
  "RBACData_DenyPermission am permissionId realmId d =
     (if GetRBACPermission am permissionId = None then Inr (RBAC_ID_DOES_NOT_EXISTS, d, [])
      else bindE (bitset_test (rb_grantedPerms d) permissionId) (\<lambda>granted.
        if granted then Inr (RBAC_IN_GRANTED_LIST, d, [])
        else bindE (bitset_test (rb_deniedPerms d) permissionId) (\<lambda>denied.
          if denied then Inr (RBAC_CANT_ADD_ALREADY_ADDED, d, [])
          else bindE (bitset_set (rb_deniedPerms d) permissionId) (\<lambda>perms.
            Inr (finish am realmId (INS_RBAC_ACCOUNT_PERMISSION (rb_id d) permissionId False realmId)
                   (d\<lparr>rb_deniedPerms := perms\<rparr>))))))"

text \<open>
  \<^verbatim>\<open>RevokePermission\<close> has no existence check: the first \<^verbatim>\<open>test\<close> throws for a large index.
  The second operand of \<^verbatim>\<open>&&\<close> is evaluated only when the first holds.
\<close>

definition RBACData_RevokePermission :: "AccountMgr \<Rightarrow> uint32 \<Rightarrow> int \<Rightarrow> RBACData \<Rightarrow> rbac_error + rbac_outcome" where
  "RBACData_RevokePermission am permissionId realmId d =
     bindE (bitset_test (rb_grantedPerms d) permissionId) (\<lambda>granted.
     bindE (if \<not> granted then bitset_test (rb_deniedPerms d) permissionId else Inr True) (\<lambda>present.
     if \<not> present then Inr (RBAC_CANT_REVOKE_NOT_IN_LIST, d, [])
     else
       bindE (bitset_reset (rb_grantedPerms d) permissionId) (\<lambda>g.
       bindE (bitset_reset (rb_deniedPerms d) permissionId) (\<lambda>dn.
         Inr (finish am realmId (DEL_RBAC_ACCOUNT_PERMISSION (rb_id d) permissionId realmId)
                (d\<lparr>rb_grantedPerms := g, rb_deniedPerms := dn\<rparr>))))))"

text \<open>Loading ignores the result of the single commands, which run with realm 0.\<close>

definition quietly ::
    "(RBACData \<Rightarrow> rbac_error + rbac_outcome) \<Rightarrow> rbac_error + RBACData \<Rightarrow> rbac_error + RBACData" where
  "quietly cmd r = bindE r (\<lambda>d. bindE (cmd d) (\<lambda>(res, d', stms). Inr d'))"

definition RBACData_LoadFromDB ::
    "AccountMgr \<Rightarrow> uint32 list \<Rightarrow> (uint32 \<times> bool) list \<Rightarrow> (uint32 \<times> bool) list \<Rightarrow> RBACData \<Rightarrow> rbac_error + RBACData" where
  "RBACData_LoadFromDB am groupRows roleRows permRows d =
     (let r = fold (\<lambda>g. quietly (RBACData_AddGroup am g 0)) groupRows (Inr d);
          r = fold (\<lambda>(i, granted). quietly (if granted then RBACData_GrantRole am i 0
                                             else RBACData_DenyRole am i 0)) roleRows r;
          r = fold (\<lambda>(i, granted). quietly (if granted then RBACData_GrantPermission am i 0
                                             else RBACData_DenyPermission am i 0)) permRows r;
          r = fold (\<lambda>g. quietly (RBACData_AddGroup am g 0)) (am_defaultGroups am) r
      in bindE r (\<lambda>d. Inr (CalculateNewPermissions am d)))"

definition AccountMgr_HasPermission ::
    "AccountMgr \<Rightarrow> uint32 list \<Rightarrow> (uint32 \<times> bool) list \<Rightarrow> (uint32 \<times> bool) list \<Rightarrow>
     uint32 \<Rightarrow> uint32 \<Rightarrow> int \<Rightarrow> rbac_error + bool" where
  "AccountMgr_HasPermission am groupRows roleRows permRows accountId permissionId realmId =
     (if accountId = 0 then Inr False
      else bindE (RBACData_LoadFromDB am groupRows roleRows permRows (RBACData_new accountId [] realmId))
             (\<lambda>d. HasPermission d permissionId))"

text \<open>
  \<^verbatim>\<open>UpdateAccountAccess\<close>: the groups of the old security levels are removed, those of the new
  one added.  Reading \<^verbatim>\<open>_defaultSecGroups[level]\<close> creates a missing (empty) entry.  The account
  data is the caller's, or a temporary object loaded from the rows when the caller has none.
\<close>

datatype access_stmt =
    RBAC_STMT rbac_stmt
  | DEL_ACCOUNT_ACCESS uint32
  | DEL_ACCOUNT_ACCESS_BY_REALM uint32 int
  | INS_ACCOUNT_ACCESS uint32 uint8 int

definition sec_groups :: "uint8 \<Rightarrow> AccountMgr \<Rightarrow> RBACGroupContainer \<times> AccountMgr" where
  "sec_groups lvl am =
     (map_at [] (am_defaultSecGroups am) (ucast lvl),
      am\<lparr>am_defaultSecGroups := map_modify [] id (ucast lvl) (am_defaultSecGroups am)\<rparr>)"

fun run_group_cmds ::
    "(uint32 \<Rightarrow> RBACData \<Rightarrow> rbac_error + rbac_outcome) \<Rightarrow> uint32 list \<Rightarrow> RBACData \<Rightarrow> rbac_error + (RBACData \<times> rbac_stmt list)" where
  "run_group_cmds cmd [] d = Inr (d, [])"
| "run_group_cmds cmd (g # gs) d =
     bindE (cmd g d) (\<lambda>(res, d', stms).
     bindE (run_group_cmds cmd gs d') (\<lambda>(d'', stms'). Inr (d'', stms @ stms')))"

fun remove_old_levels ::
    "(uint8 \<times> int) list \<Rightarrow> AccountMgr \<Rightarrow> RBACData \<Rightarrow> rbac_error + (AccountMgr \<times> RBACData \<times> rbac_stmt list)" where
  "remove_old_levels [] am d = Inr (am, d, [])"
| "remove_old_levels ((secLevel, realmId) # rows) am d =
     (let (gs, am') = sec_groups secLevel am in
      bindE (run_group_cmds (\<lambda>g. RBACData_RemoveGroup am' g realmId) gs d) (\<lambda>(d', stms).
      bindE (remove_old_levels rows am' d') (\<lambda>(am'', d'', stms'). Inr (am'', d'', stms @ stms'))))"

definition UpdateAccountAccess ::
    "int \<Rightarrow> uint32 list \<Rightarrow> (uint32 \<times> bool) list \<Rightarrow> (uint32 \<times> bool) list \<Rightarrow> (uint8 \<times> int) list \<Rightarrow>
     RBACData option \<Rightarrow> uint32 \<Rightarrow> uint8 \<Rightarrow> int \<Rightarrow> AccountMgr \<Rightarrow>
     rbac_error + (AccountMgr \<times> RBACData option \<times> access_stmt list)" where
  "UpdateAccountAccess cfgRealmId groupRows roleRows permRows accessRows rbac accountId securityLevel realmId am =
     (let serverRealmId = (if realmId \<noteq> -1 then realmId else cfgRealmId);
          needDelete = (rbac = None)
      in
      bindE (case rbac of
               Some d \<Rightarrow> Inr d
             | None \<Rightarrow> RBACData_LoadFromDB am groupRows roleRows permRows
                         (RBACData_new accountId [] serverRealmId)) (\<lambda>d.
      bindE (remove_old_levels accessRows am d) (\<lambda>(am1, d1, stms1).
      let (toAdd, am2) = sec_groups securityLevel am1 in
      bindE (run_group_cmds (\<lambda>g. RBACData_AddGroup am2 g realmId) toAdd d1) (\<lambda>(d2, stms2).
      Inr (am2, if needDelete then None else Some d2,
        map RBAC_STMT (stms1 @ stms2)
        @ [if realmId = -1 then DEL_ACCOUNT_ACCESS accountId
           else DEL_ACCOUNT_ACCESS_BY_REALM accountId realmId]
        @ (if securityLevel \<noteq> 0 then [INS_ACCOUNT_ACCESS accountId securityLevel realmId] else []))))))"

section \<open>What the cached permissions mean\<close>

definition role_grants :: "AccountMgr \<Rightarrow> uint32 \<Rightarrow> nat \<Rightarrow> bool" where
  "role_grants am r p \<longleftrightarrow> (\<exists>role. GetRBACRole am r = Some role \<and> bit (role_perms role) p)"

definition inherited_roles :: "AccountMgr \<Rightarrow> RBACData \<Rightarrow> uint32 set" where
  "inherited_roles am d = set (rb_grantedRoles d)
     \<union> {r. \<exists>g grp. g \<in> set (rb_groups d) \<and> GetRBACGroup am g = Some grp \<and> r \<in> set (group_roles grp)}"

text \<open>Granted directly, through a role or through a group, and denied neither directly nor through a role.\<close>

definition effective :: "AccountMgr \<Rightarrow> RBACData \<Rightarrow> nat \<Rightarrow> bool" where
  "effective am d p \<longleftrightarrow>
     (bit (rb_grantedPerms d) p \<or> (\<exists>r \<in> inherited_roles am d. role_grants am r p))
     \<and> \<not> bit (rb_deniedPerms d) p \<and> \<not> (\<exists>r \<in> set (rb_deniedRoles d). role_grants am r p)"

definition coherent :: "AccountMgr \<Rightarrow> RBACData \<Rightarrow> bool" where
  "coherent am d \<longleftrightarrow> (\<forall>p. bit (rb_globalPerms d) p = effective am d p)"

lemma set_fold_add_group_roles:
  "set (fold (add_group_roles am) gs acc) = set acc
     \<union> {r. \<exists>g grp. g \<in> set gs \<and> GetRBACGroup am g = Some grp \<and> r \<in> set (group_roles grp)}"
proof (induction gs arbitrary: acc)
  case (Cons g gs)
  then show ?case
    by (auto simp: add_group_roles_def set_fold_set_put split: option.splits)
qed simp

lemma bit_fold_add_role_perms:
  "bit (fold (add_role_perms am) rs acc) p \<longleftrightarrow> bit acc p \<or> (\<exists>r \<in> set rs. role_grants am r p)"
  by (induction rs arbitrary: acc)
    (auto simp: add_role_perms_def role_grants_def bit_or_iff split: option.splits)

lemma bit_fold_remove_role_perms:
  "bit (fold (remove_role_perms am) rs acc) p \<longleftrightarrow> bit acc p \<and> \<not> (\<exists>r \<in> set rs. role_grants am r p)"
  by (induction rs arbitrary: acc)
    (auto simp: remove_role_perms_def role_grants_def bit_simps split: option.splits
      dest: bit_imp_le_length)

lemma bit_role_length: "role_grants am r p \<Longrightarrow> p < 48"
  by (auto simp: role_grants_def dest: bit_imp_le_length)

lemma effective_frame [simp]: "effective am (d\<lparr>rb_globalPerms := x\<rparr>) p = effective am d p"
  by (simp add: effective_def inherited_roles_def)

lemma Calculate_coherent: "coherent am (CalculateNewPermissions am d)"
proof -
  have "bit (rb_globalPerms (CalculateNewPermissions am d)) p = effective am d p" for p
    by (auto simp: CalculateNewPermissions_def Let_def bit_fold_remove_role_perms bit_fold_add_role_perms
        effective_def inherited_roles_def set_fold_add_group_roles bit_simps
        dest: bit_imp_le_length bit_role_length)
  then show ?thesis by (simp add: coherent_def CalculateNewPermissions_def Let_def)
qed

section \<open>The invariant and the account commands\<close>

definition rbac_inv :: "AccountMgr \<Rightarrow> RBACData \<Rightarrow> bool" where
  "rbac_inv am d \<longleftrightarrow>
     set (rb_grantedRoles d) \<inter> set (rb_deniedRoles d) = {}
     \<and> (\<forall>p. \<not> (bit (rb_grantedPerms d) p \<and> bit (rb_deniedPerms d) p))
     \<and> (\<forall>g \<in> set (rb_groups d). GetRBACGroup am g \<noteq> None)
     \<and> (\<forall>r \<in> set (rb_grantedRoles d) \<union> set (rb_deniedRoles d). GetRBACRole am r \<noteq> None)
     \<and> sorted_wrt (<) (rb_groups d) \<and> sorted_wrt (<) (rb_grantedRoles d)
     \<and> sorted_wrt (<) (rb_deniedRoles d)"

lemma rbac_inv_global [simp]: "rbac_inv am (d\<lparr>rb_globalPerms := x\<rparr>) = rbac_inv am d"
  by (simp add: rbac_inv_def)

lemma rbac_inv_Calculate [simp]: "rbac_inv am (CalculateNewPermissions am d) = rbac_inv am d"
  by (simp add: CalculateNewPermissions_def Let_def)

lemma finish_cases:
  assumes "finish am realmId stmt d = (res, d', stms)"
  shows "res = RBAC_OK \<and> rbac_inv am d' = rbac_inv am d \<and> length stms = (if realmId = 0 then 0 else 1)
    \<and> (realmId \<noteq> 0 \<longrightarrow> coherent am d')"
  using assms by (auto simp: finish_def Calculate_coherent split: if_splits)

text \<open>The contract of an account command.\<close>

locale account_command =
  fixes cmd :: "AccountMgr \<Rightarrow> uint32 \<Rightarrow> int \<Rightarrow> RBACData \<Rightarrow> rbac_error + rbac_outcome"
  assumes refused: "cmd am x realm d = Inr (res, d', stms) \<Longrightarrow> res \<noteq> RBAC_OK \<Longrightarrow> d' = d \<and> stms = []"
    and keeps_inv: "rbac_inv am d \<Longrightarrow> cmd am x realm d = Inr (res, d', stms) \<Longrightarrow> rbac_inv am d'"
    and saved: "cmd am x realm d = Inr (RBAC_OK, d', stms) \<Longrightarrow> realm \<noteq> 0 \<Longrightarrow> coherent am d' \<and> length stms = 1"
    and loading: "cmd am x 0 d = Inr (res, d', stms) \<Longrightarrow> stms = []"
begin

lemma keeps_coherent:
  assumes "coherent am d" "realm \<noteq> 0" "cmd am x realm d = Inr (res, d', stms)"
  shows "coherent am d'"
  using assms refused saved by (cases "res = RBAC_OK") blast+

lemma quietly_keeps_inv:
  assumes "\<And>d. r = Inr d \<Longrightarrow> rbac_inv am d" "quietly (cmd am x realm) r = Inr d'"
  shows "rbac_inv am d'"
  using assms keeps_inv by (auto simp: quietly_def bindE_Inr_iff)

end

text \<open>
  Every command either throws, or refuses and returns the account data unchanged, or goes
  through \<open>finish\<close> with data that keeps the invariant.  That shape gives the four laws.
\<close>

definition command_shape :: "AccountMgr \<Rightarrow> int \<Rightarrow> RBACData \<Rightarrow> rbac_error + rbac_outcome \<Rightarrow> bool" where
  "command_shape am realm d r \<longleftrightarrow>
     (\<forall>out. r = Inr out \<longrightarrow>
        (\<exists>res. res \<noteq> RBAC_OK \<and> out = (res, d, []))
        \<or> (\<exists>stmt d1. out = finish am realm stmt d1 \<and> (rbac_inv am d \<longrightarrow> rbac_inv am d1)))"

lemma command_shape_error [simp]: "command_shape am realm d (Inl e)"
  by (simp add: command_shape_def)

lemma command_shape_refused: "res \<noteq> RBAC_OK \<Longrightarrow> command_shape am realm d (Inr (res, d, []))"
  by (simp add: command_shape_def)

lemma command_shape_finish:
  "(rbac_inv am d \<Longrightarrow> rbac_inv am d1) \<Longrightarrow> command_shape am realm d (Inr (finish am realm stmt d1))"
  by (auto simp: command_shape_def)

lemma command_shape_bind:
  "(\<And>x. r = Inr x \<Longrightarrow> command_shape am realm d (f x)) \<Longrightarrow> command_shape am realm d (bindE r f)"
  by (cases r) auto

lemmas command_shape_intros = command_shape_refused command_shape_finish command_shape_bind

lemma account_commandI:
  assumes shape: "\<And>am x realm d. command_shape am realm d (cmd am x realm d)"
  shows "account_command cmd"
proof -
  have cases: "(res \<noteq> RBAC_OK \<and> d' = d \<and> stms = [])
      \<or> (res = RBAC_OK \<and> (rbac_inv am d \<longrightarrow> rbac_inv am d')
         \<and> length stms = (if realm = 0 then 0 else 1) \<and> (realm \<noteq> 0 \<longrightarrow> coherent am d'))"
    if "cmd am x realm d = Inr (res, d', stms)" for am x realm d res d' stms
  proof -
    from shape [of am realm d x] that consider
        res1 where "res1 \<noteq> RBAC_OK" "(res, d', stms) = (res1, d, [])"
      | stmt d1 where "finish am realm stmt d1 = (res, d', stms)" "rbac_inv am d \<longrightarrow> rbac_inv am d1"
      unfolding command_shape_def by metis
    then show ?thesis
    proof cases
      case 2
      from finish_cases [OF 2(1)] 2(2) show ?thesis by auto
    qed auto
  qed
  show ?thesis by unfold_locales (use cases in \<open>force+\<close>)
qed

interpretation add_group: account_command RBACData_AddGroup
  by (rule account_commandI)
    (auto simp: RBACData_AddGroup_def rbac_inv_def intro!: command_shape_intros)

interpretation remove_group: account_command RBACData_RemoveGroup
  by (rule account_commandI)
    (auto simp: RBACData_RemoveGroup_def rbac_inv_def intro!: command_shape_intros)

interpretation grant_role: account_command RBACData_GrantRole
  by (rule account_commandI)
    (auto simp: RBACData_GrantRole_def rbac_inv_def intro!: command_shape_intros)

interpretation deny_role: account_command RBACData_DenyRole
  by (rule account_commandI)
    (auto simp: RBACData_DenyRole_def rbac_inv_def intro!: command_shape_intros)

interpretation revoke_role: account_command RBACData_RevokeRole
  by (rule account_commandI)
    (auto simp: RBACData_RevokeRole_def rbac_inv_def intro!: command_shape_intros)

lemmas bitset_defs = bitset_test_def bitset_set_def bitset_reset_def

interpretation grant_permission: account_command RBACData_GrantPermission
  by (rule account_commandI)
    (auto simp: RBACData_GrantPermission_def bitset_defs rbac_inv_def bit_simps split: if_splits
      intro!: command_shape_intros)

interpretation deny_permission: account_command RBACData_DenyPermission
  by (rule account_commandI)
    (auto simp: RBACData_DenyPermission_def bitset_defs rbac_inv_def bit_simps split: if_splits
      intro!: command_shape_intros)

interpretation revoke_permission: account_command RBACData_RevokePermission
  by (rule account_commandI)
    (auto simp: RBACData_RevokePermission_def bitset_defs rbac_inv_def bit_simps split: if_splits
      intro!: command_shape_intros)

section \<open>Accounts over time\<close>

datatype rbac_cmd =
    AddGroup uint32 | RemoveGroup uint32 | GrantRole uint32 | DenyRole uint32 | RevokeRole uint32
  | GrantPermission uint32 | DenyPermission uint32 | RevokePermission uint32

fun run_cmd :: "AccountMgr \<Rightarrow> rbac_cmd \<Rightarrow> int \<Rightarrow> RBACData \<Rightarrow> rbac_error + rbac_outcome" where
  "run_cmd am (AddGroup x) realm d = RBACData_AddGroup am x realm d"
| "run_cmd am (RemoveGroup x) realm d = RBACData_RemoveGroup am x realm d"
| "run_cmd am (GrantRole x) realm d = RBACData_GrantRole am x realm d"
| "run_cmd am (DenyRole x) realm d = RBACData_DenyRole am x realm d"
| "run_cmd am (RevokeRole x) realm d = RBACData_RevokeRole am x realm d"
| "run_cmd am (GrantPermission x) realm d = RBACData_GrantPermission am x realm d"
| "run_cmd am (DenyPermission x) realm d = RBACData_DenyPermission am x realm d"
| "run_cmd am (RevokePermission x) realm d = RBACData_RevokePermission am x realm d"

lemmas commands_refused = add_group.refused remove_group.refused grant_role.refused deny_role.refused
  revoke_role.refused grant_permission.refused deny_permission.refused revoke_permission.refused

lemmas commands_keep_inv = add_group.keeps_inv remove_group.keeps_inv grant_role.keeps_inv
  deny_role.keeps_inv revoke_role.keeps_inv grant_permission.keeps_inv deny_permission.keeps_inv
  revoke_permission.keeps_inv

lemmas commands_saved = add_group.saved remove_group.saved grant_role.saved deny_role.saved
  revoke_role.saved grant_permission.saved deny_permission.saved revoke_permission.saved

lemma run_cmd_keeps_inv: "rbac_inv am d \<Longrightarrow> run_cmd am c realm d = Inr (res, d', stms) \<Longrightarrow> rbac_inv am d'"
  by (cases c) (auto dest: commands_keep_inv)

lemma run_cmd_refused:
  "run_cmd am c realm d = Inr (res, d', stms) \<Longrightarrow> res \<noteq> RBAC_OK \<Longrightarrow> d' = d \<and> stms = []"
  by (cases c) (simp_all only: run_cmd.simps, (drule (1) commands_refused, simp)+)

lemma run_cmd_saved:
  "run_cmd am c realm d = Inr (RBAC_OK, d', stms) \<Longrightarrow> realm \<noteq> 0 \<Longrightarrow> coherent am d' \<and> length stms = 1"
  by (cases c) (simp_all only: run_cmd.simps, (drule (1) commands_saved, simp)+)

text \<open>The states an account's data can be in: freshly loaded, then changed by saved commands.\<close>

definition account_init :: "AccountMgr \<Rightarrow> RBACData \<Rightarrow> bool" where
  "account_init am d \<longleftrightarrow>
     (\<exists>i n realm groupRows roleRows permRows.
        RBACData_LoadFromDB am groupRows roleRows permRows (RBACData_new i n realm) = Inr d)"

inductive account_step :: "AccountMgr \<Rightarrow> RBACData \<Rightarrow> RBACData \<Rightarrow> bool" for am where
  command: "realm \<noteq> 0 \<Longrightarrow> run_cmd am c realm d = Inr (res, d', stms) \<Longrightarrow> account_step am d d'"

inductive_cases account_stepE: "account_step am d d'"

lemma rbac_inv_new: "rbac_inv am (RBACData_new i n realm)"
  by (simp add: rbac_inv_def RBACData_new_def)

definition inv_result :: "AccountMgr \<Rightarrow> rbac_error + RBACData \<Rightarrow> bool" where
  "inv_result am r \<longleftrightarrow> (\<forall>d. r = Inr d \<longrightarrow> rbac_inv am d)"

lemma fold_inv_result:
  "inv_result am r \<Longrightarrow> (\<And>x r. x \<in> set xs \<Longrightarrow> inv_result am r \<Longrightarrow> inv_result am (f x r)) \<Longrightarrow>
   inv_result am (fold f xs r)"
  by (induction xs arbitrary: r) auto

lemma quietly_inv_result:
  "account_command cmd \<Longrightarrow> inv_result am r \<Longrightarrow> inv_result am (quietly (cmd am x realm) r)"
  using account_command.quietly_keeps_inv unfolding inv_result_def by metis

lemmas quietly_commands =
  quietly_inv_result [OF add_group.account_command_axioms]
  quietly_inv_result [OF grant_role.account_command_axioms]
  quietly_inv_result [OF deny_role.account_command_axioms]
  quietly_inv_result [OF grant_permission.account_command_axioms]
  quietly_inv_result [OF deny_permission.account_command_axioms]

lemma LoadFromDB_inv:
  assumes "RBACData_LoadFromDB am groupRows roleRows permRows d = Inr d'" "rbac_inv am d"
  shows "rbac_inv am d' \<and> coherent am d'"
proof -
  have 1: "inv_result am (fold (\<lambda>g. quietly (RBACData_AddGroup am g 0)) gs r)" if "inv_result am r" for gs r
    using that by (rule fold_inv_result) (auto intro: quietly_commands)
  have 2: "inv_result am (fold (\<lambda>(i, granted). quietly (if granted then RBACData_GrantRole am i 0
      else RBACData_DenyRole am i 0)) rows r)" if "inv_result am r" for rows r
    using that by (rule fold_inv_result) (auto intro: quietly_commands)
  have 3: "inv_result am (fold (\<lambda>(i, granted). quietly (if granted then RBACData_GrantPermission am i 0
      else RBACData_DenyPermission am i 0)) rows r)" if "inv_result am r" for rows r
    using that by (rule fold_inv_result) (auto intro: quietly_commands)
  have "inv_result am (Inr d)" using assms(2) by (simp add: inv_result_def)
  from 1 [OF 3 [OF 2 [OF 1 [OF this]]]] assms(1) show ?thesis
    by (auto simp: RBACData_LoadFromDB_def Let_def bindE_Inr_iff inv_result_def Calculate_coherent)
qed

interpretation account: invariant_system "account_init am" "account_step am"
    "\<lambda>d. rbac_inv am d \<and> coherent am d" for am
proof
  fix d assume "account_init am d"
  then show "rbac_inv am d \<and> coherent am d"
    using LoadFromDB_inv rbac_inv_new unfolding account_init_def by blast
next
  fix d d' assume inv: "rbac_inv am d \<and> coherent am d" and "account_step am d d'"
  then obtain realm c res stms where c: "realm \<noteq> 0" "run_cmd am c realm d = Inr (res, d', stms)"
    by (auto elim: account_stepE)
  have "rbac_inv am d'" using run_cmd_keeps_inv inv c by blast
  moreover have "coherent am d'"
    using run_cmd_refused [OF c(2)] run_cmd_saved c inv by (cases "res = RBAC_OK") auto
  ultimately show "rbac_inv am d' \<and> coherent am d'" by simp
qed

lemma set_erase_put_fresh: "k \<notin> set s \<Longrightarrow> set_erase k (set_put k s) = s"
  by (induction s) (auto simp: set_erase_def filter_id_conv)

lemma coherent_Calculate: "coherent am d \<Longrightarrow> CalculateNewPermissions am d = d"
proof -
  assume "coherent am d"
  moreover have "\<And>p. bit (rb_globalPerms (CalculateNewPermissions am d)) p = effective am d p"
    using Calculate_coherent [of am d] by (simp add: coherent_def CalculateNewPermissions_def Let_def)
  ultimately have "rb_globalPerms (CalculateNewPermissions am d) = rb_globalPerms d"
    by (intro bit_word_eqI) (simp add: coherent_def)
  then show ?thesis by (simp add: CalculateNewPermissions_def Let_def)
qed

section \<open>Loading the definitions\<close>

lemma role_grants_put:
  "role_grants (am\<lparr>am_roles := map_put i r (am_roles am)\<rparr>) j p
     = (if j = i then bit (role_perms r) p else role_grants am j p)"
  by (auto simp: role_grants_def GetRBACRole_def)

lemma load_role_permissions_grants:
  "load_role_permissions rows am = Inr am' \<Longrightarrow>
   role_grants am' j p \<longleftrightarrow> role_grants am j p \<or> (\<exists>q. (j, q) \<in> set rows \<and> unat q = p \<and> p < RBAC_PERM_MAX)"
proof (induction rows am rule: load_role_permissions.induct)
  case (2 i q rows am)
  then obtain r where r: "map_of (am_roles am) i = Some r" by (auto split: option.splits)
  then have "role_grants am i p = bit (role_perms r) p" by (simp add: role_grants_def GetRBACRole_def)
  with 2 r show ?case
    by (auto simp: role_grants_put RBACRole_GrantPermission_def bit_simps split: if_splits)
qed simp

lemma load_role_permissions_total:
  "load_role_permissions rows am = Inl e \<longleftrightarrow>
   e = NullPointer \<and> (\<exists>i q. (i, q) \<in> set rows \<and> map_of (am_roles am) i = None)"
proof (induction rows am rule: load_role_permissions.induct)
  case (2 i q rows am)
  show ?case
  proof (cases "map_of (am_roles am) i")
    case (Some r)
    have "((map_of (am_roles am))(i \<mapsto> x)) j = None \<longleftrightarrow> map_of (am_roles am) j = None" for j x
      using Some by simp
    with 2 [OF Some] Some show ?thesis by auto
  qed auto
qed auto

lemma load_group_roles_total:
  "load_group_roles rows am = Inl e \<longleftrightarrow>
   e = NullPointer \<and> (\<exists>i q. (i, q) \<in> set rows \<and> map_of (am_groups am) i = None)"
proof (induction rows am rule: load_group_roles.induct)
  case (2 i q rows am)
  show ?case
  proof (cases "map_of (am_groups am) i")
    case (Some r)
    have "((map_of (am_groups am))(i \<mapsto> x)) j = None \<longleftrightarrow> map_of (am_groups am) j = None" for j x
      using Some by simp
    with 2 [OF Some] Some show ?thesis by auto
  qed auto
qed auto

lemma load_group_roles_roles:
  "load_group_roles rows am = Inr am' \<Longrightarrow> am_roles am' = am_roles am"
  by (induction rows am rule: load_group_roles.induct) (auto split: option.splits)

lemma load_role_permissions_groups:
  "load_role_permissions rows am = Inr am' \<Longrightarrow> am_groups am' = am_groups am"
  by (induction rows am rule: load_role_permissions.induct) (auto split: option.splits)

lemma map_of_fold_put_None:
  "map_of (fold (\<lambda>(i, n). map_put i (f i n)) rows m) k = None \<longleftrightarrow>
   k \<notin> fst ` set rows \<and> map_of m k = None"
  by (induction rows arbitrary: m) (auto split: if_splits)

lemma map_of_load_roles:
  "map_of (am_roles (load_roles rows am)) i = None \<longleftrightarrow> i \<notin> fst ` set rows \<and> map_of (am_roles am) i = None"
  unfolding load_roles_def by (simp add: map_of_fold_put_None)

lemma map_of_load_groups:
  "map_of (am_groups (load_groups rows am)) i = None \<longleftrightarrow> i \<notin> fst ` set rows \<and> map_of (am_groups am) i = None"
  unfolding load_groups_def by (simp add: map_of_fold_put_None)

lemma load_roles_grant_nothing:
  assumes "\<And>r p. \<not> role_grants am r p"
  shows "\<not> role_grants (load_roles rows am) r p"
proof -
  have "\<not> (\<exists>role. map_of (fold (\<lambda>(i, n). map_put i \<lparr>role_id = i, role_name = n, role_perms = 0\<rparr>) rows m) r
      = Some role \<and> bit (role_perms role) p)"
    if "\<not> (\<exists>role. map_of m r = Some role \<and> bit (role_perms role) p)" for m
    using that
  proof (induction rows arbitrary: m)
    case (Cons e rows)
    show ?case unfolding fold_Cons comp_def
      by (rule Cons.IH) (use Cons.prems in \<open>auto split: prod.splits\<close>)
  qed simp
  from this [of "am_roles am"] assms [of r p] show ?thesis
    unfolding role_grants_def GetRBACRole_def load_roles_def by auto
qed

definition tables_filled :: "rbac_tables \<Rightarrow> bool" where
  "tables_filled t \<longleftrightarrow> tab_permissions t \<noteq> [] \<and> tab_roles t \<noteq> [] \<and> tab_role_permissions t \<noteq> []
     \<and> tab_groups t \<noteq> [] \<and> tab_group_roles t \<noteq> [] \<and> tab_security_level_groups t \<noteq> []"

definition foreign_keys_ok :: "rbac_tables \<Rightarrow> bool" where
  "foreign_keys_ok t \<longleftrightarrow>
     fst ` set (tab_role_permissions t) \<subseteq> fst ` set (tab_roles t)
     \<and> fst ` set (tab_group_roles t) \<subseteq> fst ` set (tab_groups t)"

lemma loader_frames [simp]:
  "role_grants (load_permissions rows am) r p = role_grants am r p"
  "role_grants (load_groups rows2 am) r p = role_grants am r p"
  "role_grants (load_sec_groups rows3 am) r p = role_grants am r p"
  "role_grants (load_default_groups c am) r p = role_grants am r p"
  "\<not> role_grants (ClearRBAC am) r p"
  "am_roles (load_permissions rows am) = am_roles am"
  "am_groups (load_permissions rows am) = am_groups am"
  "am_groups (load_roles rows am) = am_groups am"
  "am_roles (ClearRBAC am) = []" "am_groups (ClearRBAC am) = []"
  by (simp_all add: role_grants_def GetRBACRole_def load_permissions_def load_groups_def
      load_sec_groups_def load_default_groups_def ClearRBAC_def load_roles_def)

section \<open>Properties\<close>

text \<open>A small installation on which the properties are exercised.\<close>

definition demo_tables :: rbac_tables where
  "demo_tables = \<lparr>tab_permissions = [(26, ''two side''), (45, ''silently join'')],
     tab_roles = [(1, ''Player''), (2, ''Moderator'')],
     tab_role_permissions = [(2, 45), (1, 26)], tab_groups = [(1, ''Players''), (2, ''Staff'')],
     tab_group_roles = [(1, 1), (2, 2)], tab_security_level_groups = [(0, 1)],
     cfg_default_groups = ''1''\<rparr>"

definition demo_mgr :: AccountMgr where
  "demo_mgr = \<lparr>am_permissions = [(26, ''two side''), (45, ''silently join'')],
     am_roles = [(1, \<lparr>role_id = 1, role_name = ''Player'', role_perms = 2 ^ 26\<rparr>),
                 (2, \<lparr>role_id = 2, role_name = ''Moderator'', role_perms = 2 ^ 45\<rparr>)],
     am_groups = [(1, \<lparr>group_id = 1, group_name = ''Players'', group_roles = [1]\<rparr>)],
     am_defaultSecGroups = [(0, [1])], am_defaultGroups = [1]\<rparr>"

definition demo_account :: RBACData where
  "demo_account = \<lparr>rb_id = 7, rb_name = ''ACC'', rb_realmId = 1, rb_groups = [1], rb_grantedRoles = [],
     rb_deniedRoles = [], rb_grantedPerms = 0, rb_deniedPerms = 0, rb_globalPerms = 2 ^ 26\<rparr>"

lemma demo_account_init: "account_init demo_mgr demo_account"
proof -
  have "RBACData_LoadFromDB demo_mgr [] [] [] (RBACData_new 7 ''ACC'' 1) = Inr demo_account"
    by code_simp
  then show ?thesis unfolding account_init_def by blast
qed

lemma demo_account_reachable: "reachable (account_init demo_mgr) (account_step demo_mgr) demo_account"
  by (rule reach_init) (rule demo_account_init)

text \<open>
  C1.  In every state an account can reach (loaded from the database, then changed by any
  sequence of saved commands), \<^verbatim>\<open>HasPermission\<close> returns exactly the definition of an effective
  permission: granted directly, by a role or by a group's role, and denied neither directly nor
  by a denied role; an index outside the bitset throws.
\<close>

theorem permission_check_correct:
  assumes "reachable (account_init am) (account_step am) d"
  shows "HasPermission d p = (if unat p < RBAC_PERM_MAX then Inr (effective am d (unat p)) else Inl OutOfRange)"
  using account.reachable_inv [OF assms] by (simp add: HasPermission_def bitset_test_def coherent_def)

theorem permission_check_correct_witness:
  "HasPermission demo_account 26 = Inr (effective demo_mgr demo_account 26)
   \<and> HasPermission demo_account 26 = Inr True"
proof -
  have "HasPermission demo_account 26 = Inr True" by code_simp
  with permission_check_correct [OF demo_account_reachable, of 26] show ?thesis by simp
qed

text \<open>
  In every reachable state no role and no permission is both granted and denied, and the
  account refers only to groups and roles that are defined.
\<close>

theorem account_lists_disjoint:
  assumes "reachable (account_init am) (account_step am) d"
  shows "set (rb_grantedRoles d) \<inter> set (rb_deniedRoles d) = {}
    \<and> rb_grantedPerms d AND rb_deniedPerms d = 0
    \<and> (\<forall>g. g \<in> set (rb_groups d) \<longrightarrow> GetRBACGroup am g \<noteq> None)
    \<and> (\<forall>r. r \<in> set (rb_grantedRoles d) \<union> set (rb_deniedRoles d) \<longrightarrow> GetRBACRole am r \<noteq> None)"
proof -
  have inv: "rbac_inv am d" using account.reachable_inv [OF assms] by simp
  then have "rb_grantedPerms d AND rb_deniedPerms d = 0"
    by (intro bit_word_eqI) (auto simp: rbac_inv_def bit_and_iff)
  with inv show ?thesis by (simp add: rbac_inv_def)
qed

theorem account_lists_disjoint_witness:
  "rb_grantedPerms demo_account AND rb_deniedPerms demo_account = 0 \<and> GetRBACGroup demo_mgr 1 \<noteq> None"
  using account_lists_disjoint [OF demo_account_reachable] by (simp add: demo_account_def)

text \<open>
  C30.  Commands are atomic: a saved command that reports success issues exactly one statement
  and leaves the cached permissions coherent; any other result leaves the account data as it
  was and issues nothing.
\<close>

theorem account_command_atomic:
  assumes "run_cmd am c realm d = Inr (res, d', stms)" "realm \<noteq> 0"
  shows "if res = RBAC_OK then length stms = 1 \<and> coherent am d' else d' = d \<and> stms = []"
  using run_cmd_refused [OF assms(1)] run_cmd_saved assms by auto

theorem account_command_atomic_witness:
  "run_cmd demo_mgr (GrantRole 9) 1 demo_account = Inr (RBAC_ID_DOES_NOT_EXISTS, demo_account, [])
   \<and> (\<exists>d' stms. run_cmd demo_mgr (GrantRole 2) 1 demo_account = Inr (RBAC_OK, d', stms) \<and> length stms = 1)"
proof -
  have r: "\<exists>d' stms. run_cmd demo_mgr (GrantRole 9) 1 demo_account = Inr (RBAC_ID_DOES_NOT_EXISTS, d', stms)"
    by (simp add: RBACData_GrantRole_def GetRBACRole_def demo_mgr_def)
  have k: "\<exists>d' stms. run_cmd demo_mgr (GrantRole 2) 1 demo_account = Inr (RBAC_OK, d', stms)"
    by (simp add: RBACData_GrantRole_def GetRBACRole_def demo_mgr_def demo_account_def finish_def)
  from r k show ?thesis using account_command_atomic [of demo_mgr _ 1 demo_account] by fastforce
qed

text \<open>
  Denial wins: after a role has been denied, none of its permissions is held, whatever
  grants the account has.
\<close>

theorem deny_role_overrides:
  assumes "RBACData_DenyRole am r realm d = Inr (RBAC_OK, d', stms)" "realm \<noteq> 0"
    and "role_grants am r (unat p)"
  shows "HasPermission d' p = Inr False"
proof -
  have "r \<in> set (rb_deniedRoles d')"
    using assms(1,2) by (auto simp: RBACData_DenyRole_def finish_def CalculateNewPermissions_def Let_def
        split: if_splits)
  moreover have "coherent am d'" using deny_role.saved assms(1,2) by blast
  ultimately show ?thesis
    using assms(3) bit_role_length [OF assms(3)]
    by (auto simp: HasPermission_def bitset_test_def coherent_def effective_def)
qed

theorem deny_role_overrides_witness:
  "HasPermission demo_account 26 = Inr True
   \<and> HasPermission (fst (snd (projr (RBACData_DenyRole demo_mgr 1 1 demo_account)))) 26 = Inr False"
proof -
  have ok: "fst (projr (RBACData_DenyRole demo_mgr 1 1 demo_account)) = RBAC_OK
      \<and> isl (RBACData_DenyRole demo_mgr 1 1 demo_account) = False" by code_simp
  then obtain d' stms where d': "RBACData_DenyRole demo_mgr 1 1 demo_account = Inr (RBAC_OK, d', stms)"
    by (cases "RBACData_DenyRole demo_mgr 1 1 demo_account") auto
  have "role_grants demo_mgr 1 (unat (26 :: uint32))"
    by (simp add: role_grants_def GetRBACRole_def demo_mgr_def bit_simps)
  from deny_role_overrides [OF d' _ this] have "HasPermission d' 26 = Inr False" by simp
  moreover have "HasPermission demo_account 26 = Inr True" by code_simp
  ultimately show ?thesis by (simp add: d')
qed

text \<open>
  Granting a role and revoking it again restores the account exactly, cached permissions
  included, and deletes the row the grant inserted.
\<close>

theorem grant_revoke_role_roundtrip:
  assumes "reachable (account_init am) (account_step am) d" "realm \<noteq> 0"
    and "RBACData_GrantRole am r realm d = Inr (RBAC_OK, d', stms)"
  shows "stms = [INS_RBAC_ACCOUNT_ROLE (rb_id d) r True realm]
    \<and> RBACData_RevokeRole am r realm d' = Inr (RBAC_OK, d, [DEL_RBAC_ACCOUNT_ROLE (rb_id d) r realm])"
proof -
  from assms(2,3) have fresh: "r \<notin> set (rb_grantedRoles d)" "r \<notin> set (rb_deniedRoles d)"
    and d': "d' = CalculateNewPermissions am (d\<lparr>rb_grantedRoles := set_put r (rb_grantedRoles d)\<rparr>)"
    and stms: "stms = [INS_RBAC_ACCOUNT_ROLE (rb_id d) r True realm]"
    by (auto simp: RBACData_GrantRole_def finish_def split: if_splits)
  have "coherent am d" using account.reachable_inv [OF assms(1)] by simp
  from coherent_Calculate [OF this]
  have restored: "CalculateNewPermissions am (d\<lparr>rb_globalPerms := g\<rparr>) = d" for g
    by (simp add: CalculateNewPermissions_def Let_def)
  have "set_erase r (rb_deniedRoles d) = rb_deniedRoles d"
    using fresh by (auto simp: set_erase_def filter_id_conv)
  moreover obtain g where g: "d' = d\<lparr>rb_grantedRoles := set_put r (rb_grantedRoles d), rb_globalPerms := g\<rparr>"
    using d' by (simp add: CalculateNewPermissions_def Let_def)
  ultimately show ?thesis using fresh assms(2) restored stms
    by (simp add: g RBACData_RevokeRole_def finish_def set_erase_put_fresh)
qed

theorem grant_revoke_role_roundtrip_witness:
  "\<exists>d'. RBACData_GrantRole demo_mgr 2 1 demo_account
        = Inr (RBAC_OK, d', [INS_RBAC_ACCOUNT_ROLE 7 2 True 1])
     \<and> RBACData_RevokeRole demo_mgr 2 1 d' = Inr (RBAC_OK, demo_account, [DEL_RBAC_ACCOUNT_ROLE 7 2 1])"
proof -
  obtain d' stms where d': "RBACData_GrantRole demo_mgr 2 1 demo_account = Inr (RBAC_OK, d', stms)"
    by (simp add: RBACData_GrantRole_def GetRBACRole_def demo_mgr_def demo_account_def finish_def)
  from grant_revoke_role_roundtrip [OF demo_account_reachable _ d'] d' show ?thesis
    by (auto simp: demo_account_def)
qed

text \<open>
  Loading the definitions from filled tables succeeds exactly when every role-permission
  row names a defined role and every group-role row a defined group; an unknown one
  dereferences a null pointer.
\<close>

theorem LoadRBAC_fails_iff:
  assumes "tables_filled t"
  shows "LoadRBAC t am = Inl e \<longleftrightarrow> e = NullPointer \<and> \<not> foreign_keys_ok t"
proof -
  let ?am = "load_roles (tab_roles t) (load_permissions (tab_permissions t) (ClearRBAC am))"
  have none: "map_of (am_roles ?am) i = None \<longleftrightarrow> i \<notin> fst ` set (tab_roles t)" for i
    by (simp add: map_of_load_roles)
  have group_none: "map_of (am_groups (load_groups (tab_groups t) am1)) i = None
      \<longleftrightarrow> i \<notin> fst ` set (tab_groups t)"
    if "load_role_permissions (tab_role_permissions t) ?am = Inr am1" for i am1
    using load_role_permissions_groups [OF that] by (simp add: map_of_load_groups)
  have roles: "load_role_permissions (tab_role_permissions t) ?am = Inl e' \<longleftrightarrow>
      e' = NullPointer \<and> \<not> fst ` set (tab_role_permissions t) \<subseteq> fst ` set (tab_roles t)" for e'
    unfolding load_role_permissions_total none by force
  have grps: "load_group_roles (tab_group_roles t) (load_groups (tab_groups t) am1) = Inl e' \<longleftrightarrow>
      e' = NullPointer \<and> \<not> fst ` set (tab_group_roles t) \<subseteq> fst ` set (tab_groups t)"
    if "load_role_permissions (tab_role_permissions t) ?am = Inr am1" for e' am1
    unfolding load_group_roles_total group_none [OF that] by force
  show ?thesis
  proof (cases "load_role_permissions (tab_role_permissions t) ?am")
    case (Inl e')
    with roles [of e'] assms show ?thesis
      by (auto simp: LoadRBAC_def Let_def tables_filled_def foreign_keys_ok_def)
  next
    case (Inr am1)
    with roles [of NullPointer] have "fst ` set (tab_role_permissions t) \<subseteq> fst ` set (tab_roles t)" by auto
    with Inr grps [OF Inr] assms show ?thesis
      by (cases "load_group_roles (tab_group_roles t) (load_groups (tab_groups t) am1)")
        (auto simp: LoadRBAC_def Let_def tables_filled_def foreign_keys_ok_def)
  qed
qed

theorem LoadRBAC_fails_iff_witness:
  "LoadRBAC demo_tables demo_mgr \<noteq> Inl NullPointer
   \<and> LoadRBAC (demo_tables\<lparr>tab_role_permissions := [(3, 1)]\<rparr>) demo_mgr = Inl NullPointer"
  using LoadRBAC_fails_iff [of demo_tables demo_mgr NullPointer]
    LoadRBAC_fails_iff [of "demo_tables\<lparr>tab_role_permissions := [(3, 1)]\<rparr>" demo_mgr NullPointer]
  by (simp add: tables_filled_def foreign_keys_ok_def demo_tables_def)

text \<open>
  After a successful load a role grants exactly the in-range permissions of its rows:
  rows with an index outside the bitset are skipped, repeated rows add nothing.
\<close>

theorem LoadRBAC_role_grants:
  assumes "tables_filled t" "LoadRBAC t am = Inr am'"
  shows "role_grants am' r p \<longleftrightarrow> (\<exists>q. (r, q) \<in> set (tab_role_permissions t) \<and> unat q = p \<and> p < RBAC_PERM_MAX)"
proof -
  let ?am = "load_roles (tab_roles t) (load_permissions (tab_permissions t) (ClearRBAC am))"
  from assms obtain am1 am2 where
    1: "load_role_permissions (tab_role_permissions t) ?am = Inr am1" and
    2: "load_group_roles (tab_group_roles t) (load_groups (tab_groups t) am1) = Inr am2" and
    3: "am' = load_default_groups (cfg_default_groups t) (load_sec_groups (tab_security_level_groups t) am2)"
    by (auto simp: LoadRBAC_def Let_def tables_filled_def bindE_Inr_iff)
  have "role_grants am' r p = role_grants am1 r p"
    using load_group_roles_roles [OF 2] by (simp add: 3 role_grants_def GetRBACRole_def
        load_sec_groups_def load_default_groups_def load_groups_def)
  moreover have "\<not> role_grants ?am r p" by (rule load_roles_grant_nothing) simp
  ultimately show ?thesis using load_role_permissions_grants [OF 1, of r p] by simp
qed

theorem LoadRBAC_role_grants_witness:
  "\<exists>am'. LoadRBAC demo_tables demo_mgr = Inr am' \<and> role_grants am' 2 45 \<and> \<not> role_grants am' 2 26"
proof -
  have "\<not> isl (LoadRBAC demo_tables demo_mgr)" by code_simp
  then obtain am' where am': "LoadRBAC demo_tables demo_mgr = Inr am'"
    by (cases "LoadRBAC demo_tables demo_mgr") auto
  have f: "tables_filled demo_tables" by (simp add: tables_filled_def demo_tables_def)
  show ?thesis
    using am' LoadRBAC_role_grants [OF f am', of 2 45] LoadRBAC_role_grants [OF f am', of 2 26]
    by (auto simp: demo_tables_def)
qed

text \<open>
  \<^verbatim>\<open>RevokePermission\<close> does not check its argument: an index of 48 or more throws
  \<^verbatim>\<open>std::out_of_range\<close> for every account, where \<^verbatim>\<open>GrantPermission\<close> and \<^verbatim>\<open>DenyPermission\<close> of an
  undefined permission report \<^verbatim>\<open>RBAC_ID_DOES_NOT_EXISTS\<close>.
\<close>

theorem revoke_unknown_permission_throws:
  assumes "RBAC_PERM_MAX \<le> unat p" "GetRBACPermission am p = None"
  shows "run_cmd am (RevokePermission p) realm d = Inl OutOfRange
    \<and> run_cmd am (GrantPermission p) realm d = Inr (RBAC_ID_DOES_NOT_EXISTS, d, [])
    \<and> run_cmd am (DenyPermission p) realm d = Inr (RBAC_ID_DOES_NOT_EXISTS, d, [])"
  using assms by (simp add: RBACData_RevokePermission_def RBACData_GrantPermission_def
      RBACData_DenyPermission_def bitset_test_def)

theorem revoke_unknown_permission_throws_witness:
  "run_cmd demo_mgr (RevokePermission 1000) 1 demo_account = Inl OutOfRange"
  using revoke_unknown_permission_throws [of 1000 demo_mgr 1 demo_account]
  by (simp add: GetRBACPermission_def demo_mgr_def)

end
