(* ===== verification/WorldPacket.thy ===== *)
theory WorldPacket
  imports ByteBuffer
begin

text \<open>
  \<^verbatim>\<open>WorldPacket.h\<close>: a byte buffer with an opcode.  The game components build their packets with
  sequences of \<^verbatim>\<open>operator<<\<close>; a \<open>packet\<close> is the opcode with that sequence of operands, and
  \<open>render\<close> executes it on the byte buffer.  A placeholder that is patched later with
  \<^verbatim>\<open>put<uint32>(pos, count)\<close> is a replaced operand; \<open>placeholder_patched\<close> shows that both give the
  same bytes.
\<close>

section \<open>Packets as buffers\<close>

record WorldPacket =
  wp_buffer :: ByteBuffer
  wp_opcode :: uint16

definition WorldPacket_new :: "uint16 \<Rightarrow> WorldPacket" where
  "WorldPacket_new opcode = \<lparr>wp_buffer = bb_new, wp_opcode = opcode\<rparr>"

definition WorldPacket_Initialize :: "uint16 \<Rightarrow> WorldPacket \<Rightarrow> WorldPacket" where
  "WorldPacket_Initialize opcode p = p\<lparr>wp_buffer := bb_clear (wp_buffer p), wp_opcode := opcode\<rparr>"

section \<open>Packets as sequences of operands\<close>

datatype field = FU8 uint8 | FU16 uint16 | FU32 uint32 | FU64 uint64 | FStr string

fun write_field :: "field \<Rightarrow> ByteBuffer \<Rightarrow> ByteBuffer bb_result" where
  "write_field (FU8 v) b = bb_append v b"
| "write_field (FU16 v) b = bb_append v b"
| "write_field (FU32 v) b = bb_append v b"
| "write_field (FU64 v) b = bb_append v b"
| "write_field (FStr s) b = bb_append_string s b"

fun read_like :: "field \<Rightarrow> ByteBuffer \<Rightarrow> (field \<times> ByteBuffer) bb_result" where
  "read_like (FU8 _) b = bindE (bb_read b) (\<lambda>(v, b'). Inr (FU8 v, b'))"
| "read_like (FU16 _) b = bindE (bb_read b) (\<lambda>(v, b'). Inr (FU16 v, b'))"
| "read_like (FU32 _) b = bindE (bb_read b) (\<lambda>(v, b'). Inr (FU32 v, b'))"
| "read_like (FU64 _) b = bindE (bb_read b) (\<lambda>(v, b'). Inr (FU64 v, b'))"
| "read_like (FStr _) b = bindE (bb_read_string b) (\<lambda>(s, b'). Inr (FStr s, b'))"

text \<open>Reading a packet with a sequence of \<^verbatim>\<open>operator>>\<close> of the types of \<open>shape\<close>.\<close>

fun read_fields :: "field list \<Rightarrow> ByteBuffer \<Rightarrow> (field list \<times> ByteBuffer) bb_result" where
  "read_fields [] b = Inr ([], b)"
| "read_fields (f # shape) b =
     bindE (read_like f b) (\<lambda>(x, b'). bindE (read_fields shape b') (\<lambda>(xs, b''). Inr (x # xs, b'')))"

record packet =
  pk_opcode :: uint16
  pk_fields :: "field list"

abbreviation pkt :: "uint16 \<Rightarrow> field list \<Rightarrow> packet" where
  "pkt opcode fs \<equiv> \<lparr>pk_opcode = opcode, pk_fields = fs\<rparr>"

definition render :: "packet \<Rightarrow> WorldPacket bb_result" where
  "render p =
     (let w = WorldPacket_new (pk_opcode p)
      in bindE (write_elems write_field (pk_fields p) (wp_buffer w)) (\<lambda>b. Inr (w\<lparr>wp_buffer := b\<rparr>)))"

section \<open>Encodings\<close>

lemma bb_new_simps [simp]: "bb_rpos bb_new = 0" "bb_wpos bb_new = 0" "bb_storage bb_new = []"
  by (simp_all add: bb_new_def)

fun field_enc :: "field \<Rightarrow> uint8 list" where
  "field_enc (FU8 v) = word_enc v"
| "field_enc (FU16 v) = word_enc v"
| "field_enc (FU32 v) = word_enc v"
| "field_enc (FU64 v) = word_enc v"
| "field_enc (FStr s) = string_enc s"

fun field_ok :: "field \<Rightarrow> bool" where
  "field_ok (FStr s) = (CHR 0x00 \<notin> set s)"
| "field_ok _ = True"

definition fields_enc :: "field list \<Rightarrow> uint8 list" where
  "fields_enc fs = concat (map field_enc fs)"

lemma fields_enc_simps [simp]:
  "fields_enc [] = []" "fields_enc (f # fs) = field_enc f @ fields_enc fs"
  "fields_enc (fs @ gs) = fields_enc fs @ fields_enc gs"
  by (simp_all add: fields_enc_def)

lemma write_field_ok:
  "field_ok f \<Longrightarrow> at_end b \<Longrightarrow> bb_size b + length (field_enc f) < 10000000 \<Longrightarrow>
   write_field f b = Inr (grow (field_enc f) b)"
  by (cases f) (simp_all add: u8c.wr_ok u16c.wr_ok u32c.wr_ok u64c.wr_ok strc.wr_ok)

lemma read_like_ok:
  assumes "field_ok f" "bb_wf b" "drop (bb_rpos b) (bb_storage b) = field_enc f @ rest"
  shows "read_like f b = Inr (f, advance (length (field_enc f)) b)"
  using assms u8c.rd_ok [where b = b and rest = rest] u16c.rd_ok [where b = b and rest = rest]
    u32c.rd_ok [where b = b and rest = rest] u64c.rd_ok [where b = b and rest = rest]
    strc.rd_ok [where b = b and rest = rest]
  by (cases f) simp_all

interpretation fieldc: byte_codec write_field "read_like f" field_enc "\<lambda>x. x = f \<and> field_ok x" for f
  by unfold_locales (auto simp: write_field_ok read_like_ok)

lemma write_fields_ok:
  "list_all field_ok fs \<Longrightarrow> at_end b \<Longrightarrow> bb_size b + length (fields_enc fs) < 10000000 \<Longrightarrow>
   write_elems write_field fs b = Inr (grow (fields_enc fs) b)"
proof (induction fs arbitrary: b)
  case (Cons f fs)
  have "write_field f b = Inr (grow (field_enc f) b)" using Cons.prems by (intro write_field_ok) auto
  moreover have "at_end (grow (field_enc f) b)" using Cons.prems by (intro at_end_grow) auto
  ultimately show ?case using Cons by simp
qed simp

lemma read_fields_ok:
  "list_all field_ok fs \<Longrightarrow> bb_wf b \<Longrightarrow> drop (bb_rpos b) (bb_storage b) = fields_enc fs @ rest \<Longrightarrow>
   read_fields fs b = Inr (fs, advance (length (fields_enc fs)) b)"
proof (induction fs arbitrary: b)
  case (Cons f fs)
  then have d: "drop (bb_rpos b) (bb_storage b) = field_enc f @ fields_enc fs @ rest" by simp
  with Cons.prems have "read_like f b = Inr (f, advance (length (field_enc f)) b)"
    by (intro read_like_ok) auto
  moreover have "read_fields fs (advance (length (field_enc f)) b)
      = Inr (fs, advance (length (fields_enc fs)) (advance (length (field_enc f)) b))"
    using Cons.prems d by (intro Cons.IH bb_wf_advance drop_advance) auto
  ultimately show ?case by simp
qed simp

lemma render_ok:
  assumes "list_all field_ok (pk_fields p)" "length (fields_enc (pk_fields p)) < 10000000"
  shows "render p = Inr \<lparr>wp_buffer = grow (fields_enc (pk_fields p)) bb_new, wp_opcode = pk_opcode p\<rparr>"
  using write_fields_ok [OF assms(1), of bb_new] assms(2) by (simp add: render_def WorldPacket_new_def)

section \<open>Properties\<close>

text \<open>
  C25.  A packet of fewer than 10,000,000 bytes that is built from a new one by a sequence of
  \<^verbatim>\<open>operator<<\<close>, with strings that contain no NUL, is read back by the same sequence of
  \<^verbatim>\<open>operator>>\<close>: the reader gets the same operands and ends at the end of the packet.
\<close>

theorem packet_roundtrip:
  assumes "list_all field_ok (pk_fields p)" "length (fields_enc (pk_fields p)) < 10000000"
  shows "\<exists>w b. render p = Inr w \<and> wp_opcode w = pk_opcode p
    \<and> read_fields (pk_fields p) (wp_buffer w) = Inr (pk_fields p, b) \<and> bb_rpos b = bb_size b"
proof -
  let ?b = "grow (fields_enc (pk_fields p)) bb_new"
  have wf: "bb_wf ?b" using assms(2) by (simp add: bb_wf_def)
  have "drop (bb_rpos ?b) (bb_storage ?b) = fields_enc (pk_fields p) @ []" by simp
  from read_fields_ok [OF assms(1) wf this] render_ok [OF assms] show ?thesis
    by simp
qed

theorem packet_roundtrip_witness:
  "\<exists>w b. render (pkt 0x99 [FU8 2, FStr ''world'', FU32 7]) = Inr w \<and> wp_opcode w = 0x99
    \<and> read_fields [FU8 2, FStr ''world'', FU32 7] (wp_buffer w) = Inr ([FU8 2, FStr ''world'', FU32 7], b)
    \<and> bb_rpos b = bb_size b"
  using packet_roundtrip [of "pkt 0x99 [FU8 2, FStr ''world'', FU32 7]"] by (simp add: string_enc_def)

text \<open>
  Patching a placeholder: writing a 32-bit placeholder, continuing to write and then
  calling \<^verbatim>\<open>put<uint32>\<close> at the remembered write position gives exactly the packet in which
  the value was written in the first place.
\<close>

theorem placeholder_patched:
  assumes "list_all field_ok (fs @ gs)" "length (fields_enc (fs @ FU32 v # gs)) < 10000000"
    and "write_elems write_field fs bb_new = Inr b0"
    and "write_elems write_field (FU32 v # gs) b0 = Inr b1"
  shows "bb_put (bb_wpos b0) v' b1 = write_elems write_field (fs @ FU32 v' # gs) bb_new"
proof -
  have b0: "b0 = grow (fields_enc fs) bb_new"
    using assms(1-3) write_fields_ok [of fs bb_new] by simp
  have len: "length (fields_enc fs) + (4 + length (fields_enc gs)) < 10000000" using assms(2) by simp
  then have "at_end b0" unfolding b0 by (intro at_end_grow) simp_all
  then have b1: "b1 = grow (fields_enc (FU32 v # gs)) b0"
    using assms(1,4) write_fields_ok [of "FU32 v # gs" b0] len b0
    by (simp del: write_elems.simps)
  have "write_elems write_field (fs @ FU32 v' # gs) bb_new
      = Inr (grow (fields_enc (fs @ FU32 v' # gs)) bb_new)"
    using assms(1) len by (intro write_fields_ok) simp_all
  moreover have "bb_put (bb_wpos b0) v' b1 = Inr (grow (fields_enc (fs @ FU32 v' # gs)) bb_new)"
    using len unfolding b0 b1
    by (simp add: bb_put_def bb_put_raw_def mem_write_def grow_def word_enc_def)
  ultimately show ?thesis by simp
qed

theorem placeholder_patched_witness:
  "\<exists>b0 b1. write_elems write_field [FU8 1, FStr ''c''] bb_new = Inr b0
    \<and> write_elems write_field [FU32 0, FU64 9] b0 = Inr b1
    \<and> bb_put (bb_wpos b0) (1 :: uint32) b1 = write_elems write_field [FU8 1, FStr ''c'', FU32 1, FU64 9] bb_new"
proof -
  let ?b0 = "grow (fields_enc [FU8 1, FStr ''c'']) bb_new"
  have b0: "write_elems write_field [FU8 1, FStr ''c''] bb_new = Inr ?b0"
    by (rule write_fields_ok) (simp_all add: string_enc_def)
  have "at_end ?b0" by (rule at_end_grow) (simp_all add: string_enc_def)
  then have b1: "write_elems write_field [FU32 0, FU64 9] ?b0 = Inr (grow (fields_enc [FU32 0, FU64 9]) ?b0)"
    by (rule write_fields_ok [rotated]) (simp_all add: string_enc_def)
  show ?thesis
    using placeholder_patched [OF _ _ b0 b1, of 1] b0 b1 by (simp add: string_enc_def)
qed

end
