(* ===== verification/ObjectGuid.thy ===== *)
theory ObjectGuid
  imports FC_Prelude
begin

text \<open>
  The 64-bit object identifiers of \<^verbatim>\<open>game/Entities/Object/ObjectDefines.h\<close>: sixteen high bits
  name the kind of object, and below them lie a counter of 32 bits or, for the kinds that have a
  template, an entry of 24 bits and a counter of 24 bits.
\<close>

abbreviation HIGHGUID_ITEM :: uint32 where "HIGHGUID_ITEM \<equiv> 0x4000"
abbreviation HIGHGUID_PLAYER :: uint32 where "HIGHGUID_PLAYER \<equiv> 0x0000"
abbreviation HIGHGUID_GAMEOBJECT :: uint32 where "HIGHGUID_GAMEOBJECT \<equiv> 0xF110"
abbreviation HIGHGUID_TRANSPORT :: uint32 where "HIGHGUID_TRANSPORT \<equiv> 0xF120"
abbreviation HIGHGUID_UNIT :: uint32 where "HIGHGUID_UNIT \<equiv> 0xF130"
abbreviation HIGHGUID_PET :: uint32 where "HIGHGUID_PET \<equiv> 0xF140"
abbreviation HIGHGUID_VEHICLE :: uint32 where "HIGHGUID_VEHICLE \<equiv> 0xF150"
abbreviation HIGHGUID_DYNAMICOBJECT :: uint32 where "HIGHGUID_DYNAMICOBJECT \<equiv> 0xF100"
abbreviation HIGHGUID_CORPSE :: uint32 where "HIGHGUID_CORPSE \<equiv> 0xF101"
abbreviation HIGHGUID_MO_TRANSPORT :: uint32 where "HIGHGUID_MO_TRANSPORT \<equiv> 0x1FC0"
abbreviation HIGHGUID_GROUP :: uint32 where "HIGHGUID_GROUP \<equiv> 0x1F50"

definition MAKE_PAIR64 :: "uint32 \<Rightarrow> uint32 \<Rightarrow> uint64" where
  "MAKE_PAIR64 l h = ucast l OR push_bit 32 (ucast h)"

definition PAIR64_HIPART :: "uint64 \<Rightarrow> uint32" where
  "PAIR64_HIPART x = ucast (drop_bit 32 x AND 0x00000000FFFFFFFF)"

definition PAIR64_LOPART :: "uint64 \<Rightarrow> uint32" where
  "PAIR64_LOPART x = ucast (x AND 0x00000000FFFFFFFF)"

definition MAKE_PAIR16 :: "uint8 \<Rightarrow> uint8 \<Rightarrow> uint16" where
  "MAKE_PAIR16 l h = ucast l OR push_bit 8 (ucast h)"

definition MAKE_PAIR32 :: "uint16 \<Rightarrow> uint16 \<Rightarrow> uint32" where
  "MAKE_PAIR32 l h = ucast l OR push_bit 16 (ucast h)"

definition PAIR32_HIPART :: "uint32 \<Rightarrow> uint16" where
  "PAIR32_HIPART x = ucast (drop_bit 16 x AND 0x0000FFFF)"

definition PAIR32_LOPART :: "uint32 \<Rightarrow> uint16" where
  "PAIR32_LOPART x = ucast (x AND 0x0000FFFF)"

definition GUID_HIPART :: "uint64 \<Rightarrow> uint32" where
  "GUID_HIPART guid = ucast (drop_bit 48 guid AND 0x0000FFFF)"

definition MAKE_NEW_GUID :: "uint32 \<Rightarrow> uint32 \<Rightarrow> uint32 \<Rightarrow> uint64" where
  "MAKE_NEW_GUID l e h = ucast l OR push_bit 24 (ucast e) OR push_bit 48 (ucast h)"

text \<open>The cases of the switch that answer \<^verbatim>\<open>false\<close>; every other high part, listed or not, has an entry.\<close>

definition IsGuidHaveEnPart :: "uint64 \<Rightarrow> bool" where
  "IsGuidHaveEnPart guid \<longleftrightarrow> GUID_HIPART guid \<notin>
     {HIGHGUID_ITEM, HIGHGUID_PLAYER, HIGHGUID_DYNAMICOBJECT, HIGHGUID_CORPSE, HIGHGUID_GROUP}"

definition GUID_ENPART :: "uint64 \<Rightarrow> uint32" where
  "GUID_ENPART x = (if IsGuidHaveEnPart x then ucast (drop_bit 24 x AND 0x0000000000FFFFFF) else 0)"

definition GUID_LOPART :: "uint64 \<Rightarrow> uint32" where
  "GUID_LOPART x =
     (if IsGuidHaveEnPart x then ucast (x AND 0x0000000000FFFFFF) else ucast (x AND 0x00000000FFFFFFFF))"

definition IS_EMPTY_GUID :: "uint64 \<Rightarrow> bool" where
  "IS_EMPTY_GUID guid \<longleftrightarrow> guid = 0"

definition IS_CREATURE_GUID :: "uint64 \<Rightarrow> bool" where
  "IS_CREATURE_GUID guid \<longleftrightarrow> GUID_HIPART guid = HIGHGUID_UNIT"

definition IS_PET_GUID :: "uint64 \<Rightarrow> bool" where
  "IS_PET_GUID guid \<longleftrightarrow> GUID_HIPART guid = HIGHGUID_PET"

definition IS_VEHICLE_GUID :: "uint64 \<Rightarrow> bool" where
  "IS_VEHICLE_GUID guid \<longleftrightarrow> GUID_HIPART guid = HIGHGUID_VEHICLE"

definition IS_CRE_OR_VEH_GUID :: "uint64 \<Rightarrow> bool" where
  "IS_CRE_OR_VEH_GUID guid \<longleftrightarrow> IS_CREATURE_GUID guid \<or> IS_VEHICLE_GUID guid"

definition IS_CRE_OR_VEH_OR_PET_GUID :: "uint64 \<Rightarrow> bool" where
  "IS_CRE_OR_VEH_OR_PET_GUID guid \<longleftrightarrow> IS_CRE_OR_VEH_GUID guid \<or> IS_PET_GUID guid"

definition IS_PLAYER_GUID :: "uint64 \<Rightarrow> bool" where
  "IS_PLAYER_GUID guid \<longleftrightarrow> guid \<noteq> 0 \<and> GUID_HIPART guid = HIGHGUID_PLAYER"

definition IS_UNIT_GUID :: "uint64 \<Rightarrow> bool" where
  "IS_UNIT_GUID guid \<longleftrightarrow> IS_CRE_OR_VEH_OR_PET_GUID guid \<or> IS_PLAYER_GUID guid"

definition IS_ITEM_GUID :: "uint64 \<Rightarrow> bool" where
  "IS_ITEM_GUID guid \<longleftrightarrow> GUID_HIPART guid = HIGHGUID_ITEM"

definition IS_GAMEOBJECT_GUID :: "uint64 \<Rightarrow> bool" where
  "IS_GAMEOBJECT_GUID guid \<longleftrightarrow> GUID_HIPART guid = HIGHGUID_GAMEOBJECT"

definition IS_DYNAMICOBJECT_GUID :: "uint64 \<Rightarrow> bool" where
  "IS_DYNAMICOBJECT_GUID guid \<longleftrightarrow> GUID_HIPART guid = HIGHGUID_DYNAMICOBJECT"

definition IS_CORPSE_GUID :: "uint64 \<Rightarrow> bool" where
  "IS_CORPSE_GUID guid \<longleftrightarrow> GUID_HIPART guid = HIGHGUID_CORPSE"

definition IS_TRANSPORT_GUID :: "uint64 \<Rightarrow> bool" where
  "IS_TRANSPORT_GUID guid \<longleftrightarrow> GUID_HIPART guid = HIGHGUID_TRANSPORT"

definition IS_MO_TRANSPORT_GUID :: "uint64 \<Rightarrow> bool" where
  "IS_MO_TRANSPORT_GUID guid \<longleftrightarrow> GUID_HIPART guid = HIGHGUID_MO_TRANSPORT"

definition IS_GROUP_GUID :: "uint64 \<Rightarrow> bool" where
  "IS_GROUP_GUID guid \<longleftrightarrow> GUID_HIPART guid = HIGHGUID_GROUP"

section \<open>Bits of the parts\<close>

lemma low_masks:
  "(0xFFFF :: uint64) = mask 16" "(0xFFFFFF :: uint64) = mask 24" "(0xFFFFFFFF :: uint64) = mask 32"
  by (simp_all add: mask_eq_exp_minus_1)

lemma low_masks32: "(0xFFFF :: uint32) = mask 16"
  by (simp add: mask_eq_exp_minus_1)

lemma bit_HIPART: "bit (GUID_HIPART g) n \<longleftrightarrow> n < 16 \<and> bit g (48 + n)"
  by (auto simp: GUID_HIPART_def low_masks bit_simps dest: bit_imp_le_length)

lemma bit_ENPART: "bit (GUID_ENPART g) n \<longleftrightarrow> IsGuidHaveEnPart g \<and> n < 24 \<and> bit g (24 + n)"
  by (auto simp: GUID_ENPART_def low_masks bit_simps)

lemma bit_LOPART: "bit (GUID_LOPART g) n \<longleftrightarrow> n < (if IsGuidHaveEnPart g then 24 else 32) \<and> bit g n"
  by (auto simp: GUID_LOPART_def low_masks bit_simps)

lemma bit_MAKE_NEW_GUID:
  "bit (MAKE_NEW_GUID l e h) n \<longleftrightarrow>
     n < 64 \<and> (bit l n \<or> 24 \<le> n \<and> bit e (n - 24) \<or> 48 \<le> n \<and> bit h (n - 48))"
  by (auto simp: MAKE_NEW_GUID_def bit_simps dest: bit_imp_le_length)

lemma small_bit: "w < 2 ^ k \<Longrightarrow> bit w n \<Longrightarrow> n < k" for w :: uint32
  using less_mask_eq [of w k] bit_and_iff [of w "mask k" n] by (auto simp: bit_simps)

lemma HIPART_MAKE:
  assumes "l < 2 ^ 24 \<or> e = 0" "e < 2 ^ 24" "h < 2 ^ 16"
  shows "GUID_HIPART (MAKE_NEW_GUID l e h) = h"
proof (rule bit_word_eqI)
  fix n assume "n < LENGTH(32)"
  show "bit (GUID_HIPART (MAKE_NEW_GUID l e h)) n = bit h n"
    using small_bit [OF assms(2), of "24 + n"] small_bit [OF assms(3), of n] bit_imp_le_length [of l "48 + n"]
    by (auto simp: bit_HIPART bit_MAKE_NEW_GUID)
qed

lemma pair_parts:
  "PAIR64_LOPART (MAKE_PAIR64 l h) = l" "PAIR64_HIPART (MAKE_PAIR64 l h) = h"
  "PAIR32_LOPART (MAKE_PAIR32 l' h') = l'" "PAIR32_HIPART (MAKE_PAIR32 l' h') = h'"
  by (rule bit_word_eqI; auto simp: PAIR64_LOPART_def PAIR64_HIPART_def MAKE_PAIR64_def PAIR32_LOPART_def
      PAIR32_HIPART_def MAKE_PAIR32_def low_masks low_masks32 bit_simps dest: bit_imp_le_length)+

section \<open>Properties\<close>

text \<open>
  Taking an identifier apart inverts building it: for the kinds that carry an entry, counter
  and entry of 24 bits are recovered; for the others the counter is recovered with all its 32 bits
  and the entry is zero.
\<close>

theorem guid_parts_roundtrip:
  assumes "h < 2 ^ 16"
    and "if h \<in> {HIGHGUID_ITEM, HIGHGUID_PLAYER, HIGHGUID_DYNAMICOBJECT, HIGHGUID_CORPSE, HIGHGUID_GROUP}
         then e = 0 else l < 2 ^ 24 \<and> e < 2 ^ 24"
  shows "GUID_HIPART (MAKE_NEW_GUID l e h) = h \<and> GUID_ENPART (MAKE_NEW_GUID l e h) = e
    \<and> GUID_LOPART (MAKE_NEW_GUID l e h) = l"
proof -
  let ?g = "MAKE_NEW_GUID l e h"
  have hi: "GUID_HIPART ?g = h" by (rule HIPART_MAKE) (use assms in \<open>auto split: if_splits\<close>)
  have en: "GUID_ENPART ?g = e"
  proof (cases "IsGuidHaveEnPart ?g")
    case True
    then have b: "l < 2 ^ 24" "e < 2 ^ 24" using assms(2) hi by (auto simp: IsGuidHaveEnPart_def)
    show ?thesis
      by (rule bit_word_eqI)
        (use True small_bit [OF b(1)] small_bit [OF b(2)] in \<open>force simp: bit_ENPART bit_MAKE_NEW_GUID\<close>)
  qed (use assms(2) hi in \<open>auto simp: GUID_ENPART_def IsGuidHaveEnPart_def\<close>)
  have lo: "GUID_LOPART ?g = l"
  proof (rule bit_word_eqI)
    fix n assume "n < LENGTH(32)"
    then show "bit (GUID_LOPART ?g) n = bit l n"
      using assms(2) hi small_bit [of l 24 n] by (auto simp: bit_LOPART bit_MAKE_NEW_GUID IsGuidHaveEnPart_def)
  qed
  show ?thesis using hi en lo by simp
qed

theorem guid_parts_roundtrip_witness:
  "GUID_ENPART (MAKE_NEW_GUID 77 1234 HIGHGUID_UNIT) = 1234 \<and> GUID_LOPART (MAKE_NEW_GUID 0xFFFFFFFF 0 HIGHGUID_PLAYER) = 0xFFFFFFFF"
  using guid_parts_roundtrip [where h = HIGHGUID_UNIT and e = 1234 and l = 77]
    guid_parts_roundtrip [where h = HIGHGUID_PLAYER and e = 0 and l = "0xFFFFFFFF"]
  by simp

end
