(* ===== verification/Channel.thy ===== *)
theory Channel
  imports WorldPacket RBAC ObjectGuid
begin

text \<open>
  Chat channels: \<^verbatim>\<open>game/Chat/Channels/Channel.{h,cpp}\<close>.

  A channel keeps its members in a \<^verbatim>\<open>std::map\<close> from GUID to \<^verbatim>\<open>PlayerInfo\<close> and its ban list in a
  \<^verbatim>\<open>std::set\<close>.  Every operation returns the new channel and, in order, its effects: packets
  put on a player's session, calls of \<^verbatim>\<open>Player::JoinedChannel\<close> and \<^verbatim>\<open>LeftChannel\<close>, and database
  statements.  The rest of the server (the object accessor, the social lists, the
  configuration, the DBC store and the result of the channel query) is the argument \<open>env\<close>;
  a player carries his RBAC data, so that the permission checks are those of theory
  \<open>RBAC\<close>.
\<close>

section \<open>The surrounding server\<close>

record player =
  pl_guid :: uint64
  pl_name :: string
  pl_team :: uint32
  pl_security :: uint32
  pl_rbac :: RBACData
  pl_grouped :: bool
  pl_GMVisible :: bool
  pl_chatTag :: uint8

record channel_env =
  ce_FindPlayer :: "uint64 \<Rightarrow> player option"
  ce_FindPlayerByName :: "string \<Rightarrow> player option"
  ce_PlayerNameByGUID :: "uint64 \<Rightarrow> string option"
  ce_HasIgnore :: "uint64 \<Rightarrow> uint32 \<Rightarrow> bool"
  ce_IsVisibleGloballyFor :: "uint64 \<Rightarrow> uint64 \<Rightarrow> bool"
  ce_RESTRICTED_LFG_CHANNEL :: bool
  ce_TWO_SIDE_INTERACTION_CHANNEL :: bool
  ce_GM_LEVEL_IN_WHO_LIST :: uint32
  ce_PRESERVE_CUSTOM_CHANNELS :: bool
  ce_PRESERVE_CUSTOM_CHANNEL_DURATION :: uint32
  ce_ChatChannels :: "uint32 \<Rightarrow> uint32 option"
  ce_SEL_CHANNEL :: "string \<Rightarrow> uint32 \<Rightarrow> (bool \<times> bool \<times> string \<times> string option) option"

text \<open>
  \<^verbatim>\<open>WorldSession::HasPermission\<close> with the data loaded.  The permissions asked for here are in
  range (\<open>perms_in_range\<close> below), so the bitset never throws.
\<close>

definition Session_HasPermission :: "player \<Rightarrow> uint32 \<Rightarrow> bool" where
  "Session_HasPermission pl p = (case HasPermission (pl_rbac pl) p of Inr b \<Rightarrow> b | Inl _ \<Rightarrow> False)"

definition IsPlayerAccount :: "uint32 \<Rightarrow> bool" where
  "IsPlayerAccount gmlevel \<longleftrightarrow> gmlevel = 0"

datatype effect =
    Send uint64 packet
  | JoinedChannel uint64
  | LeftChannel uint64
  | CHAR_INS_CHANNEL string uint32
  | CHAR_UPD_CHANNEL bool bool string string string uint32
  | CHAR_UPD_CHANNEL_USAGE string uint32
  | CHAR_DEL_OLD_CHANNELS uint32

section \<open>Constants\<close>

abbreviation SMSG_MESSAGECHAT :: uint16 where "SMSG_MESSAGECHAT \<equiv> 0x096"
abbreviation SMSG_CHANNEL_NOTIFY :: uint16 where "SMSG_CHANNEL_NOTIFY \<equiv> 0x099"
abbreviation SMSG_CHANNEL_LIST :: uint16 where "SMSG_CHANNEL_LIST \<equiv> 0x09B"
abbreviation SMSG_USERLIST_ADD :: uint16 where "SMSG_USERLIST_ADD \<equiv> 0x3F0"
abbreviation SMSG_USERLIST_REMOVE :: uint16 where "SMSG_USERLIST_REMOVE \<equiv> 0x3F1"
abbreviation SMSG_USERLIST_UPDATE :: uint16 where "SMSG_USERLIST_UPDATE \<equiv> 0x3F2"
abbreviation CHAT_MSG_CHANNEL :: uint8 where "CHAT_MSG_CHANNEL \<equiv> 0x11"
abbreviation LANG_UNIVERSAL :: uint32 where "LANG_UNIVERSAL \<equiv> 0"
abbreviation DAY :: uint32 where "DAY \<equiv> 86400"

abbreviation CHANNEL_FLAG_CUSTOM :: uint8 where "CHANNEL_FLAG_CUSTOM \<equiv> 0x01"
abbreviation CHANNEL_FLAG_TRADE :: uint8 where "CHANNEL_FLAG_TRADE \<equiv> 0x04"
abbreviation CHANNEL_FLAG_NOT_LFG :: uint8 where "CHANNEL_FLAG_NOT_LFG \<equiv> 0x08"
abbreviation CHANNEL_FLAG_GENERAL :: uint8 where "CHANNEL_FLAG_GENERAL \<equiv> 0x10"
abbreviation CHANNEL_FLAG_CITY :: uint8 where "CHANNEL_FLAG_CITY \<equiv> 0x20"
abbreviation CHANNEL_FLAG_LFG :: uint8 where "CHANNEL_FLAG_LFG \<equiv> 0x40"

abbreviation CHANNEL_DBC_FLAG_TRADE :: uint32 where "CHANNEL_DBC_FLAG_TRADE \<equiv> 0x00008"
abbreviation CHANNEL_DBC_FLAG_CITY_ONLY2 :: uint32 where "CHANNEL_DBC_FLAG_CITY_ONLY2 \<equiv> 0x00020"
abbreviation CHANNEL_DBC_FLAG_LFG :: uint32 where "CHANNEL_DBC_FLAG_LFG \<equiv> 0x40000"

abbreviation MEMBER_FLAG_NONE :: uint8 where "MEMBER_FLAG_NONE \<equiv> 0x00"
abbreviation MEMBER_FLAG_OWNER :: uint8 where "MEMBER_FLAG_OWNER \<equiv> 0x01"
abbreviation MEMBER_FLAG_MODERATOR :: uint8 where "MEMBER_FLAG_MODERATOR \<equiv> 0x02"
abbreviation MEMBER_FLAG_MUTED :: uint8 where "MEMBER_FLAG_MUTED \<equiv> 0x08"

datatype ChatNotify =
    CHAT_JOINED_NOTICE | CHAT_LEFT_NOTICE | CHAT_YOU_JOINED_NOTICE | CHAT_YOU_LEFT_NOTICE
  | CHAT_WRONG_PASSWORD_NOTICE | CHAT_NOT_MEMBER_NOTICE | CHAT_NOT_MODERATOR_NOTICE
  | CHAT_PASSWORD_CHANGED_NOTICE | CHAT_OWNER_CHANGED_NOTICE | CHAT_PLAYER_NOT_FOUND_NOTICE
  | CHAT_NOT_OWNER_NOTICE | CHAT_CHANNEL_OWNER_NOTICE | CHAT_MODE_CHANGE_NOTICE
  | CHAT_ANNOUNCEMENTS_ON_NOTICE | CHAT_ANNOUNCEMENTS_OFF_NOTICE | CHAT_MUTED_NOTICE
  | CHAT_PLAYER_KICKED_NOTICE | CHAT_BANNED_NOTICE | CHAT_PLAYER_BANNED_NOTICE
  | CHAT_PLAYER_UNBANNED_NOTICE | CHAT_PLAYER_NOT_BANNED_NOTICE | CHAT_PLAYER_ALREADY_MEMBER_NOTICE
  | CHAT_INVITE_NOTICE | CHAT_INVITE_WRONG_FACTION_NOTICE | CHAT_WRONG_FACTION_NOTICE
  | CHAT_INVALID_NAME_NOTICE | CHAT_NOT_MODERATED_NOTICE | CHAT_PLAYER_INVITED_NOTICE
  | CHAT_PLAYER_INVITE_BANNED_NOTICE | CHAT_THROTTLED_NOTICE | CHAT_NOT_IN_AREA_NOTICE
  | CHAT_NOT_IN_LFG_NOTICE | CHAT_VOICE_ON_NOTICE | CHAT_VOICE_OFF_NOTICE

fun notify_code :: "ChatNotify \<Rightarrow> uint8" where
  "notify_code CHAT_JOINED_NOTICE = 0x00"
| "notify_code CHAT_LEFT_NOTICE = 0x01"
| "notify_code CHAT_YOU_JOINED_NOTICE = 0x02"
| "notify_code CHAT_YOU_LEFT_NOTICE = 0x03"
| "notify_code CHAT_WRONG_PASSWORD_NOTICE = 0x04"
| "notify_code CHAT_NOT_MEMBER_NOTICE = 0x05"
| "notify_code CHAT_NOT_MODERATOR_NOTICE = 0x06"
| "notify_code CHAT_PASSWORD_CHANGED_NOTICE = 0x07"
| "notify_code CHAT_OWNER_CHANGED_NOTICE = 0x08"
| "notify_code CHAT_PLAYER_NOT_FOUND_NOTICE = 0x09"
| "notify_code CHAT_NOT_OWNER_NOTICE = 0x0A"
| "notify_code CHAT_CHANNEL_OWNER_NOTICE = 0x0B"
| "notify_code CHAT_MODE_CHANGE_NOTICE = 0x0C"
| "notify_code CHAT_ANNOUNCEMENTS_ON_NOTICE = 0x0D"
| "notify_code CHAT_ANNOUNCEMENTS_OFF_NOTICE = 0x0E"
| "notify_code CHAT_MUTED_NOTICE = 0x11"
| "notify_code CHAT_PLAYER_KICKED_NOTICE = 0x12"
| "notify_code CHAT_BANNED_NOTICE = 0x13"
| "notify_code CHAT_PLAYER_BANNED_NOTICE = 0x14"
| "notify_code CHAT_PLAYER_UNBANNED_NOTICE = 0x15"
| "notify_code CHAT_PLAYER_NOT_BANNED_NOTICE = 0x16"
| "notify_code CHAT_PLAYER_ALREADY_MEMBER_NOTICE = 0x17"
| "notify_code CHAT_INVITE_NOTICE = 0x18"
| "notify_code CHAT_INVITE_WRONG_FACTION_NOTICE = 0x19"
| "notify_code CHAT_WRONG_FACTION_NOTICE = 0x1A"
| "notify_code CHAT_INVALID_NAME_NOTICE = 0x1B"
| "notify_code CHAT_NOT_MODERATED_NOTICE = 0x1C"
| "notify_code CHAT_PLAYER_INVITED_NOTICE = 0x1D"
| "notify_code CHAT_PLAYER_INVITE_BANNED_NOTICE = 0x1E"
| "notify_code CHAT_THROTTLED_NOTICE = 0x1F"
| "notify_code CHAT_NOT_IN_AREA_NOTICE = 0x20"
| "notify_code CHAT_NOT_IN_LFG_NOTICE = 0x21"
| "notify_code CHAT_VOICE_ON_NOTICE = 0x22"
| "notify_code CHAT_VOICE_OFF_NOTICE = 0x23"

section \<open>Members\<close>

record PlayerInfo =
  pi_player :: uint64
  pi_flags :: uint8

text \<open>\<^verbatim>\<open>playersStore[guid]\<close> value-initialises a missing entry.\<close>

definition PlayerInfo0 :: PlayerInfo where
  "PlayerInfo0 = \<lparr>pi_player = 0, pi_flags = 0\<rparr>"

definition update_flag :: "uint8 \<Rightarrow> bool \<Rightarrow> PlayerInfo \<Rightarrow> PlayerInfo" where
  "update_flag m state pinfo =
     pinfo\<lparr>pi_flags := if state then set_flag (pi_flags pinfo) m else clear_flag (pi_flags pinfo) m\<rparr>"

definition PlayerInfo_IsOwner :: "PlayerInfo \<Rightarrow> bool" where
  "PlayerInfo_IsOwner pinfo = has_flag (pi_flags pinfo) MEMBER_FLAG_OWNER"

definition PlayerInfo_SetOwner :: "bool \<Rightarrow> PlayerInfo \<Rightarrow> PlayerInfo" where
  "PlayerInfo_SetOwner = update_flag MEMBER_FLAG_OWNER"

definition PlayerInfo_IsModerator :: "PlayerInfo \<Rightarrow> bool" where
  "PlayerInfo_IsModerator pinfo = has_flag (pi_flags pinfo) MEMBER_FLAG_MODERATOR"

definition PlayerInfo_SetModerator :: "bool \<Rightarrow> PlayerInfo \<Rightarrow> PlayerInfo" where
  "PlayerInfo_SetModerator = update_flag MEMBER_FLAG_MODERATOR"

definition PlayerInfo_IsMuted :: "PlayerInfo \<Rightarrow> bool" where
  "PlayerInfo_IsMuted pinfo = has_flag (pi_flags pinfo) MEMBER_FLAG_MUTED"

definition PlayerInfo_SetMuted :: "bool \<Rightarrow> PlayerInfo \<Rightarrow> PlayerInfo" where
  "PlayerInfo_SetMuted = update_flag MEMBER_FLAG_MUTED"

record Channel =
  ch_announce :: bool
  ch_ownership :: bool
  ch_IsSaved :: bool
  ch_flags :: uint8
  ch_channelId :: uint32
  ch_Team :: uint32
  ch_ownerGUID :: uint64
  ch_name :: string
  ch_password :: string
  playersStore :: "(uint64, PlayerInfo) smap"
  bannedStore :: "uint64 sset"

type_synonym chan_outcome = "Channel \<times> effect list"

definition IsConstant :: "Channel \<Rightarrow> bool" where
  "IsConstant c \<longleftrightarrow> ch_channelId c \<noteq> 0"

definition GetNumPlayers :: "Channel \<Rightarrow> uint32" where
  "GetNumPlayers c = word_of_nat (length (playersStore c))"

definition Channel_HasFlag :: "Channel \<Rightarrow> uint8 \<Rightarrow> bool" where
  "Channel_HasFlag c fl = has_flag (ch_flags c) fl"

definition IsOn :: "Channel \<Rightarrow> uint64 \<Rightarrow> bool" where
  "IsOn c who \<longleftrightarrow> map_of (playersStore c) who \<noteq> None"

definition IsBanned :: "Channel \<Rightarrow> uint64 \<Rightarrow> bool" where
  "IsBanned c guid \<longleftrightarrow> guid \<in> set (bannedStore c)"

definition GetPlayerFlags :: "Channel \<Rightarrow> uint64 \<Rightarrow> uint8" where
  "GetPlayerFlags c guid = (case map_of (playersStore c) guid of Some pinfo \<Rightarrow> pi_flags pinfo | None \<Rightarrow> 0)"

text \<open>\<^verbatim>\<open>playersStore[guid]\<close> read, and modified in place.\<close>

definition member :: "Channel \<Rightarrow> uint64 \<Rightarrow> PlayerInfo" where
  "member c guid = map_at PlayerInfo0 (playersStore c) guid"

definition with_member :: "uint64 \<Rightarrow> (PlayerInfo \<Rightarrow> PlayerInfo) \<Rightarrow> Channel \<Rightarrow> Channel" where
  "with_member guid f c = c\<lparr>playersStore := map_modify PlayerInfo0 f guid (playersStore c)\<rparr>"

section \<open>Packets\<close>

definition MakeNotifyPacket :: "Channel \<Rightarrow> ChatNotify \<Rightarrow> field list \<Rightarrow> packet" where
  "MakeNotifyPacket c notify_type fs = pkt SMSG_CHANNEL_NOTIFY (FU8 (notify_code notify_type) # FStr (ch_name c) # fs)"

definition MakeJoined :: "Channel \<Rightarrow> uint64 \<Rightarrow> packet" where
  "MakeJoined c guid = MakeNotifyPacket c CHAT_JOINED_NOTICE [FU64 guid]"

definition MakeLeft :: "Channel \<Rightarrow> uint64 \<Rightarrow> packet" where
  "MakeLeft c guid = MakeNotifyPacket c CHAT_LEFT_NOTICE [FU64 guid]"

definition MakeYouJoined :: "Channel \<Rightarrow> packet" where
  "MakeYouJoined c = MakeNotifyPacket c CHAT_YOU_JOINED_NOTICE [FU8 (ch_flags c), FU32 (ch_channelId c), FU32 0]"

definition MakeYouLeft :: "Channel \<Rightarrow> packet" where
  "MakeYouLeft c = MakeNotifyPacket c CHAT_YOU_LEFT_NOTICE [FU32 (ch_channelId c), FU8 (if IsConstant c then 1 else 0)]"

definition MakeWrongPassword :: "Channel \<Rightarrow> packet" where
  "MakeWrongPassword c = MakeNotifyPacket c CHAT_WRONG_PASSWORD_NOTICE []"

definition MakeNotMember :: "Channel \<Rightarrow> packet" where
  "MakeNotMember c = MakeNotifyPacket c CHAT_NOT_MEMBER_NOTICE []"

definition MakeNotModerator :: "Channel \<Rightarrow> packet" where
  "MakeNotModerator c = MakeNotifyPacket c CHAT_NOT_MODERATOR_NOTICE []"

definition MakePasswordChanged :: "Channel \<Rightarrow> uint64 \<Rightarrow> packet" where
  "MakePasswordChanged c guid = MakeNotifyPacket c CHAT_PASSWORD_CHANGED_NOTICE [FU64 guid]"

definition MakeOwnerChanged :: "Channel \<Rightarrow> uint64 \<Rightarrow> packet" where
  "MakeOwnerChanged c guid = MakeNotifyPacket c CHAT_OWNER_CHANGED_NOTICE [FU64 guid]"

definition MakePlayerNotFound :: "Channel \<Rightarrow> string \<Rightarrow> packet" where
  "MakePlayerNotFound c name = MakeNotifyPacket c CHAT_PLAYER_NOT_FOUND_NOTICE [FStr name]"

definition MakeNotOwner :: "Channel \<Rightarrow> packet" where
  "MakeNotOwner c = MakeNotifyPacket c CHAT_NOT_OWNER_NOTICE []"

definition MakeChannelOwner :: "channel_env \<Rightarrow> Channel \<Rightarrow> packet" where
  "MakeChannelOwner env c =
     (let name = (case ce_PlayerNameByGUID env (ch_ownerGUID c) of
                    None \<Rightarrow> ''PLAYER_NOT_FOUND''
                  | Some n \<Rightarrow> if n = [] then ''PLAYER_NOT_FOUND'' else n)
      in MakeNotifyPacket c CHAT_CHANNEL_OWNER_NOTICE
           [FStr (if IsConstant c \<or> ch_ownerGUID c = 0 then ''Nobody'' else name)])"

definition MakeModeChange :: "Channel \<Rightarrow> uint64 \<Rightarrow> uint8 \<Rightarrow> packet" where
  "MakeModeChange c guid oldflags =
     MakeNotifyPacket c CHAT_MODE_CHANGE_NOTICE [FU64 guid, FU8 oldflags, FU8 (GetPlayerFlags c guid)]"

definition MakeAnnouncementsOn :: "Channel \<Rightarrow> uint64 \<Rightarrow> packet" where
  "MakeAnnouncementsOn c guid = MakeNotifyPacket c CHAT_ANNOUNCEMENTS_ON_NOTICE [FU64 guid]"

definition MakeAnnouncementsOff :: "Channel \<Rightarrow> uint64 \<Rightarrow> packet" where
  "MakeAnnouncementsOff c guid = MakeNotifyPacket c CHAT_ANNOUNCEMENTS_OFF_NOTICE [FU64 guid]"

definition MakeMuted :: "Channel \<Rightarrow> packet" where
  "MakeMuted c = MakeNotifyPacket c CHAT_MUTED_NOTICE []"

definition MakePlayerKicked :: "Channel \<Rightarrow> uint64 \<Rightarrow> uint64 \<Rightarrow> packet" where
  "MakePlayerKicked c bad good = MakeNotifyPacket c CHAT_PLAYER_KICKED_NOTICE [FU64 bad, FU64 good]"

definition MakeBanned :: "Channel \<Rightarrow> packet" where
  "MakeBanned c = MakeNotifyPacket c CHAT_BANNED_NOTICE []"

definition MakePlayerBanned :: "Channel \<Rightarrow> uint64 \<Rightarrow> uint64 \<Rightarrow> packet" where
  "MakePlayerBanned c bad good = MakeNotifyPacket c CHAT_PLAYER_BANNED_NOTICE [FU64 bad, FU64 good]"

definition MakePlayerUnbanned :: "Channel \<Rightarrow> uint64 \<Rightarrow> uint64 \<Rightarrow> packet" where
  "MakePlayerUnbanned c bad good = MakeNotifyPacket c CHAT_PLAYER_UNBANNED_NOTICE [FU64 bad, FU64 good]"

definition MakePlayerAlreadyMember :: "Channel \<Rightarrow> uint64 \<Rightarrow> packet" where
  "MakePlayerAlreadyMember c guid = MakeNotifyPacket c CHAT_PLAYER_ALREADY_MEMBER_NOTICE [FU64 guid]"

definition MakeInvite :: "Channel \<Rightarrow> uint64 \<Rightarrow> packet" where
  "MakeInvite c guid = MakeNotifyPacket c CHAT_INVITE_NOTICE [FU64 guid]"

definition MakeInviteWrongFaction :: "Channel \<Rightarrow> packet" where
  "MakeInviteWrongFaction c = MakeNotifyPacket c CHAT_INVITE_WRONG_FACTION_NOTICE []"

definition MakePlayerInvited :: "Channel \<Rightarrow> string \<Rightarrow> packet" where
  "MakePlayerInvited c name = MakeNotifyPacket c CHAT_PLAYER_INVITED_NOTICE [FStr name]"

definition MakePlayerInviteBanned :: "Channel \<Rightarrow> string \<Rightarrow> packet" where
  "MakePlayerInviteBanned c name = MakeNotifyPacket c CHAT_PLAYER_INVITE_BANNED_NOTICE [FStr name]"

definition MakeNotInLfg :: "Channel \<Rightarrow> packet" where
  "MakeNotInLfg c = MakeNotifyPacket c CHAT_NOT_IN_LFG_NOTICE []"

section \<open>Delivery\<close>

definition SendToAll :: "channel_env \<Rightarrow> packet \<Rightarrow> uint64 \<Rightarrow> Channel \<Rightarrow> effect list" where
  "SendToAll env p guid c =
     concat (map (\<lambda>(m, pinfo). case ce_FindPlayer env m of
                    None \<Rightarrow> []
                  | Some pl \<Rightarrow> if guid = 0 \<or> \<not> ce_HasIgnore env (pl_guid pl) (GUID_LOPART guid)
                              then [Send (pl_guid pl) p] else [])
            (playersStore c))"

definition SendToAllButOne :: "channel_env \<Rightarrow> packet \<Rightarrow> uint64 \<Rightarrow> Channel \<Rightarrow> effect list" where
  "SendToAllButOne env p who c =
     concat (map (\<lambda>(m, pinfo). if m \<noteq> who
                    then case ce_FindPlayer env m of None \<Rightarrow> [] | Some pl \<Rightarrow> [Send (pl_guid pl) p]
                    else [])
            (playersStore c))"

definition SendToOne :: "channel_env \<Rightarrow> packet \<Rightarrow> uint64 \<Rightarrow> effect list" where
  "SendToOne env p who = (case ce_FindPlayer env who of None \<Rightarrow> [] | Some pl \<Rightarrow> [Send (pl_guid pl) p])"

definition JoinNotify :: "channel_env \<Rightarrow> uint64 \<Rightarrow> Channel \<Rightarrow> effect list" where
  "JoinNotify env guid c =
     (let p = pkt (if IsConstant c then SMSG_USERLIST_ADD else SMSG_USERLIST_UPDATE)
                [FU64 guid, FU8 (GetPlayerFlags c guid), FU8 (ch_flags c), FU32 (GetNumPlayers c), FStr (ch_name c)]
      in if IsConstant c then SendToAllButOne env p guid c else SendToAll env p 0 c)"

definition LeaveNotify :: "channel_env \<Rightarrow> uint64 \<Rightarrow> Channel \<Rightarrow> effect list" where
  "LeaveNotify env guid c =
     (let p = pkt SMSG_USERLIST_REMOVE [FU64 guid, FU8 (ch_flags c), FU32 (GetNumPlayers c), FStr (ch_name c)]
      in if IsConstant c then SendToAllButOne env p guid c else SendToAll env p 0 c)"

section \<open>Persistence\<close>

definition ban_list_string :: "uint64 sset \<Rightarrow> string" where
  "ban_list_string banned = concat (map (\<lambda>g. dec (unat g) @ '' '') banned)"

definition load_ban_list :: "string \<Rightarrow> uint64 sset" where
  "load_ban_list s =
     fold (\<lambda>t st. let banned_guid = word_of_int (atol t) in if banned_guid \<noteq> 0 then set_put banned_guid st else st)
       (Tokenizer s (CHR '' '')) []"

definition UpdateChannelInDB :: "Channel \<Rightarrow> effect list" where
  "UpdateChannelInDB c =
     (if ch_IsSaved c
      then [CHAR_UPD_CHANNEL (ch_announce c) (ch_ownership c) (ch_password c)
              (ban_list_string (bannedStore c)) (ch_name c) (ch_Team c)]
      else [])"

definition UpdateChannelUseageInDB :: "Channel \<Rightarrow> effect list" where
  "UpdateChannelUseageInDB c = [CHAR_UPD_CHANNEL_USAGE (ch_name c) (ch_Team c)]"

definition CleanOldChannelsInDB :: "channel_env \<Rightarrow> effect list" where
  "CleanOldChannelsInDB env =
     (if ce_PRESERVE_CUSTOM_CHANNEL_DURATION env > 0
      then [CHAR_DEL_OLD_CHANNELS (ce_PRESERVE_CUSTOM_CHANNEL_DURATION env * DAY)] else [])"

definition Channel_new :: "channel_env \<Rightarrow> string \<Rightarrow> uint32 \<Rightarrow> uint32 \<Rightarrow> chan_outcome" where
  "Channel_new env name channelId team =
     (let c = \<lparr>ch_announce = True, ch_ownership = True, ch_IsSaved = False, ch_flags = 0,
               ch_channelId = channelId, ch_Team = team, ch_ownerGUID = 0, ch_name = name,
               ch_password = [], playersStore = [], bannedStore = []\<rparr>
      in case ce_ChatChannels env channelId of
        Some flags \<Rightarrow>
          (c\<lparr>ch_announce := False, ch_ownership := False,
             ch_flags := 0 OR CHANNEL_FLAG_GENERAL
               OR (if has_flag flags CHANNEL_DBC_FLAG_TRADE then CHANNEL_FLAG_TRADE else 0)
               OR (if has_flag flags CHANNEL_DBC_FLAG_CITY_ONLY2 then CHANNEL_FLAG_CITY else 0)
               OR (if has_flag flags CHANNEL_DBC_FLAG_LFG then CHANNEL_FLAG_LFG else CHANNEL_FLAG_NOT_LFG)\<rparr>, [])
      | None \<Rightarrow>
          let c = c\<lparr>ch_flags := 0 OR CHANNEL_FLAG_CUSTOM\<rparr>
          in if ce_PRESERVE_CUSTOM_CHANNELS env
             then case ce_SEL_CHANNEL env name team of
                 Some (announce, ownership, password, banned) \<Rightarrow>
                   (c\<lparr>ch_announce := announce, ch_ownership := ownership, ch_password := password,
                      bannedStore := (case banned of None \<Rightarrow> [] | Some s \<Rightarrow> load_ban_list s),
                      ch_IsSaved := True\<rparr>, [])
               | None \<Rightarrow> (c\<lparr>ch_IsSaved := True\<rparr>, [CHAR_INS_CHANNEL name team])
             else (c, []))"

section \<open>Operations\<close>

definition Channel_SetOwner_guid :: "channel_env \<Rightarrow> uint64 \<Rightarrow> bool \<Rightarrow> Channel \<Rightarrow> chan_outcome" where
  "Channel_SetOwner_guid env guid exclaim c =
     (let c = (if ch_ownerGUID c \<noteq> 0
               then case map_of (playersStore c) (ch_ownerGUID c) of
                   None \<Rightarrow> c
                 | Some pinfo \<Rightarrow> c\<lparr>playersStore := map_put (ch_ownerGUID c) (PlayerInfo_SetOwner False pinfo) (playersStore c)\<rparr>
               else c);
          c = c\<lparr>ch_ownerGUID := guid\<rparr>
      in if guid \<noteq> 0
         then let oldFlag = GetPlayerFlags c guid;
                  c = with_member guid (PlayerInfo_SetModerator True) c;
                  c = with_member guid (PlayerInfo_SetOwner True) c
              in (c, SendToAll env (MakeModeChange c guid oldFlag) 0 c
                     @ (if exclaim then SendToAll env (MakeOwnerChanged c guid) 0 c else [])
                     @ UpdateChannelInDB c)
         else (c, []))"

definition Channel_JoinChannel :: "channel_env \<Rightarrow> player \<Rightarrow> string \<Rightarrow> Channel \<Rightarrow> chan_outcome" where
  "Channel_JoinChannel env pl pass c =
     (let guid = pl_guid pl in
      if IsOn c guid
      then (c, if \<not> IsConstant c then SendToOne env (MakePlayerAlreadyMember c guid) guid else [])
      else if IsBanned c guid then (c, SendToOne env (MakeBanned c) guid)
      else if ch_password c \<noteq> [] \<and> pass \<noteq> ch_password c then (c, SendToOne env (MakeWrongPassword c) guid)
      else if Channel_HasFlag c CHANNEL_FLAG_LFG \<and> ce_RESTRICTED_LFG_CHANNEL env
              \<and> IsPlayerAccount (pl_security pl) \<and> pl_grouped pl
      then (c, SendToOne env (MakeNotInLfg c) guid)
      else
        let joined = [JoinedChannel guid];
            announced = (if ch_announce c \<and> \<not> Session_HasPermission pl RBAC_PERM_SILENTLY_JOIN_CHANNEL
                         then SendToAll env (MakeJoined c guid) 0 c else []);
            c = c\<lparr>playersStore := map_put guid \<lparr>pi_player = guid, pi_flags = MEMBER_FLAG_NONE\<rparr> (playersStore c)\<rparr>;
            youJoined = SendToOne env (MakeYouJoined c) guid;
            notified = JoinNotify env guid c;
            usage = (if \<not> IsConstant c \<and> playersStore c \<noteq> [] then UpdateChannelUseageInDB c else []);
            (c, owned) = (if \<not> IsConstant c \<and> ch_ownerGUID c = 0 \<and> ch_ownership c
                          then let (c, out) = Channel_SetOwner_guid env guid (length (playersStore c) > 1) c
                               in (with_member guid (PlayerInfo_SetModerator True) c, out)
                          else (c, []))
        in (c, joined @ announced @ youJoined @ notified @ usage @ owned))"

definition Channel_LeaveChannel :: "channel_env \<Rightarrow> player \<Rightarrow> bool \<Rightarrow> Channel \<Rightarrow> chan_outcome" where
  "Channel_LeaveChannel env pl send c =
     (let guid = pl_guid pl in
      if \<not> IsOn c guid then (c, if send then SendToOne env (MakeNotMember c) guid else [])
      else
        let left = (if send then SendToOne env (MakeYouLeft c) guid @ [LeftChannel guid] else []);
            changeowner = PlayerInfo_IsOwner (member c guid);
            c = c\<lparr>playersStore := map_erase guid (playersStore c)\<rparr>;
            announced = (if ch_announce c \<and> \<not> Session_HasPermission pl RBAC_PERM_SILENTLY_JOIN_CHANNEL
                         then SendToAll env (MakeLeft c guid) 0 c else []);
            notified = LeaveNotify env guid c;
            usage = (if \<not> IsConstant c then UpdateChannelUseageInDB c else []);
            (c, owned) = (if \<not> IsConstant c \<and> changeowner \<and> ch_ownership c
                          then case playersStore c of
                              [] \<Rightarrow> (c, [])
                            | (k, first) # rest \<Rightarrow>
                                let newowner = pi_player first
                                in Channel_SetOwner_guid env newowner True
                                     (with_member newowner (PlayerInfo_SetModerator True) c)
                          else (c, []))
        in (c, left @ announced @ notified @ usage @ owned))"

definition guid_of :: "player option \<Rightarrow> uint64" where
  "guid_of p = (case p of None \<Rightarrow> 0 | Some pl \<Rightarrow> pl_guid pl)"

text \<open>Two players of different teams interact only when both have the permission.\<close>

definition teams_apart :: "player \<Rightarrow> player \<Rightarrow> bool" where
  "teams_apart pl newp \<longleftrightarrow> pl_team pl \<noteq> pl_team newp
     \<and> (\<not> Session_HasPermission pl RBAC_PERM_TWO_SIDE_INTERACTION_CHANNEL
        \<or> \<not> Session_HasPermission newp RBAC_PERM_TWO_SIDE_INTERACTION_CHANNEL)"

definition may_moderate :: "player \<Rightarrow> Channel \<Rightarrow> bool" where
  "may_moderate pl c \<longleftrightarrow> PlayerInfo_IsModerator (member c (pl_guid pl))
     \<or> Session_HasPermission pl RBAC_PERM_CHANGE_CHANNEL_NOT_MODERATOR"

definition Channel_KickOrBan :: "channel_env \<Rightarrow> player \<Rightarrow> string \<Rightarrow> bool \<Rightarrow> Channel \<Rightarrow> chan_outcome" where
  "Channel_KickOrBan env pl badname ban c =
     (let good = pl_guid pl in
      if \<not> IsOn c good then (c, SendToOne env (MakeNotMember c) good)
      else if \<not> may_moderate pl c then (c, SendToOne env (MakeNotModerator c) good)
      else
        let bad = ce_FindPlayerByName env badname; victim = guid_of bad in
        if victim = 0 \<or> \<not> IsOn c victim then (c, SendToOne env (MakePlayerNotFound c badname) good)
        else
          let changeowner = (ch_ownerGUID c = victim) in
          if \<not> Session_HasPermission pl RBAC_PERM_CHANGE_CHANNEL_NOT_MODERATOR \<and> changeowner \<and> good \<noteq> ch_ownerGUID c
          then (c, SendToOne env (MakeNotOwner c) good)
          else
            let silent = Session_HasPermission pl RBAC_PERM_SILENTLY_JOIN_CHANNEL;
                (c, told) = (if ban \<and> \<not> IsBanned c victim
                             then let c = c\<lparr>bannedStore := set_put victim (bannedStore c)\<rparr>
                                  in (c, UpdateChannelInDB c
                                         @ (if \<not> silent then SendToAll env (MakePlayerBanned c victim good) 0 c else []))
                             else (c, if \<not> silent then SendToAll env (MakePlayerKicked c victim good) 0 c else []));
                c = c\<lparr>playersStore := map_erase victim (playersStore c)\<rparr>;
                left = [LeftChannel victim];
                (c, owned) = (if changeowner \<and> ch_ownership c \<and> playersStore c \<noteq> []
                              then let newowner = good
                                   in Channel_SetOwner_guid env newowner True
                                        (with_member newowner (PlayerInfo_SetModerator True) c)
                              else (c, []))
            in (c, told @ left @ owned))"

definition Channel_Kick :: "channel_env \<Rightarrow> string \<Rightarrow> player \<Rightarrow> Channel \<Rightarrow> chan_outcome" where
  "Channel_Kick env badname pl c = Channel_KickOrBan env pl badname False c"

definition Channel_Ban :: "channel_env \<Rightarrow> string \<Rightarrow> player \<Rightarrow> Channel \<Rightarrow> chan_outcome" where
  "Channel_Ban env badname pl c = Channel_KickOrBan env pl badname True c"

definition Channel_UnBan :: "channel_env \<Rightarrow> string \<Rightarrow> player \<Rightarrow> Channel \<Rightarrow> chan_outcome" where
  "Channel_UnBan env badname pl c =
     (let good = pl_guid pl in
      if \<not> IsOn c good then (c, SendToOne env (MakeNotMember c) good)
      else if \<not> may_moderate pl c then (c, SendToOne env (MakeNotModerator c) good)
      else
        let bad = ce_FindPlayerByName env badname; victim = guid_of bad in
        if victim = 0 \<or> \<not> IsBanned c victim then (c, SendToOne env (MakePlayerNotFound c badname) good)
        else
          let c = c\<lparr>bannedStore := set_erase victim (bannedStore c)\<rparr>
          in (c, SendToAll env (MakePlayerUnbanned c victim good) 0 c @ UpdateChannelInDB c))"

definition Channel_Password :: "channel_env \<Rightarrow> string \<Rightarrow> player \<Rightarrow> Channel \<Rightarrow> chan_outcome" where
  "Channel_Password env pass pl c =
     (let guid = pl_guid pl in
      if \<not> IsOn c guid then (c, SendToOne env (MakeNotMember c) guid)
      else if \<not> may_moderate pl c then (c, SendToOne env (MakeNotModerator c) guid)
      else let c = c\<lparr>ch_password := pass\<rparr>
           in (c, SendToAll env (MakePasswordChanged c guid) 0 c @ UpdateChannelInDB c))"

definition Channel_SetModerator_guid :: "channel_env \<Rightarrow> uint64 \<Rightarrow> bool \<Rightarrow> Channel \<Rightarrow> chan_outcome" where
  "Channel_SetModerator_guid env guid st c =
     (if PlayerInfo_IsModerator (member c guid) \<noteq> st
      then let oldFlag = GetPlayerFlags c guid;
               c = with_member guid (PlayerInfo_SetModerator st) c
           in (c, SendToAll env (MakeModeChange c guid oldFlag) 0 c)
      else (c, []))"

definition Channel_SetMute_guid :: "channel_env \<Rightarrow> uint64 \<Rightarrow> bool \<Rightarrow> Channel \<Rightarrow> chan_outcome" where
  "Channel_SetMute_guid env guid st c =
     (if PlayerInfo_IsMuted (member c guid) \<noteq> st
      then let oldFlag = GetPlayerFlags c guid;
               c = with_member guid (PlayerInfo_SetMuted st) c
           in (c, SendToAll env (MakeModeChange c guid oldFlag) 0 c)
      else (c, []))"

definition Channel_SetMode :: "channel_env \<Rightarrow> string \<Rightarrow> bool \<Rightarrow> bool \<Rightarrow> player \<Rightarrow> Channel \<Rightarrow> chan_outcome" where
  "Channel_SetMode env p2n md st pl c =
     (let guid = pl_guid pl in
      if \<not> IsOn c guid then (c, SendToOne env (MakeNotMember c) guid)
      else if \<not> may_moderate pl c then (c, SendToOne env (MakeNotModerator c) guid)
      else if guid = ch_ownerGUID c \<and> p2n = pl_name pl \<and> md then (c, [])
      else case ce_FindPlayerByName env p2n of
          None \<Rightarrow> (c, SendToOne env (MakePlayerNotFound c p2n) guid)
        | Some newp \<Rightarrow>
            let victim = pl_guid newp in
            if victim = 0 \<or> \<not> IsOn c victim \<or> teams_apart pl newp
            then (c, SendToOne env (MakePlayerNotFound c p2n) guid)
            else if ch_ownerGUID c = victim \<and> ch_ownerGUID c \<noteq> guid
            then (c, SendToOne env (MakeNotOwner c) guid)
            else if md then Channel_SetModerator_guid env (pl_guid newp) st c
            else Channel_SetMute_guid env (pl_guid newp) st c)"

definition Channel_SetOwner :: "channel_env \<Rightarrow> string \<Rightarrow> player \<Rightarrow> Channel \<Rightarrow> chan_outcome" where
  "Channel_SetOwner env newname pl c =
     (let guid = pl_guid pl in
      if \<not> IsOn c guid then (c, SendToOne env (MakeNotMember c) guid)
      else if \<not> Session_HasPermission pl RBAC_PERM_CHANGE_CHANNEL_NOT_MODERATOR \<and> guid \<noteq> ch_ownerGUID c
      then (c, SendToOne env (MakeNotOwner c) guid)
      else case ce_FindPlayerByName env newname of
          None \<Rightarrow> (c, SendToOne env (MakePlayerNotFound c newname) guid)
        | Some newp \<Rightarrow>
            let victim = pl_guid newp in
            if victim = 0 \<or> \<not> IsOn c victim \<or> teams_apart pl newp
            then (c, SendToOne env (MakePlayerNotFound c newname) guid)
            else Channel_SetOwner_guid env victim True (with_member victim (PlayerInfo_SetModerator True) c))"

definition Channel_SendWhoOwner :: "channel_env \<Rightarrow> uint64 \<Rightarrow> Channel \<Rightarrow> chan_outcome" where
  "Channel_SendWhoOwner env guid c =
     (c, SendToOne env (if IsOn c guid then MakeChannelOwner env c else MakeNotMember c) guid)"

text \<open>
  \<^verbatim>\<open>List\<close> writes a placeholder for the number of entries and patches it at the end; the
  placeholder is operand 3 of the packet.
\<close>

definition listed :: "channel_env \<Rightarrow> player \<Rightarrow> uint64 \<Rightarrow> bool" where
  "listed env pl m = (case ce_FindPlayer env m of
       None \<Rightarrow> False
     | Some mem \<Rightarrow> (Session_HasPermission pl RBAC_PERM_WHO_SEE_ALL_SEC_LEVELS
                    \<or> pl_security mem \<le> ce_GM_LEVEL_IN_WHO_LIST env)
                   \<and> ce_IsVisibleGloballyFor env (pl_guid mem) (pl_guid pl))"

fun list_loop ::
    "channel_env \<Rightarrow> player \<Rightarrow> (uint64, PlayerInfo) smap \<Rightarrow> field list \<Rightarrow> uint32 \<Rightarrow> field list \<times> uint32" where
  "list_loop env pl [] fs count = (fs, count)"
| "list_loop env pl ((m, pinfo) # store) fs count =
     (if listed env pl m then list_loop env pl store (fs @ [FU64 m, FU8 (pi_flags pinfo)]) (count + 1)
      else list_loop env pl store fs count)"

definition Channel_List :: "channel_env \<Rightarrow> player \<Rightarrow> Channel \<Rightarrow> chan_outcome" where
  "Channel_List env pl c =
     (let guid = pl_guid pl in
      if \<not> IsOn c guid then (c, SendToOne env (MakeNotMember c) guid)
      else
        let (fs, count) = list_loop env pl (playersStore c)
              [FU8 1, FStr (ch_name c), FU8 (ch_flags c), FU32 0] 0;
            fs = fs[3 := FU32 count]
        in (c, SendToOne env (pkt SMSG_CHANNEL_LIST fs) guid))"

definition Channel_Announce :: "channel_env \<Rightarrow> player \<Rightarrow> Channel \<Rightarrow> chan_outcome" where
  "Channel_Announce env pl c =
     (let guid = pl_guid pl in
      if \<not> IsOn c guid then (c, SendToOne env (MakeNotMember c) guid)
      else if \<not> may_moderate pl c then (c, SendToOne env (MakeNotModerator c) guid)
      else let c = c\<lparr>ch_announce := \<not> ch_announce c\<rparr>
           in (c, SendToAll env (if ch_announce c then MakeAnnouncementsOn c guid else MakeAnnouncementsOff c guid) 0 c
                  @ UpdateChannelInDB c))"

definition Channel_Say :: "channel_env \<Rightarrow> uint64 \<Rightarrow> string \<Rightarrow> uint32 \<Rightarrow> Channel \<Rightarrow> chan_outcome" where
  "Channel_Say env guid what lang c =
     (if what = [] then (c, [])
      else
        let chatTag = (case ce_FindPlayer env guid of Some pl \<Rightarrow> pl_chatTag pl | None \<Rightarrow> 0);
            lang = (if ce_TWO_SIDE_INTERACTION_CHANNEL env then LANG_UNIVERSAL else lang)
        in if \<not> IsOn c guid then (c, SendToOne env (MakeNotMember c) guid)
           else if PlayerInfo_IsMuted (member c guid) then (c, SendToOne env (MakeMuted c) guid)
           else (c, SendToAll env
                      (pkt SMSG_MESSAGECHAT
                        [FU8 CHAT_MSG_CHANNEL, FU32 lang, FU64 guid, FU32 0, FStr (ch_name c), FU64 guid,
                         FU32 (word_of_nat (length what + 1)), FStr what, FU8 chatTag])
                      (if \<not> PlayerInfo_IsModerator (member c guid) then guid else 0) c))"

definition Channel_Invite :: "channel_env \<Rightarrow> string \<Rightarrow> player \<Rightarrow> Channel \<Rightarrow> chan_outcome" where
  "Channel_Invite env newname pl c =
     (let guid = pl_guid pl in
      if \<not> IsOn c guid then (c, SendToOne env (MakeNotMember c) guid)
      else case ce_FindPlayerByName env newname of
          None \<Rightarrow> (c, SendToOne env (MakePlayerNotFound c newname) guid)
        | Some newp \<Rightarrow>
            if \<not> pl_GMVisible newp then (c, SendToOne env (MakePlayerNotFound c newname) guid)
            else if IsBanned c (pl_guid newp) then (c, SendToOne env (MakePlayerInviteBanned c newname) guid)
            else if teams_apart pl newp then (c, SendToOne env (MakeInviteWrongFaction c) guid)
            else if IsOn c (pl_guid newp) then (c, SendToOne env (MakePlayerAlreadyMember c (pl_guid newp)) guid)
            else (c, (if \<not> ce_HasIgnore env (pl_guid newp) (GUID_LOPART guid)
                      then SendToOne env (MakeInvite c guid) (pl_guid newp) else [])
                     @ SendToOne env (MakePlayerInvited c (pl_name newp)) guid))"

section \<open>Commands of a channel\<close>

datatype chan_cmd =
    Join string | Leave bool | Kick string | Ban string | UnBan string | Password string
  | SetModerator string | UnsetModerator string | SetMute string | UnsetMute string
  | SetOwner string | WhoOwner | ListMembers | Announce | Say string uint32 | Invite string

fun run_chan :: "channel_env \<Rightarrow> player \<Rightarrow> chan_cmd \<Rightarrow> Channel \<Rightarrow> chan_outcome" where
  "run_chan env pl (Join pass) c = Channel_JoinChannel env pl pass c"
| "run_chan env pl (Leave send) c = Channel_LeaveChannel env pl send c"
| "run_chan env pl (Kick n) c = Channel_Kick env n pl c"
| "run_chan env pl (Ban n) c = Channel_Ban env n pl c"
| "run_chan env pl (UnBan n) c = Channel_UnBan env n pl c"
| "run_chan env pl (Password p) c = Channel_Password env p pl c"
| "run_chan env pl (SetModerator n) c = Channel_SetMode env n True True pl c"
| "run_chan env pl (UnsetModerator n) c = Channel_SetMode env n True False pl c"
| "run_chan env pl (SetMute n) c = Channel_SetMode env n False True pl c"
| "run_chan env pl (UnsetMute n) c = Channel_SetMode env n False False pl c"
| "run_chan env pl (SetOwner n) c = Channel_SetOwner env n pl c"
| "run_chan env pl WhoOwner c = Channel_SendWhoOwner env (pl_guid pl) c"
| "run_chan env pl ListMembers c = Channel_List env pl c"
| "run_chan env pl Announce c = Channel_Announce env pl c"
| "run_chan env pl (Say what lang) c = Channel_Say env (pl_guid pl) what lang c"
| "run_chan env pl (Invite n) c = Channel_Invite env n pl c"

section \<open>Member flags and lookups\<close>

lemma perms_in_range:
  "unat RBAC_PERM_TWO_SIDE_INTERACTION_CHANNEL < RBAC_PERM_MAX"
  "unat RBAC_PERM_WHO_SEE_ALL_SEC_LEVELS < RBAC_PERM_MAX"
  "unat RBAC_PERM_SILENTLY_JOIN_CHANNEL < RBAC_PERM_MAX"
  "unat RBAC_PERM_CHANGE_CHANNEL_NOT_MODERATOR < RBAC_PERM_MAX"
  by simp_all

lemma Session_HasPermission_never_throws:
  "unat p < RBAC_PERM_MAX \<Longrightarrow> HasPermission (pl_rbac pl) p = Inr (Session_HasPermission pl p)"
  by (simp add: Session_HasPermission_def HasPermission_def bitset_test_def)

lemmas member_flag_defs = PlayerInfo_IsOwner_def PlayerInfo_SetOwner_def PlayerInfo_IsModerator_def
  PlayerInfo_SetModerator_def PlayerInfo_IsMuted_def PlayerInfo_SetMuted_def update_flag_def

lemma member_flags [simp]:
  "PlayerInfo_IsOwner (PlayerInfo_SetOwner b pinfo) = b"
  "PlayerInfo_IsOwner (PlayerInfo_SetModerator b pinfo) = PlayerInfo_IsOwner pinfo"
  "PlayerInfo_IsOwner (PlayerInfo_SetMuted b pinfo) = PlayerInfo_IsOwner pinfo"
  "PlayerInfo_IsModerator (PlayerInfo_SetOwner b pinfo) = PlayerInfo_IsModerator pinfo"
  "PlayerInfo_IsModerator (PlayerInfo_SetModerator b pinfo) = b"
  "PlayerInfo_IsModerator (PlayerInfo_SetMuted b pinfo) = PlayerInfo_IsModerator pinfo"
  "PlayerInfo_IsMuted (PlayerInfo_SetOwner b pinfo) = PlayerInfo_IsMuted pinfo"
  "PlayerInfo_IsMuted (PlayerInfo_SetModerator b pinfo) = PlayerInfo_IsMuted pinfo"
  "PlayerInfo_IsMuted (PlayerInfo_SetMuted b pinfo) = b"
  by (simp_all add: member_flag_defs has_flag_set_same has_flag_clear_same has_flag_set_other
      has_flag_clear_other disjoint_masks_def)

lemma member_player [simp]:
  "pi_player (PlayerInfo_SetOwner b pinfo) = pi_player pinfo"
  "pi_player (PlayerInfo_SetModerator b pinfo) = pi_player pinfo"
  "pi_player (PlayerInfo_SetMuted b pinfo) = pi_player pinfo"
  by (simp_all add: member_flag_defs)

lemma fresh_member [simp]:
  "\<not> PlayerInfo_IsOwner PlayerInfo0" "\<not> PlayerInfo_IsOwner \<lparr>pi_player = g, pi_flags = 0\<rparr>"
  by (simp_all add: PlayerInfo0_def PlayerInfo_IsOwner_def)

lemma with_member_fields [simp]:
  "ch_announce (with_member g f c) = ch_announce c" "ch_ownership (with_member g f c) = ch_ownership c"
  "ch_channelId (with_member g f c) = ch_channelId c" "ch_ownerGUID (with_member g f c) = ch_ownerGUID c"
  "ch_password (with_member g f c) = ch_password c" "bannedStore (with_member g f c) = bannedStore c"
  "ch_name (with_member g f c) = ch_name c" "ch_IsSaved (with_member g f c) = ch_IsSaved c"
  "ch_flags (with_member g f c) = ch_flags c" "ch_Team (with_member g f c) = ch_Team c"
  "IsConstant (with_member g f c) = IsConstant c"
  by (simp_all add: with_member_def IsConstant_def)

lemma map_of_with_member [simp]:
  "map_of (playersStore (with_member g f c)) = (map_of (playersStore c))(g \<mapsto> f (member c g))"
  by (simp add: with_member_def member_def)

lemma map_wf_with_member [simp]:
  "map_wf (playersStore c) \<Longrightarrow> map_wf (playersStore (with_member g f c))"
  by (simp add: with_member_def)

lemma member_some: "map_of (playersStore c) g = Some pinfo \<Longrightarrow> member c g = pinfo"
  by (simp add: member_def map_at_def)

lemma member_with_member [simp]:
  "member (with_member g f c) h = (if h = g then f (member c g) else member c h)"
  by (auto simp: member_def map_at_def with_member_def)

lemma IsOn_with_member [simp]: "IsOn (with_member g f c) h \<longleftrightarrow> h = g \<or> IsOn c h"
  by (simp add: IsOn_def)

lemma IsConstant_update [simp]:
  "IsConstant (c\<lparr>playersStore := s\<rparr>) = IsConstant c" "IsConstant (c\<lparr>ch_ownerGUID := g\<rparr>) = IsConstant c"
  "IsConstant (c\<lparr>bannedStore := b\<rparr>) = IsConstant c"
  by (simp_all add: IsConstant_def)

lemma IsOn_update [simp]: "IsOn (c\<lparr>ch_ownerGUID := g\<rparr>) h = IsOn c h"
  by (simp add: IsOn_def)

text \<open>What \<^verbatim>\<open>SetOwner(guid)\<close> does to the channel.\<close>

definition demote_owner :: "Channel \<Rightarrow> Channel" where
  "demote_owner c = (if ch_ownerGUID c \<noteq> 0
     then case map_of (playersStore c) (ch_ownerGUID c) of
         None \<Rightarrow> c
       | Some pinfo \<Rightarrow> c\<lparr>playersStore := map_put (ch_ownerGUID c) (PlayerInfo_SetOwner False pinfo) (playersStore c)\<rparr>
     else c)"

lemma SetOwner_guid_state:
  "fst (Channel_SetOwner_guid env g ex c) =
     (if g = 0 then (demote_owner c)\<lparr>ch_ownerGUID := 0\<rparr>
      else with_member g (PlayerInfo_SetOwner True) (with_member g (PlayerInfo_SetModerator True)
             ((demote_owner c)\<lparr>ch_ownerGUID := g\<rparr>)))"
  by (simp add: Channel_SetOwner_guid_def demote_owner_def Let_def)

lemma demote_owner_fields [simp]:
  "ch_announce (demote_owner c) = ch_announce c" "ch_ownership (demote_owner c) = ch_ownership c"
  "ch_channelId (demote_owner c) = ch_channelId c" "bannedStore (demote_owner c) = bannedStore c"
  "ch_password (demote_owner c) = ch_password c" "IsConstant (demote_owner c) = IsConstant c"
  by (simp_all add: demote_owner_def split: option.splits)

lemma map_of_demote_owner:
  "map_of (playersStore (demote_owner c)) g =
     (if g = ch_ownerGUID c \<and> g \<noteq> 0 then map_option (PlayerInfo_SetOwner False) (map_of (playersStore c) g)
      else map_of (playersStore c) g)"
  by (auto simp: demote_owner_def split: option.splits)

lemma IsOn_demote_owner [simp]: "IsOn (demote_owner c) g = IsOn c g"
  by (auto simp: IsOn_def map_of_demote_owner)

lemma SetOwner_guid_fields [simp]:
  "ch_ownerGUID (fst (Channel_SetOwner_guid env g ex c)) = g"
  "ch_ownership (fst (Channel_SetOwner_guid env g ex c)) = ch_ownership c"
  "ch_announce (fst (Channel_SetOwner_guid env g ex c)) = ch_announce c"
  "ch_password (fst (Channel_SetOwner_guid env g ex c)) = ch_password c"
  "bannedStore (fst (Channel_SetOwner_guid env g ex c)) = bannedStore c"
  "IsConstant (fst (Channel_SetOwner_guid env g ex c)) = IsConstant c"
  by (simp_all add: SetOwner_guid_state)

lemma IsOn_SetOwner_guid [simp]:
  "IsOn (fst (Channel_SetOwner_guid env g ex c)) h \<longleftrightarrow> h = g \<and> g \<noteq> 0 \<or> IsOn c h"
  by (auto simp: SetOwner_guid_state)

section \<open>The channel invariant\<close>

definition chan_inv :: "Channel \<Rightarrow> bool" where
  "chan_inv c \<longleftrightarrow> map_wf (playersStore c) \<and> sorted_wrt (<) (bannedStore c)
     \<and> (\<forall>g pinfo. map_of (playersStore c) g = Some pinfo \<and> PlayerInfo_IsOwner pinfo \<longrightarrow>
          g = ch_ownerGUID c \<and> g \<noteq> 0)"

lemma chan_inv_owner:
  "chan_inv c \<Longrightarrow> map_of (playersStore c) g = Some pinfo \<Longrightarrow> PlayerInfo_IsOwner pinfo \<Longrightarrow>
   g = ch_ownerGUID c \<and> g \<noteq> 0"
  by (auto simp: chan_inv_def)

lemma chan_inv_with_member:
  assumes "chan_inv c" "\<And>pinfo. PlayerInfo_IsOwner (f pinfo) = PlayerInfo_IsOwner pinfo"
  shows "chan_inv (with_member g f c)"
  using assms by (auto simp: chan_inv_def member_def map_at_def split: option.splits)

lemma chan_inv_erase: "chan_inv c \<Longrightarrow> chan_inv (c\<lparr>playersStore := map_erase g (playersStore c)\<rparr>)"
  by (simp add: chan_inv_def)

lemma chan_inv_erased:
  "map_erase g (playersStore c) = s \<Longrightarrow> chan_inv c \<Longrightarrow> chan_inv (c\<lparr>playersStore := s\<rparr>)"
  using chan_inv_erase by blast

lemma chan_inv_fields [simp]:
  "chan_inv (c\<lparr>ch_password := p\<rparr>) = chan_inv c" "chan_inv (c\<lparr>ch_announce := a\<rparr>) = chan_inv c"
  "chan_inv c \<Longrightarrow> chan_inv (c\<lparr>bannedStore := set_put g (bannedStore c)\<rparr>)"
  "chan_inv c \<Longrightarrow> chan_inv (c\<lparr>bannedStore := set_erase g (bannedStore c)\<rparr>)"
  by (simp_all add: chan_inv_def)

lemma chan_inv_SetOwner_guid: "chan_inv c \<Longrightarrow> chan_inv (fst (Channel_SetOwner_guid env g ex c))"
proof -
  assume inv: "chan_inv c"
  have wf: "map_wf (playersStore (demote_owner c))"
    using inv by (auto simp: demote_owner_def chan_inv_def split: option.splits)
  have none: "\<not> PlayerInfo_IsOwner pinfo" if "map_of (playersStore (demote_owner c)) h = Some pinfo" for h pinfo
    using that chan_inv_owner [OF inv, of h] by (auto simp: map_of_demote_owner split: if_splits)
  show ?thesis
    using inv wf none by (auto simp: SetOwner_guid_state chan_inv_def)
qed

lemma chan_inv_join:
  "chan_inv c \<Longrightarrow> chan_inv (c\<lparr>playersStore := map_put g \<lparr>pi_player = g, pi_flags = 0\<rparr> (playersStore c)\<rparr>)"
  by (auto simp: chan_inv_def)

lemmas chan_inv_intros = chan_inv_with_member chan_inv_erase chan_inv_SetOwner_guid chan_inv_join

lemma Join_keeps_inv: "chan_inv c \<Longrightarrow> chan_inv (fst (Channel_JoinChannel env pl pass c))"
  by (auto simp: Channel_JoinChannel_def Let_def split_beta intro!: chan_inv_intros)

lemma Leave_keeps_inv: "chan_inv c \<Longrightarrow> chan_inv (fst (Channel_LeaveChannel env pl send c))"
  by (auto simp: Channel_LeaveChannel_def Let_def split_beta intro!: chan_inv_intros intro: chan_inv_erased
      split: list.splits)

text \<open>The channel after the victim of a kick or ban has been removed.\<close>

definition expel :: "bool \<Rightarrow> uint64 \<Rightarrow> Channel \<Rightarrow> Channel" where
  "expel ban victim c =
     (if ban \<and> \<not> IsBanned c victim then c\<lparr>bannedStore := set_put victim (bannedStore c)\<rparr> else c)
       \<lparr>playersStore := map_erase victim (playersStore c)\<rparr>"

lemma expel_fields [simp]:
  "playersStore (expel ban v c) = map_erase v (playersStore c)"
  "ch_ownership (expel ban v c) = ch_ownership c" "ch_ownerGUID (expel ban v c) = ch_ownerGUID c"
  "IsConstant (expel ban v c) = IsConstant c" "ch_channelId (expel ban v c) = ch_channelId c"
  "IsOn (expel ban v c) g \<longleftrightarrow> g \<noteq> v \<and> IsOn c g"
  "IsBanned (expel ban v c) g \<longleftrightarrow> IsBanned c g \<or> (ban \<and> g = v)"
  by (auto simp: expel_def IsConstant_def IsOn_def IsBanned_def)

lemma chan_inv_expel: "chan_inv c \<Longrightarrow> chan_inv (expel ban v c)"
  by (auto simp: expel_def chan_inv_def)

definition kick_refused :: "channel_env \<Rightarrow> player \<Rightarrow> string \<Rightarrow> Channel \<Rightarrow> bool" where
  "kick_refused env pl n c \<longleftrightarrow>
     (let good = pl_guid pl; victim = guid_of (ce_FindPlayerByName env n) in
      \<not> IsOn c good \<or> \<not> may_moderate pl c \<or> victim = 0 \<or> \<not> IsOn c victim
      \<or> (\<not> Session_HasPermission pl RBAC_PERM_CHANGE_CHANNEL_NOT_MODERATOR
         \<and> ch_ownerGUID c = victim \<and> good \<noteq> victim))"

lemma KickOrBan_state:
  "fst (Channel_KickOrBan env pl n ban c) =
     (let victim = guid_of (ce_FindPlayerByName env n); e = expel ban victim c in
      if kick_refused env pl n c then c
      else if ch_ownerGUID c = victim \<and> ch_ownership c \<and> playersStore e \<noteq> []
      then fst (Channel_SetOwner_guid env (pl_guid pl) True
                  (with_member (pl_guid pl) (PlayerInfo_SetModerator True) e))
      else e)"
proof (cases "kick_refused env pl n c")
  case True
  then show ?thesis unfolding Channel_KickOrBan_def kick_refused_def Let_def by auto
next
  case False
  let ?v = "guid_of (ce_FindPlayerByName env n)"
  have ok: "IsOn c (pl_guid pl)" "may_moderate pl c" "?v \<noteq> 0" "IsOn c ?v"
    "\<not> (\<not> Session_HasPermission pl RBAC_PERM_CHANGE_CHANNEL_NOT_MODERATOR
        \<and> ch_ownerGUID c = ?v \<and> pl_guid pl \<noteq> ch_ownerGUID c)"
    using False by (auto simp: kick_refused_def Let_def)
  show ?thesis
    unfolding Channel_KickOrBan_def Let_def split_beta
    by (cases "ban \<and> \<not> IsBanned c ?v") (simp_all only: ok False expel_def if_False if_True fst_conv
        Let_def simp_thms, simp_all)
qed

lemma KickOrBan_keeps_inv: "chan_inv c \<Longrightarrow> chan_inv (fst (Channel_KickOrBan env pl n ban c))"
  by (auto simp: KickOrBan_state Let_def intro!: chan_inv_intros chan_inv_expel)

section \<open>Contracts of the commands\<close>

text \<open>
  A member command refuses outsiders with a notice and keeps the invariant; a moderator command
  also refuses members who may not moderate.
\<close>

locale member_command =
  fixes cmd :: "channel_env \<Rightarrow> player \<Rightarrow> Channel \<Rightarrow> chan_outcome"
  assumes outsider: "\<not> IsOn c (pl_guid pl) \<Longrightarrow> cmd env pl c = (c, SendToOne env (MakeNotMember c) (pl_guid pl))"
    and cmd_keeps_inv: "chan_inv c \<Longrightarrow> chan_inv (fst (cmd env pl c))"
begin

lemma outsider_no_change: "\<not> IsOn c (pl_guid pl) \<Longrightarrow> fst (cmd env pl c) = c"
  by (simp add: outsider)

end

locale moderator_command = member_command +
  assumes not_moderator: "IsOn c (pl_guid pl) \<Longrightarrow> \<not> may_moderate pl c \<Longrightarrow>
    cmd env pl c = (c, SendToOne env (MakeNotModerator c) (pl_guid pl))"
begin

lemma unauthorised:
  assumes "\<not> IsOn c (pl_guid pl) \<or> \<not> may_moderate pl c"
  shows "cmd env pl c = (c, SendToOne env (if IsOn c (pl_guid pl) then MakeNotModerator c else MakeNotMember c) (pl_guid pl))"
  using assms outsider not_moderator by (cases "IsOn c (pl_guid pl)") auto

end

interpretation kickc: moderator_command "\<lambda>env. Channel_Kick env n" for n
  by unfold_locales
    (simp_all add: Channel_Kick_def KickOrBan_keeps_inv, simp_all add: Channel_KickOrBan_def Let_def)

interpretation banc: moderator_command "\<lambda>env. Channel_Ban env n" for n
  by unfold_locales
    (simp_all add: Channel_Ban_def KickOrBan_keeps_inv, simp_all add: Channel_KickOrBan_def Let_def)

interpretation unbanc: moderator_command "\<lambda>env. Channel_UnBan env n" for n
  by unfold_locales (auto simp: Channel_UnBan_def Let_def)

interpretation passwordc: moderator_command "\<lambda>env. Channel_Password env p" for p
  by unfold_locales (auto simp: Channel_Password_def Let_def)

interpretation modec: moderator_command "\<lambda>env. Channel_SetMode env n md st" for n md st
  by unfold_locales
    (auto simp: Channel_SetMode_def Channel_SetModerator_guid_def Channel_SetMute_guid_def Let_def
      intro!: chan_inv_intros split: option.splits)

interpretation announcec: moderator_command Channel_Announce
  by unfold_locales (auto simp: Channel_Announce_def Let_def)

interpretation ownerc: member_command "\<lambda>env. Channel_SetOwner env n" for n
  by unfold_locales
    (auto simp: Channel_SetOwner_def Let_def intro!: chan_inv_intros split: option.splits)

interpretation listc: member_command Channel_List
  by unfold_locales (auto simp: Channel_List_def Let_def split_beta)

interpretation invitec: member_command "\<lambda>env. Channel_Invite env n" for n
  by unfold_locales (auto simp: Channel_Invite_def Let_def split: option.splits)

lemmas commands_keep_chan_inv = kickc.cmd_keeps_inv banc.cmd_keeps_inv unbanc.cmd_keeps_inv
  passwordc.cmd_keeps_inv modec.cmd_keeps_inv announcec.cmd_keeps_inv ownerc.cmd_keeps_inv
  listc.cmd_keeps_inv invitec.cmd_keeps_inv Join_keeps_inv Leave_keeps_inv

lemma Say_state [simp]: "fst (Channel_Say env g what lang c) = c"
  by (simp add: Channel_Say_def Let_def)

lemma run_chan_keeps_inv: "chan_inv c \<Longrightarrow> chan_inv (fst (run_chan env pl cmd c))"
  by (cases cmd) (simp_all add: commands_keep_chan_inv Channel_SendWhoOwner_def)

section \<open>Channels over time\<close>

definition chan_init :: "Channel \<Rightarrow> bool" where
  "chan_init c \<longleftrightarrow> (\<exists>env name channelId team. c = fst (Channel_new env name channelId team))"

inductive chan_step :: "Channel \<Rightarrow> Channel \<Rightarrow> bool" where
  step: "run_chan env pl cmd c = (c', out) \<Longrightarrow> chan_step c c'"

inductive_cases chan_stepE: "chan_step c c'"

lemma sorted_load_ban_list: "sorted_wrt (<) (load_ban_list s)"
proof -
  have "sorted_wrt (<) (fold (\<lambda>t st. let banned_guid = word_of_int (atol t)
      in if banned_guid \<noteq> 0 then set_put banned_guid st else st) ts (acc :: uint64 list))"
    if "sorted_wrt (<) acc" for ts acc
    using that by (induction ts arbitrary: acc) (auto simp: Let_def)
  then show ?thesis by (simp add: load_ban_list_def)
qed

lemma chan_init_store: "chan_init c \<Longrightarrow> playersStore c = [] \<and> sorted_wrt (<) (bannedStore c)"
  by (auto simp: chan_init_def Channel_new_def Let_def sorted_load_ban_list split: option.splits)

interpretation chan: invariant_system chan_init chan_step chan_inv
proof
  fix c assume "chan_init c"
  then show "chan_inv c" using chan_init_store by (simp add: chan_inv_def)
next
  fix c c' assume "chan_inv c" "chan_step c c'"
  then show "chan_inv c'" using run_chan_keeps_inv by (metis chan_stepE fst_conv)
qed

text \<open>
  Regular use: players have a GUID, nobody kicks or bans himself, and nobody joins a channel that
  was left empty (the channel manager deletes those).
\<close>

fun regular_cmd :: "channel_env \<Rightarrow> player \<Rightarrow> chan_cmd \<Rightarrow> Channel \<Rightarrow> bool" where
  "regular_cmd env pl (Kick n) c = (guid_of (ce_FindPlayerByName env n) \<noteq> pl_guid pl)"
| "regular_cmd env pl (Ban n) c = (guid_of (ce_FindPlayerByName env n) \<noteq> pl_guid pl)"
| "regular_cmd env pl (Join pass) c = (playersStore c \<noteq> [] \<or> ch_ownerGUID c = 0)"
| "regular_cmd env pl _ c = True"

inductive regular_step :: "Channel \<Rightarrow> Channel \<Rightarrow> bool" where
  regular: "pl_guid pl \<noteq> 0 \<Longrightarrow> regular_cmd env pl cmd c \<Longrightarrow> run_chan env pl cmd c = (c', out) \<Longrightarrow>
    regular_step c c'"

inductive_cases regular_stepE: "regular_step c c'"

definition keys_match :: "Channel \<Rightarrow> bool" where
  "keys_match c \<longleftrightarrow> (\<forall>g pinfo. map_of (playersStore c) g = Some pinfo \<longrightarrow> pi_player pinfo = g \<and> g \<noteq> 0)"

definition owner_on :: "Channel \<Rightarrow> bool" where
  "owner_on c \<longleftrightarrow> (\<exists>pinfo. map_of (playersStore c) (ch_ownerGUID c) = Some pinfo \<and> PlayerInfo_IsOwner pinfo)"

definition owned_if_used :: "Channel \<Rightarrow> bool" where
  "owned_if_used c \<longleftrightarrow> (ch_ownership c \<and> \<not> IsConstant c \<and> playersStore c \<noteq> [] \<longrightarrow> owner_on c)"

definition regular_inv :: "Channel \<Rightarrow> bool" where
  "regular_inv c \<longleftrightarrow> chan_inv c \<and> keys_match c \<and> owned_if_used c"

lemma keys_match_with_member:
  "keys_match c \<Longrightarrow> IsOn c g \<Longrightarrow> (\<And>p. pi_player (f p) = pi_player p) \<Longrightarrow> keys_match (with_member g f c)"
  by (auto simp: keys_match_def IsOn_def member_def map_at_def split: option.splits)

lemma keys_match_demote: "keys_match c \<Longrightarrow> keys_match (demote_owner c)"
  by (auto simp: keys_match_def map_of_demote_owner split: if_splits)

lemma keys_match_owner [simp]: "keys_match (c\<lparr>ch_ownerGUID := g\<rparr>) = keys_match c"
  by (simp add: keys_match_def)

lemma keys_match_SetOwner_guid:
  "keys_match c \<Longrightarrow> IsOn c g \<Longrightarrow> keys_match (fst (Channel_SetOwner_guid env g ex c))"
  by (auto simp: SetOwner_guid_state intro!: keys_match_with_member keys_match_demote)

lemma owner_on_SetOwner_guid: "g \<noteq> 0 \<Longrightarrow> owner_on (fst (Channel_SetOwner_guid env g ex c))"
  by (simp add: owner_on_def SetOwner_guid_state)

lemma owner_on_with_member:
  "owner_on c \<Longrightarrow> (\<And>p. PlayerInfo_IsOwner (f p) = PlayerInfo_IsOwner p) \<Longrightarrow> owner_on (with_member g f c)"
  unfolding owner_on_def by (elim exE conjE, cases "g = ch_ownerGUID c") (simp_all add: member_some)

lemma owner_on_other:
  "owner_on c \<Longrightarrow> g \<noteq> ch_ownerGUID c \<Longrightarrow> ch_ownerGUID c' = ch_ownerGUID c \<Longrightarrow>
   map_of (playersStore c') = (map_of (playersStore c))(g := x) \<Longrightarrow> owner_on c'"
  by (auto simp: owner_on_def)

lemma IsOn_nonzero: "keys_match c \<Longrightarrow> IsOn c g \<Longrightarrow> g \<noteq> 0"
  by (auto simp: IsOn_def keys_match_def)

lemma IsOn_nonempty: "IsOn c g \<Longrightarrow> playersStore c \<noteq> []"
  by (auto simp: IsOn_def)

text \<open>Changing the flags of a member, and handing the ownership over, keep the regular invariant.\<close>

lemma regular_with_member:
  assumes "regular_inv c" "IsOn c g" "\<And>p. PlayerInfo_IsOwner (f p) = PlayerInfo_IsOwner p"
    "\<And>p. pi_player (f p) = pi_player p"
  shows "regular_inv (with_member g f c)"
  using assms(1) IsOn_nonempty [OF assms(2)] chan_inv_with_member [OF _ assms(3), of c g]
    keys_match_with_member [OF _ assms(2,4)] owner_on_with_member [OF _ assms(3), of c g]
  unfolding regular_inv_def owned_if_used_def by simp

lemma regular_SetOwner_guid:
  assumes "chan_inv c" "keys_match c" "IsOn c g"
  shows "regular_inv (fst (Channel_SetOwner_guid env g ex (with_member g (PlayerInfo_SetModerator True) c)))"
proof -
  let ?c = "with_member g (PlayerInfo_SetModerator True) c"
  have "keys_match ?c" using assms by (intro keys_match_with_member) auto
  moreover have "chan_inv ?c" using assms by (intro chan_inv_with_member) auto
  moreover have "g \<noteq> 0" using IsOn_nonzero assms by blast
  ultimately show ?thesis
    unfolding regular_inv_def owned_if_used_def
    by (simp add: chan_inv_SetOwner_guid keys_match_SetOwner_guid owner_on_SetOwner_guid)
qed

lemma regular_remove:
  assumes "regular_inv c" "g \<noteq> ch_ownerGUID c \<or> \<not> ch_ownership c \<or> IsConstant c \<or> map_erase g (playersStore c) = []"
  shows "regular_inv (c\<lparr>playersStore := map_erase g (playersStore c)\<rparr>)"
proof -
  let ?c = "c\<lparr>playersStore := map_erase g (playersStore c)\<rparr>"
  have "owner_on ?c" if "ch_ownership c" "\<not> IsConstant c" "map_erase g (playersStore c) \<noteq> []"
  proof -
    have "playersStore c \<noteq> []" using that(3) by auto
    with assms(1) that have "owner_on c" by (simp add: regular_inv_def owned_if_used_def)
    then show ?thesis by (rule owner_on_other [where g = g]) (use assms(2) that in auto)
  qed
  moreover have "keys_match ?c" using assms(1) by (auto simp: regular_inv_def keys_match_def)
  ultimately show ?thesis using assms(1) chan_inv_erase
    by (auto simp: regular_inv_def owned_if_used_def)
qed

lemma regular_SetOwner_plain:
  assumes "chan_inv c" "keys_match c" "IsOn c g"
  shows "regular_inv (fst (Channel_SetOwner_guid env g ex c))"
  using assms IsOn_nonzero [OF assms(2,3)] unfolding regular_inv_def owned_if_used_def
  by (simp add: chan_inv_SetOwner_guid keys_match_SetOwner_guid owner_on_SetOwner_guid)

lemma regular_banned:
  assumes "regular_inv c" "sorted_wrt (<) b" shows "regular_inv (c\<lparr>bannedStore := b\<rparr>)"
  using assms by (simp add: regular_inv_def chan_inv_def keys_match_def owned_if_used_def owner_on_def)

lemma regular_fields [simp]:
  "regular_inv (c\<lparr>ch_password := p\<rparr>) = regular_inv c" "regular_inv (c\<lparr>ch_announce := a\<rparr>) = regular_inv c"
  by (simp_all add: regular_inv_def keys_match_def owned_if_used_def owner_on_def IsConstant_def)

lemma regular_sorted: "regular_inv c \<Longrightarrow> sorted_wrt (<) (bannedStore c)"
  by (simp add: regular_inv_def chan_inv_def)

lemma regular_expel:
  assumes "regular_inv c" "v \<noteq> ch_ownerGUID c \<or> \<not> ch_ownership c \<or> map_erase v (playersStore c) = []"
  shows "regular_inv (expel ban v c)"
proof -
  define c1 where "c1 = (if ban \<and> \<not> IsBanned c v then c\<lparr>bannedStore := set_put v (bannedStore c)\<rparr> else c)"
  have eq: "playersStore c1 = playersStore c" "ch_ownerGUID c1 = ch_ownerGUID c" "ch_ownership c1 = ch_ownership c"
    by (simp_all add: c1_def)
  have "regular_inv c1" using assms(1) regular_sorted by (simp add: c1_def regular_banned)
  from regular_remove [OF this, of v] assms(2) show ?thesis
    by (auto simp: eq expel_def c1_def [symmetric])
qed

lemma keys_match_expel: "keys_match c \<Longrightarrow> keys_match (expel ban v c)"
  by (auto simp: keys_match_def split: if_splits)

lemma Kick_keeps_regular:
  assumes "regular_inv c" "guid_of (ce_FindPlayerByName env n) \<noteq> pl_guid pl"
  shows "regular_inv (fst (Channel_KickOrBan env pl n ban c))"
proof (cases "kick_refused env pl n c")
  case False
  let ?v = "guid_of (ce_FindPlayerByName env n)"
  have on: "IsOn (expel ban ?v c) (pl_guid pl)"
    using False assms(2) by (auto simp: kick_refused_def Let_def)
  have "chan_inv (expel ban ?v c)" "keys_match (expel ban ?v c)"
    using assms(1) chan_inv_expel keys_match_expel by (auto simp: regular_inv_def)
  note handed = regular_SetOwner_guid [OF this on]
  have "regular_inv (expel ban ?v c)"
    if "\<not> (ch_ownerGUID c = ?v \<and> ch_ownership c \<and> map_erase ?v (playersStore c) \<noteq> [])"
    using that by (intro regular_expel [OF assms(1)]) auto
  with handed False show ?thesis by (simp add: KickOrBan_state Let_def)
qed (simp add: KickOrBan_state assms)

lemma Join_keeps_regular:
  assumes "regular_inv c" "pl_guid pl \<noteq> 0" "playersStore c \<noteq> [] \<or> ch_ownerGUID c = 0"
  shows "regular_inv (fst (Channel_JoinChannel env pl pass c))"
proof -
  let ?g = "pl_guid pl"
  let ?c = "c\<lparr>playersStore := map_put ?g \<lparr>pi_player = ?g, pi_flags = MEMBER_FLAG_NONE\<rparr> (playersStore c)\<rparr>"
  have base: "chan_inv ?c" "keys_match ?c" "IsOn ?c ?g"
    using assms(1,2) chan_inv_join by (auto simp: regular_inv_def keys_match_def IsOn_def)
  have "owner_on ?c" if "\<not> IsOn c ?g" "ch_ownership c" "\<not> IsConstant c" "ch_ownerGUID c \<noteq> 0"
  proof -
    have "owner_on c" using assms(1,3) that by (auto simp: regular_inv_def owned_if_used_def)
    then show ?thesis
      by (rule owner_on_other [where g = ?g]) (use \<open>owner_on c\<close> that in \<open>auto simp: IsOn_def owner_on_def\<close>)
  qed
  then have plain: "regular_inv ?c" if "\<not> IsOn c ?g" "\<not> (\<not> IsConstant c \<and> ch_ownerGUID c = 0 \<and> ch_ownership c)"
    using that base by (auto simp: regular_inv_def owned_if_used_def)
  have owner: "regular_inv (with_member ?g (PlayerInfo_SetModerator True) (fst (Channel_SetOwner_guid env ?g ex ?c)))" for ex
    using regular_SetOwner_plain [OF base, of env ex] assms(2) by (intro regular_with_member) simp_all
  show ?thesis
    using assms(1) plain owner unfolding Channel_JoinChannel_def Let_def split_beta by simp
qed

lemma Leave_keeps_regular:
  assumes "regular_inv c"
  shows "regular_inv (fst (Channel_LeaveChannel env pl send c))"
proof (cases "IsOn c (pl_guid pl)")
  case True
  let ?g = "pl_guid pl"
  let ?c = "c\<lparr>playersStore := map_erase ?g (playersStore c)\<rparr>"
  have owner: "PlayerInfo_IsOwner (member c ?g)" if "ch_ownership c" "\<not> IsConstant c" "?g = ch_ownerGUID c"
    using assms that IsOn_nonempty [OF True]
    by (auto simp: regular_inv_def owned_if_used_def owner_on_def member_some)
  have keep: "regular_inv ?c"
    if "\<not> (\<not> IsConstant c \<and> PlayerInfo_IsOwner (member c ?g) \<and> ch_ownership c) \<or> map_erase ?g (playersStore c) = []"
    using that owner by (intro regular_remove [OF assms]) blast
  have wf: "chan_inv ?c" "keys_match ?c"
    using assms chan_inv_erase by (auto simp: regular_inv_def keys_match_def)
  have hand_over: "regular_inv (fst (Channel_SetOwner_guid env (pi_player first) True
      (with_member (pi_player first) (PlayerInfo_SetModerator True) ?c)))"
    if "map_erase ?g (playersStore c) = (k, first) # rest" for k first rest
  proof -
    have k: "map_of (playersStore ?c) k = Some first" using that by simp
    then have "pi_player first = k" using wf(2) by (auto simp: keys_match_def)
    with regular_SetOwner_guid [OF wf, of k] k show ?thesis by (simp add: IsOn_def)
  qed
  show ?thesis
  proof (cases "map_erase ?g (playersStore c)")
    case Nil
    with keep True show ?thesis by (simp add: Channel_LeaveChannel_def Let_def split_beta)
  next
    case (Cons e rest)
    with keep hand_over [of "fst e" "snd e" rest] True show ?thesis
      by (cases e) (simp add: Channel_LeaveChannel_def Let_def split_beta)
  qed
qed (simp add: Channel_LeaveChannel_def assms)

lemma Mode_keeps_regular: "regular_inv c \<Longrightarrow> regular_inv (fst (Channel_SetMode env n md st pl c))"
  by (auto simp: Channel_SetMode_def Channel_SetModerator_guid_def Channel_SetMute_guid_def Let_def
      intro!: regular_with_member split: option.splits)

lemma SetOwner_keeps_regular: "regular_inv c \<Longrightarrow> regular_inv (fst (Channel_SetOwner env n pl c))"
  by (auto simp: Channel_SetOwner_def Let_def regular_inv_def [of c] intro!: regular_SetOwner_guid
      split: option.splits)

lemma quiet_ops_state [simp]:
  "fst (Channel_List env pl c) = c" "fst (Channel_SendWhoOwner env g c) = c"
  "fst (Channel_Invite env n pl c) = c"
  by (auto simp: Channel_List_def Channel_SendWhoOwner_def Channel_Invite_def Let_def split_beta
      split: option.splits)

lemma run_chan_keeps_regular:
  assumes "regular_inv c" "pl_guid pl \<noteq> 0" "regular_cmd env pl cmd c"
  shows "regular_inv (fst (run_chan env pl cmd c))"
proof (cases cmd)
  case (UnBan n)
  then show ?thesis using assms(1) regular_sorted
    by (simp add: Channel_UnBan_def Let_def regular_banned)
qed (use assms in \<open>simp_all add: Kick_keeps_regular Join_keeps_regular Leave_keeps_regular Mode_keeps_regular
    SetOwner_keeps_regular Channel_Kick_def Channel_Ban_def Channel_Password_def Channel_Announce_def Let_def\<close>)

interpretation regular: invariant_system chan_init regular_step regular_inv
proof
  fix c assume "chan_init c"
  then show "regular_inv c"
    using chan_init_store by (simp add: regular_inv_def chan_inv_def keys_match_def owned_if_used_def)
next
  fix c c' assume "regular_inv c" "regular_step c c'"
  then show "regular_inv c'" using run_chan_keeps_regular by (metis regular_stepE fst_conv)
qed

section \<open>Lemmas for the properties\<close>

lemma mode_owner_unchanged:
  assumes "ce_FindPlayerByName env n = Some p" "pl_guid p = ch_ownerGUID c" "pl_guid pl \<noteq> ch_ownerGUID c"
  shows "fst (Channel_SetMode env n md st pl c) = c"
  using assms by (auto simp: Channel_SetMode_def Let_def)

lemma kick_owner_refused:
  assumes "ce_FindPlayerByName env n = Some p" "pl_guid p = ch_ownerGUID c" "pl_guid pl \<noteq> ch_ownerGUID c"
    "\<not> Session_HasPermission pl RBAC_PERM_CHANGE_CHANNEL_NOT_MODERATOR"
  shows "kick_refused env pl n c"
  using assms by (auto simp: kick_refused_def guid_of_def Let_def)

lemma set_SendToAll:
  "x \<in> set (SendToAll env p guid c) \<longleftrightarrow>
   (\<exists>m pl. IsOn c m \<and> ce_FindPlayer env m = Some pl
      \<and> (guid = 0 \<or> \<not> ce_HasIgnore env (pl_guid pl) (GUID_LOPART guid)) \<and> x = Send (pl_guid pl) p)"
proof -
  have on: "IsOn c m \<longleftrightarrow> (\<exists>pinfo. (m, pinfo) \<in> set (playersStore c))" for m
    by (force simp: IsOn_def map_of_eq_None_iff)
  have one: "x \<in> set (case ce_FindPlayer env m of None \<Rightarrow> []
        | Some pl \<Rightarrow> if guid = 0 \<or> \<not> ce_HasIgnore env (pl_guid pl) (GUID_LOPART guid)
                    then [Send (pl_guid pl) p] else [])
      \<longleftrightarrow> (\<exists>pl. ce_FindPlayer env m = Some pl
            \<and> (guid = 0 \<or> \<not> ce_HasIgnore env (pl_guid pl) (GUID_LOPART guid)) \<and> x = Send (pl_guid pl) p)" for m
    by (cases "ce_FindPlayer env m") auto
  show ?thesis
    unfolding SendToAll_def set_concat set_map on split_beta by (simp add: one Bex_def) metis
qed

lemma list_loop_result:
  "list_loop env pl store fs count =
     (fs @ concat (map (\<lambda>(m, pinfo). [FU64 m, FU8 (pi_flags pinfo)]) (filter (\<lambda>(m, _). listed env pl m) store)),
      count + word_of_nat (length (filter (\<lambda>(m, _). listed env pl m) store)))"
  by (induction env pl store fs count rule: list_loop.induct) auto

lemma ban_list_pieces: "ban_list_string gs = concat (map (\<lambda>t. t @ '' '') (map (dec \<circ> unat) gs))"
  by (simp add: ban_list_string_def comp_def)

lemma load_ban_tokens:
  "\<forall>g \<in> set gs. g \<noteq> 0 \<and> unat g < 2 ^ 63 \<Longrightarrow>
   fold (\<lambda>t st. let banned_guid = word_of_int (atol t) in if banned_guid \<noteq> 0 then set_put banned_guid st else st)
     (map (dec \<circ> unat) gs) acc = fold set_put (gs :: uint64 list) acc"
  by (induction gs arbitrary: acc) (simp_all add: atol_dec Let_def)

lemma load_ban_list_roundtrip:
  assumes "sorted_wrt (<) gs" "\<forall>g \<in> set gs. g \<noteq> 0 \<and> unat g < 2 ^ 63"
  shows "load_ban_list (ban_list_string gs) = gs"
proof -
  have "Tokenizer (ban_list_string gs) (CHR '' '') = map (dec \<circ> unat) gs"
    unfolding ban_list_pieces by (rule Tokenizer_pieces) (auto simp: dec_no_char isdigit_def)
  with load_ban_tokens [OF assms(2), of "[]"] have "load_ban_list (ban_list_string gs) = set_of_list gs"
    by (simp add: load_ban_list_def set_of_list_def)
  also have "\<dots> = gs" by (rule strict_sorted_equal) (simp_all add: assms(1))
  finally show ?thesis .
qed

section \<open>Properties\<close>

definition demo_player :: "uint64 \<Rightarrow> string \<Rightarrow> player" where
  "demo_player g n = \<lparr>pl_guid = g, pl_name = n, pl_team = 469, pl_security = 0, pl_rbac = demo_account,
     pl_grouped = False, pl_GMVisible = True, pl_chatTag = 0\<rparr>"

definition demo_env :: channel_env where
  "demo_env = \<lparr>ce_FindPlayer = (\<lambda>g. if g = 10 then Some (demo_player 10 ''Ann'')
        else if g = 20 then Some (demo_player 20 ''Bob'') else None),
     ce_FindPlayerByName = (\<lambda>n. if n = ''Ann'' then Some (demo_player 10 ''Ann'')
        else if n = ''Bob'' then Some (demo_player 20 ''Bob'') else None),
     ce_PlayerNameByGUID = (\<lambda>_. None), ce_HasIgnore = (\<lambda>_ _. False), ce_IsVisibleGloballyFor = (\<lambda>_ _. True),
     ce_RESTRICTED_LFG_CHANNEL = False, ce_TWO_SIDE_INTERACTION_CHANNEL = False, ce_GM_LEVEL_IN_WHO_LIST = 3,
     ce_PRESERVE_CUSTOM_CHANNELS = True, ce_PRESERVE_CUSTOM_CHANNEL_DURATION = 14,
     ce_ChatChannels = (\<lambda>_. None), ce_SEL_CHANNEL = (\<lambda>_ _. None)\<rparr>"

definition demo_new :: Channel where
  "demo_new = fst (Channel_new demo_env ''c'' 0 469)"

text \<open>Ann (10, owner) and Bob (20) are on the channel.\<close>

definition demo_chan :: Channel where
  "demo_chan = \<lparr>ch_announce = True, ch_ownership = True, ch_IsSaved = True, ch_flags = 1, ch_channelId = 0,
     ch_Team = 469, ch_ownerGUID = 10, ch_name = ''c'', ch_password = [],
     playersStore = [(10, \<lparr>pi_player = 10, pi_flags = 3\<rparr>), (20, \<lparr>pi_player = 20, pi_flags = 0\<rparr>)],
     bannedStore = []\<rparr>"

lemma regular_stepI:
  "pl_guid pl \<noteq> 0 \<Longrightarrow> regular_cmd env pl cmd c \<Longrightarrow> fst (run_chan env pl cmd c) = c' \<Longrightarrow> regular_step c c'"
  by (cases "run_chan env pl cmd c") (auto intro: regular)

definition demo_one :: Channel where
  "demo_one = fst (run_chan demo_env (demo_player 10 ''Ann'') (Join []) demo_new)"

lemma demo_steps:
  "regular_step demo_new demo_one" "regular_step demo_one demo_chan"
proof -
  show "regular_step demo_new demo_one"
    by (rule regular_stepI [of "demo_player 10 ''Ann''" demo_env "Join []"]) code_simp+
  show "regular_step demo_one demo_chan"
    by (rule regular_stepI [of "demo_player 20 ''Bob''" demo_env "Join []"]) code_simp+
qed

lemma demo_chan_regular: "reachable chan_init regular_step demo_chan"
proof -
  have "chan_init demo_new" unfolding chan_init_def demo_new_def by blast
  then have "reachable chan_init regular_step demo_new" by (rule reach_init)
  then have "reachable chan_init regular_step demo_one" using demo_steps(1) by (rule reach_step)
  then show ?thesis using demo_steps(2) by (rule reach_step)
qed

lemma regular_step_is_step: "regular_step c c' \<Longrightarrow> chan_step c c'"
  by (auto elim: regular_stepE intro: step)

lemma regular_reachable: "reachable chan_init regular_step c \<Longrightarrow> reachable chan_init chan_step c"
  by (induction rule: reachable.induct) (auto intro: reachable.intros regular_step_is_step)

text \<open>
  C4.  Whatever commands players send, in any order, at most one member of a channel carries
  the owner flag, and it is the player recorded in \<^verbatim>\<open>_ownerGUID\<close>.
\<close>

theorem channel_single_owner:
  assumes "reachable chan_init chan_step c"
    and "IsOn c g" "PlayerInfo_IsOwner (member c g)" "IsOn c h" "PlayerInfo_IsOwner (member c h)"
  shows "g = h \<and> g = ch_ownerGUID c"
proof -
  have "k = ch_ownerGUID c" if "IsOn c k" "PlayerInfo_IsOwner (member c k)" for k
    using chan_inv_owner [OF chan.reachable_inv [OF assms(1)], of k] that by (auto simp: IsOn_def member_some)
  with assms(2-) show ?thesis by metis
qed

theorem channel_single_owner_witness:
  "PlayerInfo_IsOwner (member demo_chan 10) \<and> (10 :: uint64) = ch_ownerGUID demo_chan"
proof -
  have on: "IsOn demo_chan 10" "PlayerInfo_IsOwner (member demo_chan 10)" by code_simp+
  from channel_single_owner [OF regular_reachable [OF demo_chan_regular] on on] on show ?thesis by simp
qed

text \<open>
  C24.  In regular use (no self-kick, no joining of an abandoned channel) a custom channel with
  ownership that has members is never without an owner: the player in \<^verbatim>\<open>_ownerGUID\<close> is on the
  channel and carries the flag, through joins, leaves, kicks, bans and hand-overs.
\<close>

theorem channel_never_ownerless:
  assumes "reachable chan_init regular_step c"
    and "ch_ownership c" "\<not> IsConstant c" "playersStore c \<noteq> []"
  shows "IsOn c (ch_ownerGUID c) \<and> PlayerInfo_IsOwner (member c (ch_ownerGUID c)) \<and> ch_ownerGUID c \<noteq> 0"
proof -
  from regular.reachable_inv [OF assms(1)] assms(2-) obtain pinfo
    where p: "map_of (playersStore c) (ch_ownerGUID c) = Some pinfo" "PlayerInfo_IsOwner pinfo" "chan_inv c"
    by (auto simp: regular_inv_def owned_if_used_def owner_on_def)
  with chan_inv_owner [OF p(3,1,2)] show ?thesis by (simp add: IsOn_def member_some)
qed

theorem channel_never_ownerless_witness:
  "IsOn demo_chan 10 \<and> PlayerInfo_IsOwner (member demo_chan 10) \<and> ch_ownerGUID demo_chan = 10"
  using channel_never_ownerless [OF demo_chan_regular] by (simp add: demo_chan_def IsConstant_def)

text \<open>
  C21.  Who gets in: after \<^verbatim>\<open>JoinChannel\<close> a player is on the channel exactly when he was already,
  or he is not banned, knows the password and is not kept out by the LFG restriction; a player
  who is not let in leaves the channel exactly as it was.
\<close>

theorem join_admission:
  "(IsOn (fst (Channel_JoinChannel env pl pass c)) (pl_guid pl) \<longleftrightarrow>
      IsOn c (pl_guid pl)
      \<or> (\<not> IsBanned c (pl_guid pl) \<and> (ch_password c = [] \<or> pass = ch_password c)
         \<and> \<not> (Channel_HasFlag c CHANNEL_FLAG_LFG \<and> ce_RESTRICTED_LFG_CHANNEL env
              \<and> IsPlayerAccount (pl_security pl) \<and> pl_grouped pl)))
   \<and> (IsOn (fst (Channel_JoinChannel env pl pass c)) (pl_guid pl) \<or> fst (Channel_JoinChannel env pl pass c) = c)"
proof -
  let ?in = "\<lambda>c. IsOn c (pl_guid pl)"
  have put: "?in (c\<lparr>playersStore := map_put (pl_guid pl) x (playersStore c)\<rparr>)" for x by (simp add: IsOn_def)
  show ?thesis unfolding Channel_JoinChannel_def Let_def split_beta using put by auto
qed

fun moderator_cmd :: "chan_cmd \<Rightarrow> bool" where
  "moderator_cmd (Kick n) = True"
| "moderator_cmd (Ban n) = True"
| "moderator_cmd (UnBan n) = True"
| "moderator_cmd (Password p) = True"
| "moderator_cmd (SetModerator n) = True"
| "moderator_cmd (UnsetModerator n) = True"
| "moderator_cmd (SetMute n) = True"
| "moderator_cmd (UnsetMute n) = True"
| "moderator_cmd Announce = True"
| "moderator_cmd _ = False"

text \<open>
  C22.  A player who is not on the channel, or is neither moderator nor holds the RBAC permission,
  can change nothing with the nine moderator commands: the channel stays as it is, and the only
  effect is a notice to himself.
\<close>

theorem moderator_commands_guarded:
  assumes "moderator_cmd cmd" "\<not> IsOn c (pl_guid pl) \<or> \<not> may_moderate pl c"
  shows "run_chan env pl cmd c
    = (c, SendToOne env (if IsOn c (pl_guid pl) then MakeNotModerator c else MakeNotMember c) (pl_guid pl))"
  using assms
  by (cases cmd) (simp_all add: kickc.unauthorised banc.unauthorised unbanc.unauthorised
      passwordc.unauthorised modec.unauthorised announcec.unauthorised)

theorem moderator_commands_guarded_witness:
  "run_chan demo_env (demo_player 20 ''Bob'') (Ban ''Ann'') demo_chan
     = (demo_chan, SendToOne demo_env (MakeNotModerator demo_chan) 20)"
proof -
  have "IsOn demo_chan 20" "\<not> may_moderate (demo_player 20 ''Bob'') demo_chan" by code_simp+
  with moderator_commands_guarded [of "Ban ''Ann''" demo_chan "demo_player 20 ''Bob''" demo_env] show ?thesis
    by (simp add: demo_player_def)
qed

fun target :: "chan_cmd \<Rightarrow> string option" where
  "target (Kick n) = Some n"
| "target (Ban n) = Some n"
| "target (SetModerator n) = Some n"
| "target (UnsetModerator n) = Some n"
| "target (SetMute n) = Some n"
| "target (UnsetMute n) = Some n"
| "target _ = None"

text \<open>
  The owner is protected: another player without the RBAC permission, moderator or not,
  can neither kick, ban, mute nor change the moderator flag of the owner, and cannot hand the
  channel to anybody.
\<close>

theorem owner_protected:
  assumes "target cmd = Some n" "ce_FindPlayerByName env n = Some p" "pl_guid p = ch_ownerGUID c"
    and "pl_guid pl \<noteq> ch_ownerGUID c"
    and "\<not> Session_HasPermission pl RBAC_PERM_CHANGE_CHANNEL_NOT_MODERATOR"
  shows "fst (run_chan env pl cmd c) = c \<and> fst (run_chan env pl (SetOwner m) c) = c"
proof -
  have "fst (Channel_SetOwner env m pl c) = c" using assms(4,5) by (simp add: Channel_SetOwner_def Let_def)
  then show ?thesis
    using assms kick_owner_refused [OF assms(2-5)] mode_owner_unchanged [OF assms(2-4)]
    by (cases cmd) (simp_all add: Channel_Kick_def Channel_Ban_def KickOrBan_state Let_def)
qed

theorem owner_protected_witness:
  "fst (run_chan demo_env (demo_player 20 ''Bob'') (Kick ''Ann'') demo_chan) = demo_chan"
proof -
  have "\<not> Session_HasPermission (demo_player 20 ''Bob'') RBAC_PERM_CHANGE_CHANNEL_NOT_MODERATOR" by code_simp
  with owner_protected [of "Kick ''Ann''" "''Ann''" demo_env "demo_player 10 ''Ann''" demo_chan
      "demo_player 20 ''Bob''" "[]"] show ?thesis
    by (simp add: demo_env_def demo_player_def demo_chan_def)
qed

text \<open>
  Succession: when the owner leaves and members remain, the member with the least GUID
  becomes owner and moderator.
\<close>

theorem owner_succession:
  assumes "reachable chan_init regular_step c" "ch_ownership c" "\<not> IsConstant c"
    and "pl_guid pl = ch_ownerGUID c" "IsOn c (pl_guid pl)" "IsOn c h" "h \<noteq> pl_guid pl"
    and "c' = fst (Channel_LeaveChannel env pl send c)"
  shows "ch_ownerGUID c' \<noteq> pl_guid pl \<and> IsOn c (ch_ownerGUID c') \<and> ch_ownerGUID c' \<le> h
    \<and> PlayerInfo_IsOwner (member c' (ch_ownerGUID c')) \<and> PlayerInfo_IsModerator (member c' (ch_ownerGUID c'))"
proof -
  let ?g = "pl_guid pl" and ?s = "map_erase (pl_guid pl) (playersStore c)"
  have inv: "regular_inv c" using regular.reachable_inv [OF assms(1)] .
  have flag: "PlayerInfo_IsOwner (member c ?g)"
    using inv assms(2-5) IsOn_nonempty [OF assms(5)]
    by (auto simp: regular_inv_def owned_if_used_def owner_on_def member_some)
  have wf: "map_wf ?s" using inv by (simp add: regular_inv_def chan_inv_def)
  obtain v where h: "map_of ?s h = Some v" using assms(6,7) by (auto simp: IsOn_def)
  then obtain k first rest where s: "?s = (k, first) # rest" by (cases ?s) auto
  have k: "map_of ?s k = Some first" "k \<le> h"
    using sm.first_entry_found [OF wf s] sm.first_entry_least [OF wf s h] by auto
  then have kc: "map_of (playersStore c) k = Some first" "k \<noteq> ?g" by (auto split: if_splits)
  with inv have key: "pi_player first = k" "k \<noteq> 0" by (auto simp: regular_inv_def keys_match_def)
  have c': "c' = fst (Channel_SetOwner_guid env k True
      (with_member k (PlayerInfo_SetModerator True) (c\<lparr>playersStore := ?s\<rparr>)))"
    using assms(2,3,5,8) flag by (simp add: Channel_LeaveChannel_def Let_def split_beta s key)
  show ?thesis using kc k(2) key by (simp add: c' SetOwner_guid_state IsOn_def)
qed

theorem owner_succession_witness:
  "ch_ownerGUID (fst (Channel_LeaveChannel demo_env (demo_player 10 ''Ann'') True demo_chan)) \<le> 20
   \<and> ch_ownerGUID (fst (Channel_LeaveChannel demo_env (demo_player 10 ''Ann'') True demo_chan)) \<noteq> 10"
proof -
  have "IsOn demo_chan (pl_guid (demo_player 10 ''Ann''))" "IsOn demo_chan 20" by code_simp+
  with owner_succession [OF demo_chan_regular _ _ _ _ _ _ refl, of "demo_player 10 ''Ann''" 20 demo_env True]
  show ?thesis by (simp add: demo_chan_def demo_player_def IsConstant_def)
qed

text \<open>
  A chat message reaches exactly the online members who do not ignore the speaker (all of
  them when the speaker is moderator), and only when the speaker is on the channel, is not
  muted and says something.
\<close>

theorem say_delivery:
  assumes "pk_opcode p = SMSG_MESSAGECHAT"
  shows "Send h p \<in> set (snd (Channel_Say env g what lang c)) \<longleftrightarrow>
    what \<noteq> [] \<and> IsOn c g \<and> \<not> PlayerInfo_IsMuted (member c g)
    \<and> (\<exists>m pl. IsOn c m \<and> ce_FindPlayer env m = Some pl \<and> h = pl_guid pl
         \<and> (PlayerInfo_IsModerator (member c g) \<or> g = 0 \<or> \<not> ce_HasIgnore env h (GUID_LOPART g)))
    \<and> p = pkt SMSG_MESSAGECHAT
        [FU8 CHAT_MSG_CHANNEL, FU32 (if ce_TWO_SIDE_INTERACTION_CHANNEL env then LANG_UNIVERSAL else lang),
         FU64 g, FU32 0, FStr (ch_name c), FU64 g, FU32 (word_of_nat (length what + 1)), FStr what,
         FU8 (case ce_FindPlayer env g of Some pl \<Rightarrow> pl_chatTag pl | None \<Rightarrow> 0)]"
proof -
  have no: "Send h p \<notin> set (SendToOne env (MakeNotifyPacket c n fs) g)" for n fs
    using assms by (auto simp: SendToOne_def MakeNotifyPacket_def split: option.splits)
  show ?thesis
    unfolding Channel_Say_def Let_def
    by (simp add: set_SendToAll no MakeNotMember_def MakeMuted_def) blast
qed

theorem say_delivery_witness:
  "\<exists>p. Send 10 p \<in> set (snd (Channel_Say demo_env 20 ''hi'' 7 demo_chan)) \<and> pk_opcode p = SMSG_MESSAGECHAT"
proof -
  let ?p = "pkt SMSG_MESSAGECHAT [FU8 CHAT_MSG_CHANNEL, FU32 7, FU64 20, FU32 0, FStr ''c'', FU64 20, FU32 3,
      FStr ''hi'', FU8 0]"
  have facts: "IsOn demo_chan 20" "IsOn demo_chan 10" "\<not> PlayerInfo_IsMuted (member demo_chan 20)" by code_simp+
  have env: "ce_FindPlayer demo_env 10 = Some (demo_player 10 ''Ann'')" "pl_guid (demo_player 10 ''Ann'') = 10"
    "ce_FindPlayer demo_env 20 = Some (demo_player 20 ''Bob'')" "pl_chatTag (demo_player 20 ''Bob'') = 0"
    "\<not> ce_TWO_SIDE_INTERACTION_CHANNEL demo_env" "\<not> ce_HasIgnore demo_env 10 (GUID_LOPART 20)"
    "ch_name demo_chan = ''c''"
    by (simp_all add: demo_env_def demo_player_def demo_chan_def)
  then have "\<exists>m pl. IsOn demo_chan m \<and> ce_FindPlayer demo_env m = Some pl \<and> 10 = pl_guid pl"
    using facts(2) by metis
  with say_delivery [of ?p 10 demo_env 20 "''hi''" 7 demo_chan] facts env
  have "Send 10 ?p \<in> set (snd (Channel_Say demo_env 20 ''hi'' 7 demo_chan))" by simp
  then show ?thesis by force
qed

text \<open>
  The member list: the packet names exactly the members visible to the asker, in
  ascending GUID order, each with his flags, and the count patched into it is their number.
\<close>

theorem list_packet:
  assumes "IsOn c (pl_guid pl)" "ce_FindPlayer env (pl_guid pl) = Some p"
    and "vis = filter (\<lambda>(m, pinfo). listed env pl m) (playersStore c)"
  shows "Channel_List env pl c =
    (c, [Send (pl_guid p) (pkt SMSG_CHANNEL_LIST
           ([FU8 1, FStr (ch_name c), FU8 (ch_flags c), FU32 (word_of_nat (length vis))]
            @ concat (map (\<lambda>(m, pinfo). [FU64 m, FU8 (pi_flags pinfo)]) vis)))])"
  using assms by (simp add: Channel_List_def Let_def list_loop_result SendToOne_def numeral_3_eq_3)

theorem list_packet_witness:
  "Channel_List demo_env (demo_player 20 ''Bob'') demo_chan =
     (demo_chan, [Send 20 (pkt SMSG_CHANNEL_LIST
        [FU8 1, FStr ''c'', FU8 1, FU32 2, FU64 10, FU8 3, FU64 20, FU8 0])])"
proof -
  have on: "IsOn demo_chan (pl_guid (demo_player 20 ''Bob''))" by code_simp
  have find: "ce_FindPlayer demo_env (pl_guid (demo_player 20 ''Bob'')) = Some (demo_player 20 ''Bob'')"
    by (simp add: demo_env_def demo_player_def)
  have "filter (\<lambda>(m, pinfo). listed demo_env (demo_player 20 ''Bob'') m) (playersStore demo_chan)
      = playersStore demo_chan"
    by (simp add: demo_chan_def listed_def demo_env_def demo_player_def)
  from list_packet [OF on find this [symmetric]] show ?thesis
    by (simp add: demo_chan_def demo_player_def)
qed

text \<open>
  C35.  The ban list survives a restart: the row \<^verbatim>\<open>UpdateChannelInDB\<close> writes for a saved custom
  channel, read back by the constructor, restores the announce and ownership settings, the
  password and exactly the banned GUIDs.
\<close>

theorem channel_persistence:
  assumes "reachable chan_init chan_step c" "ch_IsSaved c"
    and "\<forall>g \<in> set (bannedStore c). g \<noteq> 0 \<and> unat g < 2 ^ 63"
    and "UpdateChannelInDB c = [CHAR_UPD_CHANNEL announce ownership password banned name team]"
    and "ce_PRESERVE_CUSTOM_CHANNELS env" "ce_ChatChannels env 0 = None"
    and "ce_SEL_CHANNEL env name team = Some (announce, ownership, password, Some banned)"
    and "d = fst (Channel_new env name 0 team)"
  shows "ch_announce d = ch_announce c \<and> ch_ownership d = ch_ownership c \<and> ch_password d = ch_password c
    \<and> bannedStore d = bannedStore c \<and> ch_name d = ch_name c \<and> ch_Team d = ch_Team c \<and> ch_IsSaved d"
proof -
  have "chan_inv c" using chan.reachable_inv [OF assms(1)] .
  then have "load_ban_list (ban_list_string (bannedStore c)) = bannedStore c"
    using load_ban_list_roundtrip assms(3) by (simp add: chan_inv_def)
  with assms show ?thesis by (simp add: UpdateChannelInDB_def Channel_new_def Let_def)
qed

theorem channel_persistence_witness:
  "bannedStore (fst (Channel_new (demo_env\<lparr>ce_SEL_CHANNEL := \<lambda>_ _. Some (True, True, [], Some ''20 '')\<rparr>) ''c'' 0 469))
     = [20]"
proof -
  let ?ann = "demo_player 10 ''Ann''"
  let ?c = "fst (run_chan demo_env ?ann (Ban ''Bob'') demo_chan)"
  let ?env = "demo_env\<lparr>ce_SEL_CHANNEL := \<lambda>_ _. Some (True, True, [], Some ''20 '')\<rparr>"
  have "chan_step demo_chan ?c"
    by (rule step [of demo_env ?ann "Ban ''Bob''" _ _ "snd (run_chan demo_env ?ann (Ban ''Bob'') demo_chan)"]) simp
  then have r: "reachable chan_init chan_step ?c"
    by (rule reach_step [OF regular_reachable [OF demo_chan_regular]])
  have b: "bannedStore ?c = [20]" by code_simp
  have u: "UpdateChannelInDB ?c = [CHAR_UPD_CHANNEL True True [] ''20 '' ''c'' 469]" by code_simp
  have s: "ch_IsSaved ?c" by code_simp
  have e: "ce_PRESERVE_CUSTOM_CHANNELS ?env" "ce_ChatChannels ?env 0 = None"
    "ce_SEL_CHANNEL ?env ''c'' 469 = Some (True, True, [], Some ''20 '')"
    by (simp_all add: demo_env_def)
  from channel_persistence [OF r s _ u e refl] b show ?thesis by simp
qed

text \<open>
  A ban works: after a moderator has banned another member, the victim is off the channel
  and no attempt of his to join, with any password, changes the channel.
\<close>

theorem ban_keeps_out:
  assumes "\<not> kick_refused env pl n c" "ce_FindPlayerByName env n = Some bad" "pl_guid bad \<noteq> pl_guid pl"
    and "c' = fst (Channel_Ban env n pl c)"
  shows "\<not> IsOn c' (pl_guid bad) \<and> IsBanned c' (pl_guid bad) \<and> fst (Channel_JoinChannel env' bad pass c') = c'"
proof -
  have "IsBanned (fst (Channel_SetOwner_guid env g ex (with_member g f e))) v = IsBanned e v" for g ex f e v
    by (simp add: IsBanned_def)
  then have "\<not> IsOn c' (pl_guid bad) \<and> IsBanned c' (pl_guid bad)"
    using assms by (simp add: Channel_Ban_def KickOrBan_state Let_def guid_of_def)
  then show ?thesis by (simp add: Channel_JoinChannel_def Let_def)
qed

theorem ban_keeps_out_witness:
  "fst (Channel_JoinChannel demo_env (demo_player 20 ''Bob'') []
      (fst (Channel_Ban demo_env ''Bob'' (demo_player 10 ''Ann'') demo_chan)))
    = fst (Channel_Ban demo_env ''Bob'' (demo_player 10 ''Ann'') demo_chan)"
proof -
  have r: "\<not> kick_refused demo_env (demo_player 10 ''Ann'') ''Bob'' demo_chan" by code_simp
  have f: "ce_FindPlayerByName demo_env ''Bob'' = Some (demo_player 20 ''Bob'')" by (simp add: demo_env_def)
  have d: "pl_guid (demo_player 20 ''Bob'') \<noteq> pl_guid (demo_player 10 ''Ann'')" by (simp add: demo_player_def)
  from ban_keeps_out [OF r f d refl, of demo_env "[]"] show ?thesis by blast
qed

text \<open>
  A defect: an owner who bans himself while others are on the channel is told he left, is
  put on the ban list, and is at once entered again as a member and owner, with a member record
  whose \<^verbatim>\<open>player\<close> field is zero.
\<close>

theorem self_ban_reenters:
  assumes "ch_ownership c" "ch_ownerGUID c = pl_guid pl" "pl_guid pl \<noteq> 0" "IsOn c (pl_guid pl)" "may_moderate pl c"
    and "ce_FindPlayerByName env n = Some pl" "IsOn c h" "h \<noteq> pl_guid pl"
    and "c' = fst (Channel_Ban env n pl c)"
  shows "IsOn c' (pl_guid pl) \<and> IsBanned c' (pl_guid pl) \<and> ch_ownerGUID c' = pl_guid pl
    \<and> pi_player (member c' (pl_guid pl)) = 0 \<and> LeftChannel (pl_guid pl) \<in> set (snd (Channel_Ban env n pl c))"
proof -
  let ?g = "pl_guid pl"
  have ok: "\<not> kick_refused env pl n c" using assms by (simp add: kick_refused_def Let_def guid_of_def)
  have left: "LeftChannel ?g \<in> set (snd (Channel_Ban env n pl c))"
    using assms by (simp add: Channel_Ban_def Channel_KickOrBan_def guid_of_def Let_def split_beta)
  have "map_erase ?g (playersStore c) \<noteq> []"
    using assms(7,8) by (metis IsOn_def fun_upd_other map_of.simps(1) map_of_map_erase)
  then have c': "c' = fst (Channel_SetOwner_guid env ?g True
      (with_member ?g (PlayerInfo_SetModerator True) (expel True ?g c)))"
    using assms ok by (simp add: Channel_Ban_def KickOrBan_state Let_def guid_of_def)
  have none: "map_of (playersStore (expel True ?g c)) ?g = None" by simp
  have "pi_player (member c' ?g) = 0"
    using assms(2,3) none
    by (simp add: c' SetOwner_guid_state) (simp add: member_def map_at_def map_of_demote_owner PlayerInfo0_def)
  moreover have "IsBanned c' ?g" by (simp add: c' IsBanned_def) (simp add: expel_def IsBanned_def)
  ultimately show ?thesis using assms(3) left by (simp add: c')
qed

theorem self_ban_reenters_witness:
  "\<exists>c'. c' = fst (Channel_Ban demo_env ''Ann'' (demo_player 10 ''Ann'') demo_chan)
     \<and> IsOn c' 10 \<and> IsBanned c' 10 \<and> pi_player (member c' 10) = 0"
proof -
  let ?pl = "demo_player 10 ''Ann''"
  have on: "IsOn demo_chan (pl_guid ?pl)" "IsOn demo_chan 20" "may_moderate ?pl demo_chan" by code_simp+
  have g: "pl_guid ?pl = 10" "ch_ownership demo_chan" "ch_ownerGUID demo_chan = 10"
    "ce_FindPlayerByName demo_env ''Ann'' = Some ?pl"
    by (simp_all add: demo_player_def demo_chan_def demo_env_def)
  from self_ban_reenters [OF g(2) _ _ on(1,3) g(4) on(2) _ refl] g show ?thesis by simp
qed

end
