(* ===== verification/ChannelMgr.thy ===== *)
theory ChannelMgr
  imports Channel
begin

text \<open>
  The channel managers (\<^verbatim>\<open>game/Chat/Channels/ChannelMgr.cpp\<close>) and the packet handlers of
  \<^verbatim>\<open>game/Handlers/ChannelHandler.cpp\<close> that drive them.

  A manager maps the lower-cased wide form of a name to a channel; a \<^verbatim>\<open>Channel*\<close> returned by
  the manager is the key of the channel, and a call through it updates the entry.  The UTF-8
  conversion with case folding, \<^verbatim>\<open>normalizePlayerName\<close>, the zone of the player and his guild are
  the argument \<open>he\<close>.  A handler reads its operands from the client's byte buffer, so a
  short packet is an exception of theory \<open>ByteBuffer\<close>.
\<close>

section \<open>The managers\<close>

record ChannelMgr =
  mgr_channels :: "(string, Channel) smap"
  mgr_team :: uint32

text \<open>The two singletons.\<close>

record channel_world =
  cw_alliance :: ChannelMgr
  cw_horde :: ChannelMgr

datatype side = AllianceSide | HordeSide

abbreviation HORDE :: uint32 where "HORDE \<equiv> 67"
abbreviation ALLIANCE :: uint32 where "ALLIANCE \<equiv> 469"
abbreviation SMSG_CHANNEL_MEMBER_COUNT :: uint16 where "SMSG_CHANNEL_MEMBER_COUNT \<equiv> 0x3D5"
abbreviation AREA_FLAG_ARENA_INSTANCE :: uint32 where "AREA_FLAG_ARENA_INSTANCE \<equiv> 0x00010000"
abbreviation AREA_FLAG_SLAVE_CAPITAL :: uint32 where "AREA_FLAG_SLAVE_CAPITAL \<equiv> 0x00000008"
abbreviation CHANNEL_DBC_FLAG_ZONE_DEP :: uint32 where "CHANNEL_DBC_FLAG_ZONE_DEP \<equiv> 0x00002"
abbreviation CHANNEL_DBC_FLAG_CITY_ONLY :: uint32 where "CHANNEL_DBC_FLAG_CITY_ONLY \<equiv> 0x00010"
abbreviation CHANNEL_DBC_FLAG_GUILD_REQ :: uint32 where "CHANNEL_DBC_FLAG_GUILD_REQ \<equiv> 0x20000"

record handler_env =
  he_env :: channel_env
  he_wname :: "string \<Rightarrow> string"
  he_normalizePlayerName :: "string \<Rightarrow> string option"
  he_zone_flags :: "uint64 \<Rightarrow> uint32 option"
  he_CHANNEL_ON_CITY_ONLY_FLAG :: bool
  he_GuildId :: "uint64 \<Rightarrow> uint32"

definition ChannelMgr_new :: ChannelMgr where
  "ChannelMgr_new = \<lparr>mgr_channels = [], mgr_team = 0\<rparr>"

definition forTeam :: "channel_env \<Rightarrow> uint32 \<Rightarrow> side option" where
  "forTeam env team =
     (if ce_TWO_SIDE_INTERACTION_CHANNEL env then Some AllianceSide
      else if team = ALLIANCE then Some AllianceSide
      else if team = HORDE then Some HordeSide
      else None)"

fun mgr_of :: "side \<Rightarrow> channel_world \<Rightarrow> ChannelMgr" where
  "mgr_of AllianceSide w = cw_alliance w"
| "mgr_of HordeSide w = cw_horde w"

fun set_mgr :: "side \<Rightarrow> ChannelMgr \<Rightarrow> channel_world \<Rightarrow> channel_world" where
  "set_mgr AllianceSide m w = w\<lparr>cw_alliance := m\<rparr>"
| "set_mgr HordeSide m w = w\<lparr>cw_horde := m\<rparr>"

definition setTeam :: "uint32 \<Rightarrow> ChannelMgr \<Rightarrow> ChannelMgr" where
  "setTeam newTeam m = m\<lparr>mgr_team := newTeam\<rparr>"

definition GetJoinChannel :: "handler_env \<Rightarrow> string \<Rightarrow> uint32 \<Rightarrow> ChannelMgr \<Rightarrow> string \<times> ChannelMgr \<times> effect list" where
  "GetJoinChannel he name channelId m =
     (let wname = he_wname he name in
      case map_of (mgr_channels m) wname of
        None \<Rightarrow> let (nchan, out) = Channel_new (he_env he) name channelId (mgr_team m)
                in (wname, m\<lparr>mgr_channels := map_put wname nchan (mgr_channels m)\<rparr>, out)
      | Some c \<Rightarrow> (wname, m, []))"

definition MakeNotOnPacket :: "string \<Rightarrow> packet" where
  "MakeNotOnPacket name = pkt SMSG_CHANNEL_NOTIFY [FU8 5, FStr name]"

definition GetChannel :: "handler_env \<Rightarrow> string \<Rightarrow> player \<Rightarrow> bool \<Rightarrow> ChannelMgr \<Rightarrow> string option \<times> effect list" where
  "GetChannel he name pl sendpkt m =
     (let wname = he_wname he name in
      case map_of (mgr_channels m) wname of
        None \<Rightarrow> (None, if sendpkt then [Send (pl_guid pl) (MakeNotOnPacket name)] else [])
      | Some c \<Rightarrow> (Some wname, []))"

definition ChannelMgr_LeftChannel :: "handler_env \<Rightarrow> string \<Rightarrow> ChannelMgr \<Rightarrow> ChannelMgr" where
  "ChannelMgr_LeftChannel he name m =
     (let wname = he_wname he name in
      case map_of (mgr_channels m) wname of
        None \<Rightarrow> m
      | Some channel \<Rightarrow>
          if GetNumPlayers channel = 0 \<and> \<not> IsConstant channel
          then m\<lparr>mgr_channels := map_erase wname (mgr_channels m)\<rparr> else m)"

text \<open>A call through a \<^verbatim>\<open>Channel*\<close>.\<close>

definition call_channel :: "string \<Rightarrow> (Channel \<Rightarrow> chan_outcome) \<Rightarrow> ChannelMgr \<Rightarrow> ChannelMgr \<times> effect list" where
  "call_channel key f m =
     (case map_of (mgr_channels m) key of
        None \<Rightarrow> (m, [])
      | Some c \<Rightarrow> let (c', out) = f c in (m\<lparr>mgr_channels := map_put key c' (mgr_channels m)\<rparr>, out))"

section \<open>Packet handlers\<close>

type_synonym handler_outcome = "(channel_world \<times> effect list) bb_result"

definition CanJoinConstantChannelInZone :: "handler_env \<Rightarrow> uint32 \<Rightarrow> uint32 \<Rightarrow> player \<Rightarrow> bool" where
  "CanJoinConstantChannelInZone he chan_flags zone_flags pl =
     (if has_flag chan_flags CHANNEL_DBC_FLAG_ZONE_DEP \<and> has_flag zone_flags AREA_FLAG_ARENA_INSTANCE then False
      else if has_flag chan_flags CHANNEL_DBC_FLAG_CITY_ONLY \<and> \<not> has_flag zone_flags AREA_FLAG_SLAVE_CAPITAL
              \<and> he_CHANNEL_ON_CITY_ONLY_FLAG he then False
      else if has_flag chan_flags CHANNEL_DBC_FLAG_GUILD_REQ \<and> he_GuildId he (pl_guid pl) \<noteq> 0 then False
      else True)"

definition HandleJoinChannel :: "handler_env \<Rightarrow> player \<Rightarrow> ByteBuffer \<Rightarrow> channel_world \<Rightarrow> handler_outcome" where
  "HandleJoinChannel he pl recvPacket w =
     bindE (bb_read recvPacket) (\<lambda>(channelId :: uint32, b).
     bindE (bb_read b) (\<lambda>(unknown1 :: uint8, b).
     bindE (bb_read b) (\<lambda>(unknown2 :: uint8, b).
     bindE (bb_read_string b) (\<lambda>(channelName, b).
     bindE (bb_read_string b) (\<lambda>(password, b).
     let allowed = (if channelId \<noteq> 0
                    then case ce_ChatChannels (he_env he) channelId of
                        None \<Rightarrow> False
                      | Some channel \<Rightarrow>
                          (case he_zone_flags he (pl_guid pl) of
                             None \<Rightarrow> False
                           | Some zone \<Rightarrow> CanJoinConstantChannelInZone he channel zone pl)
                    else True)
     in if \<not> allowed \<or> channelName = [] then Inr (w, [])
        else case forTeam (he_env he) (pl_team pl) of
            None \<Rightarrow> Inr (w, [])
          | Some s \<Rightarrow>
              let m = setTeam (pl_team pl) (mgr_of s w);
                  (key, m, out1) = GetJoinChannel he channelName channelId m;
                  (m, out2) = call_channel key (Channel_JoinChannel (he_env he) pl password) m
              in Inr (set_mgr s m w, out1 @ out2))))))"

definition HandleLeaveChannel :: "handler_env \<Rightarrow> player \<Rightarrow> ByteBuffer \<Rightarrow> channel_world \<Rightarrow> handler_outcome" where
  "HandleLeaveChannel he pl recvPacket w =
     bindE (bb_read recvPacket) (\<lambda>(unk :: uint32, b).
     bindE (bb_read_string b) (\<lambda>(channelName, b).
     if channelName = [] then Inr (w, [])
     else case forTeam (he_env he) (pl_team pl) of
         None \<Rightarrow> Inr (w, [])
       | Some s \<Rightarrow>
           let m = mgr_of s w;
               (found, out1) = GetChannel he channelName pl True m;
               (m, out2) = (case found of
                   None \<Rightarrow> (m, [])
                 | Some key \<Rightarrow> call_channel key (Channel_LeaveChannel (he_env he) pl True) m);
               m = ChannelMgr_LeftChannel he channelName m
           in Inr (set_mgr s m w, out1 @ out2)))"

text \<open>The tail the remaining handlers share: find the manager and the channel, call the operation.\<close>

definition on_channel ::
    "handler_env \<Rightarrow> player \<Rightarrow> string \<Rightarrow> (Channel \<Rightarrow> chan_outcome) \<Rightarrow> channel_world \<Rightarrow> channel_world \<times> effect list" where
  "on_channel he pl channelName op w =
     (case forTeam (he_env he) (pl_team pl) of
        None \<Rightarrow> (w, [])
      | Some s \<Rightarrow>
          (case GetChannel he channelName pl True (mgr_of s w) of
             (None, out) \<Rightarrow> (w, out)
           | (Some key, out) \<Rightarrow>
               let (m, out') = call_channel key op (mgr_of s w) in (set_mgr s m w, out @ out')))"

definition named_handler ::
    "(Channel \<Rightarrow> chan_outcome) \<Rightarrow> handler_env \<Rightarrow> player \<Rightarrow> ByteBuffer \<Rightarrow> channel_world \<Rightarrow> handler_outcome" where
  "named_handler op he pl recvPacket w =
     bindE (bb_read_string recvPacket) (\<lambda>(channelName, b). Inr (on_channel he pl channelName op w))"

definition target_handler ::
    "(string \<Rightarrow> Channel \<Rightarrow> chan_outcome) \<Rightarrow> handler_env \<Rightarrow> player \<Rightarrow> ByteBuffer \<Rightarrow> channel_world \<Rightarrow> handler_outcome" where
  "target_handler op he pl recvPacket w =
     bindE (bb_read_string recvPacket) (\<lambda>(channelName, b).
     bindE (bb_read_string b) (\<lambda>(targetName, b).
     case he_normalizePlayerName he targetName of
       None \<Rightarrow> Inr (w, [])
     | Some targetName \<Rightarrow> Inr (on_channel he pl channelName (op targetName) w)))"

definition HandleChannelList :: "handler_env \<Rightarrow> player \<Rightarrow> ByteBuffer \<Rightarrow> channel_world \<Rightarrow> handler_outcome" where
  "HandleChannelList he pl = named_handler (Channel_List (he_env he) pl) he pl"

definition HandleChannelPassword :: "handler_env \<Rightarrow> player \<Rightarrow> ByteBuffer \<Rightarrow> channel_world \<Rightarrow> handler_outcome" where
  "HandleChannelPassword he pl recvPacket w =
     bindE (bb_read_string recvPacket) (\<lambda>(channelName, b).
     bindE (bb_read_string b) (\<lambda>(password, b).
     Inr (on_channel he pl channelName (Channel_Password (he_env he) password pl) w)))"

definition HandleChannelSetOwner :: "handler_env \<Rightarrow> player \<Rightarrow> ByteBuffer \<Rightarrow> channel_world \<Rightarrow> handler_outcome" where
  "HandleChannelSetOwner he pl = target_handler (\<lambda>n. Channel_SetOwner (he_env he) n pl) he pl"

definition HandleChannelOwner :: "handler_env \<Rightarrow> player \<Rightarrow> ByteBuffer \<Rightarrow> channel_world \<Rightarrow> handler_outcome" where
  "HandleChannelOwner he pl = named_handler (Channel_SendWhoOwner (he_env he) (pl_guid pl)) he pl"

definition HandleChannelModerator :: "handler_env \<Rightarrow> player \<Rightarrow> ByteBuffer \<Rightarrow> channel_world \<Rightarrow> handler_outcome" where
  "HandleChannelModerator he pl = target_handler (\<lambda>n. Channel_SetMode (he_env he) n True True pl) he pl"

definition HandleChannelUnmoderator :: "handler_env \<Rightarrow> player \<Rightarrow> ByteBuffer \<Rightarrow> channel_world \<Rightarrow> handler_outcome" where
  "HandleChannelUnmoderator he pl = target_handler (\<lambda>n. Channel_SetMode (he_env he) n True False pl) he pl"

definition HandleChannelMute :: "handler_env \<Rightarrow> player \<Rightarrow> ByteBuffer \<Rightarrow> channel_world \<Rightarrow> handler_outcome" where
  "HandleChannelMute he pl = target_handler (\<lambda>n. Channel_SetMode (he_env he) n False True pl) he pl"

definition HandleChannelUnmute :: "handler_env \<Rightarrow> player \<Rightarrow> ByteBuffer \<Rightarrow> channel_world \<Rightarrow> handler_outcome" where
  "HandleChannelUnmute he pl = target_handler (\<lambda>n. Channel_SetMode (he_env he) n False False pl) he pl"

definition HandleChannelInvite :: "handler_env \<Rightarrow> player \<Rightarrow> ByteBuffer \<Rightarrow> channel_world \<Rightarrow> handler_outcome" where
  "HandleChannelInvite he pl = target_handler (\<lambda>n. Channel_Invite (he_env he) n pl) he pl"

definition HandleChannelKick :: "handler_env \<Rightarrow> player \<Rightarrow> ByteBuffer \<Rightarrow> channel_world \<Rightarrow> handler_outcome" where
  "HandleChannelKick he pl = target_handler (\<lambda>n. Channel_Kick (he_env he) n pl) he pl"

definition HandleChannelBan :: "handler_env \<Rightarrow> player \<Rightarrow> ByteBuffer \<Rightarrow> channel_world \<Rightarrow> handler_outcome" where
  "HandleChannelBan he pl = target_handler (\<lambda>n. Channel_Ban (he_env he) n pl) he pl"

definition HandleChannelUnban :: "handler_env \<Rightarrow> player \<Rightarrow> ByteBuffer \<Rightarrow> channel_world \<Rightarrow> handler_outcome" where
  "HandleChannelUnban he pl = target_handler (\<lambda>n. Channel_UnBan (he_env he) n pl) he pl"

definition HandleChannelAnnouncements :: "handler_env \<Rightarrow> player \<Rightarrow> ByteBuffer \<Rightarrow> channel_world \<Rightarrow> handler_outcome" where
  "HandleChannelAnnouncements he pl = named_handler (Channel_Announce (he_env he) pl) he pl"

definition HandleChannelDisplayListQuery :: "handler_env \<Rightarrow> player \<Rightarrow> ByteBuffer \<Rightarrow> channel_world \<Rightarrow> handler_outcome" where
  "HandleChannelDisplayListQuery he pl = HandleChannelList he pl"

definition HandleGetChannelMemberCount :: "handler_env \<Rightarrow> player \<Rightarrow> ByteBuffer \<Rightarrow> channel_world \<Rightarrow> handler_outcome" where
  "HandleGetChannelMemberCount he pl = named_handler (\<lambda>c. (c, [Send (pl_guid pl)
     (pkt SMSG_CHANNEL_MEMBER_COUNT [FStr (ch_name c), FU8 (ch_flags c), FU32 (GetNumPlayers c)])])) he pl"

definition HandleSetChannelWatch :: "handler_env \<Rightarrow> player \<Rightarrow> ByteBuffer \<Rightarrow> channel_world \<Rightarrow> handler_outcome" where
  "HandleSetChannelWatch he pl recvPacket w =
     bindE (bb_read_string recvPacket) (\<lambda>(channelName, b). Inr (w, []))"

datatype chan_opcode =
    CMSG_JOIN_CHANNEL | CMSG_LEAVE_CHANNEL | CMSG_CHANNEL_LIST | CMSG_CHANNEL_PASSWORD
  | CMSG_CHANNEL_SET_OWNER | CMSG_CHANNEL_OWNER | CMSG_CHANNEL_MODERATOR | CMSG_CHANNEL_UNMODERATOR
  | CMSG_CHANNEL_MUTE | CMSG_CHANNEL_UNMUTE | CMSG_CHANNEL_INVITE | CMSG_CHANNEL_KICK
  | CMSG_CHANNEL_BAN | CMSG_CHANNEL_UNBAN | CMSG_CHANNEL_ANNOUNCEMENTS | CMSG_CHANNEL_DISPLAY_LIST
  | CMSG_GET_CHANNEL_MEMBER_COUNT | CMSG_SET_CHANNEL_WATCH

fun handle :: "chan_opcode \<Rightarrow> handler_env \<Rightarrow> player \<Rightarrow> ByteBuffer \<Rightarrow> channel_world \<Rightarrow> handler_outcome" where
  "handle CMSG_JOIN_CHANNEL = HandleJoinChannel"
| "handle CMSG_LEAVE_CHANNEL = HandleLeaveChannel"
| "handle CMSG_CHANNEL_LIST = HandleChannelList"
| "handle CMSG_CHANNEL_PASSWORD = HandleChannelPassword"
| "handle CMSG_CHANNEL_SET_OWNER = HandleChannelSetOwner"
| "handle CMSG_CHANNEL_OWNER = HandleChannelOwner"
| "handle CMSG_CHANNEL_MODERATOR = HandleChannelModerator"
| "handle CMSG_CHANNEL_UNMODERATOR = HandleChannelUnmoderator"
| "handle CMSG_CHANNEL_MUTE = HandleChannelMute"
| "handle CMSG_CHANNEL_UNMUTE = HandleChannelUnmute"
| "handle CMSG_CHANNEL_INVITE = HandleChannelInvite"
| "handle CMSG_CHANNEL_KICK = HandleChannelKick"
| "handle CMSG_CHANNEL_BAN = HandleChannelBan"
| "handle CMSG_CHANNEL_UNBAN = HandleChannelUnban"
| "handle CMSG_CHANNEL_ANNOUNCEMENTS = HandleChannelAnnouncements"
| "handle CMSG_CHANNEL_DISPLAY_LIST = HandleChannelDisplayListQuery"
| "handle CMSG_GET_CHANNEL_MEMBER_COUNT = HandleGetChannelMemberCount"
| "handle CMSG_SET_CHANNEL_WATCH = HandleSetChannelWatch"

section \<open>The invariant of the managers\<close>

definition mgr_inv :: "ChannelMgr \<Rightarrow> bool" where
  "mgr_inv m \<longleftrightarrow> map_wf (mgr_channels m)
     \<and> (\<forall>k c. map_of (mgr_channels m) k = Some c \<longrightarrow> reachable chan_init chan_step c)"

definition world_inv :: "channel_world \<Rightarrow> bool" where
  "world_inv w \<longleftrightarrow> mgr_inv (cw_alliance w) \<and> mgr_inv (cw_horde w)"

lemma world_inv_mgr: "world_inv w \<Longrightarrow> mgr_inv (mgr_of s w)"
  by (cases s) (simp_all add: world_inv_def)

lemma world_inv_set_mgr: "world_inv w \<Longrightarrow> mgr_inv m \<Longrightarrow> world_inv (set_mgr s m w)"
  by (cases s) (simp_all add: world_inv_def)

lemma mgr_inv_setTeam [simp]: "mgr_inv (setTeam t m) = mgr_inv m"
  by (simp add: mgr_inv_def setTeam_def)

lemma mgr_inv_put: "mgr_inv m \<Longrightarrow> reachable chan_init chan_step c \<Longrightarrow>
    mgr_inv (m\<lparr>mgr_channels := map_put k c (mgr_channels m)\<rparr>)"
  by (simp add: mgr_inv_def)

lemma chan_init_new: "chan_init (fst (Channel_new env n i t))"
  unfolding chan_init_def by blast

lemma GetJoinChannel_keeps: "mgr_inv m \<Longrightarrow> mgr_inv (fst (snd (GetJoinChannel he n i m)))"
  by (auto simp: GetJoinChannel_def Let_def split_beta chan_init_new
      intro!: mgr_inv_put reach_init split: option.splits)

lemma LeftChannel_keeps: "mgr_inv m \<Longrightarrow> mgr_inv (ChannelMgr_LeftChannel he n m)"
  by (simp add: ChannelMgr_LeftChannel_def Let_def mgr_inv_def split: option.splits)

text \<open>An operation on a channel is admissible when it is a command or leaves the channel alone.\<close>

definition chan_op :: "(Channel \<Rightarrow> chan_outcome) \<Rightarrow> bool" where
  "chan_op op \<longleftrightarrow> (\<forall>c. fst (op c) = c \<or> chan_step c (fst (op c)))"

lemma chan_op_run: "(\<And>c. op c = run_chan env pl cmd c) \<Longrightarrow> chan_op op"
  by (metis chan_op_def step prod.collapse)

lemma chan_op_quiet: "(\<And>c. fst (op c) = c) \<Longrightarrow> chan_op op"
  by (simp add: chan_op_def)

lemma call_channel_keeps:
  assumes "chan_op op" "mgr_inv m"
  shows "mgr_inv (fst (call_channel key op m))"
proof (cases "map_of (mgr_channels m) key")
  case (Some c)
  then have r: "reachable chan_init chan_step c" using assms(2) by (simp add: mgr_inv_def)
  then have "reachable chan_init chan_step (fst (op c))"
    using assms(1) reach_step [OF r] unfolding chan_op_def by metis
  with Some assms(2) show ?thesis by (simp add: call_channel_def split_beta mgr_inv_put)
qed (simp add: call_channel_def assms)

lemma on_channel_keeps:
  assumes "chan_op op" "world_inv w"
  shows "world_inv (fst (on_channel he pl n op w))"
  using assms world_inv_mgr [OF assms(2)] call_channel_keeps [OF assms(1)]
  by (auto simp: on_channel_def split_beta Let_def intro!: world_inv_set_mgr split: option.splits)

section \<open>The contract of a packet handler\<close>

definition read_fault :: "'a bb_result \<Rightarrow> bool" where
  "read_fault r \<longleftrightarrow> \<not> bb_safe r"

locale channel_handler =
  fixes h :: "handler_env \<Rightarrow> player \<Rightarrow> ByteBuffer \<Rightarrow> channel_world \<Rightarrow> handler_outcome"
  assumes memory_safe: "bb_wf b \<Longrightarrow> \<not> read_fault (h he pl b w)"
    and keeps_world: "bb_wf b \<Longrightarrow> world_inv w \<Longrightarrow> h he pl b w = Inr (w', out) \<Longrightarrow> world_inv w'"

text \<open>Reading one operand and going on.\<close>

definition handler_safe :: "channel_world \<Rightarrow> handler_outcome \<Rightarrow> bool" where
  "handler_safe w r \<longleftrightarrow> \<not> read_fault r \<and> (world_inv w \<longrightarrow> (\<forall>w' out. r = Inr (w', out) \<longrightarrow> world_inv w'))"

lemma handler_safe_read:
  assumes "safe_reader rd" "bb_wf b" "\<And>x b'. bb_wf b' \<Longrightarrow> handler_safe w (f (x, b'))"
  shows "handler_safe w (bindE (rd b) f)"
proof (cases "rd b")
  case (Inl e)
  then show ?thesis using safe_reader.no_fault [OF assms(1,2)] by (auto simp: handler_safe_def read_fault_def)
next
  case (Inr y)
  obtain x b' where y: "y = (x, b')" by (cases y)
  have "bb_wf b'" using safe_reader.keeps [OF assms(1,2)] Inr y by (auto simp: keeps_buffer_def)
  with assms(3) Inr y show ?thesis by simp
qed

lemma handler_safe_done: "(world_inv w \<Longrightarrow> world_inv (fst r)) \<Longrightarrow> handler_safe w (Inr r)"
  by (cases r) (auto simp: handler_safe_def read_fault_def)

lemma handler_safe_case:
  "(x = None \<Longrightarrow> handler_safe w a) \<Longrightarrow> (\<And>y. x = Some y \<Longrightarrow> handler_safe w (f y)) \<Longrightarrow>
   handler_safe w (case x of None \<Rightarrow> a | Some y \<Rightarrow> f y)"
  by (cases x) auto

lemma channel_handlerI:
  assumes "\<And>he pl b w. bb_wf b \<Longrightarrow> handler_safe w (h he pl b w)"
  shows "channel_handler h"
  using assms unfolding handler_safe_def by unfold_locales blast+

lemmas readers = r8.safe_reader_axioms r32.safe_reader_axioms rstr.safe_reader_axioms

lemma named_handler_safe: "chan_op op \<Longrightarrow> bb_wf b \<Longrightarrow> handler_safe w (named_handler op he pl b w)"
  unfolding named_handler_def
  by (rule handler_safe_read [OF rstr.safe_reader_axioms], assumption)
    (auto intro!: handler_safe_done on_channel_keeps)

lemma target_handler_safe:
  assumes "\<And>n. chan_op (op n)" "bb_wf b"
  shows "handler_safe w (target_handler op he pl b w)"
  unfolding target_handler_def
  using assms
  by (auto intro!: handler_safe_read [OF rstr.safe_reader_axioms] handler_safe_case handler_safe_done on_channel_keeps
      split: prod.splits)

lemma named_channel_handler:
  "(\<And>he pl. chan_op (op he pl)) \<Longrightarrow> channel_handler (\<lambda>he pl. named_handler (op he pl) he pl)"
  by (rule channel_handlerI) (rule named_handler_safe)

lemma target_channel_handler:
  "(\<And>he pl n. chan_op (op he pl n)) \<Longrightarrow> channel_handler (\<lambda>he pl. target_handler (op he pl) he pl)"
  by (rule channel_handlerI) (rule target_handler_safe)

lemma HandleJoinChannel_safe: "bb_wf b \<Longrightarrow> handler_safe w (HandleJoinChannel he pl b w)"
proof -
  have join: "chan_op (Channel_JoinChannel env pl pw)" for env pw
    by (rule chan_op_run [where cmd = "Join pw"]) simp
  have keeps: "world_inv w \<Longrightarrow> world_inv (set_mgr s (fst (call_channel (fst r) (Channel_JoinChannel (he_env he) pl pw)
      (fst (snd r)))) w)" if "r = GetJoinChannel he n i (setTeam (pl_team pl) (mgr_of s w))" for s r n i pw
    unfolding that using world_inv_mgr [of w s] join
    by (intro world_inv_set_mgr call_channel_keeps GetJoinChannel_keeps) simp_all
  assume "bb_wf b"
  then show ?thesis
    unfolding HandleJoinChannel_def Let_def split_beta
    by (auto simp: keeps intro!: handler_safe_read readers handler_safe_done split: option.splits)
qed

lemma HandleLeaveChannel_safe: "bb_wf b \<Longrightarrow> handler_safe w (HandleLeaveChannel he pl b w)"
proof -
  have leave: "chan_op (Channel_LeaveChannel env pl True)" for env
    by (rule chan_op_run [where cmd = "Leave True"]) simp
  have left: "world_inv w \<Longrightarrow> world_inv (set_mgr s (ChannelMgr_LeftChannel he n (mgr_of s w)) w)" for s n
    using world_inv_mgr [of w s] by (intro world_inv_set_mgr LeftChannel_keeps)
  have gone: "world_inv w \<Longrightarrow> world_inv (set_mgr s (ChannelMgr_LeftChannel he n (fst (call_channel key
      (Channel_LeaveChannel (he_env he) pl True) (mgr_of s w)))) w)" for s key n
    using world_inv_mgr [of w s] leave by (intro world_inv_set_mgr LeftChannel_keeps call_channel_keeps)
  assume "bb_wf b"
  then show ?thesis
    unfolding HandleLeaveChannel_def Let_def split_beta
    by (auto simp: left gone intro!: handler_safe_read readers handler_safe_done split: option.splits)
qed

interpretation h_join: channel_handler HandleJoinChannel
  by (rule channel_handlerI) (rule HandleJoinChannel_safe)

interpretation h_leave: channel_handler HandleLeaveChannel
  by (rule channel_handlerI) (rule HandleLeaveChannel_safe)

interpretation h_list: channel_handler HandleChannelList
  unfolding HandleChannelList_def by (rule named_channel_handler) (rule chan_op_quiet, simp)

interpretation h_password: channel_handler HandleChannelPassword
proof (rule channel_handlerI)
  fix he :: handler_env and pl b w assume "bb_wf b"
  moreover have "chan_op (Channel_Password (he_env he) p pl)" for p
    by (rule chan_op_run [where cmd = "Password p"]) simp
  ultimately show "handler_safe w (HandleChannelPassword he pl b w)"
    unfolding HandleChannelPassword_def split_beta
    by (auto intro!: handler_safe_read readers handler_safe_done on_channel_keeps)
qed

interpretation h_set_owner: channel_handler HandleChannelSetOwner
  unfolding HandleChannelSetOwner_def
  by (rule target_channel_handler, rule chan_op_run [where cmd = "SetOwner _"]) simp

interpretation h_owner: channel_handler HandleChannelOwner
  unfolding HandleChannelOwner_def by (rule named_channel_handler) (rule chan_op_quiet, simp)

interpretation h_moderator: channel_handler HandleChannelModerator
  unfolding HandleChannelModerator_def
  by (rule target_channel_handler, rule chan_op_run [where cmd = "SetModerator _"]) simp

interpretation h_unmoderator: channel_handler HandleChannelUnmoderator
  unfolding HandleChannelUnmoderator_def
  by (rule target_channel_handler, rule chan_op_run [where cmd = "UnsetModerator _"]) simp

interpretation h_mute: channel_handler HandleChannelMute
  unfolding HandleChannelMute_def
  by (rule target_channel_handler, rule chan_op_run [where cmd = "SetMute _"]) simp

interpretation h_unmute: channel_handler HandleChannelUnmute
  unfolding HandleChannelUnmute_def
  by (rule target_channel_handler, rule chan_op_run [where cmd = "UnsetMute _"]) simp

interpretation h_invite: channel_handler HandleChannelInvite
  unfolding HandleChannelInvite_def by (rule target_channel_handler) (rule chan_op_quiet, simp)

interpretation h_kick: channel_handler HandleChannelKick
  unfolding HandleChannelKick_def
  by (rule target_channel_handler, rule chan_op_run [where cmd = "Kick _"]) simp

interpretation h_ban: channel_handler HandleChannelBan
  unfolding HandleChannelBan_def
  by (rule target_channel_handler, rule chan_op_run [where cmd = "Ban _"]) simp

interpretation h_unban: channel_handler HandleChannelUnban
  unfolding HandleChannelUnban_def
  by (rule target_channel_handler, rule chan_op_run [where cmd = "UnBan _"]) simp

interpretation h_announcements: channel_handler HandleChannelAnnouncements
  unfolding HandleChannelAnnouncements_def
  by (rule named_channel_handler, rule chan_op_run [where cmd = Announce]) simp

interpretation h_display_list: channel_handler HandleChannelDisplayListQuery
  unfolding HandleChannelDisplayListQuery_def by (rule h_list.channel_handler_axioms)

interpretation h_member_count: channel_handler HandleGetChannelMemberCount
  unfolding HandleGetChannelMemberCount_def by (rule named_channel_handler) (rule chan_op_quiet, simp)

interpretation h_watch: channel_handler HandleSetChannelWatch
  by (rule channel_handlerI)
    (auto simp: HandleSetChannelWatch_def intro!: handler_safe_read readers handler_safe_done)

lemmas handlers = h_join.channel_handler_axioms h_leave.channel_handler_axioms h_list.channel_handler_axioms
  h_password.channel_handler_axioms h_set_owner.channel_handler_axioms h_owner.channel_handler_axioms
  h_moderator.channel_handler_axioms h_unmoderator.channel_handler_axioms h_mute.channel_handler_axioms
  h_unmute.channel_handler_axioms h_invite.channel_handler_axioms h_kick.channel_handler_axioms
  h_ban.channel_handler_axioms h_unban.channel_handler_axioms h_announcements.channel_handler_axioms
  h_display_list.channel_handler_axioms h_member_count.channel_handler_axioms h_watch.channel_handler_axioms

lemma handle_is_handler: "channel_handler (handle opc)"
  by (cases opc) (simp_all add: handlers)

section \<open>The managers over time\<close>

definition world_init :: "channel_world \<Rightarrow> bool" where
  "world_init w \<longleftrightarrow> w = \<lparr>cw_alliance = ChannelMgr_new, cw_horde = ChannelMgr_new\<rparr>"

inductive world_step :: "channel_world \<Rightarrow> channel_world \<Rightarrow> bool" where
  packet: "bb_wf b \<Longrightarrow> handle opc he pl b w = Inr (w', out) \<Longrightarrow> world_step w w'"

inductive_cases world_stepE: "world_step w w'"

interpretation world: invariant_system world_init world_step world_inv
proof
  fix w assume "world_init w"
  then show "world_inv w" by (simp add: world_init_def world_inv_def mgr_inv_def ChannelMgr_new_def)
next
  fix w w' assume "world_inv w" "world_step w w'"
  then show "world_inv w'" by (auto elim!: world_stepE intro: channel_handler.keeps_world [OF handle_is_handler])
qed

lemma GetNumPlayers_zero: "length (playersStore c) < 2 ^ 32 \<Longrightarrow> GetNumPlayers c = 0 \<longleftrightarrow> playersStore c = []"
  by (auto simp: GetNumPlayers_def word_of_nat_eq_0_iff dest: dvd_imp_le)

lemma mgr_of_set_mgr [simp]: "mgr_of s (set_mgr s m w) = m"
  by (cases s) simp_all

section \<open>Properties\<close>

definition demo_he :: handler_env where
  "demo_he = \<lparr>he_env = demo_env, he_wname = (\<lambda>n. n), he_normalizePlayerName = Some,
     he_zone_flags = (\<lambda>_. None), he_CHANNEL_ON_CITY_ONLY_FLAG = False, he_GuildId = (\<lambda>_. 0)\<rparr>"

definition demo_world :: channel_world where
  "demo_world = \<lparr>cw_alliance = ChannelMgr_new, cw_horde = ChannelMgr_new\<rparr>"

text \<open>The packet with which Ann joins channel \<^verbatim>\<open>c\<close>: id, two unknown bytes, name, password.\<close>

definition demo_join :: ByteBuffer where
  "demo_join = \<lparr>bb_rpos = 0, bb_wpos = 9, bb_storage = [0, 0, 0, 0, 0, 0, 99, 0, 0]\<rparr>"

definition demo_leave :: ByteBuffer where
  "demo_leave = \<lparr>bb_rpos = 0, bb_wpos = 6, bb_storage = [0, 0, 0, 0, 99, 0]\<rparr>"

definition demo_joined :: channel_world where
  "demo_joined = (case handle CMSG_JOIN_CHANNEL demo_he (demo_player 10 ''Ann'') demo_join demo_world of
     Inr (w, out) \<Rightarrow> w | Inl e \<Rightarrow> demo_world)"

definition demo_used :: channel_world where
  "demo_used = demo_world\<lparr>cw_alliance := \<lparr>mgr_channels = [(''c'', demo_chan)], mgr_team = 469\<rparr>\<rparr>"

lemma demo_wf [simp]: "bb_wf demo_join" "bb_wf demo_leave"
  by (simp_all add: demo_join_def demo_leave_def bb_wf_def)

lemma demo_joined_reachable: "reachable world_init world_step demo_joined"
proof -
  have 0: "reachable world_init world_step demo_world"
    by (rule reach_init) (simp add: world_init_def demo_world_def)
  show ?thesis
  proof (cases "handle CMSG_JOIN_CHANNEL demo_he (demo_player 10 ''Ann'') demo_join demo_world")
    case (Inl e)
    then show ?thesis using 0 by (simp add: demo_joined_def)
  next
    case (Inr r)
    obtain w out where r: "r = (w, out)" by (cases r)
    have "world_step demo_world demo_joined"
      using Inr r by (intro packet [of demo_join CMSG_JOIN_CHANNEL demo_he "demo_player 10 ''Ann''" _ _ out])
        (simp_all add: demo_joined_def)
    with 0 show ?thesis by (rule reach_step)
  qed
qed

text \<open>
  C5.  Whatever bytes clients send to the eighteen channel handlers, in whatever order: the only failure
  of a handler is the position exception, so that it never reads outside the packet, and in every channel of both managers at most the player recorded as
  owner carries the owner flag.
\<close>

theorem client_packets_safe:
  assumes "reachable world_init world_step w" "bb_wf b"
  shows "(\<forall>e. handle opc he pl b w = Inl e \<longrightarrow> is_PositionException e)
    \<and> (\<forall>s k c g. map_of (mgr_channels (mgr_of s w)) k = Some c \<and> IsOn c g \<and> PlayerInfo_IsOwner (member c g)
         \<longrightarrow> g = ch_ownerGUID c)"
proof -
  have "\<not> read_fault (handle opc he pl b w)"
    by (rule channel_handler.memory_safe [OF handle_is_handler assms(2)])
  moreover have "chan_inv c" if "map_of (mgr_channels (mgr_of s w)) k = Some c" for s k c
    using that world_inv_mgr [OF world.reachable_inv [OF assms(1)], of s] chan.reachable_inv
    by (auto simp: mgr_inv_def)
  ultimately show ?thesis
    using chan_inv_owner by (fastforce simp: read_fault_def bb_safe_def IsOn_def member_some)
qed

theorem client_packets_safe_witness:
  "handle CMSG_CHANNEL_BAN demo_he (demo_player 10 ''Ann'') demo_leave demo_joined \<noteq> Inl OutOfBounds"
  using client_packets_safe [OF demo_joined_reachable demo_wf(2)] by fastforce

text \<open>
  Leaving cleans up: after \<^verbatim>\<open>HandleLeaveChannel\<close> the named channel, if it still exists, is a
  built-in one or has members (as long as the member count fits its 32 bits).
\<close>

theorem leave_removes_empty_channel:
  assumes "HandleLeaveChannel he pl b w = Inr (w', out)"
    and "bb_read b = Inr (unk :: uint32, b1)" "bb_read_string b1 = Inr (n, b2)" "n \<noteq> []"
    and "forTeam (he_env he) (pl_team pl) = Some s"
    and "map_of (mgr_channels (mgr_of s w')) (he_wname he n) = Some c" "length (playersStore c) < 2 ^ 32"
  shows "IsConstant c \<or> playersStore c \<noteq> []"
proof -
  from assms(1-5) obtain m where w': "mgr_of s w' = ChannelMgr_LeftChannel he n m"
    by (auto simp: HandleLeaveChannel_def Let_def split_beta)
  from assms(6) GetNumPlayers_zero [OF assms(7)] show ?thesis
    by (auto simp: w' ChannelMgr_LeftChannel_def Let_def split: option.splits if_splits)
qed

theorem leave_removes_empty_channel_witness:
  "\<exists>c. map_of (mgr_channels (cw_alliance (fst (projr (HandleLeaveChannel demo_he (demo_player 10 ''Ann'') demo_leave
        demo_used))))) ''c'' = Some c \<and> (IsConstant c \<or> playersStore c \<noteq> [])"
proof -
  let ?ann = "demo_player 10 ''Ann''"
  define c' where "c' = fst (Channel_LeaveChannel demo_env ?ann True demo_chan)"
  have "LENGTH(32) div 8 = Suc (Suc (Suc (Suc 0)))" by simp
  then have enc: "word_enc (0 :: uint32) = [0, 0, 0, 0]" "string_enc ''c'' = [99, 0]"
    by (simp_all only: word_enc_def string_enc_def) (simp_all add: byte_of_char_def)
  have read: "bb_read demo_leave = Inr (0 :: uint32, advance 4 demo_leave)"
    "bb_read_string (advance 4 demo_leave) = Inr (''c'', advance 2 (advance 4 demo_leave))"
    using u32c.rd_ok [where x = 0 and b = demo_leave and rest = "[99, 0]"]
      strc.rd_ok [where x = "''c''" and b = "advance 4 demo_leave" and rest = "[]"]
    by (simp_all add: enc bb_wf_def demo_leave_def)
  have team: "forTeam (he_env demo_he) (pl_team ?ann) = Some AllianceSide" by code_simp
  have num: "GetNumPlayers c' \<noteq> 0" "length (playersStore c') = 1" unfolding c'_def by code_simp+
  have env: "he_env demo_he = demo_env" "he_wname demo_he ''c'' = ''c''" by (simp_all add: demo_he_def)
  obtain out where r: "HandleLeaveChannel demo_he ?ann demo_leave demo_used
      = Inr (demo_used\<lparr>cw_alliance := \<lparr>mgr_channels = [(''c'', c')], mgr_team = 469\<rparr>\<rparr>, out)"
    using read team num(1)
    by (simp add: HandleLeaveChannel_def GetChannel_def call_channel_def ChannelMgr_LeftChannel_def
        demo_used_def env split_beta Let_def c'_def)
  have "IsConstant c' \<or> playersStore c' \<noteq> []"
    by (rule leave_removes_empty_channel [OF r read _ team]) (simp_all add: env num(2))
  with r show ?thesis by simp
qed

text \<open>
  Names that fold to the same wide string are the same channel: once a name has been looked
  up for joining, looking up any equivalent name returns the same channel and creates nothing.
\<close>

theorem join_lookup_idempotent:
  assumes "GetJoinChannel he n i m = (key, m', out)" "he_wname he n' = he_wname he n"
  shows "GetJoinChannel he n' i' m' = (key, m', []) \<and> map_of (mgr_channels m') key \<noteq> None"
  using assms by (auto simp: GetJoinChannel_def Let_def split_beta split: option.splits)

theorem join_lookup_idempotent_witness:
  "\<exists>key m' out. GetJoinChannel demo_he ''c'' 0 ChannelMgr_new = (key, m', out)
     \<and> GetJoinChannel demo_he ''c'' 7 m' = (key, m', [])"
proof -
  obtain key m' out where g: "GetJoinChannel demo_he ''c'' 0 ChannelMgr_new = (key, m', out)"
    by (metis prod_cases3)
  from join_lookup_idempotent [OF g refl, of 7] g show ?thesis by blast
qed

end
