(* ===== verification/Reputation.thy ===== *)
theory Reputation
  imports WorldPacket
begin

text \<open>
  Reputation: \<^verbatim>\<open>game/Reputation/ReputationMgr.{h,cpp}\<close>.

  The manager keeps a \<^verbatim>\<open>std::map\<close> from reputation list id to \<^verbatim>\<open>FactionState\<close>, the forced
  reactions, four 8-bit counters and a flag.  A \<^verbatim>\<open>FactionState*\<close> is the key of the entry.
  The DBC faction store, the spillover templates, the player's masks, the configured rate and
  the script hook are the argument \<open>env\<close>.  Standings are \<^verbatim>\<open>int32\<close> in the code and
  integers here: signed overflow and the conversion of an out-of-range \<^verbatim>\<open>float\<close> are undefined
  in C++, and every stored standing lies between the bottom and the cap.  \<^verbatim>\<open>float\<close> arithmetic
  is exact arithmetic on rationals followed by the rounding \<open>re_rnd\<close>, an argument.
\<close>

section \<open>Ranks\<close>

datatype ReputationRank =
    REP_HATED | REP_HOSTILE | REP_UNFRIENDLY | REP_NEUTRAL
  | REP_FRIENDLY | REP_HONORED | REP_REVERED | REP_EXALTED

fun rank_nat :: "ReputationRank \<Rightarrow> nat" where
  "rank_nat REP_HATED = 0"
| "rank_nat REP_HOSTILE = 1"
| "rank_nat REP_UNFRIENDLY = 2"
| "rank_nat REP_NEUTRAL = 3"
| "rank_nat REP_FRIENDLY = 4"
| "rank_nat REP_HONORED = 5"
| "rank_nat REP_REVERED = 6"
| "rank_nat REP_EXALTED = 7"

lemma rank_nat_inj: "rank_nat a = rank_nat b \<Longrightarrow> a = b"
  by (cases a; cases b) simp_all

instantiation ReputationRank :: linorder
begin

definition less_eq_ReputationRank :: "ReputationRank \<Rightarrow> ReputationRank \<Rightarrow> bool" where
  "less_eq_ReputationRank a b \<longleftrightarrow> rank_nat a \<le> rank_nat b"

definition less_ReputationRank :: "ReputationRank \<Rightarrow> ReputationRank \<Rightarrow> bool" where
  "less_ReputationRank a b \<longleftrightarrow> rank_nat a < rank_nat b"

instance
  by standard (auto simp: less_eq_ReputationRank_def less_ReputationRank_def intro: rank_nat_inj)

end

definition rank_of_nat :: "nat \<Rightarrow> ReputationRank" where
  "rank_of_nat i = [REP_HATED, REP_HOSTILE, REP_UNFRIENDLY, REP_NEUTRAL,
     REP_FRIENDLY, REP_HONORED, REP_REVERED, REP_EXALTED] ! i"

definition PointsInRank :: "int list" where
  "PointsInRank = [36000, 3000, 3000, 3000, 6000, 12000, 21000, 1000]"

abbreviation Reputation_Cap :: int where "Reputation_Cap \<equiv> 42999"
abbreviation Reputation_Bottom :: int where "Reputation_Bottom \<equiv> -42000"

fun rank_loop :: "nat \<Rightarrow> int \<Rightarrow> int \<Rightarrow> ReputationRank" where
  "rank_loop 0 limit standing = REP_HATED"
| "rank_loop (Suc i) limit standing =
     (let limit = limit - PointsInRank ! i
      in if standing \<ge> limit then rank_of_nat i else rank_loop i limit standing)"

definition ReputationToRank :: "int \<Rightarrow> ReputationRank" where
  "ReputationToRank standing = rank_loop 8 (Reputation_Cap + 1) standing"

section \<open>Data\<close>

record FactionEntry =
  fe_ID :: uint32
  fe_reputationListID :: int
  fe_BaseRepRaceMask :: "nat \<Rightarrow> uint32"
  fe_BaseRepClassMask :: "nat \<Rightarrow> uint32"
  fe_BaseRepValue :: "nat \<Rightarrow> int"
  fe_ReputationFlags :: "nat \<Rightarrow> uint32"
  fe_team :: uint32
  fe_spilloverRateIn :: rat
  fe_spilloverRateOut :: rat
  fe_spilloverMaxRankIn :: uint32

record RepSpilloverTemplate =
  rs_faction :: "nat \<Rightarrow> uint32"
  rs_faction_rate :: "nat \<Rightarrow> rat"
  rs_faction_rank :: "nat \<Rightarrow> uint32"

record rep_env =
  re_faction :: "uint32 \<Rightarrow> FactionEntry option"
  re_numRows :: nat
  re_raceMask :: uint32
  re_classMask :: uint32
  re_rate :: rat
  re_rnd :: "rat \<Rightarrow> rat"
  re_spillover :: "uint32 \<Rightarrow> RepSpilloverTemplate option"
  re_teamList :: "uint32 \<Rightarrow> uint32 list option"
  re_hook :: "uint32 \<Rightarrow> int \<Rightarrow> bool \<Rightarrow> int"
  re_loading :: bool
  re_guidLow :: uint32

abbreviation FACTION_FLAG_VISIBLE :: uint8 where "FACTION_FLAG_VISIBLE \<equiv> 0x01"
abbreviation FACTION_FLAG_AT_WAR :: uint8 where "FACTION_FLAG_AT_WAR \<equiv> 0x02"
abbreviation FACTION_FLAG_HIDDEN :: uint8 where "FACTION_FLAG_HIDDEN \<equiv> 0x04"
abbreviation FACTION_FLAG_INVISIBLE_FORCED :: uint8 where "FACTION_FLAG_INVISIBLE_FORCED \<equiv> 0x08"
abbreviation FACTION_FLAG_PEACE_FORCED :: uint8 where "FACTION_FLAG_PEACE_FORCED \<equiv> 0x10"
abbreviation FACTION_FLAG_INACTIVE :: uint8 where "FACTION_FLAG_INACTIVE \<equiv> 0x20"
abbreviation FACTION_FLAG_SPECIAL :: uint8 where "FACTION_FLAG_SPECIAL \<equiv> 0x80"

record FactionState =
  fs_ID :: uint32
  fs_ReputationListID :: uint32
  fs_Standing :: int
  fs_Flags :: uint8
  fs_needSend :: bool
  fs_needSave :: bool

definition FactionState0 :: FactionState where
  "FactionState0 = \<lparr>fs_ID = 0, fs_ReputationListID = 0, fs_Standing = 0, fs_Flags = 0,
     fs_needSend = False, fs_needSave = False\<rparr>"

record ReputationMgr =
  rm_factions :: "(uint32, FactionState) smap"
  rm_forcedReactions :: "(uint32, ReputationRank) smap"
  rm_visible :: uint8
  rm_honored :: uint8
  rm_revered :: uint8
  rm_exalted :: uint8
  rm_sendFactionIncreased :: bool

datatype rep_effect =
    SendDirectMessage packet
  | ReputationChanged uint32
  | UpdateAchievementCriteria nat uint32
  | OnPlayerReputationChange uint32 int bool
  | CHAR_DEL_CHAR_REPUTATION_BY_FACTION uint32 uint16
  | CHAR_INS_CHAR_REPUTATION_BY_FACTION uint32 uint16 int uint16

type_synonym rep_outcome = "ReputationMgr \<times> rep_effect list"

section \<open>Accessors\<close>

definition CanHaveReputation :: "FactionEntry \<Rightarrow> bool" where
  "CanHaveReputation fe \<longleftrightarrow> fe_reputationListID fe \<ge> 0"

text \<open>The key under which \<^verbatim>\<open>_factions.find(factionEntry->reputationListID)\<close> looks.\<close>

definition rep_key :: "FactionEntry \<Rightarrow> uint32" where
  "rep_key fe = word_of_int (fe_reputationListID fe)"

definition GetState :: "FactionEntry \<Rightarrow> ReputationMgr \<Rightarrow> FactionState option" where
  "GetState fe m = (if CanHaveReputation fe then map_of (rm_factions m) (rep_key fe) else None)"

definition IsAtWar :: "rep_env \<Rightarrow> uint32 \<Rightarrow> ReputationMgr \<Rightarrow> bool" where
  "IsAtWar env faction_id m =
     (case re_faction env faction_id of
        None \<Rightarrow> False
      | Some fe \<Rightarrow> (case GetState fe m of None \<Rightarrow> False | Some st \<Rightarrow> has_flag (fs_Flags st) FACTION_FLAG_AT_WAR))"

text \<open>The first of the four base entries whose masks match the player.\<close>

definition base_slot :: "rep_env \<Rightarrow> FactionEntry \<Rightarrow> nat option" where
  "base_slot env fe = List.find (\<lambda>i.
     (fe_BaseRepRaceMask fe i AND re_raceMask env \<noteq> 0
      \<or> (fe_BaseRepRaceMask fe i = 0 \<and> fe_BaseRepClassMask fe i \<noteq> 0))
     \<and> (fe_BaseRepClassMask fe i AND re_classMask env \<noteq> 0 \<or> fe_BaseRepClassMask fe i = 0)) [0, 1, 2, 3]"

definition GetBaseReputation :: "rep_env \<Rightarrow> FactionEntry \<Rightarrow> int" where
  "GetBaseReputation env fe = (case base_slot env fe of None \<Rightarrow> 0 | Some i \<Rightarrow> fe_BaseRepValue fe i)"

definition GetDefaultStateFlags :: "rep_env \<Rightarrow> FactionEntry \<Rightarrow> uint32" where
  "GetDefaultStateFlags env fe = (case base_slot env fe of None \<Rightarrow> 0 | Some i \<Rightarrow> fe_ReputationFlags fe i)"

definition GetReputation :: "rep_env \<Rightarrow> FactionEntry option \<Rightarrow> ReputationMgr \<Rightarrow> int" where
  "GetReputation env fe m =
     (case fe of
        None \<Rightarrow> 0
      | Some fe \<Rightarrow> (case GetState fe m of None \<Rightarrow> 0 | Some st \<Rightarrow> GetBaseReputation env fe + fs_Standing st))"

definition GetRank :: "rep_env \<Rightarrow> FactionEntry option \<Rightarrow> ReputationMgr \<Rightarrow> ReputationRank" where
  "GetRank env fe m = ReputationToRank (GetReputation env fe m)"

definition GetBaseRank :: "rep_env \<Rightarrow> FactionEntry \<Rightarrow> ReputationRank" where
  "GetBaseRank env fe = ReputationToRank (GetBaseReputation env fe)"

definition Player_GetReputationRank :: "rep_env \<Rightarrow> uint32 \<Rightarrow> ReputationMgr \<Rightarrow> ReputationRank" where
  "Player_GetReputationRank env faction m = GetRank env (re_faction env faction) m"

definition GetForcedRankIfAny :: "uint32 \<Rightarrow> ReputationMgr \<Rightarrow> ReputationRank option" where
  "GetForcedRankIfAny faction m = map_of (rm_forcedReactions m) faction"

definition ApplyForceReaction :: "uint32 \<Rightarrow> ReputationRank \<Rightarrow> bool \<Rightarrow> ReputationMgr \<Rightarrow> ReputationMgr" where
  "ApplyForceReaction faction_id rank on m =
     (if on then m\<lparr>rm_forcedReactions := map_put faction_id rank (rm_forcedReactions m)\<rparr>
      else m\<lparr>rm_forcedReactions := map_erase faction_id (rm_forcedReactions m)\<rparr>)"

section \<open>Packets to the client\<close>

abbreviation SMSG_INITIALIZE_FACTIONS :: uint16 where "SMSG_INITIALIZE_FACTIONS \<equiv> 0x122"
abbreviation SMSG_SET_FACTION_VISIBLE :: uint16 where "SMSG_SET_FACTION_VISIBLE \<equiv> 0x123"
abbreviation SMSG_SET_FACTION_STANDING :: uint16 where "SMSG_SET_FACTION_STANDING \<equiv> 0x124"
abbreviation SMSG_SET_FORCED_REACTIONS :: uint16 where "SMSG_SET_FORCED_REACTIONS \<equiv> 0x2A5"

definition SendForceReactions :: "ReputationMgr \<Rightarrow> rep_effect list" where
  "SendForceReactions m =
     [SendDirectMessage (pkt SMSG_SET_FORCED_REACTIONS
        (FU32 (word_of_nat (length (rm_forcedReactions m)))
         # concat (map (\<lambda>(f, r). [FU32 f, FU32 (word_of_nat (rank_nat r))]) (rm_forcedReactions m))))]"

text \<open>
  \<^verbatim>\<open>SendState\<close>: the loop clears every pending flag and appends the pending factions other than
  the given one; the count, operand 2 of the packet, is patched at the end.
\<close>

fun send_state_loop ::
    "uint32 \<Rightarrow> (uint32, FactionState) smap \<Rightarrow> field list \<Rightarrow> uint32 \<Rightarrow>
     (uint32, FactionState) smap \<times> field list \<times> uint32" where
  "send_state_loop listId [] fs count = ([], fs, count)"
| "send_state_loop listId ((k, st) # rest) fs count =
     (if fs_needSend st
      then let (fs', count') =
                 (if fs_ReputationListID st \<noteq> listId
                  then (fs @ [FU32 (fs_ReputationListID st), FU32 (word_of_int (fs_Standing st))], count + 1)
                  else (fs, count));
               (rest', fs'', count'') = send_state_loop listId rest fs' count'
           in ((k, st\<lparr>fs_needSend := False\<rparr>) # rest', fs'', count'')
      else let (rest', fs'', count'') = send_state_loop listId rest fs count
           in ((k, st) # rest', fs'', count''))"

definition SendState :: "FactionState \<Rightarrow> ReputationMgr \<Rightarrow> rep_outcome" where
  "SendState faction m =
     (let count = 1;
          fs = [FU32 0, FU8 (if rm_sendFactionIncreased m then 1 else 0), FU32 count,
                FU32 (fs_ReputationListID faction), FU32 (word_of_int (fs_Standing faction))];
          m = m\<lparr>rm_sendFactionIncreased := False\<rparr>;
          (factions, fs, count) = send_state_loop (fs_ReputationListID faction) (rm_factions m) fs count;
          fs = fs[2 := FU32 count]
      in (m\<lparr>rm_factions := factions\<rparr>, [SendDirectMessage (pkt SMSG_SET_FACTION_STANDING fs)]))"

text \<open>\<^verbatim>\<open>for (; a != b; ++a)\<close> on unsigned 32-bit integers, writing an absent field each time.\<close>

function fill_absent :: "uint32 \<Rightarrow> uint32 \<Rightarrow> field list" where
  "fill_absent a b = (if a = b then [] else FU8 0 # FU32 0 # fill_absent (a + 1) b)"
  by pat_completeness auto

termination
proof (relation "measure (\<lambda>(a, b). unat (b - a))")
  fix a b :: uint32
  assume "a \<noteq> b"
  then have "b - a \<noteq> 0" by simp
  then have "unat (b - a - 1) < unat (b - a)" by (simp add: unat_minus_one unat_gt_0)
  then show "((a + 1, b), a, b) \<in> measure (\<lambda>(a, b). unat (b - a))" by (simp add: algebra_simps)
qed simp

declare fill_absent.simps [simp del]

fun initial_loop :: "(uint32, FactionState) smap \<Rightarrow> uint32 \<Rightarrow> field list \<times> uint32" where
  "initial_loop [] a = ([], a)"
| "initial_loop ((k, st) # rest) a =
     (let (fs, a') = initial_loop rest (k + 1)
      in (fill_absent a k @ [FU8 (fs_Flags st), FU32 (word_of_int (fs_Standing st))] @ fs, a'))"

definition SendInitialReputations :: "ReputationMgr \<Rightarrow> rep_outcome" where
  "SendInitialReputations m =
     (let count = 128;
          (fs, a) = initial_loop (rm_factions m) 0
      in (m\<lparr>rm_factions := map (\<lambda>(k, st). (k, st\<lparr>fs_needSend := False\<rparr>)) (rm_factions m)\<rparr>,
          [SendDirectMessage (pkt SMSG_INITIALIZE_FACTIONS (FU32 count # fs @ fill_absent a count))]))"

text \<open>\<^verbatim>\<open>SendStates\<close> calls \<^verbatim>\<open>SendState\<close> on every entry, as it is when its turn comes.\<close>

fun send_states_loop :: "uint32 list \<Rightarrow> ReputationMgr \<Rightarrow> rep_outcome" where
  "send_states_loop [] m = (m, [])"
| "send_states_loop (k # ks) m =
     (let (m', out) = SendState (map_at FactionState0 (rm_factions m) k) m;
          (m'', out') = send_states_loop ks m'
      in (m'', out @ out'))"

definition SendStates :: "ReputationMgr \<Rightarrow> rep_outcome" where
  "SendStates m = send_states_loop (map fst (rm_factions m)) m"

definition SendVisible :: "rep_env \<Rightarrow> FactionState \<Rightarrow> rep_effect list" where
  "SendVisible env faction =
     (if re_loading env then []
      else [SendDirectMessage (pkt SMSG_SET_FACTION_VISIBLE [FU32 (fs_ReputationListID faction)])])"

section \<open>Modifiers\<close>

definition UpdateRankCounters :: "ReputationRank \<Rightarrow> ReputationRank \<Rightarrow> ReputationMgr \<Rightarrow> ReputationMgr" where
  "UpdateRankCounters old_rank new_rank m =
     m\<lparr>rm_exalted := rm_exalted m - (if old_rank \<ge> REP_EXALTED then 1 else 0) + (if new_rank \<ge> REP_EXALTED then 1 else 0),
       rm_revered := rm_revered m - (if old_rank \<ge> REP_REVERED then 1 else 0) + (if new_rank \<ge> REP_REVERED then 1 else 0),
       rm_honored := rm_honored m - (if old_rank \<ge> REP_HONORED then 1 else 0) + (if new_rank \<ge> REP_HONORED then 1 else 0)\<rparr>"

definition put_state :: "uint32 \<Rightarrow> FactionState \<Rightarrow> ReputationMgr \<Rightarrow> ReputationMgr" where
  "put_state k st m = m\<lparr>rm_factions := map_put k st (rm_factions m)\<rparr>"

text \<open>The three functions that take a \<^verbatim>\<open>FactionState*\<close>, on the key of the entry.\<close>

definition SetVisible_state :: "rep_env \<Rightarrow> uint32 \<Rightarrow> ReputationMgr \<Rightarrow> rep_outcome" where
  "SetVisible_state env k m =
     (let st = map_at FactionState0 (rm_factions m) k in
      if has_flag (fs_Flags st) (FACTION_FLAG_INVISIBLE_FORCED OR FACTION_FLAG_HIDDEN)
         \<and> \<not> has_flag (fs_Flags st) FACTION_FLAG_SPECIAL then (m, [])
      else if has_flag (fs_Flags st) FACTION_FLAG_VISIBLE then (m, [])
      else let st = st\<lparr>fs_Flags := set_flag (fs_Flags st) FACTION_FLAG_VISIBLE, fs_needSend := True, fs_needSave := True\<rparr>
           in ((put_state k st m)\<lparr>rm_visible := rm_visible m + 1\<rparr>, SendVisible env st))"

definition SetAtWar_state :: "uint32 \<Rightarrow> bool \<Rightarrow> ReputationMgr \<Rightarrow> ReputationMgr" where
  "SetAtWar_state k atWar m =
     (let st = map_at FactionState0 (rm_factions m) k in
      if atWar \<and> has_flag (fs_Flags st) FACTION_FLAG_PEACE_FORCED then m
      else if has_flag (fs_Flags st) FACTION_FLAG_AT_WAR = atWar then m
      else put_state k (st\<lparr>fs_Flags := (if atWar then set_flag (fs_Flags st) FACTION_FLAG_AT_WAR
                                        else clear_flag (fs_Flags st) FACTION_FLAG_AT_WAR),
                           fs_needSend := True, fs_needSave := True\<rparr>) m)"

definition SetInactive_state :: "uint32 \<Rightarrow> bool \<Rightarrow> ReputationMgr \<Rightarrow> ReputationMgr" where
  "SetInactive_state k inactive m =
     (let st = map_at FactionState0 (rm_factions m) k in
      if inactive \<and> (has_flag (fs_Flags st) (FACTION_FLAG_INVISIBLE_FORCED OR FACTION_FLAG_HIDDEN)
                     \<or> \<not> has_flag (fs_Flags st) FACTION_FLAG_VISIBLE) then m
      else if has_flag (fs_Flags st) FACTION_FLAG_INACTIVE = inactive then m
      else put_state k (st\<lparr>fs_Flags := (if inactive then set_flag (fs_Flags st) FACTION_FLAG_INACTIVE
                                        else clear_flag (fs_Flags st) FACTION_FLAG_INACTIVE),
                           fs_needSend := True, fs_needSave := True\<rparr>) m)"

definition SetVisible :: "rep_env \<Rightarrow> FactionEntry \<Rightarrow> ReputationMgr \<Rightarrow> rep_outcome" where
  "SetVisible env fe m =
     (if fe_reputationListID fe < 0 then (m, [])
      else case map_of (rm_factions m) (rep_key fe) of
          None \<Rightarrow> (m, [])
        | Some st \<Rightarrow> SetVisible_state env (rep_key fe) m)"

definition SetVisible_template :: "rep_env \<Rightarrow> uint32 \<Rightarrow> ReputationMgr \<Rightarrow> rep_outcome" where
  "SetVisible_template env faction m =
     (if faction = 0 then (m, [])
      else case re_faction env faction of
          None \<Rightarrow> (m, [])
        | Some fe \<Rightarrow>
            if \<not> (fe_BaseRepRaceMask fe 1 AND re_raceMask env \<noteq> 0 \<and> fe_BaseRepValue fe 1 = Reputation_Bottom)
            then SetVisible env fe m else (m, []))"

definition SetAtWar :: "uint32 \<Rightarrow> bool \<Rightarrow> ReputationMgr \<Rightarrow> ReputationMgr" where
  "SetAtWar repListID on m =
     (case map_of (rm_factions m) repListID of
        None \<Rightarrow> m
      | Some st \<Rightarrow>
          if has_flag (fs_Flags st) (FACTION_FLAG_INVISIBLE_FORCED OR FACTION_FLAG_HIDDEN) then m
          else SetAtWar_state repListID on m)"

definition SetInactive :: "uint32 \<Rightarrow> bool \<Rightarrow> ReputationMgr \<Rightarrow> ReputationMgr" where
  "SetInactive repListID on m =
     (case map_of (rm_factions m) repListID of
        None \<Rightarrow> m
      | Some st \<Rightarrow> SetInactive_state repListID on m)"

definition rat_trunc :: "rat \<Rightarrow> int" where
  "rat_trunc x = (if x < 0 then \<lceil>x\<rceil> else \<lfloor>x\<rfloor>)"

definition SetOneFactionReputation ::
    "rep_env \<Rightarrow> FactionEntry \<Rightarrow> int \<Rightarrow> bool \<Rightarrow> ReputationMgr \<Rightarrow> bool \<times> ReputationMgr \<times> rep_effect list" where
  "SetOneFactionReputation env fe standing incremental m =
     (let k = rep_key fe in
      case map_of (rm_factions m) k of
        None \<Rightarrow> (False, m, [])
      | Some st \<Rightarrow>
          let BaseRep = GetBaseReputation env fe;
              standing = (if incremental
                          then \<lfloor>re_rnd env (re_rnd env (re_rnd env (of_int standing) * re_rate env) + 1 / 2)\<rfloor>
                               + (fs_Standing st + BaseRep)
                          else standing);
              standing = (if standing > Reputation_Cap then Reputation_Cap
                          else if standing < Reputation_Bottom then Reputation_Bottom
                          else standing);
              old_rank = ReputationToRank (fs_Standing st + BaseRep);
              new_rank = ReputationToRank standing;
              m = put_state k (st\<lparr>fs_Standing := standing - BaseRep, fs_needSend := True, fs_needSave := True\<rparr>) m;
              (m, out) = SetVisible_state env k m;
              m = (if new_rank \<le> REP_HOSTILE then SetAtWar_state k True m else m);
              m = (if new_rank > old_rank then m\<lparr>rm_sendFactionIncreased := True\<rparr> else m);
              m = UpdateRankCounters old_rank new_rank m
          in (True, m, out @ [ReputationChanged (fe_ID fe), UpdateAchievementCriteria 89 (fe_ID fe),
                UpdateAchievementCriteria 46 (fe_ID fe), UpdateAchievementCriteria 47 (fe_ID fe),
                UpdateAchievementCriteria 87 (fe_ID fe), UpdateAchievementCriteria 88 (fe_ID fe)]))"

text \<open>
  \<^verbatim>\<open>SetReputation\<close>: spillover by template (a faction id the store does not know is a null
  pointer), to the parent faction, or to the factions of the team list, then the faction itself.
\<close>

datatype rep_error = NullFaction

fun template_spillover ::
    "rep_env \<Rightarrow> RepSpilloverTemplate \<Rightarrow> nat list \<Rightarrow> int \<Rightarrow> bool \<Rightarrow> ReputationMgr \<Rightarrow> rep_error + rep_outcome" where
  "template_spillover env t [] standing incremental m = Inr (m, [])"
| "template_spillover env t (i # is) standing incremental m =
     (if rs_faction t i \<noteq> 0
         \<and> rank_nat (Player_GetReputationRank env (rs_faction t i) m) \<le> unat (rs_faction_rank t i)
      then let spilloverRep = rat_trunc (re_rnd env (re_rnd env (of_int standing) * rs_faction_rate t i))
           in case re_faction env (rs_faction t i) of
               None \<Rightarrow> Inl NullFaction
             | Some fe \<Rightarrow>
                 let (res, m', out) = SetOneFactionReputation env fe spilloverRep incremental m
                 in bindE (template_spillover env t is standing incremental m') (\<lambda>(m'', out'). Inr (m'', out @ out'))
      else template_spillover env t is standing incremental m)"

fun list_spillover ::
    "rep_env \<Rightarrow> FactionEntry \<Rightarrow> uint32 list \<Rightarrow> rat \<Rightarrow> bool \<Rightarrow> bool \<Rightarrow> ReputationMgr \<Rightarrow> bool \<times> ReputationMgr \<times> rep_effect list" where
  "list_spillover env fe [] spillOverRepOut incremental res m = (res, m, [])"
| "list_spillover env fe (f # fs) spillOverRepOut incremental res m =
     (case re_faction env f of
        None \<Rightarrow> list_spillover env fe fs spillOverRepOut incremental res m
      | Some calc \<Rightarrow>
          if fe_ID calc = fe_ID fe \<or> rank_nat (GetRank env (Some calc) m) > unat (fe_spilloverMaxRankIn calc)
          then list_spillover env fe fs spillOverRepOut incremental res m
          else let spilloverRep = rat_trunc (re_rnd env (spillOverRepOut * fe_spilloverRateIn calc))
               in if spilloverRep \<noteq> 0 \<or> \<not> incremental
                  then let (res, m', out) = SetOneFactionReputation env calc spilloverRep incremental m;
                           (res', m'', out') = list_spillover env fe fs spillOverRepOut incremental res m'
                       in (res', m'', out @ out')
                  else list_spillover env fe fs spillOverRepOut incremental res m)"

definition dbc_spillover ::
    "rep_env \<Rightarrow> FactionEntry \<Rightarrow> int \<Rightarrow> bool \<Rightarrow> ReputationMgr \<Rightarrow> bool \<times> ReputationMgr \<times> rep_effect list" where
  "dbc_spillover env fe standing incremental m =
     (let spillOverRepOut = re_rnd env (of_int standing);
          flist = re_teamList env (fe_ID fe);
          (spillOverRepOut, flist, m, out) =
            (if flist = None \<and> fe_team fe \<noteq> 0 \<and> fe_spilloverRateOut fe \<noteq> 0
             then let spillOverRepOut = re_rnd env (spillOverRepOut * fe_spilloverRateOut fe)
                  in case re_faction env (fe_team fe) of
                      None \<Rightarrow> (spillOverRepOut, None, m, [])
                    | Some parent \<Rightarrow>
                        (case map_of (rm_factions m) (rep_key parent) of
                           Some parentState \<Rightarrow>
                             if has_flag (fs_Flags parentState) FACTION_FLAG_SPECIAL
                             then let (res, m, out) = SetOneFactionReputation env parent (rat_trunc spillOverRepOut) incremental m
                                  in (spillOverRepOut, None, m, out)
                             else (spillOverRepOut, re_teamList env (fe_team fe), m, [])
                         | None \<Rightarrow> (spillOverRepOut, re_teamList env (fe_team fe), m, []))
             else (spillOverRepOut, flist, m, []));
          (res, m, out') = (case flist of
              None \<Rightarrow> (False, m, [])
            | Some fs \<Rightarrow> list_spillover env fe fs spillOverRepOut incremental False m)
      in (res, m, out @ out'))"

definition spill_over ::
    "rep_env \<Rightarrow> FactionEntry \<Rightarrow> int \<Rightarrow> bool \<Rightarrow> ReputationMgr \<Rightarrow> rep_error + (bool \<times> ReputationMgr \<times> rep_effect list)" where
  "spill_over env fe standing incremental m =
     (case re_spillover env (fe_ID fe) of
        Some t \<Rightarrow> bindE (template_spillover env t [0, 1, 2, 3] standing incremental m) (\<lambda>(m, out). Inr (False, m, out))
      | None \<Rightarrow> Inr (dbc_spillover env fe standing incremental m))"

definition update_itself ::
    "rep_env \<Rightarrow> FactionEntry \<Rightarrow> int \<Rightarrow> bool \<Rightarrow> bool \<Rightarrow> ReputationMgr \<Rightarrow> bool \<times> ReputationMgr \<times> rep_effect list" where
  "update_itself env fe standing incremental res m =
     (case map_of (rm_factions m) (rep_key fe) of
        None \<Rightarrow> (res, m, [])
      | Some st \<Rightarrow>
          let (res, m, out) = SetOneFactionReputation env fe standing incremental m;
              (m, sent) = SendState (map_at FactionState0 (rm_factions m) (rep_key fe)) m
          in (res, m, out @ sent))"

definition SetReputation ::
    "rep_env \<Rightarrow> FactionEntry \<Rightarrow> int \<Rightarrow> bool \<Rightarrow> ReputationMgr \<Rightarrow> rep_error + (bool \<times> ReputationMgr \<times> rep_effect list)" where
  "SetReputation env fe standing incremental m =
     (let hook = [OnPlayerReputationChange (fe_ID fe) standing incremental];
          standing = re_hook env (fe_ID fe) standing incremental
      in bindE (spill_over env fe standing incremental m) (\<lambda>(res, m, out).
           let (res, m, out') = update_itself env fe standing incremental res m
           in Inr (res, m, hook @ out @ out')))"

section \<open>Initialisation and persistence\<close>

definition init_faction :: "rep_env \<Rightarrow> nat \<Rightarrow> ReputationMgr \<Rightarrow> ReputationMgr" where
  "init_faction env i m =
     (case re_faction env (word_of_nat i) of
        None \<Rightarrow> m
      | Some fe \<Rightarrow>
          if fe_reputationListID fe \<ge> 0
          then let newFaction = \<lparr>fs_ID = fe_ID fe, fs_ReputationListID = rep_key fe, fs_Standing = 0,
                     fs_Flags = ucast (GetDefaultStateFlags env fe), fs_needSend = True, fs_needSave = True\<rparr>;
                   m = (if has_flag (fs_Flags newFaction) FACTION_FLAG_VISIBLE then m\<lparr>rm_visible := rm_visible m + 1\<rparr> else m);
                   m = UpdateRankCounters REP_HOSTILE (GetBaseRank env fe) m
               in put_state (fs_ReputationListID newFaction) newFaction m
          else m)"

definition Reputation_Initialize :: "rep_env \<Rightarrow> ReputationMgr \<Rightarrow> ReputationMgr" where
  "Reputation_Initialize env m =
     fold (init_faction env) [1 ..< re_numRows env]
       (m\<lparr>rm_factions := [], rm_visible := 0, rm_honored := 0, rm_revered := 0, rm_exalted := 0,
          rm_sendFactionIncreased := False\<rparr>)"

text \<open>The steps that bring the flags of a loaded entry into agreement with the row.\<close>

definition row_visible :: "rep_env \<Rightarrow> uint32 \<Rightarrow> uint32 \<Rightarrow> ReputationMgr \<Rightarrow> rep_outcome" where
  "row_visible env k dbFactionFlags m =
     (if has_flag dbFactionFlags (ucast FACTION_FLAG_VISIBLE) then SetVisible_state env k m else (m, []))"

definition row_inactive :: "uint32 \<Rightarrow> uint32 \<Rightarrow> ReputationMgr \<Rightarrow> ReputationMgr" where
  "row_inactive k dbFactionFlags m =
     (if has_flag dbFactionFlags (ucast FACTION_FLAG_INACTIVE) then SetInactive_state k True m else m)"

definition row_at_war :: "uint32 \<Rightarrow> uint32 \<Rightarrow> ReputationMgr \<Rightarrow> ReputationMgr" where
  "row_at_war k dbFactionFlags m =
     (if has_flag dbFactionFlags (ucast FACTION_FLAG_AT_WAR) then SetAtWar_state k True m
      else if has_flag (fs_Flags (map_at FactionState0 (rm_factions m) k)) FACTION_FLAG_VISIBLE
      then SetAtWar_state k False m else m)"

definition row_hostile :: "rep_env \<Rightarrow> FactionEntry \<Rightarrow> uint32 \<Rightarrow> ReputationMgr \<Rightarrow> ReputationMgr" where
  "row_hostile env fe k m = (if GetRank env (Some fe) m \<le> REP_HOSTILE then SetAtWar_state k True m else m)"

definition row_clean :: "uint32 \<Rightarrow> uint32 \<Rightarrow> ReputationMgr \<Rightarrow> ReputationMgr" where
  "row_clean k dbFactionFlags m =
     (let st = map_at FactionState0 (rm_factions m) k
      in if ucast (fs_Flags st) = dbFactionFlags
         then put_state k (st\<lparr>fs_needSend := False, fs_needSave := False\<rparr>) m else m)"

definition load_row :: "rep_env \<Rightarrow> uint16 \<times> int \<times> uint16 \<Rightarrow> ReputationMgr \<Rightarrow> rep_outcome" where
  "load_row env row m =
     (let (faction, standing, flags) = row in
      case re_faction env (ucast faction) of
        None \<Rightarrow> (m, [])
      | Some fe \<Rightarrow>
          if fe_reputationListID fe \<ge> 0
          then let k = rep_key fe;
                   m = put_state k ((map_at FactionState0 (rm_factions m) k)\<lparr>fs_Standing := standing\<rparr>) m;
                   BaseRep = GetBaseReputation env fe;
                   m = UpdateRankCounters (ReputationToRank BaseRep) (ReputationToRank (BaseRep + standing)) m;
                   dbFactionFlags = ucast flags;
                   (m, out) = row_visible env k dbFactionFlags m;
                   m = row_inactive k dbFactionFlags m;
                   m = row_at_war k dbFactionFlags m;
                   m = row_hostile env fe k m;
                   m = row_clean k dbFactionFlags m
               in (m, out)
          else (m, []))"

fun load_rows :: "rep_env \<Rightarrow> (uint16 \<times> int \<times> uint16) list \<Rightarrow> ReputationMgr \<Rightarrow> rep_outcome" where
  "load_rows env [] m = (m, [])"
| "load_rows env (row # rows) m =
     (let (m', out) = load_row env row m; (m'', out') = load_rows env rows m' in (m'', out @ out'))"

definition Reputation_LoadFromDB :: "rep_env \<Rightarrow> (uint16 \<times> int \<times> uint16) list \<Rightarrow> ReputationMgr \<Rightarrow> rep_outcome" where
  "Reputation_LoadFromDB env rows m = load_rows env rows (Reputation_Initialize env m)"

definition save_stmts :: "rep_env \<Rightarrow> FactionState \<Rightarrow> rep_effect list" where
  "save_stmts env st =
     [CHAR_DEL_CHAR_REPUTATION_BY_FACTION (re_guidLow env) (ucast (fs_ID st)),
      CHAR_INS_CHAR_REPUTATION_BY_FACTION (re_guidLow env) (ucast (fs_ID st)) (fs_Standing st) (ucast (fs_Flags st))]"

definition Reputation_SaveToDB :: "rep_env \<Rightarrow> ReputationMgr \<Rightarrow> rep_outcome" where
  "Reputation_SaveToDB env m =
     (m\<lparr>rm_factions := map (\<lambda>(k, st). (k, if fs_needSave st then st\<lparr>fs_needSave := False\<rparr> else st)) (rm_factions m)\<rparr>,
      concat (map (\<lambda>(k, st). if fs_needSave st then save_stmts env st else []) (rm_factions m)))"

section \<open>Ranks and their thresholds\<close>

fun rank_floor :: "ReputationRank \<Rightarrow> int" where
  "rank_floor REP_HATED = -42000"
| "rank_floor REP_HOSTILE = -6000"
| "rank_floor REP_UNFRIENDLY = -3000"
| "rank_floor REP_NEUTRAL = 0"
| "rank_floor REP_FRIENDLY = 3000"
| "rank_floor REP_HONORED = 9000"
| "rank_floor REP_REVERED = 21000"
| "rank_floor REP_EXALTED = 42000"

lemma ReputationToRank_closed:
  "ReputationToRank s =
     (if 42000 \<le> s then REP_EXALTED else if 21000 \<le> s then REP_REVERED else if 9000 \<le> s then REP_HONORED
      else if 3000 \<le> s then REP_FRIENDLY else if 0 \<le> s then REP_NEUTRAL else if -3000 \<le> s then REP_UNFRIENDLY
      else if -6000 \<le> s then REP_HOSTILE else REP_HATED)"
proof -
  have 8: "(8 :: nat) = Suc (Suc (Suc (Suc (Suc (Suc (Suc (Suc 0)))))))" by simp
  show ?thesis
    unfolding ReputationToRank_def 8
    by (simp add: Let_def PointsInRank_def rank_of_nat_def)
qed

section \<open>Counting entries\<close>

lemma map_put_same: "map_wf m \<Longrightarrow> map_of m k = Some v \<Longrightarrow> map_put k v m = m"
proof (induction m)
  case (Cons e m)
  have "fst e < k" if "fst e \<noteq> k"
  proof -
    from that Cons.prems have "(k, v) \<in> set m" by (cases e) (auto dest: map_of_SomeD split: if_splits)
    with Cons.prems show ?thesis by fastforce
  qed
  with Cons show ?case by (cases e) auto
qed simp

lemma count_map_put:
  "map_wf m \<Longrightarrow>
   length (filter P (map_put k v m)) + (case map_of m k of Some u \<Rightarrow> if P (k, u) then 1 else 0 | None \<Rightarrow> 0)
     = length (filter P m) + (if P (k, v) then 1 else 0)"
proof (induction m)
  case (Cons e m)
  have "map_of m k = None" if "k < fst e \<or> fst e = k"
    using Cons.prems that by (auto simp: map_of_eq_None_iff)
  with Cons show ?case by (cases e) (auto split: option.splits)
qed simp

definition count8 :: "('v \<Rightarrow> bool) \<Rightarrow> ('k, 'v) smap \<Rightarrow> uint8" where
  "count8 P m = word_of_nat (length (filter (\<lambda>e. P (snd e)) m))"

abbreviation one_if :: "bool \<Rightarrow> uint8" where
  "one_if b \<equiv> if b then 1 else 0"

lemma count8_replace:
  assumes "map_wf m" "map_of m k = Some u"
  shows "count8 P (map_put k v m) = count8 P m - one_if (P u) + one_if (P v)"
proof -
  have "length (filter (\<lambda>e. P (snd e)) (map_put k v m)) + (if P u then 1 else 0)
      = length (filter (\<lambda>e. P (snd e)) m) + (if P v then 1 else 0)"
    using count_map_put [OF assms(1), of "\<lambda>e. P (snd e)" k v] assms(2) by simp
  from arg_cong [OF this, of "word_of_nat :: nat \<Rightarrow> uint8"] show ?thesis
    by (simp add: count8_def algebra_simps split: if_splits)
qed

lemma count8_insert:
  assumes "map_wf m" "map_of m k = None"
  shows "count8 P (map_put k v m) = count8 P m + one_if (P v)"
proof -
  have "length (filter (\<lambda>e. P (snd e)) (map_put k v m)) = length (filter (\<lambda>e. P (snd e)) m) + (if P v then 1 else 0)"
    using count_map_put [OF assms(1), of "\<lambda>e. P (snd e)" k v] assms(2) by simp
  then show ?thesis by (simp add: count8_def)
qed

section \<open>The invariant\<close>

definition dbc_ok :: "rep_env \<Rightarrow> bool" where
  "dbc_ok env \<longleftrightarrow>
     (\<forall>i fe. re_faction env i = Some fe \<longrightarrow>
        fe_ID fe = i \<and> 0 < unat i \<and> unat i < re_numRows env
        \<and> - (2 ^ 31) \<le> fe_reputationListID fe \<and> fe_reputationListID fe < 2 ^ 31
        \<and> \<not> (has_flag (ucast (GetDefaultStateFlags env fe) :: uint8) FACTION_FLAG_PEACE_FORCED
             \<and> has_flag (ucast (GetDefaultStateFlags env fe) :: uint8) FACTION_FLAG_AT_WAR))
     \<and> (\<forall>i j f g. re_faction env i = Some f \<and> re_faction env j = Some g \<and> 0 \<le> fe_reputationListID f
          \<and> fe_reputationListID f = fe_reputationListID g \<longrightarrow> i = j)
     \<and> re_numRows env \<le> 2 ^ 32"

definition state_rank :: "rep_env \<Rightarrow> FactionState \<Rightarrow> ReputationRank" where
  "state_rank env st = (case re_faction env (fs_ID st) of
     None \<Rightarrow> REP_HATED | Some fe \<Rightarrow> ReputationToRank (GetBaseReputation env fe + fs_Standing st))"

definition fs_visible :: "FactionState \<Rightarrow> bool" where
  "fs_visible st = has_flag (fs_Flags st) FACTION_FLAG_VISIBLE"

definition fs_peaceful :: "FactionState \<Rightarrow> bool" where
  "fs_peaceful st \<longleftrightarrow> \<not> (has_flag (fs_Flags st) FACTION_FLAG_PEACE_FORCED \<and> has_flag (fs_Flags st) FACTION_FLAG_AT_WAR)"

definition fs_linked :: "rep_env \<Rightarrow> uint32 \<Rightarrow> FactionState \<Rightarrow> bool" where
  "fs_linked env k st \<longleftrightarrow> fs_ReputationListID st = k
     \<and> (\<exists>fe. re_faction env (fs_ID st) = Some fe \<and> 0 \<le> fe_reputationListID fe \<and> rep_key fe = k)"

definition counts_ok :: "rep_env \<Rightarrow> ReputationMgr \<Rightarrow> bool" where
  "counts_ok env m \<longleftrightarrow>
     rm_visible m = count8 fs_visible (rm_factions m)
     \<and> rm_honored m = count8 (\<lambda>st. REP_HONORED \<le> state_rank env st) (rm_factions m)
     \<and> rm_revered m = count8 (\<lambda>st. REP_REVERED \<le> state_rank env st) (rm_factions m)
     \<and> rm_exalted m = count8 (\<lambda>st. REP_EXALTED \<le> state_rank env st) (rm_factions m)"

definition rep_inv :: "rep_env \<Rightarrow> ReputationMgr \<Rightarrow> bool" where
  "rep_inv env m \<longleftrightarrow> map_wf (rm_factions m)
     \<and> (\<forall>k st. map_of (rm_factions m) k = Some st \<longrightarrow> fs_linked env k st \<and> fs_peaceful st)
     \<and> counts_ok env m"

text \<open>Every modifier replaces one entry and adjusts the counters; this is the step all of them rest on.\<close>

lemma rep_inv_replace:
  assumes "rep_inv env m" "map_of (rm_factions m) k = Some old"
    and "rm_factions m' = map_put k st (rm_factions m)"
    and "fs_ID st = fs_ID old" "fs_ReputationListID st = fs_ReputationListID old" "fs_peaceful st"
    and "rm_visible m' = rm_visible m - one_if (fs_visible old) + one_if (fs_visible st)"
    and "state_rank env old = old_rank" "state_rank env st = new_rank"
    and "rm_honored m' = rm_honored m - one_if (REP_HONORED \<le> old_rank) + one_if (REP_HONORED \<le> new_rank)"
    and "rm_revered m' = rm_revered m - one_if (REP_REVERED \<le> old_rank) + one_if (REP_REVERED \<le> new_rank)"
    and "rm_exalted m' = rm_exalted m - one_if (REP_EXALTED \<le> old_rank) + one_if (REP_EXALTED \<le> new_rank)"
  shows "rep_inv env m'"
proof -
  have wf: "map_wf (rm_factions m)" using assms(1) by (simp add: rep_inv_def)
  have "fs_linked env k st" using assms(1,2,4,5) by (auto simp: rep_inv_def fs_linked_def)
  moreover have "counts_ok env m'"
    using assms(1,7-) unfolding counts_ok_def assms(3) count8_replace [OF wf assms(2)] rep_inv_def by simp
  ultimately show ?thesis using assms(1,3,6) by (auto simp: rep_inv_def split: if_splits)
qed

lemma rep_inv_replace_flags:
  assumes "rep_inv env m" "map_of (rm_factions m) k = Some old"
    and "rm_factions m' = map_put k st (rm_factions m)"
    and "fs_ID st = fs_ID old" "fs_ReputationListID st = fs_ReputationListID old" "fs_peaceful st"
    and "fs_Standing st = fs_Standing old"
    and "rm_visible m' = rm_visible m - one_if (fs_visible old) + one_if (fs_visible st)"
    and "rm_honored m' = rm_honored m" "rm_revered m' = rm_revered m" "rm_exalted m' = rm_exalted m"
  shows "rep_inv env m'"
proof -
  have "state_rank env st = state_rank env old" by (simp add: state_rank_def assms(4,7) split: option.splits)
  from rep_inv_replace [OF assms(1-6,8) refl this] assms(9-) show ?thesis by simp
qed

section \<open>The modifiers as updates of one entry\<close>

definition visible_fs :: "FactionState \<Rightarrow> FactionState" where
  "visible_fs st =
     (if has_flag (fs_Flags st) (FACTION_FLAG_INVISIBLE_FORCED OR FACTION_FLAG_HIDDEN)
         \<and> \<not> has_flag (fs_Flags st) FACTION_FLAG_SPECIAL then st
      else if fs_visible st then st
      else st\<lparr>fs_Flags := set_flag (fs_Flags st) FACTION_FLAG_VISIBLE, fs_needSend := True, fs_needSave := True\<rparr>)"

definition at_war_fs :: "bool \<Rightarrow> FactionState \<Rightarrow> FactionState" where
  "at_war_fs atWar st =
     (if atWar \<and> has_flag (fs_Flags st) FACTION_FLAG_PEACE_FORCED then st
      else if has_flag (fs_Flags st) FACTION_FLAG_AT_WAR = atWar then st
      else st\<lparr>fs_Flags := (if atWar then set_flag (fs_Flags st) FACTION_FLAG_AT_WAR
                            else clear_flag (fs_Flags st) FACTION_FLAG_AT_WAR),
              fs_needSend := True, fs_needSave := True\<rparr>)"

definition inactive_fs :: "bool \<Rightarrow> FactionState \<Rightarrow> FactionState" where
  "inactive_fs inactive st =
     (if inactive \<and> (has_flag (fs_Flags st) (FACTION_FLAG_INVISIBLE_FORCED OR FACTION_FLAG_HIDDEN)
                     \<or> \<not> fs_visible st) then st
      else if has_flag (fs_Flags st) FACTION_FLAG_INACTIVE = inactive then st
      else st\<lparr>fs_Flags := (if inactive then set_flag (fs_Flags st) FACTION_FLAG_INACTIVE
                            else clear_flag (fs_Flags st) FACTION_FLAG_INACTIVE),
              fs_needSend := True, fs_needSave := True\<rparr>)"

lemmas fs_flag_defs = visible_fs_def at_war_fs_def inactive_fs_def

lemma fs_update_fields [simp]:
  "fs_ID (visible_fs st) = fs_ID st" "fs_ID (at_war_fs b st) = fs_ID st" "fs_ID (inactive_fs b st) = fs_ID st"
  "fs_ReputationListID (visible_fs st) = fs_ReputationListID st"
  "fs_ReputationListID (at_war_fs b st) = fs_ReputationListID st"
  "fs_ReputationListID (inactive_fs b st) = fs_ReputationListID st"
  "fs_Standing (visible_fs st) = fs_Standing st" "fs_Standing (at_war_fs b st) = fs_Standing st"
  "fs_Standing (inactive_fs b st) = fs_Standing st"
  by (simp_all add: fs_flag_defs)

lemma faction_masks [simp]:
  "disjoint_masks FACTION_FLAG_VISIBLE FACTION_FLAG_PEACE_FORCED" "disjoint_masks FACTION_FLAG_VISIBLE FACTION_FLAG_AT_WAR"
  "disjoint_masks FACTION_FLAG_AT_WAR FACTION_FLAG_PEACE_FORCED" "disjoint_masks FACTION_FLAG_AT_WAR FACTION_FLAG_VISIBLE"
  "disjoint_masks FACTION_FLAG_INACTIVE FACTION_FLAG_PEACE_FORCED" "disjoint_masks FACTION_FLAG_INACTIVE FACTION_FLAG_AT_WAR"
  "disjoint_masks FACTION_FLAG_INACTIVE FACTION_FLAG_VISIBLE"
  by (simp_all add: disjoint_masks_def)

lemmas flag_updates = has_flag_set_same has_flag_clear_same has_flag_set_other has_flag_clear_other

lemma fs_update_peaceful [simp]:
  "fs_peaceful st \<Longrightarrow> fs_peaceful (visible_fs st)" "fs_peaceful st \<Longrightarrow> fs_peaceful (at_war_fs b st)"
  "fs_peaceful st \<Longrightarrow> fs_peaceful (inactive_fs b st)"
  by (auto simp: fs_peaceful_def fs_flag_defs flag_updates)

lemma fs_update_visible [simp]:
  "fs_visible (at_war_fs b st) = fs_visible st" "fs_visible (inactive_fs b st) = fs_visible st"
  "fs_visible st \<Longrightarrow> fs_visible (visible_fs st)"
  by (auto simp: fs_visible_def fs_flag_defs flag_updates)

lemma put_state_simps [simp]:
  "rm_factions (put_state k st m) = map_put k st (rm_factions m)"
  "rm_visible (put_state k st m) = rm_visible m" "rm_honored (put_state k st m) = rm_honored m"
  "rm_revered (put_state k st m) = rm_revered m" "rm_exalted (put_state k st m) = rm_exalted m"
  by (simp_all add: put_state_def)

lemma put_state_same: "map_wf (rm_factions m) \<Longrightarrow> map_of (rm_factions m) k = Some st \<Longrightarrow> put_state k st m = m"
  by (simp add: put_state_def map_put_same)

lemma map_at_some: "map_of m k = Some v \<Longrightarrow> map_at d m k = v"
  by (simp add: map_at_def)

lemma SetAtWar_state_eq:
  "map_wf (rm_factions m) \<Longrightarrow> map_of (rm_factions m) k = Some st \<Longrightarrow>
   SetAtWar_state k b m = put_state k (at_war_fs b st) m"
  by (simp add: SetAtWar_state_def at_war_fs_def map_at_some Let_def put_state_same)

lemma SetInactive_state_eq:
  "map_wf (rm_factions m) \<Longrightarrow> map_of (rm_factions m) k = Some st \<Longrightarrow>
   SetInactive_state k b m = put_state k (inactive_fs b st) m"
  by (auto simp: SetInactive_state_def inactive_fs_def map_at_some Let_def put_state_same fs_visible_def)

lemma SetVisible_state_eq:
  "map_wf (rm_factions m) \<Longrightarrow> map_of (rm_factions m) k = Some st \<Longrightarrow>
   fst (SetVisible_state env k m) =
     (put_state k (visible_fs st) m)\<lparr>rm_visible := rm_visible m - one_if (fs_visible st) + one_if (fs_visible (visible_fs st))\<rparr>"
  by (auto simp: SetVisible_state_def visible_fs_def map_at_some Let_def put_state_same fs_visible_def flag_updates)

lemma rep_inv_wf: "rep_inv env m \<Longrightarrow> map_wf (rm_factions m)"
  by (simp add: rep_inv_def)

lemma rep_inv_peaceful: "rep_inv env m \<Longrightarrow> map_of (rm_factions m) k = Some st \<Longrightarrow> fs_peaceful st"
  by (simp add: rep_inv_def)

lemma rep_inv_linked: "rep_inv env m \<Longrightarrow> map_of (rm_factions m) k = Some st \<Longrightarrow> fs_linked env k st"
  by (simp add: rep_inv_def)

lemma SetAtWar_keeps: "rep_inv env m \<Longrightarrow> rep_inv env (SetAtWar k b m)"
proof -
  assume inv: "rep_inv env m"
  show ?thesis
  proof (cases "map_of (rm_factions m) k")
    case (Some st)
    have "rep_inv env (put_state k (at_war_fs b st) m)"
      by (rule rep_inv_replace_flags [OF inv Some, where st = "at_war_fs b st"]) (simp_all add: rep_inv_peaceful [OF inv Some])
    with inv Some show ?thesis by (simp add: SetAtWar_def SetAtWar_state_eq rep_inv_wf)
  qed (simp add: SetAtWar_def inv)
qed

lemma SetInactive_keeps: "rep_inv env m \<Longrightarrow> rep_inv env (SetInactive k b m)"
proof -
  assume inv: "rep_inv env m"
  show ?thesis
  proof (cases "map_of (rm_factions m) k")
    case (Some st)
    have "rep_inv env (put_state k (inactive_fs b st) m)"
      by (rule rep_inv_replace_flags [OF inv Some, where st = "inactive_fs b st"]) (simp_all add: rep_inv_peaceful [OF inv Some])
    with inv Some show ?thesis by (simp add: SetInactive_def SetInactive_state_eq rep_inv_wf)
  qed (simp add: SetInactive_def inv)
qed

lemma SetVisible_state_keeps:
  assumes inv: "rep_inv env m" and st: "map_of (rm_factions m) k = Some st"
  shows "rep_inv env (fst (SetVisible_state env k m))"
  by (rule rep_inv_replace_flags [OF inv st, where st = "visible_fs st"])
    (simp_all add: SetVisible_state_eq [OF rep_inv_wf [OF inv] st] rep_inv_peaceful [OF inv st])

lemma SetVisible_keeps: "rep_inv env m \<Longrightarrow> rep_inv env (fst (SetVisible env fe m))"
  by (auto simp: SetVisible_def SetVisible_state_keeps split: option.splits)

text \<open>The clamped value and the new entry of \<^verbatim>\<open>SetOneFactionReputation\<close>.\<close>

definition new_standing :: "rep_env \<Rightarrow> FactionEntry \<Rightarrow> FactionState \<Rightarrow> int \<Rightarrow> bool \<Rightarrow> int" where
  "new_standing env fe st standing incremental =
     max Reputation_Bottom (min Reputation_Cap
       (if incremental then \<lfloor>re_rnd env (re_rnd env (re_rnd env (of_int standing) * re_rate env) + 1 / 2)\<rfloor>
          + (fs_Standing st + GetBaseReputation env fe) else standing))"

definition new_entry :: "rep_env \<Rightarrow> FactionEntry \<Rightarrow> FactionState \<Rightarrow> int \<Rightarrow> FactionState" where
  "new_entry env fe st s =
     (let st1 = visible_fs (st\<lparr>fs_Standing := s - GetBaseReputation env fe, fs_needSend := True, fs_needSave := True\<rparr>)
      in if ReputationToRank s \<le> REP_HOSTILE then at_war_fs True st1 else st1)"

lemma SetOne_factions:
  assumes "map_wf (rm_factions m)" "map_of (rm_factions m) (rep_key fe) = Some st"
  shows "rm_factions (fst (snd (SetOneFactionReputation env fe standing incremental m)))
    = map_put (rep_key fe) (new_entry env fe st (new_standing env fe st standing incremental)) (rm_factions m)"
proof -
  let ?s = "new_standing env fe st standing incremental" and ?k = "rep_key fe"
  let ?st0 = "st\<lparr>fs_Standing := ?s - GetBaseReputation env fe, fs_needSend := True, fs_needSave := True\<rparr>"
  have s: "(if y > Reputation_Cap then Reputation_Cap else if y < Reputation_Bottom then Reputation_Bottom else y)
      = max Reputation_Bottom (min Reputation_Cap y)" for y by simp
  have vis: "fst (SetVisible_state env ?k (put_state ?k ?st0 m))
      = (put_state ?k (visible_fs ?st0) m)\<lparr>rm_visible := rm_visible m - one_if (fs_visible ?st0) + one_if (fs_visible (visible_fs ?st0))\<rparr>"
    using assms(1) by (subst SetVisible_state_eq [where st = ?st0]) (simp_all add: put_state_def)
  have war: "SetAtWar_state ?k True ((put_state ?k (visible_fs ?st0) m)\<lparr>rm_visible := v\<rparr>)
      = (put_state ?k (at_war_fs True (visible_fs ?st0)) m)\<lparr>rm_visible := v\<rparr>" for v
    using assms(1) by (subst SetAtWar_state_eq [where st = "visible_fs ?st0"]) (simp_all add: put_state_def)
  show ?thesis
    unfolding SetOneFactionReputation_def Let_def split_beta assms(2) option.case s
      new_standing_def [symmetric] vis war
    by (simp add: UpdateRankCounters_def new_entry_def Let_def war)
qed

lemma SetOne_counters:
  assumes "map_wf (rm_factions m)" "map_of (rm_factions m) (rep_key fe) = Some st"
    and "m' = fst (snd (SetOneFactionReputation env fe standing incremental m))"
    and "s = new_standing env fe st standing incremental"
    and "old_rank = ReputationToRank (fs_Standing st + GetBaseReputation env fe)"
  shows "rm_visible m' = rm_visible m - one_if (fs_visible st) + one_if (fs_visible (new_entry env fe st s))"
    and "rm_honored m' = rm_honored m - one_if (REP_HONORED \<le> old_rank) + one_if (REP_HONORED \<le> ReputationToRank s)"
    and "rm_revered m' = rm_revered m - one_if (REP_REVERED \<le> old_rank) + one_if (REP_REVERED \<le> ReputationToRank s)"
    and "rm_exalted m' = rm_exalted m - one_if (REP_EXALTED \<le> old_rank) + one_if (REP_EXALTED \<le> ReputationToRank s)"
proof -
  let ?k = "rep_key fe"
  let ?st0 = "st\<lparr>fs_Standing := s - GetBaseReputation env fe, fs_needSend := True, fs_needSave := True\<rparr>"
  let ?v = "rm_visible m - one_if (fs_visible ?st0) + one_if (fs_visible (visible_fs ?st0))"
  have clamp: "(if y > Reputation_Cap then Reputation_Cap else if y < Reputation_Bottom then Reputation_Bottom else y)
      = max Reputation_Bottom (min Reputation_Cap y)" for y by simp
  have vis: "fst (SetVisible_state env ?k (put_state ?k ?st0 m)) = (put_state ?k (visible_fs ?st0) m)\<lparr>rm_visible := ?v\<rparr>"
    using assms(1) by (subst SetVisible_state_eq [where st = ?st0]) (simp_all add: put_state_def)
  have war: "SetAtWar_state ?k True ((put_state ?k (visible_fs ?st0) m)\<lparr>rm_visible := v\<rparr>)
      = (put_state ?k (at_war_fs True (visible_fs ?st0)) m)\<lparr>rm_visible := v\<rparr>" for v
    using assms(1) by (subst SetAtWar_state_eq [where st = "visible_fs ?st0"]) (simp_all add: put_state_def)
  have st0: "fs_visible ?st0 = fs_visible st" by (simp add: fs_visible_def)
  have m': "m' = UpdateRankCounters old_rank (ReputationToRank s)
      (let m1 = (if ReputationToRank s \<le> REP_HOSTILE
                 then (put_state ?k (at_war_fs True (visible_fs ?st0)) m)\<lparr>rm_visible := ?v\<rparr>
                 else (put_state ?k (visible_fs ?st0) m)\<lparr>rm_visible := ?v\<rparr>)
       in if old_rank < ReputationToRank s then m1\<lparr>rm_sendFactionIncreased := True\<rparr> else m1)"
    unfolding assms(3,5) SetOneFactionReputation_def Let_def split_beta assms(2) option.case clamp
      new_standing_def [symmetric] assms(4) [symmetric] vis war by simp
  show "rm_visible m' = rm_visible m - one_if (fs_visible st) + one_if (fs_visible (new_entry env fe st s))"
    unfolding m' UpdateRankCounters_def Let_def new_entry_def st0 by simp
  show "rm_honored m' = rm_honored m - one_if (REP_HONORED \<le> old_rank) + one_if (REP_HONORED \<le> ReputationToRank s)"
    "rm_revered m' = rm_revered m - one_if (REP_REVERED \<le> old_rank) + one_if (REP_REVERED \<le> ReputationToRank s)"
    "rm_exalted m' = rm_exalted m - one_if (REP_EXALTED \<le> old_rank) + one_if (REP_EXALTED \<le> ReputationToRank s)"
    unfolding m' UpdateRankCounters_def Let_def by simp_all
qed

lemma rep_key_inj:
  assumes "- (2 ^ 31) \<le> fe_reputationListID f" "fe_reputationListID f < 2 ^ 31"
    "0 \<le> fe_reputationListID g" "fe_reputationListID g < 2 ^ 31" "rep_key f = rep_key g"
  shows "fe_reputationListID f = fe_reputationListID g"
proof -
  have "fe_reputationListID f mod 2 ^ 32 = fe_reputationListID g mod 2 ^ 32"
    using assms(5) by (simp add: rep_key_def word_of_int_eq_iff take_bit_eq_mod)
  moreover have "fe_reputationListID g mod 2 ^ 32 = fe_reputationListID g" using assms(3,4) by simp
  moreover have "fe_reputationListID f mod 2 ^ 32
      = (if 0 \<le> fe_reputationListID f then fe_reputationListID f else fe_reputationListID f + 2 ^ 32)"
  proof (cases "0 \<le> fe_reputationListID f")
    case False
    have "fe_reputationListID f mod 2 ^ 32 = (fe_reputationListID f + 2 ^ 32) mod 2 ^ 32" by simp
    also have "\<dots> = fe_reputationListID f + 2 ^ 32" using False assms(1) by (intro mod_pos_pos_trivial) simp_all
    finally show ?thesis using False by simp
  qed (use assms(2) in simp)
  ultimately show ?thesis using assms(1,4) by (auto split: if_splits)
qed

lemma dbc_entry:
  assumes "dbc_ok env" "re_faction env i = Some fe"
  shows "fe_ID fe = i" "0 < unat i" "unat i < re_numRows env" "- (2 ^ 31) \<le> fe_reputationListID fe"
    "fe_reputationListID fe < 2 ^ 31"
  using assms by (auto simp: dbc_ok_def)

lemma dbc_unique:
  assumes "dbc_ok env" "re_faction env i = Some f" "re_faction env j = Some g" "0 \<le> fe_reputationListID f"
    "fe_reputationListID f = fe_reputationListID g"
  shows "i = j"
proof -
  have "\<forall>i j f g. re_faction env i = Some f \<and> re_faction env j = Some g \<and> 0 \<le> fe_reputationListID f
      \<and> fe_reputationListID f = fe_reputationListID g \<longrightarrow> i = j"
    using assms(1) unfolding dbc_ok_def by (elim conjE)
  with assms(2-) show ?thesis by blast
qed

lemma linked_entry:
  assumes "dbc_ok env" "re_faction env i = Some fe" "fs_linked env (rep_key fe) st"
  shows "fs_ID st = i" "0 \<le> fe_reputationListID fe"
proof -
  from assms(3) obtain fe' where fe': "re_faction env (fs_ID st) = Some fe'" "0 \<le> fe_reputationListID fe'"
    "rep_key fe' = rep_key fe" by (auto simp: fs_linked_def)
  have "fe_reputationListID fe = fe_reputationListID fe'"
    using rep_key_inj [of fe fe'] dbc_entry(4,5) [OF assms(1,2)] dbc_entry(4,5) [OF assms(1) fe'(1)] fe'(2,3)
    by metis
  with dbc_unique [OF assms(1) fe'(1) assms(2) fe'(2)] fe'(2)
  show "fs_ID st = i" "0 \<le> fe_reputationListID fe" by simp_all
qed

lemma new_entry_fields [simp]:
  "fs_ID (new_entry env fe st s) = fs_ID st"
  "fs_ReputationListID (new_entry env fe st s) = fs_ReputationListID st"
  "fs_Standing (new_entry env fe st s) = s - GetBaseReputation env fe"
  by (simp_all add: new_entry_def Let_def)

lemma new_entry_peaceful: "fs_peaceful st \<Longrightarrow> fs_peaceful (new_entry env fe st s)"
proof -
  assume "fs_peaceful st"
  then have "fs_peaceful (st\<lparr>fs_Standing := x, fs_needSend := True, fs_needSave := True\<rparr>)" for x
    by (simp add: fs_peaceful_def)
  then show ?thesis by (simp add: new_entry_def Let_def)
qed

lemma SetOne_keeps:
  assumes "dbc_ok env" "re_faction env i = Some fe" "rep_inv env m"
  shows "rep_inv env (fst (snd (SetOneFactionReputation env fe standing incremental m)))"
proof (cases "map_of (rm_factions m) (rep_key fe)")
  case None
  then show ?thesis by (simp add: SetOneFactionReputation_def Let_def assms(3))
next
  case (Some st)
  note wf = rep_inv_wf [OF assms(3)]
  let ?s = "new_standing env fe st standing incremental"
  have id: "fs_ID st = i" by (rule linked_entry [OF assms(1,2) rep_inv_linked [OF assms(3) Some]])
  have old: "state_rank env st = ReputationToRank (fs_Standing st + GetBaseReputation env fe)"
    by (simp add: state_rank_def id assms(2) add.commute)
  have new: "state_rank env (new_entry env fe st ?s) = ReputationToRank ?s"
    by (simp add: state_rank_def id assms(2))
  show ?thesis
    by (rule rep_inv_replace [OF assms(3) Some SetOne_factions [OF wf Some]])
      (use SetOne_counters [OF wf Some refl refl refl, where env = env and standing = standing and incremental = incremental]
        old new in \<open>simp_all add: new_entry_peaceful rep_inv_peaceful [OF assms(3) Some]\<close>)
qed

text \<open>Changing only the pending flags of the entries.\<close>

definition same_data :: "FactionState \<Rightarrow> FactionState \<Rightarrow> bool" where
  "same_data a b \<longleftrightarrow> fs_ID a = fs_ID b \<and> fs_ReputationListID a = fs_ReputationListID b
     \<and> fs_Standing a = fs_Standing b \<and> fs_Flags a = fs_Flags b"

lemma rep_inv_pending:
  assumes "rep_inv env m" "rm_factions m' = map (\<lambda>(k, st). (k, g st)) (rm_factions m)" "\<And>st. same_data (g st) st"
    and "rm_visible m' = rm_visible m" "rm_honored m' = rm_honored m" "rm_revered m' = rm_revered m"
    "rm_exalted m' = rm_exalted m"
  shows "rep_inv env m'"
proof -
  have rank: "state_rank env (g st) = state_rank env st" for st
    using assms(3) [of st] by (simp add: state_rank_def same_data_def split: option.splits)
  have vis: "fs_visible (g st) = fs_visible st" for st using assms(3) [of st] by (simp add: fs_visible_def same_data_def)
  have cnt: "count8 P (map (\<lambda>(k, st). (k, g st)) fs) = count8 P fs" if "\<And>st. P (g st) = P st"
    for P and fs :: "(uint32, FactionState) smap"
    using that by (simp add: count8_def filter_map comp_def split_beta)
  have wf: "map_wf (map (\<lambda>(k, st). (k, g st)) fs) = map_wf fs" for fs :: "(uint32, FactionState) smap"
    by (simp add: map_wf_def comp_def split_beta)
  have lookup: "map_of (map (\<lambda>(k, st). (k, g st)) fs) k = map_option g (map_of fs k)"
    for fs :: "(uint32, FactionState) smap" and k by (induction fs) auto
  have "fs_linked env k (g st) = fs_linked env k st" "fs_peaceful (g st) = fs_peaceful st" for k st
    using assms(3) [of st] by (simp_all add: same_data_def fs_linked_def fs_peaceful_def)
  with assms show ?thesis
    unfolding rep_inv_def counts_ok_def assms(2) wf lookup by (auto simp: cnt rank vis)
qed

lemma send_state_loop_factions:
  "fst (send_state_loop l fs out n) = map (\<lambda>(k, st). (k, if fs_needSend st then st\<lparr>fs_needSend := False\<rparr> else st)) fs"
  by (induction l fs out n rule: send_state_loop.induct) (auto simp: Let_def split_beta)

lemma SendState_keeps: "rep_inv env m \<Longrightarrow> rep_inv env (fst (SendState f m))"
  by (erule rep_inv_pending [where g = "\<lambda>st. if fs_needSend st then st\<lparr>fs_needSend := False\<rparr> else st"])
    (simp_all add: SendState_def Let_def split_beta send_state_loop_factions same_data_def)

lemma SendInitial_keeps: "rep_inv env m \<Longrightarrow> rep_inv env (fst (SendInitialReputations m))"
  by (erule rep_inv_pending [where g = "\<lambda>st. st\<lparr>fs_needSend := False\<rparr>"])
    (simp_all add: SendInitialReputations_def Let_def split_beta same_data_def)

lemma Save_keeps: "rep_inv env m \<Longrightarrow> rep_inv env (fst (Reputation_SaveToDB env m))"
  by (erule rep_inv_pending [where g = "\<lambda>st. if fs_needSave st then st\<lparr>fs_needSave := False\<rparr> else st"])
    (simp_all add: Reputation_SaveToDB_def same_data_def)

lemma template_spillover_keeps:
  "dbc_ok env \<Longrightarrow> rep_inv env m \<Longrightarrow> template_spillover env t is standing incremental m = Inr (m', out) \<Longrightarrow> rep_inv env m'"
proof (induction "is" arbitrary: m out)
  case (Cons i "is")
  have one: "rep_inv env (fst (snd (SetOneFactionReputation env fe x incremental m)))"
    if "re_faction env (rs_faction t i) = Some fe" for fe x
    using SetOne_keeps [OF Cons.prems(1) that Cons.prems(2)] .
  from Cons.prems(3) Cons.IH [OF Cons.prems(1)] one Cons.prems(2) show ?case
    by (auto simp: Let_def split_beta bindE_Inr_iff split: option.splits if_splits)
qed simp

lemma list_spillover_keeps:
  "dbc_ok env \<Longrightarrow> rep_inv env m \<Longrightarrow> rep_inv env (fst (snd (list_spillover env fe fs rep incremental res m)))"
proof (induction fs arbitrary: m res)
  case (Cons f fs)
  have one: "rep_inv env (fst (snd (SetOneFactionReputation env c x incremental m)))"
    if "re_faction env f = Some c" for c x
    using SetOne_keeps [OF Cons.prems(1) that Cons.prems(2)] .
  from Cons.IH [OF Cons.prems(1)] one Cons.prems(2) show ?case
    by (auto simp: Let_def split_beta split: option.splits)
qed simp

lemma dbc_spillover_keeps:
  assumes "dbc_ok env" "rep_inv env m"
  shows "rep_inv env (fst (snd (dbc_spillover env fe standing incremental m)))"
proof -
  have one: "rep_inv env (fst (snd (SetOneFactionReputation env c x incremental m)))"
    if "re_faction env f = Some c" for f c x
    using SetOne_keeps [OF assms(1) that assms(2)] .
  show ?thesis unfolding dbc_spillover_def Let_def split_beta
    using assms one by (auto intro: list_spillover_keeps split: option.splits)
qed

lemma spill_over_keeps:
  assumes "dbc_ok env" "rep_inv env m" "spill_over env fe standing incremental m = Inr (res, m', out)"
  shows "rep_inv env m'"
proof (cases "re_spillover env (fe_ID fe)")
  case None
  with assms(3) dbc_spillover_keeps [OF assms(1,2), of fe standing incremental] show ?thesis
    by (simp add: spill_over_def)
next
  case (Some t)
  with assms(3) template_spillover_keeps [OF assms(1,2)] show ?thesis
    by (auto simp: spill_over_def bindE_Inr_iff simp del: template_spillover.simps)
qed

lemma update_itself_keeps:
  assumes "dbc_ok env" "re_faction env i = Some fe" "rep_inv env m"
  shows "rep_inv env (fst (snd (update_itself env fe standing incremental res m)))"
  using SendState_keeps [OF SetOne_keeps [OF assms]] assms(3)
  by (simp add: update_itself_def split_beta Let_def split: option.splits)

lemma SetReputation_keeps:
  assumes "dbc_ok env" "re_faction env i = Some fe" "rep_inv env m"
    and "SetReputation env fe standing incremental m = Inr (res, m', out)"
  shows "rep_inv env m'"
proof -
  from assms(4) obtain r m1 o1 where 1: "spill_over env fe (re_hook env (fe_ID fe) standing incremental) incremental m
      = Inr (r, m1, o1)"
    and 2: "m' = fst (snd (update_itself env fe (re_hook env (fe_ID fe) standing incremental) incremental r m1))"
    by (auto simp: SetReputation_def Let_def bindE_Inr_iff split_beta)
  from update_itself_keeps [OF assms(1,2) spill_over_keeps [OF assms(1,3) 1]] 2 show ?thesis by simp
qed

section \<open>Initialisation\<close>

lemma rep_inv_insert:
  assumes "rep_inv env m" "map_of (rm_factions m) k = None"
    and "rm_factions m' = map_put k st (rm_factions m)" "fs_linked env k st" "fs_peaceful st"
    and "rm_visible m' = rm_visible m + one_if (fs_visible st)"
    and "rm_honored m' = rm_honored m + one_if (REP_HONORED \<le> state_rank env st)"
    and "rm_revered m' = rm_revered m + one_if (REP_REVERED \<le> state_rank env st)"
    and "rm_exalted m' = rm_exalted m + one_if (REP_EXALTED \<le> state_rank env st)"
  shows "rep_inv env m'"
proof -
  have wf: "map_wf (rm_factions m)" using rep_inv_wf [OF assms(1)] .
  have "counts_ok env m'"
    using assms(1,6-) unfolding counts_ok_def assms(3) count8_insert [OF wf assms(2)] rep_inv_def by simp
  with assms(1,3-5) show ?thesis by (auto simp: rep_inv_def split: if_splits)
qed

definition loaded_below :: "nat \<Rightarrow> ReputationMgr \<Rightarrow> bool" where
  "loaded_below n m \<longleftrightarrow> (\<forall>k st. map_of (rm_factions m) k = Some st \<longrightarrow> unat (fs_ID st) < n \<and> fs_Standing st = 0)"

lemma loaded_below_put:
  "loaded_below n m \<Longrightarrow> unat (fs_ID st) < n' \<Longrightarrow> n \<le> n' \<Longrightarrow> fs_Standing st = 0 \<Longrightarrow>
   rm_factions m' = map_put k st (rm_factions m) \<Longrightarrow> loaded_below n' m'"
  by (fastforce simp: loaded_below_def split: if_splits)

lemma init_faction_keeps:
  assumes "dbc_ok env" "rep_inv env m" "loaded_below i m" "i < re_numRows env"
  shows "rep_inv env (init_faction env i m) \<and> loaded_below (Suc i) (init_faction env i m)"
proof -
  have small: "i < 2 ^ 32" using assms(1,4) by (simp add: dbc_ok_def)
  then have i: "unat (word_of_nat i :: uint32) = i" by (simp add: unat_of_nat)
  have up: "loaded_below (Suc i) m" using assms(3) by (auto simp: loaded_below_def less_Suc_eq)
  show ?thesis
  proof (cases "re_faction env (word_of_nat i)")
    case (Some fe)
    note fe = dbc_entry [OF assms(1) Some]
    show ?thesis
    proof (cases "0 \<le> fe_reputationListID fe")
      case True
      let ?st = "\<lparr>fs_ID = fe_ID fe, fs_ReputationListID = rep_key fe, fs_Standing = 0,
          fs_Flags = ucast (GetDefaultStateFlags env fe), fs_needSend = True, fs_needSave = True\<rparr>"
      have fresh: "map_of (rm_factions m) (rep_key fe) = None"
      proof (rule ccontr)
        assume "map_of (rm_factions m) (rep_key fe) \<noteq> None"
        then obtain st where st: "map_of (rm_factions m) (rep_key fe) = Some st" by blast
        have "fs_ID st = word_of_nat i" by (rule linked_entry [OF assms(1) Some rep_inv_linked [OF assms(2) st]])
        moreover have "unat (fs_ID st) < i" using st assms(3) by (simp add: loaded_below_def)
        ultimately show False using i by simp
      qed
      have linked: "fs_linked env (rep_key fe) ?st" using Some True fe(1) by (auto simp: fs_linked_def)
      have peace: "fs_peaceful ?st" using assms(1) Some by (simp add: dbc_ok_def fs_peaceful_def)
      have rank: "state_rank env ?st = GetBaseRank env fe"
        by (simp add: state_rank_def GetBaseRank_def fe(1) Some)
      have hostile: "\<not> REP_HONORED \<le> REP_HOSTILE" "\<not> REP_REVERED \<le> REP_HOSTILE" "\<not> REP_EXALTED \<le> REP_HOSTILE"
        by (simp_all add: less_eq_ReputationRank_def)
      have fs: "rm_factions (init_faction env i m) = map_put (rep_key fe) ?st (rm_factions m)"
        using Some True by (simp add: init_faction_def Let_def UpdateRankCounters_def)
      have "rep_inv env (init_faction env i m)"
        by (rule rep_inv_insert [OF assms(2) fresh fs linked peace])
          (use Some True in \<open>simp_all add: init_faction_def Let_def UpdateRankCounters_def rank hostile fs_visible_def\<close>)
      moreover have "loaded_below (Suc i) (init_faction env i m)"
        by (rule loaded_below_put [OF assms(3) _ _ _ fs]) (simp_all add: fe(1) i)
      ultimately show ?thesis by blast
    qed (use Some assms(2) up in \<open>simp add: init_faction_def\<close>)
  qed (use assms(2) up in \<open>simp add: init_faction_def\<close>)
qed

lemma init_fold_keeps:
  assumes "dbc_ok env" "rep_inv env m" "loaded_below 1 m" "n \<le> re_numRows env"
  shows "rep_inv env (fold (init_faction env) [1 ..< n] m) \<and> loaded_below (max 1 n) (fold (init_faction env) [1 ..< n] m)"
  using assms(4)
proof (induction n)
  case 0
  then show ?case using assms by simp
next
  case (Suc n)
  show ?case
  proof (cases "1 \<le> n")
    case True
    with Suc init_faction_keeps [OF assms(1), of "fold (init_faction env) [1 ..< n] m" n] show ?thesis
      by (simp add: max_def)
  qed (use assms in \<open>simp add: not_le\<close>)
qed

lemma Initialize_keeps:
  assumes "dbc_ok env"
  shows "rep_inv env (Reputation_Initialize env m)" "\<And>k st. map_of (rm_factions (Reputation_Initialize env m)) k = Some st \<Longrightarrow> fs_Standing st = 0"
proof -
  let ?m0 = "m\<lparr>rm_factions := [], rm_visible := 0, rm_honored := 0, rm_revered := 0, rm_exalted := 0,
      rm_sendFactionIncreased := False\<rparr>"
  have 0: "rep_inv env ?m0" by (simp add: rep_inv_def counts_ok_def count8_def)
  have 1: "loaded_below 1 ?m0" by (simp add: loaded_below_def)
  note both = init_fold_keeps [OF assms 0 1 le_refl, folded Reputation_Initialize_def]
  show "rep_inv env (Reputation_Initialize env m)" using both by blast
  show "fs_Standing st = 0" if "map_of (rm_factions (Reputation_Initialize env m)) k = Some st" for k st
    using both that by (auto simp: loaded_below_def)
qed

section \<open>Loading\<close>

definition complete :: "rep_env \<Rightarrow> ReputationMgr \<Rightarrow> bool" where
  "complete env m \<longleftrightarrow> (\<forall>i fe. re_faction env i = Some fe \<and> 0 \<le> fe_reputationListID fe \<longrightarrow>
     map_of (rm_factions m) (rep_key fe) \<noteq> None)"

lemma init_faction_dom:
  "map_of (rm_factions m) k \<noteq> None \<Longrightarrow> map_of (rm_factions (init_faction env i m)) k \<noteq> None"
  by (simp add: init_faction_def Let_def UpdateRankCounters_def split: option.splits)

lemma init_fold_dom:
  "map_of (rm_factions m) k \<noteq> None \<Longrightarrow> map_of (rm_factions (fold (init_faction env) is m)) k \<noteq> None"
proof (induction "is" arbitrary: m)
  case (Cons i "is")
  from Cons.IH [OF init_faction_dom [OF Cons.prems]] show ?case by simp
qed simp

lemma init_fold_adds:
  "i \<in> set is \<Longrightarrow> re_faction env (word_of_nat i) = Some fe \<Longrightarrow> 0 \<le> fe_reputationListID fe \<Longrightarrow>
   map_of (rm_factions (fold (init_faction env) is m)) (rep_key fe) \<noteq> None"
proof (induction "is" arbitrary: m)
  case (Cons j "is")
  have "map_of (rm_factions (init_faction env i m)) (rep_key fe) \<noteq> None"
    using Cons.prems by (simp add: init_faction_def Let_def UpdateRankCounters_def)
  then show ?case
    using Cons init_fold_dom by (cases "i = j") auto
qed simp

lemma Initialize_complete:
  assumes "dbc_ok env" shows "complete env (Reputation_Initialize env m)"
  unfolding complete_def
proof (intro allI impI, elim conjE)
  fix i fe assume fe: "re_faction env i = Some fe" "0 \<le> fe_reputationListID fe"
  have "unat i \<in> set [1 ..< re_numRows env]" using dbc_entry(2,3) [OF assms fe(1)] by simp
  from init_fold_adds [OF this _ fe(2)] fe(1)
  show "map_of (rm_factions (Reputation_Initialize env m)) (rep_key fe) \<noteq> None"
    by (simp add: Reputation_Initialize_def)
qed

text \<open>An operation on one entry keeps the invariant and all standings.\<close>

definition entry_kept :: "rep_env \<Rightarrow> uint32 \<Rightarrow> ReputationMgr \<Rightarrow> ReputationMgr \<Rightarrow> bool" where
  "entry_kept env k m m' \<longleftrightarrow> (rep_inv env m \<and> map_of (rm_factions m) k \<noteq> None \<longrightarrow>
     rep_inv env m' \<and> (\<forall>j. map_option fs_Standing (map_of (rm_factions m') j)
        = map_option fs_Standing (map_of (rm_factions m) j)))"

lemma entry_kept_refl: "entry_kept env k m m"
  by (simp add: entry_kept_def)

lemma entry_kept_trans: "entry_kept env k m m1 \<Longrightarrow> entry_kept env k m1 m2 \<Longrightarrow> entry_kept env k m m2"
  unfolding entry_kept_def by (metis option.map_disc_iff)

lemma entry_kept_replace:
  assumes "\<And>st. rep_inv env m \<Longrightarrow> map_of (rm_factions m) k = Some st \<Longrightarrow>
      rm_factions m' = map_put k (g st) (rm_factions m) \<and> fs_ID (g st) = fs_ID st
      \<and> fs_ReputationListID (g st) = fs_ReputationListID st \<and> fs_Standing (g st) = fs_Standing st
      \<and> (fs_peaceful st \<longrightarrow> fs_peaceful (g st))
      \<and> rm_visible m' = rm_visible m - one_if (fs_visible st) + one_if (fs_visible (g st))
      \<and> rm_honored m' = rm_honored m \<and> rm_revered m' = rm_revered m \<and> rm_exalted m' = rm_exalted m"
  shows "entry_kept env k m m'"
  unfolding entry_kept_def
proof (intro impI, elim conjE)
  assume inv: "rep_inv env m" and "map_of (rm_factions m) k \<noteq> None"
  then obtain st where st: "map_of (rm_factions m) k = Some st" by blast
  note a = assms [OF inv st]
  have "rep_inv env m'"
    by (rule rep_inv_replace_flags [OF inv st, where st = "g st"]) (use a rep_inv_peaceful [OF inv st] in auto)
  with a st show "rep_inv env m' \<and> (\<forall>j. map_option fs_Standing (map_of (rm_factions m') j)
      = map_option fs_Standing (map_of (rm_factions m) j))" by simp
qed

lemma entry_kept_at_war: "entry_kept env k m (SetAtWar_state k b m)"
  by (rule entry_kept_replace [where g = "at_war_fs b"]) (simp add: SetAtWar_state_eq rep_inv_wf)

lemma entry_kept_inactive: "entry_kept env k m (SetInactive_state k b m)"
  by (rule entry_kept_replace [where g = "inactive_fs b"]) (simp add: SetInactive_state_eq rep_inv_wf)

lemma entry_kept_visible: "entry_kept env k m (fst (SetVisible_state env k m))"
  by (rule entry_kept_replace [where g = visible_fs]) (simp add: SetVisible_state_eq rep_inv_wf)

lemma row_steps_kept:
  "entry_kept env k m (fst (row_visible env k db m))" "entry_kept env k m (row_inactive k db m)"
  "entry_kept env k m (row_at_war k db m)" "entry_kept env k m (row_hostile env fe k m)"
  "entry_kept env k m (row_clean k db m)"
proof -
  have "entry_kept env k m (put_state k ((map_at FactionState0 (rm_factions m) k)\<lparr>fs_needSend := False, fs_needSave := False\<rparr>) m)"
    by (rule entry_kept_replace [where g = "\<lambda>st. st\<lparr>fs_needSend := False, fs_needSave := False\<rparr>"])
      (simp add: map_at_some fs_visible_def fs_peaceful_def)
  then show "entry_kept env k m (row_clean k db m)" by (simp add: row_clean_def Let_def entry_kept_refl)
qed (simp_all add: row_visible_def row_inactive_def row_at_war_def row_hostile_def entry_kept_refl
    entry_kept_at_war entry_kept_inactive entry_kept_visible)

lemma load_row_kept:
  assumes "re_faction env (ucast f) = Some fe" "0 \<le> fe_reputationListID fe"
  shows "entry_kept env (rep_key fe)
    (UpdateRankCounters (ReputationToRank (GetBaseReputation env fe)) (ReputationToRank (GetBaseReputation env fe + s))
      (put_state (rep_key fe) ((map_at FactionState0 (rm_factions m) (rep_key fe))\<lparr>fs_Standing := s\<rparr>) m))
    (fst (load_row env (f, s, fl) m))"
proof -
  let ?k = "rep_key fe" and ?db = "ucast fl :: uint32"
  have "entry_kept env ?k m1 (row_clean ?k ?db (row_hostile env fe ?k (row_at_war ?k ?db (row_inactive ?k ?db
      (fst (row_visible env ?k ?db m1))))))" for m1
    by (rule entry_kept_trans [OF entry_kept_trans [OF entry_kept_trans [OF entry_kept_trans
      [OF row_steps_kept(1) row_steps_kept(2)] row_steps_kept(3)] row_steps_kept(4)] row_steps_kept(5)])
  then show ?thesis using assms by (simp add: load_row_def Let_def split_beta)
qed

definition unloaded :: "rep_env \<Rightarrow> uint16 set \<Rightarrow> ReputationMgr \<Rightarrow> bool" where
  "unloaded env fs m \<longleftrightarrow> (\<forall>f fe st. f \<in> fs \<and> re_faction env (ucast f) = Some fe
     \<and> map_of (rm_factions m) (rep_key fe) = Some st \<longrightarrow> fs_Standing st = 0)"

lemma load_row_step:
  assumes "dbc_ok env" "rep_inv env m" "complete env m" "unloaded env (insert f fs) m" "f \<notin> fs"
  shows "rep_inv env (fst (load_row env (f, s, fl) m)) \<and> complete env (fst (load_row env (f, s, fl) m))
    \<and> unloaded env fs (fst (load_row env (f, s, fl) m))"
proof (cases "\<exists>fe. re_faction env (ucast f) = Some fe \<and> 0 \<le> fe_reputationListID fe")
  case False
  then have "fst (load_row env (f, s, fl) m) = m" by (auto simp: load_row_def Let_def split: option.splits)
  with assms show ?thesis by (auto simp: unloaded_def)
next
  case True
  then obtain fe where fe: "re_faction env (ucast f) = Some fe" "0 \<le> fe_reputationListID fe" by blast
  let ?k = "rep_key fe" and ?base = "GetBaseReputation env fe"
  from assms(3) fe obtain st where st: "map_of (rm_factions m) ?k = Some st" by (auto simp: complete_def)
  have st0: "fs_Standing st = 0" using assms(4) fe(1) st by (auto simp: unloaded_def)
  have id: "fs_ID st = ucast f" by (rule linked_entry [OF assms(1) fe(1) rep_inv_linked [OF assms(2) st]])
  define m1 where "m1 = UpdateRankCounters (ReputationToRank ?base) (ReputationToRank (?base + s))
      (put_state ?k (st\<lparr>fs_Standing := s\<rparr>) m)"
  have fs1: "rm_factions m1 = map_put ?k (st\<lparr>fs_Standing := s\<rparr>) (rm_factions m)"
    by (simp add: m1_def UpdateRankCounters_def)
  have "rep_inv env m1"
    by (rule rep_inv_replace [OF assms(2) st fs1, where old_rank = "ReputationToRank ?base"
        and new_rank = "ReputationToRank (?base + s)"])
      (use rep_inv_peaceful [OF assms(2) st] in \<open>simp_all add: m1_def UpdateRankCounters_def state_rank_def id fe(1) st0
        fs_peaceful_def fs_visible_def\<close>)
  moreover have "entry_kept env ?k m1 (fst (load_row env (f, s, fl) m))"
    using load_row_kept [OF fe, of s m fl] by (simp add: m1_def map_at_some [OF st])
  moreover have "map_of (rm_factions m1) ?k \<noteq> None" by (simp add: fs1)
  ultimately have inv: "rep_inv env (fst (load_row env (f, s, fl) m))"
    and kept: "\<And>j. map_option fs_Standing (map_of (rm_factions (fst (load_row env (f, s, fl) m))) j)
      = map_option fs_Standing (map_of (rm_factions m1) j)"
    by (simp_all add: entry_kept_def)
  have dom: "map_of (rm_factions (fst (load_row env (f, s, fl) m))) j \<noteq> None" if "map_of (rm_factions m) j \<noteq> None" for j
    using kept [of j] that by (simp only: fs1 flip: option.map_disc_iff [where f = fs_Standing]) (auto split: if_splits)
  have "complete env (fst (load_row env (f, s, fl) m))" using assms(3) dom unfolding complete_def by blast
  moreover have "unloaded env fs (fst (load_row env (f, s, fl) m))"
    unfolding unloaded_def
  proof (intro allI impI, elim conjE)
    fix g ge gt assume g: "g \<in> fs" "re_faction env (ucast g) = Some ge"
      "map_of (rm_factions (fst (load_row env (f, s, fl) m))) (rep_key ge) = Some gt"
    have "rep_key ge \<noteq> ?k"
    proof
      assume eq: "rep_key ge = ?k"
      have "(ucast g :: uint32) = ucast f"
        using linked_entry(1) [OF assms(1) g(2), of st] rep_inv_linked [OF assms(2) st] id eq by simp
      then have "unat (ucast g :: uint32) = unat (ucast f :: uint32)" by simp
      moreover have "unat (ucast w :: uint32) = unat w" for w :: uint16
      proof -
        have "unat w < 2 ^ 16" using unsigned_less [of w, where 'a = nat] by simp
        then have "unat w < 2 ^ 32" by (rule less_trans) simp
        then show ?thesis by (simp add: unsigned_ucast_eq take_bit_nat_eq_self)
      qed
      ultimately have "unat g = unat f" by metis
      then have "g = f" by (simp add: word_unat_eq_iff)
      with g(1) assms(5) show False by simp
    qed
    then have "map_option fs_Standing (map_of (rm_factions m) (rep_key ge)) = Some (fs_Standing gt)"
      using kept [of "rep_key ge"] g(3) by (simp add: fs1)
    then obtain z where "map_of (rm_factions m) (rep_key ge) = Some z" "fs_Standing z = fs_Standing gt" by auto
    then show "fs_Standing gt = 0" using assms(4) g(1,2) unfolding unloaded_def by (metis insertCI)
  qed
  ultimately show ?thesis using inv by blast
qed

lemma load_rows_keeps:
  "dbc_ok env \<Longrightarrow> rep_inv env m \<Longrightarrow> complete env m \<Longrightarrow> unloaded env (fst ` set rows) m \<Longrightarrow> distinct (map fst rows) \<Longrightarrow>
   rep_inv env (fst (load_rows env rows m))"
proof (induction rows arbitrary: m)
  case (Cons row rows)
  obtain f s fl where row: "row = (f, s, fl)" by (cases row)
  have "rep_inv env (fst (load_row env row m)) \<and> complete env (fst (load_row env row m))
      \<and> unloaded env (fst ` set rows) (fst (load_row env row m))"
    using load_row_step [of env m f "fst ` set rows" s fl] Cons.prems unfolding row by simp
  with Cons show ?case by (simp add: Let_def split_beta)
qed simp

lemma Load_keeps:
  assumes "dbc_ok env" "distinct (map fst rows)"
  shows "rep_inv env (fst (Reputation_LoadFromDB env rows m))"
  unfolding Reputation_LoadFromDB_def
  by (rule load_rows_keeps [OF assms(1) Initialize_keeps(1) [OF assms(1)] Initialize_complete [OF assms(1)] _ assms(2)])
    (use Initialize_keeps(2) [OF assms(1)] in \<open>auto simp: unloaded_def\<close>)

section \<open>Reputations over time\<close>

inductive rep_step :: "rep_env \<Rightarrow> ReputationMgr \<Rightarrow> ReputationMgr \<Rightarrow> bool" for env where
  set_reputation: "re_faction env i = Some fe \<Longrightarrow> SetReputation env fe standing incremental m = Inr (res, m', out) \<Longrightarrow>
    rep_step env m m'"
| set_one: "re_faction env i = Some fe \<Longrightarrow> SetOneFactionReputation env fe standing incremental m = (res, m', out) \<Longrightarrow>
    rep_step env m m'"
| set_visible: "SetVisible env fe m = (m', out) \<Longrightarrow> rep_step env m m'"
| set_at_war: "rep_step env m (SetAtWar k on m)"
| set_inactive: "rep_step env m (SetInactive k on m)"
| force_reaction: "rep_step env m (ApplyForceReaction i r on m)"
| send_state: "SendState f m = (m', out) \<Longrightarrow> rep_step env m m'"
| send_initial: "SendInitialReputations m = (m', out) \<Longrightarrow> rep_step env m m'"
| save: "Reputation_SaveToDB env m = (m', out) \<Longrightarrow> rep_step env m m'"

definition rep_init :: "rep_env \<Rightarrow> ReputationMgr \<Rightarrow> bool" where
  "rep_init env m \<longleftrightarrow> dbc_ok env
     \<and> (\<exists>m0 rows. distinct (map fst rows) \<and> m = fst (Reputation_LoadFromDB env rows m0))"

lemma rep_inv_forced [simp]: "rep_inv env (ApplyForceReaction i r on m) = rep_inv env m"
  by (simp add: ApplyForceReaction_def rep_inv_def counts_ok_def)

interpretation reputation: invariant_system "rep_init env" "rep_step env" "\<lambda>m. dbc_ok env \<and> rep_inv env m" for env
proof
  fix m assume "rep_init env m"
  then show "dbc_ok env \<and> rep_inv env m" using Load_keeps by (auto simp: rep_init_def)
next
  fix m m' assume inv: "dbc_ok env \<and> rep_inv env m" and "rep_step env m m'"
  from this(2) show "dbc_ok env \<and> rep_inv env m'"
  proof cases
    case set_reputation
    with inv SetReputation_keeps show ?thesis by blast
  next
    case set_one
    with inv SetOne_keeps show ?thesis by (metis fst_conv snd_conv)
  next
    case set_visible
    with inv SetVisible_keeps show ?thesis by (metis fst_conv)
  next
    case send_state
    with inv SendState_keeps show ?thesis by (metis fst_conv)
  next
    case send_initial
    with inv SendInitial_keeps show ?thesis by (metis fst_conv)
  next
    case save
    with inv Save_keeps show ?thesis by (metis fst_conv)
  qed (use inv SetAtWar_keeps SetInactive_keeps in auto)
qed

section \<open>The initial packet\<close>

lemma fill_absent_replicate: "fill_absent a b = concat (replicate (unat (b - a)) [FU8 0, FU32 0])"
proof (induction a b rule: fill_absent.induct)
  case (1 a b)
  show ?case
  proof (cases "a = b")
    case True
    then show ?thesis by (simp add: fill_absent.simps)
  next
    case False
    then have "b - a \<noteq> 0" by simp
    then have "unat (b - a) = Suc (unat (b - (a + 1)))"
      by (simp add: unat_minus_one unat_gt_0 diff_diff_add [symmetric])
    with 1 False show ?thesis by (simp add: fill_absent.simps [of a b])
  qed
qed

definition rep_fields :: "FactionState option \<Rightarrow> field list" where
  "rep_fields st = (case st of None \<Rightarrow> [FU8 0, FU32 0] | Some st \<Rightarrow> [FU8 (fs_Flags st), FU32 (word_of_int (fs_Standing st))])"

lemma concat_absent:
  "(\<And>i. i \<in> set is \<Longrightarrow> g i = None) \<Longrightarrow> concat (map (rep_fields \<circ> g) is) = concat (replicate (length is) [FU8 0, FU32 0])"
  by (induction "is") (simp_all add: rep_fields_def)

lemma initial_loop_result:
  assumes "map_wf fs" "\<forall>e \<in> set fs. a \<le> fst e \<and> fst e < 128" "a \<le> 128"
  shows "(case initial_loop fs a of (out, a') \<Rightarrow> out @ fill_absent a' 128)
    = concat (map (rep_fields \<circ> (\<lambda>i. map_of fs (word_of_nat i))) [unat a ..< 128])"
  using assms
proof (induction fs arbitrary: a)
  case Nil
  have "unat (128 - a) = 128 - unat a" using Nil.prems(3) by (simp add: unat_sub)
  with concat_absent [of "[unat a ..< 128]" "\<lambda>i. map_of [] (word_of_nat i :: uint32)"] show ?case
    by (simp add: fill_absent_replicate comp_def)
next
  case (Cons e fs)
  obtain k st where e: "e = (k, st)" by (cases e)
  have k: "a \<le> k" "k < 128" using Cons.prems e by auto
  have u: "unat (k + 1) = Suc (unat k)" using k(2) by (simp add: unat_word_ariths word_less_nat_alt)
  have ub: "unat a \<le> unat k" "unat k < 128" using k by (simp_all add: word_le_nat_alt word_less_nat_alt)
  have next_le: "k + 1 \<le> x" if "k < x" for x using that by (simp add: inc_le)
  have tail: "(case initial_loop fs (k + 1) of (out, a') \<Rightarrow> out @ fill_absent a' 128)
      = concat (map (rep_fields \<circ> (\<lambda>i. map_of fs (word_of_nat i))) [unat (k + 1) ..< 128])"
    using Cons.prems e next_le k(2) by (intro Cons.IH) auto
  have split: "[unat a ..< 128] = [unat a ..< unat k] @ unat k # [Suc (unat k) ..< 128]"
    using ub upt_add_eq_append [of "unat a" "unat k" "128 - unat k"] by (simp add: upt_conv_Cons)
  have before: "map_of (e # fs) (word_of_nat i) = None" if "i \<in> set [unat a ..< unat k]" for i
  proof -
    have "(word_of_nat i :: uint32) < k" using that ub by (simp add: word_less_nat_alt unat_of_nat)
    then show ?thesis using Cons.prems(1) e by (force simp: map_of_eq_None_iff)
  qed
  have after: "map_of (e # fs) (word_of_nat i) = map_of fs (word_of_nat i)" if "i \<in> set [Suc (unat k) ..< 128]" for i
    using that ub e by (auto simp: unat_of_nat dest: arg_cong [of _ _ unat])
  have fill: "fill_absent a k = concat (map (rep_fields \<circ> (\<lambda>i. map_of (e # fs) (word_of_nat i))) [unat a ..< unat k])"
    using concat_absent [of "[unat a ..< unat k]" "\<lambda>i. map_of (e # fs) (word_of_nat i)"] before k(1)
    by (simp add: fill_absent_replicate unat_sub del: map_of.simps)
  have rest: "concat (map (rep_fields \<circ> (\<lambda>i. map_of (e # fs) (word_of_nat i))) [Suc (unat k) ..< 128])
      = concat (map (rep_fields \<circ> (\<lambda>i. map_of fs (word_of_nat i))) [Suc (unat k) ..< 128])"
    using after by (intro arg_cong [where f = concat] map_cong) auto
  have at: "rep_fields (map_of (e # fs) (word_of_nat (unat k))) = [FU8 (fs_Flags st), FU32 (word_of_int (fs_Standing st))]"
    by (simp add: e rep_fields_def)
  have "concat (map (rep_fields \<circ> (\<lambda>i. map_of (e # fs) (word_of_nat i))) [unat a ..< 128])
      = fill_absent a k @ [FU8 (fs_Flags st), FU32 (word_of_int (fs_Standing st))]
        @ concat (map (rep_fields \<circ> (\<lambda>i. map_of fs (word_of_nat i))) [Suc (unat k) ..< 128])"
    by (simp only: split map_append list.map concat_append concat.simps comp_apply at fill rest)
  then show ?case using tail u by (simp only:) (simp add: e split_beta)
qed

section \<open>Properties\<close>

definition demo_faction :: "uint32 \<Rightarrow> int \<Rightarrow> int \<Rightarrow> uint32 \<Rightarrow> FactionEntry" where
  "demo_faction i l base flags = \<lparr>fe_ID = i, fe_reputationListID = l, fe_BaseRepRaceMask = (\<lambda>_. 1),
     fe_BaseRepClassMask = (\<lambda>_. 0), fe_BaseRepValue = (\<lambda>_. base), fe_ReputationFlags = (\<lambda>_. flags), fe_team = 0,
     fe_spilloverRateIn = 0, fe_spilloverRateOut = 0, fe_spilloverMaxRankIn = 0\<rparr>"

definition demo_rep :: rep_env where
  "demo_rep = \<lparr>re_faction = (\<lambda>i. if i = 1 then Some (demo_faction 1 0 3100 0x11)
        else if i = 2 then Some (demo_faction 2 5 (-42000) 0x02) else None),
     re_numRows = 3, re_raceMask = 1, re_classMask = 1, re_rate = 1, re_rnd = (\<lambda>x. x),
     re_spillover = (\<lambda>_. None), re_teamList = (\<lambda>_. None), re_hook = (\<lambda>i s inc. s), re_loading = False,
     re_guidLow = 9\<rparr>"

definition empty_rep :: ReputationMgr where
  "empty_rep = \<lparr>rm_factions = [], rm_forcedReactions = [], rm_visible = 0, rm_honored = 0, rm_revered = 0,
     rm_exalted = 0, rm_sendFactionIncreased = False\<rparr>"

definition demo_loaded :: ReputationMgr where
  "demo_loaded = \<lparr>rm_factions =
       [(0, \<lparr>fs_ID = 1, fs_ReputationListID = 0, fs_Standing = 0, fs_Flags = 0x11, fs_needSend = True, fs_needSave = True\<rparr>),
        (5, \<lparr>fs_ID = 2, fs_ReputationListID = 5, fs_Standing = 0, fs_Flags = 0x02, fs_needSend = True, fs_needSave = True\<rparr>)],
     rm_forcedReactions = [], rm_visible = 1, rm_honored = 0, rm_revered = 0, rm_exalted = 0,
     rm_sendFactionIncreased = False\<rparr>"

lemma demo_rep_entries:
  "re_faction demo_rep 1 = Some (demo_faction 1 0 3100 0x11)"
  "re_faction demo_rep 2 = Some (demo_faction 2 5 (-42000) 0x02)"
  "re_faction demo_rep i = Some fe \<longleftrightarrow>
     i = 1 \<and> fe = demo_faction 1 0 3100 0x11 \<or> i = 2 \<and> fe = demo_faction 2 5 (-42000) 0x02"
  by (auto simp: demo_rep_def)

lemma demo_rep_ok: "dbc_ok demo_rep"
proof -
  have "GetDefaultStateFlags demo_rep (demo_faction 1 0 3100 0x11) = 0x11"
    "GetDefaultStateFlags demo_rep (demo_faction 2 5 (-42000) 0x02) = 0x02" by code_simp+
  then show ?thesis
    unfolding dbc_ok_def
    by (auto simp: demo_rep_entries(3) has_flag_def) (auto simp: demo_faction_def demo_rep_def)
qed

lemma demo_loaded_reachable: "reachable (rep_init demo_rep) (rep_step demo_rep) demo_loaded"
proof -
  have "demo_loaded = fst (Reputation_LoadFromDB demo_rep [] empty_rep)" by code_simp
  then have "rep_init demo_rep demo_loaded"
    unfolding rep_init_def using demo_rep_ok by (intro conjI exI [of _ empty_rep] exI [of _ "[]"]) simp_all
  then show ?thesis by (rule reach_init)
qed

text \<open>
  C37.  \<^verbatim>\<open>ReputationToRank\<close> implements the rank table: a standing has at least rank \<open>r\<close> exactly
  when it reaches the lower limit of \<open>r\<close> (everything has at least the lowest rank).
\<close>

theorem rank_thresholds:
  "r \<le> ReputationToRank s \<longleftrightarrow> r = REP_HATED \<or> rank_floor r \<le> s"
  by (cases r) (auto simp: ReputationToRank_closed less_eq_ReputationRank_def)

text \<open>
  C17.  \<^verbatim>\<open>SetOneFactionReputation\<close> on a listed faction succeeds, leaves its reputation between the
  bottom and the cap whatever the argument, sets exactly the requested value when it is in
  range and not incremental, and leaves the reputation with every other faction unchanged.
\<close>

theorem set_reputation_clamped:
  assumes "reachable (rep_init env) (rep_step env) m" "re_faction env i = Some fe" "GetState fe m \<noteq> None"
    and "SetOneFactionReputation env fe standing incremental m = (res, m', out)"
  shows "res \<and> Reputation_Bottom \<le> GetReputation env (Some fe) m' \<and> GetReputation env (Some fe) m' \<le> Reputation_Cap
    \<and> (\<not> incremental \<and> Reputation_Bottom \<le> standing \<and> standing \<le> Reputation_Cap \<longrightarrow>
         GetReputation env (Some fe) m' = standing)
    \<and> (\<forall>j fe2. re_faction env j = Some fe2 \<and> j \<noteq> i \<longrightarrow>
         GetReputation env (Some fe2) m' = GetReputation env (Some fe2) m)"
proof -
  from reputation.reachable_inv [OF assms(1)] have ok: "dbc_ok env" and inv: "rep_inv env m" by auto
  from assms(3) obtain st where st: "map_of (rm_factions m) (rep_key fe) = Some st" and can: "CanHaveReputation fe"
    by (auto simp: GetState_def split: if_splits)
  have res: "res" using assms(4) st by (auto simp: SetOneFactionReputation_def Let_def split_beta)
  have fs: "rm_factions m' = map_put (rep_key fe)
      (new_entry env fe st (new_standing env fe st standing incremental)) (rm_factions m)"
    using SetOne_factions [OF rep_inv_wf [OF inv] st, of env standing incremental] assms(4) by simp
  have rep: "GetReputation env (Some fe) m' = new_standing env fe st standing incremental"
    using can by (simp add: GetReputation_def GetState_def fs)
  have other: "GetReputation env (Some fe2) m' = GetReputation env (Some fe2) m"
    if "re_faction env j = Some fe2" "j \<noteq> i" for j fe2
  proof (cases "rep_key fe2 = rep_key fe")
    case True
    have "fs_linked env (rep_key fe2) st" using rep_inv_linked [OF inv st] True by simp
    from linked_entry(1) [OF ok that(1) this] linked_entry(1) [OF ok assms(2) rep_inv_linked [OF inv st]] that(2)
    show ?thesis by simp
  qed (simp add: GetReputation_def GetState_def fs)
  show ?thesis using res rep other by (auto simp: new_standing_def)
qed

theorem set_reputation_clamped_witness:
  "\<exists>m'. (\<exists>res out. SetOneFactionReputation demo_rep (demo_faction 1 0 3100 0x11) 9000 False demo_loaded = (res, m', out))
     \<and> GetReputation demo_rep (Some (demo_faction 1 0 3100 0x11)) m' = 9000"
proof -
  obtain res m' out where
    s: "SetOneFactionReputation demo_rep (demo_faction 1 0 3100 0x11) 9000 False demo_loaded = (res, m', out)"
    by (metis prod_cases3)
  have "GetState (demo_faction 1 0 3100 0x11) demo_loaded \<noteq> None"
    by (simp add: GetState_def CanHaveReputation_def rep_key_def demo_faction_def demo_loaded_def)
  from set_reputation_clamped [OF demo_loaded_reachable demo_rep_entries(1) this s] s show ?thesis by auto
qed

text \<open>
  C23.  The counters tell the truth: in every reachable state the four 8-bit counters equal, modulo
  256, the number of listed factions that are visible and the numbers of factions with which the
  player is at least honored, revered and exalted.
\<close>

theorem rank_counters_exact:
  assumes "reachable (rep_init env) (rep_step env) m"
  shows "unat (rm_visible m) = length (filter (\<lambda>(k, st). fs_visible st) (rm_factions m)) mod 256
    \<and> unat (rm_honored m) = length (filter (\<lambda>(k, st). REP_HONORED \<le> state_rank env st) (rm_factions m)) mod 256
    \<and> unat (rm_revered m) = length (filter (\<lambda>(k, st). REP_REVERED \<le> state_rank env st) (rm_factions m)) mod 256
    \<and> unat (rm_exalted m) = length (filter (\<lambda>(k, st). REP_EXALTED \<le> state_rank env st) (rm_factions m)) mod 256"
  using reputation.reachable_inv [OF assms]
  by (simp add: rep_inv_def counts_ok_def count8_def unat_of_nat case_prod_unfold)

theorem rank_counters_exact_witness:
  "unat (rm_visible demo_loaded) = length (filter (\<lambda>(k, st). fs_visible st) (rm_factions demo_loaded)) mod 256"
  using rank_counters_exact [OF demo_loaded_reachable] by blast

text \<open>
  The initial packet has exactly 128 slots when the list ids are below 128: slot \<open>i\<close> carries
  the flags and standing of the faction with list id \<open>i\<close>, or zeros when there is none.
\<close>

theorem initial_packet_layout:
  assumes "reachable (rep_init env) (rep_step env) m" "\<forall>e \<in> set (rm_factions m). fst e < 128"
  shows "snd (SendInitialReputations m) = [SendDirectMessage (pkt SMSG_INITIALIZE_FACTIONS
    (FU32 128 # concat (map (\<lambda>i. rep_fields (map_of (rm_factions m) (word_of_nat i))) [0 ..< 128])))]"
proof -
  have "map_wf (rm_factions m)" using reputation.reachable_inv [OF assms(1)] rep_inv_wf by blast
  with initial_loop_result [of "rm_factions m" 0] assms(2) show ?thesis
    by (simp add: SendInitialReputations_def Let_def split_beta comp_def)
qed

theorem initial_packet_layout_witness:
  "snd (SendInitialReputations demo_loaded) = [SendDirectMessage (pkt SMSG_INITIALIZE_FACTIONS
    (FU32 128 # concat (map (\<lambda>i. rep_fields (map_of (rm_factions demo_loaded) (word_of_nat i))) [0 ..< 128])))]"
  by (rule initial_packet_layout [OF demo_loaded_reachable]) (simp add: demo_loaded_def)

text \<open>
  Forced peace is kept: in no reachable state is a faction with the peace flag at war, whatever
  standings, war toggles and database rows were applied.
\<close>

theorem forced_peace_kept:
  assumes "reachable (rep_init env) (rep_step env) m" "re_faction env i = Some fe" "GetState fe m = Some st"
    and "has_flag (fs_Flags st) FACTION_FLAG_PEACE_FORCED"
  shows "\<not> IsAtWar env i m"
proof -
  have "fs_peaceful st"
    using reputation.reachable_inv [OF assms(1)] assms(3) rep_inv_peaceful
    by (auto simp: GetState_def split: if_splits)
  with assms(2-4) show ?thesis by (simp add: IsAtWar_def fs_peaceful_def)
qed

theorem forced_peace_kept_witness:
  "\<not> IsAtWar demo_rep 1 demo_loaded"
proof (rule forced_peace_kept [OF demo_loaded_reachable demo_rep_entries(1)])
  show "GetState (demo_faction 1 0 3100 0x11) demo_loaded = Some \<lparr>fs_ID = 1, fs_ReputationListID = 0,
      fs_Standing = 0, fs_Flags = 0x11, fs_needSend = True, fs_needSave = True\<rparr>"
    by (simp add: GetState_def CanHaveReputation_def rep_key_def demo_faction_def demo_loaded_def)
qed (simp add: has_flag_def)

end
