(* ===== verification/LFGRoles.thy ===== *)
theory LFGRoles
  imports FC_Prelude
begin

text \<open>
  The role check of the dungeon finder, \<^verbatim>\<open>LFGMgr::CheckGroupRoles\<close>
  (\<^verbatim>\<open>game/DungeonFinding/LFGMgr.cpp\<close>): a search with backtracking for an assignment of one role to
  each player, one tank, one healer and three damage dealers at most.  The loop runs over the
  container its recursive calls change and give back; it is translated with the depth of the
  recursion as fuel.  The lemmas show that it decides exactly whether an assignment exists, that
  the container then holds one, that a failed search leaves the container as it was, and that the
  fuel is enough.
\<close>

section \<open>Roles\<close>

type_synonym LfgRolesMap = "(uint64, uint8) smap"

abbreviation LFG_TANKS_NEEDED :: uint8 where "LFG_TANKS_NEEDED \<equiv> 1"
abbreviation LFG_HEALERS_NEEDED :: uint8 where "LFG_HEALERS_NEEDED \<equiv> 1"
abbreviation LFG_DPS_NEEDED :: uint8 where "LFG_DPS_NEEDED \<equiv> 3"

abbreviation PLAYER_ROLE_NONE :: uint8 where "PLAYER_ROLE_NONE \<equiv> 0x00"
abbreviation PLAYER_ROLE_LEADER :: uint8 where "PLAYER_ROLE_LEADER \<equiv> 0x01"
abbreviation PLAYER_ROLE_TANK :: uint8 where "PLAYER_ROLE_TANK \<equiv> 0x02"
abbreviation PLAYER_ROLE_HEALER :: uint8 where "PLAYER_ROLE_HEALER \<equiv> 0x04"
abbreviation PLAYER_ROLE_DAMAGE :: uint8 where "PLAYER_ROLE_DAMAGE \<equiv> 0x08"

section \<open>The role check\<close>

abbreviation role_at :: "LfgRolesMap \<Rightarrow> uint64 \<Rightarrow> uint8" where
  "role_at g k \<equiv> map_at PLAYER_ROLE_NONE g k"

text \<open>
  One of the three blocks of the loop body, for the role \<open>role\<close> of which \<open>needed\<close> may be taken:
  \<open>Inl b\<close> is a return of \<open>b\<close>, \<open>Inr\<close> the counter with which the body goes on.  \<open>rec\<close> is the
  recursive call on the changed container.
\<close>

definition try_role ::
    "(LfgRolesMap \<Rightarrow> (bool \<times> LfgRolesMap) option) \<Rightarrow> uint8 \<Rightarrow> uint8 \<Rightarrow> uint64 \<Rightarrow> uint8 \<Rightarrow> LfgRolesMap
     \<Rightarrow> ((bool + uint8) \<times> LfgRolesMap) option" where
  "try_role rec role needed k counter g =
     (if role_at g k AND role = 0 then Some (Inr counter, g)
      else if role_at g k \<noteq> role
      then (case rec (map_put k (role_at g k - role) g) of
              None \<Rightarrow> None
            | Some (True, g') \<Rightarrow> Some (Inl True, g')
            | Some (False, g') \<Rightarrow> Some (Inr counter, map_put k (role_at g' k + role) g'))
      else if counter = needed then Some (Inl False, g)
      else Some (Inr (counter + 1), g))"

definition role_then ::
    "((bool + uint8) \<times> LfgRolesMap) option \<Rightarrow> (uint8 \<Rightarrow> LfgRolesMap \<Rightarrow> (bool \<times> LfgRolesMap) option)
     \<Rightarrow> (bool \<times> LfgRolesMap) option" where
  "role_then r f = (case r of None \<Rightarrow> None | Some (Inl b, g) \<Rightarrow> Some (b, g) | Some (Inr c, g) \<Rightarrow> f c g)"

primrec roles_loop ::
    "(LfgRolesMap \<Rightarrow> (bool \<times> LfgRolesMap) option) \<Rightarrow> uint64 list \<Rightarrow> uint8 \<Rightarrow> uint8 \<Rightarrow> uint8 \<Rightarrow> LfgRolesMap
     \<Rightarrow> (bool \<times> LfgRolesMap) option" where
  "roles_loop rec [] damage healer tank g =
     Some (unat tank + unat healer + unat damage = length g mod 256, g)"
| "roles_loop rec (k # ks) damage healer tank g =
     (if role_at g k = PLAYER_ROLE_NONE then Some (False, g)
      else role_then (try_role rec PLAYER_ROLE_DAMAGE LFG_DPS_NEEDED k damage g) (\<lambda>damage g.
           role_then (try_role rec PLAYER_ROLE_HEALER LFG_HEALERS_NEEDED k healer g) (\<lambda>healer g.
           role_then (try_role rec PLAYER_ROLE_TANK LFG_TANKS_NEEDED k tank g) (\<lambda>tank g.
             roles_loop rec ks damage healer tank g))))"

text \<open>\<open>None\<close> is running out of fuel, the depth of the recursion.\<close>

primrec check_group_roles :: "nat \<Rightarrow> LfgRolesMap \<Rightarrow> (bool \<times> LfgRolesMap) option" where
  "check_group_roles 0 g = None"
| "check_group_roles (Suc n) g =
     (if g = [] then Some (False, g) else roles_loop (check_group_roles n) (map fst g) 0 0 0 g)"

text \<open>Each recursive call removes one of three roles of one player, so this depth is enough.\<close>

definition role_fuel :: "LfgRolesMap \<Rightarrow> nat" where
  "role_fuel g = 3 * length g + 1"

definition remove_leader :: "LfgRolesMap \<Rightarrow> LfgRolesMap" where
  "remove_leader g = map (\<lambda>(k, m). (k, clear_flag m PLAYER_ROLE_LEADER)) g"

definition CheckGroupRoles :: "LfgRolesMap \<Rightarrow> bool \<times> LfgRolesMap" where
  "CheckGroupRoles g =
     (case check_group_roles (role_fuel g) (remove_leader g) of Some r \<Rightarrow> r | None \<Rightarrow> (False, remove_leader g))"

text \<open>
  What the role check decides.  A role table \<open>a\<close> assigns the players of \<open>g\<close> when it gives every
  player one role he selected, and at most one tank, one healer and three damage dealers.
\<close>

definition one_role :: "uint8 \<Rightarrow> bool" where
  "one_role r \<longleftrightarrow> r = PLAYER_ROLE_TANK \<or> r = PLAYER_ROLE_HEALER \<or> r = PLAYER_ROLE_DAMAGE"

definition count_role :: "uint8 \<Rightarrow> LfgRolesMap \<Rightarrow> nat" where
  "count_role r g = length (filter (\<lambda>e. snd e = r) g)"

definition within_limits :: "LfgRolesMap \<Rightarrow> bool" where
  "within_limits a \<longleftrightarrow> count_role PLAYER_ROLE_TANK a \<le> 1 \<and> count_role PLAYER_ROLE_HEALER a \<le> 1
     \<and> count_role PLAYER_ROLE_DAMAGE a \<le> 3"

definition fits :: "uint64 \<times> uint8 \<Rightarrow> uint64 \<times> uint8 \<Rightarrow> bool" where
  "fits e a \<longleftrightarrow> fst a = fst e \<and> one_role (snd a) \<and> snd e AND snd a \<noteq> 0"

definition assigns :: "LfgRolesMap \<Rightarrow> LfgRolesMap \<Rightarrow> bool" where
  "assigns g a \<longleftrightarrow> list_all2 fits g a \<and> within_limits a"

text \<open>Masks with bits outside the four roles are never accepted.\<close>

definition known_roles :: "uint8 \<Rightarrow> bool" where
  "known_roles m \<longleftrightarrow> m AND 0xF1 = 0"

definition feasible :: "LfgRolesMap \<Rightarrow> bool" where
  "feasible g \<longleftrightarrow> g \<noteq> [] \<and> list_all (\<lambda>e. known_roles (snd e)) g \<and> (\<exists>a. assigns g a)"

section \<open>Correctness of the role check\<close>

lemma role_bits:
  "PLAYER_ROLE_TANK = 2 ^ 1" "PLAYER_ROLE_HEALER = 2 ^ 2" "PLAYER_ROLE_DAMAGE = 2 ^ 3"
  by simp_all

definition role_ix :: "nat set" where
  "role_ix = {1, 2, 3}"

lemma one_role_bits: "one_role r \<longleftrightarrow> (\<exists>i \<in> role_ix. r = 2 ^ i)"
  by (simp add: one_role_def role_ix_def)

lemma and_role_iff: "(m :: uint8) AND 2 ^ i = 0 \<longleftrightarrow> \<not> bit m i"
  by (simp add: and_exp_eq_0_iff_not_bit)

lemma fits_bits: "fits e a \<longleftrightarrow> fst a = fst e \<and> (\<exists>i \<in> role_ix. snd a = 2 ^ i \<and> bit (snd e) i)"
  unfolding fits_def one_role_bits by (auto simp: and_role_iff)

lemma one_role_and: "one_role r \<Longrightarrow> one_role r' \<Longrightarrow> r AND r' \<noteq> 0 \<longleftrightarrow> r = r'"
  by (auto simp: one_role_def)

lemma drop_role: "bit m i \<Longrightarrow> m - 2 ^ i = unset_bit i (m :: uint8)"
  by (simp add: unset_bit_eq)

lemma known_roles_bits: "known_roles m \<longleftrightarrow> (\<forall>n. bit m n \<longrightarrow> n \<in> role_ix)"
proof -
  have "bit (0xF1 :: uint8) n \<longleftrightarrow> n \<notin> role_ix" if "n < 8" for n
  proof -
    from that have "n \<in> {0, 1, 2, 3, 4, 5, 6, 7}" by auto
    then show ?thesis unfolding role_ix_def by (auto simp: bit_simps)
  qed
  moreover have "n < 8" if "bit m n" for n using bit_imp_le_length [OF that] by simp
  ultimately show ?thesis unfolding known_roles_def bit_eq_iff bit_and_iff by auto
qed

text \<open>The number of roles a table offers; every recursive call lowers it.\<close>

definition offered :: "uint8 \<Rightarrow> nat" where
  "offered m = of_bool (bit m 1) + of_bool (bit m 2) + of_bool (bit m 3)"

definition total_offered :: "LfgRolesMap \<Rightarrow> nat" where
  "total_offered g = sum_list (map (\<lambda>e. offered (snd e)) g)"

lemma offered_drop: "i \<in> role_ix \<Longrightarrow> bit m i \<Longrightarrow> offered (m - 2 ^ i) < offered m"
  by (auto simp: drop_role offered_def bit_unset_bit_iff role_ix_def)

lemma total_offered_bound: "total_offered g \<le> 3 * length g"
  by (induction g) (auto simp: total_offered_def offered_def)

lemma total_offered_append [simp]: "total_offered (ps @ (k, m) # rest) = total_offered ps + offered m + total_offered rest"
  by (simp add: total_offered_def)

lemma map_put_present: "map_wf (ps @ (k, m) # rest) \<Longrightarrow> map_put k v (ps @ (k, m) # rest) = ps @ (k, v) # rest"
  by (induction ps) auto

lemma map_at_present: "map_wf (ps @ (k, m) # rest) \<Longrightarrow> map_at d (ps @ (k, m) # rest) k = m"
  by (induction ps) (auto simp: map_at_def)

lemma map_wf_middle: "map_wf (ps @ (k, m) # rest) \<Longrightarrow> map_wf (ps @ (k, v) # rest)"
  by (simp add: map_wf_def)

definition decides :: "LfgRolesMap \<Rightarrow> (bool \<times> LfgRolesMap) option \<Rightarrow> bool" where
  "decides g r \<longleftrightarrow> (\<exists>g'. r = Some (feasible g, g') \<and> (if feasible g then assigns g g' else g' = g))"

lemma feasible_iff: "feasible g \<longleftrightarrow> g \<noteq> [] \<and> (\<forall>e \<in> set g. known_roles (snd e)) \<and> (\<exists>a. assigns g a)"
  by (auto simp: feasible_def list_all_iff)

lemma fits_split:
  "list_all2 fits (ps @ e # rest) a \<longleftrightarrow>
     (\<exists>a1 x a2. a = a1 @ x # a2 \<and> list_all2 fits ps a1 \<and> fits e x \<and> list_all2 fits rest a2)"
proof
  assume "list_all2 fits (ps @ e # rest) a"
  then show "\<exists>a1 x a2. a = a1 @ x # a2 \<and> list_all2 fits ps a1 \<and> fits e x \<and> list_all2 fits rest a2"
    by (auto simp: list_all2_append1 list_all2_Cons1)
qed (auto intro!: list_all2_appendI)

lemma assigns_more:
  assumes "assigns (ps @ (k, m - 2 ^ i) # rest) a" "bit m i"
  shows "assigns (ps @ (k, m) # rest) a"
proof -
  have "fits (k, m) x" if "fits (k, m - 2 ^ i) x" for x
    using that assms(2) by (auto simp: fits_bits drop_role bit_unset_bit_iff)
  with assms(1) show ?thesis unfolding assigns_def fits_split by blast
qed

lemma feasible_more:
  assumes "feasible (ps @ (k, m - 2 ^ i) # rest)" "bit m i" "i \<in> role_ix"
  shows "feasible (ps @ (k, m) # rest)"
proof -
  have "known_roles m" if "known_roles (m - 2 ^ i)"
    using that assms(2,3) by (auto simp: known_roles_bits drop_role bit_unset_bit_iff)
  with assms show ?thesis by (auto simp: feasible_iff intro: assigns_more)
qed

lemma feasible_less:
  assumes "feasible (ps @ (k, m) # rest)" "\<not> one_role m"
  shows "\<exists>i \<in> role_ix. bit m i \<and> feasible (ps @ (k, m - 2 ^ i) # rest)"
proof -
  from assms obtain a1 x a2 where a: "list_all2 fits ps a1" "fits (k, m) x" "list_all2 fits rest a2"
    and lim: "within_limits (a1 @ x # a2)"
    unfolding feasible_iff assigns_def fits_split by blast
  from a(2) obtain j where j: "j \<in> role_ix" "snd x = 2 ^ j" "bit m j"
    by (auto simp: fits_bits)
  have known: "known_roles m" using assms(1) by (auto simp: feasible_iff)
  have "\<exists>i. bit m i \<and> i \<noteq> j"
  proof (rule ccontr)
    assume "\<not> ?thesis"
    then have "bit m n \<longleftrightarrow> n = j" for n using j(3) by blast
    then have "m = 2 ^ j" using bit_imp_le_length [OF j(3)] by (auto simp: bit_eq_iff bit_exp_iff)
    with j(1) assms(2) show False by (auto simp: one_role_bits)
  qed
  then obtain i where i: "bit m i" "i \<noteq> j" "i \<in> role_ix" using known by (auto simp: known_roles_bits)
  have "fits (k, m - 2 ^ i) x"
    using a(2) i j by (auto simp: fits_bits drop_role bit_unset_bit_iff)
  then have "assigns (ps @ (k, m - 2 ^ i) # rest) (a1 @ x # a2)"
    using a lim unfolding assigns_def fits_split by blast
  moreover have "known_roles (m - 2 ^ i)"
    using known i by (auto simp: known_roles_bits drop_role bit_unset_bit_iff)
  ultimately have "feasible (ps @ (k, m - 2 ^ i) # rest)" using assms(1) by (auto simp: feasible_iff)
  with i show ?thesis by blast
qed

lemma count_role_fits:
  assumes "one_role r" "list_all2 fits g a"
  shows "count_role r g \<le> count_role r a"
  using assms(2)
proof (induction rule: list_all2_induct)
  case (Cons e g x a)
  with assms(1) one_role_and [of r "snd x"] show ?case by (auto simp: count_role_def fits_def)
qed simp

lemma count_role_append [simp]: "count_role r (ps @ rest) = count_role r ps + count_role r rest"
  by (simp add: count_role_def)

lemma count_role_Cons [simp]: "count_role r (e # g) = (if snd e = r then 1 else 0) + count_role r g"
  by (simp add: count_role_def)

lemma count_role_Nil [simp]: "count_role r [] = 0"
  by (simp add: count_role_def)

definition role_sum :: "LfgRolesMap \<Rightarrow> nat" where
  "role_sum g = count_role PLAYER_ROLE_TANK g + count_role PLAYER_ROLE_HEALER g + count_role PLAYER_ROLE_DAMAGE g"

lemma role_sum_le: "role_sum g \<le> length g"
  by (induction g) (auto simp: role_sum_def)

lemma role_sum_full: "role_sum g = length g \<longleftrightarrow> (\<forall>e \<in> set g. one_role (snd e))"
proof (induction g)
  case (Cons e g)
  have "role_sum (e # g) = (if one_role (snd e) then 1 else 0) + role_sum g"
    by (auto simp: role_sum_def one_role_def)
  with Cons role_sum_le [of g] show ?case by auto
qed (simp add: role_sum_def)

lemma single_roles_feasible:
  assumes "g \<noteq> []" "\<forall>e \<in> set g. one_role (snd e)" "within_limits g"
  shows "feasible g \<and> assigns g g"
proof -
  have "fits e e \<and> known_roles (snd e)" if "e \<in> set g" for e
    using assms(2) that by (auto simp: fits_def one_role_def known_roles_def)
  moreover from this have "list_all2 fits g g" by (auto intro: list.rel_refl_strong)
  ultimately show ?thesis using assms unfolding feasible_iff assigns_def by blast
qed

lemma decides_result: "decides g r \<Longrightarrow> \<exists>g'. r = Some (feasible g, g') \<and> (\<not> feasible g \<longrightarrow> g' = g)"
  by (auto simp: decides_def)

text \<open>A recursive call that fails leaves the container as it was once the role is given back.\<close>

lemma try_role_multi:
  assumes "map_wf (ps @ (k, m) # rest)" "i \<in> role_ix" "m \<noteq> 2 ^ i"
    and "bit m i \<Longrightarrow> decides (ps @ (k, m - 2 ^ i) # rest) (rec (ps @ (k, m - 2 ^ i) # rest))"
  shows "role_then (try_role rec (2 ^ i) needed k c (ps @ (k, m) # rest)) f
      = (if bit m i \<and> feasible (ps @ (k, m - 2 ^ i) # rest) then rec (ps @ (k, m - 2 ^ i) # rest)
         else f c (ps @ (k, m) # rest))"
proof (cases "bit m i")
  case True
  let ?h = "ps @ (k, m - 2 ^ i) # rest"
  have wf: "map_wf ?h" using assms(1) by (rule map_wf_middle)
  from decides_result [OF assms(4) [OF True]] obtain g'
    where g': "rec ?h = Some (feasible ?h, g')" "\<not> feasible ?h \<longrightarrow> g' = ?h" by blast
  have at: "role_at (ps @ (k, m) # rest) k = m" "role_at ?h k = m - 2 ^ i"
    and put: "map_put k (m - 2 ^ i) (ps @ (k, m) # rest) = ?h" "map_put k m ?h = ps @ (k, m) # rest"
    using map_put_present [OF assms(1)] map_put_present [OF wf] map_at_present [OF assms(1)]
      map_at_present [OF wf] by blast+
  have t: "try_role rec (2 ^ i) needed k c (ps @ (k, m) # rest) =
      (case rec ?h of None \<Rightarrow> None | Some (True, g') \<Rightarrow> Some (Inl True, g')
       | Some (False, g') \<Rightarrow> Some (Inr c, map_put k (role_at g' k + 2 ^ i) g'))"
    unfolding try_role_def at put using True assms(3) by (simp only: and_role_iff simp_thms if_True if_False)
  show ?thesis
  proof (cases "feasible ?h")
    case f: True
    with t g'(1) True show ?thesis by (simp add: role_then_def)
  next
    case f: False
    have "m - 2 ^ i + 2 ^ i = m" by simp
    with f t g' at put True show ?thesis by (simp add: role_then_def del: power_numeral)
  qed
next
  case False
  then show ?thesis using map_at_present [OF assms(1)] by (simp add: try_role_def role_then_def and_role_iff)
qed

lemma try_role_other:
  assumes "map_wf (ps @ (k, r) # rest)" "one_role r" "one_role r'" "r' \<noteq> r"
  shows "role_then (try_role rec r' needed k c (ps @ (k, r) # rest)) f = f c (ps @ (k, r) # rest)"
  using map_at_present [OF assms(1)] one_role_and [OF assms(2,3)] assms(4)
  by (simp add: try_role_def role_then_def)

lemma try_role_same:
  assumes "map_wf (ps @ (k, r) # rest)" "one_role r"
  shows "role_then (try_role rec r needed k c (ps @ (k, r) # rest)) f
    = (if c = needed then Some (False, ps @ (k, r) # rest) else f (c + 1) (ps @ (k, r) # rest))"
  using map_at_present [OF assms(1)] one_role_and [OF assms(2,2)]
  by (simp add: try_role_def role_then_def)

lemma too_many_infeasible:
  assumes "one_role r" "count_role r g > (if r = PLAYER_ROLE_DAMAGE then 3 else 1)"
  shows "\<not> feasible g"
  using assms count_role_fits [OF assms(1), of g]
  by (fastforce simp: feasible_iff assigns_def within_limits_def one_role_def split: if_splits)

lemma no_role_infeasible: "\<not> feasible (ps @ (k, 0) # rest)"
  by (auto simp: feasible_iff assigns_def fits_split fits_def)

lemma decides_infeasible: "\<not> feasible g \<Longrightarrow> decides g (Some (False, g))"
  by (simp add: decides_def)

lemma decides_sub:
  assumes "decides (ps @ (k, m - 2 ^ i) # rest) r" "feasible (ps @ (k, m - 2 ^ i) # rest)" "bit m i" "i \<in> role_ix"
  shows "decides (ps @ (k, m) # rest) r"
  using assms feasible_more [OF assms(2-4)] assigns_more [OF _ assms(3)] by (auto simp: decides_def)

text \<open>
  The state of the loop after the players \<open>ps\<close>: the counters count the players with exactly one
  role, and no assignment exists once a player with several roles has been passed.
\<close>

definition loop_state :: "LfgRolesMap \<Rightarrow> LfgRolesMap \<Rightarrow> uint8 \<Rightarrow> uint8 \<Rightarrow> uint8 \<Rightarrow> bool" where
  "loop_state g ps damage healer tank \<longleftrightarrow>
     unat damage = count_role PLAYER_ROLE_DAMAGE ps \<and> unat healer = count_role PLAYER_ROLE_HEALER ps
     \<and> unat tank = count_role PLAYER_ROLE_TANK ps \<and> within_limits ps
     \<and> ((\<exists>e \<in> set ps. \<not> one_role (snd e)) \<longrightarrow> \<not> feasible g)"

lemma counter_step: "unat c \<le> 3 \<Longrightarrow> unat (c + 1 :: uint8) = unat c + 1"
  by (simp add: unat_word_ariths)

lemma counter_full: "c = LFG_DPS_NEEDED \<longleftrightarrow> unat c = 3" "c = LFG_TANKS_NEEDED \<longleftrightarrow> unat c = 1"
  by (simp_all add: word_unat_eq_iff)

lemma loop_state_end:
  assumes "loop_state g g damage healer tank" "g \<noteq> []" "length g < 256"
  shows "decides g (roles_loop rec [] damage healer tank g)"
proof -
  have sum: "unat tank + unat healer + unat damage = role_sum g"
    using assms(1) by (simp add: loop_state_def role_sum_def)
  show ?thesis
  proof (cases "role_sum g = length g")
    case True
    then have "feasible g \<and> assigns g g"
      using assms(1,2) by (intro single_roles_feasible) (auto simp: role_sum_full loop_state_def)
    with True assms(3) sum show ?thesis by (simp add: decides_def)
  next
    case False
    then have "\<not> feasible g" using assms(1) by (auto simp: role_sum_full loop_state_def)
    with False assms(3) sum show ?thesis by (simp add: decides_infeasible)
  qed
qed

lemma roles_loop_single:
  assumes wf: "map_wf (ps @ (k, m) # rest)" and st: "loop_state (ps @ (k, m) # rest) ps d h t" and m: "one_role m"
    and cont: "\<And>d h t. loop_state (ps @ (k, m) # rest) (ps @ [(k, m)]) d h t \<Longrightarrow>
       decides (ps @ (k, m) # rest) (roles_loop rec (map fst rest) d h t (ps @ (k, m) # rest))"
  shows "decides (ps @ (k, m) # rest) (roles_loop rec (map fst ((k, m) # rest)) d h t (ps @ (k, m) # rest))"
proof -
  let ?g = "ps @ (k, m) # rest"
  have at: "role_at ?g k = m" using map_at_present [OF wf] .
  note other = try_role_other [OF wf m] and same = try_role_same [OF wf m]
  have many: "decides ?g (Some (False, ?g))" if "count_role m ps = (if m = PLAYER_ROLE_DAMAGE then 3 else 1)"
    using that by (intro decides_infeasible too_many_infeasible [OF m]) simp
  have lim: "unat d \<le> 3" "unat h \<le> 1" "unat t \<le> 1" using st by (simp_all add: loop_state_def within_limits_def)
  from m consider "m = PLAYER_ROLE_DAMAGE" | "m = PLAYER_ROLE_HEALER" | "m = PLAYER_ROLE_TANK"
    by (auto simp: one_role_def)
  then show ?thesis
  proof cases
    case 1
    have "loop_state ?g (ps @ [(k, m)]) (d + 1) h t" if "d \<noteq> LFG_DPS_NEEDED"
      using that st lim counter_step [of d] m 1 by (auto simp: loop_state_def within_limits_def counter_full)
    with 1 st show ?thesis
      using at other same many cont [of "d + 1" h t] by (simp add: one_role_def counter_full loop_state_def)
  next
    case 2
    have "loop_state ?g (ps @ [(k, m)]) d (h + 1) t" if "h \<noteq> LFG_HEALERS_NEEDED"
      using that st lim counter_step [of h] m 2 by (auto simp: loop_state_def within_limits_def counter_full)
    with 2 st show ?thesis
      using at other same many cont [of d "h + 1" t] by (simp add: one_role_def counter_full loop_state_def)
  next
    case 3
    have "loop_state ?g (ps @ [(k, m)]) d h (t + 1)" if "t \<noteq> LFG_TANKS_NEEDED"
      using that st lim counter_step [of t] m 3 by (auto simp: loop_state_def within_limits_def counter_full)
    with 3 st show ?thesis
      using at other same many cont [of d h "t + 1"] by (simp add: one_role_def counter_full loop_state_def)
  qed
qed

lemma first_role_index:
  "\<exists>i \<in> role_ix. P i \<Longrightarrow>
   \<exists>i \<in> role_ix. P i \<and> (if P 3 then F 3 else if P 2 then F 2 else if P 1 then F 1 else z) = F i"
  by (auto simp: role_ix_def)

lemma roles_loop_multi:
  assumes wf: "map_wf (ps @ (k, m) # rest)" and st: "loop_state (ps @ (k, m) # rest) ps d h t"
    and m: "\<not> one_role m" "m \<noteq> 0"
    and sub: "\<And>i. i \<in> role_ix \<Longrightarrow> bit m i \<Longrightarrow> decides (ps @ (k, m - 2 ^ i) # rest) (rec (ps @ (k, m - 2 ^ i) # rest))"
    and cont: "loop_state (ps @ (k, m) # rest) (ps @ [(k, m)]) d h t \<Longrightarrow>
       decides (ps @ (k, m) # rest) (roles_loop rec (map fst rest) d h t (ps @ (k, m) # rest))"
  shows "decides (ps @ (k, m) # rest) (roles_loop rec (map fst ((k, m) # rest)) d h t (ps @ (k, m) # rest))"
proof -
  let ?g = "ps @ (k, m) # rest" and ?sub = "\<lambda>i. ps @ (k, m - 2 ^ i) # rest"
  have ix: "1 \<in> role_ix" "2 \<in> role_ix" "3 \<in> role_ix" by (simp_all add: role_ix_def)
  have ne: "m \<noteq> 2 ^ i" if "i \<in> role_ix" for i using that m(1) by (auto simp: one_role_bits)
  have step: "role_then (try_role rec (2 ^ i) needed k c ?g) f
      = (if bit m i \<and> feasible (?sub i) then rec (?sub i) else f c ?g)" if "i \<in> role_ix" for i needed c f
    using wf that ne [OF that] sub [OF that] by (rule try_role_multi)
  have loop: "roles_loop rec (map fst ((k, m) # rest)) d h t ?g =
      (if bit m 3 \<and> feasible (?sub 3) then rec (?sub 3)
       else if bit m 2 \<and> feasible (?sub 2) then rec (?sub 2)
       else if bit m 1 \<and> feasible (?sub 1) then rec (?sub 1)
       else roles_loop rec (map fst rest) d h t ?g)"
    using map_at_present [OF wf] m(2) step [OF ix(1)] step [OF ix(2)] step [OF ix(3)] by simp
  show ?thesis
  proof (cases "\<exists>i \<in> role_ix. bit m i \<and> feasible (?sub i)")
    case True
    have "\<exists>i \<in> role_ix. (bit m i \<and> feasible (?sub i))
        \<and> roles_loop rec (map fst ((k, m) # rest)) d h t ?g = rec (?sub i)"
      unfolding loop using True by (rule first_role_index)
    then obtain i where i: "i \<in> role_ix" "bit m i" "feasible (?sub i)"
      "roles_loop rec (map fst ((k, m) # rest)) d h t ?g = rec (?sub i)" by (elim bexE conjE)
    with decides_sub [OF sub [OF i(1,2)] i(3,2,1)] show ?thesis by simp
  next
    case False
    then have "\<not> feasible ?g" using feasible_less [of ps k m rest] m(1) by blast
    then have "loop_state ?g (ps @ [(k, m)]) d h t"
      using st m by (auto simp: loop_state_def within_limits_def one_role_def)
    with cont False ix show ?thesis unfolding loop by auto
  qed
qed

lemma roles_loop_decides:
  assumes "map_wf (ps @ rest)" "length (ps @ rest) < 256" "ps @ rest \<noteq> []" "loop_state (ps @ rest) ps d h t"
    and "\<And>g'. map_wf g' \<Longrightarrow> length g' = length (ps @ rest) \<Longrightarrow> total_offered g' < total_offered (ps @ rest)
      \<Longrightarrow> decides g' (rec g')"
  shows "decides (ps @ rest) (roles_loop rec (map fst rest) d h t (ps @ rest))"
  using assms
proof (induction rest arbitrary: ps d h t)
  case Nil
  then show ?case using loop_state_end [of ps] by simp
next
  case (Cons e rest)
  obtain k m where e: "e = (k, m)" by (cases e)
  have wf: "map_wf (ps @ (k, m) # rest)" using Cons.prems(1) e by simp
  have cont: "decides (ps @ (k, m) # rest) (roles_loop rec (map fst rest) d' h' t' (ps @ (k, m) # rest))"
    if "loop_state (ps @ (k, m) # rest) (ps @ [(k, m)]) d' h' t'" for d' h' t'
    using Cons.IH [of "ps @ [(k, m)]" d' h' t'] Cons.prems that e by simp
  have sub: "decides (ps @ (k, m - 2 ^ i) # rest) (rec (ps @ (k, m - 2 ^ i) # rest))"
    if "i \<in> role_ix" "bit m i" for i
    using Cons.prems(5) [OF map_wf_middle [OF wf]] offered_drop [OF that] e by simp
  consider "m = 0" | "one_role m" | "m \<noteq> 0" "\<not> one_role m" by blast
  then show ?case
  proof cases
    case 1
    then show ?thesis
      using map_at_present [OF wf] no_role_infeasible [of ps k rest] e by (simp add: decides_infeasible)
  next
    case 2
    then show ?thesis using roles_loop_single [OF wf _ 2 cont] Cons.prems(4) e by simp
  next
    case 3
    then show ?thesis using roles_loop_multi [OF wf _ 3(2,1) sub cont] Cons.prems(4) e by simp
  qed
qed

lemma check_group_roles_decides:
  assumes "map_wf g" "length g < 256" "total_offered g < n"
  shows "decides g (check_group_roles n g)"
  using assms
proof (induction n arbitrary: g)
  case (Suc n)
  show ?case
  proof (cases "g = []")
    case True
    then show ?thesis by (simp add: decides_def feasible_def)
  next
    case False
    have "loop_state g [] 0 0 0" by (simp add: loop_state_def within_limits_def)
    with Suc False roles_loop_decides [of "[]" g 0 0 0 "check_group_roles n"] show ?thesis by simp
  qed
qed simp

lemma remove_leader_wf: "map_wf g \<Longrightarrow> map_wf (remove_leader g)"
  by (simp add: map_wf_def remove_leader_def comp_def case_prod_beta)

lemma length_remove_leader [simp]: "length (remove_leader g) = length g"
  by (simp add: remove_leader_def)

text \<open>The fuel of \<^verbatim>\<open>CheckGroupRoles\<close> is enough.\<close>

lemma CheckGroupRoles_returns:
  assumes "map_wf g" "length g < 256"
  shows "check_group_roles (role_fuel g) (remove_leader g) = Some (CheckGroupRoles g)"
    and "decides (remove_leader g) (Some (CheckGroupRoles g))"
proof -
  have d: "decides (remove_leader g) (check_group_roles (role_fuel g) (remove_leader g))"
    using assms total_offered_bound [of "remove_leader g"]
    by (intro check_group_roles_decides) (simp_all add: remove_leader_wf role_fuel_def)
  then show "check_group_roles (role_fuel g) (remove_leader g) = Some (CheckGroupRoles g)"
    by (auto simp: decides_def CheckGroupRoles_def)
  with d show "decides (remove_leader g) (Some (CheckGroupRoles g))" by simp
qed

section \<open>Properties\<close>

lemma bit_without_leader: "bit (clear_flag m PLAYER_ROLE_LEADER) n \<longleftrightarrow> bit m n \<and> n \<noteq> 0"
  by (auto simp: clear_flag_def bit_simps dest: bit_imp_le_length)

lemma fits_without_leader: "fits (k, clear_flag m PLAYER_ROLE_LEADER) a \<longleftrightarrow> fits (k, m) a"
  by (auto simp: fits_bits bit_without_leader role_ix_def)

lemma assigns_without_leader: "assigns (remove_leader g) a \<longleftrightarrow> assigns g a"
proof -
  have "list_all2 fits (remove_leader g) a \<longleftrightarrow> list_all2 fits g a"
    by (induction g arbitrary: a) (auto simp: remove_leader_def list_all2_Cons1 fits_without_leader)
  then show ?thesis by (simp add: assigns_def)
qed

text \<open>The masks that name nothing but the four roles.\<close>

definition client_roles :: "uint8 \<Rightarrow> bool" where
  "client_roles m \<longleftrightarrow> m AND 0xF0 = 0"

lemma known_without_leader: "known_roles (clear_flag m PLAYER_ROLE_LEADER) \<longleftrightarrow> client_roles m"
proof -
  have "clear_flag m PLAYER_ROLE_LEADER AND 0xF1 = m AND (NOT 1 AND 0xF1)" by (simp add: clear_flag_def and.assoc)
  then show ?thesis by (simp add: known_roles_def client_roles_def)
qed

lemma feasible_without_leader:
  "feasible (remove_leader g) \<longleftrightarrow> g \<noteq> [] \<and> (\<forall>e \<in> set g. client_roles (snd e)) \<and> (\<exists>a. assigns g a)"
  unfolding feasible_iff assigns_without_leader by (auto simp: remove_leader_def known_without_leader)

lemma CheckGroupRoles_answer:
  assumes "map_wf g" "length g < 256"
  shows "fst (CheckGroupRoles g) \<longleftrightarrow> g \<noteq> [] \<and> (\<forall>e \<in> set g. client_roles (snd e)) \<and> (\<exists>a. assigns g a)"
  using CheckGroupRoles_returns(2) [OF assms] unfolding feasible_without_leader [symmetric]
  by (cases "CheckGroupRoles g") (auto simp: decides_def split: if_splits)

text \<open>
  C9.  The role check is a correct and complete search that always ends: it answers exactly whether
  every player has selected nothing but the roles there are and can be given one of those he selected with
  at most one tank, one healer and three damage dealers; when it succeeds the table holds such an
  assignment, and when it fails the table has only lost the leader flags.
\<close>

theorem role_check_complete:
  assumes "map_wf g" "g \<noteq> []" "length g < 256"
  shows "(\<exists>r. check_group_roles (role_fuel g) (remove_leader g) = Some r)
    \<and> (fst (CheckGroupRoles g) \<longleftrightarrow> (\<forall>e \<in> set g. client_roles (snd e)) \<and> (\<exists>a. assigns g a))
    \<and> (fst (CheckGroupRoles g) \<longrightarrow> assigns g (snd (CheckGroupRoles g)))
    \<and> (\<not> fst (CheckGroupRoles g) \<longrightarrow> snd (CheckGroupRoles g) = remove_leader g)"
  using CheckGroupRoles_returns [OF assms(1,3)] CheckGroupRoles_answer [OF assms(1,3)] assms(2)
  by (cases "CheckGroupRoles g") (auto simp: decides_def assigns_without_leader split: if_splits)

theorem role_check_complete_witness:
  "fst (CheckGroupRoles [(1, 0x0F), (2, 0x08), (3, 0x0C), (4, 0x08), (5, 0x0A)])
   \<and> assigns [(1, 0x0F), (2, 0x08), (3, 0x0C), (4, 0x08), (5, 0x0A)]
       (snd (CheckGroupRoles [(1, 0x0F), (2, 0x08), (3, 0x0C), (4, 0x08), (5, 0x0A)]))"
proof -
  let ?g = "[(1, 0x0F), (2, 0x08), (3, 0x0C), (4, 0x08), (5, 0x0A)] :: LfgRolesMap"
  have "assigns ?g [(1, 0x08), (2, 0x08), (3, 0x04), (4, 0x08), (5, 0x02)]"
    by (simp add: assigns_def fits_def one_role_def within_limits_def)
  then have "\<exists>a. assigns ?g a" ..
  moreover have "map_wf ?g" "?g \<noteq> []" "length ?g < 256" "\<forall>e \<in> set ?g. client_roles (snd e)"
    by (simp_all add: client_roles_def)
  ultimately show ?thesis using role_check_complete [of ?g] by blast
qed

end
