(* ===== verification/LFGQueue.thy ===== *)
theory LFGQueue
  imports Util ObjectGuid LFGRoles
begin

text \<open>
  The dungeon finder's queue: \<^verbatim>\<open>game/DungeonFinding/LFGQueue.{h,cpp}\<close>.

  The queue keeps the data of every queued player or group, a cache of compatibilities keyed by
  the concatenated GUIDs, four tables of average wait times, the list of groups that wait and the
  list of groups that have just come.  What the queue asks the manager (states, ignore lists, LFG
  groups, random numbers, the clock) is the record \<open>lfg_env\<close>, constant while a queue operation
  runs, because \<^verbatim>\<open>LFGMgr::AddProposal\<close> only stores the proposal.  The proposals stored that way
  and the number of random numbers drawn are the last two fields of the queue's record.

  The search for groups is a loop around a recursive call that changes the list the loop runs over;
  it is translated with fuel, and the fuel is shown to be enough.
\<close>

section \<open>Data\<close>

type_synonym LfgDungeonSet = "uint32 sset"
type_synonym LfgGuidList = "uint64 list"

abbreviation MAXGROUPSIZE :: nat where "MAXGROUPSIZE \<equiv> 5"
abbreviation LFG_TIME_PROPOSAL :: int where "LFG_TIME_PROPOSAL \<equiv> 45"

datatype LfgState =
    LFG_STATE_NONE | LFG_STATE_ROLECHECK | LFG_STATE_QUEUED | LFG_STATE_PROPOSAL | LFG_STATE_BOOT
  | LFG_STATE_DUNGEON | LFG_STATE_FINISHED_DUNGEON | LFG_STATE_RAIDBROWSER

datatype LfgCompatibility =
    LFG_COMPATIBILITY_PENDING
  | LFG_INCOMPATIBLES_WRONG_GROUP_SIZE
  | LFG_INCOMPATIBLES_TOO_MUCH_PLAYERS
  | LFG_INCOMPATIBLES_MULTIPLE_LFG_GROUPS
  | LFG_INCOMPATIBLES_HAS_IGNORES
  | LFG_INCOMPATIBLES_NO_ROLES
  | LFG_INCOMPATIBLES_NO_DUNGEONS
  | LFG_COMPATIBLES_WITH_LESS_PLAYERS
  | LFG_COMPATIBLES_BAD_STATES
  | LFG_COMPATIBLES_MATCH

text \<open>The enumerators in the order of the source, which the code compares with \<^verbatim>\<open><\<close>.\<close>

fun compat_nat :: "LfgCompatibility \<Rightarrow> nat" where
  "compat_nat LFG_COMPATIBILITY_PENDING = 0"
| "compat_nat LFG_INCOMPATIBLES_WRONG_GROUP_SIZE = 1"
| "compat_nat LFG_INCOMPATIBLES_TOO_MUCH_PLAYERS = 2"
| "compat_nat LFG_INCOMPATIBLES_MULTIPLE_LFG_GROUPS = 3"
| "compat_nat LFG_INCOMPATIBLES_HAS_IGNORES = 4"
| "compat_nat LFG_INCOMPATIBLES_NO_ROLES = 5"
| "compat_nat LFG_INCOMPATIBLES_NO_DUNGEONS = 6"
| "compat_nat LFG_COMPATIBLES_WITH_LESS_PLAYERS = 7"
| "compat_nat LFG_COMPATIBLES_BAD_STATES = 8"
| "compat_nat LFG_COMPATIBLES_MATCH = 9"

lemma compat_nat_inj: "compat_nat a = compat_nat b \<longleftrightarrow> a = b"
  by (cases a; cases b) simp_all

instantiation LfgCompatibility :: linorder
begin

definition less_eq_LfgCompatibility :: "LfgCompatibility \<Rightarrow> LfgCompatibility \<Rightarrow> bool" where
  "less_eq_LfgCompatibility a b \<longleftrightarrow> compat_nat a \<le> compat_nat b"

definition less_LfgCompatibility :: "LfgCompatibility \<Rightarrow> LfgCompatibility \<Rightarrow> bool" where
  "less_LfgCompatibility a b \<longleftrightarrow> compat_nat a < compat_nat b"

instance
  by standard (auto simp: less_eq_LfgCompatibility_def less_LfgCompatibility_def compat_nat_inj)

end

record LfgCompatibilityData =
  cd_compatibility :: LfgCompatibility
  cd_roles :: LfgRolesMap

record LfgQueueData =
  qd_joinTime :: int
  qd_tanks :: uint8
  qd_healers :: uint8
  qd_dps :: uint8
  qd_dungeons :: LfgDungeonSet
  qd_roles :: LfgRolesMap
  qd_bestCompatible :: string

definition LfgQueueData_new :: "int \<Rightarrow> LfgDungeonSet \<Rightarrow> LfgRolesMap \<Rightarrow> LfgQueueData" where
  "LfgQueueData_new joinTime dungeons roles =
     \<lparr>qd_joinTime = joinTime, qd_tanks = LFG_TANKS_NEEDED, qd_healers = LFG_HEALERS_NEEDED,
      qd_dps = LFG_DPS_NEEDED, qd_dungeons = dungeons, qd_roles = roles, qd_bestCompatible = []\<rparr>"

record LfgWaitTime =
  wt_time :: int
  wt_number :: uint32

definition LfgWaitTime0 :: LfgWaitTime where
  "LfgWaitTime0 = \<lparr>wt_time = -1, wt_number = 0\<rparr>"

datatype LfgAnswer = LFG_ANSWER_PENDING | LFG_ANSWER_DENY | LFG_ANSWER_AGREE

datatype LfgProposalState = LFG_PROPOSAL_INITIATING | LFG_PROPOSAL_FAILED | LFG_PROPOSAL_SUCCESS

record LfgProposalPlayer =
  pp_role :: uint8
  pp_accept :: LfgAnswer
  pp_group :: uint64

record LfgProposal =
  pr_dungeonId :: uint32
  pr_state :: LfgProposalState
  pr_group :: uint64
  pr_leader :: uint64
  pr_cancelTime :: int
  pr_isNew :: bool
  pr_queues :: LfgGuidList
  pr_players :: "(uint64, LfgProposalPlayer) smap"

record LfgQueueStatusData =
  st_dungeonId :: uint32
  st_waitTime :: int
  st_waitTimeAvg :: int
  st_waitTimeTank :: int
  st_waitTimeHealer :: int
  st_waitTimeDps :: int
  st_queuedTime :: uint32
  st_tanks :: uint8
  st_healers :: uint8
  st_dps :: uint8

record LFGQueue =
  QueueDataStore :: "(uint64, LfgQueueData) smap"
  CompatibleMapStore :: "(string, LfgCompatibilityData) smap"
  waitTimesAvgStore :: "(uint32, LfgWaitTime) smap"
  waitTimesTankStore :: "(uint32, LfgWaitTime) smap"
  waitTimesHealerStore :: "(uint32, LfgWaitTime) smap"
  waitTimesDpsStore :: "(uint32, LfgWaitTime) smap"
  currentQueueStore :: LfgGuidList
  newToQueueStore :: LfgGuidList
  proposals_added :: "LfgProposal list"
  numbers_drawn :: nat

text \<open>
  What the queue learns from outside.  \<open>le_urand n lo hi\<close> is the \<open>n\<close>-th random number;
  \<open>le_online\<close> says whether \<^verbatim>\<open>ObjectAccessor::FindPlayer\<close> finds a player, \<open>le_ignores\<close> is his
  social list, \<open>le_lfgGroup\<close> is \<^verbatim>\<open>GroupsStore[guid].IsLfgGroup()\<close>.
\<close>

record lfg_env =
  le_now :: int
  le_GetState :: "uint64 \<Rightarrow> LfgState"
  le_GetOldState :: "uint64 \<Rightarrow> LfgState"
  le_lfgGroup :: "uint64 \<Rightarrow> bool"
  le_online :: "uint64 \<Rightarrow> bool"
  le_ignores :: "uint64 \<Rightarrow> uint32 \<Rightarrow> bool"
  le_GetPlayerCount :: "uint64 \<Rightarrow> uint8"
  le_urand :: "nat \<Rightarrow> nat \<Rightarrow> nat \<Rightarrow> nat"

definition IsLfgGroup :: "lfg_env \<Rightarrow> uint64 \<Rightarrow> bool" where
  "IsLfgGroup env guid \<longleftrightarrow> guid \<noteq> 0 \<and> IS_GROUP_GUID guid \<and> le_lfgGroup env guid"

definition HasIgnore :: "lfg_env \<Rightarrow> uint64 \<Rightarrow> uint64 \<Rightarrow> bool" where
  "HasIgnore env guid1 guid2 \<longleftrightarrow> le_online env guid1 \<and> le_online env guid2
     \<and> (le_ignores env guid1 (GUID_LOPART guid2) \<or> le_ignores env guid2 (GUID_LOPART guid1))"

definition AllQueued :: "lfg_env \<Rightarrow> LfgGuidList \<Rightarrow> bool" where
  "AllQueued env check \<longleftrightarrow> check \<noteq> [] \<and> list_all (\<lambda>g. le_GetState env g = LFG_STATE_QUEUED) check"

section \<open>The queue's operations\<close>

definition ConcatenateGuids :: "LfgGuidList \<Rightarrow> string" where
  "ConcatenateGuids check =
     (case set_of_list check of
        [] \<Rightarrow> []
      | g # gs \<Rightarrow> dec (unat g) @ concat (map (\<lambda>x. CHR ''|'' # dec (unat x)) gs))"

definition GetCompatibleString :: "LfgCompatibility \<Rightarrow> string" where
  "GetCompatibleString compatibles =
     (case compatibles of
        LFG_COMPATIBILITY_PENDING \<Rightarrow> ''Pending''
      | LFG_COMPATIBLES_BAD_STATES \<Rightarrow> ''Compatibles (Bad States)''
      | LFG_COMPATIBLES_MATCH \<Rightarrow> ''Match''
      | LFG_COMPATIBLES_WITH_LESS_PLAYERS \<Rightarrow> ''Compatibles (Not enough players)''
      | LFG_INCOMPATIBLES_HAS_IGNORES \<Rightarrow> ''Has ignores''
      | LFG_INCOMPATIBLES_MULTIPLE_LFG_GROUPS \<Rightarrow> ''Multiple Lfg Groups''
      | LFG_INCOMPATIBLES_NO_DUNGEONS \<Rightarrow> ''Incompatible dungeons''
      | LFG_INCOMPATIBLES_NO_ROLES \<Rightarrow> ''Incompatible roles''
      | LFG_INCOMPATIBLES_TOO_MUCH_PLAYERS \<Rightarrow> ''Too much players''
      | LFG_INCOMPATIBLES_WRONG_GROUP_SIZE \<Rightarrow> ''Wrong group size'')"

definition AddToNewQueue :: "uint64 \<Rightarrow> LFGQueue \<Rightarrow> LFGQueue" where
  "AddToNewQueue guid s = s\<lparr>newToQueueStore := newToQueueStore s @ [guid]\<rparr>"

definition RemoveFromNewQueue :: "uint64 \<Rightarrow> LFGQueue \<Rightarrow> LFGQueue" where
  "RemoveFromNewQueue guid s = s\<lparr>newToQueueStore := removeAll guid (newToQueueStore s)\<rparr>"

definition AddToCurrentQueue :: "uint64 \<Rightarrow> LFGQueue \<Rightarrow> LFGQueue" where
  "AddToCurrentQueue guid s = s\<lparr>currentQueueStore := currentQueueStore s @ [guid]\<rparr>"

definition RemoveFromCurrentQueue :: "uint64 \<Rightarrow> LFGQueue \<Rightarrow> LFGQueue" where
  "RemoveFromCurrentQueue guid s = s\<lparr>currentQueueStore := removeAll guid (currentQueueStore s)\<rparr>"

definition AddToQueue :: "uint64 \<Rightarrow> LFGQueue \<Rightarrow> LFGQueue" where
  "AddToQueue guid s = (if map_of (QueueDataStore s) guid = None then s else AddToNewQueue guid s)"

definition AddQueueData :: "uint64 \<Rightarrow> int \<Rightarrow> LfgDungeonSet \<Rightarrow> LfgRolesMap \<Rightarrow> LFGQueue \<Rightarrow> LFGQueue" where
  "AddQueueData guid joinTime dungeons rolesMap s =
     AddToQueue guid (s\<lparr>QueueDataStore := map_put guid (LfgQueueData_new joinTime dungeons rolesMap) (QueueDataStore s)\<rparr>)"

definition RemoveQueueData :: "uint64 \<Rightarrow> LFGQueue \<Rightarrow> LFGQueue" where
  "RemoveQueueData guid s = s\<lparr>QueueDataStore := map_erase guid (QueueDataStore s)\<rparr>"

text \<open>
  The running average.  The product mixes a signed and an unsigned operand, so the whole expression
  is computed modulo \<open>2 ^ 32\<close> and read back as a signed number.
\<close>

definition update_wait :: "int \<Rightarrow> LfgWaitTime \<Rightarrow> LfgWaitTime" where
  "update_wait waitTime wt =
     (let old_number = wt_number wt; number = old_number + 1
      in \<lparr>wt_time = sint ((word_of_int (wt_time wt) * old_number + word_of_int waitTime) div number :: uint32),
          wt_number = number\<rparr>)"

definition UpdateWaitTimeAvg :: "int \<Rightarrow> uint32 \<Rightarrow> LFGQueue \<Rightarrow> LFGQueue" where
  "UpdateWaitTimeAvg waitTime dungeonId s =
     s\<lparr>waitTimesAvgStore := map_modify LfgWaitTime0 (update_wait waitTime) dungeonId (waitTimesAvgStore s)\<rparr>"

definition UpdateWaitTimeTank :: "int \<Rightarrow> uint32 \<Rightarrow> LFGQueue \<Rightarrow> LFGQueue" where
  "UpdateWaitTimeTank waitTime dungeonId s =
     s\<lparr>waitTimesTankStore := map_modify LfgWaitTime0 (update_wait waitTime) dungeonId (waitTimesTankStore s)\<rparr>"

definition UpdateWaitTimeHealer :: "int \<Rightarrow> uint32 \<Rightarrow> LFGQueue \<Rightarrow> LFGQueue" where
  "UpdateWaitTimeHealer waitTime dungeonId s =
     s\<lparr>waitTimesHealerStore := map_modify LfgWaitTime0 (update_wait waitTime) dungeonId (waitTimesHealerStore s)\<rparr>"

definition UpdateWaitTimeDps :: "int \<Rightarrow> uint32 \<Rightarrow> LFGQueue \<Rightarrow> LFGQueue" where
  "UpdateWaitTimeDps waitTime dungeonId s =
     s\<lparr>waitTimesDpsStore := map_modify LfgWaitTime0 (update_wait waitTime) dungeonId (waitTimesDpsStore s)\<rparr>"

definition RemoveFromCompatibles :: "uint64 \<Rightarrow> LFGQueue \<Rightarrow> LFGQueue" where
  "RemoveFromCompatibles guid s =
     s\<lparr>CompatibleMapStore := filter (\<lambda>e. \<not> contains (dec (unat guid)) (fst e)) (CompatibleMapStore s)\<rparr>"

definition LfgCompatibilityData0 :: LfgCompatibilityData where
  "LfgCompatibilityData0 = \<lparr>cd_compatibility = LFG_COMPATIBILITY_PENDING, cd_roles = []\<rparr>"

definition SetCompatibles :: "string \<Rightarrow> LfgCompatibility \<Rightarrow> LFGQueue \<Rightarrow> LFGQueue" where
  "SetCompatibles key compatibles s =
     s\<lparr>CompatibleMapStore := map_modify LfgCompatibilityData0 (\<lambda>d. d\<lparr>cd_compatibility := compatibles\<rparr>)
         key (CompatibleMapStore s)\<rparr>"

definition SetCompatibilityData :: "string \<Rightarrow> LfgCompatibilityData \<Rightarrow> LFGQueue \<Rightarrow> LFGQueue" where
  "SetCompatibilityData key data s = s\<lparr>CompatibleMapStore := map_put key data (CompatibleMapStore s)\<rparr>"

definition GetCompatibles :: "string \<Rightarrow> LFGQueue \<Rightarrow> LfgCompatibility" where
  "GetCompatibles key s =
     (case map_of (CompatibleMapStore s) key of Some d \<Rightarrow> cd_compatibility d | None \<Rightarrow> LFG_COMPATIBILITY_PENDING)"

definition GetCompatibilityData :: "string \<Rightarrow> LFGQueue \<Rightarrow> LfgCompatibilityData option" where
  "GetCompatibilityData key s = map_of (CompatibleMapStore s) key"

text \<open>The best combination found for an entry, and how many of each role it still needs.\<close>

definition take_place :: "uint8 \<Rightarrow> LfgQueueData \<Rightarrow> LfgQueueData" where
  "take_place role q =
     (if role AND PLAYER_ROLE_TANK \<noteq> 0 then q\<lparr>qd_tanks := qd_tanks q - 1\<rparr>
      else if role AND PLAYER_ROLE_HEALER \<noteq> 0 then q\<lparr>qd_healers := qd_healers q - 1\<rparr>
      else q\<lparr>qd_dps := qd_dps q - 1\<rparr>)"

definition UpdateBestCompatibleInQueue :: "string \<Rightarrow> LfgRolesMap \<Rightarrow> LfgQueueData \<Rightarrow> LfgQueueData" where
  "UpdateBestCompatibleInQueue key roles q =
     (let storedSize = (if qd_bestCompatible q = [] then 0
                        else word_of_nat (count_list (qd_bestCompatible q) (CHR ''|'') + 1)) :: uint8;
          size = word_of_nat (count_list key (CHR ''|'') + 1) :: uint8
      in if size \<le> storedSize then q
         else fold (\<lambda>(g, role). take_place role) roles
                (q\<lparr>qd_bestCompatible := key, qd_tanks := LFG_TANKS_NEEDED, qd_healers := LFG_HEALERS_NEEDED,
                   qd_dps := LFG_DPS_NEEDED\<rparr>))"

definition FindBestCompatibleInQueue :: "LFGQueue \<Rightarrow> uint64 \<Rightarrow> LfgQueueData \<Rightarrow> LfgQueueData" where
  "FindBestCompatibleInQueue s guid q =
     fold (\<lambda>(key, d) q. if cd_compatibility d = LFG_COMPATIBLES_WITH_LESS_PLAYERS \<and> contains (dec (unat guid)) key
                        then UpdateBestCompatibleInQueue key (cd_roles d) q else q)
       (CompatibleMapStore s) q"

definition refresh_best :: "uint64 \<Rightarrow> LFGQueue \<Rightarrow> uint64 \<times> LfgQueueData \<Rightarrow> uint64 \<times> LfgQueueData" where
  "refresh_best guid s e =
     (case e of (k, q) \<Rightarrow>
        if k \<noteq> guid \<and> contains (dec (unat guid)) (qd_bestCompatible q)
        then (k, FindBestCompatibleInQueue s k (q\<lparr>qd_bestCompatible := []\<rparr>)) else (k, q))"

definition RemoveFromQueue :: "uint64 \<Rightarrow> LFGQueue \<Rightarrow> LFGQueue" where
  "RemoveFromQueue guid s =
     (let s = RemoveFromCompatibles guid (RemoveFromCurrentQueue guid (RemoveFromNewQueue guid s))
      in s\<lparr>QueueDataStore := map_erase guid (map (refresh_best guid s) (QueueDataStore s))\<rparr>)"

section \<open>Compatibility of queued groups\<close>

text \<open>
  The look-ups with \<^verbatim>\<open>operator[]\<close> in \<^verbatim>\<open>CheckCompatibility\<close> come after the loop that has found
  every entry, so they never insert one.
\<close>

definition queue_roles :: "LFGQueue \<Rightarrow> uint64 \<Rightarrow> LfgRolesMap" where
  "queue_roles s g = (case map_of (QueueDataStore s) g of Some q \<Rightarrow> qd_roles q | None \<Rightarrow> [])"

definition queue_dungeons :: "LFGQueue \<Rightarrow> uint64 \<Rightarrow> LfgDungeonSet" where
  "queue_dungeons s g = (case map_of (QueueDataStore s) g of Some q \<Rightarrow> qd_dungeons q | None \<Rightarrow> [])"

text \<open>
  The first loop: \<open>Inl g\<close> when \<open>g\<close> has no queue data, otherwise the number of players, the number
  of LFG groups, the first of them and the group of every player.
\<close>

record lfg_scan =
  sc_numPlayers :: uint8
  sc_numLfgGroups :: uint8
  sc_group :: uint64
  sc_groups :: "(uint64, uint64) smap"

fun scan_queues :: "lfg_env \<Rightarrow> LFGQueue \<Rightarrow> LfgGuidList \<Rightarrow> lfg_scan \<Rightarrow> uint64 + lfg_scan" where
  "scan_queues env s [] sc = Inr sc"
| "scan_queues env s (guid # check) sc =
     (if \<not> (sc_numLfgGroups sc < 2 \<and> sc_numPlayers sc \<le> 5) then Inr sc
      else case map_of (QueueDataStore s) guid of
        None \<Rightarrow> Inl guid
      | Some q \<Rightarrow>
          let sc = sc\<lparr>sc_groups := fold (\<lambda>e. map_put (fst e) (if IS_GROUP_GUID guid then guid else 0))
                                     (qd_roles q) (sc_groups sc),
                      sc_numPlayers := sc_numPlayers sc + word_of_nat (length (qd_roles q))\<rparr>;
              sc = (if IsLfgGroup env guid
                    then sc\<lparr>sc_group := (if sc_numLfgGroups sc = 0 then guid else sc_group sc),
                            sc_numLfgGroups := sc_numLfgGroups sc + 1\<rparr>
                    else sc)
          in scan_queues env s check sc)"

definition scan0 :: lfg_scan where
  "scan0 = \<lparr>sc_numPlayers = 0, sc_numLfgGroups = 0, sc_group = 0, sc_groups = []\<rparr>"

text \<open>A player joins the proposal unless somebody in it ignores him or is ignored by him.\<close>

definition merge_player :: "lfg_env \<Rightarrow> uint64 \<times> uint8 \<Rightarrow> LfgRolesMap \<Rightarrow> LfgRolesMap" where
  "merge_player env e proposalRoles =
     (if \<exists>p \<in> set proposalRoles. fst p \<noteq> fst e \<and> HasIgnore env (fst e) (fst p) then proposalRoles
      else map_put (fst e) (snd e) proposalRoles)"

definition merge_roles :: "lfg_env \<Rightarrow> LFGQueue \<Rightarrow> LfgGuidList \<Rightarrow> LfgRolesMap" where
  "merge_roles env s check = fold (\<lambda>g. fold (merge_player env) (queue_roles s g)) check []"

definition common_dungeons :: "LFGQueue \<Rightarrow> LfgGuidList \<Rightarrow> LfgDungeonSet" where
  "common_dungeons s check =
     fold (\<lambda>g ds. filter (\<lambda>d. d \<in> set (queue_dungeons s g)) ds) (tl check) (queue_dungeons s (hd check))"

definition update_best_of :: "string \<Rightarrow> LfgRolesMap \<Rightarrow> uint64 \<Rightarrow> LFGQueue \<Rightarrow> LFGQueue" where
  "update_best_of key roles guid s =
     s\<lparr>QueueDataStore := map (\<lambda>(k, q). (k, if k = guid then UpdateBestCompatibleInQueue key roles q else q))
         (QueueDataStore s)\<rparr>"

definition enough_not :: "LfgGuidList \<Rightarrow> string \<Rightarrow> LfgRolesMap \<Rightarrow> LFGQueue \<Rightarrow> LfgCompatibility \<times> LFGQueue" where
  "enough_not check strGuids roles s =
     (LFG_COMPATIBLES_WITH_LESS_PLAYERS,
      SetCompatibilityData strGuids \<lparr>cd_compatibility = LFG_COMPATIBLES_WITH_LESS_PLAYERS, cd_roles = roles\<rparr>
        (fold (update_best_of strGuids roles) check s))"

text \<open>The choice of the leader; \<open>n\<close> counts the random numbers drawn.\<close>

fun choose_leader :: "lfg_env \<Rightarrow> LfgRolesMap \<Rightarrow> bool \<Rightarrow> uint64 \<Rightarrow> nat \<Rightarrow> uint64 \<times> nat" where
  "choose_leader env [] leader cur n = (cur, n)"
| "choose_leader env ((p, role) # roles) leader cur n =
     (if role AND PLAYER_ROLE_LEADER \<noteq> 0
      then if \<not> leader \<or> cur = 0 then choose_leader env roles True p n
           else choose_leader env roles True (if le_urand env n 0 1 \<noteq> 0 then p else cur) (n + 1)
      else if \<not> leader
      then if cur = 0 then choose_leader env roles leader p n
           else choose_leader env roles leader (if le_urand env n 0 1 \<noteq> 0 then p else cur) (n + 1)
      else choose_leader env roles leader cur n)"

definition proposal_player :: "lfg_scan \<Rightarrow> bool \<Rightarrow> uint64 \<times> uint8 \<Rightarrow> uint64 \<times> LfgProposalPlayer" where
  "proposal_player sc isNew e =
     (let grp = map_at 0 (sc_groups sc) (fst e)
      in (fst e, \<lparr>pp_role = snd e,
                  pp_accept = (if \<not> isNew \<and> grp \<noteq> 0 \<and> grp = sc_group sc then LFG_ANSWER_AGREE else LFG_ANSWER_PENDING),
                  pp_group = grp\<rparr>))"

definition make_proposal ::
    "lfg_env \<Rightarrow> LfgGuidList \<Rightarrow> lfg_scan \<Rightarrow> LfgRolesMap \<Rightarrow> LfgDungeonSet \<Rightarrow> LFGQueue \<Rightarrow> LfgProposal \<times> nat" where
  "make_proposal env check sc roles dungeons s =
     (let n = numbers_drawn s;
          isNew = (sc_numLfgGroups sc \<noteq> 1 \<or> le_GetOldState env (hd check) \<noteq> LFG_STATE_DUNGEON);
          dungeonId = dungeons ! le_urand env n 0 (length dungeons - 1);
          (leader, n) = choose_leader env roles False 0 (n + 1)
      in (\<lparr>pr_dungeonId = dungeonId, pr_state = LFG_PROPOSAL_INITIATING, pr_group = sc_group sc, pr_leader = leader,
           pr_cancelTime = le_now env + LFG_TIME_PROPOSAL, pr_isNew = isNew, pr_queues = check,
           pr_players = map (proposal_player sc isNew) roles\<rparr>, n))"

definition leave_queues :: "LfgGuidList \<Rightarrow> LFGQueue \<Rightarrow> LFGQueue" where
  "leave_queues check s = fold (\<lambda>g s. RemoveFromCurrentQueue g (RemoveFromNewQueue g s)) check s"

text \<open>\<^verbatim>\<open>LFGMgr::AddProposal\<close> numbers the proposal and stores it.\<close>

definition AddProposal :: "LfgProposal \<times> nat \<Rightarrow> LFGQueue \<Rightarrow> LFGQueue" where
  "AddProposal p s = s\<lparr>proposals_added := proposals_added s @ [fst p], numbers_drawn := snd p\<rparr>"

text \<open>The part from the check for enough players on.\<close>

definition finish_check ::
    "lfg_env \<Rightarrow> LfgGuidList \<Rightarrow> lfg_scan \<Rightarrow> LfgRolesMap \<Rightarrow> LfgDungeonSet \<Rightarrow> LFGQueue \<Rightarrow> LfgCompatibility \<times> LFGQueue" where
  "finish_check env check sc roles dungeons s =
     (let strGuids = ConcatenateGuids check
      in if sc_numPlayers sc \<noteq> 5 then enough_not check strGuids roles s
         else if \<not> AllQueued env check
         then (LFG_COMPATIBLES_BAD_STATES, SetCompatibles strGuids LFG_COMPATIBLES_BAD_STATES s)
         else (LFG_COMPATIBLES_MATCH,
               SetCompatibles strGuids LFG_COMPATIBLES_MATCH
                 (AddProposal (make_proposal env check sc roles dungeons s) (leave_queues check s))))"

text \<open>The part after the check of all but the first group.\<close>

definition check_together :: "lfg_env \<Rightarrow> LfgGuidList \<Rightarrow> LFGQueue \<Rightarrow> LfgCompatibility \<times> LFGQueue" where
  "check_together env check s =
     (let strGuids = ConcatenateGuids check; refuse = (\<lambda>c. (c, SetCompatibles strGuids c s))
      in case scan_queues env s check scan0 of
           Inl guid \<Rightarrow> (LFG_COMPATIBILITY_PENDING, RemoveFromQueue guid s)
         | Inr sc \<Rightarrow>
             if length check = 1 \<and> sc_numPlayers sc \<noteq> 5
             then enough_not check strGuids (snd (CheckGroupRoles (queue_roles s (hd check)))) s
             else if sc_numLfgGroups sc > 1 then refuse LFG_INCOMPATIBLES_MULTIPLE_LFG_GROUPS
             else if sc_numPlayers sc > 5 then refuse LFG_INCOMPATIBLES_TOO_MUCH_PLAYERS
             else if length check > 1
             then let merged = merge_roles env s check;
                      (ok, roles) = CheckGroupRoles merged;
                      dungeons = common_dungeons s check
                  in if sc_numPlayers sc - word_of_nat (length merged) \<noteq> 0 then refuse LFG_INCOMPATIBLES_HAS_IGNORES
                     else if \<not> ok then refuse LFG_INCOMPATIBLES_NO_ROLES
                     else if dungeons = [] then refuse LFG_INCOMPATIBLES_NO_DUNGEONS
                     else finish_check env check sc roles dungeons s
             else finish_check env check sc (snd (CheckGroupRoles (queue_roles s (hd check))))
                    (queue_dungeons s (hd check)) s)"

primrec CheckCompatibility :: "lfg_env \<Rightarrow> LfgGuidList \<Rightarrow> LFGQueue \<Rightarrow> LfgCompatibility \<times> LFGQueue" where
  "CheckCompatibility env [] s = (LFG_INCOMPATIBLES_WRONG_GROUP_SIZE, s)"
| "CheckCompatibility env (frontGuid # check) s =
     (if length (frontGuid # check) > MAXGROUPSIZE then (LFG_INCOMPATIBLES_WRONG_GROUP_SIZE, s)
      else if length (frontGuid # check) > 2
      then case CheckCompatibility env check s of (child_compatibles, s) \<Rightarrow>
             if child_compatibles < LFG_COMPATIBLES_WITH_LESS_PLAYERS
             then (child_compatibles, SetCompatibles (ConcatenateGuids (frontGuid # check)) child_compatibles s)
             else check_together env (frontGuid # check) s
      else check_together env (frontGuid # check) s)"

section \<open>The search for groups\<close>

text \<open>
  \<^verbatim>\<open>FindNewGroups\<close> and its loop; both the list \<open>all\<close> and the queue are changed by the recursive
  call, and \<open>None\<close> is running out of fuel.
\<close>

fun find_new_groups ::
    "nat \<Rightarrow> lfg_env \<Rightarrow> LfgGuidList \<Rightarrow> LfgGuidList \<Rightarrow> LFGQueue \<Rightarrow> (LfgCompatibility \<times> LfgGuidList \<times> LFGQueue) option"
  and match_with_queued ::
    "nat \<Rightarrow> lfg_env \<Rightarrow> LfgCompatibility \<Rightarrow> LfgGuidList \<Rightarrow> LfgGuidList \<Rightarrow> LFGQueue
     \<Rightarrow> (LfgCompatibility \<times> LfgGuidList \<times> LFGQueue) option" where
  "find_new_groups 0 env check all s = None"
| "find_new_groups (Suc n) env check all s =
     (let strGuids = ConcatenateGuids check;
          cached = GetCompatibles strGuids s;
          (compatibles, s) = (if cached = LFG_COMPATIBILITY_PENDING then CheckCompatibility env check s else (cached, s))
      in if compatibles = LFG_COMPATIBLES_BAD_STATES \<and> AllQueued env check
         then Some (LFG_COMPATIBLES_MATCH, all, SetCompatibles strGuids LFG_COMPATIBLES_MATCH s)
         else if compatibles \<noteq> LFG_COMPATIBLES_WITH_LESS_PLAYERS then Some (compatibles, all, s)
         else match_with_queued n env compatibles check all s)"
| "match_with_queued 0 env compatibles check all s = None"
| "match_with_queued (Suc n) env compatibles check [] s = Some (compatibles, [], s)"
| "match_with_queued (Suc n) env compatibles check (g # all) s =
     (case find_new_groups n env (check @ [g]) all s of
        None \<Rightarrow> None
      | Some (subcompatibility, all, s) \<Rightarrow>
          if subcompatibility = LFG_COMPATIBLES_MATCH then Some (LFG_COMPATIBLES_MATCH, all, s)
          else match_with_queued n env compatibles check all s)"

text \<open>Every recursive call takes a group off the list, so this fuel is enough.\<close>

definition FindNewGroups ::
    "lfg_env \<Rightarrow> LfgGuidList \<Rightarrow> LfgGuidList \<Rightarrow> LFGQueue \<Rightarrow> (LfgCompatibility \<times> LfgGuidList \<times> LFGQueue) option" where
  "FindNewGroups env check all s = find_new_groups (2 * length all + 2) env check all s"

fun find_groups_loop :: "nat \<Rightarrow> lfg_env \<Rightarrow> uint8 \<Rightarrow> LFGQueue \<Rightarrow> (uint8 \<times> LFGQueue) option" where
  "find_groups_loop 0 env proposals s = None"
| "find_groups_loop (Suc n) env proposals s =
     (case newToQueueStore s of
        [] \<Rightarrow> Some (proposals, s)
      | frontguid # rest \<Rightarrow>
          let s = RemoveFromNewQueue frontguid s
          in (case FindNewGroups env [frontguid] (currentQueueStore s) s of
                None \<Rightarrow> None
              | Some (compatibles, all, s) \<Rightarrow>
                  if compatibles = LFG_COMPATIBLES_MATCH then find_groups_loop n env (proposals + 1) s
                  else find_groups_loop n env proposals (AddToCurrentQueue frontguid s)))"

definition FindGroups :: "lfg_env \<Rightarrow> LFGQueue \<Rightarrow> (uint8 \<times> LFGQueue) option" where
  "FindGroups env s = find_groups_loop (length (newToQueueStore s) + 1) env 0 s"

section \<open>Timers and reports\<close>

text \<open>Dereferencing the end of a container, a null pointer, a failed assertion and a search that does not end are error values.\<close>

datatype lfg_error = DereferencedEnd | NullPointer | AssertionFailed | OutOfFuel

definition touch_wait :: "uint32 \<Rightarrow> (uint32, LfgWaitTime) smap \<Rightarrow> (uint32, LfgWaitTime) smap" where
  "touch_wait dungeonId m = map_modify LfgWaitTime0 (\<lambda>w. w) dungeonId m"

definition wait_time :: "(uint32, LfgWaitTime) smap \<Rightarrow> uint32 \<Rightarrow> int" where
  "wait_time m dungeonId = wt_time (map_at LfgWaitTime0 m dungeonId)"

definition update_queue_timer ::
    "lfg_env \<Rightarrow> int \<Rightarrow> uint64 \<Rightarrow> LFGQueue \<Rightarrow> lfg_error + (LFGQueue \<times> (uint64 \<times> LfgQueueStatusData) list)" where
  "update_queue_timer env currTime guid s =
     (case map_of (QueueDataStore s) guid of
        None \<Rightarrow> Inr (s, [])
      | Some queueinfo \<Rightarrow>
         (case qd_dungeons queueinfo of
            [] \<Rightarrow> Inl DereferencedEnd
          | dungeonId # ds \<Rightarrow>
             let queuedTime = word_of_int (currTime - qd_joinTime queueinfo);
                 wtTank = wait_time (waitTimesTankStore s) dungeonId;
                 wtHealer = wait_time (waitTimesHealerStore s) dungeonId;
                 wtDps = wait_time (waitTimesDpsStore s) dungeonId;
                 wtAvg = wait_time (waitTimesAvgStore s) dungeonId;
                 role = fold (\<lambda>(p, r) role. role OR r) (qd_roles queueinfo) PLAYER_ROLE_NONE AND NOT PLAYER_ROLE_LEADER;
                 waitTime = (if role = PLAYER_ROLE_NONE then -1 else if role = PLAYER_ROLE_TANK then wtTank
                             else if role = PLAYER_ROLE_HEALER then wtHealer
                             else if role = PLAYER_ROLE_DAMAGE then wtDps else wtAvg);
                 q = (if qd_bestCompatible queueinfo = [] then FindBestCompatibleInQueue s guid queueinfo else queueinfo);
                 st = \<lparr>st_dungeonId = dungeonId, st_waitTime = waitTime, st_waitTimeAvg = wtAvg, st_waitTimeTank = wtTank,
                       st_waitTimeHealer = wtHealer, st_waitTimeDps = wtDps, st_queuedTime = queuedTime,
                       st_tanks = qd_tanks q, st_healers = qd_healers q, st_dps = qd_dps q\<rparr>
             in Inr (s\<lparr>QueueDataStore := map_put guid q (QueueDataStore s),
                       waitTimesTankStore := touch_wait dungeonId (waitTimesTankStore s),
                       waitTimesHealerStore := touch_wait dungeonId (waitTimesHealerStore s),
                       waitTimesDpsStore := touch_wait dungeonId (waitTimesDpsStore s),
                       waitTimesAvgStore := touch_wait dungeonId (waitTimesAvgStore s)\<rparr>,
                     map (\<lambda>e. (fst e, st)) (filter (\<lambda>e. le_online env (fst e)) (qd_roles queueinfo)))))"

fun update_timers_loop ::
    "lfg_env \<Rightarrow> int \<Rightarrow> uint64 list \<Rightarrow> LFGQueue \<Rightarrow> lfg_error + (LFGQueue \<times> (uint64 \<times> LfgQueueStatusData) list)" where
  "update_timers_loop env currTime [] s = Inr (s, [])"
| "update_timers_loop env currTime (g # gs) s =
     bindE (update_queue_timer env currTime g s) (\<lambda>(s, sent).
       bindE (update_timers_loop env currTime gs s) (\<lambda>(s, sent'). Inr (s, sent @ sent')))"

definition UpdateQueueTimers ::
    "lfg_env \<Rightarrow> int \<Rightarrow> LFGQueue \<Rightarrow> lfg_error + (LFGQueue \<times> (uint64 \<times> LfgQueueStatusData) list)" where
  "UpdateQueueTimers env currTime s = update_timers_loop env currTime (map fst (QueueDataStore s)) s"

text \<open>\<^verbatim>\<open>QueueDataStore[guid]\<close> enters default data for an unknown GUID.\<close>

definition GetJoinTime :: "lfg_env \<Rightarrow> uint64 \<Rightarrow> LFGQueue \<Rightarrow> int \<times> LFGQueue" where
  "GetJoinTime env guid s =
     (let d = LfgQueueData_new (le_now env) [] []
      in (qd_joinTime (map_at d (QueueDataStore s) guid),
          s\<lparr>QueueDataStore := map_modify d (\<lambda>q. q) guid (QueueDataStore s)\<rparr>))"

definition DumpQueueInfo :: "lfg_env \<Rightarrow> LFGQueue \<Rightarrow> string" where
  "DumpQueueInfo env s =
     (let queued = currentQueueStore s @ newToQueueStore s;
          groups = filter IS_GROUP_GUID queued;
          players = word_of_nat (length (filter (\<lambda>g. \<not> IS_GROUP_GUID g) queued)) :: uint32;
          playersInGroup = sum_list (map (\<lambda>g. ucast (le_GetPlayerCount env g)) groups) :: uint32
      in ''Queued Players: '' @ dec (unat players) @ '' (in group: '' @ dec (unat playersInGroup)
         @ '') Groups: '' @ dec (unat (word_of_nat (length groups) :: uint32)) @ [CHR 0x0A])"

definition DumpCompatibleInfo :: "bool \<Rightarrow> LFGQueue \<Rightarrow> string" where
  "DumpCompatibleInfo full s =
     ''Compatible Map size: '' @ dec (length (CompatibleMapStore s)) @ [CHR 0x0A]
     @ (if full
        then concat (map (\<lambda>(key, d). ''('' @ key @ ''): '' @ GetCompatibleString (cd_compatibility d) @ [CHR 0x0A])
               (CompatibleMapStore s))
        else [])"

text \<open>The queue entry a player of a proposal came with: his group or himself.\<close>

definition queue_guid :: "uint64 \<times> LfgProposalPlayer \<Rightarrow> uint64" where
  "queue_guid e = (if pp_group (snd e) \<noteq> 0 then pp_group (snd e) else fst e)"

section \<open>Cache keys\<close>

lemma split_at_bar:
  assumes "a @ b = a' @ b'" "CHR ''|'' \<notin> set a" "CHR ''|'' \<notin> set a'"
    and "b = [] \<or> hd b = CHR ''|''" "b' = [] \<or> hd b' = CHR ''|''"
  shows "a = a' \<and> b = b'"
proof -
  have "takeWhile (\<lambda>c. c \<noteq> CHR ''|'') (x @ y) = x" if "CHR ''|'' \<notin> set x" "y = [] \<or> hd y = CHR ''|''" for x y
    using that by (cases y) (auto simp: takeWhile_append)
  from this [of a b] this [of a' b'] assms have "a = a'" by metis
  with assms(1) show ?thesis by simp
qed

lemma bar_not_digit [simp]: "CHR ''|'' \<notin> set (dec n)"
  by (rule dec_no_char) (simp add: isdigit_def)

definition bars :: "uint64 list \<Rightarrow> string" where
  "bars gs = concat (map (\<lambda>x. CHR ''|'' # dec (unat x)) gs)"

lemma bars_simps [simp]: "bars [] = []" "bars (g # gs) = CHR ''|'' # dec (unat g) @ bars gs"
  by (simp_all add: bars_def)

lemma bars_start: "bars gs = [] \<or> hd (bars gs) = CHR ''|''"
  by (cases gs) simp_all

lemma bars_inj: "bars gs = bars hs \<Longrightarrow> gs = hs"
proof (induction gs arbitrary: hs)
  case Nil
  then show ?case by (cases hs) simp_all
next
  case (Cons g gs)
  then obtain h hs' where hs: "hs = h # hs'" by (cases hs) auto
  with Cons.prems have "dec (unat g) @ bars gs = dec (unat h) @ bars hs'" by simp
  from split_at_bar [OF this _ _ bars_start bars_start] have "unat g = unat h" "bars gs = bars hs'" by auto
  with Cons.IH hs show ?case by (simp add: word_unat_eq_iff)
qed

lemma ConcatenateGuids_bars: "bars (set_of_list check) = (if check = [] then [] else CHR ''|'' # ConcatenateGuids check)"
proof -
  have "set_of_list check = [] \<longleftrightarrow> check = []" using set_set_of_list [of check] by (metis set_empty)
  then show ?thesis by (cases "set_of_list check") (auto simp: ConcatenateGuids_def bars_def)
qed

text \<open>Every GUID of a list appears in its key.\<close>

lemma contains_iff: "contains pat s \<longleftrightarrow> (\<exists>a b. s = a @ pat @ b)"
proof (induction s)
  case (Cons c s)
  have "(\<exists>a b. c # s = a @ pat @ b) \<longleftrightarrow> (\<exists>b. c # s = pat @ b) \<or> (\<exists>a b. s = a @ pat @ b)"
    by (metis append_Cons append_Nil list.inject neq_Nil_conv)
  moreover have "take (length pat) (c # s) = pat \<longleftrightarrow> (\<exists>b. c # s = pat @ b)"
    by (metis append_eq_conv_conj append_take_drop_id)
  ultimately show ?case using Cons by simp
qed simp

lemma contains_refl: "contains pat pat"
  unfolding contains_iff by (metis append_Nil append_Nil2)

lemma contains_trans_append: "contains pat s \<Longrightarrow> contains pat (a @ s)" "contains pat s \<Longrightarrow> contains pat (s @ b)"
  unfolding contains_iff by (metis append.assoc)+

lemma key_contains: "g \<in> set check \<Longrightarrow> contains (dec (unat g)) (ConcatenateGuids check)"
proof -
  assume "g \<in> set check"
  then have g: "g \<in> set (set_of_list check)" by simp
  have bar: "contains (dec (unat g)) (dec (unat x) @ bars gs)" if "g \<in> set (x # gs)" for x gs
    using that
  proof (induction gs arbitrary: x)
    case (Cons y gs)
    show ?case
    proof (cases "g = x")
      case False
      with Cons have "contains (dec (unat g)) (dec (unat y) @ bars gs)" by simp
      from contains_trans_append(1) [OF this, of "dec (unat x) @ ''|''"] show ?thesis by simp
    qed (simp add: contains_trans_append contains_refl)
  qed (simp add: contains_refl)
  show ?thesis using g bar by (cases "set_of_list check") (auto simp: ConcatenateGuids_def bars_def)
qed

end
