(* ===== verification/LFGSearch.thy ===== *)
theory LFGSearch
  imports LFGQueue
begin

text \<open>
  What the dungeon finder's search promises.  Every operation of the search only takes queue data
  away and adds proposals that are valid for the data of the state before it: the relation
  \<open>search_step\<close>, which is reflexive and transitive, so that it lifts from
  \<^verbatim>\<open>CheckCompatibility\<close> through the loops of \<^verbatim>\<open>FindNewGroups\<close> to \<^verbatim>\<open>FindGroups\<close>.  On top of it
  stands the queue as a transition system with the invariant that every entry can be queued.
\<close>

section \<open>Valid proposals\<close>

definition queue_data :: "LFGQueue \<Rightarrow> uint64 \<Rightarrow> (LfgRolesMap \<times> LfgDungeonSet) option" where
  "queue_data s g = map_option (\<lambda>q. (qd_roles q, qd_dungeons q)) (map_of (QueueDataStore s) g)"

definition players_with :: "uint8 \<Rightarrow> LfgProposal \<Rightarrow> nat" where
  "players_with role p = length (filter (\<lambda>e. pp_role (snd e) = role) (pr_players p))"

text \<open>
  A full group for the queued groups it names: five different players, exactly the members of
  those groups, each with a role he selected, one tank, one healer and three damage dealers, a
  dungeon all groups asked for, a leader from among them, and, when several groups were put
  together, no two players of whom one ignores the other.
\<close>

definition full_group :: "lfg_env \<Rightarrow> LfgProposal \<Rightarrow> bool" where
  "full_group env p \<longleftrightarrow>
     AllQueued env (pr_queues p) \<and> length (pr_queues p) \<le> MAXGROUPSIZE
     \<and> length (pr_players p) = MAXGROUPSIZE \<and> distinct (map fst (pr_players p))
     \<and> players_with PLAYER_ROLE_TANK p = 1 \<and> players_with PLAYER_ROLE_HEALER p = 1
     \<and> players_with PLAYER_ROLE_DAMAGE p = 3 \<and> pr_state p = LFG_PROPOSAL_INITIATING
     \<and> pr_cancelTime p = le_now env + LFG_TIME_PROPOSAL \<and> pr_leader p \<in> fst ` set (pr_players p)
     \<and> (length (pr_queues p) > 1 \<longrightarrow>
          (\<forall>x \<in> fst ` set (pr_players p). \<forall>y \<in> fst ` set (pr_players p). x \<noteq> y \<longrightarrow> \<not> HasIgnore env x y))"

definition wishes_met :: "LFGQueue \<Rightarrow> LfgProposal \<Rightarrow> bool" where
  "wishes_met s p \<longleftrightarrow>
     (\<forall>g \<in> set (pr_queues p). queue_data s g \<noteq> None \<and> pr_dungeonId p \<in> set (queue_dungeons s g))
     \<and> fst ` set (pr_players p) = (\<Union>g \<in> set (pr_queues p). fst ` set (queue_roles s g))
     \<and> (\<forall>e \<in> set (pr_players p). \<exists>g \<in> set (pr_queues p). \<exists>m. (fst e, m) \<in> set (queue_roles s g)
           \<and> m AND pp_role (snd e) \<noteq> 0)"

text \<open>
  A player alone is queued under his own GUID; then every player of a proposal came with one of the
  entries it names.
\<close>

definition solo_ok :: "LFGQueue \<Rightarrow> bool" where
  "solo_ok s \<longleftrightarrow> (\<forall>g d. queue_data s g = Some d \<and> \<not> IS_GROUP_GUID g \<longrightarrow> fst ` set (fst d) \<subseteq> {g})"

definition from_queues :: "LfgProposal \<Rightarrow> bool" where
  "from_queues p \<longleftrightarrow> (\<forall>e \<in> set (pr_players p). queue_guid e \<in> set (pr_queues p))"

definition valid_proposal :: "lfg_env \<Rightarrow> LFGQueue \<Rightarrow> LfgProposal \<Rightarrow> bool" where
  "valid_proposal env s p \<longleftrightarrow> full_group env p \<and> wishes_met s p \<and> (solo_ok s \<longrightarrow> from_queues p)"

text \<open>
  Queue data as the manager enters it: some dungeon is selected, and the roles of several players have
  passed the role check.  The roles of a player alone are entered as he sent them, whatever they are.
\<close>

definition entry_ok :: "LfgRolesMap \<times> LfgDungeonSet \<Rightarrow> bool" where
  "entry_ok d \<longleftrightarrow> map_wf (fst d) \<and> length (fst d) \<le> MAXGROUPSIZE \<and> snd d \<noteq> []
     \<and> (length (fst d) \<noteq> 1 \<longrightarrow> feasible (remove_leader (fst d)))"

definition entries_ok :: "LFGQueue \<Rightarrow> bool" where
  "entries_ok s \<longleftrightarrow> (\<forall>g d. queue_data s g = Some d \<longrightarrow> entry_ok d)"

text \<open>Random numbers are within the bounds asked for.\<close>

definition urand_ok :: "lfg_env \<Rightarrow> bool" where
  "urand_ok env \<longleftrightarrow> (\<forall>n lo hi. lo \<le> hi \<longrightarrow> lo \<le> le_urand env n lo hi \<and> le_urand env n lo hi \<le> hi)"

definition proposes :: "lfg_env \<Rightarrow> LFGQueue \<Rightarrow> LFGQueue \<Rightarrow> bool" where
  "proposes env s s' \<longleftrightarrow>
     (\<forall>g. queue_data s' g = None \<or> queue_data s' g = queue_data s g)
     \<and> (\<exists>ps. proposals_added s' = proposals_added s @ ps \<and> (\<forall>p \<in> set ps. valid_proposal env s p))"

definition search_step :: "lfg_env \<Rightarrow> LFGQueue \<Rightarrow> LFGQueue \<Rightarrow> bool" where
  "search_step env s s' \<longleftrightarrow> proposes env s s'
     \<and> (\<exists>P. newToQueueStore s' = filter P (newToQueueStore s))
     \<and> (\<exists>P. currentQueueStore s' = filter P (currentQueueStore s))"

lemma queue_roles_data: "queue_roles s g = (case queue_data s g of Some d \<Rightarrow> fst d | None \<Rightarrow> [])"
  by (simp add: queue_roles_def queue_data_def split: option.split)

lemma queue_dungeons_data: "queue_dungeons s g = (case queue_data s g of Some d \<Rightarrow> snd d | None \<Rightarrow> [])"
  by (simp add: queue_dungeons_def queue_data_def split: option.split)

lemma valid_proposal_mono:
  assumes "valid_proposal env s' p" "\<forall>g. queue_data s' g = None \<or> queue_data s' g = queue_data s g"
  shows "valid_proposal env s p"
proof -
  have "queue_data s g = queue_data s' g" if "g \<in> set (pr_queues p)" for g
    using assms that unfolding valid_proposal_def wishes_met_def by metis
  then have "queue_roles s g = queue_roles s' g" "queue_dungeons s g = queue_dungeons s' g"
    "queue_data s g = queue_data s' g" if "g \<in> set (pr_queues p)" for g
    using that by (simp_all add: queue_roles_data queue_dungeons_data)
  moreover have "solo_ok s \<Longrightarrow> solo_ok s'" using assms(2) unfolding solo_ok_def by (metis option.distinct(1))
  ultimately show ?thesis using assms(1) unfolding valid_proposal_def wishes_met_def by simp
qed

lemma search_step_refl [intro]: "search_step env s s"
  by (auto simp: search_step_def proposes_def intro: exI [of _ "\<lambda>_. True"])

lemma proposes_trans:
  assumes "proposes env s s1" "proposes env s1 s2"
  shows "proposes env s s2"
proof -
  have data: "\<forall>g. queue_data s1 g = None \<or> queue_data s1 g = queue_data s g"
    using assms(1) by (simp add: proposes_def)
  obtain ps qs where ps: "proposals_added s1 = proposals_added s @ ps" "\<forall>p \<in> set ps. valid_proposal env s p"
    and qs: "proposals_added s2 = proposals_added s1 @ qs" "\<forall>p \<in> set qs. valid_proposal env s1 p"
    using assms by (auto simp: proposes_def)
  have "\<forall>p \<in> set (ps @ qs). valid_proposal env s p"
    using ps(2) qs(2) valid_proposal_mono [OF _ data] by auto
  then have "\<exists>rs. proposals_added s2 = proposals_added s @ rs \<and> (\<forall>p \<in> set rs. valid_proposal env s p)"
    using ps(1) qs(1) by (intro exI [of _ "ps @ qs"]) simp
  moreover have "\<forall>g. queue_data s2 g = None \<or> queue_data s2 g = queue_data s g"
    using assms unfolding proposes_def by metis
  ultimately show ?thesis by (simp add: proposes_def)
qed

lemma search_step_trans:
  assumes "search_step env s s1" "search_step env s1 s2"
  shows "search_step env s s2"
proof -
  have "\<exists>P. newToQueueStore s2 = filter P (newToQueueStore s)"
    "\<exists>P. currentQueueStore s2 = filter P (currentQueueStore s)"
    using assms unfolding search_step_def by (metis filter_filter)+
  with assms proposes_trans show ?thesis unfolding search_step_def by blast
qed

lemma proposes_entries: "proposes env s s' \<Longrightarrow> entries_ok s \<Longrightarrow> entries_ok s'"
  unfolding proposes_def entries_ok_def by (metis option.distinct(1))

lemma search_step_entries: "search_step env s s' \<Longrightarrow> entries_ok s \<Longrightarrow> entries_ok s'"
  using proposes_entries by (auto simp: search_step_def)

section \<open>Steps that only change the cache or remove\<close>

lemma queue_data_simps [simp]:
  "queue_data (SetCompatibles key c s) = queue_data s"
  "queue_data (SetCompatibilityData key d s) = queue_data s"
  "queue_data (RemoveFromNewQueue g s) = queue_data s"
  "queue_data (RemoveFromCurrentQueue g s) = queue_data s"
  "queue_data (AddToCurrentQueue g s) = queue_data s"
  "queue_data (AddToNewQueue g s) = queue_data s"
  "queue_data (AddProposal p s) = queue_data s"
  by (simp_all add: fun_eq_iff queue_data_def SetCompatibles_def SetCompatibilityData_def RemoveFromNewQueue_def
      RemoveFromCurrentQueue_def AddToCurrentQueue_def AddToNewQueue_def AddProposal_def)

lemma cache_lists [simp]:
  "newToQueueStore (SetCompatibles key c s) = newToQueueStore s"
  "currentQueueStore (SetCompatibles key c s) = currentQueueStore s"
  "proposals_added (SetCompatibles key c s) = proposals_added s"
  "newToQueueStore (SetCompatibilityData key d s) = newToQueueStore s"
  "currentQueueStore (SetCompatibilityData key d s) = currentQueueStore s"
  "proposals_added (SetCompatibilityData key d s) = proposals_added s"
  by (simp_all add: SetCompatibles_def SetCompatibilityData_def)

lemma take_place_data [simp]: "qd_roles (take_place r q) = qd_roles q" "qd_dungeons (take_place r q) = qd_dungeons q"
  by (simp_all add: take_place_def)

lemma fold_take_place [simp]:
  "qd_roles (fold (\<lambda>(g, role). take_place role) rs q) = qd_roles q"
  "qd_dungeons (fold (\<lambda>(g, role). take_place role) rs q) = qd_dungeons q"
  by (induction rs arbitrary: q) auto

lemma UpdateBest_data [simp]:
  "qd_roles (UpdateBestCompatibleInQueue key rs q) = qd_roles q"
  "qd_dungeons (UpdateBestCompatibleInQueue key rs q) = qd_dungeons q"
  by (simp_all add: UpdateBestCompatibleInQueue_def Let_def)

lemma fold_best_data:
  "qd_roles (fold (\<lambda>(key, d) q. if C key d then UpdateBestCompatibleInQueue key (cd_roles d) q else q) xs q) = qd_roles q
   \<and> qd_dungeons (fold (\<lambda>(key, d) q. if C key d then UpdateBestCompatibleInQueue key (cd_roles d) q else q) xs q)
     = qd_dungeons q"
  by (induction xs arbitrary: q) auto

lemma FindBest_data [simp]:
  "qd_roles (FindBestCompatibleInQueue s g q) = qd_roles q"
  "qd_dungeons (FindBestCompatibleInQueue s g q) = qd_dungeons q"
  unfolding FindBestCompatibleInQueue_def using fold_best_data [of "\<lambda>key d. cd_compatibility d = _ \<and> contains _ key"]
  by blast+

lemma map_of_map_entries: "map_of (map (\<lambda>(k, q). (k, f k q)) m) g = map_option (f g) (map_of m g)"
  by (induction m) auto

lemma queue_data_update_best [simp]: "queue_data (update_best_of key rs g s) = queue_data s"
proof
  fix x
  have "map_of (QueueDataStore (update_best_of key rs g s)) x
      = map_option (\<lambda>q. if x = g then UpdateBestCompatibleInQueue key rs q else q) (map_of (QueueDataStore s) x)"
    unfolding update_best_of_def by (simp add: map_of_map_entries)
  then show "queue_data (update_best_of key rs g s) x = queue_data s x"
    by (cases "map_of (QueueDataStore s) x") (simp_all add: queue_data_def)
qed

lemma update_best_lists:
  "newToQueueStore (update_best_of key rs g s) = newToQueueStore s"
  "currentQueueStore (update_best_of key rs g s) = currentQueueStore s"
  "proposals_added (update_best_of key rs g s) = proposals_added s"
  by (simp_all add: update_best_of_def)

lemma fold_update_best:
  "queue_data (fold (update_best_of key rs) gs s) = queue_data s
   \<and> newToQueueStore (fold (update_best_of key rs) gs s) = newToQueueStore s
   \<and> currentQueueStore (fold (update_best_of key rs) gs s) = currentQueueStore s
   \<and> proposals_added (fold (update_best_of key rs) gs s) = proposals_added s"
  by (induction gs arbitrary: s) (auto simp: update_best_lists)

lemma refresh_best_split: "refresh_best g s = (\<lambda>(k, q). (k, snd (refresh_best g s (k, q))))"
  by (auto simp: refresh_best_def fun_eq_iff)

lemma refresh_best_data:
  "qd_roles (snd (refresh_best g s (k, q))) = qd_roles q" "qd_dungeons (snd (refresh_best g s (k, q))) = qd_dungeons q"
  by (simp_all add: refresh_best_def)

lemma queue_data_RemoveFromQueue: "queue_data (RemoveFromQueue g s) = (queue_data s)(g := None)"
proof
  fix x
  define t where "t = RemoveFromCompatibles g (RemoveFromCurrentQueue g (RemoveFromNewQueue g s))"
  have m: "map_of (map (refresh_best g t) m) x = map_option (\<lambda>q. snd (refresh_best g t (x, q))) (map_of m x)" for m
    by (subst refresh_best_split) (rule map_of_map_entries)
  have "QueueDataStore t = QueueDataStore s"
    by (simp add: t_def RemoveFromCompatibles_def RemoveFromCurrentQueue_def RemoveFromNewQueue_def)
  then show "queue_data (RemoveFromQueue g s) x = ((queue_data s)(g := None)) x"
    unfolding RemoveFromQueue_def Let_def t_def [symmetric] queue_data_def
    by (cases "map_of (QueueDataStore s) x") (auto simp: m refresh_best_data)
qed

lemma RemoveFromQueue_lists [simp]:
  "newToQueueStore (RemoveFromQueue g s) = removeAll g (newToQueueStore s)"
  "currentQueueStore (RemoveFromQueue g s) = removeAll g (currentQueueStore s)"
  "proposals_added (RemoveFromQueue g s) = proposals_added s"
  by (simp_all add: RemoveFromQueue_def Let_def RemoveFromCompatibles_def RemoveFromCurrentQueue_def
      RemoveFromNewQueue_def)

lemma search_step_remove: "search_step env s (RemoveFromQueue g s)"
  by (auto simp: search_step_def proposes_def queue_data_RemoveFromQueue removeAll_filter_not_eq)

lemma search_step_frame:
  assumes "queue_data s' = queue_data s" "newToQueueStore s' = newToQueueStore s"
    "currentQueueStore s' = currentQueueStore s" "proposals_added s' = proposals_added s"
  shows "search_step env s s'"
  using assms by (auto simp: search_step_def proposes_def intro: exI [of _ "\<lambda>_. True"])

lemma search_step_cache: "search_step env s (SetCompatibles key c s)"
  by (rule search_step_frame) simp_all

lemma search_step_enough_not: "search_step env s (snd (enough_not check key rs s))"
  using fold_update_best [of key rs check s]
  by (intro search_step_frame) (simp_all add: enough_not_def)

lemma search_step_RemoveFromNewQueue: "search_step env s (RemoveFromNewQueue g s)"
  by (auto simp: search_step_def proposes_def RemoveFromNewQueue_def queue_data_def removeAll_filter_not_eq
      intro: exI [of _ "\<lambda>_. True"])

section \<open>A match is a valid proposal\<close>

lemma small_sum: "unat (a :: uint8) \<le> 5 \<Longrightarrow> n \<le> 5 \<Longrightarrow> unat (a + word_of_nat n) = unat a + n"
  by (simp add: unat_word_ariths unat_of_nat)

text \<open>A scan that ends with five players and one LFG group at most has visited every group.\<close>

lemma scan_exits: "\<not> (sc_numLfgGroups sc < 2 \<and> sc_numPlayers sc \<le> 5) \<Longrightarrow> scan_queues env s check sc = Inr sc"
  by (cases check) simp_all

text \<open>Where the scan says the players come from.\<close>

definition came_with :: "LfgGuidList \<Rightarrow> uint64 \<Rightarrow> uint64 \<Rightarrow> bool" where
  "came_with check x grp \<longleftrightarrow> (if grp \<noteq> 0 then grp else x) \<in> set check"

definition scan_origin :: "LFGQueue \<Rightarrow> LfgGuidList \<Rightarrow> lfg_scan \<Rightarrow> lfg_scan \<Rightarrow> bool" where
  "scan_origin s check sc sc' \<longleftrightarrow>
     (\<forall>x v. map_of (sc_groups sc') x = Some v \<longrightarrow> map_of (sc_groups sc) x = Some v \<or> came_with check x v)
     \<and> (\<forall>x. map_of (sc_groups sc) x \<noteq> None \<or> x \<in> (\<Union>g \<in> set check. fst ` set (queue_roles s g))
            \<longrightarrow> map_of (sc_groups sc') x \<noteq> None)"

lemma not_group_0: "\<not> IS_GROUP_GUID 0"
  by code_simp

lemma fold_map_put_const:
  "map_of (fold (\<lambda>e. map_put (fst e) v) rs m) x = (if x \<in> fst ` set rs then Some v else map_of m x)"
  by (induction rs arbitrary: m) auto

lemma scan_origin_step:
  assumes "scan_origin s check sc1 sc'" "solo_ok s" "queue_data s g = Some (rs, ds)"
    and "sc_groups sc1 = fold (\<lambda>e. map_put (fst e) (if IS_GROUP_GUID g then g else 0)) rs (sc_groups sc)"
  shows "scan_origin s (g # check) sc sc'"
proof -
  have own: "came_with (g # check) x (if IS_GROUP_GUID g then g else 0)" if "x \<in> fst ` set rs" for x
    using assms(2,3) that not_group_0 by (auto simp: came_with_def solo_ok_def)
  have roles: "queue_roles s g = rs" using assms(3) by (simp add: queue_roles_data)
  have more: "came_with check x v \<Longrightarrow> came_with (g # check) x v" for x v by (simp add: came_with_def)
  have "map_of (sc_groups sc) x = Some v \<or> came_with (g # check) x v" if "map_of (sc_groups sc') x = Some v" for x v
    using assms(1) that own [of x] more [of x v] unfolding scan_origin_def assms(4) fold_map_put_const
    by (metis option.inject)
  moreover have "map_of (sc_groups sc') x \<noteq> None"
    if "map_of (sc_groups sc) x \<noteq> None \<or> x \<in> (\<Union>h \<in> set (g # check). fst ` set (queue_roles s h))" for x
  proof -
    have "map_of (sc_groups sc1) x \<noteq> None \<or> x \<in> (\<Union>h \<in> set check. fst ` set (queue_roles s h))"
      using that unfolding assms(4) fold_map_put_const by (auto simp: roles)
    with assms(1) show ?thesis unfolding scan_origin_def by blast
  qed
  ultimately show ?thesis unfolding scan_origin_def by blast
qed

lemma scan_all:
  assumes "scan_queues env s check sc = Inr sc'" "sc_numPlayers sc' \<le> 5" "sc_numLfgGroups sc' < 2"
    and "entries_ok s" "sc_numPlayers sc \<le> 5"
  shows "unat (sc_numPlayers sc') = unat (sc_numPlayers sc) + length (concat (map (queue_roles s) check))
    \<and> (\<forall>g \<in> set check. queue_data s g \<noteq> None) \<and> (solo_ok s \<longrightarrow> scan_origin s check sc sc')"
  using assms
proof (induction check arbitrary: sc)
  case (Cons g check)
  show ?case
  proof (cases "sc_numLfgGroups sc < 2")
    case False
    with Cons.prems scan_exits [of sc env s "g # check"] show ?thesis by auto
  next
    case True
    with Cons.prems obtain q where q: "map_of (QueueDataStore s) g = Some q"
      by (auto split: option.splits simp del: Let_def)
    define sc1 where "sc1 = (let sc = sc\<lparr>sc_groups := fold (\<lambda>e. map_put (fst e) (if IS_GROUP_GUID g then g else 0))
                                     (qd_roles q) (sc_groups sc),
                      sc_numPlayers := sc_numPlayers sc + word_of_nat (length (qd_roles q))\<rparr>
        in if IsLfgGroup env g
           then sc\<lparr>sc_group := (if sc_numLfgGroups sc = 0 then g else sc_group sc),
                   sc_numLfgGroups := sc_numLfgGroups sc + 1\<rparr> else sc)"
    have rec: "scan_queues env s check sc1 = Inr sc'"
      using Cons.prems(1,5) True q by (simp add: sc1_def Let_def)
    have data: "queue_data s g = Some (qd_roles q, qd_dungeons q)" "queue_roles s g = qd_roles q"
      using q by (simp_all add: queue_data_def queue_roles_def)
    have len: "length (qd_roles q) \<le> 5" using data Cons.prems(4) by (auto simp: entries_ok_def entry_ok_def)
    have n1: "unat (sc_numPlayers sc1) = unat (sc_numPlayers sc) + length (qd_roles q)"
      using small_sum [OF _ len, of "sc_numPlayers sc"] Cons.prems(5) by (simp add: sc1_def Let_def word_le_nat_alt)
    have "sc_numPlayers sc1 \<le> 5"
      using scan_exits [of sc1 env s check] rec Cons.prems(2) by fastforce
    moreover have "sc_groups sc1 = fold (\<lambda>e. map_put (fst e) (if IS_GROUP_GUID g then g else 0)) (qd_roles q) (sc_groups sc)"
      by (simp add: sc1_def Let_def)
    ultimately show ?thesis
      using Cons.IH [OF rec Cons.prems(2-4)] n1 data scan_origin_step [OF _ _ data(1), of check sc1 sc' sc] by simp
  qed
qed (simp add: scan_origin_def)

lemma HasIgnore_sym: "HasIgnore env x y \<longleftrightarrow> HasIgnore env y x"
  by (auto simp: HasIgnore_def)

lemma merge_roles_concat: "merge_roles env s check = fold (merge_player env) (concat (map (queue_roles s) check)) []"
proof -
  have "fold (\<lambda>g. fold f (h g)) xs a = fold f (concat (map h xs)) a" for f :: "uint64 \<times> uint8 \<Rightarrow> LfgRolesMap \<Rightarrow> LfgRolesMap"
    and h xs a by (induction xs arbitrary: a) simp_all
  then show ?thesis by (simp add: merge_roles_def)
qed

definition friendly :: "lfg_env \<Rightarrow> LfgRolesMap \<Rightarrow> bool" where
  "friendly env g \<longleftrightarrow> (\<forall>x \<in> fst ` set g. \<forall>y \<in> fst ` set g. x \<noteq> y \<longrightarrow> \<not> HasIgnore env x y)"

lemma set_map_put: "set (map_put k v m) \<subseteq> insert (k, v) (set m)"
  by (induction m) auto

lemma friendly_put:
  assumes "friendly env acc" "\<not> (\<exists>p \<in> set acc. fst p \<noteq> k \<and> HasIgnore env k (fst p))"
  shows "friendly env (map_put k v acc)"
proof -
  have "\<not> HasIgnore env k (fst p) \<and> \<not> HasIgnore env (fst p) k" if "p \<in> set acc" "fst p \<noteq> k" for p
    using assms(2) that HasIgnore_sym [of env k "fst p"] by auto
  with assms(1) show ?thesis unfolding friendly_def fst_set_map_put by auto
qed

lemma merge_player_keeps:
  assumes "map_wf acc" "friendly env acc"
  shows "map_wf (merge_player env e acc) \<and> friendly env (merge_player env e acc)
    \<and> set (merge_player env e acc) \<subseteq> insert e (set acc)
    \<and> length (merge_player env e acc) \<le> Suc (length acc)
    \<and> (length (merge_player env e acc) = Suc (length acc) \<longrightarrow>
         fst ` set (merge_player env e acc) = insert (fst e) (fst ` set acc))"
  using assms set_map_put [of "fst e" "snd e" acc] length_map_put [OF assms(1), of "fst e" "snd e"]
    friendly_put [OF assms(2), of "fst e" "snd e"]
  by (simp add: merge_player_def fst_set_map_put subset_insertI)

lemma merge_all:
  assumes "map_wf acc" "friendly env acc"
  shows "map_wf (fold (merge_player env) xs acc) \<and> friendly env (fold (merge_player env) xs acc)
    \<and> set (fold (merge_player env) xs acc) \<subseteq> set xs \<union> set acc
    \<and> length (fold (merge_player env) xs acc) \<le> length xs + length acc
    \<and> (length (fold (merge_player env) xs acc) = length xs + length acc \<longrightarrow>
         fst ` set (fold (merge_player env) xs acc) = fst ` set xs \<union> fst ` set acc)"
  using assms
proof (induction xs arbitrary: acc)
  case (Cons x xs)
  note step = merge_player_keeps [OF Cons.prems, of x]
  note rest = Cons.IH [of "merge_player env x acc"]
  show ?case using step rest by auto
qed simp

text \<open>What the role check makes of five players.\<close>

lemma five_assigned:
  assumes "assigns g a" "length g = 5"
  shows "count_role PLAYER_ROLE_TANK a = 1" "count_role PLAYER_ROLE_HEALER a = 1" "count_role PLAYER_ROLE_DAMAGE a = 3"
proof -
  have len: "length a = 5" using assms by (auto simp: assigns_def dest: list_all2_lengthD)
  have "one_role (snd e)" if "e \<in> set a" for e
  proof -
    from that obtain i where "i < length a" "e = a ! i" by (auto simp: in_set_conv_nth)
    with assms(1) show ?thesis by (auto simp: assigns_def list_all2_conv_all_nth fits_def)
  qed
  then have "role_sum a = 5" using role_sum_full len by metis
  moreover have "within_limits a" using assms(1) by (simp add: assigns_def)
  ultimately show "count_role PLAYER_ROLE_TANK a = 1" "count_role PLAYER_ROLE_HEALER a = 1"
    "count_role PLAYER_ROLE_DAMAGE a = 3" by (simp_all add: role_sum_def within_limits_def)
qed

lemma assigns_keys: "assigns g a \<Longrightarrow> map fst a = map fst g"
  by (auto simp: assigns_def list_all2_conv_all_nth fits_def intro!: nth_equalityI)

lemma assigns_role:
  assumes "assigns g a" "e \<in> set a"
  shows "\<exists>m. (fst e, m) \<in> set g \<and> m AND snd e \<noteq> 0"
proof -
  from assms obtain i where "i < length g" "e = a ! i" "fits (g ! i) (a ! i)"
    by (auto simp: assigns_def list_all2_conv_all_nth in_set_conv_nth)
  then show ?thesis by (intro exI [of _ "snd (g ! i)"]) (auto simp: fits_def)
qed

lemma leader_chosen:
  "fst (choose_leader env roles leader cur n) \<in> insert cur (fst ` set roles)"
proof (induction roles arbitrary: leader cur n)
  case (Cons e roles)
  obtain p r where e: "e = (p, r)" by (cases e)
  define X where "X = insert cur (fst ` set (e # roles))"
  have "fst (choose_leader env roles l cur k) \<in> X" "fst (choose_leader env roles l p k) \<in> X" for l k
    using Cons.IH [of l cur k] Cons.IH [of l p k] by (auto simp: X_def e)
  then show ?case unfolding X_def [symmetric] unfolding e choose_leader.simps by simp
qed simp

lemma leader_member:
  assumes "roles \<noteq> []"
  shows "fst (choose_leader env roles False 0 n) \<in> fst ` set roles"
proof -
  obtain p r rest where roles: "roles = (p, r) # rest" using assms by (metis neq_Nil_conv surj_pair)
  have "fst (choose_leader env rest l p n) \<in> insert p (fst ` set rest)" for l by (rule leader_chosen)
  then show ?thesis by (simp add: roles)
qed

lemma proposal_players:
  "map fst (map (proposal_player sc new) roles) = map fst roles"
  "length (filter (\<lambda>e. pp_role (snd e) = r) (map (proposal_player sc new) roles)) = count_role r roles"
  by (simp_all add: proposal_player_def count_role_def Let_def comp_def filter_map)

lemma make_proposal_fields:
  assumes "p = fst (make_proposal env check sc roles dungeons s)"
  shows "pr_queues p = check" "pr_players p = map (proposal_player sc (pr_isNew p)) roles"
    "pr_dungeonId p = dungeons ! le_urand env (numbers_drawn s) 0 (length dungeons - 1)"
    "pr_leader p = fst (choose_leader env roles False 0 (numbers_drawn s + 1))"
    "pr_state p = LFG_PROPOSAL_INITIATING" "pr_cancelTime p = le_now env + LFG_TIME_PROPOSAL"
  using assms by (simp_all add: make_proposal_def Let_def split_beta)

lemma AddProposal_lists:
  "newToQueueStore (AddProposal p s) = newToQueueStore s" "currentQueueStore (AddProposal p s) = currentQueueStore s"
  "proposals_added (AddProposal p s) = proposals_added s @ [fst p]"
  by (simp_all add: AddProposal_def)

lemma leave_queues_result:
  "queue_data (leave_queues check s) = queue_data s
   \<and> newToQueueStore (leave_queues check s) = filter (\<lambda>g. g \<notin> set check) (newToQueueStore s)
   \<and> currentQueueStore (leave_queues check s) = filter (\<lambda>g. g \<notin> set check) (currentQueueStore s)
   \<and> proposals_added (leave_queues check s) = proposals_added s"
proof (induction check arbitrary: s)
  case (Cons g check)
  have "leave_queues (g # check) s = leave_queues check (RemoveFromCurrentQueue g (RemoveFromNewQueue g s))"
    by (simp add: leave_queues_def)
  with Cons show ?case
    by (auto simp: RemoveFromCurrentQueue_def RemoveFromNewQueue_def queue_data_def fun_eq_iff
        removeAll_filter_not_eq intro!: filter_cong)
qed (simp add: leave_queues_def)

text \<open>What holds of the roles and dungeons once all the checks have been passed.\<close>

definition matched :: "lfg_env \<Rightarrow> LFGQueue \<Rightarrow> LfgGuidList \<Rightarrow> LfgRolesMap \<Rightarrow> LfgDungeonSet \<Rightarrow> bool" where
  "matched env s check g dungeons \<longleftrightarrow>
     length g = MAXGROUPSIZE \<and> map_wf g \<and> fst ` set g = (\<Union>x \<in> set check. fst ` set (queue_roles s x))
     \<and> set g \<subseteq> (\<Union>x \<in> set check. set (queue_roles s x))
     \<and> (length check > 1 \<longrightarrow> friendly env g) \<and> dungeons \<noteq> []
     \<and> (\<forall>x \<in> set check. queue_data s x \<noteq> None \<and> set dungeons \<subseteq> set (queue_dungeons s x))"

lemma matched_valid:
  assumes m: "matched env s check g dungeons" and a: "assigns g roles" and u: "urand_ok env"
    and c: "AllQueued env check" "length check \<le> MAXGROUPSIZE"
    and sc: "solo_ok s \<Longrightarrow> scan_origin s check scan0 sc"
  shows "valid_proposal env s (fst (make_proposal env check sc roles dungeons s))"
proof -
  let ?p = "fst (make_proposal env check sc roles dungeons s)"
  note p = make_proposal_fields [OF refl, of env check sc roles dungeons s]
  note players = proposal_players [where sc = sc and new = "pr_isNew ?p" and roles = roles]
  have keys: "map fst (pr_players ?p) = map fst g" using players(1) assigns_keys [OF a] by (simp add: p(2))
  have set_keys: "fst ` set (pr_players ?p) = fst ` set g" using keys by (metis set_map)
  have len: "length g = 5" "length roles = 5" "roles \<noteq> []"
    using m a by (auto simp: matched_def assigns_def dest: list_all2_lengthD)
  note five = five_assigned [OF a len(1)]
  have dungeon: "pr_dungeonId ?p \<in> set dungeons"
    using m u unfolding p(3) urand_ok_def matched_def by (metis One_nat_def Suc_pred le0 le_imp_less_Suc length_greater_0_conv nth_mem)
  have role: "\<exists>x \<in> set check. \<exists>m. (fst e, m) \<in> set (queue_roles s x) \<and> m AND pp_role (snd e) \<noteq> 0"
    if e: "e \<in> set (pr_players ?p)" for e
  proof -
    from e obtain r where r: "r \<in> set roles" "fst e = fst r" "pp_role (snd e) = snd r"
      by (auto simp: p(2) proposal_player_def Let_def)
    from assigns_role [OF a r(1)] m show ?thesis unfolding r(2,3) matched_def by blast
  qed
  have leader: "pr_leader ?p \<in> fst ` set g"
    using leader_member [OF len(3), of env "numbers_drawn s + 1"] assigns_keys [OF a] unfolding p(4) by (metis set_map)
  have counts: "players_with r ?p = count_role r roles" for r
    unfolding players_with_def p(2) by (rule players(2))
  have dist: "distinct (map fst (pr_players ?p))" unfolding keys using m by (auto simp: matched_def intro: map_wf_distinct)
  have plen: "length (pr_players ?p) = 5" using len(2) by (simp add: p(2))
  have friends: "length check > 1 \<longrightarrow> friendly env g" using m by (simp add: matched_def)
  have "full_group env ?p"
    unfolding full_group_def p(1) set_keys counts five
    using c friends leader dist plen p(5,6) by (simp add: friendly_def)
  moreover have "wishes_met s ?p"
    unfolding wishes_met_def p(1) set_keys using m dungeon role by (auto simp: matched_def)
  moreover have "from_queues ?p" if "solo_ok s"
  proof -
    have "queue_guid e \<in> set check" if e: "e \<in> set (pr_players ?p)" for e
    proof -
      from e obtain r where r: "e = proposal_player sc (pr_isNew ?p) r" by (auto simp: p(2))
      have "fst e \<in> (\<Union>x \<in> set check. fst ` set (queue_roles s x))"
        using e m set_keys by (metis imageI matched_def)
      with sc [OF \<open>solo_ok s\<close>] obtain v where v: "map_of (sc_groups sc) (fst e) = Some v" "came_with check (fst e) v"
        unfolding scan_origin_def scan0_def by fastforce
      have "fst r = fst e" "pp_group (snd e) = map_at 0 (sc_groups sc) (fst r)"
        unfolding r by (simp_all add: proposal_player_def Let_def)
      with v show ?thesis by (auto simp: queue_guid_def came_with_def map_at_def split: if_splits)
    qed
    then show ?thesis by (simp add: from_queues_def p(1))
  qed
  ultimately show ?thesis by (simp add: valid_proposal_def)
qed

lemma finish_check_step:
  assumes "sc_numPlayers sc = 5 \<Longrightarrow> matched env s check g dungeons \<and> assigns g roles" "urand_ok env"
    and "length check \<le> MAXGROUPSIZE" and "sc_numPlayers sc = 5 \<Longrightarrow> solo_ok s \<Longrightarrow> scan_origin s check scan0 sc"
  shows "search_step env s (snd (finish_check env check sc roles dungeons s))"
proof (cases "sc_numPlayers sc \<noteq> 5 \<or> \<not> AllQueued env check")
  case True
  then show ?thesis
    by (auto simp: finish_check_def Let_def search_step_enough_not search_step_cache)
next
  case False
  then have "valid_proposal env s (fst (make_proposal env check sc roles dungeons s))"
    using assms by (intro matched_valid) auto
  with False leave_queues_result [of check s] show ?thesis
    by (auto simp: finish_check_def Let_def search_step_def proposes_def AddProposal_lists)
qed

lemma entries_role_check:
  assumes "entries_ok s" "queue_data s x \<noteq> None" "length (queue_roles s x) \<noteq> 1"
  shows "assigns (queue_roles s x) (snd (CheckGroupRoles (queue_roles s x)))" "map_wf (queue_roles s x)"
    "queue_dungeons s x \<noteq> []"
proof -
  from assms obtain d where d: "queue_data s x = Some d" "entry_ok d" by (auto simp: entries_ok_def)
  then have r: "queue_roles s x = fst d" "queue_dungeons s x = snd d" by (simp_all add: queue_roles_data queue_dungeons_data)
  from d(2) assms(3) CheckGroupRoles_returns(2) [of "fst d"] show "map_wf (queue_roles s x)" "queue_dungeons s x \<noteq> []"
    "assigns (queue_roles s x) (snd (CheckGroupRoles (queue_roles s x)))"
    by (auto simp: r entry_ok_def decides_def assigns_without_leader)
qed

lemma common_dungeons_subset:
  assumes "check \<noteq> []" "x \<in> set check"
  shows "set (common_dungeons s check) \<subseteq> set (queue_dungeons s x)"
proof -
  have "set (fold (\<lambda>g ds. filter (\<lambda>d. d \<in> set (queue_dungeons s g)) ds) gs ds)
      = set ds \<inter> (\<Inter>g \<in> set gs. set (queue_dungeons s g))" for gs ds
    by (induction gs arbitrary: ds) auto
  with assms show ?thesis by (cases check) (auto simp: common_dungeons_def)
qed

lemma concat_roles:
  "set (concat (map (queue_roles s) check)) = (\<Union>x \<in> set check. set (queue_roles s x))"
  "fst ` set (concat (map (queue_roles s) check)) = (\<Union>x \<in> set check. fst ` set (queue_roles s x))"
  by auto

text \<open>Several groups that pass the checks: nobody was left out of the merged table.\<close>

lemma merged_matched:
  assumes "scan_queues env s check scan0 = Inr sc" "sc_numLfgGroups sc < 2" "sc_numPlayers sc = 5" "entries_ok s"
    and "length check > 1" "sc_numPlayers sc - word_of_nat (length (merge_roles env s check)) = 0"
    and "common_dungeons s check \<noteq> []"
  shows "matched env s check (merge_roles env s check) (common_dungeons s check)"
proof -
  let ?xs = "concat (map (queue_roles s) check)" and ?m = "merge_roles env s check"
  have scan: "length ?xs = 5" "\<forall>g \<in> set check. queue_data s g \<noteq> None"
    using scan_all [OF assms(1) _ assms(2,4)] assms(3) by (simp_all add: scan0_def)
  have merge: "map_wf ?m" "friendly env ?m" "set ?m \<subseteq> set ?xs" "length ?m \<le> 5"
    "length ?m = 5 \<Longrightarrow> fst ` set ?m = fst ` set ?xs"
    using merge_all [of "[]" env ?xs] scan(1) by (auto simp: merge_roles_concat friendly_def)
  have "word_of_nat (length ?m) = (5 :: uint8)" using assms(3,6) by simp
  then have "length ?m mod 256 = 5" by (simp add: word_unat_eq_iff unat_of_nat)
  then have len: "length ?m = 5" using merge(4) by simp
  have dungeons: "\<forall>x \<in> set check. set (common_dungeons s check) \<subseteq> set (queue_dungeons s x)"
    using common_dungeons_subset assms(5) by (metis length_0_conv not_less0)
  show ?thesis
    unfolding matched_def using len merge scan dungeons assms(7) by (simp only: concat_roles) (simp add: image_UN)
qed

lemma single_matched:
  assumes "scan_queues env s [x] scan0 = Inr sc" "sc_numLfgGroups sc < 2" "sc_numPlayers sc = 5" "entries_ok s"
  shows "matched env s [x] (queue_roles s x) (queue_dungeons s x)"
proof -
  have "length (queue_roles s x) = 5" "queue_data s x \<noteq> None"
    using scan_all [OF assms(1) _ assms(2,4)] assms(3) by (simp_all add: scan0_def)
  with entries_role_check [OF assms(4)] show ?thesis by (simp add: matched_def)
qed

lemma check_together_step:
  assumes "entries_ok s" "urand_ok env" "check \<noteq> []" "length check \<le> MAXGROUPSIZE"
  shows "search_step env s (snd (check_together env check s))"
proof (cases "scan_queues env s check scan0")
  case (Inl g)
  then show ?thesis by (simp add: check_together_def Let_def search_step_remove)
next
  case (Inr sc)
  let ?m = "merge_roles env s check"
  have origin: "scan_origin s check scan0 sc" if "\<not> sc_numLfgGroups sc > 1" "sc_numPlayers sc = 5" "solo_ok s"
    using scan_all [OF Inr _ _ assms(1)] that by (simp add: scan0_def word_less_nat_alt not_less word_le_nat_alt)
  have several: "search_step env s (snd (finish_check env check sc (snd (CheckGroupRoles ?m)) (common_dungeons s check) s))"
    if "length check > 1" "\<not> sc_numLfgGroups sc > 1" "fst (CheckGroupRoles ?m)" "common_dungeons s check \<noteq> []"
      "sc_numPlayers sc - word_of_nat (length ?m) = 0"
  proof (rule finish_check_step [OF _ assms(2,4)])
    assume five: "sc_numPlayers sc = 5"
    have m: "matched env s check ?m (common_dungeons s check)"
      using merged_matched [OF Inr _ five assms(1) that(1,5,4)] that(2) by (auto simp: word_less_nat_alt not_less word_le_nat_alt)
    then have "decides (remove_leader ?m) (Some (CheckGroupRoles ?m))"
      by (intro CheckGroupRoles_returns(2)) (auto simp: matched_def)
    with that(3) have "assigns ?m (snd (CheckGroupRoles ?m))"
      by (cases "CheckGroupRoles ?m") (auto simp: decides_def assigns_without_leader split: if_splits)
    with m show "matched env s check ?m (common_dungeons s check) \<and> assigns ?m (snd (CheckGroupRoles ?m))" ..
  qed (rule origin [OF that(2)])
  have alone: "search_step env s (snd (finish_check env check sc (snd (CheckGroupRoles (queue_roles s (hd check))))
      (queue_dungeons s (hd check)) s))" if one: "\<not> length check > 1" and lfg: "\<not> sc_numLfgGroups sc > 1"
  proof (rule finish_check_step [OF _ assms(2,4)])
    assume five: "sc_numPlayers sc = 5"
    obtain x where x: "check = [x]" using one assms(3) by (cases check) auto
    have m: "matched env s check (queue_roles s x) (queue_dungeons s x)"
      using single_matched [of env s x sc] Inr five assms(1) lfg x
      by (auto simp: word_less_nat_alt not_less word_le_nat_alt)
    then have "queue_data s x \<noteq> None" "length (queue_roles s x) \<noteq> 1" by (simp_all add: matched_def x)
    with m entries_role_check [OF assms(1)] show "matched env s check (queue_roles s (hd check)) (queue_dungeons s (hd check))
        \<and> assigns (queue_roles s (hd check)) (snd (CheckGroupRoles (queue_roles s (hd check))))" by (simp add: x)
  qed (rule origin [OF lfg])
  show ?thesis
    using several alone
    by (simp add: check_together_def Let_def Inr search_step_enough_not search_step_cache split_beta split del: if_split
        split: if_split)
qed

lemma CheckCompatibility_step:
  assumes "entries_ok s" "urand_ok env"
  shows "search_step env s (snd (CheckCompatibility env check s))"
proof (induction check)
  case (Cons g check)
  let ?s1 = "snd (CheckCompatibility env check s)"
  have ok: "entries_ok ?s1" using search_step_entries [OF Cons assms(1)] .
  have now: "search_step env t (snd (check_together env (g # check) t))"
    if "entries_ok t" "length (g # check) \<le> MAXGROUPSIZE" for t
    using check_together_step [OF that(1) assms(2)] that(2) by simp
  have "search_step env s (snd (check_together env (g # check) ?s1))" if "length (g # check) \<le> MAXGROUPSIZE"
    using search_step_trans [OF Cons now [OF ok that]] .
  with now assms(1) search_step_trans [OF Cons search_step_cache] show ?case
    by (auto simp: split_beta)
qed auto

section \<open>The search ends\<close>

lemma find_new_groups_ends:
  assumes "urand_ok env"
  shows "2 * length all + 2 \<le> n \<Longrightarrow> entries_ok s \<Longrightarrow>
      \<exists>c all' s'. find_new_groups n env check all s = Some (c, all', s') \<and> length all' \<le> length all \<and> search_step env s s'"
    and "2 * length all + 1 \<le> n \<Longrightarrow> entries_ok s \<Longrightarrow>
      \<exists>c' all' s'. match_with_queued n env c check all s = Some (c', all', s') \<and> length all' \<le> length all
        \<and> search_step env s s'"
proof (induction n arbitrary: check all s c)
  case (Suc n)
  case 1
  obtain c1 s1 where c1: "(if GetCompatibles (ConcatenateGuids check) s = LFG_COMPATIBILITY_PENDING
      then CheckCompatibility env check s else (GetCompatibles (ConcatenateGuids check) s, s)) = (c1, s1)" by force
  have step: "search_step env s s1"
    using c1 CheckCompatibility_step [OF 1(2) assms, of check] by (auto split: if_splits)
  obtain c2 all2 s2 where m: "match_with_queued n env c1 check all s1 = Some (c2, all2, s2)"
    "length all2 \<le> length all" "search_step env s1 s2"
    using Suc.IH(2) [of all s1 c1 check] 1(1) search_step_entries [OF step 1(2)] by auto
  then show ?case
    using step search_step_trans [OF step] search_step_cache by (auto simp: c1)
next
  case (Suc n)
  case 2
  show ?case
  proof (cases all)
    case Nil
    then show ?thesis by auto
  next
    case (Cons g rest)
    obtain c1 all1 s1 where f: "find_new_groups n env (check @ [g]) rest s = Some (c1, all1, s1)"
      "length all1 \<le> length rest" "search_step env s s1"
      using Suc.IH(1) [of rest s "check @ [g]"] 2 Cons by auto
    obtain c2 all2 s2 where m: "match_with_queued n env c check all1 s1 = Some (c2, all2, s2)"
      "length all2 \<le> length all1" "search_step env s1 s2"
      using Suc.IH(2) [of all1 s1 c check] 2 Cons f search_step_entries [OF f(3) 2(2)] by auto
    show ?thesis using f m search_step_trans [OF f(3) m(3)] Cons by auto
  qed
qed auto

lemma FindNewGroups_ends:
  assumes "urand_ok env" "entries_ok s"
  obtains c all' s' where "FindNewGroups env check all s = Some (c, all', s')" "search_step env s s'"
  using find_new_groups_ends(1) [OF assms(1) _ assms(2)] unfolding FindNewGroups_def by (metis le_refl)

lemma proposes_add_current: "proposes env s s' \<Longrightarrow> proposes env s (AddToCurrentQueue g s')"
  by (simp add: proposes_def) (simp add: AddToCurrentQueue_def)

lemma length_removeAll_le: "length (removeAll x xs) \<le> length xs"
  by (simp add: removeAll_filter_not_eq)

lemma find_groups_ends:
  assumes "urand_ok env" "entries_ok s" "length (newToQueueStore s) < n"
  shows "\<exists>k s'. find_groups_loop n env pr s = Some (k, s') \<and> newToQueueStore s' = [] \<and> proposes env s s'
    \<and> set (currentQueueStore s') \<subseteq> set (currentQueueStore s) \<union> set (newToQueueStore s)"
  using assms(2,3)
proof (induction n arbitrary: pr s)
  case (Suc n)
  show ?case
  proof (cases "newToQueueStore s")
    case Nil
    then show ?thesis by (auto simp: proposes_def)
  next
    case (Cons g rest)
    define s1 where "s1 = RemoveFromNewQueue g s"
    have step1: "search_step env s s1" unfolding s1_def by (rule search_step_RemoveFromNewQueue)
    obtain c all' s2 where f: "FindNewGroups env [g] (currentQueueStore s1) s1 = Some (c, all', s2)"
      and step2: "search_step env s1 s2"
      by (rule FindNewGroups_ends [OF assms(1) search_step_entries [OF step1 Suc.prems(1)]])
    define s3 where "s3 = (if c = LFG_COMPATIBLES_MATCH then s2 else AddToCurrentQueue g s2)"
    note step = search_step_trans [OF step1 step2]
    have p: "proposes env s s3" using step proposes_add_current by (auto simp: s3_def search_step_def)
    have new: "newToQueueStore s3 = newToQueueStore s2" "set (currentQueueStore s3) \<subseteq> insert g (set (currentQueueStore s2))"
      by (auto simp: s3_def AddToCurrentQueue_def)
    have sub: "length (newToQueueStore s2) \<le> length (removeAll g rest)" "set (newToQueueStore s2) \<subseteq> set rest"
      "set (currentQueueStore s2) \<subseteq> set (currentQueueStore s)"
      using step2 Cons by (auto simp: search_step_def s1_def RemoveFromNewQueue_def length_filter_le)
    have "length (newToQueueStore s3) < n"
      using le_trans [OF sub(1) length_removeAll_le] new Suc.prems(2) Cons by simp
    from Suc.IH [OF proposes_entries [OF p Suc.prems(1)] this, of "if c = LFG_COMPATIBLES_MATCH then pr + 1 else pr"]
    obtain k s' where r: "find_groups_loop n env (if c = LFG_COMPATIBLES_MATCH then pr + 1 else pr) s3 = Some (k, s')"
      "newToQueueStore s' = []" "proposes env s3 s'"
      "set (currentQueueStore s') \<subseteq> set (currentQueueStore s3) \<union> set (newToQueueStore s3)" by blast
    have "find_groups_loop (Suc n) env pr s = Some (k, s')"
      using Cons f r(1) by (simp add: s1_def [symmetric] s3_def Let_def split: if_splits)
    moreover have "set (currentQueueStore s') \<subseteq> set (currentQueueStore s) \<union> set (newToQueueStore s)"
      using r(4) new sub Cons by auto
    ultimately show ?thesis using r(2) proposes_trans [OF p r(3)] by blast
  qed
qed simp

section \<open>The queue as a transition system\<close>

definition lfg_init :: "LFGQueue \<Rightarrow> bool" where
  "lfg_init s \<longleftrightarrow> QueueDataStore s = []"

text \<open>
  The public operations as the manager calls them: the data of a group is entered after the role check,
  that of a player alone without one, and the join time is asked of queued groups only.
\<close>

inductive lfg_step :: "LFGQueue \<Rightarrow> LFGQueue \<Rightarrow> bool" where
  enter: "entry_ok (roles, dungeons) \<Longrightarrow> lfg_step s (AddQueueData g t dungeons roles s)"
| again: "lfg_step s (AddToQueue g s)"
| remove: "lfg_step s (RemoveFromQueue g s)"
| forget: "lfg_step s (RemoveQueueData g s)"
| search: "urand_ok env \<Longrightarrow> FindGroups env s = Some (k, s') \<Longrightarrow> lfg_step s s'"
| timers: "UpdateQueueTimers env t s = Inr (s', sent) \<Longrightarrow> lfg_step s s'"
| wait_avg: "lfg_step s (UpdateWaitTimeAvg w d s)"
| wait_tank: "lfg_step s (UpdateWaitTimeTank w d s)"
| wait_healer: "lfg_step s (UpdateWaitTimeHealer w d s)"
| wait_dps: "lfg_step s (UpdateWaitTimeDps w d s)"
| join_time: "queue_data s g \<noteq> None \<Longrightarrow> lfg_step s (snd (GetJoinTime env g s))"

lemma FindGroups_result:
  assumes "urand_ok env" "entries_ok s"
  shows "\<exists>k s'. FindGroups env s = Some (k, s') \<and> newToQueueStore s' = [] \<and> proposes env s s'
    \<and> set (currentQueueStore s') \<subseteq> set (currentQueueStore s) \<union> set (newToQueueStore s)"
  unfolding FindGroups_def by (rule find_groups_ends [OF assms]) simp

lemma queue_data_AddToQueue [simp]: "queue_data (AddToQueue g s) = queue_data s"
  by (simp add: AddToQueue_def)

lemma queue_data_AddQueueData: "queue_data (AddQueueData g t ds rs s) = (queue_data s)(g \<mapsto> (rs, ds))"
  by (simp add: AddQueueData_def) (simp add: queue_data_def fun_eq_iff LfgQueueData_new_def)

lemma queue_data_timer:
  "update_queue_timer env t g s = Inr (s', sent) \<Longrightarrow> queue_data s' = queue_data s"
  by (auto simp: update_queue_timer_def Let_def queue_data_def fun_eq_iff split: option.splits list.splits if_splits)

lemma queue_data_timers:
  "update_timers_loop env t gs s = Inr (s', sent) \<Longrightarrow> queue_data s' = queue_data s"
  by (induction gs arbitrary: s sent) (auto simp: bindE_Inr_iff dest: queue_data_timer)

lemma queue_data_waits [simp]:
  "queue_data (UpdateWaitTimeAvg w d s) = queue_data s" "queue_data (UpdateWaitTimeTank w d s) = queue_data s"
  "queue_data (UpdateWaitTimeHealer w d s) = queue_data s" "queue_data (UpdateWaitTimeDps w d s) = queue_data s"
  by (simp_all add: queue_data_def fun_eq_iff UpdateWaitTimeAvg_def UpdateWaitTimeTank_def UpdateWaitTimeHealer_def
      UpdateWaitTimeDps_def)

lemma queue_data_GetJoinTime: "queue_data s g \<noteq> None \<Longrightarrow> queue_data (snd (GetJoinTime env g s)) = queue_data s"
  by (auto simp: GetJoinTime_def Let_def queue_data_def fun_eq_iff map_at_def)

lemma queue_data_RemoveQueueData: "queue_data (RemoveQueueData g s) = (queue_data s)(g := None)"
  by (simp add: RemoveQueueData_def queue_data_def fun_eq_iff)

lemma entries_ok_cong: "queue_data s' = queue_data s \<Longrightarrow> entries_ok s \<Longrightarrow> entries_ok s'"
  by (simp add: entries_ok_def)

lemma entries_ok_erase: "queue_data s' = (queue_data s)(g := None) \<Longrightarrow> entries_ok s \<Longrightarrow> entries_ok s'"
  by (simp add: entries_ok_def)

lemma lfg_step_entries:
  assumes "entries_ok s" "lfg_step s s'"
  shows "entries_ok s'"
  using assms(2,1)
proof cases
  case (enter roles dungeons g t)
  then show ?thesis using assms(1) by (auto simp: entries_ok_def queue_data_AddQueueData)
next
  case (search env k)
  then show ?thesis using FindGroups_result [of env s] proposes_entries assms(1) by fastforce
next
  case (timers env t sent)
  then show ?thesis using assms(1) queue_data_timers entries_ok_cong by (auto simp: UpdateQueueTimers_def)
qed (use assms(1) in \<open>auto intro: entries_ok_cong entries_ok_erase queue_data_GetJoinTime queue_data_RemoveFromQueue
      queue_data_RemoveQueueData\<close>)

interpretation lfg: invariant_system lfg_init lfg_step entries_ok
  by unfold_locales (simp add: lfg_init_def entries_ok_def queue_data_def, rule lfg_step_entries)

lemma timer_returns:
  assumes "entries_ok s"
  shows "\<exists>s' sent. update_queue_timer env t g s = Inr (s', sent)"
proof (cases "map_of (QueueDataStore s) g")
  case (Some q)
  then have "queue_data s g = Some (qd_roles q, qd_dungeons q)" by (simp add: queue_data_def)
  with assms have "qd_dungeons q \<noteq> []" by (auto simp: entries_ok_def entry_ok_def)
  with Some show ?thesis by (auto simp: update_queue_timer_def Let_def neq_Nil_conv)
qed (simp add: update_queue_timer_def)

lemma timers_return: "entries_ok s \<Longrightarrow> \<exists>s' sent. update_timers_loop env t gs s = Inr (s', sent)"
proof (induction gs arbitrary: s)
  case (Cons g gs)
  obtain s1 sent1 where 1: "update_queue_timer env t g s = Inr (s1, sent1)" using timer_returns [OF Cons.prems] by metis
  from Cons.IH [OF entries_ok_cong [OF queue_data_timer [OF 1] Cons.prems]] 1 show ?case by auto
qed simp

section \<open>Removal\<close>

lemma fold_take_place_key: "qd_bestCompatible (fold (\<lambda>(g, role). take_place role) xs q) = qd_bestCompatible q"
  by (induction xs arbitrary: q) (auto simp: take_place_def)

lemma UpdateBest_key: "qd_bestCompatible (UpdateBestCompatibleInQueue key rs q) \<in> {qd_bestCompatible q, key}"
  by (simp add: UpdateBestCompatibleInQueue_def Let_def fold_take_place_key)

lemma FindBest_key:
  "qd_bestCompatible (FindBestCompatibleInQueue s g q) \<in> insert (qd_bestCompatible q) (fst ` set (CompatibleMapStore s))"
proof -
  let ?f = "\<lambda>(key, d) q. if cd_compatibility d = LFG_COMPATIBLES_WITH_LESS_PLAYERS \<and> contains (dec (unat g)) key
      then UpdateBestCompatibleInQueue key (cd_roles d) q else q"
  have "qd_bestCompatible (fold ?f xs q) \<in> insert (qd_bestCompatible q) (fst ` set xs)" for xs
  proof (induction xs arbitrary: q)
    case (Cons x xs)
    obtain key d where x: "x = (key, d)" by (cases x)
    define q1 where "q1 = ?f x q"
    have "qd_bestCompatible q1 \<in> {qd_bestCompatible q, key}"
      using UpdateBest_key [of key "cd_roles d" q] by (simp add: q1_def x)
    moreover have "fold ?f (x # xs) q = fold ?f xs q1" by (simp add: q1_def)
    ultimately show ?case using Cons [of q1] x by auto
  qed simp
  then show ?thesis by (simp add: FindBestCompatibleInQueue_def)
qed

lemma refresh_best_clean:
  assumes "k \<noteq> g" "\<forall>e \<in> set (CompatibleMapStore s). \<not> contains (dec (unat g)) (fst e)"
  shows "\<not> contains (dec (unat g)) (qd_bestCompatible (snd (refresh_best g s (k, q))))"
  using assms FindBest_key [of s k "q\<lparr>qd_bestCompatible := []\<rparr>"] by (auto simp: refresh_best_def)

lemma RemoveFromQueue_cache:
  "CompatibleMapStore (RemoveFromQueue g s) = filter (\<lambda>e. \<not> contains (dec (unat g)) (fst e)) (CompatibleMapStore s)"
  by (simp add: RemoveFromQueue_def Let_def RemoveFromCompatibles_def RemoveFromCurrentQueue_def RemoveFromNewQueue_def)

lemma RemoveFromQueue_best:
  assumes "(k, q) \<in> set (QueueDataStore (RemoveFromQueue g s))"
  shows "\<not> contains (dec (unat g)) (qd_bestCompatible q)"
proof -
  define t where "t = RemoveFromCompatibles g (RemoveFromCurrentQueue g (RemoveFromNewQueue g s))"
  have cache: "\<forall>e \<in> set (CompatibleMapStore t). \<not> contains (dec (unat g)) (fst e)"
    by (simp add: t_def RemoveFromCompatibles_def)
  from assms obtain k' q' where "(k, q) = refresh_best g t (k', q')" "k \<noteq> g"
    unfolding RemoveFromQueue_def Let_def t_def [symmetric] by (auto simp: map_erase_def)
  then have "q = snd (refresh_best g t (k, q'))" "k \<noteq> g" by (auto simp: refresh_best_def split: if_splits)
  with refresh_best_clean [OF _ cache] show ?thesis by blast
qed

section \<open>Examples\<close>

definition demo_lfg :: lfg_env where
  "demo_lfg = \<lparr>le_now = 1000, le_GetState = \<lambda>_. LFG_STATE_QUEUED, le_GetOldState = \<lambda>_. LFG_STATE_NONE,
     le_lfgGroup = \<lambda>_. False, le_online = \<lambda>_. True, le_ignores = \<lambda>_ _. False, le_GetPlayerCount = \<lambda>_. 0,
     le_urand = \<lambda>n lo hi. lo\<rparr>"

definition empty_queue :: LFGQueue where
  "empty_queue = \<lparr>QueueDataStore = [], CompatibleMapStore = [], waitTimesAvgStore = [], waitTimesTankStore = [],
     waitTimesHealerStore = [], waitTimesDpsStore = [], currentQueueStore = [], newToQueueStore = [],
     proposals_added = [], numbers_drawn = 0\<rparr>"

text \<open>Single players who join one after another, each with his dungeons and roles.\<close>

definition solo_players :: "(uint64 \<times> LfgDungeonSet \<times> uint8) list \<Rightarrow> LFGQueue" where
  "solo_players ps = fold (\<lambda>(g, dungeons, role). AddQueueData g 0 dungeons [(g, role)]) ps empty_queue"

lemma solo_entry_ok: "dungeons \<noteq> [] \<Longrightarrow> entry_ok ([(g, role)], dungeons)"
  by (simp add: entry_ok_def)

lemma solo_reachable:
  assumes "\<forall>(g, dungeons, role) \<in> set ps. dungeons \<noteq> []" "reachable lfg_init lfg_step s"
  shows "reachable lfg_init lfg_step (fold (\<lambda>(g, dungeons, role). AddQueueData g 0 dungeons [(g, role)]) ps s)"
  using assms
proof (induction ps arbitrary: s)
  case (Cons p ps)
  obtain g dungeons role where p: "p = (g, dungeons, role)" by (metis prod_cases3)
  have "entry_ok ([(g, role)], dungeons)" using Cons.prems(1) p solo_entry_ok by simp
  then have "reachable lfg_init lfg_step (AddQueueData g 0 dungeons [(g, role)] s)"
    by (intro reach_step [OF Cons.prems(2)] lfg_step.enter)
  with Cons p show ?case by simp
qed simp

lemma solo_players_reachable:
  "\<forall>(g, dungeons, role) \<in> set ps. dungeons \<noteq> [] \<Longrightarrow> reachable lfg_init lfg_step (solo_players ps)"
  unfolding solo_players_def by (rule solo_reachable) (auto intro: reach_init simp: lfg_init_def empty_queue_def)

lemma demo_urand: "urand_ok demo_lfg"
  by (simp add: urand_ok_def demo_lfg_def)

text \<open>Five players who fit together, after one who selected no role at all.\<close>

definition demo_five :: LFGQueue where
  "demo_five = solo_players [(6, [7], 0), (1, [7], 8), (2, [7, 9], 4), (3, [7], 8), (4, [7], 8), (5, [7], 2)]"

lemma demo_five_reachable: "reachable lfg_init lfg_step demo_five"
  unfolding demo_five_def by (rule solo_players_reachable) simp

section \<open>Properties\<close>

text \<open>
  C2.  Every proposal the search creates, from whatever state the queue has reached, is a full
  group for the groups it takes from the queue: five different players, exactly the members of
  those groups, in roles they selected, one tank, one healer and three damage dealers, a dungeon
  all of them asked for and a leader from among them; when it puts several queue entries together, no
  player ignores another.  (A premade group of five is one entry, for which the code checks no ignores.)
  Players alone may have been queued with any roles, even none.
\<close>

theorem proposals_valid:
  assumes "reachable lfg_init lfg_step s" "urand_ok env" "FindGroups env s = Some (k, s')"
  shows "\<exists>ps. proposals_added s' = proposals_added s @ ps \<and> (\<forall>p \<in> set ps. full_group env p \<and> wishes_met s p)"
  using FindGroups_result [OF assms(2) lfg.reachable_inv [OF assms(1)]] assms(3)
  by (auto simp: proposes_def valid_proposal_def)

theorem proposals_valid_witness:
  "\<exists>s' p. FindGroups demo_lfg demo_five = Some (1, s') \<and> proposals_added s' = [p] \<and> full_group demo_lfg p \<and> wishes_met demo_five p"
proof -
  have "map_option (\<lambda>(k, s'). (k, length (proposals_added s'))) (FindGroups demo_lfg demo_five) = Some (1, 1)" by code_simp
  then obtain s' where s': "FindGroups demo_lfg demo_five = Some (1, s')" "length (proposals_added s') = 1" by auto
  have "proposals_added demo_five = []" by code_simp
  with proposals_valid [OF demo_five_reachable demo_urand s'(1)] s' show ?thesis
    by (auto simp: length_Suc_conv)
qed

text \<open>
  C10.  The search ends, whatever state the queue has reached, although its inner loop runs over a
  list that its recursive calls consume: afterwards no group is left in the list of new groups,
  and the groups waiting are among those that waited or came before.
\<close>

theorem find_groups_terminates:
  assumes "reachable lfg_init lfg_step s" "urand_ok env"
  shows "\<exists>k s'. FindGroups env s = Some (k, s') \<and> newToQueueStore s' = []
    \<and> set (currentQueueStore s') \<subseteq> set (currentQueueStore s) \<union> set (newToQueueStore s)"
  using FindGroups_result [OF assms(2) lfg.reachable_inv [OF assms(1)]] by blast

theorem find_groups_terminates_witness:
  "\<exists>k s'. FindGroups demo_lfg demo_five = Some (k, s') \<and> newToQueueStore s' = [] \<and> newToQueueStore demo_five \<noteq> []"
proof -
  have "newToQueueStore demo_five \<noteq> []" by code_simp
  with find_groups_terminates [OF demo_five_reachable demo_urand] show ?thesis by blast
qed

text \<open>
  The cache key identifies the set of groups: two lists have the same key exactly when they
  name the same groups, in whatever order.
\<close>

theorem cache_key_canonical:
  "ConcatenateGuids xs = ConcatenateGuids ys \<longleftrightarrow> set xs = set ys"
proof
  assume eq: "ConcatenateGuids xs = ConcatenateGuids ys"
  have nil: "ConcatenateGuids zs = [] \<longleftrightarrow> zs = []" for zs
    using set_set_of_list [of zs] by (cases "set_of_list zs") (auto simp: ConcatenateGuids_def)
  have "xs = [] \<longleftrightarrow> ys = []" using nil [of xs] nil [of ys] unfolding eq by blast
  then have "bars (set_of_list xs) = bars (set_of_list ys)" by (simp only: ConcatenateGuids_bars eq)
  from bars_inj [OF this] show "set xs = set ys" by (metis set_set_of_list)
next
  assume "set xs = set ys"
  from set_of_list_cong [OF this] show "ConcatenateGuids xs = ConcatenateGuids ys" by (simp add: ConcatenateGuids_def)
qed

text \<open>
  After \<^verbatim>\<open>RemoveFromQueue\<close> nothing of the group is left: it has no data and is in neither list,
  no cached combination contains it, no other group's best combination mentions it, and the
  roles and dungeons of the others are unchanged.
\<close>

theorem removal_complete:
  assumes "s' = RemoveFromQueue g s"
  shows "map_of (QueueDataStore s') g = None \<and> g \<notin> set (newToQueueStore s') \<and> g \<notin> set (currentQueueStore s')
    \<and> (\<forall>check. g \<in> set check \<longrightarrow> GetCompatibles (ConcatenateGuids check) s' = LFG_COMPATIBILITY_PENDING)
    \<and> (\<forall>k q. (k, q) \<in> set (QueueDataStore s') \<longrightarrow> \<not> contains (dec (unat g)) (qd_bestCompatible q))
    \<and> (\<forall>h. h \<noteq> g \<longrightarrow> queue_roles s' h = queue_roles s h \<and> queue_dungeons s' h = queue_dungeons s h)"
proof -
  have cache: "GetCompatibles (ConcatenateGuids check) s' = LFG_COMPATIBILITY_PENDING" if "g \<in> set check" for check
  proof -
    have "map_of (filter (\<lambda>e. \<not> contains (dec (unat g)) (fst e)) m) (ConcatenateGuids check) = None" for m :: "(string, LfgCompatibilityData) smap"
      using key_contains [OF that] by (auto simp: map_of_eq_None_iff)
    then show ?thesis by (simp add: assms GetCompatibles_def RemoveFromQueue_cache)
  qed
  have data: "queue_data s' = (queue_data s)(g := None)" unfolding assms by (rule queue_data_RemoveFromQueue)
  then have "queue_data s' g = None" by simp
  then have "map_of (QueueDataStore s') g = None" by (simp add: queue_data_def)
  with cache data RemoveFromQueue_best [of _ _ g s] show ?thesis
    by (auto simp: assms queue_roles_data queue_dungeons_data)
qed

theorem removal_complete_witness:
  "map_of (QueueDataStore (RemoveFromQueue 3 demo_five)) 3 = None \<and> queue_roles (RemoveFromQueue 3 demo_five) 2 = [(2, 4)]"
proof -
  have "queue_roles demo_five 2 = [(2, 4)]" by code_simp
  with removal_complete [OF refl, of 3 demo_five] show ?thesis by simp
qed

text \<open>
  The wait time is the exact running average, rounded down, and stays between zero and the
  longest wait, as long as the sum of the waits fits 32 bits.
\<close>

theorem wait_time_average:
  assumes "0 \<le> w" "w \<le> M" "wt_number wt = 0 \<or> 0 \<le> wt_time wt \<and> wt_time wt \<le> M"
    and "M * (uint (wt_number wt) + 1) < 2 ^ 32" "M < 2 ^ 31" "uint (wt_number wt) + 1 < 2 ^ 32"
  shows "wt_time (update_wait w wt) = (wt_time wt * uint (wt_number wt) + w) div (uint (wt_number wt) + 1)
    \<and> 0 \<le> wt_time (update_wait w wt) \<and> wt_time (update_wait w wt) \<le> M
    \<and> uint (wt_number (update_wait w wt)) = uint (wt_number wt) + 1"
proof -
  let ?n = "uint (wt_number wt)"
  define x where "x = wt_time wt * ?n + w"
  have n: "0 \<le> ?n" by simp
  have x: "0 \<le> x" "x \<le> M * (?n + 1)"
    using assms(1-3) n mult_right_mono [of "wt_time wt" M ?n] by (auto simp: x_def distrib_left)
  have "(word_of_int (wt_time wt) * wt_number wt + word_of_int w :: uint32) = word_of_int x"
    by (simp add: x_def)
  moreover have num: "uint (wt_number wt + 1) = ?n + 1" using assms(6) n by (simp add: uint_word_ariths)
  ultimately have u: "uint ((word_of_int (wt_time wt) * wt_number wt + word_of_int w) div (wt_number wt + 1) :: uint32)
      = x div (?n + 1)"
    using x assms(4) by (simp add: uint_div uint_word_of_int)
  have "x div (?n + 1) \<le> M * (?n + 1) div (?n + 1)" by (rule zdiv_mono1 [OF x(2)]) (use n in simp)
  moreover have "M * (?n + 1) div (?n + 1) = M" by (rule nonzero_mult_div_cancel_right) (use n in linarith)
  ultimately have b: "0 \<le> x div (?n + 1)" "x div (?n + 1) \<le> M" using x(1) n by (simp_all add: pos_imp_zdiv_nonneg_iff)
  have "sint ((word_of_int (wt_time wt) * wt_number wt + word_of_int w) div (wt_number wt + 1) :: uint32) = x div (?n + 1)"
    using b assms(5) unfolding sint_uint u by (simp add: signed_take_bit_int_eq_self)
  then show ?thesis using b num by (simp add: update_wait_def Let_def x_def)
qed

theorem wait_time_average_witness:
  "wt_time (update_wait 40 \<lparr>wt_time = 100, wt_number = 2\<rparr>) = 80"
  using wait_time_average [of 40 100 "\<lparr>wt_time = 100, wt_number = 2\<rparr>"] by simp

text \<open>
  \<^verbatim>\<open>UpdateQueueTimers\<close> never dereferences the end of a dungeon set, whatever state the queue has
  reached.
\<close>

theorem timers_safe:
  assumes "reachable lfg_init lfg_step s"
  shows "\<exists>s' sent. UpdateQueueTimers env t s = Inr (s', sent)"
  unfolding UpdateQueueTimers_def by (rule timers_return [OF lfg.reachable_inv [OF assms]])

theorem timers_safe_witness:
  "\<exists>s' sent. UpdateQueueTimers demo_lfg 60 demo_five = Inr (s', sent)"
  by (rule timers_safe [OF demo_five_reachable])

text \<open>
  A defect: the search can miss a group that is there.  The inner call consumes the list of
  waiting groups, so that after a first partner has been tried with all the others no second
  partner is tried at all.  Here a tank joins last; the player who came first shares a dungeon with
  him but not with the other four, who with the tank make a full group for the other dungeon.
\<close>

theorem greedy_search_misses_group:
  "let s = solo_players [(1, [7], 8), (2, [9], 4), (3, [9], 8), (4, [9], 8), (5, [9], 8), (6, [7, 9], 2)] in
   map_option (\<lambda>(k, s'). (k, proposals_added s', currentQueueStore s')) (FindGroups demo_lfg s)
     = Some (0, [], [1, 2, 3, 4, 5, 6])
   \<and> fst (CheckCompatibility demo_lfg [6, 2, 3, 4, 5] s) = LFG_COMPATIBLES_MATCH"
  by code_simp

text \<open>
  A defect: a combination cached with bad states whose groups are queued again counts as a
  match, but no proposal is made, and the new group ends in neither list.
\<close>

theorem bad_states_match_lost:
  assumes "GetCompatibles (ConcatenateGuids [g]) s = LFG_COMPATIBLES_BAD_STATES" "AllQueued env [g]"
    and "newToQueueStore s = [g]"
  shows "\<exists>s'. FindGroups env s = Some (1, s') \<and> proposals_added s' = proposals_added s \<and> newToQueueStore s' = []
    \<and> currentQueueStore s' = currentQueueStore s"
proof -
  have "GetCompatibles (ConcatenateGuids [g]) (RemoveFromNewQueue g s) = LFG_COMPATIBLES_BAD_STATES"
    using assms(1) by (simp add: GetCompatibles_def RemoveFromNewQueue_def)
  then have "FindNewGroups env [g] all (RemoveFromNewQueue g s) = Some (LFG_COMPATIBLES_MATCH, all,
      SetCompatibles (ConcatenateGuids [g]) LFG_COMPATIBLES_MATCH (RemoveFromNewQueue g s))" for all
    using assms(2) by (simp add: FindNewGroups_def)
  with assms(3) show ?thesis
    by (simp add: FindGroups_def Let_def) (simp add: RemoveFromNewQueue_def)
qed

theorem bad_states_match_lost_witness:
  "\<exists>s'. FindGroups demo_lfg (SetCompatibles (ConcatenateGuids [1]) LFG_COMPATIBLES_BAD_STATES (solo_players [(1, [7], 8)]))
      = Some (1, s') \<and> proposals_added s' = [] \<and> newToQueueStore s' = [] \<and> currentQueueStore s' = []"
proof -
  let ?s = "SetCompatibles (ConcatenateGuids [1]) LFG_COMPATIBLES_BAD_STATES (solo_players [(1, [7], 8)])"
  have "GetCompatibles (ConcatenateGuids [1]) ?s = LFG_COMPATIBLES_BAD_STATES" "newToQueueStore ?s = [1]"
    "proposals_added ?s = []" "currentQueueStore ?s = []" by code_simp+
  with bad_states_match_lost [of 1 ?s demo_lfg] show ?thesis by (simp add: AllQueued_def demo_lfg_def)
qed

text \<open>
  A defect: GUIDs are looked for as substrings of cache keys, so the best combination shown to a
  player can be one of other players: after player 5 has left, player 1 is shown the combination
  of players 12 and 40.
\<close>

theorem best_combination_of_others:
  "let s = snd (the (FindGroups demo_lfg (solo_players [(1, [7], 8), (5, [7], 4), (12, [9], 8), (40, [9], 4)]))) in
   map_option qd_bestCompatible (map_of (QueueDataStore s) 1) = Some ''1|5''
   \<and> map_option qd_bestCompatible (map_of (QueueDataStore (RemoveFromQueue 5 s)) 1) = Some ''12|40''"
  by code_simp

end
