(* ===== verification/LFGData.thy ===== *)
theory LFGData
  imports LFGQueue
begin

text \<open>
  The data the dungeon finder keeps of players and groups
  (\<^verbatim>\<open>game/DungeonFinding/LFGPlayerData.{h,cpp}\<close>, \<^verbatim>\<open>LFGGroupData.{h,cpp}\<close>) and the records of role
  checks, votes and messages of \<^verbatim>\<open>LFGMgr.h\<close>.
\<close>

section \<open>Enumerations and records\<close>

datatype LfgUpdateType =
    LFG_UPDATETYPE_DEFAULT | LFG_UPDATETYPE_LEADER_UNK1 | LFG_UPDATETYPE_ROLECHECK_ABORTED
  | LFG_UPDATETYPE_JOIN_QUEUE | LFG_UPDATETYPE_ROLECHECK_FAILED | LFG_UPDATETYPE_REMOVED_FROM_QUEUE
  | LFG_UPDATETYPE_PROPOSAL_FAILED | LFG_UPDATETYPE_PROPOSAL_DECLINED | LFG_UPDATETYPE_GROUP_FOUND
  | LFG_UPDATETYPE_ADDED_TO_QUEUE | LFG_UPDATETYPE_PROPOSAL_BEGIN | LFG_UPDATETYPE_UPDATE_STATUS
  | LFG_UPDATETYPE_GROUP_MEMBER_OFFLINE | LFG_UPDATETYPE_GROUP_DISBAND_UNK16

datatype LfgRoleCheckState =
    LFG_ROLECHECK_DEFAULT | LFG_ROLECHECK_FINISHED | LFG_ROLECHECK_INITIALITING | LFG_ROLECHECK_MISSING_ROLE
  | LFG_ROLECHECK_WRONG_ROLES | LFG_ROLECHECK_ABORTED | LFG_ROLECHECK_NO_ROLE

datatype LfgJoinResult =
    LFG_JOIN_OK | LFG_JOIN_FAILED | LFG_JOIN_GROUPFULL | LFG_JOIN_INTERNAL_ERROR | LFG_JOIN_NOT_MEET_REQS
  | LFG_JOIN_PARTY_NOT_MEET_REQS | LFG_JOIN_MIXED_RAID_DUNGEON | LFG_JOIN_MULTI_REALM | LFG_JOIN_DISCONNECTED
  | LFG_JOIN_PARTY_INFO_FAILED | LFG_JOIN_DUNGEON_INVALID | LFG_JOIN_DESERTER | LFG_JOIN_PARTY_DESERTER
  | LFG_JOIN_RANDOM_COOLDOWN | LFG_JOIN_PARTY_RANDOM_COOLDOWN | LFG_JOIN_TOO_MUCH_MEMBERS | LFG_JOIN_USING_BG_SYSTEM

datatype LfgType = LFG_TYPE_NONE | LFG_TYPE_DUNGEON | LFG_TYPE_RAID | LFG_TYPE_HEROIC | LFG_TYPE_RANDOM

type_synonym LfgLockMap = "(uint32, uint32) smap"
type_synonym LfgLockPartyMap = "(uint64, LfgLockMap) smap"
type_synonym LfgGuidSet = "uint64 sset"

record LfgRoleCheck =
  rc_cancelTime :: int
  rc_roles :: LfgRolesMap
  rc_state :: LfgRoleCheckState
  rc_dungeons :: LfgDungeonSet
  rc_rDungeonId :: uint32
  rc_leader :: uint64

record LfgPlayerBoot =
  pb_cancelTime :: int
  pb_inProgress :: bool
  pb_votes :: "(uint64, LfgAnswer) smap"
  pb_victim :: uint64
  pb_reason :: string

datatype LfgTeleportError =
    LFG_TELEPORTERROR_OK | LFG_TELEPORTERROR_PLAYER_DEAD | LFG_TELEPORTERROR_FALLING | LFG_TELEPORTERROR_IN_VEHICLE
  | LFG_TELEPORTERROR_FATIGUE | LFG_TELEPORTERROR_INVALID_LOCATION | LFG_TELEPORTERROR_CHARMING

text \<open>A quest is named by its entry.\<close>

record LfgPlayerRewardData =
  rd_rdungeonEntry :: uint32
  rd_sdungeonEntry :: uint32
  rd_done :: bool
  rd_quest :: uint32

record LfgUpdateData =
  ud_updateType :: LfgUpdateType
  ud_state :: LfgState
  ud_dungeons :: LfgDungeonSet
  ud_comment :: string

record LfgJoinResultData =
  jr_result :: LfgJoinResult
  jr_state :: LfgRoleCheckState
  jr_lockmap :: LfgLockPartyMap

text \<open>The constructors of \<^verbatim>\<open>LfgUpdateData\<close> and \<^verbatim>\<open>LfgJoinResultData\<close>.\<close>

definition LfgUpdateData_full :: "LfgUpdateType \<Rightarrow> LfgState \<Rightarrow> LfgDungeonSet \<Rightarrow> string \<Rightarrow> LfgUpdateData" where
  "LfgUpdateData_full t st dungeons comment = \<lparr>ud_updateType = t, ud_state = st, ud_dungeons = dungeons, ud_comment = comment\<rparr>"

definition LfgUpdateData_with :: "LfgUpdateType \<Rightarrow> LfgDungeonSet \<Rightarrow> string \<Rightarrow> LfgUpdateData" where
  "LfgUpdateData_with t dungeons comment = LfgUpdateData_full t LFG_STATE_NONE dungeons comment"

definition LfgUpdateData_of :: "LfgUpdateType \<Rightarrow> LfgUpdateData" where
  "LfgUpdateData_of t = LfgUpdateData_with t [] []"

definition LfgJoinResultData_of :: "LfgJoinResult \<Rightarrow> LfgRoleCheckState \<Rightarrow> LfgJoinResultData" where
  "LfgJoinResultData_of result state = \<lparr>jr_result = result, jr_state = state, jr_lockmap = []\<rparr>"

text \<open>What the manager sends to a player's session.\<close>

datatype lfg_msg =
    MsgRoleChosen uint64 uint8
  | MsgRoleCheckUpdate LfgRoleCheck
  | MsgUpdatePlayer LfgUpdateData
  | MsgUpdateParty LfgUpdateData
  | MsgJoinResult LfgJoinResultData
  | MsgBootProposalUpdate LfgPlayerBoot
  | MsgUpdateProposal LfgProposal
  | MsgQueueStatus LfgQueueStatusData
  | MsgLfrList bool
  | MsgPlayerReward LfgPlayerRewardData

section \<open>Player data\<close>

record LfgPlayerData =
  pd_State :: LfgState
  pd_OldState :: LfgState
  pd_LockedDungeons :: LfgLockMap
  pd_Team :: uint8
  pd_Group :: uint64
  pd_Roles :: uint8
  pd_Comment :: string
  pd_SelectedDungeons :: LfgDungeonSet

definition LfgPlayerData0 :: LfgPlayerData where
  "LfgPlayerData0 = \<lparr>pd_State = LFG_STATE_NONE, pd_OldState = LFG_STATE_NONE, pd_LockedDungeons = [], pd_Team = 0,
     pd_Group = 0, pd_Roles = 0, pd_Comment = [], pd_SelectedDungeons = []\<rparr>"

definition LfgPlayerData_SetState :: "LfgState \<Rightarrow> LfgPlayerData \<Rightarrow> LfgPlayerData" where
  "LfgPlayerData_SetState state d =
     (let d = (if state = LFG_STATE_NONE \<or> state = LFG_STATE_FINISHED_DUNGEON
               then d\<lparr>pd_Roles := 0, pd_SelectedDungeons := [], pd_Comment := []\<rparr> else d);
          d = (if state = LFG_STATE_NONE \<or> state = LFG_STATE_FINISHED_DUNGEON \<or> state = LFG_STATE_DUNGEON
               then d\<lparr>pd_OldState := state\<rparr> else d)
      in d\<lparr>pd_State := state\<rparr>)"

definition LfgPlayerData_RestoreState :: "LfgPlayerData \<Rightarrow> LfgPlayerData" where
  "LfgPlayerData_RestoreState d =
     (let d = (if pd_OldState d = LFG_STATE_NONE then d\<lparr>pd_SelectedDungeons := [], pd_Roles := 0\<rparr> else d)
      in d\<lparr>pd_State := pd_OldState d\<rparr>)"

section \<open>Group data\<close>

abbreviation LFG_GROUP_MAX_KICKS :: uint8 where "LFG_GROUP_MAX_KICKS \<equiv> 3"

record LfgGroupData =
  gd_State :: LfgState
  gd_OldState :: LfgState
  gd_Leader :: uint64
  gd_Players :: LfgGuidSet
  gd_Dungeon :: uint32
  gd_KicksLeft :: uint8

definition LfgGroupData0 :: LfgGroupData where
  "LfgGroupData0 = \<lparr>gd_State = LFG_STATE_NONE, gd_OldState = LFG_STATE_NONE, gd_Leader = 0, gd_Players = [],
     gd_Dungeon = 0, gd_KicksLeft = LFG_GROUP_MAX_KICKS\<rparr>"

definition LfgGroupData_IsLfgGroup :: "LfgGroupData \<Rightarrow> bool" where
  "LfgGroupData_IsLfgGroup d \<longleftrightarrow> gd_OldState d \<noteq> LFG_STATE_NONE"

definition LfgGroupData_SetState :: "LfgState \<Rightarrow> LfgGroupData \<Rightarrow> LfgGroupData" where
  "LfgGroupData_SetState state d =
     (let d = (if state = LFG_STATE_NONE then d\<lparr>gd_Dungeon := 0, gd_KicksLeft := LFG_GROUP_MAX_KICKS\<rparr> else d);
          d = (if state = LFG_STATE_NONE \<or> state = LFG_STATE_FINISHED_DUNGEON \<or> state = LFG_STATE_DUNGEON
               then d\<lparr>gd_OldState := state\<rparr> else d)
      in d\<lparr>gd_State := state\<rparr>)"

definition LfgGroupData_RestoreState :: "LfgGroupData \<Rightarrow> LfgGroupData" where
  "LfgGroupData_RestoreState d = d\<lparr>gd_State := gd_OldState d\<rparr>"

definition LfgGroupData_AddPlayer :: "uint64 \<Rightarrow> LfgGroupData \<Rightarrow> LfgGroupData" where
  "LfgGroupData_AddPlayer guid d = d\<lparr>gd_Players := set_put guid (gd_Players d)\<rparr>"

definition LfgGroupData_RemovePlayer :: "uint64 \<Rightarrow> LfgGroupData \<Rightarrow> uint8 \<times> LfgGroupData" where
  "LfgGroupData_RemovePlayer guid d =
     (let ps = set_erase guid (gd_Players d) in (word_of_nat (length ps), d\<lparr>gd_Players := ps\<rparr>))"

definition LfgGroupData_DecreaseKicksLeft :: "LfgGroupData \<Rightarrow> LfgGroupData" where
  "LfgGroupData_DecreaseKicksLeft d = (if gd_KicksLeft d \<noteq> 0 then d\<lparr>gd_KicksLeft := gd_KicksLeft d - 1\<rparr> else d)"

definition LfgGroupData_GetDungeon :: "bool \<Rightarrow> LfgGroupData \<Rightarrow> uint32" where
  "LfgGroupData_GetDungeon asId d = (if asId then gd_Dungeon d AND 0x00FFFFFF else gd_Dungeon d)"

section \<open>Invariants of the data\<close>

text \<open>The states in which a player or group can be left: \<open>the last state (NONE, DUNGEON or FINISHED_DUNGEON)\<close>.\<close>

definition resting :: "LfgState \<Rightarrow> bool" where
  "resting st \<longleftrightarrow> st \<in> {LFG_STATE_NONE, LFG_STATE_DUNGEON, LFG_STATE_FINISHED_DUNGEON}"

text \<open>
  The old state is a resting state; a resting state is its own old state, so that restoring a state
  twice is restoring it once; a player out of the finder has no roles and no dungeons.
\<close>

definition player_ok :: "LfgPlayerData \<Rightarrow> bool" where
  "player_ok d \<longleftrightarrow> resting (pd_OldState d) \<and> (resting (pd_State d) \<longrightarrow> pd_State d = pd_OldState d)"

definition group_ok :: "LfgGroupData \<Rightarrow> bool" where
  "group_ok d \<longleftrightarrow> resting (gd_OldState d) \<and> (resting (gd_State d) \<longrightarrow> gd_State d = gd_OldState d)
     \<and> gd_KicksLeft d \<le> LFG_GROUP_MAX_KICKS \<and> sorted_wrt (<) (gd_Players d)"

lemma player_ok_intros [simp]:
  "player_ok LfgPlayerData0"
  "player_ok d \<Longrightarrow> player_ok (LfgPlayerData_SetState st d)"
  "player_ok d \<Longrightarrow> player_ok (LfgPlayerData_RestoreState d)"
  "player_ok (d\<lparr>pd_Group := g\<rparr>) = player_ok d"
  "player_ok (d\<lparr>pd_Team := t\<rparr>) = player_ok d"
  "player_ok (d\<lparr>pd_Roles := r\<rparr>) = player_ok d"
  "player_ok (d\<lparr>pd_Comment := c\<rparr>) = player_ok d"
  "player_ok (d\<lparr>pd_SelectedDungeons := ds\<rparr>) = player_ok d"
  "player_ok (d\<lparr>pd_LockedDungeons := l\<rparr>) = player_ok d"
  by (auto simp: player_ok_def resting_def LfgPlayerData0_def LfgPlayerData_SetState_def LfgPlayerData_RestoreState_def Let_def)

lemma kicks_decrease: "k \<le> (3 :: uint8) \<Longrightarrow> k \<noteq> 0 \<Longrightarrow> k - 1 \<le> 3"
  by (simp add: word_le_nat_alt unat_minus_one)

lemma group_ok_intros [simp]:
  "group_ok LfgGroupData0"
  "group_ok d \<Longrightarrow> group_ok (LfgGroupData_SetState st d)"
  "group_ok d \<Longrightarrow> group_ok (LfgGroupData_RestoreState d)"
  "group_ok d \<Longrightarrow> group_ok (LfgGroupData_AddPlayer g d)"
  "group_ok d \<Longrightarrow> group_ok (snd (LfgGroupData_RemovePlayer g d))"
  "group_ok d \<Longrightarrow> group_ok (LfgGroupData_DecreaseKicksLeft d)"
  "group_ok (d\<lparr>gd_Leader := l\<rparr>) = group_ok d"
  "group_ok (d\<lparr>gd_Dungeon := x\<rparr>) = group_ok d"
  by (auto simp: group_ok_def resting_def LfgGroupData0_def LfgGroupData_SetState_def LfgGroupData_RestoreState_def
      LfgGroupData_AddPlayer_def LfgGroupData_RemovePlayer_def LfgGroupData_DecreaseKicksLeft_def Let_def kicks_decrease)

end
