(* ===== verification/Timers.thy ===== *)
theory Timers
  imports FC_Prelude
begin

text \<open>
  The timers of \<^verbatim>\<open>shared/Utilities/Timer.h\<close>: differences of the millisecond clock, the interval
  timer of the world loop, the two trackers and the periodic timer.

  \<^verbatim>\<open>time_t\<close> is read as an integer, because sums of update intervals stay far below 63 bits; the
  32-bit fields wrap where the source mixes signed and unsigned operands, and \<open>int32\<close> is the
  conversion to the signed type.
\<close>

section \<open>The millisecond clock\<close>

definition int32 :: "int \<Rightarrow> int" where
  "int32 x = sint (word_of_int x :: uint32)"

lemma int32_id: "- (2 ^ 31) \<le> x \<Longrightarrow> x < 2 ^ 31 \<Longrightarrow> int32 x = x"
  unfolding int32_def by (simp add: sint_uint unsigned_of_int signed_take_bit_take_bit signed_take_bit_int_eq_self)

definition getMSTimeDiff :: "uint32 \<Rightarrow> uint32 \<Rightarrow> uint32" where
  "getMSTimeDiff oldMSTime newMSTime =
     (if oldMSTime > newMSTime then (0xFFFFFFFF - oldMSTime) + newMSTime else newMSTime - oldMSTime)"

section \<open>IntervalTimer\<close>

record IntervalTimer =
  it_interval :: int
  it_current :: int

definition IntervalTimer_new :: IntervalTimer where
  "IntervalTimer_new = \<lparr>it_interval = 0, it_current = 0\<rparr>"

definition IntervalTimer_Update :: "int \<Rightarrow> IntervalTimer \<Rightarrow> IntervalTimer" where
  "IntervalTimer_Update diff t =
     (let current = it_current t + diff in t\<lparr>it_current := if current < 0 then 0 else current\<rparr>)"

definition IntervalTimer_Passed :: "IntervalTimer \<Rightarrow> bool" where
  "IntervalTimer_Passed t \<longleftrightarrow> it_current t \<ge> it_interval t"

definition IntervalTimer_Reset :: "IntervalTimer \<Rightarrow> IntervalTimer" where
  "IntervalTimer_Reset t = (if it_current t \<ge> it_interval t then t\<lparr>it_current := it_current t - it_interval t\<rparr> else t)"

definition IntervalTimer_SetCurrent :: "int \<Rightarrow> IntervalTimer \<Rightarrow> IntervalTimer" where
  "IntervalTimer_SetCurrent current t = t\<lparr>it_current := current\<rparr>"

definition IntervalTimer_SetInterval :: "int \<Rightarrow> IntervalTimer \<Rightarrow> IntervalTimer" where
  "IntervalTimer_SetInterval interval t = t\<lparr>it_interval := interval\<rparr>"

section \<open>TimeTracker and TimeTrackerSmall\<close>

record TimeTracker =
  tt_expiryTime :: int

definition TimeTracker_new :: "int \<Rightarrow> TimeTracker" where
  "TimeTracker_new expiry = \<lparr>tt_expiryTime = expiry\<rparr>"

definition TimeTracker_Update :: "int \<Rightarrow> TimeTracker \<Rightarrow> TimeTracker" where
  "TimeTracker_Update diff t = t\<lparr>tt_expiryTime := tt_expiryTime t - diff\<rparr>"

definition TimeTracker_Passed :: "TimeTracker \<Rightarrow> bool" where
  "TimeTracker_Passed t \<longleftrightarrow> tt_expiryTime t \<le> 0"

definition TimeTracker_Reset :: "int \<Rightarrow> TimeTracker \<Rightarrow> TimeTracker" where
  "TimeTracker_Reset interval t = t\<lparr>tt_expiryTime := interval\<rparr>"

record TimeTrackerSmall =
  ts_expiryTime :: int

definition TimeTrackerSmall_new :: "uint32 \<Rightarrow> TimeTrackerSmall" where
  "TimeTrackerSmall_new expiry = \<lparr>ts_expiryTime = sint expiry\<rparr>"

definition TimeTrackerSmall_Update :: "int \<Rightarrow> TimeTrackerSmall \<Rightarrow> TimeTrackerSmall" where
  "TimeTrackerSmall_Update diff t = t\<lparr>ts_expiryTime := int32 (ts_expiryTime t - diff)\<rparr>"

definition TimeTrackerSmall_Passed :: "TimeTrackerSmall \<Rightarrow> bool" where
  "TimeTrackerSmall_Passed t \<longleftrightarrow> ts_expiryTime t \<le> 0"

definition TimeTrackerSmall_Reset :: "uint32 \<Rightarrow> TimeTrackerSmall \<Rightarrow> TimeTrackerSmall" where
  "TimeTrackerSmall_Reset interval t = t\<lparr>ts_expiryTime := sint interval\<rparr>"

section \<open>PeriodicTimer\<close>

record PeriodicTimer =
  pt_period :: int
  pt_expireTime :: int

definition PeriodicTimer_new :: "int \<Rightarrow> int \<Rightarrow> PeriodicTimer" where
  "PeriodicTimer_new period start_time = \<lparr>pt_period = period, pt_expireTime = start_time\<rparr>"

definition PeriodicTimer_Update :: "uint32 \<Rightarrow> PeriodicTimer \<Rightarrow> bool \<times> PeriodicTimer" where
  "PeriodicTimer_Update diff t =
     (let expire = int32 (pt_expireTime t - uint diff)
      in if expire > 0 then (False, t\<lparr>pt_expireTime := expire\<rparr>)
         else (True, t\<lparr>pt_expireTime := int32 (expire + (if pt_period t > sint diff then pt_period t else uint diff))\<rparr>))"

definition PeriodicTimer_SetPeriodic :: "int \<Rightarrow> int \<Rightarrow> PeriodicTimer \<Rightarrow> PeriodicTimer" where
  "PeriodicTimer_SetPeriodic period start_time t = t\<lparr>pt_expireTime := start_time, pt_period := period\<rparr>"

definition PeriodicTimer_TUpdate :: "int \<Rightarrow> PeriodicTimer \<Rightarrow> PeriodicTimer" where
  "PeriodicTimer_TUpdate diff t = t\<lparr>pt_expireTime := int32 (pt_expireTime t - diff)\<rparr>"

definition PeriodicTimer_TPassed :: "PeriodicTimer \<Rightarrow> bool" where
  "PeriodicTimer_TPassed t \<longleftrightarrow> pt_expireTime t \<le> 0"

definition PeriodicTimer_TReset :: "int \<Rightarrow> int \<Rightarrow> PeriodicTimer \<Rightarrow> PeriodicTimer" where
  "PeriodicTimer_TReset diff period t =
     t\<lparr>pt_expireTime := int32 (pt_expireTime t + (if period > diff then period else diff))\<rparr>"

section \<open>Properties\<close>

text \<open>
  How the world loop uses an interval timer: update it by the length of each tick, and when the
  interval has passed reset it and do the work.  The result counts how often the work was done.
\<close>

fun interval_ticks :: "int list \<Rightarrow> IntervalTimer \<Rightarrow> nat \<times> IntervalTimer" where
  "interval_ticks [] t = (0, t)"
| "interval_ticks (diff # ds) t =
     (let t = IntervalTimer_Update diff t
      in if IntervalTimer_Passed t
         then case interval_ticks ds (IntervalTimer_Reset t) of (n, t') \<Rightarrow> (Suc n, t')
         else interval_ticks ds t)"

lemma interval_ticks_account:
  assumes "0 \<le> it_interval t" "0 \<le> it_current t" "\<forall>d \<in> set ds. 0 \<le> d" "interval_ticks ds t = (n, t')"
  shows "it_current t' + it_interval t * int n = it_current t + sum_list ds
    \<and> 0 \<le> it_current t' \<and> it_interval t' = it_interval t"
  using assms
proof (induction ds arbitrary: t n)
  case (Cons d ds)
  show ?case
  proof (cases "it_current t + d \<ge> it_interval t")
    case True
    let ?t = "t\<lparr>it_current := it_current t + d - it_interval t\<rparr>"
    from Cons.prems True obtain m where m: "interval_ticks ds ?t = (m, t')" "n = Suc m"
      by (auto simp: Let_def IntervalTimer_Update_def IntervalTimer_Passed_def IntervalTimer_Reset_def split: prod.splits)
    from Cons.IH [OF _ _ _ m(1)] Cons.prems(1-3) True m(2) show ?thesis by (simp add: distrib_left)
  next
    case False
    let ?t = "t\<lparr>it_current := it_current t + d\<rparr>"
    from Cons.prems False have "interval_ticks ds ?t = (n, t')"
      by (simp add: Let_def IntervalTimer_Update_def IntervalTimer_Passed_def)
    from Cons.IH [OF _ _ _ this] Cons.prems(1-3) show ?thesis by simp
  qed
qed auto

lemma interval_ticks_below:
  assumes "0 < it_interval t" "it_current t < it_interval t" "\<forall>d \<in> set ds. d \<le> it_interval t" "interval_ticks ds t = (n, t')"
  shows "it_current t' < it_interval t'"
  using assms
proof (induction ds arbitrary: t n)
  case (Cons d ds)
  let ?t = "IntervalTimer_Update d t" and ?r = "IntervalTimer_Reset (IntervalTimer_Update d t)"
  have i: "it_interval ?t = it_interval t" "it_interval ?r = it_interval t"
    by (simp_all add: IntervalTimer_Update_def IntervalTimer_Reset_def Let_def)
  from Cons.prems have c: "it_current ?r < it_interval t"
    by (auto simp: IntervalTimer_Update_def IntervalTimer_Reset_def Let_def)
  show ?case
  proof (cases "IntervalTimer_Passed ?t")
    case True
    with Cons.prems obtain m where "interval_ticks ds ?r = (m, t')" by (auto simp: Let_def split: prod.splits)
    from Cons.IH [OF _ _ _ this] Cons.prems c i show ?thesis by simp
  next
    case False
    with Cons.prems have "interval_ticks ds ?t = (n, t')" by (simp add: Let_def)
    from Cons.IH [OF _ _ _ this] Cons.prems False i show ?thesis by (simp add: IntervalTimer_Passed_def)
  qed
qed auto

text \<open>
  C36.  The interval timer loses no time: after any sequence of ticks the time that has passed is
  exactly the number of times it fired times the interval, plus what it still holds; and as long as
  no tick is longer than the interval it never holds a whole interval back.
\<close>

theorem interval_timer_exact:
  assumes "0 < it_interval t" "0 \<le> it_current t" "\<forall>d \<in> set ds. 0 \<le> d" "interval_ticks ds t = (n, t')"
  shows "it_interval t * int n + it_current t' = it_current t + sum_list ds
    \<and> (it_current t < it_interval t \<longrightarrow> (\<forall>d \<in> set ds. d \<le> it_interval t) \<longrightarrow> n = (it_current t + sum_list ds) div it_interval t)"
proof -
  from interval_ticks_account [OF _ assms(2-4)] assms(1)
  have acc: "it_current t' + it_interval t * int n = it_current t + sum_list ds" "0 \<le> it_current t'"
    "it_interval t' = it_interval t" by simp_all
  moreover have "int n = (it_current t + sum_list ds) div it_interval t" if "it_current t' < it_interval t"
  proof -
    have "(it_current t' + it_interval t * int n) div it_interval t = int n"
      using acc(2) that assms(1) by simp
    with acc(1) show ?thesis by simp
  qed
  ultimately show ?thesis using interval_ticks_below [OF assms(1) _ _ assms(4)] by simp
qed

theorem interval_timer_exact_witness:
  "fst (interval_ticks [30, 30, 50] \<lparr>it_interval = 50, it_current = 10\<rparr>) = 2"
proof -
  let ?t = "\<lparr>it_interval = 50, it_current = 10\<rparr>"
  obtain n t' where r: "interval_ticks [30, 30, 50] ?t = (n, t')" by fastforce
  with interval_timer_exact [OF _ _ _ r] show ?thesis by simp
qed

text \<open>
  A defect: when the millisecond clock has wrapped round, \<^verbatim>\<open>getMSTimeDiff\<close> is one millisecond
  short of the time that has passed; otherwise it is exact.
\<close>

theorem ms_time_diff_short:
  "getMSTimeDiff old new = (if old > new then new - old - 1 else new - old)"
  by (simp add: getMSTimeDiff_def)

text \<open>
  A periodic timer whose updates stay below its period keeps the exact rhythm: an update reports an
  expiry exactly when the remaining time is used up, and then the next expiry is one period after
  the one that has just passed.
\<close>

theorem periodic_timer_rhythm:
  assumes "0 < pt_expireTime t" "pt_expireTime t \<le> pt_period t" "pt_period t < 2 ^ 31" "uint diff < pt_period t"
  shows "PeriodicTimer_Update diff t =
      (if uint diff < pt_expireTime t then (False, t\<lparr>pt_expireTime := pt_expireTime t - uint diff\<rparr>)
       else (True, t\<lparr>pt_expireTime := pt_expireTime t - uint diff + pt_period t\<rparr>))"
proof -
  have u: "0 \<le> uint diff" by simp
  have e: "int32 (pt_expireTime t - uint diff) = pt_expireTime t - uint diff"
    by (rule int32_id) (use assms u in linarith)+
  have s: "sint diff = uint diff"
    unfolding sint_uint by (rule signed_take_bit_int_eq_self) (use assms u in \<open>simp_all add: order_trans [of _ 0]\<close>)
  have "int32 (pt_expireTime t - uint diff + pt_period t) = pt_expireTime t - uint diff + pt_period t"
    if "\<not> uint diff < pt_expireTime t"
    by (rule int32_id) (use assms u that in linarith)+
  with e s assms(4) show ?thesis by (auto simp: PeriodicTimer_Update_def Let_def)
qed

theorem periodic_timer_rhythm_witness:
  "PeriodicTimer_Update 30 \<lparr>pt_period = 100, pt_expireTime = 20\<rparr> = (True, \<lparr>pt_period = 100, pt_expireTime = 90\<rparr>)"
  using periodic_timer_rhythm [of "\<lparr>pt_period = 100, pt_expireTime = 20\<rparr>" 30] by simp

end
