(* ===== verification/LFGMgr.thy ===== *)
theory LFGMgr
  imports LFGData Timers
begin

text \<open>
  The dungeon finder's manager: \<^verbatim>\<open>game/DungeonFinding/LFGMgr.{h,cpp}\<close> and the scripts of
  \<^verbatim>\<open>LFGScripts.cpp\<close> through which groups report to it.

  The manager keeps the data of players and groups, the role checks, proposals and votes that are
  running, and one queue per team.  Every handler is a function on its record; messages to sessions
  and statements to the database are logged in the record's last two fields.  Sessions, social lists,
  the clock and random numbers are the record \<open>lfgm_env\<close>, constant while a handler runs.

  The groups of \<^verbatim>\<open>Group.cpp\<close> are not part of this model.  Where the manager forms a group or removes a
  member, the operation is taken from the record \<open>lfg_groups\<close>; it works on a world \<open>'w\<close> of groups and
  on the manager, which it reaches through the scripts.

  \<^verbatim>\<open>operator[]\<close> enters default data for an unknown player or group also when it is only read;
  the reads below return the default without entering it, which no operation can tell apart.
\<close>

section \<open>State\<close>

record LFGDungeonData =
  dd_id :: uint32
  dd_name :: string
  dd_map :: uint16
  dd_type :: LfgType
  dd_expansion :: uint8
  dd_group :: uint8
  dd_minlevel :: uint8
  dd_maxlevel :: uint8
  dd_difficulty :: uint8
  dd_seasonal :: bool
  dd_x :: rat
  dd_y :: rat
  dd_z :: rat
  dd_o :: rat

definition LfgType_code :: "LfgType \<Rightarrow> uint32" where
  "LfgType_code t = (case t of LFG_TYPE_NONE \<Rightarrow> 0 | LFG_TYPE_DUNGEON \<Rightarrow> 1 | LFG_TYPE_RAID \<Rightarrow> 2 | LFG_TYPE_HEROIC \<Rightarrow> 5 | LFG_TYPE_RANDOM \<Rightarrow> 6)"

definition LFGDungeonData_Entry :: "LFGDungeonData \<Rightarrow> uint32" where
  "LFGDungeonData_Entry d = dd_id d + push_bit 24 (LfgType_code (dd_type d))"

datatype lfg_stmt = CHAR_DEL_LFG_DATA uint32 | CHAR_INS_LFG_DATA uint32 uint32 LfgState

record LfgReward =
  rw_maxLevel :: uint32
  rw_firstQuest :: uint32
  rw_otherQuest :: uint32

record LFGMgr =
  m_QueueTimer :: uint32
  m_lfgProposalId :: uint32
  m_options :: uint32
  QueuesStore :: "(uint8, LFGQueue) smap"
  CachedDungeonMapStore :: "(uint8, LfgDungeonSet) smap"
  RewardMapStore :: "(uint32, LfgReward) mmap"
  LfgDungeonStore :: "(uint32, LFGDungeonData) smap"
  RoleChecksStore :: "(uint64, LfgRoleCheck) smap"
  ProposalsStore :: "(uint32, LfgProposal) smap"
  BootsStore :: "(uint64, LfgPlayerBoot) smap"
  PlayersStore :: "(uint64, LfgPlayerData) smap"
  GroupsStore :: "(uint64, LfgGroupData) smap"
  m_sent :: "(uint64 \<times> lfg_msg) list"
  m_db :: "lfg_stmt list"

definition LFGQueue0 :: LFGQueue where
  "LFGQueue0 = \<lparr>QueueDataStore = [], CompatibleMapStore = [], waitTimesAvgStore = [], waitTimesTankStore = [],
     waitTimesHealerStore = [], waitTimesDpsStore = [], currentQueueStore = [], newToQueueStore = [],
     proposals_added = [], numbers_drawn = 0\<rparr>"

definition LfgRoleCheck0 :: LfgRoleCheck where
  "LfgRoleCheck0 = \<lparr>rc_cancelTime = 0, rc_roles = [], rc_state = LFG_ROLECHECK_DEFAULT, rc_dungeons = [], rc_rDungeonId = 0, rc_leader = 0\<rparr>"

definition LfgPlayerBoot0 :: LfgPlayerBoot where
  "LfgPlayerBoot0 = \<lparr>pb_cancelTime = 0, pb_inProgress = False, pb_votes = [], pb_victim = 0, pb_reason = []\<rparr>"

definition LFGMgr_new :: "uint32 \<Rightarrow> LFGMgr" where
  "LFGMgr_new options = \<lparr>m_QueueTimer = 0, m_lfgProposalId = 1, m_options = options, QueuesStore = [],
     CachedDungeonMapStore = [], RewardMapStore = [], LfgDungeonStore = [], RoleChecksStore = [], ProposalsStore = [], BootsStore = [],
     PlayersStore = [], GroupsStore = [], m_sent = [], m_db = []\<rparr>"

record lfgm_env =
  me_now :: int
  me_online :: "uint64 \<Rightarrow> bool"
  me_ignores :: "uint64 \<Rightarrow> uint32 \<Rightarrow> bool"
  me_urand :: "uint8 \<Rightarrow> nat \<Rightarrow> nat \<Rightarrow> nat \<Rightarrow> nat"
  me_twoSideGroups :: bool
  me_inDungeonMap :: "uint64 \<Rightarrow> bool"

abbreviation LFG_TIME_ROLECHECK :: int where "LFG_TIME_ROLECHECK \<equiv> 45 * 1000"
abbreviation LFG_TIME_BOOT :: int where "LFG_TIME_BOOT \<equiv> 120"
abbreviation LFG_QUEUEUPDATE_INTERVAL :: uint32 where "LFG_QUEUEUPDATE_INTERVAL \<equiv> 15000"
abbreviation LFG_GROUP_KICK_VOTES_NEEDED :: uint8 where "LFG_GROUP_KICK_VOTES_NEEDED \<equiv> 3"
abbreviation LFG_OPTIONS_ENABLED :: uint32 where "LFG_OPTIONS_ENABLED \<equiv> 0x03"

section \<open>Access to players, groups and queues\<close>

definition player :: "LFGMgr \<Rightarrow> uint64 \<Rightarrow> LfgPlayerData" where
  "player m guid = map_at LfgPlayerData0 (PlayersStore m) guid"

definition group_data :: "LFGMgr \<Rightarrow> uint64 \<Rightarrow> LfgGroupData" where
  "group_data m guid = map_at LfgGroupData0 (GroupsStore m) guid"

definition on_player :: "uint64 \<Rightarrow> (LfgPlayerData \<Rightarrow> LfgPlayerData) \<Rightarrow> LFGMgr \<Rightarrow> LFGMgr" where
  "on_player guid f m = m\<lparr>PlayersStore := map_modify LfgPlayerData0 f guid (PlayersStore m)\<rparr>"

definition on_group :: "uint64 \<Rightarrow> (LfgGroupData \<Rightarrow> LfgGroupData) \<Rightarrow> LFGMgr \<Rightarrow> LFGMgr" where
  "on_group guid f m = m\<lparr>GroupsStore := map_modify LfgGroupData0 f guid (GroupsStore m)\<rparr>"

definition GetState :: "LFGMgr \<Rightarrow> uint64 \<Rightarrow> LfgState" where
  "GetState m guid = (if IS_GROUP_GUID guid then gd_State (group_data m guid) else pd_State (player m guid))"

definition GetOldState :: "LFGMgr \<Rightarrow> uint64 \<Rightarrow> LfgState" where
  "GetOldState m guid = (if IS_GROUP_GUID guid then gd_OldState (group_data m guid) else pd_OldState (player m guid))"

definition SetState :: "uint64 \<Rightarrow> LfgState \<Rightarrow> LFGMgr \<Rightarrow> LFGMgr" where
  "SetState guid state m =
     (if IS_GROUP_GUID guid then on_group guid (LfgGroupData_SetState state) m
      else on_player guid (LfgPlayerData_SetState state) m)"

definition RestoreState :: "uint64 \<Rightarrow> LFGMgr \<Rightarrow> LFGMgr" where
  "RestoreState guid m =
     (if IS_GROUP_GUID guid then on_group guid LfgGroupData_RestoreState m
      else on_player guid LfgPlayerData_RestoreState m)"

definition GetDungeon :: "LFGMgr \<Rightarrow> uint64 \<Rightarrow> bool \<Rightarrow> uint32" where
  "GetDungeon m guid asId = LfgGroupData_GetDungeon asId (group_data m guid)"

definition SetDungeon :: "uint64 \<Rightarrow> uint32 \<Rightarrow> LFGMgr \<Rightarrow> LFGMgr" where
  "SetDungeon guid dungeon m = on_group guid (\<lambda>d. d\<lparr>gd_Dungeon := dungeon\<rparr>) m"

definition SetRoles :: "uint64 \<Rightarrow> uint8 \<Rightarrow> LFGMgr \<Rightarrow> LFGMgr" where
  "SetRoles guid roles m = on_player guid (\<lambda>d. d\<lparr>pd_Roles := roles\<rparr>) m"

definition SetComment :: "uint64 \<Rightarrow> string \<Rightarrow> LFGMgr \<Rightarrow> LFGMgr" where
  "SetComment guid comment m = on_player guid (\<lambda>d. d\<lparr>pd_Comment := comment\<rparr>) m"

definition SetSelectedDungeons :: "uint64 \<Rightarrow> LfgDungeonSet \<Rightarrow> LFGMgr \<Rightarrow> LFGMgr" where
  "SetSelectedDungeons guid dungeons m = on_player guid (\<lambda>d. d\<lparr>pd_SelectedDungeons := dungeons\<rparr>) m"

definition SetLockedDungeons :: "uint64 \<Rightarrow> LfgLockMap \<Rightarrow> LFGMgr \<Rightarrow> LFGMgr" where
  "SetLockedDungeons guid lock m = on_player guid (\<lambda>d. d\<lparr>pd_LockedDungeons := lock\<rparr>) m"

definition SetTeam :: "lfgm_env \<Rightarrow> uint64 \<Rightarrow> uint8 \<Rightarrow> LFGMgr \<Rightarrow> LFGMgr" where
  "SetTeam env guid team m = on_player guid (\<lambda>d. d\<lparr>pd_Team := if me_twoSideGroups env then 0 else team\<rparr>) m"

definition SetGroup :: "uint64 \<Rightarrow> uint64 \<Rightarrow> LFGMgr \<Rightarrow> LFGMgr" where
  "SetGroup guid grp m = on_player guid (\<lambda>d. d\<lparr>pd_Group := grp\<rparr>) m"

definition SetLeader :: "uint64 \<Rightarrow> uint64 \<Rightarrow> LFGMgr \<Rightarrow> LFGMgr" where
  "SetLeader gguid leader m = on_group gguid (\<lambda>d. d\<lparr>gd_Leader := leader\<rparr>) m"

definition AddPlayerToGroup :: "uint64 \<Rightarrow> uint64 \<Rightarrow> LFGMgr \<Rightarrow> LFGMgr" where
  "AddPlayerToGroup gguid guid m = on_group gguid (LfgGroupData_AddPlayer guid) m"

definition RemovePlayerFromGroup :: "uint64 \<Rightarrow> uint64 \<Rightarrow> LFGMgr \<Rightarrow> uint8 \<times> LFGMgr" where
  "RemovePlayerFromGroup gguid guid m =
     (fst (LfgGroupData_RemovePlayer guid (group_data m gguid)), on_group gguid (\<lambda>d. snd (LfgGroupData_RemovePlayer guid d)) m)"

definition DecreaseKicksLeft :: "uint64 \<Rightarrow> LFGMgr \<Rightarrow> LFGMgr" where
  "DecreaseKicksLeft guid m = on_group guid LfgGroupData_DecreaseKicksLeft m"

definition GetPlayers :: "LFGMgr \<Rightarrow> uint64 \<Rightarrow> LfgGuidSet" where
  "GetPlayers m guid = gd_Players (group_data m guid)"

definition GetGroup :: "LFGMgr \<Rightarrow> uint64 \<Rightarrow> uint64" where
  "GetGroup m guid = pd_Group (player m guid)"

definition RemovePlayerData :: "uint64 \<Rightarrow> LFGMgr \<Rightarrow> LFGMgr" where
  "RemovePlayerData guid m = m\<lparr>PlayersStore := map_erase guid (PlayersStore m)\<rparr>"

text \<open>The queue of a player or group, and an operation on it.\<close>

definition queueId :: "LFGMgr \<Rightarrow> uint64 \<Rightarrow> uint8" where
  "queueId m guid =
     (if IS_GROUP_GUID guid
      then case GetPlayers m guid of [] \<Rightarrow> 0 | pguid # ps \<Rightarrow> if pguid \<noteq> 0 then pd_Team (player m pguid) else 0
      else pd_Team (player m guid))"

definition on_queue :: "uint8 \<Rightarrow> (LFGQueue \<Rightarrow> LFGQueue) \<Rightarrow> LFGMgr \<Rightarrow> LFGMgr" where
  "on_queue q f m = m\<lparr>QueuesStore := map_modify LFGQueue0 f q (QueuesStore m)\<rparr>"

definition GetQueue :: "LFGMgr \<Rightarrow> uint64 \<Rightarrow> LFGQueue" where
  "GetQueue m guid = map_at LFGQueue0 (QueuesStore m) (queueId m guid)"

text \<open>What a queue asks the manager.\<close>

definition queue_env :: "lfgm_env \<Rightarrow> uint8 \<Rightarrow> LFGMgr \<Rightarrow> lfg_env" where
  "queue_env env q m =
     \<lparr>le_now = me_now env, le_GetState = GetState m, le_GetOldState = GetOldState m,
      le_lfgGroup = (\<lambda>g. LfgGroupData_IsLfgGroup (group_data m g)), le_online = me_online env, le_ignores = me_ignores env,
      le_GetPlayerCount = (\<lambda>g. word_of_nat (length (GetPlayers m g))), le_urand = me_urand env q\<rparr>"

text \<open>The functions \<^verbatim>\<open>SendLfg*\<close>: nothing is sent to a player who is not found.\<close>

definition send :: "lfgm_env \<Rightarrow> uint64 \<Rightarrow> lfg_msg \<Rightarrow> LFGMgr \<Rightarrow> LFGMgr" where
  "send env guid msg m = (if me_online env guid then m\<lparr>m_sent := m_sent m @ [(guid, msg)]\<rparr> else m)"

definition GetLFGDungeon :: "LFGMgr \<Rightarrow> uint32 \<Rightarrow> LFGDungeonData option" where
  "GetLFGDungeon m dungeonId = map_of (LfgDungeonStore m) dungeonId"

definition GetDungeonsByRandom :: "LFGMgr \<Rightarrow> uint32 \<Rightarrow> LfgDungeonSet" where
  "GetDungeonsByRandom m randomdungeon =
     map_at [] (CachedDungeonMapStore m) (case GetLFGDungeon m randomdungeon of Some d \<Rightarrow> dd_group d | None \<Rightarrow> 0)"

definition GetDungeonType :: "LFGMgr \<Rightarrow> uint32 \<Rightarrow> LfgType" where
  "GetDungeonType m dungeonId = (case GetLFGDungeon m dungeonId of None \<Rightarrow> LFG_TYPE_NONE | Some d \<Rightarrow> dd_type d)"

definition GetDungeonMapId :: "LFGMgr \<Rightarrow> uint64 \<Rightarrow> uint32" where
  "GetDungeonMapId m guid =
     (let dungeonId = GetDungeon m guid True
      in if dungeonId \<noteq> 0 then case GetLFGDungeon m dungeonId of Some d \<Rightarrow> ucast (dd_map d) | None \<Rightarrow> 0 else 0)"

definition GetLFGDungeonEntry :: "LFGMgr \<Rightarrow> uint32 \<Rightarrow> uint32" where
  "GetLFGDungeonEntry m dungeonId =
     (if dungeonId \<noteq> 0 then case GetLFGDungeon m dungeonId of Some d \<Rightarrow> LFGDungeonData_Entry d | None \<Rightarrow> 0 else 0)"

definition GetLfgStatus :: "LFGMgr \<Rightarrow> uint64 \<Rightarrow> LfgUpdateData" where
  "GetLfgStatus m guid = LfgUpdateData_full LFG_UPDATETYPE_UPDATE_STATUS (pd_State (player m guid)) (pd_SelectedDungeons (player m guid)) []"

definition isOptionEnabled :: "uint32 \<Rightarrow> LFGMgr \<Rightarrow> bool" where
  "isOptionEnabled option m = has_flag (m_options m) option"

definition selectedRandomLfgDungeon :: "LFGMgr \<Rightarrow> uint64 \<Rightarrow> bool" where
  "selectedRandomLfgDungeon m guid \<longleftrightarrow>
     GetState m guid \<noteq> LFG_STATE_NONE
     \<and> (case pd_SelectedDungeons (player m guid) of
          [] \<Rightarrow> False
        | d # ds \<Rightarrow> (case GetLFGDungeon m d of None \<Rightarrow> False | Some x \<Rightarrow> dd_type x = LFG_TYPE_RANDOM \<or> dd_seasonal x))"

definition inLfgDungeonMap :: "LFGMgr \<Rightarrow> uint64 \<Rightarrow> uint32 \<Rightarrow> uint8 \<Rightarrow> bool" where
  "inLfgDungeonMap m guid mapid difficulty \<longleftrightarrow>
     (let gguid = (if IS_GROUP_GUID guid then guid else GetGroup m guid); dungeonId = GetDungeon m gguid True
      in dungeonId \<noteq> 0
         \<and> (case GetLFGDungeon m dungeonId of None \<Rightarrow> False | Some d \<Rightarrow> ucast (dd_map d) = mapid \<and> dd_difficulty d = difficulty))"

section \<open>Role checks\<close>

text \<open>What a member of a group is told and set to when the state of its role check is known.\<close>

definition role_check_member ::
    "lfgm_env \<Rightarrow> bool \<Rightarrow> uint64 \<Rightarrow> uint8 \<Rightarrow> LfgRoleCheck \<Rightarrow> LfgDungeonSet \<Rightarrow> uint64 \<times> uint8 \<Rightarrow> LFGMgr \<Rightarrow> LFGMgr" where
  "role_check_member env sendRoleChosen guid roles rc dungeons e m =
     (case e of (pguid, role) \<Rightarrow>
        let m = (if sendRoleChosen then send env pguid (MsgRoleChosen guid roles) m else m);
            m = send env pguid (MsgRoleCheckUpdate rc) m
        in case rc_state rc of
             LFG_ROLECHECK_INITIALITING \<Rightarrow> m
           | LFG_ROLECHECK_FINISHED \<Rightarrow>
               let m = SetRoles pguid role (SetState pguid LFG_STATE_QUEUED m)
               in send env pguid (MsgUpdateParty (LfgUpdateData_with LFG_UPDATETYPE_ADDED_TO_QUEUE dungeons (pd_Comment (player m pguid)))) m
           | _ \<Rightarrow>
               let m = (if rc_leader rc = pguid then send env pguid (MsgJoinResult (LfgJoinResultData_of LFG_JOIN_FAILED (rc_state rc))) m else m);
                   m = send env pguid (MsgUpdateParty (LfgUpdateData_of LFG_UPDATETYPE_ROLECHECK_FAILED)) m
               in RestoreState pguid m)"

text \<open>The new state of a role check when a player has chosen roles (\<open>0\<close>: when it is aborted).\<close>

definition role_chosen :: "uint64 \<Rightarrow> uint8 \<Rightarrow> LfgRoleCheck \<Rightarrow> LfgRoleCheck" where
  "role_chosen guid roles rc =
     (if guid = 0 then rc\<lparr>rc_state := LFG_ROLECHECK_ABORTED\<rparr>
      else if roles < PLAYER_ROLE_TANK then rc\<lparr>rc_state := LFG_ROLECHECK_NO_ROLE\<rparr>
      else let rc = rc\<lparr>rc_roles := map_put guid roles (rc_roles rc)\<rparr>
           in if list_all (\<lambda>e. snd e \<noteq> PLAYER_ROLE_NONE) (rc_roles rc)
              then rc\<lparr>rc_state := if fst (CheckGroupRoles (rc_roles rc)) then LFG_ROLECHECK_FINISHED else LFG_ROLECHECK_WRONG_ROLES\<rparr>
              else rc)"

definition UpdateRoleCheck :: "lfgm_env \<Rightarrow> uint64 \<Rightarrow> uint64 \<Rightarrow> uint8 \<Rightarrow> LFGMgr \<Rightarrow> LFGMgr" where
  "UpdateRoleCheck env gguid guid roles m =
     (if gguid = 0 then m
      else case map_of (RoleChecksStore m) gguid of
             None \<Rightarrow> m
           | Some roleCheck \<Rightarrow>
              let sendRoleChosen = (rc_state roleCheck \<noteq> LFG_ROLECHECK_DEFAULT \<and> guid \<noteq> 0);
                  rc = role_chosen guid roles roleCheck;
                  m = m\<lparr>RoleChecksStore := map_put gguid rc (RoleChecksStore m)\<rparr>;
                  dungeons = (if rc_rDungeonId rc \<noteq> 0 then [rc_rDungeonId rc] else rc_dungeons rc);
                  m = fold (role_check_member env sendRoleChosen guid roles rc dungeons) (rc_roles rc) m
              in if rc_state rc = LFG_ROLECHECK_FINISHED
                 then let m = SetState gguid LFG_STATE_QUEUED m;
                          m = on_queue (queueId m gguid) (AddQueueData gguid (me_now env) (rc_dungeons rc) (rc_roles rc)) m
                      in m\<lparr>RoleChecksStore := map_erase gguid (RoleChecksStore m)\<rparr>
                 else if rc_state rc \<noteq> LFG_ROLECHECK_INITIALITING
                 then let m = RestoreState gguid m in m\<lparr>RoleChecksStore := map_erase gguid (RoleChecksStore m)\<rparr>
                 else m)"

section \<open>Proposals\<close>

definition LFGMgr_AddProposal :: "LfgProposal \<Rightarrow> LFGMgr \<Rightarrow> LFGMgr" where
  "LFGMgr_AddProposal p m =
     (let n = m_lfgProposalId m + 1 in m\<lparr>m_lfgProposalId := n, ProposalsStore := map_put n p (ProposalsStore m)\<rparr>)"

definition on_answers :: "(LfgAnswer \<Rightarrow> LfgAnswer) \<Rightarrow> LfgProposal \<Rightarrow> LfgProposal" where
  "on_answers f p = p\<lparr>pr_players := map (\<lambda>e. (fst e, (snd e)\<lparr>pp_accept := f (pp_accept (snd e))\<rparr>)) (pr_players p)\<rparr>"

text \<open>The answers after the two marking loops of \<^verbatim>\<open>RemoveProposal\<close>, and the entries to remove.\<close>

definition failed_proposal :: "LfgUpdateType \<Rightarrow> LfgProposal \<Rightarrow> LfgProposal" where
  "failed_proposal type p =
     on_answers (\<lambda>a. if type = LFG_UPDATETYPE_PROPOSAL_FAILED \<and> a = LFG_ANSWER_PENDING then LFG_ANSWER_DENY else a)
       (p\<lparr>pr_state := LFG_PROPOSAL_FAILED\<rparr>)"

definition to_remove :: "LfgProposal \<Rightarrow> LfgGuidSet" where
  "to_remove p = set_of_list (map queue_guid (filter (\<lambda>e. pp_accept (snd e) = LFG_ANSWER_DENY) (pr_players p)))"

definition notify_failed ::
    "lfgm_env \<Rightarrow> LfgUpdateType \<Rightarrow> LfgProposal \<Rightarrow> LfgGuidSet \<Rightarrow> uint64 \<times> LfgProposalPlayer \<Rightarrow> LFGMgr \<Rightarrow> LFGMgr" where
  "notify_failed env type p removed e m =
     (let guid = fst e; gguid = queue_guid e; m = send env guid (MsgUpdateProposal p) m
      in if gguid \<in> set removed
         then let data = LfgUpdateData_of (if pp_accept (snd e) = LFG_ANSWER_DENY then type else LFG_UPDATETYPE_REMOVED_FROM_QUEUE);
                  m = RestoreState guid m
              in if gguid \<noteq> guid then send env guid (MsgUpdateParty data) (RestoreState (pp_group (snd e)) m)
                 else send env guid (MsgUpdatePlayer data) m
         else let m = SetState guid LFG_STATE_QUEUED m;
                  data = (\<lambda>m. LfgUpdateData_with LFG_UPDATETYPE_ADDED_TO_QUEUE (pd_SelectedDungeons (player m guid)) (pd_Comment (player m guid)))
              in if gguid \<noteq> guid then let m = SetState gguid LFG_STATE_QUEUED m in send env guid (MsgUpdateParty (data m)) m
                 else send env guid (MsgUpdatePlayer (data m)) m)"

definition RemoveProposal :: "lfgm_env \<Rightarrow> uint32 \<Rightarrow> LfgUpdateType \<Rightarrow> LFGMgr \<Rightarrow> lfg_error + LFGMgr" where
  "RemoveProposal env proposalId type m =
     (case map_of (ProposalsStore m) proposalId of
        None \<Rightarrow> Inl DereferencedEnd
      | Some proposal \<Rightarrow>
          let p = failed_proposal type proposal; toRemove = to_remove p;
              m = fold (notify_failed env type p toRemove) (pr_players p) m
          in case pr_players p of
               [] \<Rightarrow> Inl DereferencedEnd
             | (first, x) # ps \<Rightarrow>
                 let queues = fold removeAll toRemove (pr_queues p);
                     m = on_queue (queueId m first) (\<lambda>s. fold AddToQueue queues (fold RemoveFromQueue toRemove s)) m
                 in Inr (m\<lparr>ProposalsStore := map_erase proposalId (ProposalsStore m)\<rparr>))"

section \<open>Leaving\<close>

text \<open>\<^verbatim>\<open>LeaveLfg\<close> marks the first proposal with the player as refused by him.\<close>

definition find_proposal :: "uint64 \<Rightarrow> LFGMgr \<Rightarrow> (uint32 \<times> LfgProposal) option" where
  "find_proposal pguid m = find (\<lambda>e. map_of (pr_players (snd e)) pguid \<noteq> None) (ProposalsStore m)"

definition answer_proposal :: "uint64 \<Rightarrow> LfgAnswer \<Rightarrow> LfgProposal \<Rightarrow> LfgProposal" where
  "answer_proposal pguid a p =
     p\<lparr>pr_players := map (\<lambda>e. if fst e = pguid then (fst e, (snd e)\<lparr>pp_accept := a\<rparr>) else e) (pr_players p)\<rparr>"

definition leave_queue :: "lfgm_env \<Rightarrow> uint64 \<Rightarrow> uint64 \<Rightarrow> LFGMgr \<Rightarrow> LFGMgr" where
  "leave_queue env guid gguid m =
     (if gguid \<noteq> 0
      then let m = SetState gguid LFG_STATE_NONE (on_queue (queueId m gguid) (RemoveFromQueue gguid) m)
           in fold (\<lambda>p m. send env p (MsgUpdateParty (LfgUpdateData_of LFG_UPDATETYPE_REMOVED_FROM_QUEUE)) (SetState p LFG_STATE_NONE m))
                (GetPlayers m gguid) m
      else SetState guid LFG_STATE_NONE
             (send env guid (MsgUpdatePlayer (LfgUpdateData_of LFG_UPDATETYPE_REMOVED_FROM_QUEUE))
               (on_queue (queueId m guid) (RemoveFromQueue guid) m)))"

definition LeaveLfg :: "lfgm_env \<Rightarrow> uint64 \<Rightarrow> LFGMgr \<Rightarrow> lfg_error + LFGMgr" where
  "LeaveLfg env guid m =
     (let gguid = (if IS_GROUP_GUID guid then guid else GetGroup m guid)
      in case GetState m guid of
           LFG_STATE_QUEUED \<Rightarrow> Inr (leave_queue env guid gguid m)
         | LFG_STATE_ROLECHECK \<Rightarrow> Inr (if gguid \<noteq> 0 then UpdateRoleCheck env gguid 0 PLAYER_ROLE_NONE m else m)
         | LFG_STATE_PROPOSAL \<Rightarrow>
             (let pguid = (if gguid = guid then gd_Leader (group_data m gguid) else guid)
              in case find_proposal pguid m of
                   None \<Rightarrow> Inr m
                 | Some (n, p) \<Rightarrow>
                     RemoveProposal env n LFG_UPDATETYPE_PROPOSAL_DECLINED
                       (m\<lparr>ProposalsStore := map_put n (answer_proposal pguid LFG_ANSWER_DENY p) (ProposalsStore m)\<rparr>))
         | LFG_STATE_NONE \<Rightarrow> Inr m
         | LFG_STATE_RAIDBROWSER \<Rightarrow> Inr m
         | _ \<Rightarrow> Inr (if guid \<noteq> gguid then SetState guid LFG_STATE_NONE m else m))"

section \<open>Forming a group\<close>

datatype RemoveMethod = GROUP_REMOVEMETHOD_DEFAULT | GROUP_REMOVEMETHOD_KICK | GROUP_REMOVEMETHOD_LEAVE | GROUP_REMOVEMETHOD_KICK_LFG

text \<open>
  The operations on groups that the manager calls.  \<open>lg_groupOf\<close> is the group of a player (\<open>0\<close>: none),
  \<open>lg_exists\<close> whether a group is registered.  \<open>lg_Create\<close> creates an LFG group with its leader;
  it, \<open>lg_AddMember\<close> and \<open>lg_RemoveMember\<close> call the scripts and so reach the manager; \<open>lg_SetLfgRoles\<close>,
  \<open>lg_TeleportPlayer\<close> and \<open>lg_SendUpdate\<close> read it for their packets.
\<close>

record 'w lfg_groups =
  lg_groupOf :: "'w \<Rightarrow> uint64 \<Rightarrow> uint64"
  lg_exists :: "'w \<Rightarrow> uint64 \<Rightarrow> bool"
  lg_dbStoreId :: "'w \<Rightarrow> uint64 \<Rightarrow> uint32"
  lg_Create :: "uint64 \<Rightarrow> LFGMgr \<times> 'w \<Rightarrow> uint64 \<times> LFGMgr \<times> 'w"
  lg_AddGroup :: "uint64 \<Rightarrow> 'w \<Rightarrow> 'w"
  lg_AddMember :: "uint64 \<Rightarrow> uint64 \<Rightarrow> LFGMgr \<times> 'w \<Rightarrow> LFGMgr \<times> 'w"
  lg_RemoveMember :: "uint64 \<Rightarrow> uint64 \<Rightarrow> RemoveMethod \<Rightarrow> LFGMgr \<times> 'w \<Rightarrow> LFGMgr \<times> 'w"
  lg_SetLfgRoles :: "uint64 \<Rightarrow> uint64 \<Rightarrow> uint8 \<Rightarrow> LFGMgr \<Rightarrow> 'w \<Rightarrow> 'w"
  lg_SetDungeonDifficulty :: "uint64 \<Rightarrow> uint8 \<Rightarrow> 'w \<Rightarrow> 'w"
  lg_CastCooldown :: "uint64 \<Rightarrow> 'w \<Rightarrow> 'w"
  lg_TeleportPlayer :: "uint64 \<Rightarrow> LFGMgr \<Rightarrow> 'w \<Rightarrow> 'w"
  lg_SendUpdate :: "uint64 \<Rightarrow> LFGMgr \<Rightarrow> 'w \<Rightarrow> 'w"

definition SaveToDB :: "uint64 \<Rightarrow> uint32 \<Rightarrow> LFGMgr \<Rightarrow> LFGMgr" where
  "SaveToDB guid db_guid m =
     (if \<not> IS_GROUP_GUID guid then m
      else m\<lparr>m_db := m_db m @ [CHAR_DEL_LFG_DATA db_guid, CHAR_INS_LFG_DATA db_guid (GetDungeon m guid True) (GetState m guid)]\<rparr>)"

text \<open>The row holds the leader's low GUID, the dungeon and the state.\<close>

definition LoadFromDB :: "(uint32 \<times> uint32 \<times> LfgState) option \<Rightarrow> uint64 \<Rightarrow> LFGMgr \<Rightarrow> LFGMgr" where
  "LoadFromDB row guid m =
     (case row of
        None \<Rightarrow> m
      | Some (leader, dungeon, state) \<Rightarrow>
          if \<not> IS_GROUP_GUID guid then m
          else let m = SetLeader guid (MAKE_NEW_GUID leader 0 HIGHGUID_PLAYER) m
               in if dungeon = 0 \<or> state = LFG_STATE_NONE then m
                  else let m = SetDungeon guid dungeon m
                       in if state = LFG_STATE_DUNGEON \<or> state = LFG_STATE_FINISHED_DUNGEON then SetState guid state m else m)"

definition proposal_order :: "LfgProposal \<Rightarrow> LfgGuidList" where
  "proposal_order p =
     fold (\<lambda>guid players. if guid = pr_leader p then guid # players else players @ [guid]) (map fst (pr_players p)) []"

definition to_teleport :: "LFGMgr \<Rightarrow> LfgProposal \<Rightarrow> LfgGuidList" where
  "to_teleport m p = filter (\<lambda>guid. pr_isNew p \<or> GetGroup m guid \<noteq> pr_group p) (map fst (pr_players p))"

text \<open>One player joins the group \<open>grp\<close>, which is created when there is none (\<open>0\<close>).\<close>

definition join_new_group ::
    "'w lfg_groups \<Rightarrow> lfgm_env \<Rightarrow> LfgProposal \<Rightarrow> LFGDungeonData \<Rightarrow> uint64 \<Rightarrow> uint64 \<times> LFGMgr \<times> 'w \<Rightarrow> uint64 \<times> LFGMgr \<times> 'w" where
  "join_new_group G env p dungeon pguid st =
     (case st of (grp, mw) \<Rightarrow>
        if \<not> me_online env pguid then st
        else let own = lg_groupOf G (snd mw) pguid;
                 mw = (if own \<noteq> 0 \<and> own \<noteq> grp then lg_RemoveMember G own pguid GROUP_REMOVEMETHOD_DEFAULT mw else mw);
                 (grp, mw) =
                   (if grp = 0 then case lg_Create G pguid mw of (gguid, m, w) \<Rightarrow> (gguid, SetState gguid LFG_STATE_PROPOSAL m, lg_AddGroup G gguid w)
                    else if own \<noteq> grp then (grp, lg_AddMember G grp pguid mw) else (grp, mw));
                 w = lg_SetLfgRoles G grp pguid (case map_of (pr_players p) pguid of Some pp \<Rightarrow> pp_role pp | None \<Rightarrow> 0) (fst mw) (snd mw);
                 w = (if dd_type dungeon = LFG_TYPE_RANDOM then lg_CastCooldown G pguid w else w)
             in (grp, fst mw, w))"

definition MakeNewGroup :: "'w lfg_groups \<Rightarrow> lfgm_env \<Rightarrow> LfgProposal \<Rightarrow> LFGMgr \<times> 'w \<Rightarrow> lfg_error + LFGMgr \<times> 'w" where
  "MakeNewGroup G env p mw =
     (case GetLFGDungeon (fst mw) (pr_dungeonId p) of
        None \<Rightarrow> Inl AssertionFailed
      | Some dungeon \<Rightarrow>
          let teleport = to_teleport (fst mw) p;
              grp = (if pr_group p \<noteq> 0 \<and> lg_exists G (snd mw) (pr_group p) then pr_group p else 0);
              (gguid, m, w) = fold (join_new_group G env p dungeon) (proposal_order p) (grp, mw)
          in if gguid = 0 then Inl NullPointer
             else let w = lg_SetDungeonDifficulty G gguid (dd_difficulty dungeon) w;
                      m = SetState gguid LFG_STATE_DUNGEON (SetDungeon gguid (LFGDungeonData_Entry dungeon) m);
                      m = SaveToDB gguid (lg_dbStoreId G w gguid) m;
                      w = fold (\<lambda>guid w. if me_online env guid then lg_TeleportPlayer G guid m w else w) teleport w
                  in Inr (m, lg_SendUpdate G gguid m w))"

section \<open>Answers to a proposal\<close>

definition all_agree :: "LfgProposal \<Rightarrow> bool" where
  "all_agree p \<longleftrightarrow> list_all (\<lambda>e. pp_accept (snd e) = LFG_ANSWER_AGREE) (pr_players p)"

definition trunc_div :: "int \<Rightarrow> int \<Rightarrow> int" where
  "trunc_div a b = (if a < 0 then - (- a div b) else a div b)"

definition update_wait_of :: "uint8 \<Rightarrow> int \<Rightarrow> uint32 \<Rightarrow> LFGQueue \<Rightarrow> LFGQueue" where
  "update_wait_of role waitTime dungeonId s =
     (if role = PLAYER_ROLE_DAMAGE then UpdateWaitTimeDps waitTime dungeonId s
      else if role = PLAYER_ROLE_HEALER then UpdateWaitTimeHealer waitTime dungeonId s
      else if role = PLAYER_ROLE_TANK then UpdateWaitTimeTank waitTime dungeonId s
      else UpdateWaitTimeAvg waitTime dungeonId s)"

text \<open>
  One turn of the loop over the players of a proposal that all have accepted.  The first message of
  the first player says that a group was found; the loop then changes the type of the message.
\<close>

definition accepted_player ::
    "lfgm_env \<Rightarrow> uint8 \<Rightarrow> bool \<Rightarrow> LfgProposal \<Rightarrow> uint64 \<times> LfgProposalPlayer \<Rightarrow> LfgUpdateType \<times> LFGMgr
     \<Rightarrow> lfg_error + LfgUpdateType \<times> LFGMgr" where
  "accepted_player env q sendUpdate p e st =
     (case st of (type, m) \<Rightarrow>
        let pguid = fst e; gguid = pp_group (snd e)
        in case pd_SelectedDungeons (player m pguid) of
             [] \<Rightarrow> Inl DereferencedEnd
           | dungeonId # ds \<Rightarrow>
               let m = (if sendUpdate then send env pguid (MsgUpdateProposal p) m else m);
                   waiting = (if gguid \<noteq> 0 then gguid else pguid);
                   (joined, s) = GetJoinTime (queue_env env q m) waiting (map_at LFGQueue0 (QueuesStore m) q);
                   waitTime = int32 (trunc_div (me_now env - joined) 1000);
                   m = on_queue q (\<lambda>_. s) m;
                   m = send env pguid ((if gguid \<noteq> 0 then MsgUpdateParty else MsgUpdatePlayer) (LfgUpdateData_of type)) m;
                   removed = LfgUpdateData_of LFG_UPDATETYPE_REMOVED_FROM_QUEUE;
                   m = send env pguid (MsgUpdateParty removed) (send env pguid (MsgUpdatePlayer removed) m);
                   role = clear_flag (pd_Roles (player m pguid)) PLAYER_ROLE_LEADER;
                   m = on_queue q (update_wait_of role waitTime dungeonId) m
               in Inr (LFG_UPDATETYPE_REMOVED_FROM_QUEUE, SetState pguid LFG_STATE_DUNGEON m))"

fun accepted_players ::
    "lfgm_env \<Rightarrow> uint8 \<Rightarrow> bool \<Rightarrow> LfgProposal \<Rightarrow> (uint64 \<times> LfgProposalPlayer) list \<Rightarrow> LfgUpdateType \<times> LFGMgr
     \<Rightarrow> lfg_error + LfgUpdateType \<times> LFGMgr" where
  "accepted_players env q sendUpdate p [] st = Inr st"
| "accepted_players env q sendUpdate p (e # es) st =
     bindE (accepted_player env q sendUpdate p e st) (accepted_players env q sendUpdate p es)"

definition proposal_accepted ::
    "'w lfg_groups \<Rightarrow> lfgm_env \<Rightarrow> uint32 \<Rightarrow> uint64 \<Rightarrow> LfgProposal \<Rightarrow> LFGMgr \<times> 'w \<Rightarrow> lfg_error + LFGMgr \<times> 'w" where
  "proposal_accepted G env proposalId guid proposal mw =
     (case mw of (m, w) \<Rightarrow>
        let sendUpdate = (pr_state proposal \<noteq> LFG_PROPOSAL_SUCCESS);
            p = proposal\<lparr>pr_state := LFG_PROPOSAL_SUCCESS\<rparr>;
            m = m\<lparr>ProposalsStore := map_put proposalId p (ProposalsStore m)\<rparr>;
            q = queueId m guid
        in bindE (accepted_players env q sendUpdate p (pr_players p) (LFG_UPDATETYPE_GROUP_FOUND, m)) (\<lambda>(type, m).
             let m = on_queue q (fold RemoveFromQueue (pr_queues p)) m
             in bindE (MakeNewGroup G env p (m, w)) (\<lambda>(m, w).
                  Inr (m\<lparr>ProposalsStore := map_erase proposalId (ProposalsStore m)\<rparr>, w))))"

definition UpdateProposal ::
    "'w lfg_groups \<Rightarrow> lfgm_env \<Rightarrow> uint32 \<Rightarrow> uint64 \<Rightarrow> bool \<Rightarrow> LFGMgr \<times> 'w \<Rightarrow> lfg_error + LFGMgr \<times> 'w" where
  "UpdateProposal G env proposalId guid accept mw =
     (case mw of (m, w) \<Rightarrow>
        case map_of (ProposalsStore m) proposalId of
          None \<Rightarrow> Inr (m, w)
        | Some p \<Rightarrow>
            if map_of (pr_players p) guid = None then Inr (m, w)
            else let p = answer_proposal guid (if accept then LFG_ANSWER_AGREE else LFG_ANSWER_DENY) p;
                     m = m\<lparr>ProposalsStore := map_put proposalId p (ProposalsStore m)\<rparr>
                 in if \<not> accept
                    then bindE (RemoveProposal env proposalId LFG_UPDATETYPE_PROPOSAL_DECLINED m) (\<lambda>m. Inr (m, w))
                    else if \<not> all_agree p
                    then Inr (fold (\<lambda>e. send env (fst e) (MsgUpdateProposal p)) (pr_players p) m, w)
                    else proposal_accepted G env proposalId guid p (m, w))"

section \<open>Votes to kick a player\<close>

definition InitBoot :: "lfgm_env \<Rightarrow> uint64 \<Rightarrow> uint64 \<Rightarrow> uint64 \<Rightarrow> string \<Rightarrow> LFGMgr \<Rightarrow> LFGMgr" where
  "InitBoot env gguid kicker victim reason m =
     (let m = SetState gguid LFG_STATE_BOOT m;
          players = GetPlayers m gguid;
          boot = (map_at LfgPlayerBoot0 (BootsStore m) gguid)
                   \<lparr>pb_inProgress := True, pb_cancelTime := me_now env + LFG_TIME_BOOT, pb_reason := reason, pb_victim := victim\<rparr>;
          votes = fold (\<lambda>guid. map_put guid LFG_ANSWER_PENDING) players (pb_votes boot);
          boot = boot\<lparr>pb_votes := map_put kicker LFG_ANSWER_AGREE (map_put victim LFG_ANSWER_DENY votes)\<rparr>;
          m = fold (\<lambda>guid. SetState guid LFG_STATE_BOOT) players m;
          m = m\<lparr>BootsStore := map_put gguid boot (BootsStore m)\<rparr>
      in fold (\<lambda>guid. send env guid (MsgBootProposalUpdate boot)) players m)"

definition count_votes :: "(LfgAnswer \<Rightarrow> bool) \<Rightarrow> LfgPlayerBoot \<Rightarrow> uint8" where
  "count_votes P boot = word_of_nat (length (filter (\<lambda>e. P (snd e)) (pb_votes boot)))"

text \<open>The end of a vote: everybody but the victim is told and returns to the dungeon, and enough votes kick.\<close>

definition finish_boot :: "'w lfg_groups \<Rightarrow> lfgm_env \<Rightarrow> uint64 \<Rightarrow> LfgPlayerBoot \<Rightarrow> uint8 \<Rightarrow> LFGMgr \<times> 'w \<Rightarrow> LFGMgr \<times> 'w" where
  "finish_boot G env gguid boot agreeNum mw =
     (case mw of (m, w) \<Rightarrow>
        let boot = boot\<lparr>pb_inProgress := False\<rparr>;
            m = fold (\<lambda>e m. if fst e \<noteq> pb_victim boot
                             then send env (fst e) (MsgBootProposalUpdate boot) (SetState (fst e) LFG_STATE_DUNGEON m)
                             else m) (pb_votes boot) m;
            m = SetState gguid LFG_STATE_DUNGEON m;
            (m, w) =
              (if agreeNum = LFG_GROUP_KICK_VOTES_NEEDED
               then let (m, w) = (if lg_exists G w gguid then lg_RemoveMember G gguid (pb_victim boot) GROUP_REMOVEMETHOD_KICK_LFG (m, w) else (m, w))
                    in (DecreaseKicksLeft gguid m, w)
               else (m, w))
        in (m\<lparr>BootsStore := map_erase gguid (BootsStore m)\<rparr>, w))"

definition UpdateBoot :: "'w lfg_groups \<Rightarrow> lfgm_env \<Rightarrow> uint64 \<Rightarrow> bool \<Rightarrow> LFGMgr \<times> 'w \<Rightarrow> LFGMgr \<times> 'w" where
  "UpdateBoot G env guid accept mw =
     (case mw of (m, w) \<Rightarrow>
        let gguid = GetGroup m guid
        in if gguid = 0 then (m, w)
           else case map_of (BootsStore m) gguid of
                  None \<Rightarrow> (m, w)
                | Some boot \<Rightarrow>
                    if map_at LFG_ANSWER_DENY (pb_votes boot) guid \<noteq> LFG_ANSWER_PENDING
                    then (m\<lparr>BootsStore := map_put gguid (boot\<lparr>pb_votes := map_modify LFG_ANSWER_DENY (\<lambda>a. a) guid (pb_votes boot)\<rparr>) (BootsStore m)\<rparr>, w)
                    else
                      let boot = boot\<lparr>pb_votes := map_put guid (if accept then LFG_ANSWER_AGREE else LFG_ANSWER_DENY) (pb_votes boot)\<rparr>;
                          m = m\<lparr>BootsStore := map_put gguid boot (BootsStore m)\<rparr>;
                          votesNum = count_votes (\<lambda>a. a \<noteq> LFG_ANSWER_PENDING) boot;
                          agreeNum = count_votes (\<lambda>a. a = LFG_ANSWER_AGREE) boot
                      in if agreeNum < LFG_GROUP_KICK_VOTES_NEEDED \<and> unat votesNum - unat agreeNum < unat LFG_GROUP_KICK_VOTES_NEEDED
                         then (m, w)
                         else finish_boot G env gguid boot agreeNum (m, w))"

section \<open>The periodic update\<close>

definition expire_role_check :: "lfgm_env \<Rightarrow> uint64 \<times> LfgRoleCheck \<Rightarrow> LFGMgr \<Rightarrow> LFGMgr" where
  "expire_role_check env e m =
     (if me_now env < rc_cancelTime (snd e) then m
      else let rc = (snd e)\<lparr>rc_state := LFG_ROLECHECK_MISSING_ROLE\<rparr>;
               m = fold (\<lambda>(guid, role) m.
                     let m = send env guid (MsgRoleCheckUpdate rc) (RestoreState guid m)
                     in if guid = rc_leader rc then send env guid (MsgJoinResult (LfgJoinResultData_of LFG_JOIN_FAILED LFG_ROLECHECK_MISSING_ROLE)) m else m)
                   (rc_roles rc) m;
               m = RestoreState (fst e) m
           in m\<lparr>RoleChecksStore := map_erase (fst e) (RoleChecksStore m)\<rparr>)"

definition expire_boot :: "lfgm_env \<Rightarrow> uint64 \<times> LfgPlayerBoot \<Rightarrow> LFGMgr \<Rightarrow> LFGMgr" where
  "expire_boot env e m =
     (if \<not> pb_cancelTime (snd e) < me_now env then m
      else let boot = (snd e)\<lparr>pb_inProgress := False\<rparr>;
               m = fold (\<lambda>(pguid, a) m.
                     SetState pguid LFG_STATE_DUNGEON (if pguid \<noteq> pb_victim boot then send env pguid (MsgBootProposalUpdate boot) m else m))
                   (pb_votes boot) m;
               m = SetState (fst e) LFG_STATE_DUNGEON m
           in m\<lparr>BootsStore := map_erase (fst e) (BootsStore m)\<rparr>)"

fun expire_proposals :: "lfgm_env \<Rightarrow> (uint32 \<times> LfgProposal) list \<Rightarrow> LFGMgr \<Rightarrow> lfg_error + LFGMgr" where
  "expire_proposals env [] m = Inr m"
| "expire_proposals env ((n, p) # ps) m =
     bindE (if pr_cancelTime p < me_now env then RemoveProposal env n LFG_UPDATETYPE_PROPOSAL_FAILED m else Inr m)
       (expire_proposals env ps)"

text \<open>The search in one queue; the proposals it adds are stored in their order.\<close>

definition search_queue :: "lfgm_env \<Rightarrow> uint8 \<Rightarrow> LFGMgr \<Rightarrow> lfg_error + LFGMgr" where
  "search_queue env q m =
     (case FindGroups (queue_env env q m) ((map_at LFGQueue0 (QueuesStore m) q)\<lparr>proposals_added := []\<rparr>) of
        None \<Rightarrow> Inl OutOfFuel
      | Some (newProposals, s) \<Rightarrow> Inr (fold LFGMgr_AddProposal (proposals_added s) (on_queue q (\<lambda>_. s) m)))"

fun search_queues :: "lfgm_env \<Rightarrow> uint8 list \<Rightarrow> LFGMgr \<Rightarrow> lfg_error + LFGMgr" where
  "search_queues env [] m = Inr m"
| "search_queues env (q # qs) m = bindE (search_queue env q m) (search_queues env qs)"

definition announce_player :: "lfgm_env \<Rightarrow> LfgProposal \<Rightarrow> uint64 \<Rightarrow> LFGMgr \<Rightarrow> LFGMgr" where
  "announce_player env p guid m =
     (let m = SetState guid LFG_STATE_PROPOSAL m;
          gguid = GetGroup m guid;
          data = (\<lambda>m. LfgUpdateData_with LFG_UPDATETYPE_PROPOSAL_BEGIN (pd_SelectedDungeons (player m guid)) (pd_Comment (player m guid)));
          m = (if gguid \<noteq> 0 then let m = SetState gguid LFG_STATE_PROPOSAL m in send env guid (MsgUpdateParty (data m)) m
               else send env guid (MsgUpdatePlayer (data m)) m)
      in send env guid (MsgUpdateProposal p) m)"

text \<open>
  The loop over the proposals from the last one on.  When a proposal is accepted at once, its entry
  is erased under the iterator.
\<close>

fun announce_proposals :: "'w lfg_groups \<Rightarrow> lfgm_env \<Rightarrow> (uint32 \<times> LfgProposal) list \<Rightarrow> LFGMgr \<times> 'w \<Rightarrow> lfg_error + LFGMgr \<times> 'w" where
  "announce_proposals G env [] mw = Inr mw"
| "announce_proposals G env ((n, p) # ps) mw =
     (case mw of (m, w) \<Rightarrow>
        let m = fold (announce_player env p) (map fst (pr_players p)) m;
            guid = (if pr_players p = [] then 0 else fst (last (pr_players p)))
        in if pr_state p = LFG_PROPOSAL_SUCCESS
           then bindE (UpdateProposal G env n guid True (m, w)) (\<lambda>(m, w).
                  if map_of (ProposalsStore m) n = None then Inl DereferencedEnd else announce_proposals G env ps (m, w))
           else announce_proposals G env ps (m, w))"

fun update_all_timers :: "lfgm_env \<Rightarrow> uint8 list \<Rightarrow> LFGMgr \<Rightarrow> lfg_error + LFGMgr" where
  "update_all_timers env [] m = Inr m"
| "update_all_timers env (q # qs) m =
     bindE (UpdateQueueTimers (queue_env env q m) (me_now env) (map_at LFGQueue0 (QueuesStore m) q)) (\<lambda>(s, sent).
       update_all_timers env qs ((on_queue q (\<lambda>_. s) m)\<lparr>m_sent := m_sent m @ map (\<lambda>(g, st). (g, MsgQueueStatus st)) sent\<rparr>))"

definition update_queue_timers :: "lfgm_env \<Rightarrow> uint32 \<Rightarrow> LFGMgr \<Rightarrow> lfg_error + LFGMgr" where
  "update_queue_timers env diff m =
     (if m_QueueTimer m > LFG_QUEUEUPDATE_INTERVAL
      then update_all_timers env (map fst (QueuesStore m)) (m\<lparr>m_QueueTimer := 0\<rparr>)
      else Inr (m\<lparr>m_QueueTimer := m_QueueTimer m + diff\<rparr>))"

definition LFGMgr_Update :: "'w lfg_groups \<Rightarrow> lfgm_env \<Rightarrow> uint32 \<Rightarrow> LFGMgr \<times> 'w \<Rightarrow> lfg_error + LFGMgr \<times> 'w" where
  "LFGMgr_Update G env diff mw =
     (case mw of (m, w) \<Rightarrow>
        if \<not> isOptionEnabled LFG_OPTIONS_ENABLED m then Inr (m, w)
        else let m = fold (expire_role_check env) (RoleChecksStore m) m
             in bindE (expire_proposals env (ProposalsStore m) m) (\<lambda>m.
                let m = fold (expire_boot env) (BootsStore m) m; lastProposalId = m_lfgProposalId m
                in bindE (search_queues env (map fst (QueuesStore m)) m) (\<lambda>m.
                   bindE (if lastProposalId \<noteq> m_lfgProposalId m \<and> map_of (ProposalsStore m) (m_lfgProposalId m) \<noteq> None
                          then announce_proposals G env (dropWhile (\<lambda>e. fst e \<noteq> m_lfgProposalId m) (ProposalsStore m)) (m, w)
                          else Inr (m, w)) (\<lambda>(m, w).
                   bindE (update_queue_timers env diff m) (\<lambda>m. Inr (m, w))))))"

section \<open>Joining\<close>

text \<open>What the code asks of a player who wants to join, and of the members of his group.\<close>

record lfg_member =
  lm_guid :: uint64
  lm_permission :: bool
  lm_inBattleground :: bool
  lm_deserter :: bool
  lm_cooldown :: bool

text \<open>The group of a player: identifier, LFG flag, number of members, and those who are online.\<close>

record lfg_party =
  lp_guid :: uint64
  lp_isLFG :: bool
  lp_membersCount :: nat
  lp_online :: "lfg_member list"

text \<open>The loops of \<^verbatim>\<open>GetCompatibleDungeons\<close>; both stop when no dungeon is left.\<close>

fun lock_dungeons :: "uint64 \<Rightarrow> LfgLockMap \<Rightarrow> LfgDungeonSet \<times> LfgLockPartyMap \<Rightarrow> LfgDungeonSet \<times> LfgLockPartyMap" where
  "lock_dungeons guid [] st = st"
| "lock_dungeons guid ((key, status) # locks) (dungeons, lockMap) =
     (if dungeons = [] then (dungeons, lockMap)
      else let dungeonId = key AND 0x00FFFFFF
           in if dungeonId \<in> set dungeons
              then lock_dungeons guid locks (set_erase dungeonId dungeons, map_modify [] (map_put dungeonId status) guid lockMap)
              else lock_dungeons guid locks (dungeons, lockMap))"

fun lock_players :: "LFGMgr \<Rightarrow> uint64 list \<Rightarrow> LfgDungeonSet \<times> LfgLockPartyMap \<Rightarrow> LfgDungeonSet \<times> LfgLockPartyMap" where
  "lock_players m [] st = st"
| "lock_players m (guid # players) st =
     (if fst st = [] then st else lock_players m players (lock_dungeons guid (pd_LockedDungeons (player m guid)) st))"

definition GetCompatibleDungeons :: "LFGMgr \<Rightarrow> LfgDungeonSet \<Rightarrow> LfgGuidSet \<Rightarrow> LfgDungeonSet \<times> LfgLockPartyMap" where
  "GetCompatibleDungeons m dungeons players =
     (case lock_players m players (dungeons, []) of (dungeons, lockMap) \<Rightarrow> (dungeons, if dungeons \<noteq> [] then [] else lockMap))"

text \<open>The restrictions on the members of a group: the result, how many were looked at, and the set of players.\<close>

fun check_members :: "lfg_member list \<Rightarrow> uint8 \<Rightarrow> LfgGuidSet \<Rightarrow> LfgJoinResult \<times> uint8 \<times> LfgGuidSet" where
  "check_members [] count players = (LFG_JOIN_OK, count, players)"
| "check_members (p # ps) count players =
     (let result = (if lm_deserter p then LFG_JOIN_PARTY_DESERTER
                    else if lm_cooldown p then LFG_JOIN_PARTY_RANDOM_COOLDOWN
                    else if lm_inBattleground p then LFG_JOIN_USING_BG_SYSTEM
                    else if \<not> lm_permission p then LFG_JOIN_PARTY_NOT_MEET_REQS
                    else LFG_JOIN_OK);
          count = count + 1; players = set_put (lm_guid p) players
      in if result = LFG_JOIN_OK then check_members ps count players else (result, count, players))"

definition check_restrictions :: "lfg_member \<Rightarrow> lfg_party option \<Rightarrow> LfgDungeonSet \<Rightarrow> LfgJoinResult \<times> LfgGuidSet" where
  "check_restrictions self party dungeons =
     (if \<not> lm_permission self then (LFG_JOIN_NOT_MEET_REQS, [])
      else if lm_inBattleground self then (LFG_JOIN_USING_BG_SYSTEM, [])
      else if lm_deserter self then (LFG_JOIN_DESERTER, [])
      else if lm_cooldown self then (LFG_JOIN_RANDOM_COOLDOWN, [])
      else if dungeons = [] then (LFG_JOIN_NOT_MEET_REQS, [])
      else case party of
             None \<Rightarrow> (LFG_JOIN_OK, [lm_guid self])
           | Some grp \<Rightarrow>
               if lp_membersCount grp > MAXGROUPSIZE then (LFG_JOIN_TOO_MUCH_MEMBERS, [])
               else case check_members (lp_online grp) 0 [] of (result, memberCount, players) \<Rightarrow>
                      (if result = LFG_JOIN_OK \<and> unat memberCount \<noteq> lp_membersCount grp then LFG_JOIN_DISCONNECTED else result, players))"

text \<open>The types of the dungeons: the result, whether there is a dungeon and a raid, and the random dungeon.\<close>

fun check_types ::
    "LFGMgr \<Rightarrow> LfgDungeonSet \<Rightarrow> uint32 list \<Rightarrow> bool \<Rightarrow> bool \<Rightarrow> uint32 \<Rightarrow> LfgJoinResult \<times> bool \<times> uint32" where
  "check_types m dungeons [] isDungeon isRaid rDungeonId = (LFG_JOIN_OK, isRaid, rDungeonId)"
| "check_types m dungeons (d # ds) isDungeon isRaid rDungeonId =
     (let type = GetDungeonType m d
      in if type = LFG_TYPE_RANDOM \<or> type = LFG_TYPE_HEROIC \<or> type = LFG_TYPE_DUNGEON
         then let single = (type = LFG_TYPE_RANDOM \<and> length dungeons \<le> 1);
                  rDungeonId = (if single then hd dungeons else rDungeonId);
                  result = (if isRaid then LFG_JOIN_MIXED_RAID_DUNGEON
                            else if type = LFG_TYPE_RANDOM \<and> \<not> single then LFG_JOIN_DUNGEON_INVALID else LFG_JOIN_OK)
              in if result = LFG_JOIN_OK then check_types m dungeons ds True isRaid rDungeonId else (result, isRaid, rDungeonId)
         else if type = LFG_TYPE_RAID
         then if isDungeon then (LFG_JOIN_MIXED_RAID_DUNGEON, True, rDungeonId)
              else check_types m dungeons ds isDungeon True rDungeonId
         else (LFG_JOIN_DUNGEON_INVALID, isRaid, rDungeonId))"

text \<open>All checks: the result, the dungeons that remain, the lock map, the raid flag and the random dungeon.\<close>

definition check_join ::
    "LFGMgr \<Rightarrow> lfg_member \<Rightarrow> lfg_party option \<Rightarrow> LfgDungeonSet \<Rightarrow> LfgJoinResult \<times> LfgDungeonSet \<times> LfgLockPartyMap \<times> bool \<times> uint32" where
  "check_join m self party dungeons =
     (case check_restrictions self party dungeons of (result, players) \<Rightarrow>
        if result \<noteq> LFG_JOIN_OK then (result, dungeons, [], False, 0)
        else case check_types m dungeons dungeons False False 0 of (result, isRaid, rDungeonId) \<Rightarrow>
          if result \<noteq> LFG_JOIN_OK then (result, dungeons, [], isRaid, rDungeonId)
          else case GetCompatibleDungeons m (if rDungeonId \<noteq> 0 then GetDungeonsByRandom m rDungeonId else dungeons) players of (left, lockmap) \<Rightarrow>
            (if left = [] then (if party \<noteq> None then LFG_JOIN_PARTY_NOT_MEET_REQS else LFG_JOIN_NOT_MEET_REQS) else LFG_JOIN_OK,
             left, lockmap, isRaid, rDungeonId))"

definition begin_role_check ::
    "lfgm_env \<Rightarrow> lfg_party \<Rightarrow> uint64 \<Rightarrow> uint8 \<Rightarrow> LfgDungeonSet \<Rightarrow> uint32 \<Rightarrow> bool \<Rightarrow> string \<Rightarrow> LFGMgr \<Rightarrow> LFGMgr" where
  "begin_role_check env grp guid roles dungeons rDungeonId isContinue comment m =
     (let gguid = lp_guid grp;
          rc = (map_at LfgRoleCheck0 (RoleChecksStore m) gguid)
                 \<lparr>rc_cancelTime := me_now env + LFG_TIME_ROLECHECK, rc_state := LFG_ROLECHECK_INITIALITING, rc_leader := guid,
                  rc_dungeons := dungeons, rc_rDungeonId := rDungeonId\<rparr>;
          shown = (if rDungeonId \<noteq> 0 then [rDungeonId] else dungeons);
          m = SetState gguid LFG_STATE_ROLECHECK m;
          m = fold (\<lambda>p m.
                let m = m\<lparr>m_sent := m_sent m @ [(lm_guid p, MsgUpdateParty (LfgUpdateData_with LFG_UPDATETYPE_JOIN_QUEUE shown comment))]\<rparr>;
                    m = SetState (lm_guid p) LFG_STATE_ROLECHECK m
                in if isContinue then m else SetSelectedDungeons (lm_guid p) shown m) (lp_online grp) m;
          rc = rc\<lparr>rc_roles := fold (\<lambda>p. map_put (lm_guid p) 0) (lp_online grp) (rc_roles rc)\<rparr>
      in UpdateRoleCheck env gguid guid roles (m\<lparr>RoleChecksStore := map_put gguid rc (RoleChecksStore m)\<rparr>))"

definition begin_queue ::
    "lfgm_env \<Rightarrow> uint64 \<Rightarrow> uint8 \<Rightarrow> LfgDungeonSet \<Rightarrow> uint32 \<Rightarrow> string \<Rightarrow> LFGMgr \<Rightarrow> LFGMgr" where
  "begin_queue env guid roles dungeons rDungeonId comment m =
     (let m = on_queue (queueId m guid) (AddQueueData guid (me_now env) dungeons [(guid, roles)]) m;
          shown = (if rDungeonId \<noteq> 0 then [rDungeonId] else dungeons);
          m = SetSelectedDungeons guid shown m;
          m = m\<lparr>m_sent := m_sent m @ [(guid, MsgJoinResult (LfgJoinResultData_of LFG_JOIN_OK LFG_ROLECHECK_DEFAULT)),
                                       (guid, MsgUpdatePlayer (LfgUpdateData_with LFG_UPDATETYPE_JOIN_QUEUE shown comment))]\<rparr>
      in SetRoles guid roles (SetState guid LFG_STATE_QUEUED m))"

definition JoinLfg ::
    "lfgm_env \<Rightarrow> lfg_member \<Rightarrow> lfg_party option \<Rightarrow> uint8 \<Rightarrow> LfgDungeonSet \<Rightarrow> string \<Rightarrow> LFGMgr \<Rightarrow> LFGMgr" where
  "JoinLfg env self party roles dungeons comment m =
     (if dungeons = [] then m
      else let guid = lm_guid self;
               gguid = (case party of Some grp \<Rightarrow> lp_guid grp | None \<Rightarrow> guid);
               isContinue = (case party of Some grp \<Rightarrow> lp_isLFG grp \<and> GetState m gguid \<noteq> LFG_STATE_FINISHED_DUNGEON | None \<Rightarrow> False);
               dungeons = (if isContinue then [GetDungeon m gguid True] else dungeons);
               m = (if GetState m gguid = LFG_STATE_QUEUED then on_queue (queueId m gguid) (RemoveFromQueue gguid) m else m)
           in case check_join m self party dungeons of (result, dungeons, lockmap, isRaid, rDungeonId) \<Rightarrow>
             if result \<noteq> LFG_JOIN_OK
             then m\<lparr>m_sent := m_sent m @ [(guid, MsgJoinResult \<lparr>jr_result = result, jr_state = LFG_ROLECHECK_DEFAULT,
                       jr_lockmap = if dungeons \<noteq> [] then [] else lockmap\<rparr>)]\<rparr>
             else let m = SetComment guid comment m
                  in if isRaid then m
                     else case party of
                            Some grp \<Rightarrow> begin_role_check env grp guid roles dungeons rDungeonId isContinue comment m
                          | None \<Rightarrow> begin_queue env guid roles dungeons rDungeonId comment m)"

section \<open>Group data and the scripts\<close>

definition RemoveGroupData :: "lfgm_env \<Rightarrow> uint64 \<Rightarrow> LFGMgr \<Rightarrow> LFGMgr" where
  "RemoveGroupData env guid m =
     (case map_of (GroupsStore m) guid of
        None \<Rightarrow> m
      | Some d \<Rightarrow>
          let state = GetState m guid;
              m = fold (\<lambda>p m. let m = SetGroup p 0 m
                              in if state \<noteq> LFG_STATE_PROPOSAL
                                 then send env p (MsgUpdateParty (LfgUpdateData_of LFG_UPDATETYPE_REMOVED_FROM_QUEUE)) (SetState p LFG_STATE_NONE m)
                                 else m) (gd_Players d) m
          in m\<lparr>GroupsStore := map_erase guid (GroupsStore m)\<rparr>)"

definition SetupGroupMember :: "uint64 \<Rightarrow> uint64 \<Rightarrow> LFGMgr \<Rightarrow> LFGMgr" where
  "SetupGroupMember guid gguid m =
     (let m = SetSelectedDungeons guid [GetDungeon m gguid True] m;
          m = SetState guid (GetState m gguid) m
      in AddPlayerToGroup gguid guid (SetGroup guid gguid m))"

definition OnAddMember :: "lfgm_env \<Rightarrow> uint64 \<Rightarrow> uint64 \<Rightarrow> uint64 \<Rightarrow> LFGMgr \<Rightarrow> lfg_error + LFGMgr" where
  "OnAddMember env gguid leader guid m =
     (if \<not> isOptionEnabled LFG_OPTIONS_ENABLED m then Inr m
      else bindE (if leader = guid then Inr (SetLeader gguid guid m)
                  else let gstate = GetState m gguid; state = GetState m guid
                       in bindE (if state = LFG_STATE_QUEUED then LeaveLfg env guid m else Inr m) (\<lambda>m.
                          if gstate = LFG_STATE_QUEUED then LeaveLfg env gguid m else Inr m))
             (\<lambda>m. Inr (AddPlayerToGroup gguid guid (SetGroup guid gguid m))))"

text \<open>What a script does to a player outside the manager.\<close>

datatype lfg_effect = CastDeserter uint64 | TeleportOut uint64 | OfferContinue uint64 uint32

definition leave_effects :: "lfgm_env \<Rightarrow> uint64 \<Rightarrow> bool \<Rightarrow> uint64 \<Rightarrow> RemoveMethod \<Rightarrow> LfgState \<Rightarrow> uint8 \<Rightarrow> LFGMgr \<Rightarrow> lfg_effect list" where
  "leave_effects env gguid isLFG guid method state players m =
     (if me_online env guid
      then (if method = GROUP_REMOVEMETHOD_LEAVE \<and> state = LFG_STATE_DUNGEON \<and> players \<ge> LFG_GROUP_KICK_VOTES_NEEDED then [CastDeserter guid] else [])
           @ (if isLFG \<and> me_inDungeonMap env guid then [TeleportOut guid] else [])
      else [])
     @ (if isLFG \<and> state \<noteq> LFG_STATE_FINISHED_DUNGEON \<and> me_online env (gd_Leader (group_data m gguid))
        then [OfferContinue (gd_Leader (group_data m gguid)) (GetDungeon m gguid False)] else [])"

definition OnRemoveMember ::
    "lfgm_env \<Rightarrow> uint64 \<Rightarrow> bool \<Rightarrow> uint64 \<Rightarrow> RemoveMethod \<Rightarrow> uint64 \<Rightarrow> string \<Rightarrow> LFGMgr \<Rightarrow> lfg_error + LFGMgr \<times> lfg_effect list" where
  "OnRemoveMember env gguid isLFG guid method kicker reason m =
     (if \<not> isOptionEnabled LFG_OPTIONS_ENABLED m then Inr (m, [])
      else if isLFG \<and> method = GROUP_REMOVEMETHOD_KICK then Inr (InitBoot env gguid kicker guid reason m, [])
      else let state = GetState m gguid
           in if state = LFG_STATE_PROPOSAL \<and> method = GROUP_REMOVEMETHOD_DEFAULT
              then Inr (snd (RemovePlayerFromGroup gguid guid (SetGroup guid 0 m)), [])
              else bindE (LeaveLfg env guid m) (\<lambda>m.
                     case RemovePlayerFromGroup gguid guid (SetGroup guid 0 m) of (players, m) \<Rightarrow>
                       Inr (send env guid (MsgUpdateParty (LfgUpdateData_of LFG_UPDATETYPE_LEADER_UNK1)) m,
                            leave_effects env gguid isLFG guid method state players m)))"

definition OnDisband :: "lfgm_env \<Rightarrow> uint64 \<Rightarrow> LFGMgr \<Rightarrow> LFGMgr" where
  "OnDisband env gguid m = (if \<not> isOptionEnabled LFG_OPTIONS_ENABLED m then m else RemoveGroupData env gguid m)"

definition OnChangeLeader :: "uint64 \<Rightarrow> uint64 \<Rightarrow> LFGMgr \<Rightarrow> LFGMgr" where
  "OnChangeLeader gguid newLeaderGuid m = (if \<not> isOptionEnabled LFG_OPTIONS_ENABLED m then m else SetLeader gguid newLeaderGuid m)"

definition OnInviteMember :: "lfgm_env \<Rightarrow> uint64 \<Rightarrow> uint64 \<Rightarrow> LFGMgr \<Rightarrow> lfg_error + LFGMgr" where
  "OnInviteMember env gguid leader m =
     (if \<not> isOptionEnabled LFG_OPTIONS_ENABLED m then Inr m
      else if leader \<noteq> 0 \<and> gguid = 0 then LeaveLfg env leader m else Inr m)"

definition OnLogout :: "lfgm_env \<Rightarrow> uint64 \<Rightarrow> bool \<Rightarrow> LFGMgr \<Rightarrow> lfg_error + LFGMgr" where
  "OnLogout env guid inGroup m =
     (if \<not> isOptionEnabled LFG_OPTIONS_ENABLED m then Inr m else if \<not> inGroup then LeaveLfg env guid (m\<lparr>m_sent := m_sent m @ [(guid, MsgLfrList False)]\<rparr>) else Inr m)"

section \<open>Locked dungeons\<close>

abbreviation TEAM_HORDE :: uint32 where "TEAM_HORDE \<equiv> 67"
abbreviation TEAM_ALLIANCE :: uint32 where "TEAM_ALLIANCE \<equiv> 469"

record AccessRequirement =
  ar_achievement :: uint32
  ar_quest_A :: uint32
  ar_quest_H :: uint32
  ar_item :: uint32
  ar_item2 :: uint32

text \<open>What the code asks of the player and of the world's data about a dungeon.\<close>

record lock_env =
  lk_level :: uint8
  lk_expansion :: uint8
  lk_permission :: bool
  lk_team :: uint32
  lk_disabled :: "uint16 \<Rightarrow> bool"
  lk_bound :: "uint16 \<Rightarrow> uint8 \<Rightarrow> bool"
  lk_season :: "uint32 \<Rightarrow> bool"
  lk_access :: "uint16 \<Rightarrow> uint8 \<Rightarrow> AccessRequirement option"
  lk_achieved :: "uint32 \<Rightarrow> bool"
  lk_quest :: "uint32 \<Rightarrow> bool"
  lk_item :: "uint32 \<Rightarrow> bool"

abbreviation (input) LFG_LOCKSTATUS_INSUFFICIENT_EXPANSION :: uint32 where "LFG_LOCKSTATUS_INSUFFICIENT_EXPANSION \<equiv> 1"
abbreviation (input) LFG_LOCKSTATUS_TOO_LOW_LEVEL :: uint32 where "LFG_LOCKSTATUS_TOO_LOW_LEVEL \<equiv> 2"
abbreviation (input) LFG_LOCKSTATUS_TOO_HIGH_LEVEL :: uint32 where "LFG_LOCKSTATUS_TOO_HIGH_LEVEL \<equiv> 3"
abbreviation (input) LFG_LOCKSTATUS_RAID_LOCKED :: uint32 where "LFG_LOCKSTATUS_RAID_LOCKED \<equiv> 6"
abbreviation (input) LFG_LOCKSTATUS_QUEST_NOT_COMPLETED :: uint32 where "LFG_LOCKSTATUS_QUEST_NOT_COMPLETED \<equiv> 1022"
abbreviation (input) LFG_LOCKSTATUS_MISSING_ITEM :: uint32 where "LFG_LOCKSTATUS_MISSING_ITEM \<equiv> 1025"
abbreviation (input) LFG_LOCKSTATUS_NOT_IN_SEASON :: uint32 where "LFG_LOCKSTATUS_NOT_IN_SEASON \<equiv> 1031"
abbreviation (input) LFG_LOCKSTATUS_MISSING_ACHIEVEMENT :: uint32 where "LFG_LOCKSTATUS_MISSING_ACHIEVEMENT \<equiv> 1034"

definition access_lock :: "lock_env \<Rightarrow> AccessRequirement \<Rightarrow> uint32" where
  "access_lock e ar =
     (if ar_achievement ar \<noteq> 0 \<and> \<not> lk_achieved e (ar_achievement ar) then LFG_LOCKSTATUS_MISSING_ACHIEVEMENT
      else if lk_team e = TEAM_ALLIANCE \<and> ar_quest_A ar \<noteq> 0 \<and> \<not> lk_quest e (ar_quest_A ar) then LFG_LOCKSTATUS_QUEST_NOT_COMPLETED
      else if lk_team e = TEAM_HORDE \<and> ar_quest_H ar \<noteq> 0 \<and> \<not> lk_quest e (ar_quest_H ar) then LFG_LOCKSTATUS_QUEST_NOT_COMPLETED
      else if ar_item ar \<noteq> 0
      then if \<not> lk_item e (ar_item ar) \<and> (ar_item2 ar = 0 \<or> \<not> lk_item e (ar_item2 ar)) then LFG_LOCKSTATUS_MISSING_ITEM else 0
      else if ar_item2 ar \<noteq> 0 \<and> \<not> lk_item e (ar_item2 ar) then LFG_LOCKSTATUS_MISSING_ITEM else 0)"

definition lock_status :: "lock_env \<Rightarrow> LFGDungeonData \<Rightarrow> uint32" where
  "lock_status e d =
     (if \<not> lk_permission e then LFG_LOCKSTATUS_RAID_LOCKED
      else if dd_expansion d > lk_expansion e then LFG_LOCKSTATUS_INSUFFICIENT_EXPANSION
      else if lk_disabled e (dd_map d) then LFG_LOCKSTATUS_RAID_LOCKED
      else if dd_difficulty d > 0 \<and> lk_bound e (dd_map d) (dd_difficulty d) then LFG_LOCKSTATUS_RAID_LOCKED
      else if dd_minlevel d > lk_level e then LFG_LOCKSTATUS_TOO_LOW_LEVEL
      else if dd_maxlevel d < lk_level e then LFG_LOCKSTATUS_TOO_HIGH_LEVEL
      else if dd_seasonal d \<and> \<not> lk_season e (dd_id d) then LFG_LOCKSTATUS_NOT_IN_SEASON
      else case lk_access e (dd_map d) (dd_difficulty d) of None \<Rightarrow> 0 | Some ar \<Rightarrow> access_lock e ar)"

definition InitializeLockedDungeons :: "lock_env \<Rightarrow> uint64 \<Rightarrow> LFGMgr \<Rightarrow> LFGMgr" where
  "InitializeLockedDungeons e guid m =
     SetLockedDungeons guid
       (fold (\<lambda>dungeonId lock.
          case GetLFGDungeon m dungeonId of
            None \<Rightarrow> lock
          | Some d \<Rightarrow> if lock_status e d \<noteq> 0 then map_put (LFGDungeonData_Entry d) (lock_status e d) lock else lock)
        (GetDungeonsByRandom m 0) []) m"

definition OnLogin :: "lfgm_env \<Rightarrow> lock_env \<Rightarrow> uint64 \<Rightarrow> uint64 \<Rightarrow> LFGMgr \<Rightarrow> LFGMgr" where
  "OnLogin env e guid grp m =
     (if \<not> isOptionEnabled LFG_OPTIONS_ENABLED m then m
      else let m = (if grp \<noteq> 0 \<and> GetGroup m guid \<noteq> grp then SetupGroupMember guid grp m else m)
           in SetTeam env guid (ucast (lk_team e)) (InitializeLockedDungeons e guid m))"

definition GetRandomAndSeasonalDungeons :: "LFGMgr \<Rightarrow> (uint32 \<Rightarrow> bool) \<Rightarrow> uint8 \<Rightarrow> uint8 \<Rightarrow> LfgDungeonSet" where
  "GetRandomAndSeasonalDungeons m season level expansion =
     set_of_list (map (\<lambda>e. LFGDungeonData_Entry (snd e))
       (filter (\<lambda>e. case e of (n, d) \<Rightarrow> (dd_type d = LFG_TYPE_RANDOM \<or> dd_seasonal d \<and> season (dd_id d))
                   \<and> dd_expansion d \<le> expansion \<and> dd_minlevel d \<le> level \<and> level \<le> dd_maxlevel d) (LfgDungeonStore m)))"

definition OnLevelChanged :: "lock_env \<Rightarrow> uint64 \<Rightarrow> LFGMgr \<Rightarrow> LFGMgr" where
  "OnLevelChanged e guid m = (if \<not> isOptionEnabled LFG_OPTIONS_ENABLED m then m else InitializeLockedDungeons e guid m)"

definition OnBindToInstance :: "lock_env \<Rightarrow> bool \<Rightarrow> uint64 \<Rightarrow> uint8 \<Rightarrow> LFGMgr \<Rightarrow> LFGMgr" where
  "OnBindToInstance e isDungeon guid difficulty m = (if isDungeon \<and> difficulty > 0 then InitializeLockedDungeons e guid m else m)"

text \<open>
  \<open>grp\<close> is the player's group with the GUIDs of its online members.
\<close>

datatype map_effect = RemoveLuckOfTheDraw uint64 | TeleportHome uint64 | SendNameQuery uint64 uint64 | CastLuckOfTheDraw uint64

definition OnMapChanged ::
    "lfgm_env \<Rightarrow> uint64 \<Rightarrow> uint32 \<Rightarrow> uint8 \<Rightarrow> uint64 list option \<Rightarrow> LFGMgr \<Rightarrow> lfg_error + LFGMgr \<times> map_effect list" where
  "OnMapChanged env guid mapId difficulty grp m =
     (if inLfgDungeonMap m guid mapId difficulty
      then case grp of
             None \<Rightarrow> bindE (LeaveLfg env guid m) (\<lambda>m. Inr (m, [RemoveLuckOfTheDraw guid, TeleportHome guid]))
           | Some members \<Rightarrow> Inr (m, map (SendNameQuery guid) members
                                     @ (if selectedRandomLfgDungeon m guid then [CastLuckOfTheDraw guid] else []))
      else Inr (m, [RemoveLuckOfTheDraw guid]))"

end
