(* ===== verification/LFGStates.thy ===== *)
theory LFGStates
  imports LFGMgr LFGSearch
begin

text \<open>
  What the dungeon finder's manager keeps.  The invariant \<open>mgr_inv\<close> says what every player, group,
  queue, proposal and role check of the manager looks like; the primitives of \<open>LFGMgr\<close> keep it, then
  the handlers, the scripts and the periodic update.  On top of it stands the manager as a transition
  system in which groups reach it through the scripts.
\<close>

named_theorems lfg_frame \<open>tables of the manager that an operation leaves alone\<close>

section \<open>The invariant\<close>

definition the_queue :: "LFGMgr \<Rightarrow> uint8 \<Rightarrow> LFGQueue" where
  "the_queue m q = map_at LFGQueue0 (QueuesStore m) q"

text \<open>
  An entry of a queue passed the role check and has a dungeon, and a player alone is queued under
  his own GUID; the exceptions \<open>E\<close> are the entries \<^verbatim>\<open>GetJoinTime\<close> may just have made up.
\<close>

definition queued_ok :: "uint64 \<Rightarrow> LfgRolesMap \<times> LfgDungeonSet \<Rightarrow> bool" where
  "queued_ok g d \<longleftrightarrow> entry_ok d \<and> (\<not> IS_GROUP_GUID g \<longrightarrow> fst ` set (fst d) \<subseteq> {g})"

definition queue_ok :: "uint64 set \<Rightarrow> LFGQueue \<Rightarrow> bool" where
  "queue_ok E s \<longleftrightarrow> (\<forall>g d. queue_data s g = Some d \<longrightarrow> g \<in> E \<or> queued_ok g d)"

text \<open>A proposal is a full group whose players came with the entries it names.\<close>

definition proposal_shape :: "LfgProposal \<Rightarrow> bool" where
  "proposal_shape p \<longleftrightarrow>
     length (pr_players p) = MAXGROUPSIZE \<and> distinct (map fst (pr_players p))
     \<and> players_with PLAYER_ROLE_TANK p = 1 \<and> players_with PLAYER_ROLE_HEALER p = 1
     \<and> players_with PLAYER_ROLE_DAMAGE p = 3 \<and> pr_leader p \<in> fst ` set (pr_players p) \<and> from_queues p"

definition check_ok :: "uint64 \<Rightarrow> LfgRoleCheck \<Rightarrow> bool" where
  "check_ok g rc \<longleftrightarrow> IS_GROUP_GUID g \<and> map_wf (rc_roles rc) \<and> rc_dungeons rc \<noteq> [] \<and> rc_state rc = LFG_ROLECHECK_INITIALITING"

definition data_ok :: "LFGMgr \<Rightarrow> bool" where
  "data_ok m \<longleftrightarrow> (\<forall>g. player_ok (player m g) \<and> group_ok (group_data m g))"

definition queues_ok :: "(uint8 \<Rightarrow> uint64 set) \<Rightarrow> LFGMgr \<Rightarrow> bool" where
  "queues_ok E m \<longleftrightarrow> (\<forall>q. queue_ok (E q) (the_queue m q))"

text \<open>Every stored proposal but those in \<open>X\<close>, which are being accepted, waits for answers.\<close>

definition proposals_ok :: "uint32 set \<Rightarrow> LFGMgr \<Rightarrow> bool" where
  "proposals_ok X m \<longleftrightarrow> (\<forall>n p. map_of (ProposalsStore m) n = Some p \<longrightarrow>
      proposal_shape p \<and> (n \<notin> X \<longrightarrow> pr_state p = LFG_PROPOSAL_INITIATING))"

definition checks_ok :: "LFGMgr \<Rightarrow> bool" where
  "checks_ok m \<longleftrightarrow> (\<forall>g rc. map_of (RoleChecksStore m) g = Some rc \<longrightarrow> check_ok g rc)"

definition stores_wf :: "LFGMgr \<Rightarrow> bool" where
  "stores_wf m \<longleftrightarrow> map_wf (RoleChecksStore m) \<and> map_wf (ProposalsStore m) \<and> map_wf (BootsStore m)"

definition mgr_inv :: "uint32 set \<Rightarrow> (uint8 \<Rightarrow> uint64 set) \<Rightarrow> LFGMgr \<Rightarrow> bool" where
  "mgr_inv X E m \<longleftrightarrow> data_ok m \<and> queues_ok E m \<and> proposals_ok X m \<and> checks_ok m \<and> stores_wf m"

abbreviation none :: "uint8 \<Rightarrow> uint64 set" where "none \<equiv> (\<lambda>_. {})"

lemmas mgr_inv_defs = mgr_inv_def data_ok_def queues_ok_def proposals_ok_def checks_ok_def stores_wf_def

lemma queue_ok_none: "queue_ok {} s \<longleftrightarrow> entries_ok s \<and> solo_ok s"
  by (simp add: queue_ok_def queued_ok_def entries_ok_def solo_ok_def) blast

lemma inv_queue: "mgr_inv X none m \<Longrightarrow> entries_ok (the_queue m q) \<and> solo_ok (the_queue m q)"
  by (simp add: mgr_inv_def queues_ok_def queue_ok_none)

section \<open>Primitives keep it\<close>

lemma player_on_player [simp]:
  "player (on_player g f m) x = (if x = g then f (player m g) else player m x)"
  by (simp add: player_def on_player_def map_at_def)

lemma group_on_group [simp]:
  "group_data (on_group g f m) x = (if x = g then f (group_data m g) else group_data m x)"
  by (simp add: group_data_def on_group_def map_at_def)

lemma queue_on_queue [simp]:
  "the_queue (on_queue q f m) x = (if x = q then f (the_queue m q) else the_queue m x)"
  by (simp add: the_queue_def on_queue_def map_at_def)

lemma player_frame [simp]:
  "player (on_group g h m) = player m" "player (on_queue q k m) = player m" "player (send env g msg m) = player m"
  "player (m\<lparr>RoleChecksStore := a\<rparr>) = player m" "player (m\<lparr>ProposalsStore := b\<rparr>) = player m"
  "player (m\<lparr>BootsStore := c\<rparr>) = player m" "player (m\<lparr>m_sent := d\<rparr>) = player m" "player (m\<lparr>m_db := e\<rparr>) = player m"
  "player (m\<lparr>m_QueueTimer := t\<rparr>) = player m" "player (m\<lparr>m_lfgProposalId := n\<rparr>) = player m"
  by (simp_all add: fun_eq_iff player_def on_group_def on_queue_def send_def)

lemma group_frame [simp]:
  "group_data (on_player g f m) = group_data m" "group_data (on_queue q k m) = group_data m"
  "group_data (send env g msg m) = group_data m" "group_data (m\<lparr>RoleChecksStore := a\<rparr>) = group_data m"
  "group_data (m\<lparr>ProposalsStore := b\<rparr>) = group_data m" "group_data (m\<lparr>BootsStore := c\<rparr>) = group_data m"
  "group_data (m\<lparr>m_sent := d\<rparr>) = group_data m" "group_data (m\<lparr>m_db := e\<rparr>) = group_data m"
  "group_data (m\<lparr>m_QueueTimer := t\<rparr>) = group_data m" "group_data (m\<lparr>m_lfgProposalId := n\<rparr>) = group_data m"
  by (simp_all add: fun_eq_iff group_data_def on_player_def on_queue_def send_def)

lemma queue_frame [simp]:
  "the_queue (on_player g f m) = the_queue m" "the_queue (on_group g h m) = the_queue m"
  "the_queue (send env g msg m) = the_queue m" "the_queue (m\<lparr>RoleChecksStore := a\<rparr>) = the_queue m"
  "the_queue (m\<lparr>ProposalsStore := b\<rparr>) = the_queue m" "the_queue (m\<lparr>BootsStore := c\<rparr>) = the_queue m"
  "the_queue (m\<lparr>m_sent := d\<rparr>) = the_queue m" "the_queue (m\<lparr>m_db := e\<rparr>) = the_queue m"
  "the_queue (m\<lparr>m_QueueTimer := t\<rparr>) = the_queue m" "the_queue (m\<lparr>m_lfgProposalId := n\<rparr>) = the_queue m"
  "the_queue (m\<lparr>GroupsStore := g'\<rparr>) = the_queue m" "the_queue (m\<lparr>PlayersStore := p'\<rparr>) = the_queue m"
  by (simp_all add: fun_eq_iff the_queue_def on_player_def on_group_def send_def)

text \<open>The tables that a primitive leaves alone.\<close>

lemma tables_frame [lfg_frame]:
  "RoleChecksStore (on_player g f m) = RoleChecksStore m" "RoleChecksStore (on_group g h m) = RoleChecksStore m"
  "RoleChecksStore (on_queue q k m) = RoleChecksStore m" "RoleChecksStore (send env g msg m) = RoleChecksStore m"
  "ProposalsStore (on_player g f m) = ProposalsStore m" "ProposalsStore (on_group g h m) = ProposalsStore m"
  "ProposalsStore (on_queue q k m) = ProposalsStore m" "ProposalsStore (send env g msg m) = ProposalsStore m"
  "BootsStore (on_player g f m) = BootsStore m" "BootsStore (on_group g h m) = BootsStore m"
  "BootsStore (on_queue q k m) = BootsStore m" "BootsStore (send env g msg m) = BootsStore m"
  "m_lfgProposalId (on_player g f m) = m_lfgProposalId m" "m_lfgProposalId (on_group g h m) = m_lfgProposalId m"
  "m_lfgProposalId (on_queue q k m) = m_lfgProposalId m" "m_lfgProposalId (send env g msg m) = m_lfgProposalId m"
  by (simp_all add: on_player_def on_group_def on_queue_def send_def)

lemma set_state_frame [lfg_frame]:
  "the_queue (SetState g st m) = the_queue m" "the_queue (RestoreState g m) = the_queue m"
  "RoleChecksStore (SetState g st m) = RoleChecksStore m" "RoleChecksStore (RestoreState g m) = RoleChecksStore m"
  "ProposalsStore (SetState g st m) = ProposalsStore m" "ProposalsStore (RestoreState g m) = ProposalsStore m"
  "BootsStore (SetState g st m) = BootsStore m" "BootsStore (RestoreState g m) = BootsStore m"
  "m_lfgProposalId (SetState g st m) = m_lfgProposalId m" "m_lfgProposalId (RestoreState g m) = m_lfgProposalId m"
  by (simp_all add: SetState_def RestoreState_def lfg_frame)

lemma fold_frame [lfg_frame]:
  "(\<And>x m. RoleChecksStore (h x m) = RoleChecksStore m) \<Longrightarrow> RoleChecksStore (fold h xs m) = RoleChecksStore m"
  "(\<And>x m. ProposalsStore (h x m) = ProposalsStore m) \<Longrightarrow> ProposalsStore (fold h xs m) = ProposalsStore m"
  "(\<And>x m. BootsStore (h x m) = BootsStore m) \<Longrightarrow> BootsStore (fold h xs m) = BootsStore m"
  "(\<And>x m. m_lfgProposalId (h x m) = m_lfgProposalId m) \<Longrightarrow> m_lfgProposalId (fold h xs m) = m_lfgProposalId m"
  "(\<And>x m. the_queue (h x m) = the_queue m) \<Longrightarrow> the_queue (fold h xs m) = the_queue m"
  by (induction xs arbitrary: m) simp_all

lemma inv_on_player [simp]:
  "mgr_inv X E m \<Longrightarrow> (\<And>d. player_ok d \<Longrightarrow> player_ok (f d)) \<Longrightarrow> mgr_inv X E (on_player g f m)"
  by (simp add: mgr_inv_defs lfg_frame)

lemma inv_on_group [simp]:
  "mgr_inv X E m \<Longrightarrow> (\<And>d. group_ok d \<Longrightarrow> group_ok (f d)) \<Longrightarrow> mgr_inv X E (on_group g f m)"
  by (simp add: mgr_inv_defs lfg_frame)

lemma inv_on_queue [simp]:
  "mgr_inv X E m \<Longrightarrow> (\<And>s. queue_ok (E q) s \<Longrightarrow> queue_ok (E q) (f s)) \<Longrightarrow> mgr_inv X E (on_queue q f m)"
  by (simp add: mgr_inv_defs lfg_frame)

lemma inv_fields [simp]:
  "mgr_inv X E (m\<lparr>m_sent := d\<rparr>) = mgr_inv X E m" "mgr_inv X E (m\<lparr>m_db := e\<rparr>) = mgr_inv X E m"
  "mgr_inv X E (m\<lparr>m_QueueTimer := t\<rparr>) = mgr_inv X E m" "mgr_inv X E (m\<lparr>m_lfgProposalId := n\<rparr>) = mgr_inv X E m"
  "mgr_inv X E (send env g msg m) = mgr_inv X E m"
  by (simp_all add: mgr_inv_defs lfg_frame)

lemma inv_stores [simp]:
  "mgr_inv X E m \<Longrightarrow> mgr_inv X E (m\<lparr>BootsStore := map_put g b (BootsStore m)\<rparr>)"
  "mgr_inv X E m \<Longrightarrow> mgr_inv X E (m\<lparr>BootsStore := map_erase g (BootsStore m)\<rparr>)"
  "mgr_inv X E m \<Longrightarrow> check_ok g rc \<Longrightarrow> mgr_inv X E (m\<lparr>RoleChecksStore := map_put g rc (RoleChecksStore m)\<rparr>)"
  "mgr_inv X E m \<Longrightarrow> mgr_inv X E (m\<lparr>RoleChecksStore := map_erase g (RoleChecksStore m)\<rparr>)"
  "mgr_inv X E m \<Longrightarrow> mgr_inv X E (m\<lparr>ProposalsStore := map_erase n (ProposalsStore m)\<rparr>)"
  by (auto simp: mgr_inv_defs)

lemma inv_put_proposal:
  "mgr_inv X E m \<Longrightarrow> proposal_shape p \<Longrightarrow> n \<in> X \<or> pr_state p = LFG_PROPOSAL_INITIATING
   \<Longrightarrow> mgr_inv X E (m\<lparr>ProposalsStore := map_put n p (ProposalsStore m)\<rparr>)"
  by (auto simp: mgr_inv_defs)

text \<open>The proposal that was being accepted is gone.\<close>

lemma inv_accepted:
  "mgr_inv {n} E m \<Longrightarrow> mgr_inv {} E (m\<lparr>ProposalsStore := map_erase n (ProposalsStore m)\<rparr>)"
  by (auto simp: mgr_inv_defs)

lemma inv_weaken: "mgr_inv {} E m \<Longrightarrow> mgr_inv X E m" "mgr_inv X none m \<Longrightarrow> mgr_inv X E m"
  by (auto simp: mgr_inv_defs queue_ok_def)

lemma inv_fold:
  "mgr_inv X E m \<Longrightarrow> (\<And>x m. x \<in> set xs \<Longrightarrow> mgr_inv X E m \<Longrightarrow> mgr_inv X E (f x m)) \<Longrightarrow> mgr_inv X E (fold f xs m)"
  by (rule fold_invariant [where Q = "\<lambda>x. x \<in> set xs"])

lemma inv_setters [simp]:
  assumes "mgr_inv X E m"
  shows "mgr_inv X E (SetState g st m)" "mgr_inv X E (RestoreState g m)" "mgr_inv X E (SetDungeon g n m)"
    "mgr_inv X E (SetRoles g r m)" "mgr_inv X E (SetComment g c m)" "mgr_inv X E (SetSelectedDungeons g ds m)"
    "mgr_inv X E (SetLockedDungeons g l m)" "mgr_inv X E (SetTeam env g t m)" "mgr_inv X E (SetGroup g h m)"
    "mgr_inv X E (SetLeader g h m)" "mgr_inv X E (AddPlayerToGroup h g m)" "mgr_inv X E (DecreaseKicksLeft g m)"
    "mgr_inv X E (snd (RemovePlayerFromGroup h g m))"
  using assms
  by (simp_all add: SetState_def RestoreState_def SetDungeon_def SetRoles_def SetComment_def SetSelectedDungeons_def
      SetLockedDungeons_def SetTeam_def SetGroup_def SetLeader_def AddPlayerToGroup_def DecreaseKicksLeft_def
      RemovePlayerFromGroup_def)

text \<open>What the operations of a queue do to its entries.\<close>

lemma queue_ok_ops [simp]:
  "queue_ok E s \<Longrightarrow> queue_ok E (RemoveFromQueue g s)" "queue_ok E (AddToQueue g s) = queue_ok E s"
  "queue_ok E s \<Longrightarrow> queued_ok g (rs, ds) \<Longrightarrow> queue_ok E (AddQueueData g t ds rs s)"
  "queue_ok E (update_wait_of r w d s) = queue_ok E s"
  by (simp_all add: queue_ok_def queue_data_RemoveFromQueue queue_data_AddQueueData update_wait_of_def)

lemma queue_ok_folds [simp]:
  "queue_ok E s \<Longrightarrow> queue_ok E (fold RemoveFromQueue gs s)" "queue_ok E (fold AddToQueue gs s) = queue_ok E s"
  by (induction gs arbitrary: s) simp_all

lemma queue_ok_removed: "queue_ok (set gs) s \<Longrightarrow> queue_ok {} (fold RemoveFromQueue gs s)"
proof -
  have "queue_data (fold RemoveFromQueue gs s) = (\<lambda>g. if g \<in> set gs then None else queue_data s g)"
    by (induction gs arbitrary: s) (auto simp: queue_data_RemoveFromQueue fun_eq_iff)
  then show "queue_ok (set gs) s \<Longrightarrow> ?thesis" by (auto simp: queue_ok_def)
qed

section \<open>Handlers keep it\<close>

lemma check_passed:
  assumes "map_wf g" "length g < 256" "fst (CheckGroupRoles g)" "ds \<noteq> []"
  shows "entry_ok (g, ds)"
proof -
  from CheckGroupRoles_returns(2) [OF assms(1,2)] assms(3) have f: "feasible (remove_leader g)"
    by (cases "CheckGroupRoles g") (auto simp: decides_def split: if_splits)
  then obtain a where a: "assigns (remove_leader g) a" by (auto simp: feasible_iff)
  then have len: "length g = length a" by (auto simp: assigns_def remove_leader_def dest: list_all2_lengthD)
  have "one_role (snd e)" if "e \<in> set a" for e
    using that a by (auto simp: assigns_def list_all2_conv_all_nth fits_def in_set_conv_nth)
  then have "length a = role_sum a" using role_sum_full by metis
  moreover have "role_sum a \<le> 5" using a by (simp add: assigns_def within_limits_def role_sum_def)
  ultimately show ?thesis using assms(1,4) f len by (simp add: entry_ok_def)
qed

lemma role_chosen_fields [simp]:
  "rc_dungeons (role_chosen guid roles rc) = rc_dungeons rc" "rc_rDungeonId (role_chosen guid roles rc) = rc_rDungeonId rc"
  by (simp_all add: role_chosen_def Let_def)

lemma role_chosen_pending:
  "check_ok g rc \<Longrightarrow> rc_state (role_chosen guid roles rc) = LFG_ROLECHECK_INITIALITING \<Longrightarrow> check_ok g (role_chosen guid roles rc)"
  by (simp add: role_chosen_def Let_def check_ok_def)

lemma role_chosen_entry:
  assumes "check_ok g rc" "length (rc_roles rc) < 255" "rc_state (role_chosen guid roles rc) = LFG_ROLECHECK_FINISHED"
  shows "queued_ok g (rc_roles (role_chosen guid roles rc), rc_dungeons rc)"
proof -
  define rs where "rs = map_put guid roles (rc_roles rc)"
  from assms(1,3) have rs: "rc_roles (role_chosen guid roles rc) = rs" "fst (CheckGroupRoles rs)"
    by (auto simp: role_chosen_def Let_def rs_def check_ok_def split: if_splits)
  have "map_wf rs" "length rs < 256"
    using assms(1,2) length_map_put [of "rc_roles rc" guid roles] by (simp_all add: rs_def check_ok_def)
  from check_passed [OF this rs(2), of "rc_dungeons rc"] assms(1) show ?thesis
    unfolding rs(1) by (simp add: queued_ok_def check_ok_def)
qed

lemma inv_role_check_member [simp]:
  "mgr_inv X E m \<Longrightarrow> mgr_inv X E (role_check_member env b guid roles rc ds e m)"
  by (simp add: role_check_member_def Let_def split: prod.split LfgRoleCheckState.split)

lemma role_check_member_frame [lfg_frame]:
  "RoleChecksStore (role_check_member env b guid roles rc ds e m) = RoleChecksStore m"
  "ProposalsStore (role_check_member env b guid roles rc ds e m) = ProposalsStore m"
  "BootsStore (role_check_member env b guid roles rc ds e m) = BootsStore m"
  by (simp_all add: role_check_member_def Let_def SetRoles_def lfg_frame split: prod.split LfgRoleCheckState.split)

text \<open>The table of role checks changes independently of the rest.\<close>

lemma put_checks_first:
  "send env g msg (m\<lparr>RoleChecksStore := a\<rparr>) = (send env g msg m)\<lparr>RoleChecksStore := a\<rparr>"
  "SetState g st (m\<lparr>RoleChecksStore := a\<rparr>) = (SetState g st m)\<lparr>RoleChecksStore := a\<rparr>"
  "RestoreState g (m\<lparr>RoleChecksStore := a\<rparr>) = (RestoreState g m)\<lparr>RoleChecksStore := a\<rparr>"
  "SetRoles g r (m\<lparr>RoleChecksStore := a\<rparr>) = (SetRoles g r m)\<lparr>RoleChecksStore := a\<rparr>"
  "on_queue q f (m\<lparr>RoleChecksStore := a\<rparr>) = (on_queue q f m)\<lparr>RoleChecksStore := a\<rparr>"
  "queueId (m\<lparr>RoleChecksStore := a\<rparr>) g = queueId m g"
  by (simp_all add: send_def SetState_def RestoreState_def SetRoles_def on_queue_def on_player_def on_group_def queueId_def GetPlayers_def split: list.split)

lemma members_put_checks:
  "fold (role_check_member env b guid roles rc ds) es (m\<lparr>RoleChecksStore := a\<rparr>)
   = (fold (role_check_member env b guid roles rc ds) es m)\<lparr>RoleChecksStore := a\<rparr>"
proof -
  have "role_check_member env b guid roles rc ds e (m\<lparr>RoleChecksStore := a\<rparr>)
    = (role_check_member env b guid roles rc ds e m)\<lparr>RoleChecksStore := a\<rparr>" for e m
    by (simp add: role_check_member_def Let_def put_checks_first split: prod.split LfgRoleCheckState.split)
  then show ?thesis by (induction es arbitrary: m) simp_all
qed

lemma map_erase_put: "map_erase k (map_put k v m) = map_erase k m"
  by (induction m) (auto simp: map_erase_def)

text \<open>A role check that is answered is small: groups have far fewer than 255 members.\<close>

definition check_small :: "LFGMgr \<Rightarrow> uint64 \<Rightarrow> bool" where
  "check_small m gguid \<longleftrightarrow> (\<forall>rc. map_of (RoleChecksStore m) gguid = Some rc \<longrightarrow> length (rc_roles rc) < 255)"

lemma inv_UpdateRoleCheck:
  assumes "mgr_inv X E m" "guid = 0 \<or> check_small m gguid"
  shows "mgr_inv X E (UpdateRoleCheck env gguid guid roles m)"
proof (cases "map_of (RoleChecksStore m) gguid")
  case (Some rc)
  define rc' where "rc' = role_chosen guid roles rc"
  define ds where "ds = (if rc_rDungeonId rc' \<noteq> 0 then [rc_rDungeonId rc'] else rc_dungeons rc')"
  define b where "b \<longleftrightarrow> rc_state rc \<noteq> LFG_ROLECHECK_DEFAULT \<and> guid \<noteq> 0"
  define m1 where "m1 = fold (role_check_member env b guid roles rc' ds) (rc_roles rc') m"
  have ok: "check_ok gguid rc" using assms(1) Some by (auto simp: mgr_inv_defs)
  have entry: "queued_ok gguid (rc_roles rc', rc_dungeons rc')" if "rc_state rc' = LFG_ROLECHECK_FINISHED"
  proof -
    have "guid \<noteq> 0" using that by (auto simp: rc'_def role_chosen_def)
    with role_chosen_entry [OF ok _ that [unfolded rc'_def]] assms(2) Some show ?thesis
      by (simp add: check_small_def rc'_def)
  qed
  have m1: "mgr_inv X E m1" "RoleChecksStore m1 = RoleChecksStore m"
    unfolding m1_def by (rule inv_fold [OF assms(1)], simp) (simp add: lfg_frame)
  have pending: "mgr_inv X E (m1\<lparr>RoleChecksStore := map_put gguid rc' (RoleChecksStore m1)\<rparr>)"
    if "rc_state rc' = LFG_ROLECHECK_INITIALITING"
    using m1(1) role_chosen_pending [OF ok] that by (simp add: rc'_def)
  have finished: "mgr_inv X E ((on_queue q (AddQueueData gguid t (rc_dungeons rc') (rc_roles rc')) (SetState gguid LFG_STATE_QUEUED m1))
      \<lparr>RoleChecksStore := map_erase gguid (RoleChecksStore m)\<rparr>)" if "rc_state rc' = LFG_ROLECHECK_FINISHED" for q t
    using inv_stores(4) [of X E "on_queue q (AddQueueData gguid t (rc_dungeons rc') (rc_roles rc')) (SetState gguid LFG_STATE_QUEUED m1)" gguid]
      m1 entry [OF that] by (simp add: tables_frame set_state_frame)
  have failed: "mgr_inv X E ((RestoreState gguid m1)\<lparr>RoleChecksStore := map_erase gguid (RoleChecksStore m)\<rparr>)"
    using inv_stores(4) [of X E "RestoreState gguid m1" gguid] m1 by (simp add: set_state_frame)
  show ?thesis
    using assms(1) pending finished failed m1(2)
    by (simp add: UpdateRoleCheck_def Some Let_def rc'_def [symmetric] ds_def [symmetric] b_def [symmetric] members_put_checks
        put_checks_first m1_def [symmetric] map_erase_put tables_frame set_state_frame)
qed (use assms in \<open>simp add: UpdateRoleCheck_def\<close>)

lemma inv_notify_failed [simp]: "mgr_inv X E m \<Longrightarrow> mgr_inv X E (notify_failed env type p removed e m)"
  by (simp add: notify_failed_def Let_def)

lemma notify_failed_frame [lfg_frame]:
  "RoleChecksStore (notify_failed env type p removed e m) = RoleChecksStore m"
  "ProposalsStore (notify_failed env type p removed e m) = ProposalsStore m"
  "BootsStore (notify_failed env type p removed e m) = BootsStore m"
  "the_queue (notify_failed env type p removed e m) = the_queue m"
  by (simp_all add: notify_failed_def Let_def lfg_frame)

lemma map_fst_answers [simp]: "map fst (pr_players (on_answers f p)) = map fst (pr_players p)"
  by (simp add: on_answers_def)

lemma answers_shape:
  assumes "proposal_shape p"
  shows "proposal_shape (answer_proposal g a p)" "pr_state (answer_proposal g a p) = pr_state p"
    "pr_queues (answer_proposal g a p) = pr_queues p"
proof -
  define f where "f = (\<lambda>e :: uint64 \<times> LfgProposalPlayer. if fst e = g then (fst e, (snd e)\<lparr>pp_accept := a\<rparr>) else e)"
  have f: "fst (f e) = fst e" "pp_role (snd (f e)) = pp_role (snd e)" "queue_guid (f e) = queue_guid e" for e
    by (simp_all add: f_def queue_guid_def)
  have p: "answer_proposal g a p = p\<lparr>pr_players := map f (pr_players p)\<rparr>" by (simp add: answer_proposal_def f_def)
  have "players_with r (answer_proposal g a p) = players_with r p" for r
    by (simp add: p players_with_def filter_map comp_def f)
  moreover have "map fst (map f xs) = map fst xs" "fst ` f ` Y = fst ` Y" for xs Y
    by (simp_all add: f image_comp comp_def)
  ultimately show "proposal_shape (answer_proposal g a p)"
    using assms unfolding proposal_shape_def from_queues_def by (simp add: p f comp_def image_comp)
  show "pr_state (answer_proposal g a p) = pr_state p" "pr_queues (answer_proposal g a p) = pr_queues p"
    by (simp_all add: p)
qed

lemma RemoveProposal_result:
  assumes "map_of (ProposalsStore m) n = Some p" "pr_players p \<noteq> []"
  obtains m' where "RemoveProposal env n type m = Inr m'"
    "ProposalsStore m' = map_erase n (ProposalsStore m)" "RoleChecksStore m' = RoleChecksStore m" "BootsStore m' = BootsStore m"
    "\<And>X E. mgr_inv X E m \<Longrightarrow> mgr_inv X E m'"
proof -
  let ?p = "failed_proposal type p"
  have "map fst (pr_players ?p) \<noteq> []" using assms(2) by (simp add: failed_proposal_def)
  then obtain first x ps where ps: "pr_players ?p = (first, x) # ps" by (cases "pr_players ?p") auto
  define m1 where "m1 = fold (notify_failed env type ?p (to_remove ?p)) (pr_players ?p) m"
  define m2 where "m2 = on_queue (queueId m1 first)
    (\<lambda>s. fold AddToQueue (fold removeAll (to_remove ?p) (pr_queues ?p)) (fold RemoveFromQueue (to_remove ?p) s)) m1"
  define m3 where "m3 = m2\<lparr>ProposalsStore := map_erase n (ProposalsStore m2)\<rparr>"
  have "RemoveProposal env n type m = Inr m3"
    using assms(1) ps by (simp add: RemoveProposal_def Let_def m3_def m2_def m1_def)
  moreover have "ProposalsStore m3 = map_erase n (ProposalsStore m)" "RoleChecksStore m3 = RoleChecksStore m"
    "BootsStore m3 = BootsStore m" by (simp_all add: m3_def m2_def m1_def lfg_frame)
  moreover have "mgr_inv X E m1" if "mgr_inv X E m" for X E unfolding m1_def by (rule inv_fold [OF that]) simp
  then have "mgr_inv X E m3" if "mgr_inv X E m" for X E using that by (simp add: m3_def m2_def)
  ultimately show thesis by (rule that)
qed

lemma shape_players: "proposal_shape p \<Longrightarrow> pr_players p \<noteq> []"
  by (auto simp: proposal_shape_def)

lemma inv_proposal:
  "mgr_inv X E m \<Longrightarrow> map_of (ProposalsStore m) n = Some p \<Longrightarrow> proposal_shape p \<and> (n \<notin> X \<longrightarrow> pr_state p = LFG_PROPOSAL_INITIATING)"
  by (simp add: mgr_inv_def proposals_ok_def)

lemma inv_RemoveProposal:
  assumes "mgr_inv X E m" "RemoveProposal env n type m = Inr m'"
  shows "mgr_inv X E m'"
proof (cases "map_of (ProposalsStore m) n")
  case (Some p)
  from RemoveProposal_result [OF this shape_players, of env type] inv_proposal [OF assms(1) Some] assms show ?thesis
    by (metis sum.inject(2))
qed (use assms(2) in \<open>simp add: RemoveProposal_def\<close>)

lemma inv_leave_queue [simp]: "mgr_inv X E m \<Longrightarrow> mgr_inv X E (leave_queue env guid gguid m)"
  by (auto simp: leave_queue_def Let_def intro!: inv_fold)

lemma find_proposal_stored:
  "mgr_inv X E m \<Longrightarrow> find_proposal g m = Some (n, p) \<Longrightarrow> map_of (ProposalsStore m) n = Some p"
  by (metis (no_types, lifting) find_proposal_def find_Some_iff2 map_wf_find mgr_inv_def nth_mem stores_wf_def)

lemma inv_LeaveLfg:
  assumes "mgr_inv X E m" "LeaveLfg env guid m = Inr m'"
  shows "mgr_inv X E m'"
proof (cases "GetState m guid = LFG_STATE_PROPOSAL")
  case True
  define pguid where "pguid = (if (if IS_GROUP_GUID guid then guid else GetGroup m guid) = guid
    then gd_Leader (group_data m (if IS_GROUP_GUID guid then guid else GetGroup m guid)) else guid)"
  show ?thesis
  proof (cases "find_proposal pguid m")
    case (Some np)
    then obtain n p where np: "find_proposal pguid m = Some (n, p)" by (cases np) auto
    let ?m1 = "m\<lparr>ProposalsStore := map_put n (answer_proposal pguid LFG_ANSWER_DENY p) (ProposalsStore m)\<rparr>"
    have "proposal_shape p \<and> (n \<notin> X \<longrightarrow> pr_state p = LFG_PROPOSAL_INITIATING)"
      by (rule inv_proposal [OF assms(1) find_proposal_stored [OF assms(1) np]])
    then have "mgr_inv X E ?m1" using assms(1) answers_shape by (intro inv_put_proposal) auto
    moreover have "RemoveProposal env n LFG_UPDATETYPE_PROPOSAL_DECLINED ?m1 = Inr m'"
      using assms(2) True np by (simp add: LeaveLfg_def Let_def pguid_def [symmetric])
    ultimately show ?thesis by (rule inv_RemoveProposal)
  qed (use assms True in \<open>simp add: LeaveLfg_def Let_def pguid_def [symmetric]\<close>)
next
  case False
  with assms show ?thesis
    by (auto simp: LeaveLfg_def Let_def inv_UpdateRoleCheck split: LfgState.splits if_splits)
qed

lemma LeaveLfg_returns:
  assumes "mgr_inv {} none m"
  shows "\<exists>m'. LeaveLfg env guid m = Inr m'"
proof -
  have "\<exists>m'. RemoveProposal env n t (m\<lparr>ProposalsStore := map_put n (answer_proposal g a p) (ProposalsStore m)\<rparr>) = Inr m'"
    if "find_proposal h m = Some (n, p)" for n p g a h t
  proof -
    have "pr_players p \<noteq> []"
      using inv_proposal [OF assms find_proposal_stored [OF assms that]] shape_players by blast
    then have "pr_players (answer_proposal g a p) \<noteq> []" by (simp add: answer_proposal_def)
    then show ?thesis
      by (rule RemoveProposal_result [of "m\<lparr>ProposalsStore := map_put n (answer_proposal g a p) (ProposalsStore m)\<rparr>" n
          "answer_proposal g a p" env t, rotated]) auto
  qed
  then show ?thesis by (auto simp: LeaveLfg_def Let_def split: LfgState.split option.split)
qed

lemma inv_fold_SetState [simp]: "mgr_inv X E m \<Longrightarrow> mgr_inv X E (fold (\<lambda>g. SetState g st) gs m)"
  by (rule inv_fold) simp_all

lemma inv_InitBoot [simp]: "mgr_inv X E m \<Longrightarrow> mgr_inv X E (InitBoot env gguid kicker victim reason m)"
  by (auto simp: InitBoot_def Let_def intro!: inv_fold)

lemma inv_RemoveGroupData [simp]:
  assumes "mgr_inv X E m"
  shows "mgr_inv X E (RemoveGroupData env g m)"
proof -
  have erase: "mgr_inv X E (n\<lparr>GroupsStore := map_erase g (GroupsStore n)\<rparr>)" if "mgr_inv X E n" for n
    using that by (simp add: mgr_inv_defs lfg_frame player_def group_data_def map_at_def)
  have loop: "mgr_inv X E (fold (\<lambda>p m. let m = SetGroup p 0 m in if st \<noteq> LFG_STATE_PROPOSAL
      then send env p (MsgUpdateParty (LfgUpdateData_of LFG_UPDATETYPE_REMOVED_FROM_QUEUE)) (SetState p LFG_STATE_NONE m) else m) ps m)" for st ps
    by (rule inv_fold [OF assms]) (simp add: Let_def)
  show ?thesis using assms erase [OF loop] by (simp add: RemoveGroupData_def Let_def split: option.split)
qed

lemma inv_SetupGroupMember [simp]: "mgr_inv X E m \<Longrightarrow> mgr_inv X E (SetupGroupMember g h m)"
  by (simp add: SetupGroupMember_def Let_def)

lemma inv_SaveToDB [simp]: "mgr_inv X E m \<Longrightarrow> mgr_inv X E (SaveToDB g n m)"
  by (simp add: SaveToDB_def)

lemma inv_LoadFromDB [simp]: "mgr_inv X E m \<Longrightarrow> mgr_inv X E (LoadFromDB row g m)"
  by (simp add: LoadFromDB_def Let_def split: option.split)

lemma inv_OnLogin [simp]: "mgr_inv X E m \<Longrightarrow> mgr_inv X E (OnLogin env e g h m)"
  by (simp add: OnLogin_def InitializeLockedDungeons_def Let_def)

section \<open>Scripts\<close>

text \<open>What a group may do to the manager: the calls of \<^verbatim>\<open>LFGScripts.cpp\<close>.\<close>

inductive script_step :: "LFGMgr \<Rightarrow> LFGMgr \<Rightarrow> bool" where
  add: "OnAddMember env gguid leader guid m = Inr m' \<Longrightarrow> script_step m m'"
| remove: "OnRemoveMember env gguid isLFG guid method kicker reason m = Inr (m', effects) \<Longrightarrow> script_step m m'"
| disband: "script_step m (OnDisband env gguid m)"
| leader: "script_step m (OnChangeLeader gguid new m)"
| invite: "OnInviteMember env gguid lead m = Inr m' \<Longrightarrow> script_step m m'"

lemma inv_script_step:
  assumes "mgr_inv X E m" "script_step m m'"
  shows "mgr_inv X E m'"
  using assms(2)
proof cases
  case (add env gguid leader guid)
  with assms(1) show ?thesis
    by (auto simp: OnAddMember_def Let_def bindE_Inr_iff dest: inv_LeaveLfg [rotated] split: if_splits)
next
  case (remove env gguid isLFG guid how kicker reason effects)
  have "mgr_inv X E m2" if "RemovePlayerFromGroup gguid guid (SetGroup guid 0 m1) = (n, m2)" "mgr_inv X E m1" for m1 m2 n
    using that inv_setters(13) [OF inv_setters(9) [OF that(2)], of gguid guid guid 0] by simp
  with remove assms(1) show ?thesis
    by (auto simp: OnRemoveMember_def Let_def bindE_Inr_iff split_beta dest: inv_LeaveLfg [rotated] split: if_splits)
next
  case (disband env gguid)
  then show ?thesis using assms(1) by (simp add: OnDisband_def)
next
  case (leader gguid new)
  then show ?thesis using assms(1) by (simp add: OnChangeLeader_def)
next
  case (invite env gguid lead)
  then show ?thesis using assms(1) inv_LeaveLfg by (auto simp: OnInviteMember_def split: if_splits)
qed

text \<open>The operations on groups reach the manager through the scripts only.\<close>

definition through_scripts :: "'w lfg_groups \<Rightarrow> bool" where
  "through_scripts G \<longleftrightarrow>
     (\<forall>p mw. script_step\<^sup>*\<^sup>* (fst mw) (fst (snd (lg_Create G p mw))))
     \<and> (\<forall>g p mw. script_step\<^sup>*\<^sup>* (fst mw) (fst (lg_AddMember G g p mw)))
     \<and> (\<forall>g p k mw. script_step\<^sup>*\<^sup>* (fst mw) (fst (lg_RemoveMember G g p k mw)))"

lemma inv_scripts: "script_step\<^sup>*\<^sup>* m m' \<Longrightarrow> mgr_inv X E m \<Longrightarrow> mgr_inv X E m'"
  by (induction rule: rtranclp_induct) (auto intro: inv_script_step)

lemma inv_groups:
  assumes "through_scripts G" "mgr_inv X E (fst mw)"
  shows "mgr_inv X E (fst (snd (lg_Create G p mw)))" "mgr_inv X E (fst (lg_AddMember G g p mw))"
    "mgr_inv X E (fst (lg_RemoveMember G g p k mw))"
  using assms inv_scripts unfolding through_scripts_def by blast+

lemma inv_join_new_group:
  assumes "through_scripts G" "mgr_inv X E (fst (snd st))"
  shows "mgr_inv X E (fst (snd (join_new_group G env p dungeon pguid st)))"
proof -
  obtain grp mw where st: "st = (grp, mw)" by (cases st)
  define own where "own = lg_groupOf G (snd mw) pguid"
  define mw1 where "mw1 = (if own \<noteq> 0 \<and> own \<noteq> grp then lg_RemoveMember G own pguid GROUP_REMOVEMETHOD_DEFAULT mw else mw)"
  have 1: "mgr_inv X E (fst mw1)" using assms inv_groups(3) [OF assms(1), of X E mw] by (simp add: mw1_def st)
  obtain gg m1 w1 where c: "lg_Create G pguid mw1 = (gg, m1, w1)" by (metis prod_cases3)
  have "mgr_inv X E m1" using inv_groups(1) [OF assms(1) 1, of pguid] c by simp
  with 1 assms inv_groups(2) [OF assms(1) 1, of grp pguid] show ?thesis
    unfolding join_new_group_def st prod.case Let_def own_def [symmetric] mw1_def [symmetric] by (simp add: c st)
qed

lemma inv_MakeNewGroup:
  assumes "through_scripts G" "mgr_inv X E (fst mw)" "MakeNewGroup G env p mw = Inr mw'"
  shows "mgr_inv X E (fst mw')"
proof -
  have "mgr_inv X E (fst (snd (fold (join_new_group G env p d) ps st)))" if "mgr_inv X E (fst (snd st))" for d ps and st :: "uint64 \<times> LFGMgr \<times> 'a"
    by (rule fold_invariant [where Q = "\<lambda>_. True" and P = "\<lambda>st. mgr_inv X E (fst (snd st))"])
      (use that inv_join_new_group [OF assms(1)] in auto)
  note joined = this
  from assms(3) obtain d where d: "GetLFGDungeon (fst mw) (pr_dungeonId p) = Some d"
    by (auto simp: MakeNewGroup_def split: option.splits)
  define grp where "grp = (if pr_group p \<noteq> 0 \<and> lg_exists G (snd mw) (pr_group p) then pr_group p else 0)"
  obtain gguid m w where f: "fold (join_new_group G env p d) (proposal_order p) (grp, mw) = (gguid, m, w)" by (metis prod_cases3)
  then have m: "mgr_inv X E m" using joined [of "(grp, mw)" d "proposal_order p"] assms(2) by simp
  show ?thesis
    using assms(3) m unfolding MakeNewGroup_def d option.case Let_def grp_def [symmetric] f prod.case
    by (auto split: if_splits)
qed

section \<open>Answers and votes\<close>

lemma inv_the_queue: "mgr_inv X E m \<Longrightarrow> queue_ok (E q) (the_queue m q)"
  by (simp add: mgr_inv_def queues_ok_def)

lemma queue_ok_GetJoinTime: "queue_ok E s \<Longrightarrow> g \<in> E \<Longrightarrow> queue_ok E (snd (GetJoinTime env g s))"
  unfolding queue_ok_def GetJoinTime_def Let_def by (auto simp: queue_data_def map_at_def)

lemma inv_accepted_player:
  assumes "mgr_inv X E m" "queue_guid e \<in> E q" "accepted_player env q b p e (type, m) = Inr (type', m')"
  shows "mgr_inv X E m'"
proof -
  from assms(3) obtain d ds where d: "pd_SelectedDungeons (player m (fst e)) = d # ds"
    by (auto simp: accepted_player_def Let_def split: list.splits)
  define m1 where "m1 = (if b then send env (fst e) (MsgUpdateProposal p) m else m)"
  have m1: "mgr_inv X E m1" using assms(1) by (simp add: m1_def)
  obtain j s where j: "GetJoinTime (queue_env env q m1) (queue_guid e) (the_queue m1 q) = (j, s)" by fastforce
  have s: "queue_ok (E q) s"
    using queue_ok_GetJoinTime [OF inv_the_queue [OF m1] assms(2), of "queue_env env q m1"] j by simp
  show ?thesis
    using assms(3) m1 s
    unfolding accepted_player_def prod.case Let_def d list.case m1_def [symmetric] queue_guid_def [symmetric] the_queue_def [symmetric] j
    by (auto split: if_splits)
qed

lemma inv_accepted_players:
  assumes "mgr_inv X E m" "\<forall>e \<in> set es. queue_guid e \<in> E q" "accepted_players env q b p es (type, m) = Inr (type', m')"
  shows "mgr_inv X E m'"
  using assms
proof (induction es arbitrary: type m)
  case (Cons e es)
  then obtain type1 m1 where 1: "accepted_player env q b p e (type, m) = Inr (type1, m1)"
    "accepted_players env q b p es (type1, m1) = Inr (type', m')" by (auto simp: bindE_Inr_iff)
  then show ?case using Cons.IH [of m1 type1] inv_accepted_player [OF _ _ 1(1)] Cons.prems by auto
qed simp

lemma inv_removed:
  assumes "mgr_inv X (none(q := set gs)) m"
  shows "mgr_inv X none (on_queue q (fold RemoveFromQueue gs) m)"
proof -
  have "queue_ok {} (the_queue m x)" if "x \<noteq> q" for x using inv_the_queue [OF assms, of x] that by simp
  moreover have "queue_ok {} (fold RemoveFromQueue gs (the_queue m q))"
    using queue_ok_removed inv_the_queue [OF assms, of q] by simp
  ultimately show ?thesis using assms
    by (simp add: mgr_inv_def queues_ok_def data_ok_def proposals_ok_def checks_ok_def stores_wf_def lfg_frame)
qed

lemma inv_proposal_accepted:
  assumes G: "through_scripts G" and m: "mgr_inv {} none m" and p: "proposal_shape p"
    and r: "proposal_accepted G env n guid p (m, w) = Inr mw'"
  shows "mgr_inv {} none (fst mw')"
proof -
  define p' where "p' = p\<lparr>pr_state := LFG_PROPOSAL_SUCCESS\<rparr>"
  define m1 where "m1 = m\<lparr>ProposalsStore := map_put n p' (ProposalsStore m)\<rparr>"
  let ?q = "queueId m1 guid"
  let ?E = "none(?q := set (pr_queues p))"
  have p': "proposal_shape p'" "pr_queues p' = pr_queues p" "pr_players p' = pr_players p"
    using p by (simp_all add: p'_def proposal_shape_def players_with_def from_queues_def)
  have m1: "mgr_inv {n} ?E m1"
    unfolding m1_def using p' inv_weaken(2) [OF inv_weaken(1) [OF m]] by (intro inv_put_proposal) auto
  from r obtain type m2 m3 w3 where 2: "accepted_players env ?q (pr_state p \<noteq> LFG_PROPOSAL_SUCCESS) p' (pr_players p') (LFG_UPDATETYPE_GROUP_FOUND, m1) = Inr (type, m2)"
    and 3: "MakeNewGroup G env p' (on_queue ?q (fold RemoveFromQueue (pr_queues p')) m2, w) = Inr (m3, w3)"
    and mw': "mw' = (m3\<lparr>ProposalsStore := map_erase n (ProposalsStore m3)\<rparr>, w3)"
    by (auto simp: proposal_accepted_def Let_def bindE_Inr_iff p'_def [symmetric] m1_def [symmetric])
  have "\<forall>e \<in> set (pr_players p'). queue_guid e \<in> ?E ?q"
    using p by (simp add: p' proposal_shape_def from_queues_def)
  from inv_accepted_players [OF m1 this 2] have "mgr_inv {n} ?E m2" .
  then have "mgr_inv {n} none (on_queue ?q (fold RemoveFromQueue (pr_queues p')) m2)" unfolding p'(2) by (rule inv_removed)
  with inv_MakeNewGroup [OF G _ 3, of "{n}" none] have "mgr_inv {n} none m3" by simp
  then show ?thesis unfolding mw' fst_conv by (rule inv_accepted)
qed

lemma inv_UpdateProposal:
  assumes G: "through_scripts G" and m: "mgr_inv {} none m" and r: "UpdateProposal G env n guid accept (m, w) = Inr mw'"
  shows "mgr_inv {} none (fst mw')"
proof (cases "map_of (ProposalsStore m) n")
  case (Some p)
  define p' where "p' = answer_proposal guid (if accept then LFG_ANSWER_AGREE else LFG_ANSWER_DENY) p"
  define m1 where "m1 = m\<lparr>ProposalsStore := map_put n p' (ProposalsStore m)\<rparr>"
  have p': "proposal_shape p'" "pr_state p' = LFG_PROPOSAL_INITIATING"
    using inv_proposal [OF m Some] answers_shape by (auto simp: p'_def)
  then have m1: "mgr_inv {} none m1" unfolding m1_def using m by (intro inv_put_proposal) auto
  have told: "mgr_inv {} none (fold (\<lambda>e. send env (fst e) (MsgUpdateProposal p')) es m1)" for es :: "(uint64 \<times> LfgProposalPlayer) list"
    by (rule inv_fold [OF m1]) simp
  have "UpdateProposal G env n guid accept (m, w) =
     (if map_of (pr_players p) guid = None then Inr (m, w)
      else if \<not> accept then bindE (RemoveProposal env n LFG_UPDATETYPE_PROPOSAL_DECLINED m1) (\<lambda>m. Inr (m, w))
      else if \<not> all_agree p' then Inr (fold (\<lambda>e. send env (fst e) (MsgUpdateProposal p')) (pr_players p') m1, w)
      else proposal_accepted G env n guid p' (m1, w))"
    by (simp add: UpdateProposal_def Some Let_def p'_def m1_def)
  with r m told inv_RemoveProposal [OF m1] inv_proposal_accepted [OF G m1 p'(1)] show ?thesis
    by (auto simp: bindE_Inr_iff split: if_splits)
qed (use m r in \<open>auto simp: UpdateProposal_def\<close>)

lemma inv_finish_boot:
  assumes "through_scripts G" "mgr_inv X E m"
  shows "mgr_inv X E (fst (finish_boot G env gguid boot n (m, w)))"
proof -
  define b where "b = boot\<lparr>pb_inProgress := False\<rparr>"
  define m1 where "m1 = SetState gguid LFG_STATE_DUNGEON (fold (\<lambda>e m. if fst e \<noteq> pb_victim b
    then send env (fst e) (MsgBootProposalUpdate b) (SetState (fst e) LFG_STATE_DUNGEON m) else m) (pb_votes b) m)"
  have "mgr_inv X E (fold (\<lambda>e m. if fst e \<noteq> pb_victim b then send env (fst e) (MsgBootProposalUpdate b) (SetState (fst e) LFG_STATE_DUNGEON m) else m) (pb_votes b) m)"
    by (rule inv_fold [OF assms(2)]) simp
  then have m1: "mgr_inv X E m1" by (simp add: m1_def)
  obtain m2 w2 where 2: "(if lg_exists G w gguid then lg_RemoveMember G gguid (pb_victim b) GROUP_REMOVEMETHOD_KICK_LFG (m1, w) else (m1, w)) = (m2, w2)"
    by fastforce
  then have "mgr_inv X E m2"
    using m1 inv_groups(3) [OF assms(1), of X E "(m1, w)" gguid "pb_victim b" GROUP_REMOVEMETHOD_KICK_LFG]
    by (auto split: if_splits)
  with m1 show ?thesis
    unfolding finish_boot_def prod.case Let_def b_def [symmetric] m1_def [symmetric] 2 by simp
qed

lemma inv_UpdateBoot:
  assumes "through_scripts G" "mgr_inv X E m"
  shows "mgr_inv X E (fst (UpdateBoot G env guid accept (m, w)))"
  using assms inv_finish_boot [OF assms(1)] by (simp add: UpdateBoot_def Let_def split: option.split)

section \<open>Joining\<close>

text \<open>
  Who asks to join: a player alone has no group's GUID; a group has one, those of its members who are
  online are counted among its members, and its last role check, if it has one, is small.  Nothing is asked
  of the roles and the dungeons the client sends.
\<close>

definition join_ok :: "LFGMgr \<Rightarrow> lfg_member \<Rightarrow> lfg_party option \<Rightarrow> bool" where
  "join_ok m self party \<longleftrightarrow>
     (case party of
        None \<Rightarrow> \<not> IS_GROUP_GUID (lm_guid self)
      | Some grp \<Rightarrow> IS_GROUP_GUID (lp_guid grp) \<and> length (lp_online grp) \<le> lp_membersCount grp
          \<and> (\<forall>rc. map_of (RoleChecksStore m) (lp_guid grp) = Some rc \<longrightarrow> length (rc_roles rc) < 250))"

lemma solo_entry: "ds \<noteq> [] \<Longrightarrow> queued_ok g ([(g, roles)], ds)"
  by (simp add: queued_ok_def entry_ok_def)

lemma fold_put_roles:
  assumes "map_wf rs"
  shows "map_wf (fold (\<lambda>p. map_put (f p) v) ps rs) \<and> length (fold (\<lambda>p. map_put (f p) v) ps rs) \<le> length rs + length ps"
  using assms
proof (induction ps arbitrary: rs)
  case (Cons p ps)
  from Cons.IH [of "map_put (f p) v rs"] length_map_put [OF Cons.prems, of "f p" v] Cons.prems show ?case by (auto split: if_splits)
qed simp

lemma inv_begin_role_check:
  assumes "mgr_inv X E m" "IS_GROUP_GUID (lp_guid grp)" "length (lp_online grp) \<le> MAXGROUPSIZE" "ds \<noteq> []"
    and "\<forall>rc. map_of (RoleChecksStore m) (lp_guid grp) = Some rc \<longrightarrow> length (rc_roles rc) < 250"
  shows "mgr_inv X E (begin_role_check env grp guid roles ds rd c comment m)"
proof -
  define old where "old = map_at LfgRoleCheck0 (RoleChecksStore m) (lp_guid grp)"
  define rs where "rs = fold (\<lambda>p. map_put (lm_guid p) (0 :: uint8)) (lp_online grp) (rc_roles old)"
  define rc where "rc = old\<lparr>rc_cancelTime := me_now env + LFG_TIME_ROLECHECK, rc_state := LFG_ROLECHECK_INITIALITING,
    rc_leader := guid, rc_dungeons := ds, rc_rDungeonId := rd, rc_roles := rs\<rparr>"
  have "check_ok (lp_guid grp) r" if "map_of (RoleChecksStore m) (lp_guid grp) = Some r" for r
    using assms(1) that by (simp add: mgr_inv_def checks_ok_def)
  then have "map_wf (rc_roles old) \<and> length (rc_roles old) < 250"
    using assms(5) by (auto simp: old_def map_at_def LfgRoleCheck0_def check_ok_def split: option.split)
  with fold_put_roles [of "rc_roles old" lm_guid 0 "lp_online grp"] assms(3)
  have rs: "map_wf rs" "length rs < 255" by (auto simp: rs_def)
  have rc: "check_ok (lp_guid grp) rc" using rs(1) assms(2,4) by (simp add: rc_def check_ok_def)
  define m1 where "m1 = fold (\<lambda>p m.
      let m = m\<lparr>m_sent := m_sent m @ [(lm_guid p, MsgUpdateParty (LfgUpdateData_with LFG_UPDATETYPE_JOIN_QUEUE (if rd \<noteq> 0 then [rd] else ds) comment))]\<rparr>;
          m = SetState (lm_guid p) LFG_STATE_ROLECHECK m
      in if c then m else SetSelectedDungeons (lm_guid p) (if rd \<noteq> 0 then [rd] else ds) m) (lp_online grp)
      (SetState (lp_guid grp) LFG_STATE_ROLECHECK m)"
  have "mgr_inv X E m1" unfolding m1_def by (rule inv_fold) (use assms(1) in \<open>simp_all add: Let_def\<close>)
  then have m2: "mgr_inv X E (m1\<lparr>RoleChecksStore := map_put (lp_guid grp) rc (RoleChecksStore m1)\<rparr>)" using rc by simp
  have "check_small (m1\<lparr>RoleChecksStore := map_put (lp_guid grp) rc (RoleChecksStore m1)\<rparr>) (lp_guid grp)"
    using rs(2) by (simp add: check_small_def rc_def)
  from inv_UpdateRoleCheck [OF m2 disjI2 [OF this], of env guid roles] show ?thesis
    unfolding begin_role_check_def Let_def m1_def [unfolded Let_def, symmetric] old_def [symmetric] rc_def rs_def by simp
qed

lemma inv_begin_queue:
  assumes "mgr_inv X E m" "ds \<noteq> []"
  shows "mgr_inv X E (begin_queue env guid roles ds rd comment m)"
  using assms(1) solo_entry [OF assms(2)] by (simp add: begin_queue_def Let_def)

lemma check_join_left: "check_join m self party ds = (LFG_JOIN_OK, left, lm, r, d) \<Longrightarrow> left \<noteq> []"
  by (auto simp: check_join_def split: prod.splits if_splits)

lemma check_join_small: "check_join m self (Some grp) ds = (LFG_JOIN_OK, left, lm, r, d) \<Longrightarrow> lp_membersCount grp \<le> MAXGROUPSIZE"
  by (auto simp: check_join_def check_restrictions_def split: prod.splits if_splits)

lemma inv_JoinLfg:
  assumes "mgr_inv X E m" "join_ok m self party"
  shows "mgr_inv X E (JoinLfg env self party roles ds comment m)"
proof (cases "ds = []")
  case False
  define gguid where "gguid = (case party of Some grp \<Rightarrow> lp_guid grp | None \<Rightarrow> lm_guid self)"
  define c where "c = (case party of Some grp \<Rightarrow> lp_isLFG grp \<and> GetState m gguid \<noteq> LFG_STATE_FINISHED_DUNGEON | None \<Rightarrow> False)"
  define m1 where "m1 = (if GetState m gguid = LFG_STATE_QUEUED then on_queue (queueId m gguid) (RemoveFromQueue gguid) m else m)"
  obtain result left lockmap isRaid rd where cj: "check_join m1 self party (if c then [GetDungeon m gguid True] else ds) = (result, left, lockmap, isRaid, rd)"
    by (metis prod_cases5)
  have m1: "mgr_inv X E m1" "RoleChecksStore m1 = RoleChecksStore m" using assms(1) by (simp_all add: m1_def lfg_frame)
  have m2: "mgr_inv X E (SetComment (lm_guid self) comment m1)" "RoleChecksStore (SetComment (lm_guid self) comment m1) = RoleChecksStore m"
    using m1 by (simp_all add: SetComment_def lfg_frame)
  have "mgr_inv X E (case party of
      Some grp \<Rightarrow> begin_role_check env grp (lm_guid self) roles left rd c comment (SetComment (lm_guid self) comment m1)
    | None \<Rightarrow> begin_queue env (lm_guid self) roles left rd comment (SetComment (lm_guid self) comment m1))" if "left \<noteq> []" "result = LFG_JOIN_OK"
  proof (cases party)
    case (Some grp)
    have "lp_membersCount grp \<le> MAXGROUPSIZE" by (rule check_join_small [OF cj [unfolded Some that(2)]])
    then have "length (lp_online grp) \<le> MAXGROUPSIZE" using assms(2) Some by (simp add: join_ok_def)
    then show ?thesis using assms(2) m2 that(1) Some inv_begin_role_check by (auto simp: join_ok_def)
  qed (use m2 that(1) inv_begin_queue in auto)
  moreover have "result = LFG_JOIN_OK \<Longrightarrow> left \<noteq> []" using check_join_left cj by blast
  ultimately show ?thesis using m1 m2 False
    unfolding JoinLfg_def Let_def gguid_def [symmetric] c_def [symmetric] m1_def [symmetric] cj by auto
qed (simp add: JoinLfg_def assms(1))

section \<open>The periodic update\<close>

text \<open>A loop over a table that erases the entries that have expired.\<close>

lemma fold_erase:
  assumes "\<And>e m. F (h e m) = (if C e then F m else map_erase (fst e) (F m))"
  shows "F (fold h es m) = filter (\<lambda>x. \<forall>e \<in> set es. fst e = fst x \<longrightarrow> C e) (F m)"
proof (induction es arbitrary: m)
  case (Cons e es)
  then show ?case using assms by (auto simp: map_erase_def intro!: filter_cong)
qed simp

lemma kept_unexpired:
  assumes "map_of (filter (\<lambda>x. \<forall>e \<in> set es. fst e = fst x \<longrightarrow> C e) es) k = Some v"
  shows "C (k, v)"
  using map_of_SomeD [OF assms] by simp

definition check_waits :: "lfgm_env \<Rightarrow> uint64 \<times> LfgRoleCheck \<Rightarrow> bool" where
  "check_waits env e \<longleftrightarrow> me_now env < rc_cancelTime (snd e)"

definition boot_waits :: "lfgm_env \<Rightarrow> uint64 \<times> LfgPlayerBoot \<Rightarrow> bool" where
  "boot_waits env e \<longleftrightarrow> me_now env \<le> pb_cancelTime (snd e)"

definition proposal_waits :: "lfgm_env \<Rightarrow> uint32 \<times> LfgProposal \<Rightarrow> bool" where
  "proposal_waits env e \<longleftrightarrow> me_now env \<le> pr_cancelTime (snd e)"

lemma expire_role_check_result:
  "mgr_inv X E m \<Longrightarrow> mgr_inv X E (expire_role_check env e m)"
  "RoleChecksStore (expire_role_check env e m) = (if check_waits env e then RoleChecksStore m else map_erase (fst e) (RoleChecksStore m))"
  "ProposalsStore (expire_role_check env e m) = ProposalsStore m" "BootsStore (expire_role_check env e m) = BootsStore m"
proof -
  show "RoleChecksStore (expire_role_check env e m) = (if check_waits env e then RoleChecksStore m else map_erase (fst e) (RoleChecksStore m))"
    "ProposalsStore (expire_role_check env e m) = ProposalsStore m" "BootsStore (expire_role_check env e m) = BootsStore m"
    by (simp_all add: expire_role_check_def check_waits_def Let_def lfg_frame split_beta)
  assume "mgr_inv X E m"
  then show "mgr_inv X E (expire_role_check env e m)"
    unfolding expire_role_check_def Let_def by (auto intro!: inv_stores(4) inv_setters(2) inv_fold)
qed

lemma expire_boot_result:
  "mgr_inv X E m \<Longrightarrow> mgr_inv X E (expire_boot env e m)"
  "BootsStore (expire_boot env e m) = (if boot_waits env e then BootsStore m else map_erase (fst e) (BootsStore m))"
  "ProposalsStore (expire_boot env e m) = ProposalsStore m" "RoleChecksStore (expire_boot env e m) = RoleChecksStore m"
proof -
  show "BootsStore (expire_boot env e m) = (if boot_waits env e then BootsStore m else map_erase (fst e) (BootsStore m))"
    "ProposalsStore (expire_boot env e m) = ProposalsStore m" "RoleChecksStore (expire_boot env e m) = RoleChecksStore m"
    by (auto simp: expire_boot_def boot_waits_def Let_def lfg_frame split_beta)
  assume "mgr_inv X E m"
  then show "mgr_inv X E (expire_boot env e m)"
    unfolding expire_boot_def Let_def by (auto intro!: inv_stores(2) inv_setters(1) inv_fold)
qed

lemma expire_proposals_result:
  assumes "mgr_inv X E m" "distinct (map fst es)" "\<forall>e \<in> set es. map_of (ProposalsStore m) (fst e) = Some (snd e)"
  shows "\<exists>m'. expire_proposals env es m = Inr m' \<and> mgr_inv X E m'
    \<and> ProposalsStore m' = filter (\<lambda>x. \<forall>e \<in> set es. fst e = fst x \<longrightarrow> proposal_waits env e) (ProposalsStore m)
    \<and> RoleChecksStore m' = RoleChecksStore m \<and> BootsStore m' = BootsStore m"
  using assms
proof (induction es arbitrary: m)
  case (Cons e es)
  obtain n p where e: "e = (n, p)" by (cases e)
  have p: "map_of (ProposalsStore m) n = Some p" using Cons.prems(3) e by simp
  obtain m1 where m1: "(if pr_cancelTime p < me_now env then RemoveProposal env n LFG_UPDATETYPE_PROPOSAL_FAILED m else Inr m) = Inr m1"
    "mgr_inv X E m1" "ProposalsStore m1 = (if proposal_waits env e then ProposalsStore m else map_erase n (ProposalsStore m))"
    "RoleChecksStore m1 = RoleChecksStore m" "BootsStore m1 = BootsStore m"
  proof (cases "proposal_waits env e")
    case True
    with that [of m] Cons.prems(1) show ?thesis by (simp add: proposal_waits_def e)
  next
    case False
    have "pr_players p \<noteq> []" using inv_proposal [OF Cons.prems(1) p] shape_players by blast
    then obtain m1 where "RemoveProposal env n LFG_UPDATETYPE_PROPOSAL_FAILED m = Inr m1"
      "ProposalsStore m1 = map_erase n (ProposalsStore m)" "RoleChecksStore m1 = RoleChecksStore m" "BootsStore m1 = BootsStore m"
      "mgr_inv X E m1" using RemoveProposal_result [OF p] Cons.prems(1) by metis
    with that [of m1] False show ?thesis by (simp add: proposal_waits_def e)
  qed
  have "\<forall>e \<in> set es. map_of (ProposalsStore m1) (fst e) = Some (snd e)"
    using Cons.prems(2,3) m1(3) e by (auto simp: image_iff)
  from Cons.IH [OF m1(2) _ this] Cons.prems(2) m1 show ?case
    by (auto simp: e map_erase_def intro!: filter_cong)
qed simp

text \<open>Random numbers are within the bounds asked for.\<close>

definition random_ok :: "lfgm_env \<Rightarrow> bool" where
  "random_ok env \<longleftrightarrow> (\<forall>q n lo hi. lo \<le> hi \<longrightarrow> lo \<le> me_urand env q n lo hi \<and> me_urand env q n lo hi \<le> hi)"

lemma random_urand: "random_ok env \<Longrightarrow> urand_ok (queue_env env q m)"
  by (simp add: random_ok_def urand_ok_def queue_env_def)

lemma full_shape:
  "full_group e p \<Longrightarrow> from_queues p \<Longrightarrow> proposal_shape p \<and> pr_state p = LFG_PROPOSAL_INITIATING \<and> pr_cancelTime p = le_now e + LFG_TIME_PROPOSAL"
  by (simp add: full_group_def proposal_shape_def)

definition fresh :: "lfgm_env \<Rightarrow> LFGMgr \<Rightarrow> LFGMgr \<Rightarrow> bool" where
  "fresh env m m' \<longleftrightarrow> (\<forall>n p. map_of (ProposalsStore m') n = Some p \<longrightarrow> map_of (ProposalsStore m) n = Some p \<or> proposal_waits env (n, p))
     \<and> RoleChecksStore m' = RoleChecksStore m \<and> BootsStore m' = BootsStore m"

lemma fresh_trans: "fresh env m m1 \<Longrightarrow> fresh env m1 m2 \<Longrightarrow> fresh env m m2"
  unfolding fresh_def by metis

lemma add_proposals_result:
  assumes "mgr_inv X E m"
    and "\<forall>p \<in> set ps. proposal_shape p \<and> pr_state p = LFG_PROPOSAL_INITIATING \<and> me_now env \<le> pr_cancelTime p"
  shows "mgr_inv X E (fold LFGMgr_AddProposal ps m) \<and> fresh env m (fold LFGMgr_AddProposal ps m)"
  using assms
proof (induction ps arbitrary: m)
  case (Cons p ps)
  let ?m1 = "LFGMgr_AddProposal p m"
  have "mgr_inv X E (m\<lparr>ProposalsStore := map_put (m_lfgProposalId m + 1) p (ProposalsStore m)\<rparr>)"
    using Cons.prems by (intro inv_put_proposal) auto
  then have m1: "mgr_inv X E ?m1" by (simp add: LFGMgr_AddProposal_def mgr_inv_defs Let_def)
  moreover have "fresh env m ?m1"
    using Cons.prems(2) by (auto simp: LFGMgr_AddProposal_def Let_def fresh_def proposal_waits_def)
  ultimately show ?case using Cons.IH [of ?m1] Cons.prems(2) fresh_trans by auto
qed (simp add: fresh_def)

lemma search_queue_result:
  assumes "mgr_inv {} none m" "random_ok env"
  shows "\<exists>m'. search_queue env q m = Inr m' \<and> mgr_inv {} none m' \<and> fresh env m m'"
proof -
  let ?env = "queue_env env q m" and ?s = "(the_queue m q)\<lparr>proposals_added := []\<rparr>"
  have "queue_data ?s = queue_data (the_queue m q)" by (simp add: fun_eq_iff queue_data_def)
  then have s: "entries_ok ?s" "solo_ok ?s" using inv_queue [OF assms(1), of q] by (simp_all add: entries_ok_def solo_ok_def)
  from FindGroups_result [OF random_urand [OF assms(2)] s(1), of q m] obtain k s' where
    f: "FindGroups ?env ?s = Some (k, s')" and p: "proposes ?env ?s s'" by blast
  have "\<forall>p \<in> set (proposals_added s'). valid_proposal ?env ?s p" using p by (auto simp: proposes_def)
  then have ps: "\<forall>p \<in> set (proposals_added s'). proposal_shape p \<and> pr_state p = LFG_PROPOSAL_INITIATING \<and> me_now env \<le> pr_cancelTime p"
    using s(2) full_shape [of ?env] by (simp add: valid_proposal_def) (simp add: queue_env_def)
  have "queue_ok {} s'"
    using p s unfolding proposes_def queue_ok_none entries_ok_def solo_ok_def by (metis option.distinct(1))
  then have "mgr_inv {} none (on_queue q (\<lambda>_. s') m)" using assms(1) by simp
  from add_proposals_result [OF this ps] f show ?thesis
    by (auto simp: search_queue_def the_queue_def fresh_def lfg_frame)
qed

lemma fold_AddProposal_stored:
  "map_of (ProposalsStore (fold LFGMgr_AddProposal ps m)) n = Some p \<Longrightarrow> map_of (ProposalsStore m) n = Some p \<or> p \<in> set ps"
proof (induction ps arbitrary: m)
  case (Cons x ps)
  from Cons.IH [of "LFGMgr_AddProposal x m"] Cons.prems show ?case
    by (auto simp: LFGMgr_AddProposal_def Let_def split: if_splits)
qed simp

lemma search_queue_valid:
  assumes "mgr_inv {} none m" "random_ok env"
  shows "\<exists>m'. search_queue env q m = Inr m' \<and> (\<forall>n p. map_of (ProposalsStore m') n = Some p \<longrightarrow>
    map_of (ProposalsStore m) n = Some p
    \<or> full_group (queue_env env q m) p \<and> wishes_met (the_queue m q) p \<and> (\<forall>g \<in> set (pr_queues p). GetState m g = LFG_STATE_QUEUED))"
proof -
  let ?env = "queue_env env q m" and ?s = "(the_queue m q)\<lparr>proposals_added := []\<rparr>"
  have data: "queue_data ?s = queue_data (the_queue m q)" by (simp add: fun_eq_iff queue_data_def)
  then have "entries_ok ?s" using inv_queue [OF assms(1), of q] by (simp add: entries_ok_def)
  from FindGroups_result [OF random_urand [OF assms(2)] this, of q m] obtain k s' where
    f: "FindGroups ?env ?s = Some (k, s')" and p: "proposes ?env ?s s'" by blast
  have new: "full_group ?env x \<and> wishes_met (the_queue m q) x \<and> (\<forall>g \<in> set (pr_queues x). GetState m g = LFG_STATE_QUEUED)"
    if "x \<in> set (proposals_added s')" for x
  proof -
    have "valid_proposal ?env ?s x" using p that by (auto simp: proposes_def)
    then have "valid_proposal ?env (the_queue m q) x" by (rule valid_proposal_mono) (simp add: data)
    then show ?thesis by (auto simp: valid_proposal_def full_group_def AllQueued_def list_all_iff queue_env_def)
  qed
  have "search_queue env q m = Inr (fold LFGMgr_AddProposal (proposals_added s') (on_queue q (\<lambda>_. s') m))"
    using f by (simp add: search_queue_def the_queue_def)
  moreover have "map_of (ProposalsStore (fold LFGMgr_AddProposal (proposals_added s') (on_queue q (\<lambda>_. s') m))) n = Some x \<Longrightarrow>
      map_of (ProposalsStore m) n = Some x \<or> x \<in> set (proposals_added s')" for n x
    using fold_AddProposal_stored by (fastforce simp: lfg_frame)
  ultimately show ?thesis using new by blast
qed

lemma search_queues_result:
  assumes "mgr_inv {} none m" "random_ok env"
  shows "\<exists>m'. search_queues env qs m = Inr m' \<and> mgr_inv {} none m' \<and> fresh env m m'"
  using assms(1)
proof (induction qs arbitrary: m)
  case (Cons q qs)
  obtain m1 where 1: "search_queue env q m = Inr m1" "mgr_inv {} none m1" "fresh env m m1"
    using search_queue_result [OF Cons.prems assms(2)] by blast
  with Cons.IH [OF 1(2)] fresh_trans [OF 1(3)] show ?case by auto
qed (simp add: fresh_def)

lemma announce_player_result:
  "mgr_inv X E m \<Longrightarrow> mgr_inv X E (announce_player env p g m)"
  "ProposalsStore (announce_player env p g m) = ProposalsStore m"
  "RoleChecksStore (announce_player env p g m) = RoleChecksStore m" "BootsStore (announce_player env p g m) = BootsStore m"
  by (simp_all add: announce_player_def Let_def lfg_frame)

lemma announce_result:
  assumes "mgr_inv X E m" "\<forall>e \<in> set es. pr_state (snd e) = LFG_PROPOSAL_INITIATING"
  shows "\<exists>m'. announce_proposals G env es (m, w) = Inr (m', w) \<and> mgr_inv X E m' \<and> ProposalsStore m' = ProposalsStore m
    \<and> RoleChecksStore m' = RoleChecksStore m \<and> BootsStore m' = BootsStore m"
  using assms
proof (induction es arbitrary: m)
  case (Cons e es)
  obtain n p where e: "e = (n, p)" by (cases e)
  let ?m1 = "fold (announce_player env p) (map fst (pr_players p)) m"
  have "mgr_inv X E ?m1" by (rule inv_fold [OF Cons.prems(1)]) (rule announce_player_result)
  moreover have "ProposalsStore ?m1 = ProposalsStore m" "RoleChecksStore ?m1 = RoleChecksStore m" "BootsStore ?m1 = BootsStore m"
    by (simp_all add: fold_frame announce_player_result)
  ultimately show ?case using Cons.IH [of ?m1] Cons.prems(2) e by auto
qed simp

lemma announce_if_result:
  assumes "mgr_inv X E m" "\<forall>e \<in> set es. pr_state (snd e) = LFG_PROPOSAL_INITIATING"
  obtains m' where "(if b then announce_proposals G env es (m, w) else Inr (m, w)) = Inr (m', w)" "mgr_inv X E m'"
    "ProposalsStore m' = ProposalsStore m" "RoleChecksStore m' = RoleChecksStore m" "BootsStore m' = BootsStore m"
proof (cases b)
  case True
  with that announce_result [OF assms, of G env w] show thesis by auto
qed (use that assms(1) in simp)

lemma update_all_timers_result:
  assumes "mgr_inv {} none m"
  shows "\<exists>m'. update_all_timers env qs m = Inr m' \<and> mgr_inv {} none m' \<and> ProposalsStore m' = ProposalsStore m
    \<and> RoleChecksStore m' = RoleChecksStore m \<and> BootsStore m' = BootsStore m"
  using assms
proof (induction qs arbitrary: m)
  case (Cons q qs)
  from timers_return inv_queue [OF Cons.prems, of q] obtain s sent
    where s: "UpdateQueueTimers (queue_env env q m) (me_now env) (the_queue m q) = Inr (s, sent)"
    unfolding UpdateQueueTimers_def by blast
  then have "queue_data s = queue_data (the_queue m q)" unfolding UpdateQueueTimers_def by (rule queue_data_timers)
  then have "queue_ok {} s" using inv_the_queue [OF Cons.prems, of q] by (simp add: queue_ok_def)
  then have "mgr_inv {} none ((on_queue q (\<lambda>_. s) m)\<lparr>m_sent := x\<rparr>)" for x using Cons.prems by simp
  from Cons.IH [OF this] s show ?case by (simp add: the_queue_def lfg_frame)
qed simp

lemma update_queue_timers_result:
  assumes "mgr_inv {} none m"
  shows "\<exists>m'. update_queue_timers env diff m = Inr m' \<and> mgr_inv {} none m' \<and> ProposalsStore m' = ProposalsStore m
    \<and> RoleChecksStore m' = RoleChecksStore m \<and> BootsStore m' = BootsStore m"
  using update_all_timers_result [of "m\<lparr>m_QueueTimer := 0\<rparr>" env "map fst (QueuesStore m)"] assms
  by (simp add: update_queue_timers_def)

text \<open>Nothing has expired.\<close>

definition all_wait :: "lfgm_env \<Rightarrow> LFGMgr \<Rightarrow> bool" where
  "all_wait env m \<longleftrightarrow>
     (\<forall>g rc. map_of (RoleChecksStore m) g = Some rc \<longrightarrow> check_waits env (g, rc))
     \<and> (\<forall>n p. map_of (ProposalsStore m) n = Some p \<longrightarrow> proposal_waits env (n, p))
     \<and> (\<forall>g b. map_of (BootsStore m) g = Some b \<longrightarrow> boot_waits env (g, b))"

lemma Update_result:
  assumes m: "mgr_inv {} none m" and r: "random_ok env" and on: "isOptionEnabled LFG_OPTIONS_ENABLED m"
  shows "\<exists>m'. LFGMgr_Update G env diff (m, w) = Inr (m', w) \<and> mgr_inv {} none m' \<and> all_wait env m'"
proof -
  define m1 where "m1 = fold (expire_role_check env) (RoleChecksStore m) m"
  have m1: "mgr_inv {} none m1" unfolding m1_def by (rule inv_fold [OF m]) (rule expire_role_check_result)
  have c1: "RoleChecksStore m1 = filter (\<lambda>x. \<forall>e \<in> set (RoleChecksStore m). fst e = fst x \<longrightarrow> check_waits env e) (RoleChecksStore m)"
    unfolding m1_def by (rule fold_erase) (rule expire_role_check_result)
  have checks: "check_waits env (g, rc)" if "map_of (RoleChecksStore m1) g = Some rc" for g rc
    using that unfolding c1 by (rule kept_unexpired)
  have wf1: "map_wf (ProposalsStore m1)" using m1 by (simp add: mgr_inv_def stores_wf_def)
  then have "\<forall>e \<in> set (ProposalsStore m1). map_of (ProposalsStore m1) (fst e) = Some (snd e)"
    using map_wf_find by force
  from expire_proposals_result [OF m1 map_wf_distinct [OF wf1] this, of env] obtain m2 where
    2: "expire_proposals env (ProposalsStore m1) m1 = Inr m2" "mgr_inv {} none m2" "RoleChecksStore m2 = RoleChecksStore m1"
    and p2: "ProposalsStore m2 = filter (\<lambda>x. \<forall>e \<in> set (ProposalsStore m1). fst e = fst x \<longrightarrow> proposal_waits env e) (ProposalsStore m1)"
    by blast
  define m3 where "m3 = fold (expire_boot env) (BootsStore m2) m2"
  have m3: "mgr_inv {} none m3" unfolding m3_def by (rule inv_fold [OF 2(2)]) (rule expire_boot_result)
  have s3: "ProposalsStore m3 = ProposalsStore m2" "RoleChecksStore m3 = RoleChecksStore m2"
    unfolding m3_def by (simp_all add: fold_frame expire_boot_result)
  have b3: "BootsStore m3 = filter (\<lambda>x. \<forall>e \<in> set (BootsStore m2). fst e = fst x \<longrightarrow> boot_waits env e) (BootsStore m2)"
    unfolding m3_def by (rule fold_erase) (rule expire_boot_result)
  have boots: "boot_waits env (g, b)" if "map_of (BootsStore m3) g = Some b" for g b
    using that unfolding b3 by (rule kept_unexpired)
  have props: "proposal_waits env (n, p)" if "map_of (ProposalsStore m3) n = Some p" for n p
    using that unfolding s3 p2 by (rule kept_unexpired)
  have w3: "all_wait env m3"
    unfolding all_wait_def using checks boots props s3(2) 2(3) by simp
  obtain m4 where 4: "search_queues env (map fst (QueuesStore m3)) m3 = Inr m4" "mgr_inv {} none m4" "fresh env m3 m4"
    using search_queues_result [OF m3 r] by blast
  have w4: "all_wait env m4" using w3 4(3) unfolding all_wait_def fresh_def by metis
  have "pr_state (snd e) = LFG_PROPOSAL_INITIATING" if "e \<in> set (ProposalsStore m4)" for e
    using 4(2) that map_wf_find [of "ProposalsStore m4" "fst e" "snd e"] by (auto simp: mgr_inv_defs)
  then have "\<forall>e \<in> set (dropWhile P (ProposalsStore m4)). pr_state (snd e) = LFG_PROPOSAL_INITIATING" for P
    by (meson set_dropWhileD)
  then obtain m5 where
    5: "(if m_lfgProposalId m3 \<noteq> m_lfgProposalId m4 \<and> map_of (ProposalsStore m4) (m_lfgProposalId m4) \<noteq> None
         then announce_proposals G env (dropWhile (\<lambda>e. fst e \<noteq> m_lfgProposalId m4) (ProposalsStore m4)) (m4, w)
         else Inr (m4, w)) = Inr (m5, w)" "mgr_inv {} none m5" "ProposalsStore m5 = ProposalsStore m4"
      "RoleChecksStore m5 = RoleChecksStore m4" "BootsStore m5 = BootsStore m4"
    by (rule announce_if_result [OF 4(2)])
  from update_queue_timers_result [OF 5(2), of env diff] obtain m6 where 6: "update_queue_timers env diff m5 = Inr m6"
    "mgr_inv {} none m6" "ProposalsStore m6 = ProposalsStore m5" "RoleChecksStore m6 = RoleChecksStore m5" "BootsStore m6 = BootsStore m5"
    by blast
  have "LFGMgr_Update G env diff (m, w) = Inr (m6, w)"
    unfolding LFGMgr_Update_def prod.case Let_def m1_def [symmetric]
    using on 2(1) 4(1) 5(1) 6(1) by (simp add: m3_def [symmetric])
  moreover have "all_wait env m6" using w4 unfolding all_wait_def 6(3-5) 5(3-5) .
  ultimately show ?thesis using 6(2) by blast
qed

section \<open>States of players and groups\<close>

lemma player_set_state [simp]:
  "\<not> IS_GROUP_GUID g \<Longrightarrow> player (SetState g st m) = (player m)(g := LfgPlayerData_SetState st (player m g))"
  "\<not> IS_GROUP_GUID g \<Longrightarrow> player (RestoreState g m) = (player m)(g := LfgPlayerData_RestoreState (player m g))"
  "IS_GROUP_GUID g \<Longrightarrow> player (SetState g st m) = player m" "IS_GROUP_GUID g \<Longrightarrow> player (RestoreState g m) = player m"
  "player (SetRoles x r m) = (player m)(x := (player m x)\<lparr>pd_Roles := r\<rparr>)"
  by (auto simp: SetState_def RestoreState_def SetRoles_def fun_eq_iff)

lemma group_set_state [simp]:
  "IS_GROUP_GUID g \<Longrightarrow> group_data (SetState g st m) = (group_data m)(g := LfgGroupData_SetState st (group_data m g))"
  "IS_GROUP_GUID g \<Longrightarrow> group_data (RestoreState g m) = (group_data m)(g := LfgGroupData_RestoreState (group_data m g))"
  "\<not> IS_GROUP_GUID g \<Longrightarrow> group_data (SetState g st m) = group_data m" "\<not> IS_GROUP_GUID g \<Longrightarrow> group_data (RestoreState g m) = group_data m"
  "group_data (SetRoles x r m) = group_data m"
  by (auto simp: SetState_def RestoreState_def SetRoles_def fun_eq_iff)

lemma state_of_data [simp]:
  "pd_State (LfgPlayerData_SetState st d) = st" "pd_State (LfgPlayerData_RestoreState d) = pd_OldState d"
  "gd_State (LfgGroupData_SetState st g) = st" "gd_State (LfgGroupData_RestoreState g) = gd_OldState g"
  "pd_Team (LfgPlayerData_SetState st d) = pd_Team d" "pd_Team (LfgPlayerData_RestoreState d) = pd_Team d"
  "pd_OldState (LfgPlayerData_RestoreState d) = pd_OldState d"
  by (simp_all add: LfgPlayerData_SetState_def LfgPlayerData_RestoreState_def LfgGroupData_SetState_def
      LfgGroupData_RestoreState_def Let_def)

end
