(* ===== verification/LFGDungeons.thy ===== *)
theory LFGDungeons
  imports LFGStates
begin

text \<open>
  The dungeons of the dungeon finder: loading them and their rewards
  (\<^verbatim>\<open>LFGMgr::LoadLFGDungeons\<close>, \<^verbatim>\<open>LoadRewards\<close>), finding the reward of a player, finishing a dungeon
  and teleporting a player in and out (\<^verbatim>\<open>game/DungeonFinding/LFGMgr.cpp\<close>).

  The rows of the database and of the client's dungeon table are arguments; coordinates are rational
  numbers.  What the code asks of a live player is a record of the environment, and what it does to
  him outside the dungeon finder is a list of effects.  \<^verbatim>\<open>LfgDungeonStore\<close> is an unordered container; the
  loops over it fill sets and separate entries, so the order does not matter.
\<close>

section \<open>Loading the dungeons\<close>

abbreviation (input) LFG_FLAG_SEASONAL :: uint32 where "LFG_FLAG_SEASONAL \<equiv> 0x4"

record LFGDungeonEntry =
  le_ID :: uint32
  le_name :: string
  le_minlevel :: uint32
  le_maxlevel :: uint32
  le_map :: uint32
  le_difficulty :: uint32
  le_flags :: uint32
  le_type :: uint32
  le_expansion :: uint32
  le_grouptype :: uint32

record AreaTrigger =
  at_target_mapId :: uint32
  at_target_X :: rat
  at_target_Y :: rat
  at_target_Z :: rat
  at_target_Orientation :: rat

definition LfgType_of :: "uint32 \<Rightarrow> LfgType" where
  "LfgType_of t = (if t = 1 then LFG_TYPE_DUNGEON else if t = 2 then LFG_TYPE_RAID else if t = 5 then LFG_TYPE_HEROIC
                   else if t = 6 then LFG_TYPE_RANDOM else LFG_TYPE_NONE)"

definition LFGDungeonData_of :: "LFGDungeonEntry \<Rightarrow> LFGDungeonData" where
  "LFGDungeonData_of e =
     \<lparr>dd_id = le_ID e, dd_name = le_name e, dd_map = ucast (le_map e), dd_type = LfgType_of (le_type e),
      dd_expansion = ucast (le_expansion e), dd_group = ucast (le_grouptype e), dd_minlevel = ucast (le_minlevel e),
      dd_maxlevel = ucast (le_maxlevel e), dd_difficulty = ucast (le_difficulty e),
      dd_seasonal = (le_flags e AND LFG_FLAG_SEASONAL \<noteq> 0), dd_x = 0, dd_y = 0, dd_z = 0, dd_o = 0\<rparr>"

definition add_dungeon :: "LFGDungeonEntry \<Rightarrow> (uint32, LFGDungeonData) smap \<Rightarrow> (uint32, LFGDungeonData) smap" where
  "add_dungeon e store = (if LfgType_of (le_type e) = LFG_TYPE_NONE then store else map_put (le_ID e) (LFGDungeonData_of e) store)"

type_synonym entrance_row = "uint32 \<times> rat \<times> rat \<times> rat \<times> rat"

definition set_entrance :: "entrance_row \<Rightarrow> (uint32, LFGDungeonData) smap \<Rightarrow> (uint32, LFGDungeonData) smap" where
  "set_entrance row store =
     (case row of (dungeonId, x, y, z, orientation) \<Rightarrow>
        case map_of store dungeonId of
          None \<Rightarrow> store
        | Some d \<Rightarrow> map_put dungeonId (d\<lparr>dd_x := x, dd_y := y, dd_z := z, dd_o := orientation\<rparr>) store)"

text \<open>The coordinates of a dungeon; \<open>None\<close>: it has none and is skipped.\<close>

definition locate_dungeon :: "(uint16 \<Rightarrow> AreaTrigger option) \<Rightarrow> LFGDungeonData \<Rightarrow> LFGDungeonData option" where
  "locate_dungeon triggers d =
     (if dd_type d \<noteq> LFG_TYPE_RANDOM \<and> dd_x d = 0 \<and> dd_y d = 0 \<and> dd_z d = 0
      then case triggers (dd_map d) of
             None \<Rightarrow> None
           | Some trig \<Rightarrow> Some (d\<lparr>dd_map := ucast (at_target_mapId trig), dd_x := at_target_X trig, dd_y := at_target_Y trig,
                                   dd_z := at_target_Z trig, dd_o := at_target_Orientation trig\<rparr>)
      else Some d)"

definition cache_dungeon :: "LFGDungeonData \<Rightarrow> (uint8, LfgDungeonSet) smap \<Rightarrow> (uint8, LfgDungeonSet) smap" where
  "cache_dungeon d cache =
     map_modify [] (set_put (dd_id d)) 0
       (if dd_type d \<noteq> LFG_TYPE_RANDOM then map_modify [] (set_put (dd_id d)) (dd_group d) cache else cache)"

definition place_dungeon :: "(uint16 \<Rightarrow> AreaTrigger option) \<Rightarrow> uint32 \<times> LFGDungeonData \<Rightarrow> LFGMgr \<Rightarrow> LFGMgr" where
  "place_dungeon triggers entry m =
     (case locate_dungeon triggers (snd entry) of
        None \<Rightarrow> m
      | Some d \<Rightarrow> m\<lparr>LfgDungeonStore := map_put (fst entry) d (LfgDungeonStore m),
                      CachedDungeonMapStore := cache_dungeon d (CachedDungeonMapStore m)\<rparr>)"

text \<open>\<open>locks\<close> gives the environment of the players who are online.\<close>

definition relock_players :: "(uint64 \<Rightarrow> lock_env option) \<Rightarrow> LFGMgr \<Rightarrow> LFGMgr" where
  "relock_players locks m =
     fold (\<lambda>entry m. case locks (fst entry) of None \<Rightarrow> m | Some e \<Rightarrow> InitializeLockedDungeons e (fst entry) m) (PlayersStore m) m"

definition LoadLFGDungeons ::
    "LFGDungeonEntry list \<Rightarrow> entrance_row list \<Rightarrow> (uint16 \<Rightarrow> AreaTrigger option) \<Rightarrow> (uint64 \<Rightarrow> lock_env option) \<Rightarrow> bool \<Rightarrow> LFGMgr \<Rightarrow> LFGMgr" where
  "LoadLFGDungeons dbc rows triggers locks reload m =
     (let m = m\<lparr>LfgDungeonStore := fold add_dungeon dbc []\<rparr>
      in if rows = [] then m
         else let m = m\<lparr>LfgDungeonStore := fold set_entrance rows (LfgDungeonStore m)\<rparr>;
                  m = fold (place_dungeon triggers) (LfgDungeonStore m) m
              in if reload then relock_players locks (m\<lparr>CachedDungeonMapStore := []\<rparr>) else m)"

section \<open>Rewards\<close>

type_synonym reward_row = "uint32 \<times> uint8 \<times> uint32 \<times> uint32"

definition load_reward :: "(uint32 \<Rightarrow> bool) \<Rightarrow> uint32 \<Rightarrow> reward_row \<Rightarrow> LFGMgr \<Rightarrow> LFGMgr" where
  "load_reward quests maxPlayerLevel row m =
     (case row of (dungeonId, level, firstQuestId, otherQuestId) \<Rightarrow>
        let maxLevel = ucast level :: uint32;
            maxLevel = (if maxLevel = 0 \<or> maxLevel > maxPlayerLevel then maxPlayerLevel else maxLevel);
            otherQuest = (if otherQuestId \<noteq> 0 \<and> \<not> quests otherQuestId then 0 else otherQuestId)
        in if GetLFGDungeonEntry m dungeonId = 0 then m
           else if firstQuestId = 0 \<or> \<not> quests firstQuestId then m
           else m\<lparr>RewardMapStore := mm_insert dungeonId
                    \<lparr>rw_maxLevel = maxLevel, rw_firstQuest = firstQuestId, rw_otherQuest = otherQuest\<rparr> (RewardMapStore m)\<rparr>)"

definition LoadRewards :: "(uint32 \<Rightarrow> bool) \<Rightarrow> uint32 \<Rightarrow> reward_row list \<Rightarrow> LFGMgr \<Rightarrow> LFGMgr" where
  "LoadRewards quests maxPlayerLevel rows m = fold (load_reward quests maxPlayerLevel) rows (m\<lparr>RewardMapStore := []\<rparr>)"

fun reward_loop :: "uint8 \<Rightarrow> LfgReward list \<Rightarrow> LfgReward option \<Rightarrow> LfgReward option" where
  "reward_loop level [] rew = rew"
| "reward_loop level (r # rs) rew = (if rw_maxLevel r \<ge> ucast level then Some r else reward_loop level rs (Some r))"

definition GetRandomDungeonReward :: "LFGMgr \<Rightarrow> uint32 \<Rightarrow> uint8 \<Rightarrow> LfgReward option" where
  "GetRandomDungeonReward m dungeon level =
     reward_loop level (map snd (filter (\<lambda>e. fst e = dungeon AND 0x00FFFFFF) (RewardMapStore m))) None"

section \<open>Finishing a dungeon\<close>

record finish_player =
  fp_mapId :: uint32
  fp_level :: uint8
  fp_canReward :: "uint32 \<Rightarrow> bool"

datatype finish_effect = UpdateAchievement uint64 | RewardQuest uint64 uint32

text \<open>\<open>world\<close> gives the players who are in the world, \<open>quests\<close> the quests that exist.\<close>

definition give_reward ::
    "(uint32 \<Rightarrow> bool) \<Rightarrow> uint64 \<Rightarrow> uint64 \<Rightarrow> LFGDungeonData \<Rightarrow> finish_player \<Rightarrow> LfgReward \<Rightarrow> LFGMgr \<Rightarrow> LFGMgr \<times> finish_effect list" where
  "give_reward quests gguid guid dungeon p reward m =
     (let data = (\<lambda>done quest. \<lparr>rd_rdungeonEntry = LFGDungeonData_Entry dungeon, rd_sdungeonEntry = GetDungeon m gguid False,
                                rd_done = done, rd_quest = quest\<rparr>);
          given = (\<lambda>done quest. (m\<lparr>m_sent := m_sent m @ [(guid, MsgPlayerReward (data done quest))]\<rparr>, [RewardQuest guid quest]))
      in if \<not> quests (rw_firstQuest reward) then (m, [])
         else if fp_canReward p (rw_firstQuest reward) then given False (rw_firstQuest reward)
         else if \<not> quests (rw_otherQuest reward) then (m, [])
         else given True (rw_otherQuest reward))"

definition reward_player ::
    "(uint64 \<Rightarrow> finish_player option) \<Rightarrow> (uint32 \<Rightarrow> bool) \<Rightarrow> uint64 \<Rightarrow> uint32 \<Rightarrow> uint64 \<Rightarrow> uint32 \<Rightarrow> LFGMgr \<Rightarrow> LFGMgr \<times> finish_effect list" where
  "reward_player world quests gguid dungeonId guid rDungeonId m =
     (case GetLFGDungeon m rDungeonId of
        None \<Rightarrow> (m, [])
      | Some dungeon \<Rightarrow>
          if dd_type dungeon \<noteq> LFG_TYPE_RANDOM \<and> \<not> dd_seasonal dungeon then (m, [])
          else case world guid of
                 None \<Rightarrow> (m, [])
               | Some p \<Rightarrow>
                   if fp_mapId p \<noteq> (case GetLFGDungeon m dungeonId of Some finished \<Rightarrow> ucast (dd_map finished) | None \<Rightarrow> 0) then (m, [])
                   else let achieved = (if dd_difficulty dungeon = 1 then [UpdateAchievement guid] else [])
                        in case GetRandomDungeonReward m rDungeonId (fp_level p) of
                             None \<Rightarrow> (m, achieved)
                           | Some reward \<Rightarrow>
                               (case give_reward quests gguid guid dungeon p reward m of (m, given) \<Rightarrow> (m, achieved @ given)))"

definition finish_player_dungeon ::
    "(uint64 \<Rightarrow> finish_player option) \<Rightarrow> (uint32 \<Rightarrow> bool) \<Rightarrow> uint64 \<Rightarrow> uint32 \<Rightarrow> uint64 \<Rightarrow> LFGMgr \<times> finish_effect list \<Rightarrow> LFGMgr \<times> finish_effect list" where
  "finish_player_dungeon world quests gguid dungeonId guid st =
     (case st of (m, effects) \<Rightarrow>
        if GetState m guid = LFG_STATE_FINISHED_DUNGEON then (m, effects)
        else let dungeons = pd_SelectedDungeons (player m guid);
                 rDungeonId = (if dungeons \<noteq> [] then hd dungeons else 0)
             in case reward_player world quests gguid dungeonId guid rDungeonId (SetState guid LFG_STATE_FINISHED_DUNGEON m) of
                  (m, new) \<Rightarrow> (m, effects @ new))"

definition FinishDungeon ::
    "(uint64 \<Rightarrow> finish_player option) \<Rightarrow> (uint32 \<Rightarrow> bool) \<Rightarrow> uint64 \<Rightarrow> uint32 \<Rightarrow> LFGMgr \<Rightarrow> LFGMgr \<times> finish_effect list" where
  "FinishDungeon world quests gguid dungeonId m =
     (if GetDungeon m gguid True \<noteq> dungeonId then (m, [])
      else if GetState m gguid = LFG_STATE_FINISHED_DUNGEON then (m, [])
      else let m = SetState gguid LFG_STATE_FINISHED_DUNGEON m
           in fold (finish_player_dungeon world quests gguid dungeonId) (GetPlayers m gguid) (m, []))"

section \<open>Teleports\<close>

type_synonym position = "uint32 \<times> rat \<times> rat \<times> rat \<times> rat"

record tele_player =
  tp_guid :: uint64
  tp_mapId :: uint32
  tp_alive :: bool
  tp_falling :: bool
  tp_fatigue :: bool
  tp_vehicle :: bool
  tp_charming :: bool
  tp_inDungeon :: bool
  tp_inFlight :: bool
  tp_canTeleport :: "position \<Rightarrow> bool"

text \<open>The members of the group that are online, with their position.\<close>

record tele_group =
  tg_guid :: uint64
  tg_isLFG :: bool
  tg_members :: "(uint64 \<times> position) list"

datatype tele_effect =
    SendTeleportError LfgTeleportError | TeleportToBGEntryPoint | SetBattlegroundEntryPoint | EndTaxiFlight | TeleportTo position

text \<open>The loop that selects a player inside; it runs while no map has been chosen.\<close>

fun select_inside :: "uint64 \<Rightarrow> uint32 \<Rightarrow> (uint64 \<times> position) list \<Rightarrow> position \<Rightarrow> position" where
  "select_inside guid mapId [] pos = pos"
| "select_inside guid mapId ((g, place) # members) pos =
     (if fst pos \<noteq> 0 then pos else if g \<noteq> guid \<and> fst place = mapId then place else select_inside guid mapId members pos)"

definition teleport_in :: "tele_player \<Rightarrow> tele_group \<Rightarrow> LFGDungeonData \<Rightarrow> bool \<Rightarrow> tele_effect list" where
  "teleport_in p grp dungeon fromOpcode =
     (let entrance = (ucast (dd_map dungeon), dd_x dungeon, dd_y dungeon, dd_z dungeon, dd_o dungeon);
          pos = (if fromOpcode then entrance else select_inside (tp_guid p) (ucast (dd_map dungeon)) (tg_members grp) entrance)
      in (if \<not> tp_inDungeon p then [SetBattlegroundEntryPoint] else [])
         @ (if tp_inFlight p then [EndTaxiFlight] else [])
         @ (if tp_canTeleport p pos then [TeleportTo pos] else [SendTeleportError LFG_TELEPORTERROR_INVALID_LOCATION]))"

definition TeleportPlayer :: "LFGMgr \<Rightarrow> tele_player \<Rightarrow> tele_group option \<Rightarrow> bool \<Rightarrow> bool \<Rightarrow> tele_effect list" where
  "TeleportPlayer m p grp out fromOpcode =
     (case grp of
        None \<Rightarrow> [SendTeleportError LFG_TELEPORTERROR_INVALID_LOCATION]
      | Some g \<Rightarrow>
          case (if tg_isLFG g then GetLFGDungeon m (GetDungeon m (tg_guid g) True) else None) of
            None \<Rightarrow> [SendTeleportError LFG_TELEPORTERROR_INVALID_LOCATION]
          | Some dungeon \<Rightarrow>
              if out then (if tp_mapId p = ucast (dd_map dungeon) then [TeleportToBGEntryPoint] else [])
              else if \<not> tp_alive p then [SendTeleportError LFG_TELEPORTERROR_PLAYER_DEAD]
              else if tp_falling p then [SendTeleportError LFG_TELEPORTERROR_FALLING]
              else if tp_fatigue p then [SendTeleportError LFG_TELEPORTERROR_FATIGUE]
              else if tp_vehicle p then [SendTeleportError LFG_TELEPORTERROR_IN_VEHICLE]
              else if tp_charming p then [SendTeleportError LFG_TELEPORTERROR_CHARMING]
              else if tp_mapId p \<noteq> ucast (dd_map dungeon) then teleport_in p g dungeon fromOpcode
              else [SendTeleportError LFG_TELEPORTERROR_INVALID_LOCATION])"

section \<open>Options and administration\<close>

definition LFGMgr_Clean :: "LFGMgr \<Rightarrow> LFGMgr" where
  "LFGMgr_Clean m = m\<lparr>QueuesStore := []\<rparr>"

definition SetOptions :: "uint32 \<Rightarrow> LFGMgr \<Rightarrow> LFGMgr" where
  "SetOptions options m = m\<lparr>m_options := options\<rparr>"

datatype HolidayIds = HOLIDAY_HALLOWS_END | HOLIDAY_FIRE_FESTIVAL | HOLIDAY_BREWFEST | HOLIDAY_LOVE_IS_IN_THE_AIR

definition IsSeasonActive :: "(HolidayIds \<Rightarrow> bool) \<Rightarrow> uint32 \<Rightarrow> bool" where
  "IsSeasonActive holiday dungeonId =
     (if dungeonId = 285 then holiday HOLIDAY_HALLOWS_END
      else if dungeonId = 286 then holiday HOLIDAY_FIRE_FESTIVAL
      else if dungeonId = 287 then holiday HOLIDAY_BREWFEST
      else if dungeonId = 288 then holiday HOLIDAY_LOVE_IS_IN_THE_AIR
      else False)"

section \<open>The dungeons of a random dungeon\<close>

lemma locate_keeps:
  "locate_dungeon triggers d = Some x \<Longrightarrow> dd_id x = dd_id d \<and> dd_type x = dd_type d \<and> dd_group x = dd_group d"
  by (auto simp: locate_dungeon_def split: if_splits option.splits)

lemma map_at_empty: "map_at d [] k = d"
  by (simp add: map_at_def)

lemma set_cache_dungeon:
  "set (map_at [] (cache_dungeon d c) g) =
     set (map_at [] c g) \<union> (if g = 0 \<or> dd_type d \<noteq> LFG_TYPE_RANDOM \<and> dd_group d = g then {dd_id d} else {})"
  by (auto simp: cache_dungeon_def map_at_def)

lemma cached_place_dungeons:
  "i \<in> set (map_at [] (CachedDungeonMapStore (fold (place_dungeon triggers) es m)) g) \<longleftrightarrow>
     i \<in> set (map_at [] (CachedDungeonMapStore m) g)
     \<or> (\<exists>k d x. (k, d) \<in> set es \<and> locate_dungeon triggers d = Some x \<and> dd_id d = i
          \<and> (g = 0 \<or> dd_type d \<noteq> LFG_TYPE_RANDOM \<and> dd_group d = g))"
proof (induction es arbitrary: m)
  case (Cons e es)
  obtain k d where e: "e = (k, d)" by (cases e)
  show ?case
  proof (cases "locate_dungeon triggers d")
    case None
    then have "place_dungeon triggers e m = m" by (simp add: place_dungeon_def e)
    then show ?thesis using None by (auto simp: Cons.IH e)
  next
    case (Some x)
    then have "CachedDungeonMapStore (place_dungeon triggers e m) = cache_dungeon x (CachedDungeonMapStore m)"
      by (simp add: place_dungeon_def e)
    then show ?thesis using locate_keeps [OF Some] Some
      by (auto simp: Cons.IH e set_cache_dungeon split: if_splits)
  qed
qed simp

lemma dungeons_place_dungeons:
  "distinct (map fst es) \<Longrightarrow>
   map_of (LfgDungeonStore (fold (place_dungeon triggers) es m)) k =
     (case map_of es k of
        None \<Rightarrow> map_of (LfgDungeonStore m) k
      | Some d \<Rightarrow> (case locate_dungeon triggers d of None \<Rightarrow> map_of (LfgDungeonStore m) k | Some x \<Rightarrow> Some x))"
proof (induction es arbitrary: m)
  case (Cons e es)
  then have "map_of es (fst e) = None" by (simp add: map_of_eq_None_iff)
  moreover have "map_of (LfgDungeonStore (place_dungeon triggers e m)) k =
      (case locate_dungeon triggers (snd e) of None \<Rightarrow> map_of (LfgDungeonStore m) k
       | Some x \<Rightarrow> if k = fst e then Some x else map_of (LfgDungeonStore m) k)"
    by (simp add: place_dungeon_def split: option.split)
  ultimately show ?case using Cons by (cases e) (auto split: option.split)
qed simp

text \<open>The dungeons before they are located: every one under its own identifier.\<close>

definition loaded_dungeons :: "LFGDungeonEntry list \<Rightarrow> entrance_row list \<Rightarrow> (uint32, LFGDungeonData) smap" where
  "loaded_dungeons dbc rows = fold set_entrance rows (fold add_dungeon dbc [])"

definition keyed :: "(uint32, LFGDungeonData) smap \<Rightarrow> bool" where
  "keyed store \<longleftrightarrow> map_wf store \<and> (\<forall>k d. map_of store k = Some d \<longrightarrow> dd_id d = k)"

lemma keyed_add: "keyed s \<Longrightarrow> keyed (add_dungeon e s)"
  by (auto simp: keyed_def add_dungeon_def LFGDungeonData_of_def)

lemma keyed_entrance: "keyed s \<Longrightarrow> keyed (set_entrance r s)"
  by (auto simp: keyed_def set_entrance_def split: prod.split option.split)

lemma fold_keeps: "(\<And>x s. P s \<Longrightarrow> P (f x s)) \<Longrightarrow> P s \<Longrightarrow> P (fold f xs s)"
  by (induction xs arbitrary: s) auto

lemma keyed_loaded: "keyed (loaded_dungeons dbc rows)"
  unfolding loaded_dungeons_def
  by (rule fold_keeps [of keyed], erule keyed_entrance, rule fold_keeps [of keyed], erule keyed_add) (simp add: keyed_def)

lemma Load_unfold:
  "rows \<noteq> [] \<Longrightarrow> LoadLFGDungeons dbc rows triggers locks False m =
     fold (place_dungeon triggers) (loaded_dungeons dbc rows) (m\<lparr>LfgDungeonStore := loaded_dungeons dbc rows\<rparr>)"
  by (simp add: LoadLFGDungeons_def loaded_dungeons_def Let_def)

lemma map_of_loaded:
  assumes "rows \<noteq> []"
  shows "map_of (LfgDungeonStore (LoadLFGDungeons dbc rows triggers locks False m)) k =
    map_option (\<lambda>d. case locate_dungeon triggers d of None \<Rightarrow> d | Some x \<Rightarrow> x) (map_of (loaded_dungeons dbc rows) k)"
  using assms keyed_loaded [of dbc rows]
  by (simp add: Load_unfold dungeons_place_dungeons map_wf_distinct keyed_def split: option.split)

text \<open>
  Once the dungeons have been loaded, the dungeons a random dungeon may lead to are exactly those
  of its group that are not random themselves and have an entrance, from the database or an area
  trigger.
\<close>

theorem random_dungeon_choices:
  assumes "rows \<noteq> []" "CachedDungeonMapStore m = []"
    and "m' = LoadLFGDungeons dbc rows triggers locks False m"
    and "GetLFGDungeon m' r = Some d" "dd_group d \<noteq> 0"
  shows "i \<in> set (GetDungeonsByRandom m' r) \<longleftrightarrow>
    (\<exists>x. map_of (loaded_dungeons dbc rows) i = Some x \<and> dd_type x \<noteq> LFG_TYPE_RANDOM \<and> dd_group x = dd_group d
       \<and> locate_dungeon triggers x \<noteq> None)"
proof -
  have "GetDungeonsByRandom m' r = map_at [] (CachedDungeonMapStore m') (dd_group d)"
    using assms(4) by (simp add: GetDungeonsByRandom_def)
  then have "i \<in> set (GetDungeonsByRandom m' r) \<longleftrightarrow>
    (\<exists>k x y. (k, x) \<in> set (loaded_dungeons dbc rows) \<and> locate_dungeon triggers x = Some y \<and> dd_id x = i
       \<and> dd_type x \<noteq> LFG_TYPE_RANDOM \<and> dd_group x = dd_group d)"
    using assms by (simp add: Load_unfold cached_place_dungeons map_at_empty)
  also have "\<dots> \<longleftrightarrow> (\<exists>x y. map_of (loaded_dungeons dbc rows) i = Some x \<and> locate_dungeon triggers x = Some y
       \<and> dd_type x \<noteq> LFG_TYPE_RANDOM \<and> dd_group x = dd_group d)"
    using keyed_loaded [of dbc rows] by (auto simp: keyed_def map_wf_find)
  finally show ?thesis by auto
qed

definition demo_entries :: "LFGDungeonEntry list" where
  "demo_entries =
     (let e = \<lparr>le_ID = 7, le_name = ''Deadmines'', le_minlevel = 15, le_maxlevel = 21, le_map = 36, le_difficulty = 0, le_flags = 0,
               le_type = 1, le_expansion = 0, le_grouptype = 2\<rparr>
      in [e, e\<lparr>le_ID := 8, le_name := ''Stockade'', le_map := 34, le_minlevel := 22, le_maxlevel := 30\<rparr>,
          e\<lparr>le_ID := 9, le_name := ''Lost'', le_map := 99\<rparr>,
          e\<lparr>le_ID := 258, le_name := ''Random'', le_map := 0, le_type := 6\<rparr>])"

definition demo_triggers :: "uint16 \<Rightarrow> AreaTrigger option" where
  "demo_triggers mp = (if mp = 34 then Some \<lparr>at_target_mapId = 34, at_target_X = 54, at_target_Y = 1, at_target_Z = -18, at_target_Orientation = 6\<rparr> else None)"

definition demo_loaded :: LFGMgr where
  "demo_loaded = LoadLFGDungeons demo_entries [(7, -16, -383, 62, 2)] demo_triggers (\<lambda>_. None) False (LFGMgr_new 3)"

theorem random_dungeon_choices_witness:
  "GetDungeonsByRandom demo_loaded 258 = [7, 8] \<and> 9 \<notin> set (GetDungeonsByRandom demo_loaded 258)"
proof -
  have "GetLFGDungeon demo_loaded 258 \<noteq> None \<and> dd_group (the (GetLFGDungeon demo_loaded 258)) = 2" by code_simp
  then obtain d where d: "GetLFGDungeon demo_loaded 258 = Some d" "dd_group d = 2" by auto
  have "map_of (loaded_dungeons demo_entries [(7, -16, -383, 62, 2)]) 9 \<noteq> None
    \<and> locate_dungeon demo_triggers (the (map_of (loaded_dungeons demo_entries [(7, -16, -383, 62, 2)]) 9)) = None" by code_simp
  then have "9 \<notin> set (GetDungeonsByRandom demo_loaded 258)"
    using random_dungeon_choices [of "[(7, -16, -383, 62, 2)]" "LFGMgr_new 3" demo_loaded demo_entries demo_triggers "\<lambda>_. None" 258 d 9] d
    by (auto simp: demo_loaded_def LFGMgr_new_def)
  moreover have "GetDungeonsByRandom demo_loaded 258 = [7, 8]" by code_simp
  ultimately show ?thesis by blast
qed

section \<open>Reloading\<close>

lemma random_none: "CachedDungeonMapStore m = [] \<Longrightarrow> GetDungeonsByRandom m r = []"
  by (simp add: GetDungeonsByRandom_def map_at_empty)

lemma relock_empty_cache:
  "CachedDungeonMapStore m = [] \<Longrightarrow>
   CachedDungeonMapStore (fold (\<lambda>entry m. case locks (fst entry) of None \<Rightarrow> m | Some e \<Rightarrow> InitializeLockedDungeons e (fst entry) m) es m) = []
   \<and> LfgDungeonStore (fold (\<lambda>entry m. case locks (fst entry) of None \<Rightarrow> m | Some e \<Rightarrow> InitializeLockedDungeons e (fst entry) m) es m) = LfgDungeonStore m
   \<and> player (fold (\<lambda>entry m. case locks (fst entry) of None \<Rightarrow> m | Some e \<Rightarrow> InitializeLockedDungeons e (fst entry) m) es m) x =
     (if x \<in> fst ` set es \<and> locks x \<noteq> None then (player m x)\<lparr>pd_LockedDungeons := []\<rparr> else player m x)"
proof (induction es arbitrary: m)
  case (Cons e es)
  define m1 where "m1 = (case locks (fst e) of None \<Rightarrow> m | Some l \<Rightarrow> InitializeLockedDungeons l (fst e) m)"
  have "CachedDungeonMapStore m1 = []" "LfgDungeonStore m1 = LfgDungeonStore m"
    "player m1 x = (if x = fst e \<and> locks x \<noteq> None then (player m x)\<lparr>pd_LockedDungeons := []\<rparr> else player m x)"
    using Cons.prems
    by (auto simp: m1_def InitializeLockedDungeons_def SetLockedDungeons_def random_none on_player_def player_def
        map_at_def split: option.split)
  then show ?case using Cons.IH [of m1] by (auto simp: m1_def)
qed simp

lemma place_keeps_players: "PlayersStore (fold (place_dungeon triggers) es m) = PlayersStore m"
  by (induction es arbitrary: m) (auto simp: place_dungeon_def split: option.split)

lemma reload_state:
  assumes "rows \<noteq> []" and m1_def: "m1 = LoadLFGDungeons dbc rows triggers locks False m"
  shows "CachedDungeonMapStore (LoadLFGDungeons dbc rows triggers locks True m) = []"
    "LfgDungeonStore (LoadLFGDungeons dbc rows triggers locks True m) = LfgDungeonStore m1"
    "player (LoadLFGDungeons dbc rows triggers locks True m) x =
      (if map_of (PlayersStore m) x \<noteq> None \<and> locks x \<noteq> None then (player m x)\<lparr>pd_LockedDungeons := []\<rparr> else player m x)"
proof -
  have m1: "PlayersStore m1 = PlayersStore m"
    by (simp add: m1_def LoadLFGDungeons_def place_keeps_players Let_def)
  have "LoadLFGDungeons dbc rows triggers locks True m = relock_players locks (m1\<lparr>CachedDungeonMapStore := []\<rparr>)"
    using assms(1) by (simp add: m1_def LoadLFGDungeons_def Let_def)
  then show "CachedDungeonMapStore (LoadLFGDungeons dbc rows triggers locks True m) = []"
    "LfgDungeonStore (LoadLFGDungeons dbc rows triggers locks True m) = LfgDungeonStore m1"
    "player (LoadLFGDungeons dbc rows triggers locks True m) x =
      (if map_of (PlayersStore m) x \<noteq> None \<and> locks x \<noteq> None then (player m x)\<lparr>pd_LockedDungeons := []\<rparr> else player m x)"
    using relock_empty_cache [of "m1\<lparr>CachedDungeonMapStore := []\<rparr>" locks "PlayersStore m" x] m1
    by (auto simp: relock_players_def player_def map_of_eq_None_iff)
qed

lemma check_join_random:
  assumes "GetDungeonType m r = LFG_TYPE_RANDOM" "r \<noteq> 0" "GetDungeonsByRandom m r = []"
  shows "fst (check_join m self party [r]) \<noteq> LFG_JOIN_OK"
proof -
  have "GetCompatibleDungeons m [] ps = ([], [])" for ps
    by (cases ps) (simp_all add: GetCompatibleDungeons_def)
  then show ?thesis using assms
    by (cases "check_restrictions self party [r]") (simp add: check_join_def Let_def)
qed

text \<open>
  C39.  \<^verbatim>\<open>LoadLFGDungeons(true)\<close> clears the cache of dungeons after it has filled it, and only then
  computes the locks of the players again.  After a reload no random dungeon leads anywhere, so that
  no player or group can join one, and every player who is online has lost all his locks.
\<close>

theorem reload_forgets_dungeons:
  assumes "rows \<noteq> []" and "m' = LoadLFGDungeons dbc rows triggers locks True m"
  shows "GetDungeonsByRandom m' r = []
    \<and> (GetDungeonType m' r = LFG_TYPE_RANDOM \<and> r \<noteq> 0 \<longrightarrow> fst (check_join m' self party [r]) \<noteq> LFG_JOIN_OK)
    \<and> (map_of (PlayersStore m) guid \<noteq> None \<and> locks guid \<noteq> None \<longrightarrow> pd_LockedDungeons (player m' guid) = [])"
  using reload_state(1) [OF assms(1) refl, of dbc triggers locks m] reload_state(3) [OF assms(1) refl, of dbc triggers locks m guid] assms(2)
  by (simp add: random_none check_join_random)

text \<open>A player of level 10, too low for every dungeon.\<close>

definition demo_low :: lock_env where
  "demo_low = \<lparr>lk_level = 10, lk_expansion = 2, lk_permission = True, lk_team = TEAM_ALLIANCE, lk_disabled = (\<lambda>_. False),
     lk_bound = (\<lambda>_ _. False), lk_season = (\<lambda>_. False), lk_access = (\<lambda>_ _. None), lk_achieved = (\<lambda>_. False),
     lk_quest = (\<lambda>_. False), lk_item = (\<lambda>_. False)\<rparr>"

definition demo_reloaded :: LFGMgr where
  "demo_reloaded = LoadLFGDungeons demo_entries [(7, -16, -383, 62, 2)] demo_triggers (\<lambda>g. if g = 5 then Some demo_low else None) True
     (InitializeLockedDungeons demo_low 5 demo_loaded)"

theorem reload_forgets_dungeons_witness:
  "map fst (pd_LockedDungeons (player (InitializeLockedDungeons demo_low 5 demo_loaded) 5)) = [0x01000007, 0x01000008, 0x06000102]
   \<and> pd_LockedDungeons (player demo_reloaded 5) = [] \<and> GetDungeonsByRandom demo_reloaded 258 = []"
proof -
  have known: "map_of (PlayersStore (InitializeLockedDungeons demo_low 5 demo_loaded)) 5 \<noteq> None" by code_simp
  have "map fst (pd_LockedDungeons (player (InitializeLockedDungeons demo_low 5 demo_loaded) 5)) = [0x01000007, 0x01000008, 0x06000102]"
    by code_simp
  then show ?thesis
    using reload_forgets_dungeons [of "[(7, -16, -383, 62, 2)]" demo_reloaded demo_entries demo_triggers
        "\<lambda>g. if g = 5 then Some demo_low else None" "InitializeLockedDungeons demo_low 5 demo_loaded" 258 undefined undefined 5] known
    by (simp add: demo_reloaded_def)
qed

section \<open>The reward of a player\<close>

definition reward_valid :: "LFGMgr \<Rightarrow> (uint32 \<Rightarrow> bool) \<Rightarrow> uint32 \<Rightarrow> reward_row \<Rightarrow> bool" where
  "reward_valid m quests dungeonId row \<longleftrightarrow>
     (case row of (d, level, firstQuest, otherQuest) \<Rightarrow>
        d = dungeonId \<and> GetLFGDungeonEntry m d \<noteq> 0 \<and> firstQuest \<noteq> 0 \<and> quests firstQuest)"

definition row_level :: "reward_row \<Rightarrow> uint32" where
  "row_level row = ucast (fst (snd row))"

definition reward_of :: "(uint32 \<Rightarrow> bool) \<Rightarrow> reward_row \<Rightarrow> LfgReward" where
  "reward_of quests row =
     (case row of (d, level, firstQuest, otherQuest) \<Rightarrow>
        \<lparr>rw_maxLevel = ucast level, rw_firstQuest = firstQuest,
         rw_otherQuest = if otherQuest \<noteq> 0 \<and> \<not> quests otherQuest then 0 else otherQuest\<rparr>)"

definition rows_ordered :: "uint32 \<Rightarrow> reward_row list \<Rightarrow> bool" where
  "rows_ordered maxPlayerLevel rows \<longleftrightarrow>
     sorted_wrt (\<lambda>a b. fst a < fst b \<or> fst a = fst b \<and> row_level a \<le> row_level b) rows
     \<and> (\<forall>row \<in> set rows. row_level row \<noteq> 0 \<and> row_level row \<le> maxPlayerLevel)"

definition rewards_for :: "uint32 \<Rightarrow> LFGMgr \<Rightarrow> LfgReward list" where
  "rewards_for dungeonId m = map snd (filter (\<lambda>e. fst e = dungeonId) (RewardMapStore m))"

lemma entry_rewards [simp]: "GetLFGDungeonEntry (m\<lparr>RewardMapStore := rs\<rparr>) = GetLFGDungeonEntry m"
  by (simp add: GetLFGDungeonEntry_def GetLFGDungeon_def fun_eq_iff)

lemma reward_valid_rewards [simp]: "reward_valid (m\<lparr>RewardMapStore := rs\<rparr>) = reward_valid m"
  by (simp add: reward_valid_def fun_eq_iff)

lemma rewards_insert:
  assumes "mm_wf rs"
  shows "map snd (filter (\<lambda>e. fst e = k) (mm_insert d r rs)) = map snd (filter (\<lambda>e. fst e = k) rs) @ (if d = k then [r] else [])"
proof -
  have "mm_insert d r (filter (\<lambda>e. fst e = d) rs) = filter (\<lambda>e. fst e = d) rs @ [(d, r)]"
    using mm_insert_below [of "filter (\<lambda>e. fst e = d) rs" d r "[]"] by simp
  then show ?thesis using assms by (auto simp: filter_mm_insert)
qed

lemma load_reward_step:
  assumes "row_level row \<noteq> 0 \<and> row_level row \<le> maxL"
  shows "\<exists>rs. load_reward quests maxL row m = m\<lparr>RewardMapStore := rs\<rparr> \<and> (mm_wf (RewardMapStore m) \<longrightarrow> mm_wf rs
    \<and> map snd (filter (\<lambda>e. fst e = k) rs) = rewards_for k m @ (if reward_valid m quests k row then [reward_of quests row] else []))"
proof -
  obtain d l f oq where row: "row = (d, l, f, oq)" by (cases row)
  show ?thesis
  proof (cases "GetLFGDungeonEntry m d = 0 \<or> f = 0 \<or> \<not> quests f")
    case True
    then show ?thesis by (intro exI [of _ "RewardMapStore m"]) (auto simp: row load_reward_def reward_valid_def rewards_for_def Let_def)
  next
    case False
    then have "load_reward quests maxL row m = m\<lparr>RewardMapStore := mm_insert d (reward_of quests row) (RewardMapStore m)\<rparr>"
      using assms by (auto simp: row load_reward_def reward_of_def row_level_def Let_def)
    then show ?thesis using False
      by (intro exI [of _ "mm_insert d (reward_of quests row) (RewardMapStore m)"])
         (simp add: rewards_insert rewards_for_def reward_valid_def row)
  qed
qed

lemma rewards_for_fold:
  "\<forall>row \<in> set rows. row_level row \<noteq> 0 \<and> row_level row \<le> maxL \<Longrightarrow> mm_wf (RewardMapStore m) \<Longrightarrow>
   rewards_for k (fold (load_reward quests maxL) rows m) = rewards_for k m @ map (reward_of quests) (filter (reward_valid m quests k) rows)"
proof (induction rows arbitrary: m)
  case (Cons row rows)
  obtain rs where rs: "load_reward quests maxL row m = m\<lparr>RewardMapStore := rs\<rparr>" "mm_wf rs"
    "map snd (filter (\<lambda>e. fst e = k) rs) = rewards_for k m @ (if reward_valid m quests k row then [reward_of quests row] else [])"
    using load_reward_step [of row maxL quests m k] Cons.prems by auto
  then have "rewards_for k (m\<lparr>RewardMapStore := rs\<rparr>) = rewards_for k m @ (if reward_valid m quests k row then [reward_of quests row] else [])"
    by (simp add: rewards_for_def)
  then show ?case using Cons.IH [of "m\<lparr>RewardMapStore := rs\<rparr>"] Cons.prems rs by simp
qed simp

lemma reward_loop_find:
  "reward_loop level rs rew =
     (case List.find (\<lambda>r. ucast level \<le> rw_maxLevel r) rs of Some r \<Rightarrow> Some r | None \<Rightarrow> if rs = [] then rew else Some (List.last rs))"
  by (induction level rs rew rule: reward_loop.induct) (auto split: option.split)

lemma find_sorted_least:
  fixes f :: "'a \<Rightarrow> 'b::linorder"
  assumes "sorted_wrt (\<lambda>a b. f a \<le> f b) xs" "List.find (\<lambda>x. t \<le> f x) xs = Some x" "y \<in> set xs"
  shows "t \<le> f x \<and> (if t \<le> f y then f x \<le> f y else f y \<le> f x)"
proof -
  have "t \<le> f x" using assms(2) by (auto simp: find_Some_iff)
  with assms show ?thesis by (induction xs) (auto split: if_splits)
qed

lemma last_sorted_greatest:
  fixes f :: "'a \<Rightarrow> 'b::linorder"
  assumes "sorted_wrt (\<lambda>a b. f a \<le> f b) xs" "y \<in> set xs"
  shows "f y \<le> f (List.last xs)"
  using assms by (induction xs) auto

lemma reward_loop_best:
  fixes rs :: "LfgReward list"
  assumes "sorted_wrt (\<lambda>a b. rw_maxLevel a \<le> rw_maxLevel b) rs"
  shows "case reward_loop level rs None of
      None \<Rightarrow> rs = []
    | Some r \<Rightarrow> r \<in> set rs \<and> (\<forall>y \<in> set rs. if ucast level \<le> rw_maxLevel y then ucast level \<le> rw_maxLevel r \<and> rw_maxLevel r \<le> rw_maxLevel y
                                           else rw_maxLevel y \<le> rw_maxLevel r)"
proof (cases "List.find (\<lambda>r. ucast level \<le> rw_maxLevel r) rs")
  case None
  then have "\<not> ucast level \<le> rw_maxLevel y" if "y \<in> set rs" for y using that by (auto simp: find_None_iff)
  then show ?thesis using None last_sorted_greatest [OF assms] by (simp add: reward_loop_find)
next
  case (Some r)
  then have "r \<in> set rs" by (auto simp: find_Some_iff)
  then show ?thesis using Some find_sorted_least [OF assms Some] by (auto simp: reward_loop_find)
qed

lemma ordered_rewards:
  assumes "rows_ordered maxL rows"
  shows "sorted_wrt (\<lambda>a b. rw_maxLevel a \<le> rw_maxLevel b) (map (reward_of quests) (filter (reward_valid m quests k) rows))"
proof -
  have "sorted_wrt (\<lambda>a b. fst a < fst b \<or> fst a = fst b \<and> row_level a \<le> row_level b) (filter (reward_valid m quests k) rows)"
    using assms by (simp add: rows_ordered_def sorted_wrt_filter)
  then have "sorted_wrt (\<lambda>a b. rw_maxLevel (reward_of quests a) \<le> rw_maxLevel (reward_of quests b)) (filter (reward_valid m quests k) rows)"
    by (rule sorted_wrt_mono_rel [rotated]) (auto simp: reward_valid_def reward_of_def row_level_def)
  then show ?thesis by (simp add: sorted_wrt_map)
qed

text \<open>
  When the rows of the rewards come in the order the query asks for, with levels players can
  reach, \<^verbatim>\<open>GetRandomDungeonReward\<close> finds the right reward of a dungeon for a level: the one with the
  least maximum level that reaches it, the one with the greatest if none does, and none only if no
  valid row mentions the dungeon.
\<close>

theorem reward_for_level:
  assumes "rows_ordered maxPlayerLevel rows"
    and "valid = filter (reward_valid m quests (dungeon AND 0x00FFFFFF)) rows"
    and "m' = LoadRewards quests maxPlayerLevel rows m"
  shows "case GetRandomDungeonReward m' dungeon level of
      None \<Rightarrow> valid = []
    | Some rew \<Rightarrow> rew \<in> reward_of quests ` set valid
        \<and> (\<forall>row \<in> set valid. if ucast level \<le> row_level row then ucast level \<le> rw_maxLevel rew \<and> rw_maxLevel rew \<le> row_level row
                              else row_level row \<le> rw_maxLevel rew)"
proof -
  have level: "rw_maxLevel (reward_of quests row) = row_level row" for row by (simp add: reward_of_def row_level_def split: prod.split)
  have "rewards_for (dungeon AND 0x00FFFFFF) m' = map (reward_of quests) valid"
    using assms by (simp add: LoadRewards_def rewards_for_fold rows_ordered_def) (simp add: rewards_for_def)
  then have "GetRandomDungeonReward m' dungeon level = reward_loop level (map (reward_of quests) valid) None"
    by (simp add: GetRandomDungeonReward_def rewards_for_def)
  then show ?thesis
    using reward_loop_best [OF ordered_rewards [OF assms(1), of quests m "dungeon AND 0x00FFFFFF"], of level] assms(2)
    by (cases "reward_loop level (map (reward_of quests) valid) None") (simp_all add: level cong: if_cong)
qed

definition demo_rewards :: "reward_row list" where
  "demo_rewards = [(258, 15, 101, 201), (258, 25, 102, 202), (258, 80, 103, 203)]"

theorem reward_for_level_witness:
  "GetRandomDungeonReward (LoadRewards (\<lambda>_. True) 80 demo_rewards demo_loaded) 0x06000102 20
     = Some \<lparr>rw_maxLevel = 25, rw_firstQuest = 102, rw_otherQuest = 202\<rparr>"
proof -
  have "rows_ordered 80 demo_rewards" by (simp add: rows_ordered_def demo_rewards_def row_level_def)
  moreover have valid: "filter (reward_valid demo_loaded (\<lambda>_. True) (0x06000102 AND 0x00FFFFFF)) demo_rewards = demo_rewards" by code_simp
  ultimately show ?thesis
    using reward_for_level [of 80 demo_rewards demo_rewards demo_loaded "\<lambda>_. True" "0x06000102" "LoadRewards (\<lambda>_. True) 80 demo_rewards demo_loaded" 20]
    by (auto simp: demo_rewards_def reward_of_def row_level_def split: option.splits)
qed


section \<open>Finishing a dungeon\<close>

lemma finish_frame [simp]:
  "GetLFGDungeon (SetState g st m) = GetLFGDungeon m" "RewardMapStore (SetState g st m) = RewardMapStore m"
  by (simp_all add: SetState_def on_player_def on_group_def GetLFGDungeon_def fun_eq_iff)

text \<open>Why a player is rewarded: he had not finished, asked for a random or seasonal dungeon and is in its map.\<close>

definition reward_due :: "(uint64 \<Rightarrow> finish_player option) \<Rightarrow> uint32 \<Rightarrow> LFGMgr \<Rightarrow> uint64 \<Rightarrow> uint32 \<Rightarrow> bool" where
  "reward_due world dungeonId m guid r \<longleftrightarrow>
     (\<exists>d p. GetLFGDungeon m r = Some d \<and> (dd_type d = LFG_TYPE_RANDOM \<or> dd_seasonal d) \<and> world guid = Some p
        \<and> fp_mapId p = (case GetLFGDungeon m dungeonId of Some finished \<Rightarrow> ucast (dd_map finished) | None \<Rightarrow> 0))"

definition quests_of :: "uint64 \<Rightarrow> finish_effect list \<Rightarrow> uint32 list" where
  "quests_of guid effects = concat (map (\<lambda>e. case e of RewardQuest g q \<Rightarrow> if g = guid then [q] else [] | UpdateAchievement g \<Rightarrow> []) effects)"

lemma quests_of_simps [simp]:
  "quests_of g [] = []" "quests_of g (xs @ ys) = quests_of g xs @ quests_of g ys"
  "quests_of g [RewardQuest h q] = (if h = g then [q] else [])" "quests_of g [UpdateAchievement h] = []"
  by (simp_all add: quests_of_def)

text \<open>At most one quest, for this player only.\<close>

definition one_quest :: "uint64 \<Rightarrow> finish_effect list \<Rightarrow> bool" where
  "one_quest guid effects \<longleftrightarrow> length (quests_of guid effects) \<le> 1 \<and> (\<forall>g. g \<noteq> guid \<longrightarrow> quests_of g effects = [])"

lemma give_reward_result:
  "\<exists>sent effs. give_reward quests gguid guid dungeon p reward m = (m\<lparr>m_sent := sent\<rparr>, effs) \<and> one_quest guid effs"
proof -
  have "m = m\<lparr>m_sent := m_sent m\<rparr>" by simp
  then have "\<exists>sent. m = m\<lparr>m_sent := sent\<rparr>" by blast
  then show ?thesis by (auto simp: give_reward_def one_quest_def Let_def)
qed

lemma reward_player_result:
  "\<exists>sent new. reward_player world quests gguid dungeonId guid r m = (m\<lparr>m_sent := sent\<rparr>, new) \<and> one_quest guid new
     \<and> (quests_of guid new \<noteq> [] \<longrightarrow> reward_due world dungeonId m guid r)"
proof -
  have same: "\<exists>sent. m = m\<lparr>m_sent := sent\<rparr>" by (rule exI [of _ "m_sent m"]) simp
  show ?thesis
  proof (cases "reward_due world dungeonId m guid r")
    case False
    then have "reward_player world quests gguid dungeonId guid r m = (m, [])"
      by (auto simp: reward_player_def reward_due_def split: option.split)
    then show ?thesis using same by (simp add: one_quest_def)
  next
    case True
    then obtain d p where d: "GetLFGDungeon m r = Some d" "dd_type d = LFG_TYPE_RANDOM \<or> dd_seasonal d" "world guid = Some p"
      "fp_mapId p = (case GetLFGDungeon m dungeonId of Some finished \<Rightarrow> ucast (dd_map finished) | None \<Rightarrow> 0)"
      by (auto simp: reward_due_def)
    define achieved where "achieved = (if dd_difficulty d = 1 then [UpdateAchievement guid] else [])"
    have none: "quests_of g achieved = []" for g by (simp add: achieved_def)
    have unfolded: "reward_player world quests gguid dungeonId guid r m =
        (case GetRandomDungeonReward m r (fp_level p) of
           None \<Rightarrow> (m, achieved)
         | Some reward \<Rightarrow> (case give_reward quests gguid guid d p reward m of (m, given) \<Rightarrow> (m, achieved @ given)))"
      unfolding reward_player_def achieved_def Let_def using d by auto
    show ?thesis
    proof (cases "GetRandomDungeonReward m r (fp_level p)")
      case None
      then show ?thesis using unfolded none same True by (simp add: one_quest_def)
    next
      case (Some rw)
      obtain sent effs where "give_reward quests gguid guid d p rw m = (m\<lparr>m_sent := sent\<rparr>, effs)" "one_quest guid effs"
        using give_reward_result by blast
      then show ?thesis using unfolded none Some True by (auto simp: one_quest_def)
    qed
  qed
qed

text \<open>One turn of the loop.\<close>

lemma finish_one:
  assumes "\<not> IS_GROUP_GUID guid" "finish_player_dungeon world quests gguid dungeonId guid (m, effects) = (m', effects')"
  obtains new where "effects' = effects @ new" "one_quest guid new" "group_data m' = group_data m"
    "GetLFGDungeon m' = GetLFGDungeon m"
    "player m' = (player m)(guid := if pd_State (player m guid) = LFG_STATE_FINISHED_DUNGEON then player m guid
                                    else LfgPlayerData_SetState LFG_STATE_FINISHED_DUNGEON (player m guid))"
    "quests_of guid new \<noteq> [] \<Longrightarrow> pd_State (player m guid) \<noteq> LFG_STATE_FINISHED_DUNGEON
       \<and> reward_due world dungeonId m guid (case pd_SelectedDungeons (player m guid) of [] \<Rightarrow> 0 | r # rs \<Rightarrow> r)"
proof (cases "pd_State (player m guid) = LFG_STATE_FINISHED_DUNGEON")
  case True
  then show thesis using assms that [of "[]"] by (simp add: finish_player_dungeon_def GetState_def one_quest_def)
next
  case False
  define r where "r = (case pd_SelectedDungeons (player m guid) of [] \<Rightarrow> 0 | r # rs \<Rightarrow> r)"
  have r: "(if pd_SelectedDungeons (player m guid) \<noteq> [] then hd (pd_SelectedDungeons (player m guid)) else 0) = r"
    by (simp add: r_def split: list.split)
  obtain sent new where new: "reward_player world quests gguid dungeonId guid r (SetState guid LFG_STATE_FINISHED_DUNGEON m)
      = ((SetState guid LFG_STATE_FINISHED_DUNGEON m)\<lparr>m_sent := sent\<rparr>, new)" "one_quest guid new"
    "quests_of guid new \<noteq> [] \<longrightarrow> reward_due world dungeonId (SetState guid LFG_STATE_FINISHED_DUNGEON m) guid r"
    using reward_player_result by blast
  have "m' = (SetState guid LFG_STATE_FINISHED_DUNGEON m)\<lparr>m_sent := sent\<rparr>" "effects' = effects @ new"
    using assms False new(1) r by (simp_all add: finish_player_dungeon_def GetState_def Let_def)
  moreover have "GetLFGDungeon (a\<lparr>m_sent := sent\<rparr>) = GetLFGDungeon a" for a by (simp add: GetLFGDungeon_def fun_eq_iff)
  ultimately show thesis using that [of new] new(2,3) False assms(1)
    by (simp add: reward_due_def r_def [symmetric])
qed

text \<open>What a loop over the players \<open>ps\<close> does.\<close>

definition finished_player ::
    "(uint64 \<Rightarrow> finish_player option) \<Rightarrow> uint32 \<Rightarrow> uint64 \<Rightarrow> LFGMgr \<times> finish_effect list \<Rightarrow> LFGMgr \<times> finish_effect list \<Rightarrow> bool" where
  "finished_player world dungeonId g st st' \<longleftrightarrow>
     pd_State (player (fst st') g) = LFG_STATE_FINISHED_DUNGEON
     \<and> (\<exists>qs. quests_of g (snd st') = quests_of g (snd st) @ qs \<and> length qs \<le> 1
          \<and> (qs \<noteq> [] \<longrightarrow> pd_State (player (fst st) g) \<noteq> LFG_STATE_FINISHED_DUNGEON
               \<and> reward_due world dungeonId (fst st) g (case pd_SelectedDungeons (player (fst st) g) of [] \<Rightarrow> 0 | r # rs \<Rightarrow> r)))"

definition finished_for ::
    "(uint64 \<Rightarrow> finish_player option) \<Rightarrow> uint32 \<Rightarrow> uint64 set \<Rightarrow> LFGMgr \<times> finish_effect list \<Rightarrow> LFGMgr \<times> finish_effect list \<Rightarrow> bool" where
  "finished_for world dungeonId ps st st' \<longleftrightarrow>
     group_data (fst st') = group_data (fst st) \<and> GetLFGDungeon (fst st') = GetLFGDungeon (fst st)
     \<and> (\<forall>g \<in> ps. finished_player world dungeonId g st st')
     \<and> (\<forall>g. g \<notin> ps \<longrightarrow> player (fst st') g = player (fst st) g \<and> quests_of g (snd st') = quests_of g (snd st))"

lemma reward_due_frame: "GetLFGDungeon m' = GetLFGDungeon m \<Longrightarrow> reward_due world d m' = reward_due world d m"
  by (simp add: reward_due_def fun_eq_iff)

lemma finished_one:
  assumes "\<not> IS_GROUP_GUID guid"
  shows "finished_for world dungeonId {guid} st (finish_player_dungeon world quests gguid dungeonId guid st)"
proof -
  obtain m effects where st: "st = (m, effects)" by (cases st)
  obtain m' effects' where run: "finish_player_dungeon world quests gguid dungeonId guid (m, effects) = (m', effects')"
    by (cases "finish_player_dungeon world quests gguid dungeonId guid (m, effects)")
  from assms run show ?thesis by (rule finish_one) (auto simp: finished_for_def finished_player_def one_quest_def st run)
qed

lemma finished_trans:
  assumes "finished_for world d P a b" "finished_for world d Q b c" "P \<inter> Q = {}"
  shows "finished_for world d (P \<union> Q) a c"
proof -
  have due: "reward_due world d (fst b) = reward_due world d (fst a)"
    using assms(1) by (intro reward_due_frame) (simp add: finished_for_def)
  have "finished_player world d g a c" if "g \<in> P" for g
    using that assms by (auto simp: finished_for_def finished_player_def)
  moreover have "finished_player world d g a c" if "g \<in> Q" for g
  proof -
    have "g \<notin> P" "finished_player world d g b c" using that assms(2,3) by (auto simp: finished_for_def)
    moreover have "player (fst b) g = player (fst a) g" "quests_of g (snd b) = quests_of g (snd a)"
      using \<open>g \<notin> P\<close> assms(1) by (simp_all add: finished_for_def)
    ultimately show ?thesis using due by (simp add: finished_player_def)
  qed
  ultimately show ?thesis using assms(1,2) by (auto simp: finished_for_def)
qed

lemma finish_all:
  "\<forall>g \<in> set ps. \<not> IS_GROUP_GUID g \<Longrightarrow> distinct ps \<Longrightarrow>
   finished_for world dungeonId (set ps) st (fold (finish_player_dungeon world quests gguid dungeonId) ps st)"
proof (induction ps arbitrary: st)
  case (Cons p ps)
  have "finished_for world dungeonId ({p} \<union> set ps) st
      (fold (finish_player_dungeon world quests gguid dungeonId) ps (finish_player_dungeon world quests gguid dungeonId p st))"
    using Cons.prems by (intro finished_trans [OF finished_one Cons.IH]) auto
  then show ?case by simp
qed (simp add: finished_for_def)

text \<open>
  C20.  When the dungeon of a group is finished, the group and all its players get the state
  \<^verbatim>\<open>LFG_STATE_FINISHED_DUNGEON\<close>.  A player gets at most one quest, and only if he is in the group, had
  not finished before, had asked for a random or seasonal dungeon and is in the world on the map of
  the dungeon.  Finishing again, whatever the dungeon and the world then, does nothing: nobody is
  rewarded twice.
\<close>

theorem finish_rewards_once:
  assumes "IS_GROUP_GUID gguid" "\<forall>g \<in> set (GetPlayers m gguid). \<not> IS_GROUP_GUID g" "distinct (GetPlayers m gguid)"
    and "GetDungeon m gguid True = dungeonId" "GetState m gguid \<noteq> LFG_STATE_FINISHED_DUNGEON"
    and "FinishDungeon world quests gguid dungeonId m = (m', effects)"
  shows "GetState m' gguid = LFG_STATE_FINISHED_DUNGEON
    \<and> (\<forall>g \<in> set (GetPlayers m gguid). GetState m' g = LFG_STATE_FINISHED_DUNGEON)
    \<and> (\<forall>g. length (quests_of g effects) \<le> 1)
    \<and> (\<forall>g. quests_of g effects \<noteq> [] \<longrightarrow> g \<in> set (GetPlayers m gguid) \<and> GetState m g \<noteq> LFG_STATE_FINISHED_DUNGEON
         \<and> reward_due world dungeonId m g (case pd_SelectedDungeons (player m g) of [] \<Rightarrow> 0 | r # rs \<Rightarrow> r))
    \<and> FinishDungeon world' quests' gguid dungeonId' m' = (m', [])"
proof -
  let ?m1 = "SetState gguid LFG_STATE_FINISHED_DUNGEON m"
  have players: "GetPlayers ?m1 gguid = GetPlayers m gguid"
    using assms(1) by (simp add: GetPlayers_def LfgGroupData_SetState_def Let_def)
  then have "fold (finish_player_dungeon world quests gguid dungeonId) (GetPlayers m gguid) (?m1, []) = (m', effects)"
    using assms(4-6) by (simp add: FinishDungeon_def)
  then have f: "finished_for world dungeonId (set (GetPlayers m gguid)) (?m1, []) (m', effects)"
    using finish_all [OF assms(2,3)] by metis
  have p: "player ?m1 = player m" using assms(1) by simp
  have due: "reward_due world dungeonId ?m1 = reward_due world dungeonId m" by (rule reward_due_frame) simp
  have states: "GetState x g = pd_State (player x g)" if "g \<in> set (GetPlayers m gguid)" for x g
    using that assms(2) by (simp add: GetState_def)
  have grp: "GetState m' gguid = LFG_STATE_FINISHED_DUNGEON" using f assms(1) by (simp add: finished_for_def GetState_def)
  have each: "length (quests_of g effects) \<le> 1 \<and> (quests_of g effects \<noteq> [] \<longrightarrow> g \<in> set (GetPlayers m gguid)
      \<and> GetState m g \<noteq> LFG_STATE_FINISHED_DUNGEON
      \<and> reward_due world dungeonId m g (case pd_SelectedDungeons (player m g) of [] \<Rightarrow> 0 | r # rs \<Rightarrow> r))" for g
    using f p due states [of g m] by (cases "g \<in> set (GetPlayers m gguid)") (auto simp: finished_for_def finished_player_def)
  have "\<forall>g \<in> set (GetPlayers m gguid). GetState m' g = LFG_STATE_FINISHED_DUNGEON"
    using f states by (simp add: finished_for_def finished_player_def)
  then show ?thesis using grp each by (simp add: FinishDungeon_def)
qed

definition demo_finishing :: LFGMgr where
  "demo_finishing =
     on_group 0x1F50000000000001 (\<lambda>d. d\<lparr>gd_State := LFG_STATE_DUNGEON, gd_Dungeon := 7, gd_Players := [5, 6]\<rparr>)
       (on_player 5 (\<lambda>d. d\<lparr>pd_State := LFG_STATE_DUNGEON, pd_SelectedDungeons := [258]\<rparr>)
         (on_player 6 (\<lambda>d. d\<lparr>pd_State := LFG_STATE_DUNGEON, pd_SelectedDungeons := [7]\<rparr>)
           (LoadRewards (\<lambda>_. True) 80 demo_rewards demo_loaded)))"

definition demo_inside :: "uint64 \<Rightarrow> finish_player option" where
  "demo_inside g = Some \<lparr>fp_mapId = 36, fp_level = 20, fp_canReward = (\<lambda>_. True)\<rparr>"

theorem finish_rewards_once_witness:
  "snd (FinishDungeon demo_inside (\<lambda>_. True) 0x1F50000000000001 7 demo_finishing) = [RewardQuest 5 102]
   \<and> snd (FinishDungeon demo_inside (\<lambda>_. True) 0x1F50000000000001 7
            (fst (FinishDungeon demo_inside (\<lambda>_. True) 0x1F50000000000001 7 demo_finishing))) = []"
proof -
  obtain m' effects where run: "FinishDungeon demo_inside (\<lambda>_. True) 0x1F50000000000001 7 demo_finishing = (m', effects)"
    by (cases "FinishDungeon demo_inside (\<lambda>_. True) 0x1F50000000000001 7 demo_finishing")
  have players: "GetPlayers demo_finishing 0x1F50000000000001 = [5, 6]" by code_simp
  have "IS_GROUP_GUID 0x1F50000000000001" "\<not> IS_GROUP_GUID 5" "\<not> IS_GROUP_GUID 6" by code_simp+
  moreover have "GetDungeon demo_finishing 0x1F50000000000001 True = 7" by code_simp
  moreover have "GetState demo_finishing 0x1F50000000000001 \<noteq> LFG_STATE_FINISHED_DUNGEON" by code_simp
  ultimately have "FinishDungeon demo_inside (\<lambda>_. True) 0x1F50000000000001 7 m' = (m', [])"
    using finish_rewards_once [of "0x1F50000000000001" demo_finishing 7 demo_inside "\<lambda>_. True" m' effects demo_inside "\<lambda>_. True" 7] players run
    by simp
  moreover have "snd (FinishDungeon demo_inside (\<lambda>_. True) 0x1F50000000000001 7 demo_finishing) = [RewardQuest 5 102]" by code_simp
  ultimately show ?thesis using run by simp
qed

section \<open>Teleports\<close>

lemma ucast_16_32_zero: "(ucast (x :: uint16) :: uint32) = 0 \<longleftrightarrow> x = 0"
  using unsigned_less [of x, where 'a = nat] by (simp add: word_unat_eq_iff unsigned_ucast_eq take_bit_nat_eq_self)

lemma select_inside_chosen: "fst pos \<noteq> 0 \<Longrightarrow> select_inside guid mapId members pos = pos"
  by (induction guid mapId members pos rule: select_inside.induct) auto

text \<open>
  Teleporting a player in: the loop that should select a member who is already inside runs only
  while no map has been chosen, and the map of the dungeon has been chosen before it.  So for every
  dungeon not on map 0 a player is sent to the entrance, wherever the other members are, and whether
  or not he asked for it himself.
\<close>

theorem teleport_ignores_members:
  assumes "GetLFGDungeon m (GetDungeon m (tg_guid grp) True) = Some d" "dd_map d \<noteq> 0"
  shows "TeleportPlayer m p (Some (grp\<lparr>tg_members := members\<rparr>)) out fromOpcode = TeleportPlayer m p (Some grp) out True
    \<and> (TeleportTo pos \<in> set (TeleportPlayer m p (Some grp) out fromOpcode)
        \<longrightarrow> pos = (ucast (dd_map d), dd_x d, dd_y d, dd_z d, dd_o d) \<and> \<not> out \<and> tp_alive p \<and> tp_mapId p \<noteq> ucast (dd_map d))"
proof -
  have "(ucast (dd_map d) :: uint32) \<noteq> 0" using assms(2) by (simp add: ucast_16_32_zero)
  then have "teleport_in p (grp\<lparr>tg_members := members\<rparr>) d b = teleport_in p grp d True" for b members
    by (simp add: teleport_in_def select_inside_chosen Let_def)
  moreover from this [of "tg_members grp"] have "teleport_in p grp d fromOpcode = teleport_in p grp d True" by simp
  ultimately show ?thesis using assms(1) by (auto simp: TeleportPlayer_def teleport_in_def Let_def split: if_splits)
qed

definition demo_traveller :: tele_player where
  "demo_traveller = \<lparr>tp_guid = 5, tp_mapId = 0, tp_alive = True, tp_falling = False, tp_fatigue = False, tp_vehicle = False,
     tp_charming = False, tp_inDungeon = False, tp_inFlight = False, tp_canTeleport = (\<lambda>_. True)\<rparr>"

definition demo_travel_group :: tele_group where
  "demo_travel_group = \<lparr>tg_guid = 0x1F50000000000001, tg_isLFG = True, tg_members = [(6, 36, -200, -600, 20, 1)]\<rparr>"

theorem teleport_ignores_members_witness:
  "TeleportPlayer demo_finishing demo_traveller (Some demo_travel_group) False False
     = [SetBattlegroundEntryPoint, TeleportTo (36, -16, -383, 62, 2)]"
proof -
  have "GetLFGDungeon demo_finishing (GetDungeon demo_finishing 0x1F50000000000001 True) \<noteq> None
    \<and> dd_map (the (GetLFGDungeon demo_finishing (GetDungeon demo_finishing 0x1F50000000000001 True))) = 36" by code_simp
  then obtain d where d: "GetLFGDungeon demo_finishing (GetDungeon demo_finishing (tg_guid demo_travel_group) True) = Some d" "dd_map d = 36"
    by (auto simp: demo_travel_group_def)
  have "TeleportPlayer demo_finishing demo_traveller (Some (demo_travel_group\<lparr>tg_members := []\<rparr>)) False True
     = [SetBattlegroundEntryPoint, TeleportTo (36, -16, -383, 62, 2)]" by code_simp
  moreover have "TeleportPlayer demo_finishing demo_traveller (Some (demo_travel_group\<lparr>tg_members := members\<rparr>)) False b
    = TeleportPlayer demo_finishing demo_traveller (Some demo_travel_group) False True" for members b
    using teleport_ignores_members [OF d(1), THEN conjunct1] d(2) by auto
  moreover have "demo_travel_group\<lparr>tg_members := tg_members demo_travel_group\<rparr> = demo_travel_group" by simp
  ultimately show ?thesis by metis
qed


section \<open>The invariant of the manager\<close>

lemma inv_tables [simp]:
  "mgr_inv X E (m\<lparr>LfgDungeonStore := a\<rparr>) = mgr_inv X E m" "mgr_inv X E (m\<lparr>CachedDungeonMapStore := b\<rparr>) = mgr_inv X E m"
  "mgr_inv X E (m\<lparr>RewardMapStore := c\<rparr>) = mgr_inv X E m" "mgr_inv X E (m\<lparr>m_options := d\<rparr>) = mgr_inv X E m"
  by (simp_all add: mgr_inv_defs player_def group_data_def the_queue_def)

lemma inv_InitializeLockedDungeons [simp]: "mgr_inv X E m \<Longrightarrow> mgr_inv X E (InitializeLockedDungeons e g m)"
  by (simp add: InitializeLockedDungeons_def)

lemma inv_LoadLFGDungeons [simp]:
  assumes "mgr_inv X E m"
  shows "mgr_inv X E (LoadLFGDungeons dbc rows triggers locks reload m)"
proof -
  have "mgr_inv X E (place_dungeon triggers e m)" if "mgr_inv X E m" for e m
    using that by (simp add: place_dungeon_def split: option.split)
  then have "mgr_inv X E (fold (place_dungeon triggers) es m)" if "mgr_inv X E m" for es m
    using that by (intro inv_fold)
  moreover have "mgr_inv X E (relock_players locks m)" if "mgr_inv X E m" for m
    unfolding relock_players_def using that by (intro inv_fold) (simp_all split: option.split)
  ultimately show ?thesis using assms by (simp add: LoadLFGDungeons_def Let_def)
qed

lemma inv_LoadRewards [simp]:
  assumes "mgr_inv X E m"
  shows "mgr_inv X E (LoadRewards quests n rows m)"
proof -
  have "mgr_inv X E (load_reward quests n row m)" if "mgr_inv X E m" for row m
    using that by (simp add: load_reward_def Let_def split: prod.split)
  then show ?thesis unfolding LoadRewards_def using assms by (intro inv_fold) simp_all
qed

lemma inv_finish_player [simp]:
  assumes "mgr_inv X E (fst st)"
  shows "mgr_inv X E (fst (finish_player_dungeon world quests gguid dungeonId guid st))"
proof -
  have "mgr_inv X E (fst (reward_player world quests gguid dungeonId guid r m))" if "mgr_inv X E m" for r m
    using reward_player_result [of world quests gguid dungeonId guid r m] that by auto
  then show ?thesis using assms by (simp add: finish_player_dungeon_def Let_def split: prod.split) (metis fst_conv inv_setters(1))
qed

lemma inv_FinishDungeon [simp]:
  assumes "mgr_inv X E m"
  shows "mgr_inv X E (fst (FinishDungeon world quests gguid dungeonId m))"
proof -
  have "mgr_inv X E (fst (fold (finish_player_dungeon world quests gguid dungeonId) ps st))" if "mgr_inv X E (fst st)" for ps st
    using that by (induction ps arbitrary: st) simp_all
  then show ?thesis using assms by (simp add: FinishDungeon_def Let_def)
qed

lemma inv_Clean [simp]: "mgr_inv X none m \<Longrightarrow> mgr_inv X none (LFGMgr_Clean m)"
  by (simp add: mgr_inv_defs player_def group_data_def the_queue_def LFGMgr_Clean_def map_at_def queue_ok_none
      entries_ok_def solo_ok_def LFGQueue0_def queue_data_def)

lemma inv_SetOptions [simp]: "mgr_inv X E (SetOptions n m) = mgr_inv X E m"
  by (simp add: SetOptions_def)


section \<open>Persistence of groups\<close>

text \<open>The row of a group: the counter of its leader, and what was saved last.\<close>

definition saved_row :: "uint32 \<Rightarrow> lfg_stmt list \<Rightarrow> (uint32 \<times> uint32 \<times> LfgState) option" where
  "saved_row leader stmts = (case stmts of [CHAR_DEL_LFG_DATA n, CHAR_INS_LFG_DATA n' dungeon state] \<Rightarrow> Some (leader, dungeon, state) | _ \<Rightarrow> None)"

text \<open>
  A group in a dungeon that is saved and loaded again has the same dungeon identifier and state.
  Its dungeon entry is not restored: the identifier is saved without the type in the upper byte.
\<close>

theorem group_saved_and_loaded:
  assumes "IS_GROUP_GUID gguid" "GetState m gguid \<in> {LFG_STATE_DUNGEON, LFG_STATE_FINISHED_DUNGEON}"
    and "GetDungeon m gguid True \<noteq> 0"
    and "m' = LoadFromDB (saved_row leader (drop (length (m_db m)) (m_db (SaveToDB gguid n m)))) gguid m0"
  shows "GetDungeon m' gguid True = GetDungeon m gguid True \<and> GetState m' gguid = GetState m gguid
    \<and> GetDungeon m' gguid False = GetDungeon m gguid False AND 0x00FFFFFF"
proof -
  have "drop (length (m_db m)) (m_db (SaveToDB gguid n m)) = [CHAR_DEL_LFG_DATA n, CHAR_INS_LFG_DATA n (GetDungeon m gguid True) (GetState m gguid)]"
    using assms(1) by (simp add: SaveToDB_def)
  then have "m' = LoadFromDB (Some (leader, GetDungeon m gguid True, GetState m gguid)) gguid m0"
    using assms(4) by (simp add: saved_row_def)
  then show ?thesis using assms(1-3)
    by (auto simp: LoadFromDB_def GetDungeon_def SetDungeon_def GetState_def SetState_def LfgGroupData_GetDungeon_def
        LfgGroupData_SetState_def Let_def and.assoc)
qed

theorem group_saved_and_loaded_witness:
  "GetDungeon (LoadFromDB (saved_row 5 (drop (length (m_db (SetDungeon 0x1F50000000000001 0x01000007 demo_finishing)))
      (m_db (SaveToDB 0x1F50000000000001 1 (SetDungeon 0x1F50000000000001 0x01000007 demo_finishing))))) 0x1F50000000000001 demo_loaded)
     0x1F50000000000001 False = 7"
proof -
  let ?m = "SetDungeon 0x1F50000000000001 0x01000007 demo_finishing"
  have a: "IS_GROUP_GUID 0x1F50000000000001" by code_simp
  have b: "GetState ?m 0x1F50000000000001 \<in> {LFG_STATE_DUNGEON, LFG_STATE_FINISHED_DUNGEON}" by code_simp
  have c: "GetDungeon ?m 0x1F50000000000001 True \<noteq> 0" by code_simp
  have d: "GetDungeon ?m 0x1F50000000000001 False AND 0x00FFFFFF = 7" by code_simp
  show ?thesis using group_saved_and_loaded [OF a b c refl, of 5 1 demo_loaded] unfolding d by blast
qed


end
