(* ===== verification/LFGOutcomes.thy ===== *)
theory LFGOutcomes
  imports LFGDungeons
begin

text \<open>
  What the handlers of the dungeon finder's manager achieve: the manager as a transition system whose
  reachable states satisfy the invariant of \<open>LFGStates\<close>, the outcome of role checks, failed proposals
  and votes for every player involved, and the dungeons a group may enter.
\<close>

section \<open>The manager as a transition system\<close>

definition lm_init :: "LFGMgr \<times> 'w \<Rightarrow> bool" where
  "lm_init mw \<longleftrightarrow> (\<exists>options cached dungeons.
     fst mw = (LFGMgr_new options)\<lparr>CachedDungeonMapStore := cached, LfgDungeonStore := dungeons\<rparr>)"

text \<open>
  The entry points of the manager: the scripts, the opcode handlers and the world's update, with
  whatever roles and dungeons the client sends.  Players and groups have GUIDs of their kinds
  (\<open>join_ok\<close>), role checks have fewer than 250 members (\<open>join_ok\<close>, \<open>check_small\<close>), random numbers are
  within their bounds, and groups reach the manager through the scripts.
\<close>

inductive lm_step :: "'w lfg_groups \<Rightarrow> LFGMgr \<times> 'w \<Rightarrow> LFGMgr \<times> 'w \<Rightarrow> bool" for G :: "'w lfg_groups" where
  script: "script_step m m' \<Longrightarrow> lm_step G (m, w) (m', w')"
| role: "check_small m gguid \<Longrightarrow> lm_step G (m, w) (UpdateRoleCheck env gguid guid roles m, w)"
| join: "join_ok m self party \<Longrightarrow> lm_step G (m, w) (JoinLfg env self party roles dungeons comment m, w)"
| leave: "LeaveLfg env guid m = Inr m' \<Longrightarrow> lm_step G (m, w) (m', w)"
| answer: "through_scripts G \<Longrightarrow> UpdateProposal G env n guid accept (m, w) = Inr mw \<Longrightarrow> lm_step G (m, w) mw"
| vote: "through_scripts G \<Longrightarrow> lm_step G (m, w) (UpdateBoot G env guid accept (m, w))"
| update: "random_ok env \<Longrightarrow> LFGMgr_Update G env diff (m, w) = Inr mw \<Longrightarrow> lm_step G (m, w) mw"
| login: "lm_step G (m, w) (OnLogin env e guid grp m, w)"
| logout: "OnLogout env guid inGroup m = Inr m' \<Longrightarrow> lm_step G (m, w) (m', w)"
| level: "lm_step G (m, w) (OnLevelChanged e guid m, w)"
| bind: "lm_step G (m, w) (OnBindToInstance e isDungeon guid difficulty m, w)"
| map: "OnMapChanged env guid mapId difficulty grp m = Inr (m', effects) \<Longrightarrow> lm_step G (m, w) (m', w)"
| finish: "lm_step G (m, w) (fst (FinishDungeon world quests gguid dungeonId m), w)"
| dungeons: "lm_step G (m, w) (LoadLFGDungeons dbc rows triggers locks reload m, w)"
| rewards: "lm_step G (m, w) (LoadRewards quests level reward_rows m, w)"
| clean: "lm_step G (m, w) (LFGMgr_Clean m, w)"
| options: "lm_step G (m, w) (SetOptions n m, w)"
| comment: "lm_step G (m, w) (SetComment guid c m, w)"
| load: "lm_step G (m, w) (LoadFromDB row guid m, w)"
| save: "lm_step G (m, w) (SaveToDB guid n m, w)"

inductive_cases lm_stepE: "lm_step G mw mw'"

lemma init_inv: "lm_init mw \<Longrightarrow> mgr_inv {} none (fst mw)"
  by (auto simp: lm_init_def LFGMgr_new_def mgr_inv_defs player_def group_data_def the_queue_def map_at_def
      queue_ok_def LFGQueue0_def queue_data_def)

lemma Update_keeps:
  assumes "mgr_inv {} none m" "random_ok env" "LFGMgr_Update G env diff (m, w) = Inr mw"
  shows "mgr_inv {} none (fst mw)"
proof (cases "isOptionEnabled LFG_OPTIONS_ENABLED m")
  case True
  from Update_result [OF assms(1,2) True, of G diff w] assms(3) show ?thesis by auto
qed (use assms in \<open>auto simp: LFGMgr_Update_def\<close>)

lemma step_inv:
  assumes "mgr_inv {} none (fst mw)" "lm_step G mw mw'"
  shows "mgr_inv {} none (fst mw')"
  using assms(2,1)
proof cases
  case (logout env guid inGroup m m' w)
  then show ?thesis using assms(1) inv_LeaveLfg [of "{}" none "m\<lparr>m_sent := m_sent m @ [(guid, MsgLfrList False)]\<rparr>" env guid m']
    by (auto simp: OnLogout_def split: if_splits)
next
  case (map env guid mapId difficulty grp m m' effects w)
  then show ?thesis using assms(1) inv_LeaveLfg
    by (auto simp: OnMapChanged_def bindE_def split: if_splits option.splits sum.splits)
qed (use assms(1) in \<open>auto intro: inv_script_step inv_UpdateRoleCheck inv_JoinLfg inv_LeaveLfg inv_UpdateProposal inv_UpdateBoot Update_keeps
      simp: OnLevelChanged_def OnBindToInstance_def\<close>)

interpretation lm: invariant_system lm_init "lm_step G" "\<lambda>mw. mgr_inv {} none (fst mw)" for G :: "'w lfg_groups"
  by unfold_locales (auto intro: init_inv step_inv)

section \<open>Outcomes for the players\<close>

text \<open>A loop in which every turn changes the data of its own player only.\<close>

lemma fold_own:
  assumes "\<And>e m. e \<in> set es \<Longrightarrow> F (h e m) = (F m)(fst e := f e (F m (fst e)))" "distinct (map fst es)"
  shows "F (fold h es m) x = (case map_of es x of None \<Rightarrow> F m x | Some v \<Rightarrow> f (x, v) (F m x))"
  using assms
proof (induction es arbitrary: m)
  case (Cons e es)
  have step: "F (h e m) = (F m)(fst e := f e (F m (fst e)))" by (rule Cons.prems(1)) simp
  have "F (fold h es (h e m)) x = (case map_of es x of None \<Rightarrow> F (h e m) x | Some v \<Rightarrow> f (x, v) (F (h e m) x))"
    using Cons.prems by (intro Cons.IH) auto
  moreover have "map_of es (fst e) = None" using Cons.prems(2) by (simp add: map_of_eq_None_iff)
  ultimately show ?case using step by (cases e) (auto split: option.split)
qed simp

lemma fold_unchanged: "(\<And>e m. e \<in> set es \<Longrightarrow> F (h e m) = F m) \<Longrightarrow> F (fold h es m) = F m"
  by (induction es arbitrary: m) auto

subsection \<open>Failed proposals\<close>

text \<open>Players have player GUIDs and came alone or with a group.\<close>

definition players_typed :: "LfgProposal \<Rightarrow> bool" where
  "players_typed p \<longleftrightarrow> (\<forall>e \<in> set (pr_players p). \<not> IS_GROUP_GUID (fst e) \<and> (pp_group (snd e) = 0 \<or> IS_GROUP_GUID (pp_group (snd e))))"

text \<open>
  The entries that leave the queue: those of players who refused and, when the time is over
  (\<^verbatim>\<open>LFG_UPDATETYPE_PROPOSAL_FAILED\<close>), of players who have not answered.
\<close>

definition refused :: "LfgUpdateType \<Rightarrow> LfgProposal \<Rightarrow> uint64 set" where
  "refused type p = queue_guid ` {e \<in> set (pr_players p). pp_accept (snd e) = LFG_ANSWER_DENY
     \<or> type = LFG_UPDATETYPE_PROPOSAL_FAILED \<and> pp_accept (snd e) = LFG_ANSWER_PENDING}"

definition mark_refused :: "LfgUpdateType \<Rightarrow> uint64 \<times> LfgProposalPlayer \<Rightarrow> uint64 \<times> LfgProposalPlayer" where
  "mark_refused type e = (fst e, (snd e)\<lparr>pp_accept := if type = LFG_UPDATETYPE_PROPOSAL_FAILED \<and> pp_accept (snd e) = LFG_ANSWER_PENDING
     then LFG_ANSWER_DENY else pp_accept (snd e)\<rparr>)"

lemma mark_refused [simp]:
  "fst (mark_refused type e) = fst e" "queue_guid (mark_refused type e) = queue_guid e"
  "pp_group (snd (mark_refused type e)) = pp_group (snd e)"
  "pp_accept (snd (mark_refused type e)) = LFG_ANSWER_DENY \<longleftrightarrow> pp_accept (snd e) = LFG_ANSWER_DENY
     \<or> type = LFG_UPDATETYPE_PROPOSAL_FAILED \<and> pp_accept (snd e) = LFG_ANSWER_PENDING"
  by (auto simp: mark_refused_def queue_guid_def)

lemma failed_players: "pr_players (failed_proposal type p) = map (mark_refused type) (pr_players p)"
  "pr_queues (failed_proposal type p) = pr_queues p"
  by (simp_all add: failed_proposal_def on_answers_def mark_refused_def)

lemma to_remove_refused: "set (to_remove (failed_proposal type p)) = refused type p"
  unfolding to_remove_def failed_players refused_def filter_map map_map set_set_of_list set_map set_filter
  by (rule image_cong) (simp_all add: comp_def)

lemma player_notify_failed:
  assumes "\<not> IS_GROUP_GUID (fst e)" "pp_group (snd e) = 0 \<or> IS_GROUP_GUID (pp_group (snd e))"
  shows "player (notify_failed env type p removed e m) = (player m)(fst e :=
    (if queue_guid e \<in> set removed then LfgPlayerData_RestoreState (player m (fst e))
     else LfgPlayerData_SetState LFG_STATE_QUEUED (player m (fst e))))"
  using assms by (auto simp: notify_failed_def Let_def queue_guid_def)

lemma RemoveProposal_players:
  assumes "players_typed p" "distinct (map fst (pr_players p))" "(x, pp) \<in> set (pr_players p)"
  shows "player (fold (notify_failed env type q (to_remove (failed_proposal type p))) (pr_players (failed_proposal type p)) m) x
    = (if queue_guid (x, pp) \<in> refused type p then LfgPlayerData_RestoreState (player m x)
       else LfgPlayerData_SetState LFG_STATE_QUEUED (player m x))"
proof -
  let ?es = "pr_players (failed_proposal type p)"
  have keys: "map fst ?es = map fst (pr_players p)" by (simp add: failed_players comp_def)
  have typed: "\<not> IS_GROUP_GUID (fst e) \<and> (pp_group (snd e) = 0 \<or> IS_GROUP_GUID (pp_group (snd e)))" if "e \<in> set ?es" for e
    using assms(1) that by (auto simp: players_typed_def failed_players)
  define pp' where "pp' = snd (mark_refused type (x, pp))"
  have pp': "(x, pp') \<in> set ?es" "pp_group pp' = pp_group pp"
  proof -
    have "mark_refused type (x, pp) = (x, pp')" by (simp add: pp'_def prod_eq_iff)
    with assms(3) show "(x, pp') \<in> set ?es" unfolding failed_players set_map by (metis imageI)
    show "pp_group pp' = pp_group pp" by (simp add: pp'_def)
  qed
  have "map_of ?es x = Some pp'" using pp'(1) assms(2) keys by (metis map_of_eq_Some_iff)
  moreover have "player (fold (notify_failed env type q (to_remove (failed_proposal type p))) ?es m) x
    = (case map_of ?es x of None \<Rightarrow> player m x | Some v \<Rightarrow>
        (if queue_guid (x, v) \<in> set (to_remove (failed_proposal type p)) then LfgPlayerData_RestoreState (player m x)
         else LfgPlayerData_SetState LFG_STATE_QUEUED (player m x)))"
    by (rule fold_own [where f = "\<lambda>e d. if queue_guid e \<in> set (to_remove (failed_proposal type p)) then LfgPlayerData_RestoreState d
         else LfgPlayerData_SetState LFG_STATE_QUEUED d"])
      (use typed player_notify_failed keys assms(2) in auto)
  ultimately show ?thesis using pp'(2) by (simp add: to_remove_refused queue_guid_def)
qed

lemma fold_removeAll: "fold removeAll rs gs = filter (\<lambda>g. g \<notin> set rs) gs"
  by (induction rs arbitrary: gs) (auto simp: removeAll_filter_not_eq intro!: filter_cong)

lemma AddToQueue_new: "queue_data s g \<noteq> None \<Longrightarrow> newToQueueStore (AddToQueue g s) = newToQueueStore s @ [g]"
  "queue_data s g = None \<Longrightarrow> AddToQueue g s = s"
  by (auto simp: AddToQueue_def AddToNewQueue_def queue_data_def)

lemma fold_AddToQueue_new:
  "set (newToQueueStore (fold AddToQueue gs s)) = set (newToQueueStore s) \<union> {g \<in> set gs. queue_data s g \<noteq> None}"
proof (induction gs arbitrary: s)
  case (Cons g gs)
  have "queue_data (AddToQueue g s) = queue_data s" by simp
  with Cons [of "AddToQueue g s"] AddToQueue_new [of s g] show ?case by (cases "queue_data s g = None") auto
qed simp

lemma fold_RemoveFromQueue:
  "queue_data (fold RemoveFromQueue gs s) = (\<lambda>g. if g \<in> set gs then None else queue_data s g)"
  by (induction gs arbitrary: s) (auto simp: queue_data_RemoveFromQueue fun_eq_iff)

lemma failed_proposal_result:
  assumes "map_of (ProposalsStore m) n = Some p" "players_typed p" "distinct (map fst (pr_players p))" "pr_players p = (first, pp1) # ps"
  obtains m' where "RemoveProposal env n type m = Inr m'" "map_of (ProposalsStore m') n = None"
    "\<And>x pp. (x, pp) \<in> set (pr_players p) \<Longrightarrow>
       GetState m' x = (if queue_guid (x, pp) \<in> refused type p then GetOldState m x else LFG_STATE_QUEUED)"
    "the_queue m' (queueId m first) = fold AddToQueue (filter (\<lambda>g. g \<notin> refused type p) (pr_queues p))
       (fold RemoveFromQueue (to_remove (failed_proposal type p)) (the_queue m (queueId m first)))"
proof -
  define R where "R = to_remove (failed_proposal type p)"
  have R: "set R = refused type p" unfolding R_def by (rule to_remove_refused)
  define m1 where "m1 = fold (notify_failed env type (failed_proposal type p) R) (pr_players (failed_proposal type p)) m"
  define m2 where "m2 = on_queue (queueId m1 first) (\<lambda>s. fold AddToQueue (fold removeAll R (pr_queues p)) (fold RemoveFromQueue R s)) m1"
  define m3 where "m3 = m2\<lparr>ProposalsStore := map_erase n (ProposalsStore m2)\<rparr>"
  have single: "\<not> IS_GROUP_GUID x" if "(x, pp) \<in> set (pr_players p)" for x pp
    using assms(2) that by (auto simp: players_typed_def)
  have data: "player m1 x = (if queue_guid (x, pp) \<in> refused type p then LfgPlayerData_RestoreState (player m x)
       else LfgPlayerData_SetState LFG_STATE_QUEUED (player m x))" if "(x, pp) \<in> set (pr_players p)" for x pp
    unfolding m1_def R_def by (rule RemoveProposal_players [OF assms(2,3) that])
  have first: "(first, pp1) \<in> set (pr_players p)" using assms(4) by simp
  have q: "queueId m1 first = queueId m first" using single [OF first] data [OF first] by (simp add: queueId_def)
  have "RemoveProposal env n type m = Inr m3"
    using assms(1,4) by (simp add: RemoveProposal_def Let_def m3_def m2_def m1_def R_def failed_players mark_refused_def)
  moreover have "map_of (ProposalsStore m3) n = None" by (simp add: m3_def)
  moreover have "GetState m3 x = (if queue_guid (x, pp) \<in> refused type p then GetOldState m x else LFG_STATE_QUEUED)"
    if "(x, pp) \<in> set (pr_players p)" for x pp
    using single [OF that] data [OF that] by (simp add: m3_def m2_def GetState_def GetOldState_def)
  moreover have "the_queue m3 (queueId m first) = fold AddToQueue (filter (\<lambda>g. g \<notin> refused type p) (pr_queues p))
       (fold RemoveFromQueue (to_remove (failed_proposal type p)) (the_queue m (queueId m first)))"
  proof -
    have "the_queue m1 = the_queue m" unfolding m1_def by (simp add: lfg_frame)
    then show ?thesis by (simp add: m3_def m2_def q fold_removeAll R R_def [symmetric])
  qed
  ultimately show thesis by (rule that)
qed

subsection \<open>Role checks\<close>

text \<open>What a role check in a given state makes of a member's data.\<close>

definition role_outcome :: "LfgRoleCheckState \<Rightarrow> uint8 \<Rightarrow> LfgPlayerData \<Rightarrow> LfgPlayerData" where
  "role_outcome st r d = (case st of LFG_ROLECHECK_INITIALITING \<Rightarrow> d
     | LFG_ROLECHECK_FINISHED \<Rightarrow> (LfgPlayerData_SetState LFG_STATE_QUEUED d)\<lparr>pd_Roles := r\<rparr>
     | _ \<Rightarrow> LfgPlayerData_RestoreState d)"

lemma role_check_member_data:
  assumes "\<not> IS_GROUP_GUID (fst e)"
  shows "player (role_check_member env b guid roles rc ds e m) = (player m)(fst e :=
      role_outcome (rc_state rc) (snd e) (player m (fst e)))"
    and "group_data (role_check_member env b guid roles rc ds e m) = group_data m"
  using assms by (cases e; simp add: role_check_member_def role_outcome_def Let_def fun_upd_idem split: LfgRoleCheckState.split)+

lemma role_check_members_data:
  assumes "\<forall>e \<in> set es. \<not> IS_GROUP_GUID (fst e)" "distinct (map fst es)"
  shows "player (fold (role_check_member env b guid roles rc ds) es m) x =
      (case map_of es x of None \<Rightarrow> player m x | Some r \<Rightarrow> role_outcome (rc_state rc) r (player m x))"
    and "group_data (fold (role_check_member env b guid roles rc ds) es m) = group_data m"
proof -
  show "player (fold (role_check_member env b guid roles rc ds) es m) x =
      (case map_of es x of None \<Rightarrow> player m x | Some r \<Rightarrow> role_outcome (rc_state rc) r (player m x))"
    by (rule fold_own [where f = "\<lambda>e. role_outcome (rc_state rc) (snd e)", unfolded snd_conv])
      (use assms role_check_member_data in auto)
  show "group_data (fold (role_check_member env b guid roles rc ds) es m) = group_data m"
    by (rule fold_unchanged) (use assms role_check_member_data in auto)
qed

text \<open>The manager after an answer, without the table of role checks.\<close>

lemma UpdateRoleCheck_parts:
  assumes "map_of (RoleChecksStore m) gguid = Some rc" "gguid \<noteq> 0" "IS_GROUP_GUID gguid" "rc' = role_chosen guid roles rc"
    and "\<forall>e \<in> set (rc_roles rc'). \<not> IS_GROUP_GUID (fst e)" "distinct (map fst (rc_roles rc'))"
  obtains m1 where "\<And>x. player m1 x = (case map_of (rc_roles rc') x of None \<Rightarrow> player m x | Some r \<Rightarrow> role_outcome (rc_state rc') r (player m x))"
    "group_data m1 = group_data m" "the_queue m1 = the_queue m" "RoleChecksStore m1 = RoleChecksStore m"
    "UpdateRoleCheck env gguid guid roles m =
       (if rc_state rc' = LFG_ROLECHECK_FINISHED
        then (on_queue (queueId (SetState gguid LFG_STATE_QUEUED m1) gguid) (AddQueueData gguid (me_now env) (rc_dungeons rc') (rc_roles rc'))
                (SetState gguid LFG_STATE_QUEUED m1))\<lparr>RoleChecksStore := map_erase gguid (RoleChecksStore m)\<rparr>
        else if rc_state rc' \<noteq> LFG_ROLECHECK_INITIALITING
        then (RestoreState gguid m1)\<lparr>RoleChecksStore := map_erase gguid (RoleChecksStore m)\<rparr>
        else m1\<lparr>RoleChecksStore := map_put gguid rc' (RoleChecksStore m)\<rparr>)"
proof -
  define ds where "ds = (if rc_rDungeonId rc' \<noteq> 0 then [rc_rDungeonId rc'] else rc_dungeons rc')"
  define b where "b \<longleftrightarrow> rc_state rc \<noteq> LFG_ROLECHECK_DEFAULT \<and> guid \<noteq> 0"
  define m1 where "m1 = fold (role_check_member env b guid roles rc' ds) (rc_roles rc') m"
  have frame: "RoleChecksStore m1 = RoleChecksStore m" unfolding m1_def by (simp add: lfg_frame)
  moreover have "the_queue (role_check_member env b guid roles rc' ds e m) = the_queue m" for e m
    by (simp add: role_check_member_def Let_def SetRoles_def lfg_frame split: prod.split LfgRoleCheckState.split)
  then have "the_queue m1 = the_queue m" unfolding m1_def by (rule fold_frame(5))
  moreover have "UpdateRoleCheck env gguid guid roles m =
       (if rc_state rc' = LFG_ROLECHECK_FINISHED
        then (on_queue (queueId (SetState gguid LFG_STATE_QUEUED m1) gguid) (AddQueueData gguid (me_now env) (rc_dungeons rc') (rc_roles rc'))
                (SetState gguid LFG_STATE_QUEUED m1))\<lparr>RoleChecksStore := map_erase gguid (RoleChecksStore m)\<rparr>
        else if rc_state rc' \<noteq> LFG_ROLECHECK_INITIALITING
        then (RestoreState gguid m1)\<lparr>RoleChecksStore := map_erase gguid (RoleChecksStore m)\<rparr>
        else m1\<lparr>RoleChecksStore := map_put gguid rc' (RoleChecksStore m)\<rparr>)"
    using assms(1,2) by (simp add: UpdateRoleCheck_def Let_def assms(4) [symmetric] ds_def [symmetric] b_def [symmetric]
        members_put_checks put_checks_first m1_def [symmetric] map_erase_put tables_frame set_state_frame frame)
  ultimately show thesis
    using that role_check_members_data [OF assms(5,6), of env b guid roles rc' ds m] unfolding m1_def [symmetric] by blast
qed

subsection \<open>Votes\<close>

definition votes_for :: "LfgAnswer \<Rightarrow> LfgPlayerBoot \<Rightarrow> nat" where
  "votes_for a boot = length (filter (\<lambda>e. snd e = a) (pb_votes boot))"

lemma count_votes_nat:
  assumes "length (pb_votes boot) < 256"
  shows "unat (count_votes P boot) = length (filter (\<lambda>e. P (snd e)) (pb_votes boot))"
  using le_less_trans [OF length_filter_le assms] by (simp add: count_votes_def unat_of_nat)

lemma votes_split: "length (filter (\<lambda>e. snd e \<noteq> LFG_ANSWER_PENDING) vs)
    = length (filter (\<lambda>e. snd e = LFG_ANSWER_AGREE) vs) + length (filter (\<lambda>e. snd e = LFG_ANSWER_DENY) vs)"
proof (induction vs)
  case (Cons e vs)
  then show ?case by (cases "snd e") auto
qed simp

lemma vote_numbers:
  assumes "length (pb_votes boot) < 256"
  shows "count_votes (\<lambda>a. a = LFG_ANSWER_AGREE) boot = LFG_GROUP_KICK_VOTES_NEEDED \<longleftrightarrow> votes_for LFG_ANSWER_AGREE boot = 3"
    and "count_votes (\<lambda>a. a = LFG_ANSWER_AGREE) boot < LFG_GROUP_KICK_VOTES_NEEDED
      \<and> unat (count_votes (\<lambda>a. a \<noteq> LFG_ANSWER_PENDING) boot) - unat (count_votes (\<lambda>a. a = LFG_ANSWER_AGREE) boot) < unat LFG_GROUP_KICK_VOTES_NEEDED
      \<longleftrightarrow> votes_for LFG_ANSWER_AGREE boot < 3 \<and> votes_for LFG_ANSWER_DENY boot < 3"
  using count_votes_nat [OF assms] votes_split [of "pb_votes boot"]
  by (simp_all add: word_unat_eq_iff word_less_nat_alt votes_for_def)

text \<open>\<^verbatim>\<open>operator[]\<close> may enter a refusal for a player who is not in the vote.\<close>

lemma touched_votes:
  "map_wf vs \<Longrightarrow> length (filter (\<lambda>e. snd e = LFG_ANSWER_AGREE) (map_modify LFG_ANSWER_DENY (\<lambda>a. a) k vs))
    = length (filter (\<lambda>e. snd e = LFG_ANSWER_AGREE) vs)"
proof (cases "map_of vs k")
  case None
  have "map_of vs k = None \<Longrightarrow> filter (\<lambda>e. snd e = LFG_ANSWER_AGREE) (map_put k LFG_ANSWER_DENY vs) = filter (\<lambda>e. snd e = LFG_ANSWER_AGREE) vs"
    by (induction vs) auto
  with None show ?thesis by (simp add: map_modify_def map_at_def)
next
  case (Some a)
  have "map_wf vs \<Longrightarrow> map_of vs k = Some a \<Longrightarrow> map_put k a vs = vs"
  proof (induction vs)
    case (Cons e vs)
    then have "fst e < k" if "fst e \<noteq> k" using that map_of_SomeD [of vs k a] by (cases e) auto
    with Cons show ?case by (cases e) auto
  qed simp
  with Some show "map_wf vs \<Longrightarrow> ?thesis" by (simp add: map_modify_def map_at_def)
qed

text \<open>The players of a vote have player GUIDs; their number fits a byte.\<close>

definition vote_typed :: "LfgPlayerBoot \<Rightarrow> bool" where
  "vote_typed boot \<longleftrightarrow> map_wf (pb_votes boot) \<and> length (pb_votes boot) < 256 \<and> (\<forall>e \<in> set (pb_votes boot). \<not> IS_GROUP_GUID (fst e))"

lemma finish_boot_parts:
  assumes "vote_typed boot" "IS_GROUP_GUID gguid"
  obtains m1 where "\<And>x. player m1 x = (if map_of (pb_votes boot) x \<noteq> None \<and> x \<noteq> pb_victim boot
      then LfgPlayerData_SetState LFG_STATE_DUNGEON (player m x) else player m x)"
    "finish_boot G env gguid boot n (m, w) =
      (if n = LFG_GROUP_KICK_VOTES_NEEDED
       then let (m2, w2) = (if lg_exists G w gguid then lg_RemoveMember G gguid (pb_victim boot) GROUP_REMOVEMETHOD_KICK_LFG (m1, w) else (m1, w));
                m2 = DecreaseKicksLeft gguid m2
            in (m2\<lparr>BootsStore := map_erase gguid (BootsStore m2)\<rparr>, w2)
       else (m1\<lparr>BootsStore := map_erase gguid (BootsStore m1)\<rparr>, w))"
proof -
  define b where "b = boot\<lparr>pb_inProgress := False\<rparr>"
  define h where "h = (\<lambda>(e :: uint64 \<times> LfgAnswer) m. if fst e \<noteq> pb_victim b
    then send env (fst e) (MsgBootProposalUpdate b) (SetState (fst e) LFG_STATE_DUNGEON m) else m)"
  define m1 where "m1 = SetState gguid LFG_STATE_DUNGEON (fold h (pb_votes b) m)"
  have own: "player (fold h (pb_votes b) m) x = (case map_of (pb_votes b) x of None \<Rightarrow> player m x
      | Some v \<Rightarrow> (if x \<noteq> pb_victim b then LfgPlayerData_SetState LFG_STATE_DUNGEON (player m x) else player m x))" for x
    by (rule fold_own [where f = "\<lambda>e d. if fst e \<noteq> pb_victim b then LfgPlayerData_SetState LFG_STATE_DUNGEON d else d", unfolded fst_conv])
      (use assms(1) in \<open>auto simp: h_def b_def vote_typed_def fun_upd_idem map_wf_distinct\<close>)
  have "player m1 x = (if map_of (pb_votes boot) x \<noteq> None \<and> x \<noteq> pb_victim boot
      then LfgPlayerData_SetState LFG_STATE_DUNGEON (player m x) else player m x)" for x
    using own [of x] assms(2) by (auto simp: m1_def b_def split: option.splits)
  moreover have "finish_boot G env gguid boot n (m, w) =
      (if n = LFG_GROUP_KICK_VOTES_NEEDED
       then let (m2, w2) = (if lg_exists G w gguid then lg_RemoveMember G gguid (pb_victim boot) GROUP_REMOVEMETHOD_KICK_LFG (m1, w) else (m1, w));
                m2 = DecreaseKicksLeft gguid m2
            in (m2\<lparr>BootsStore := map_erase gguid (BootsStore m2)\<rparr>, w2)
       else (m1\<lparr>BootsStore := map_erase gguid (BootsStore m1)\<rparr>, w))"
    unfolding finish_boot_def prod.case Let_def b_def [symmetric] h_def [symmetric] m1_def [symmetric]
    by (simp add: b_def split_beta)
  ultimately show thesis by (rule that)
qed

lemma UpdateBoot_vote:
  assumes "GetGroup m guid = g" "g \<noteq> 0" "map_of (BootsStore m) g = Some boot" "map_of (pb_votes boot) guid = Some LFG_ANSWER_PENDING"
    and "vote_typed boot" "boot' = boot\<lparr>pb_votes := map_put guid (if accept then LFG_ANSWER_AGREE else LFG_ANSWER_DENY) (pb_votes boot)\<rparr>"
  shows "UpdateBoot G env guid accept (m, w) =
      (if votes_for LFG_ANSWER_AGREE boot' < 3 \<and> votes_for LFG_ANSWER_DENY boot' < 3
       then (m\<lparr>BootsStore := map_put g boot' (BootsStore m)\<rparr>, w)
       else finish_boot G env g boot' (count_votes (\<lambda>a. a = LFG_ANSWER_AGREE) boot') (m\<lparr>BootsStore := map_put g boot' (BootsStore m)\<rparr>, w))"
    and "vote_typed boot'"
proof -
  have wf: "map_wf (pb_votes boot)" "length (pb_votes boot) < 256" using assms(5) by (simp_all add: vote_typed_def)
  have set: "fst ` set (pb_votes boot') = insert guid (fst ` set (pb_votes boot))" by (simp add: assms(6) fst_set_map_put)
  have guid: "guid \<in> fst ` set (pb_votes boot)" using map_of_SomeD [OF assms(4)] by (metis fst_conv imageI)
  have "\<not> IS_GROUP_GUID x" if "x \<in> fst ` set (pb_votes boot')" for x
    using that set guid assms(5) by (auto simp: vote_typed_def)
  then show typed: "vote_typed boot'"
    using wf length_map_put [OF wf(1), of guid] assms(4) by (auto simp: vote_typed_def assms(6))
  show "UpdateBoot G env guid accept (m, w) =
      (if votes_for LFG_ANSWER_AGREE boot' < 3 \<and> votes_for LFG_ANSWER_DENY boot' < 3
       then (m\<lparr>BootsStore := map_put g boot' (BootsStore m)\<rparr>, w)
       else finish_boot G env g boot' (count_votes (\<lambda>a. a = LFG_ANSWER_AGREE) boot') (m\<lparr>BootsStore := map_put g boot' (BootsStore m)\<rparr>, w))"
    using assms(1-4) vote_numbers(2) [of boot'] typed
    by (simp add: UpdateBoot_def Let_def map_at_def assms(6) [symmetric] vote_typed_def)
qed

subsection \<open>Dungeons that are locked for nobody\<close>

definition unlocked :: "LFGMgr \<Rightarrow> uint64 list \<Rightarrow> uint32 \<Rightarrow> bool" where
  "unlocked m players d \<longleftrightarrow> (\<forall>g \<in> set players. \<forall>e \<in> set (pd_LockedDungeons (player m g)). fst e AND 0x00FFFFFF \<noteq> d)"

definition reported :: "LfgLockPartyMap \<Rightarrow> uint32 \<Rightarrow> bool" where
  "reported lockMap d \<longleftrightarrow> (\<exists>g locks. map_of lockMap g = Some locks \<and> map_of locks d \<noteq> None)"

lemma reported_more: "reported lockMap d \<Longrightarrow> reported (map_modify [] (map_put k v) g lockMap) d"
proof -
  assume "reported lockMap d"
  then obtain h locks where h: "map_of lockMap h = Some locks" "map_of locks d \<noteq> None" by (auto simp: reported_def)
  then show "reported (map_modify [] (map_put k v) g lockMap) d"
    unfolding reported_def by (cases "h = g") (auto simp: map_at_def intro!: exI [of _ h])
qed

lemma reported_new: "reported (map_modify [] (map_put d v) g lockMap) d"
  by (auto simp: reported_def intro!: exI [of _ g])

lemma lock_dungeons_result:
  "fst (lock_dungeons g locks (ds, lm)) = filter (\<lambda>d. \<forall>e \<in> set locks. fst e AND 0x00FFFFFF \<noteq> d) ds
   \<and> (\<forall>d. reported lm d \<or> d \<in> set ds - set (fst (lock_dungeons g locks (ds, lm))) \<longrightarrow> reported (snd (lock_dungeons g locks (ds, lm))) d)"
proof (induction g locks "(ds, lm)" arbitrary: ds lm rule: lock_dungeons.induct)
  case (2 g key status locks ds lm)
  let ?d = "key AND 0x00FFFFFF"
  show ?case
  proof (cases "ds = [] \<or> ?d \<notin> set ds")
    case True
    then have "filter (\<lambda>d. ?d \<noteq> d \<and> P d) ds = filter P ds" for P by (auto intro!: filter_cong)
    with True 2(2) show ?thesis by (auto simp: Let_def)
  next
    case False
    define ds2 where "ds2 = set_erase ?d ds"
    define R where "R = lock_dungeons g locks (ds2, map_modify [] (map_put ?d status) g lm)"
    have R: "lock_dungeons g ((key, status) # locks) (ds, lm) = R" using False by (simp add: Let_def R_def ds2_def)
    have IH: "fst R = filter (\<lambda>d. \<forall>e \<in> set locks. fst e AND 0x00FFFFFF \<noteq> d) ds2"
      "\<And>d. reported (map_modify [] (map_put ?d status) g lm) d \<or> d \<in> set ds2 - set (fst R) \<Longrightarrow> reported (snd R) d"
      using 2(1) [of ?d] False unfolding R_def ds2_def by blast+
    have "fst R = filter (\<lambda>d. \<forall>e \<in> set ((key, status) # locks). fst e AND 0x00FFFFFF \<noteq> d) ds"
      unfolding IH(1) ds2_def set_erase_def filter_filter by (rule filter_cong) auto
    moreover have "reported (snd R) d" if "reported lm d \<or> d \<in> set ds - set (fst R)" for d
    proof (cases "d = ?d")
      case True
      with IH(2) [of d] reported_new [of d status g lm] show ?thesis by simp
    next
      case False
      with that IH(2) [of d] reported_more [of lm d ?d status g] show ?thesis by (auto simp: ds2_def)
    qed
    ultimately show ?thesis unfolding R by blast
  qed
qed simp

lemma lock_players_result:
  "fst (lock_players m players (ds, lm)) = filter (unlocked m players) ds
   \<and> (\<forall>d. reported lm d \<or> d \<in> set ds - set (fst (lock_players m players (ds, lm))) \<longrightarrow> reported (snd (lock_players m players (ds, lm))) d)"
proof (induction players arbitrary: ds lm)
  case (Cons g players)
  obtain ds1 lm1 where 1: "lock_dungeons g (pd_LockedDungeons (player m g)) (ds, lm) = (ds1, lm1)" by fastforce
  have r1: "ds1 = filter (\<lambda>d. \<forall>e \<in> set (pd_LockedDungeons (player m g)). fst e AND 0x00FFFFFF \<noteq> d) ds"
    "\<forall>d. reported lm d \<or> d \<in> set ds - set ds1 \<longrightarrow> reported lm1 d"
    using lock_dungeons_result [of g "pd_LockedDungeons (player m g)" ds lm] 1 by auto
  have "filter (unlocked m players) ds1 = filter (unlocked m (g # players)) ds"
    unfolding r1(1) filter_filter by (rule filter_cong) (auto simp: unlocked_def)
  note left = this
  show ?case
  proof (cases "ds = []")
    case False
    then have "lock_players m (g # players) (ds, lm) = lock_players m players (ds1, lm1)" using 1 by simp
    then show ?thesis using Cons [of ds1 lm1] left r1(2) by (metis Diff_iff)
  qed simp
qed (simp add: unlocked_def)

section \<open>Examples\<close>

definition demo_env :: lfgm_env where
  "demo_env = \<lparr>me_now = 1000, me_online = \<lambda>_. True, me_ignores = \<lambda>_ _. False, me_urand = \<lambda>q n lo hi. lo,
     me_twoSideGroups = False, me_inDungeonMap = \<lambda>_. False\<rparr>"

definition demo_start :: LFGMgr where
  "demo_start = (LFGMgr_new 3)\<lparr>LfgDungeonStore := [(7, \<lparr>dd_id = 7, dd_name = [], dd_map = 33, dd_type = LFG_TYPE_DUNGEON, dd_expansion = 0,
     dd_group = 0, dd_minlevel = 15, dd_maxlevel = 80, dd_difficulty = 0, dd_seasonal = False, dd_x = 0, dd_y = 0, dd_z = 0, dd_o = 0\<rparr>)]\<rparr>"

definition demo_member :: "uint64 \<Rightarrow> lfg_member" where
  "demo_member g = \<lparr>lm_guid = g, lm_permission = True, lm_inBattleground = False, lm_deserter = False, lm_cooldown = False\<rparr>"

definition demo_party :: "uint64 \<Rightarrow> uint64 list \<Rightarrow> lfg_party" where
  "demo_party g ps = \<lparr>lp_guid = g, lp_isLFG = False, lp_membersCount = length ps, lp_online = map demo_member ps\<rparr>"

abbreviation demo_gguid :: uint64 where "demo_gguid \<equiv> 0x1F50000000000001"

text \<open>Groups as a list of members: the operations call the scripts.\<close>

definition demo_groups :: "(uint64, uint64) smap lfg_groups" where
  "demo_groups = \<lparr>lg_groupOf = map_at 0, lg_exists = \<lambda>w g. g \<in> snd ` set w, lg_dbStoreId = \<lambda>w g. ucast g,
     lg_Create = \<lambda>p (m, w). (case OnAddMember demo_env demo_gguid p p m of Inl _ \<Rightarrow> (demo_gguid, m, w) | Inr m' \<Rightarrow> (demo_gguid, m', map_put p demo_gguid w)),
     lg_AddGroup = \<lambda>g w. w,
     lg_AddMember = \<lambda>g p (m, w). (case OnAddMember demo_env g 0 p m of Inl _ \<Rightarrow> (m, w) | Inr m' \<Rightarrow> (m', map_put p g w)),
     lg_RemoveMember = \<lambda>g p k (m, w). (case OnRemoveMember demo_env g True p k 0 [] m of Inl _ \<Rightarrow> (m, w) | Inr (m', _) \<Rightarrow> (m', map_erase p w)),
     lg_SetLfgRoles = \<lambda>g p r m w. w, lg_SetDungeonDifficulty = \<lambda>g d w. w, lg_CastCooldown = \<lambda>p w. w,
     lg_TeleportPlayer = \<lambda>p m w. w, lg_SendUpdate = \<lambda>g m w. w\<rparr>"

lemma demo_scripts: "through_scripts demo_groups"
  by (auto simp: through_scripts_def demo_groups_def split: sum.split prod.split
      intro: script_step.intros)

lemma demo_random: "random_ok demo_env"
  by (simp add: random_ok_def demo_env_def)

definition solo_joins :: "(uint64 \<times> uint8) list \<Rightarrow> LFGMgr \<Rightarrow> LFGMgr" where
  "solo_joins ps m = fold (\<lambda>(g, roles). JoinLfg demo_env (demo_member g) None roles [7] []) ps m"

lemma solo_joins_reachable:
  assumes "reachable lm_init (lm_step G) (m, w)" "\<forall>(g, roles) \<in> set ps. \<not> IS_GROUP_GUID g"
  shows "reachable lm_init (lm_step G) (solo_joins ps m, w)"
  using assms
proof (induction ps arbitrary: m)
  case (Cons p ps)
  obtain g roles where p: "p = (g, roles)" by (cases p)
  have "join_ok m (demo_member g) None" using Cons.prems(2) p by (simp add: join_ok_def demo_member_def)
  from reach_step [OF Cons.prems(1) lm_step.join [OF this]] Cons p show ?case by (simp add: solo_joins_def)
qed (simp add: solo_joins_def)

lemma demo_start_reachable: "reachable lm_init (lm_step G) (demo_start, w)"
  by (rule reach_init) (auto simp: lm_init_def demo_start_def LFGMgr_new_def)

definition demo_mgr :: LFGMgr where
  "demo_mgr = solo_joins [(1, 8), (2, 4), (3, 8), (4, 8), (5, 2)] demo_start"

lemma demo_player_guids: "\<forall>(g, roles) \<in> set [(1, 8), (2, 4), (3, 8), (4, 8), (5, 2)]. \<not> IS_GROUP_GUID g"
  by code_simp

lemma demo_mgr_reachable: "reachable lm_init (lm_step G) (demo_mgr, w)"
  unfolding demo_mgr_def using solo_joins_reachable [OF demo_start_reachable demo_player_guids] .

text \<open>A group is formed and its members answer the role check one after another.\<close>

definition group_joins :: "uint64 \<Rightarrow> (uint64 \<times> uint8) list \<Rightarrow> LFGMgr \<Rightarrow> LFGMgr" where
  "group_joins gguid ps m =
     fold (\<lambda>(g, roles). UpdateRoleCheck demo_env gguid g roles) (tl ps)
       (JoinLfg demo_env (demo_member (fst (hd ps))) (Some (demo_party gguid (map fst ps))) (snd (hd ps)) [7] []
         (fold (\<lambda>p m. AddPlayerToGroup gguid p (SetGroup p gguid m)) (map fst ps) m))"

section \<open>Properties\<close>



text \<open>
  C33.  In every state the manager can reach the last state kept for a player or group is none, dungeon or
  finished dungeon, a player or group in such a state has it as last state, restoring the state leads
  there, and a group has at most three kicks left.
\<close>

theorem manager_data_typed:
  assumes "reachable lm_init (lm_step G) (m, w)"
  shows "player_ok (player m g) \<and> group_ok (group_data m g) \<and> resting (GetState (RestoreState g m) g)"
proof -
  have "player_ok (player m g)" "group_ok (group_data m g)"
    using lm.reachable_inv [OF assms] by (simp_all add: mgr_inv_def data_ok_def)
  then show ?thesis by (cases "IS_GROUP_GUID g") (simp_all add: GetState_def player_ok_def group_ok_def)
qed

theorem manager_data_typed_witness:
  "resting (GetState (RestoreState 1 demo_mgr) 1) \<and> GetState demo_mgr 1 = LFG_STATE_QUEUED"
proof -
  have "GetState demo_mgr 1 = LFG_STATE_QUEUED" by code_simp
  with manager_data_typed [OF demo_mgr_reachable, of 1] show ?thesis by blast
qed

text \<open>
  C13.  Every proposal the manager has stored, in every state it can reach, waits for answers and is a
  full group: five different players, one tank, one healer and three damage dealers, a leader from
  among them, and every player came with one of the queue entries the proposal names.
\<close>

theorem stored_proposals_complete:
  assumes "reachable lm_init (lm_step G) (m, w)" "map_of (ProposalsStore m) n = Some p"
  shows "proposal_shape p \<and> pr_state p = LFG_PROPOSAL_INITIATING"
  using lm.reachable_inv [OF assms(1)] inv_proposal [of "{}" none m n p] assms(2) by simp

theorem stored_proposals_complete_witness:
  "\<exists>m' p. LFGMgr_Update demo_groups demo_env 100 (demo_mgr, []) = Inr (m', []) \<and> map_of (ProposalsStore m') 2 = Some p \<and> proposal_shape p"
proof -
  let ?r = "LFGMgr_Update demo_groups demo_env 100 (demo_mgr, [])"
  have "map_sum (\<lambda>e. e) (\<lambda>(m, w). (map_of (ProposalsStore m) 2 \<noteq> None, w)) ?r = Inr (True, [])" by code_simp
  then obtain m' p where r: "?r = Inr (m', [])" "map_of (ProposalsStore m') 2 = Some p" by (cases ?r) auto
  have "reachable lm_init (lm_step demo_groups) (m', [])"
    by (rule reach_step [OF demo_mgr_reachable lm_step.update [OF demo_random r(1)]])
  from stored_proposals_complete [OF this r(2)] r show ?thesis by blast
qed

text \<open>
  C31.  The manager and its queues together: a search started by the manager, in whatever state it has
  reached, succeeds, and every proposal it stores is a full group of players who are queued in the
  manager's own tables, in roles they selected and for a dungeon they all asked for.
\<close>

theorem manager_search_valid:
  assumes "reachable lm_init (lm_step G) (m, w)" "random_ok env"
  shows "\<exists>m'. search_queue env q m = Inr m' \<and> (\<forall>n p. map_of (ProposalsStore m') n = Some p \<longrightarrow>
    map_of (ProposalsStore m) n = Some p
    \<or> full_group (queue_env env q m) p \<and> wishes_met (the_queue m q) p \<and> (\<forall>g \<in> set (pr_queues p). GetState m g = LFG_STATE_QUEUED))"
  using search_queue_valid [OF lm.reachable_inv [OF assms(1), unfolded fst_conv] assms(2)] .

theorem manager_search_valid_witness:
  "\<exists>m' p. search_queue demo_env 0 demo_mgr = Inr m' \<and> map_of (ProposalsStore m') 2 = Some p \<and> full_group (queue_env demo_env 0 demo_mgr) p"
proof -
  have "map_sum (\<lambda>e. e) (\<lambda>m. map_of (ProposalsStore m) 2 \<noteq> None) (search_queue demo_env 0 demo_mgr) = Inr True" by code_simp
  then obtain m' p where r: "search_queue demo_env 0 demo_mgr = Inr m'" "map_of (ProposalsStore m') 2 = Some p"
    by (cases "search_queue demo_env 0 demo_mgr") auto
  have "map_of (ProposalsStore demo_mgr) 2 = None" by code_simp
  with manager_search_valid [OF demo_mgr_reachable demo_random, of 0] r show ?thesis by fastforce
qed

text \<open>
  C16.  When a proposal fails, everybody whose entry has a member who refused returns to his last state
  and the entry leaves the queue; when it fails because its time is over, so does everybody whose entry
  has a member who has not answered.  Everybody else, when somebody declined also those who have not
  answered yet, is queued again and his entry is searched again.  The proposal is gone.
\<close>

theorem failed_proposal_outcome:
  assumes "map_of (ProposalsStore m) n = Some p" "players_typed p" "distinct (map fst (pr_players p))" "pr_players p = (first, pp) # ps"
    and "q = queueId m first"
  shows "\<exists>m'. RemoveProposal env n type m = Inr m' \<and> map_of (ProposalsStore m') n = None
    \<and> (\<forall>(x, pp) \<in> set (pr_players p). GetState m' x = (if queue_guid (x, pp) \<in> refused type p then GetOldState m x else LFG_STATE_QUEUED))
    \<and> (\<forall>g \<in> refused type p. queue_data (the_queue m' q) g = None)
    \<and> (\<forall>g \<in> set (pr_queues p) - refused type p. queue_data (the_queue m' q) g = queue_data (the_queue m q) g
         \<and> (queue_data (the_queue m q) g \<noteq> None \<longrightarrow> g \<in> set (newToQueueStore (the_queue m' q))))"
proof -
  obtain m' where m': "RemoveProposal env n type m = Inr m'" "map_of (ProposalsStore m') n = None"
    "\<And>x pp. (x, pp) \<in> set (pr_players p) \<Longrightarrow>
       GetState m' x = (if queue_guid (x, pp) \<in> refused type p then GetOldState m x else LFG_STATE_QUEUED)"
    and q: "the_queue m' q = fold AddToQueue (filter (\<lambda>g. g \<notin> refused type p) (pr_queues p))
       (fold RemoveFromQueue (to_remove (failed_proposal type p)) (the_queue m q))"
    by (rule failed_proposal_result [OF assms(1-4), where env = env and type = type, folded assms(5)]) (blast intro: that)
  have data: "queue_data (the_queue m' q) = (\<lambda>g. if g \<in> refused type p then None else queue_data (the_queue m q) g)"
  proof -
    have "queue_data (fold AddToQueue gs s) = queue_data s" for gs s by (induction gs arbitrary: s) simp_all
    then show ?thesis by (simp add: q fold_RemoveFromQueue to_remove_refused)
  qed
  have "g \<in> set (newToQueueStore (the_queue m' q))"
    if "g \<in> set (pr_queues p) - refused type p" "queue_data (the_queue m q) g \<noteq> None" for g
    using that unfolding q fold_AddToQueue_new fold_RemoveFromQueue to_remove_refused by simp
  with m' data show ?thesis by auto
qed

definition demo_failing :: LfgProposal where
  "demo_failing = \<lparr>pr_dungeonId = 7, pr_state = LFG_PROPOSAL_INITIATING, pr_group = 0, pr_leader = 1, pr_cancelTime = 1045, pr_isNew = True,
     pr_queues = [1, 2, 3, 4, 5], pr_players =
       [(1, \<lparr>pp_role = 8, pp_accept = LFG_ANSWER_AGREE, pp_group = 0\<rparr>), (2, \<lparr>pp_role = 4, pp_accept = LFG_ANSWER_DENY, pp_group = 0\<rparr>),
        (3, \<lparr>pp_role = 8, pp_accept = LFG_ANSWER_AGREE, pp_group = 0\<rparr>), (4, \<lparr>pp_role = 8, pp_accept = LFG_ANSWER_PENDING, pp_group = 0\<rparr>),
        (5, \<lparr>pp_role = 2, pp_accept = LFG_ANSWER_PENDING, pp_group = 0\<rparr>)]\<rparr>"

theorem failed_proposal_outcome_witness:
  "\<exists>m'. RemoveProposal demo_env 2 LFG_UPDATETYPE_PROPOSAL_DECLINED (demo_mgr\<lparr>ProposalsStore := [(2, demo_failing)]\<rparr>) = Inr m'
     \<and> GetState m' 1 = LFG_STATE_QUEUED \<and> GetState m' 2 = LFG_STATE_NONE \<and> GetState m' 4 = LFG_STATE_QUEUED"
proof -
  let ?m = "demo_mgr\<lparr>ProposalsStore := [(2, demo_failing)]\<rparr>"
  have p: "map_of (ProposalsStore ?m) 2 = Some demo_failing" by simp
  have t: "players_typed demo_failing" "distinct (map fst (pr_players demo_failing))" by code_simp+
  have l: "pr_players demo_failing = (1, \<lparr>pp_role = 8, pp_accept = LFG_ANSWER_AGREE, pp_group = 0\<rparr>) # tl (pr_players demo_failing)"
    by (simp add: demo_failing_def)
  have r: "refused LFG_UPDATETYPE_PROPOSAL_DECLINED demo_failing = {2}" by code_simp
  have old: "GetOldState ?m 2 = LFG_STATE_NONE" by code_simp
  obtain m' where m': "RemoveProposal demo_env 2 LFG_UPDATETYPE_PROPOSAL_DECLINED ?m = Inr m'"
    "\<forall>(x, pp) \<in> set (pr_players demo_failing). GetState m' x = (if queue_guid (x, pp) \<in> {2} then GetOldState ?m x else LFG_STATE_QUEUED)"
    using failed_proposal_outcome [OF p t l refl, of demo_env LFG_UPDATETYPE_PROPOSAL_DECLINED] unfolding r by blast
  from m'(2) old have "GetState m' 1 = LFG_STATE_QUEUED" "GetState m' 2 = LFG_STATE_NONE" "GetState m' 4 = LFG_STATE_QUEUED"
    by (simp_all add: demo_failing_def queue_guid_def)
  with m'(1) show ?thesis by blast
qed

text \<open>
  C18.  When the last member of a group has chosen roles the group is queued, with every member in the
  state queued and with the roles chosen, exactly when everybody named nothing but the roles there are
  and the roles can be distributed over one tank, one healer and three damage dealers; otherwise everybody
  returns to his last state.  In both cases the
  role check is over.
\<close>

theorem role_check_outcome:
  assumes rc: "map_of (RoleChecksStore m) gguid = Some rc" "gguid \<noteq> 0" "IS_GROUP_GUID gguid" "check_ok gguid rc" "length (rc_roles rc) < 255"
    and rs: "rs = map_put guid roles (rc_roles rc)" "guid \<noteq> 0" "PLAYER_ROLE_TANK \<le> roles"
    and all: "\<forall>e \<in> set rs. \<not> IS_GROUP_GUID (fst e) \<and> snd e \<noteq> 0"
    and m': "m' = UpdateRoleCheck env gguid guid roles m"
  defines "fit \<equiv> (\<forall>e \<in> set rs. client_roles (snd e)) \<and> (\<exists>a. assigns rs a)"
  shows "map_of (RoleChecksStore m') gguid = None
    \<and> (if fit
       then GetState m' gguid = LFG_STATE_QUEUED \<and> (\<forall>(x, r) \<in> set rs. GetState m' x = LFG_STATE_QUEUED \<and> pd_Roles (player m' x) = r)
         \<and> (\<exists>q. queue_data (the_queue m' q) gguid = Some (rs, rc_dungeons rc))
       else GetState m' gguid = GetOldState m gguid \<and> (\<forall>(x, r) \<in> set rs. GetState m' x = GetOldState m x) \<and> the_queue m' = the_queue m)"
proof -
  define rc' where "rc' = role_chosen guid roles rc"
  have wf: "map_wf (rc_roles rc)" using rc(4) by (simp add: check_ok_def)
  have rswf: "map_wf rs" "length rs < 256" "rs \<noteq> []" using wf length_map_put [OF wf, of guid roles] rc(5) by (simp_all add: rs(1))
  have answer: "fst (CheckGroupRoles rs) \<longleftrightarrow> fit"
    using CheckGroupRoles_answer [OF rswf(1,2)] rswf(3) by (simp add: fit_def)
  have rc': "rc_roles rc' = rs" "rc_dungeons rc' = rc_dungeons rc"
    "rc_state rc' = (if fit then LFG_ROLECHECK_FINISHED else LFG_ROLECHECK_WRONG_ROLES)"
    using rs all answer by (auto simp: rc'_def role_chosen_def Let_def list_all_iff not_less)
  have typed: "\<forall>e \<in> set (rc_roles rc'). \<not> IS_GROUP_GUID (fst e)" "distinct (map fst (rc_roles rc'))"
    using all map_wf_distinct [OF rswf(1)] by (auto simp: rc'(1))
  obtain m1 where p1: "\<And>x. player m1 x = (case map_of rs x of None \<Rightarrow> player m x | Some r \<Rightarrow> role_outcome (rc_state rc') r (player m x))"
    and g1: "group_data m1 = group_data m" "the_queue m1 = the_queue m"
    and u: "m' = (if rc_state rc' = LFG_ROLECHECK_FINISHED
        then (on_queue (queueId (SetState gguid LFG_STATE_QUEUED m1) gguid) (AddQueueData gguid (me_now env) (rc_dungeons rc) rs)
                (SetState gguid LFG_STATE_QUEUED m1))\<lparr>RoleChecksStore := map_erase gguid (RoleChecksStore m)\<rparr>
        else if rc_state rc' \<noteq> LFG_ROLECHECK_INITIALITING
        then (RestoreState gguid m1)\<lparr>RoleChecksStore := map_erase gguid (RoleChecksStore m)\<rparr>
        else m1\<lparr>RoleChecksStore := map_put gguid rc' (RoleChecksStore m)\<rparr>)"
    using UpdateRoleCheck_parts [OF rc(1-3) rc'_def typed] unfolding m' rc'(1,2) by metis
  have mem: "map_of rs x = Some r \<and> \<not> IS_GROUP_GUID x" if "(x, r) \<in> set rs" for x r
    using bspec [OF all that] map_wf_find [OF rswf(1), of x r] that by simp
  show ?thesis
  proof (cases fit)
    case True
    then have st: "rc_state rc' = LFG_ROLECHECK_FINISHED" using rc'(3) by simp
    define q where "q = queueId (SetState gguid LFG_STATE_QUEUED m1) gguid"
    have m2: "m' = (on_queue q (AddQueueData gguid (me_now env) (rc_dungeons rc) rs) (SetState gguid LFG_STATE_QUEUED m1))
        \<lparr>RoleChecksStore := map_erase gguid (RoleChecksStore m)\<rparr>" using u st by (simp add: q_def)
    have "queue_data (the_queue m' q) gguid = Some (rs, rc_dungeons rc)" by (simp add: m2 queue_data_AddQueueData)
    moreover have "GetState m' x = LFG_STATE_QUEUED \<and> pd_Roles (player m' x) = r" if "(x, r) \<in> set rs" for x r
      using mem [OF that] rc(3) by (simp add: m2 GetState_def p1 st role_outcome_def)
    ultimately show ?thesis using True rc(3) by (auto simp: m2 GetState_def)
  next
    case False
    then have st: "rc_state rc' = LFG_ROLECHECK_WRONG_ROLES" using rc'(3) by simp
    then have m2: "m' = (RestoreState gguid m1)\<lparr>RoleChecksStore := map_erase gguid (RoleChecksStore m)\<rparr>" using u by simp
    have "GetState m' x = GetOldState m x" if "(x, r) \<in> set rs" for x r
      using mem [OF that] rc(3) by (simp add: m2 GetState_def GetOldState_def p1 st role_outcome_def)
    then show ?thesis using False rc(3) by (auto simp: m2 GetState_def GetOldState_def g1 set_state_frame)
  qed
qed

definition demo_checking :: LFGMgr where
  "demo_checking = JoinLfg demo_env (demo_member 1) (Some (demo_party demo_gguid [1, 2])) 2 [7] [] demo_start"

definition demo_check :: LfgRoleCheck where
  "demo_check = \<lparr>rc_cancelTime = 46000, rc_roles = [(1, 2), (2, 0)], rc_state = LFG_ROLECHECK_INITIALITING,
     rc_dungeons = [7], rc_rDungeonId = 0, rc_leader = 1\<rparr>"

theorem role_check_outcome_witness:
  "GetState (UpdateRoleCheck demo_env demo_gguid 2 4 demo_checking) demo_gguid = LFG_STATE_QUEUED"
proof -
  let ?rs = "[(1, 2), (2, 4)] :: LfgRolesMap"
  have 1: "map_of (RoleChecksStore demo_checking) demo_gguid = Some demo_check" "IS_GROUP_GUID demo_gguid" "check_ok demo_gguid demo_check"
    "length (rc_roles demo_check) < 255" by code_simp+
  have 2: "?rs = map_put 2 4 (rc_roles demo_check)" by (simp add: demo_check_def)
  have 3: "\<forall>e \<in> set ?rs. \<not> IS_GROUP_GUID (fst e) \<and> snd e \<noteq> 0" by code_simp
  have "assigns ?rs ?rs" by (simp add: assigns_def fits_def one_role_def within_limits_def)
  then have 4: "(\<forall>e \<in> set ?rs. client_roles (snd e)) \<and> (\<exists>a. assigns ?rs a)" by (auto simp: client_roles_def)
  have 5: "demo_gguid \<noteq> 0" "(2 :: uint64) \<noteq> 0" "PLAYER_ROLE_TANK \<le> 4" by simp_all
  from role_check_outcome [OF 1(1) 5(1) 1(2-4) 2 5(2,3) 3 refl, of demo_env] show ?thesis unfolding if_P [OF 4] by blast
qed

text \<open>
  C19.  A vote counts once per player.  Until three players agree or three disagree nothing else
  happens; then the vote is over, and the victim is removed from the group, with one kick less left,
  exactly when three have agreed.
\<close>

theorem vote_outcome:
  assumes vote: "GetGroup m guid = g" "g \<noteq> 0" "map_of (BootsStore m) g = Some boot" "vote_typed boot" "IS_GROUP_GUID g"
    and boot': "boot' = boot\<lparr>pb_votes := map_put guid (if accept then LFG_ANSWER_AGREE else LFG_ANSWER_DENY) (pb_votes boot)\<rparr>"
    and r: "(m', w') = UpdateBoot G env guid accept (m, w)"
  shows "(map_of (pb_votes boot) guid \<noteq> Some LFG_ANSWER_PENDING \<longrightarrow> w' = w \<and> player m' = player m \<and> group_data m' = group_data m
        \<and> (\<exists>b. map_of (BootsStore m') g = Some b \<and> votes_for LFG_ANSWER_AGREE b = votes_for LFG_ANSWER_AGREE boot))
    \<and> (map_of (pb_votes boot) guid = Some LFG_ANSWER_PENDING \<longrightarrow>
        (if votes_for LFG_ANSWER_AGREE boot' < 3 \<and> votes_for LFG_ANSWER_DENY boot' < 3
         then m' = m\<lparr>BootsStore := map_put g boot' (BootsStore m)\<rparr> \<and> w' = w
         else map_of (BootsStore m') g = None
           \<and> (votes_for LFG_ANSWER_AGREE boot' \<noteq> 3 \<longrightarrow> w' = w)
           \<and> (votes_for LFG_ANSWER_AGREE boot' = 3 \<and> lg_exists G w g \<longrightarrow>
                (\<exists>m1. w' = snd (lg_RemoveMember G g (pb_victim boot) GROUP_REMOVEMETHOD_KICK_LFG (m1, w))
                   \<and> group_data m' g = LfgGroupData_DecreaseKicksLeft
                       (group_data (fst (lg_RemoveMember G g (pb_victim boot) GROUP_REMOVEMETHOD_KICK_LFG (m1, w))) g)))))"
proof (cases "map_of (pb_votes boot) guid = Some LFG_ANSWER_PENDING")
  case False
  have "votes_for LFG_ANSWER_AGREE (boot\<lparr>pb_votes := map_modify LFG_ANSWER_DENY (\<lambda>a. a) guid (pb_votes boot)\<rparr>) = votes_for LFG_ANSWER_AGREE boot"
    using touched_votes [of "pb_votes boot" guid] vote(4) by (simp add: votes_for_def vote_typed_def)
  with False r vote show ?thesis by (auto simp: UpdateBoot_def map_at_def split: option.splits)
next
  case True
  let ?m = "m\<lparr>BootsStore := map_put g boot' (BootsStore m)\<rparr>"
  note u = UpdateBoot_vote(1) [OF vote(1-3) True vote(4) boot', of G env w] UpdateBoot_vote(2) [OF vote(1-3) True vote(4) boot']
  have v: "pb_victim boot' = pb_victim boot" by (simp add: boot')
  have n: "count_votes (\<lambda>a. a = LFG_ANSWER_AGREE) boot' = LFG_GROUP_KICK_VOTES_NEEDED \<longleftrightarrow> votes_for LFG_ANSWER_AGREE boot' = 3"
    using u(2) by (intro vote_numbers) (simp add: vote_typed_def)
  obtain m1 where f: "finish_boot G env g boot' (count_votes (\<lambda>a. a = LFG_ANSWER_AGREE) boot') (?m, w) =
      (if votes_for LFG_ANSWER_AGREE boot' = 3
       then let (m2, w2) = (if lg_exists G w g then lg_RemoveMember G g (pb_victim boot) GROUP_REMOVEMETHOD_KICK_LFG (m1, w) else (m1, w));
                m2 = DecreaseKicksLeft g m2
            in (m2\<lparr>BootsStore := map_erase g (BootsStore m2)\<rparr>, w2)
       else (m1\<lparr>BootsStore := map_erase g (BootsStore m1)\<rparr>, w))"
    by (rule finish_boot_parts [OF u(2) vote(5), of ?m G env "count_votes (\<lambda>a. a = LFG_ANSWER_AGREE) boot'" w, unfolded n v])
  show ?thesis
  proof (cases "votes_for LFG_ANSWER_AGREE boot' < 3 \<and> votes_for LFG_ANSWER_DENY boot' < 3")
    case False
    with r u(1) have e: "(m', w') = finish_boot G env g boot' (count_votes (\<lambda>a. a = LFG_ANSWER_AGREE) boot') (?m, w)" by simp
    show ?thesis
      using True False e unfolding f
      by (auto simp: Let_def DecreaseKicksLeft_def split_beta split: if_splits)
  qed (use r u(1) True in simp)
qed

text \<open>A vote on player 5, started by player 1.\<close>

definition demo_world :: "(uint64, uint64) smap" where
  "demo_world = map (\<lambda>p. (p, demo_gguid)) [1, 2, 3, 4, 5]"

definition demo_voting :: LFGMgr where
  "demo_voting = InitBoot demo_env demo_gguid 1 5 ''afk''
     (fold (\<lambda>p m. SetState p LFG_STATE_DUNGEON (AddPlayerToGroup demo_gguid p (SetGroup p demo_gguid m))) [1, 2, 3, 4, 5]
       (SetState demo_gguid LFG_STATE_DUNGEON demo_start))"

definition demo_boot :: "LfgAnswer \<Rightarrow> LfgPlayerBoot" where
  "demo_boot a = \<lparr>pb_cancelTime = 1120, pb_inProgress = True, pb_votes = [(1, LFG_ANSWER_AGREE), (2, a), (3, LFG_ANSWER_PENDING),
     (4, LFG_ANSWER_PENDING), (5, LFG_ANSWER_DENY)], pb_victim = 5, pb_reason = ''afk''\<rparr>"

definition demo_voted :: "bool \<Rightarrow> LFGMgr" where
  "demo_voted accept = fst (UpdateBoot demo_groups demo_env 2 accept (demo_voting, demo_world))"

lemma demo_voted_boot:
  "map_of (BootsStore (demo_voted True)) demo_gguid = Some (demo_boot LFG_ANSWER_AGREE)"
  "map_of (BootsStore (demo_voted False)) demo_gguid = Some (demo_boot LFG_ANSWER_DENY)"
  "GetGroup (demo_voted True) 3 = demo_gguid" "GetGroup (demo_voted False) 3 = demo_gguid"
  "vote_typed (demo_boot LFG_ANSWER_AGREE)" "vote_typed (demo_boot LFG_ANSWER_DENY)" "IS_GROUP_GUID demo_gguid" "demo_gguid \<noteq> 0"
  by code_simp+

theorem vote_outcome_witness:
  "map_of (BootsStore (fst (UpdateBoot demo_groups demo_env 3 True (demo_voted True, demo_world)))) demo_gguid = None
   \<and> (\<exists>m1. snd (UpdateBoot demo_groups demo_env 3 True (demo_voted True, demo_world))
         = snd (lg_RemoveMember demo_groups demo_gguid 5 GROUP_REMOVEMETHOD_KICK_LFG (m1, demo_world)))"
proof -
  let ?b = "demo_boot LFG_ANSWER_AGREE"
  let ?b' = "?b\<lparr>pb_votes := map_put 3 (if True then LFG_ANSWER_AGREE else LFG_ANSWER_DENY) (pb_votes ?b)\<rparr>"
  have v: "map_of (pb_votes ?b) 3 = Some LFG_ANSWER_PENDING" "votes_for LFG_ANSWER_AGREE ?b' = 3" "pb_victim ?b = 5"
    "lg_exists demo_groups demo_world demo_gguid" by code_simp+
  show ?thesis
    using vote_outcome [OF demo_voted_boot(3,8,1,5,7) refl surjective_pairing [symmetric], of demo_groups demo_env True demo_world] v
    by auto
qed

text \<open>
  C40.  A defect: a victim whom three players have voted to keep stays in the state of a vote, while
  all others return to the state of the dungeon.
\<close>

theorem surviving_victim_stuck:
  assumes "GetGroup m guid = g" "g \<noteq> 0" "map_of (BootsStore m) g = Some boot" "map_of (pb_votes boot) guid = Some LFG_ANSWER_PENDING"
    and "vote_typed boot" "IS_GROUP_GUID g" "\<not> IS_GROUP_GUID (pb_victim boot)"
    and "boot' = boot\<lparr>pb_votes := map_put guid LFG_ANSWER_DENY (pb_votes boot)\<rparr>"
    and "votes_for LFG_ANSWER_AGREE boot' < 3" "votes_for LFG_ANSWER_DENY boot' = 3"
  shows "\<exists>m'. UpdateBoot G env guid False (m, w) = (m', w) \<and> map_of (BootsStore m') g = None
    \<and> GetState m' (pb_victim boot) = GetState m (pb_victim boot)
    \<and> (\<forall>(x, a) \<in> set (pb_votes boot'). x \<noteq> pb_victim boot \<longrightarrow> GetState m' x = LFG_STATE_DUNGEON)"
proof -
  let ?m = "m\<lparr>BootsStore := map_put g boot' (BootsStore m)\<rparr>"
  have b: "boot' = boot\<lparr>pb_votes := map_put guid (if False then LFG_ANSWER_AGREE else LFG_ANSWER_DENY) (pb_votes boot)\<rparr>"
    using assms(8) by simp
  note u = UpdateBoot_vote(1) [OF assms(1-5) b, of G env w] UpdateBoot_vote(2) [OF assms(1-5) b]
  have v: "pb_victim boot' = pb_victim boot" by (simp add: assms(8))
  have "count_votes (\<lambda>a. a = LFG_ANSWER_AGREE) boot' \<noteq> LFG_GROUP_KICK_VOTES_NEEDED"
    using vote_numbers(1) [of boot'] u(2) assms(9) by (simp add: vote_typed_def)
  note no = this
  obtain m1 where p: "\<And>x. player m1 x = (if map_of (pb_votes boot') x \<noteq> None \<and> x \<noteq> pb_victim boot
      then LfgPlayerData_SetState LFG_STATE_DUNGEON (player ?m x) else player ?m x)"
    and f: "finish_boot G env g boot' (count_votes (\<lambda>a. a = LFG_ANSWER_AGREE) boot') (?m, w) = (m1\<lparr>BootsStore := map_erase g (BootsStore m1)\<rparr>, w)"
    by (rule finish_boot_parts [OF u(2) assms(6), of ?m G env "count_votes (\<lambda>a. a = LFG_ANSWER_AGREE) boot'" w, unfolded v if_not_P [OF no]]) (rule that)
  have x: "map_of (pb_votes boot') x \<noteq> None \<and> \<not> IS_GROUP_GUID x" if "(x, a) \<in> set (pb_votes boot')" for x a
    using that u(2) by (metis fst_conv map_wf_find option.distinct(1) vote_typed_def)
  define m2 where "m2 = m1\<lparr>BootsStore := map_erase g (BootsStore m1)\<rparr>"
  have st: "GetState m2 x = GetState m1 x" for x by (simp add: m2_def GetState_def)
  have "UpdateBoot G env guid False (m, w) = (m2, w)" using u(1) f assms(9,10) by (simp add: m2_def)
  moreover have "map_of (BootsStore m2) g = None" by (simp add: m2_def)
  moreover have "GetState m2 (pb_victim boot) = GetState m (pb_victim boot)" unfolding st using p assms(7) by (simp add: GetState_def)
  moreover have "GetState m2 x = LFG_STATE_DUNGEON" if "(x, a) \<in> set (pb_votes boot')" "x \<noteq> pb_victim boot" for x a
    unfolding st using p x [OF that(1)] that(2) by (simp add: GetState_def)
  ultimately show ?thesis by blast
qed

theorem surviving_victim_stuck_witness:
  "\<exists>m'. UpdateBoot demo_groups demo_env 3 False (demo_voted False, demo_world) = (m', demo_world)
     \<and> GetState m' 5 = LFG_STATE_BOOT \<and> GetState m' 4 = LFG_STATE_DUNGEON"
proof -
  let ?b = "demo_boot LFG_ANSWER_DENY"
  let ?b' = "?b\<lparr>pb_votes := map_put 3 LFG_ANSWER_DENY (pb_votes ?b)\<rparr>"
  have v: "map_of (pb_votes ?b) 3 = Some LFG_ANSWER_PENDING" "\<not> IS_GROUP_GUID (pb_victim ?b)" "votes_for LFG_ANSWER_AGREE ?b' < 3"
    "votes_for LFG_ANSWER_DENY ?b' = 3" "pb_victim ?b = 5" "GetState (demo_voted False) 5 = LFG_STATE_BOOT"
    "(4, LFG_ANSWER_PENDING) \<in> set (pb_votes ?b')" by code_simp+
  from surviving_victim_stuck [OF demo_voted_boot(4,8,2) v(1) demo_voted_boot(6,7) v(2) refl v(3,4), of demo_groups demo_env demo_world]
  show ?thesis using v(5-7) by fastforce
qed

text \<open>
  C32.  The dungeons a group may enter are exactly those that no member has locked, and when none is
  left every dungeon asked for is reported with the lock of some member.
\<close>

theorem compatible_dungeons_exact:
  "case GetCompatibleDungeons m dungeons players of (left, lockMap) \<Rightarrow>
     left = filter (\<lambda>d. \<forall>g \<in> set players. \<forall>e \<in> set (pd_LockedDungeons (player m g)). fst e AND 0x00FFFFFF \<noteq> d) dungeons
     \<and> (if left = [] then \<forall>d \<in> set dungeons. \<exists>g locks. map_of lockMap g = Some locks \<and> map_of locks d \<noteq> None else lockMap = [])"
  using lock_players_result [of m players dungeons "[]"]
  by (simp add: GetCompatibleDungeons_def split_beta unlocked_def [abs_def] reported_def)

theorem compatible_dungeons_exact_witness:
  "fst (GetCompatibleDungeons (SetLockedDungeons 1 [(0x01000007, 5)] demo_start) [7, 9] [1, 2]) = [9]"
proof -
  have "filter (\<lambda>d. \<forall>g \<in> set [1, 2]. \<forall>e \<in> set (pd_LockedDungeons (player (SetLockedDungeons 1 [(0x01000007, 5)] demo_start) g)).
      fst e AND 0x00FFFFFF \<noteq> d) [7, 9] = [9]" by code_simp
  with compatible_dungeons_exact [where m = "SetLockedDungeons 1 [(0x01000007, 5)] demo_start" and dungeons = "[7, 9]" and players = "[1, 2]"] show ?thesis
    by (auto split: prod.splits)
qed

lemma SetState_others:
  "x \<noteq> g \<Longrightarrow> player (SetState g st m) x = player m x" "m_sent (SetState g st m) = m_sent m" "GetGroup (SetState g st m) x = GetGroup m x"
  "GetGroup (send env g msg m) x = GetGroup m x"
  by (simp_all add: SetState_def GetGroup_def LfgPlayerData_SetState_def Let_def) (simp_all add: on_player_def on_group_def)

lemma announce_player_others:
  assumes "x \<noteq> g" "GetGroup m g \<noteq> x"
  shows "player (announce_player env p g m) x = player m x"
    and "filter (\<lambda>e. fst e = x) (m_sent (announce_player env p g m)) = filter (\<lambda>e. fst e = x) (m_sent m)"
    and "GetGroup (announce_player env p g m) y = GetGroup m y"
proof -
  have send: "filter (\<lambda>e. fst e = x) (m_sent (send env g msg m)) = filter (\<lambda>e. fst e = x) (m_sent m)" for msg m
    using assms(1) by (simp add: send_def)
  show "player (announce_player env p g m) x = player m x" "GetGroup (announce_player env p g m) y = GetGroup m y"
    "filter (\<lambda>e. fst e = x) (m_sent (announce_player env p g m)) = filter (\<lambda>e. fst e = x) (m_sent m)"
    using assms by (simp_all add: announce_player_def Let_def SetState_others send)
qed

lemma announce_others:
  assumes "x \<notin> set gs" "\<not> IS_GROUP_GUID x" "\<forall>g. GetGroup m g = 0 \<or> IS_GROUP_GUID (GetGroup m g)" "x \<noteq> 0"
  shows "player (fold (announce_player env p) gs m) x = player m x
    \<and> filter (\<lambda>e. fst e = x) (m_sent (fold (announce_player env p) gs m)) = filter (\<lambda>e. fst e = x) (m_sent m)"
  using assms
proof (induction gs arbitrary: m)
  case (Cons g gs)
  have g: "GetGroup m g \<noteq> x" using Cons.prems(2-4) by metis
  have x: "x \<noteq> g" using Cons.prems(1) by auto
  show ?case using Cons.IH [of "announce_player env p g m"] announce_player_others [OF x g, of env p] Cons.prems by simp
qed simp

text \<open>
  A defect: only the last proposal is announced.  When an update has stored several proposals, a
  player of an earlier one who is not also in the last is sent nothing and keeps his state.
\<close>

theorem only_last_proposal_announced:
  assumes "map_wf (ProposalsStore m)" "map_of (ProposalsStore m) (m_lfgProposalId m) = Some latest" "pr_state latest = LFG_PROPOSAL_INITIATING"
    and "\<forall>(n, p) \<in> set (ProposalsStore m). n \<le> m_lfgProposalId m"
    and "map_of (ProposalsStore m) n = Some p" "n < m_lfgProposalId m" "x \<in> fst ` set (pr_players p)" "x \<notin> fst ` set (pr_players latest)"
    and "\<not> IS_GROUP_GUID x" "x \<noteq> 0" "\<forall>g. GetGroup m g = 0 \<or> IS_GROUP_GUID (GetGroup m g)"
  shows "\<exists>m'. announce_proposals G env (dropWhile (\<lambda>e. fst e \<noteq> m_lfgProposalId m) (ProposalsStore m)) (m, w) = Inr (m', w)
    \<and> GetState m' x = GetState m x \<and> filter (\<lambda>e. fst e = x) (m_sent m') = filter (\<lambda>e. fst e = x) (m_sent m)"
proof -
  let ?id = "m_lfgProposalId m"
  have latest: "(?id, latest) \<in> set (ProposalsStore m)" by (rule map_of_SomeD [OF assms(2)])
  obtain as bs where s: "ProposalsStore m = as @ (?id, latest) # bs" using latest by (meson split_list)
  have "bs = []"
  proof (cases bs)
    case (Cons b bs')
    then have "?id < fst b" using assms(1) unfolding s map_wf_def by (simp add: sorted_wrt_append)
    moreover have "fst b \<le> ?id" using assms(4) Cons unfolding s by (cases b) auto
    ultimately show ?thesis by simp
  qed
  moreover have "fst a \<noteq> ?id" if "a \<in> set as" for a
    using assms(1) that unfolding s map_wf_def by (auto simp: sorted_wrt_append)
  ultimately have "dropWhile (\<lambda>e. fst e \<noteq> ?id) (ProposalsStore m) = [(?id, latest)]"
    unfolding s by simp
  with assms(3,8-11) announce_others [of x "map fst (pr_players latest)" m env latest] show ?thesis by (simp add: GetState_def)
qed

definition demo_second :: LfgProposal where
  "demo_second = demo_failing\<lparr>pr_leader := 6, pr_queues := [6, 7, 8, 9, 10], pr_players := map (\<lambda>(g, r).
     (g, \<lparr>pp_role = r, pp_accept = LFG_ANSWER_PENDING, pp_group = 0\<rparr>)) [(6, 8), (7, 4), (8, 8), (9, 8), (10, 2)]\<rparr>"

theorem only_last_proposal_announced_witness:
  "let m = demo_mgr\<lparr>ProposalsStore := [(2, demo_failing), (3, demo_second)], m_lfgProposalId := 3\<rparr> in
   \<exists>m'. announce_proposals demo_groups demo_env (dropWhile (\<lambda>e. fst e \<noteq> m_lfgProposalId m) (ProposalsStore m)) (m, []) = Inr (m', [])
     \<and> GetState m' 1 = LFG_STATE_QUEUED"
proof -
  let ?m = "demo_mgr\<lparr>ProposalsStore := [(2, demo_failing), (3, demo_second)], m_lfgProposalId := 3\<rparr>"
  have "GetGroup ?m g = 0" for g
  proof -
    have "\<forall>e \<in> set (PlayersStore demo_mgr). pd_Group (snd e) = 0" by code_simp
    then show ?thesis
      by (auto simp: GetGroup_def player_def map_at_def LfgPlayerData0_def split: option.split dest!: map_of_SomeD)
  qed
  moreover have "GetState ?m 1 = LFG_STATE_QUEUED" "\<not> IS_GROUP_GUID 1" "1 \<in> fst ` set (pr_players demo_failing)" by code_simp+
  ultimately show ?thesis
    using only_last_proposal_announced [of ?m "demo_second" 2 demo_failing 1 demo_groups demo_env "[]"]
    by (simp add: demo_failing_def demo_second_def)
qed

text \<open>
  A defect: a queued player who asks to join again and is refused loses his place in the queue
  but is still in the state queued.
\<close>

theorem refused_rejoin_loses_place:
  assumes "GetState m (lm_guid self) = LFG_STATE_QUEUED" "dungeons \<noteq> []" "lm_deserter self \<or> lm_cooldown self \<or> lm_inBattleground self"
    and "m' = JoinLfg env self None roles dungeons comment m" "q = queueId m (lm_guid self)"
  shows "GetState m' (lm_guid self) = LFG_STATE_QUEUED \<and> queue_data (the_queue m' q) (lm_guid self) = None
    \<and> lm_guid self \<notin> set (currentQueueStore (the_queue m' q)) \<and> lm_guid self \<notin> set (newToQueueStore (the_queue m' q))"
proof -
  let ?g = "lm_guid self"
  define m1 where "m1 = on_queue q (RemoveFromQueue ?g) m"
  have "fst (check_join m1 self None dungeons) \<noteq> LFG_JOIN_OK"
    using assms(3) by (auto simp: check_join_def check_restrictions_def)
  then obtain result left lockmap isRaid rd where cj: "check_join m1 self None dungeons = (result, left, lockmap, isRaid, rd)" "result \<noteq> LFG_JOIN_OK"
    by (metis fst_conv prod_cases5)
  have "\<exists>sent. m' = m1\<lparr>m_sent := sent\<rparr>"
    using assms(1,2) cj unfolding assms(4) JoinLfg_def Let_def option.case assms(5) [symmetric]
    by (auto simp: m1_def assms(5))
  then show ?thesis using assms(1) by (auto simp: m1_def GetState_def queue_data_RemoveFromQueue)
qed

theorem refused_rejoin_loses_place_witness:
  "GetState (JoinLfg demo_env ((demo_member 1)\<lparr>lm_cooldown := True\<rparr>) None 8 [7] [] demo_mgr) 1 = LFG_STATE_QUEUED
   \<and> queue_data (the_queue (JoinLfg demo_env ((demo_member 1)\<lparr>lm_cooldown := True\<rparr>) None 8 [7] [] demo_mgr) 0) 1 = None"
proof -
  let ?self = "(demo_member 1)\<lparr>lm_cooldown := True\<rparr>"
  have g: "lm_guid ?self = 1" "lm_cooldown ?self" by (simp_all add: demo_member_def)
  have s: "GetState demo_mgr 1 = LFG_STATE_QUEUED" "queueId demo_mgr 1 = 0" by code_simp+
  show ?thesis
    using refused_rejoin_loses_place [of demo_mgr ?self "[7]" _ demo_env 8 "[]", OF _ _ _ refl refl] g s by simp
qed

end
