(* ===== verification/LFGHandler.thy ===== *)
theory LFGHandler
  imports LFGOutcomes WorldPacket
begin

text \<open>
  The client side of the dungeon finder: the opcode handlers of \<^verbatim>\<open>game/Handlers/LFGHandler.cpp\<close>, from the
  bytes of a packet to the operations of the manager, and the packets built from the manager's
  messages.

  What a handler asks of the session's player is the record \<open>lfg_session\<close>.  A handler fails with the
  exception of a malformed packet or with an error of the manager; it answers with packets and, for a
  teleport, with effects on the player.  The names of the roles and states (\<^verbatim>\<open>LFG.cpp\<close>) close the theory.
\<close>

section \<open>Sessions\<close>



datatype lfg_fault = Malformed bb_error | Manager lfg_error


text \<open>A quest as the packets show it: money, experience, number of items, and the four reward slots (item, display, count).\<close>

record lfg_quest =
  lq_money :: uint32
  lq_xp :: uint32
  lq_rewItemsCount :: uint8
  lq_items :: "(uint32 \<times> uint32 \<times> uint32) list"

definition malformed :: "'a bb_result \<Rightarrow> lfg_fault + 'a" where
  "malformed r = (case r of Inl e \<Rightarrow> Inl (Malformed e) | Inr x \<Rightarrow> Inr x)"

definition managed :: "lfg_error + 'a \<Rightarrow> lfg_fault + 'a" where
  "managed r = (case r of Inl e \<Rightarrow> Inl (Manager e) | Inr x \<Rightarrow> Inr x)"

definition bool_field :: "bool \<Rightarrow> field" where
  "bool_field x = FU8 (if x then 1 else 0)"

section \<open>Packets to the client\<close>


fun join_result_code :: "LfgJoinResult \<Rightarrow> nat" where
  "join_result_code LFG_JOIN_OK = 0"
| "join_result_code LFG_JOIN_FAILED = 1"
| "join_result_code LFG_JOIN_GROUPFULL = 2"
| "join_result_code LFG_JOIN_INTERNAL_ERROR = 4"
| "join_result_code LFG_JOIN_NOT_MEET_REQS = 5"
| "join_result_code LFG_JOIN_PARTY_NOT_MEET_REQS = 6"
| "join_result_code LFG_JOIN_MIXED_RAID_DUNGEON = 7"
| "join_result_code LFG_JOIN_MULTI_REALM = 8"
| "join_result_code LFG_JOIN_DISCONNECTED = 9"
| "join_result_code LFG_JOIN_PARTY_INFO_FAILED = 10"
| "join_result_code LFG_JOIN_DUNGEON_INVALID = 11"
| "join_result_code LFG_JOIN_DESERTER = 12"
| "join_result_code LFG_JOIN_PARTY_DESERTER = 13"
| "join_result_code LFG_JOIN_RANDOM_COOLDOWN = 14"
| "join_result_code LFG_JOIN_PARTY_RANDOM_COOLDOWN = 15"
| "join_result_code LFG_JOIN_TOO_MUCH_MEMBERS = 16"
| "join_result_code LFG_JOIN_USING_BG_SYSTEM = 17"

fun role_check_code :: "LfgRoleCheckState \<Rightarrow> nat" where
  "role_check_code LFG_ROLECHECK_DEFAULT = 0"
| "role_check_code LFG_ROLECHECK_FINISHED = 1"
| "role_check_code LFG_ROLECHECK_INITIALITING = 2"
| "role_check_code LFG_ROLECHECK_MISSING_ROLE = 3"
| "role_check_code LFG_ROLECHECK_WRONG_ROLES = 4"
| "role_check_code LFG_ROLECHECK_ABORTED = 5"
| "role_check_code LFG_ROLECHECK_NO_ROLE = 6"

fun proposal_state_code :: "LfgProposalState \<Rightarrow> nat" where
  "proposal_state_code LFG_PROPOSAL_INITIATING = 0"
| "proposal_state_code LFG_PROPOSAL_FAILED = 1"
| "proposal_state_code LFG_PROPOSAL_SUCCESS = 2"

fun teleport_error_code :: "LfgTeleportError \<Rightarrow> nat" where
  "teleport_error_code LFG_TELEPORTERROR_OK = 0"
| "teleport_error_code LFG_TELEPORTERROR_PLAYER_DEAD = 1"
| "teleport_error_code LFG_TELEPORTERROR_FALLING = 2"
| "teleport_error_code LFG_TELEPORTERROR_IN_VEHICLE = 3"
| "teleport_error_code LFG_TELEPORTERROR_FATIGUE = 4"
| "teleport_error_code LFG_TELEPORTERROR_INVALID_LOCATION = 6"
| "teleport_error_code LFG_TELEPORTERROR_CHARMING = 8"

definition BuildPlayerLockDungeonBlock :: "LfgLockMap \<Rightarrow> field list" where
  "BuildPlayerLockDungeonBlock lock =
     FU32 (word_of_nat (length lock)) # concat (map (\<lambda>(entry, status). [FU32 entry, FU32 status]) lock)"

definition BuildPartyLockDungeonBlock :: "LfgLockPartyMap \<Rightarrow> field list" where
  "BuildPartyLockDungeonBlock lockMap =
     FU8 (word_of_nat (length lockMap)) # concat (map (\<lambda>(guid, lock). FU64 guid # BuildPlayerLockDungeonBlock lock) lockMap)"



definition SendLfgRoleChosen :: "uint64 \<Rightarrow> uint8 \<Rightarrow> packet" where
  "SendLfgRoleChosen guid roles = pkt 0x2BB [FU64 guid, bool_field (roles > 0), FU32 (ucast roles)]"

text \<open>\<open>levels\<close> gives the level of a player who is online, and 0 otherwise.\<close>

definition role_fields :: "(uint64 \<Rightarrow> uint8) \<Rightarrow> uint64 \<times> uint8 \<Rightarrow> field list" where
  "role_fields levels e = (case e of (guid, roles) \<Rightarrow> [FU64 guid, bool_field (roles > 0), FU32 (ucast roles), FU8 (levels guid)])"

definition SendLfgRoleCheckUpdate :: "(uint64 \<Rightarrow> uint8) \<Rightarrow> LFGMgr \<Rightarrow> LfgRoleCheck \<Rightarrow> lfg_error + packet" where
  "SendLfgRoleCheckUpdate levels m rc =
     (let dungeons = (if rc_rDungeonId rc \<noteq> 0 then [rc_rDungeonId rc] else rc_dungeons rc);
          head = [FU32 (word_of_nat (role_check_code (rc_state rc))), bool_field (rc_state rc = LFG_ROLECHECK_INITIALITING),
                  FU8 (word_of_nat (length dungeons))]
                 @ map (\<lambda>d. FU32 (GetLFGDungeonEntry m d)) dungeons @ [FU8 (word_of_nat (length (rc_roles rc)))]
      in if rc_roles rc = [] then Inr (pkt 0x363 head)
         else case map_of (rc_roles rc) (rc_leader rc) of
                None \<Rightarrow> Inl DereferencedEnd
              | Some roles \<Rightarrow>
                  Inr (pkt 0x363 (head @ role_fields levels (rc_leader rc, roles)
                    @ concat (map (role_fields levels) (filter (\<lambda>e. fst e \<noteq> rc_leader rc) (rc_roles rc))))))"

definition SendLfgJoinResult :: "LfgJoinResultData \<Rightarrow> packet" where
  "SendLfgJoinResult data =
     pkt 0x364 ([FU32 (word_of_nat (join_result_code (jr_result data))), FU32 (word_of_nat (role_check_code (jr_state data)))]
       @ (if jr_lockmap data \<noteq> [] then BuildPartyLockDungeonBlock (jr_lockmap data) else []))"

definition SendLfgQueueStatus :: "LfgQueueStatusData \<Rightarrow> packet" where
  "SendLfgQueueStatus q =
     pkt 0x365 [FU32 (st_dungeonId q), FU32 (word_of_int (st_waitTimeAvg q)), FU32 (word_of_int (st_waitTime q)),
       FU32 (word_of_int (st_waitTimeTank q)), FU32 (word_of_int (st_waitTimeHealer q)), FU32 (word_of_int (st_waitTimeDps q)),
       FU8 (st_tanks q), FU8 (st_healers q), FU8 (st_dps q), FU32 (st_queuedTime q)]"

definition reward_items :: "lfg_quest \<Rightarrow> field list" where
  "reward_items quest =
     FU8 (lq_rewItemsCount quest) #
     (if lq_rewItemsCount quest \<noteq> 0
      then concat (map (\<lambda>(itemId, display, count). if itemId \<noteq> 0 then [FU32 itemId, FU32 display, FU32 count] else []) (lq_items quest))
      else [])"

text \<open>\<open>quests\<close> gives the quests that exist.\<close>

definition SendLfgPlayerReward :: "(uint32 \<Rightarrow> lfg_quest option) \<Rightarrow> LfgPlayerRewardData \<Rightarrow> packet option" where
  "SendLfgPlayerReward quests data =
     (case quests (rd_quest data) of
        None \<Rightarrow> None
      | Some quest \<Rightarrow>
          if rd_rdungeonEntry data = 0 \<or> rd_sdungeonEntry data = 0 then None
          else Some (pkt 0x1FF ([FU32 (rd_rdungeonEntry data), FU32 (rd_sdungeonEntry data), bool_field (rd_done data), FU32 1,
                 FU32 (lq_money quest), FU32 (lq_xp quest), FU32 0, FU32 0] @ reward_items quest)))"

definition SendLfgBootProposalUpdate :: "int \<Rightarrow> uint64 \<Rightarrow> LfgPlayerBoot \<Rightarrow> lfg_error + packet" where
  "SendLfgBootProposalUpdate now guid boot =
     (case map_of (pb_votes boot) guid of
        None \<Rightarrow> Inl DereferencedEnd
      | Some playerVote \<Rightarrow>
          let votesNum = count_votes (\<lambda>a. a \<noteq> LFG_ANSWER_PENDING) boot;
              agreeNum = count_votes (\<lambda>a. a = LFG_ANSWER_AGREE) boot;
              secsleft = ucast (word_of_int (trunc_div (pb_cancelTime boot - now) 1000) :: uint8) :: uint32
          in Inr (pkt 0x36D [bool_field (pb_inProgress boot), bool_field (playerVote \<noteq> LFG_ANSWER_PENDING),
               bool_field (playerVote = LFG_ANSWER_AGREE), FU64 (pb_victim boot), FU32 (ucast votesNum), FU32 (ucast agreeNum),
               FU32 secsleft, FU32 3, FStr (takeWhile (\<lambda>c. c \<noteq> CHR 0x00) (pb_reason boot))]))"

text \<open>\<open>proposalId\<close> is the identifier of the proposal; the encounters are never set in the code and stay 0.\<close>

definition proposal_fields :: "uint64 \<Rightarrow> uint64 \<Rightarrow> LfgProposal \<Rightarrow> uint64 \<times> LfgProposalPlayer \<Rightarrow> field list" where
  "proposal_fields guid gguid p e =
     (case e of (g, pl) \<Rightarrow>
        [FU32 (ucast (pp_role pl)), bool_field (g = guid)]
        @ (if pp_group pl = 0 then [FU8 0, FU8 0] else [bool_field (pp_group pl = pr_group p), bool_field (pp_group pl = gguid)])
        @ [bool_field (pp_accept pl \<noteq> LFG_ANSWER_PENDING), bool_field (pp_accept pl = LFG_ANSWER_AGREE)])"

definition SendLfgUpdateProposal :: "LFGMgr \<Rightarrow> uint64 \<Rightarrow> uint32 \<Rightarrow> LfgProposal \<Rightarrow> lfg_error + packet" where
  "SendLfgUpdateProposal m guid proposalId p =
     (case map_of (pr_players p) guid of
        None \<Rightarrow> Inl DereferencedEnd
      | Some self \<Rightarrow>
          let gguid = pp_group self;
              silent = (\<not> pr_isNew p \<and> gguid = pr_group p);
              playerDungeons = pd_SelectedDungeons (player m guid)
          in bindE (if silent \<or> pr_dungeonId p \<in> set playerDungeons then Inr (pr_dungeonId p)
                    else case playerDungeons of [] \<Rightarrow> Inl DereferencedEnd | d # ds \<Rightarrow> Inr d)
               (\<lambda>dungeonEntry.
                  Inr (pkt 0x361 ([FU32 (GetLFGDungeonEntry m dungeonEntry), FU8 (word_of_nat (proposal_state_code (pr_state p))),
                    FU32 proposalId, FU32 0, bool_field silent, FU8 (word_of_nat (length (pr_players p)))]
                    @ concat (map (proposal_fields guid gguid p) (pr_players p))))))"

definition SendLfgLfrList :: "bool \<Rightarrow> packet" where
  "SendLfgLfrList update = pkt 0x369 [bool_field update]"

definition SendLfgDisabled :: packet where
  "SendLfgDisabled = pkt 0x398 []"

definition SendLfgOfferContinue :: "uint32 \<Rightarrow> packet" where
  "SendLfgOfferContinue dungeonEntry = pkt 0x293 [FU32 dungeonEntry]"

definition SendLfgTeleportError :: "LfgTeleportError \<Rightarrow> packet" where
  "SendLfgTeleportError err = pkt 0x200 [FU32 (word_of_nat (teleport_error_code err))]"

section \<open>Packets from the client\<close>

text \<open>
  The loop over the dungeons of a join packet counts with an \<^verbatim>\<open>int8\<close>, which is compared with the
  \<^verbatim>\<open>uint8\<close> number of dungeons as an \<^verbatim>\<open>int\<close>.  The fuel bounds the number of reads by the size of the packet.
\<close>

fun read_dungeons :: "nat \<Rightarrow> uint8 \<Rightarrow> uint8 \<Rightarrow> LfgDungeonSet \<Rightarrow> ByteBuffer \<Rightarrow> (LfgDungeonSet \<times> ByteBuffer) bb_result" where
  "read_dungeons 0 i numDungeons newDungeons b = Inl bb_error.OutOfFuel"
| "read_dungeons (Suc fuel) i numDungeons newDungeons b =
     (if sint i < uint numDungeons
      then bindE (bb_read b) (\<lambda>(dungeon :: uint32, b).
             read_dungeons fuel (i + 1) numDungeons (set_put (dungeon AND 0x00FFFFFF) newDungeons) b)
      else Inr (newDungeons, b))"

text \<open>The roles, dungeons and comment of a join packet; \<open>None\<close>: no dungeon was selected.\<close>

definition read_join :: "ByteBuffer \<Rightarrow> (uint8 \<times> LfgDungeonSet \<times> string) option bb_result" where
  "read_join b =
     bindE (bb_read b) (\<lambda>(roles :: uint32, b).
     bindE (bb_read_skip 2 b) (\<lambda>b.
     bindE (bb_read b) (\<lambda>(numDungeons :: uint8, b).
     if numDungeons = 0 then Inr None
     else bindE (read_dungeons (Suc (bb_size b)) 0 numDungeons [] b) (\<lambda>(newDungeons, b).
          bindE (bb_read_skip 4 b) (\<lambda>b.
          bindE (bb_read_string b) (\<lambda>(comment, b). Inr (Some (ucast roles, newDungeons, comment))))))))"














section \<open>All handlers\<close>






section \<open>Names\<close>

definition ConcatenateDungeons :: "LfgDungeonSet \<Rightarrow> string" where
  "ConcatenateDungeons dungeons =
     (case dungeons of [] \<Rightarrow> [] | d # ds \<Rightarrow> dec (unat d) @ concat (map (\<lambda>x. '', '' @ dec (unat x)) ds))"

text \<open>\<open>txt\<close> gives the text of an entry in the locale of the client data.\<close>

definition add_role :: "(nat \<Rightarrow> string) \<Rightarrow> uint8 \<Rightarrow> uint8 \<Rightarrow> nat \<Rightarrow> string \<Rightarrow> string" where
  "add_role txt roles role entry str =
     (if roles AND role \<noteq> 0 then str @ (if str \<noteq> [] then '', '' else []) @ txt entry else str)"

definition GetRolesString :: "(nat \<Rightarrow> string) \<Rightarrow> uint8 \<Rightarrow> string" where
  "GetRolesString txt roles =
     (let str = add_role txt roles PLAYER_ROLE_TANK 9994 [];
          str = add_role txt roles PLAYER_ROLE_HEALER 9995 str;
          str = add_role txt roles PLAYER_ROLE_DAMAGE 9996 str;
          str = add_role txt roles PLAYER_ROLE_LEADER 9997 str
      in if str = [] then txt 9998 else str)"

fun state_entry :: "LfgState \<Rightarrow> nat" where
  "state_entry LFG_STATE_NONE = 9986"
| "state_entry LFG_STATE_ROLECHECK = 9987"
| "state_entry LFG_STATE_QUEUED = 9988"
| "state_entry LFG_STATE_PROPOSAL = 9989"
| "state_entry LFG_STATE_BOOT = 9990"
| "state_entry LFG_STATE_DUNGEON = 9991"
| "state_entry LFG_STATE_FINISHED_DUNGEON = 9992"
| "state_entry LFG_STATE_RAIDBROWSER = 9993"

definition GetStateString :: "(nat \<Rightarrow> string) \<Rightarrow> LfgState \<Rightarrow> string" where
  "GetStateString txt state = txt (state_entry state)"

section \<open>Malformed packets\<close>

definition fault_free :: "lfg_fault + 'a \<Rightarrow> bool" where
  "fault_free r \<longleftrightarrow> (\<forall>e. r = Inl (Malformed e) \<longrightarrow> is_PositionException e)"

lemma fault_free_simps [simp]:
  "fault_free (Inr x)" "fault_free (Inl (Manager e))" "fault_free (managed q)"
  "fault_free (malformed r) \<longleftrightarrow> bb_safe r"
  by (auto simp: fault_free_def bb_safe_def managed_def malformed_def split: sum.split)

lemma fault_free_bindE: "fault_free r \<Longrightarrow> (\<And>x. r = Inr x \<Longrightarrow> fault_free (f x)) \<Longrightarrow> fault_free (bindE r f)"
  by (cases r) (auto simp: fault_free_def)

lemma malformed_Inr [simp]: "malformed r = Inr x \<longleftrightarrow> r = Inr x"
  by (auto simp: malformed_def split: sum.splits)

context safe_reader
begin

lemma keeps_wf: "bb_wf b \<Longrightarrow> rd b = Inr (x, b') \<Longrightarrow> bb_wf b'"
  using keeps [of b x b'] by (simp add: keeps_buffer_def)

lemma safe_bind:
  assumes "bb_wf b" "\<And>x b'. rd b = Inr (x, b') \<Longrightarrow> bb_wf b' \<Longrightarrow> bb_safe (f x b')"
  shows "bb_safe (bindE (rd b) (\<lambda>(x, b'). f x b'))"
proof (rule bb_safe_bindE)
  show "bb_safe (rd b)" by (rule no_fault [OF assms(1)])
next
  fix p assume p: "rd b = Inr p"
  obtain x b' where "p = (x, b')" by (cases p)
  with p assms(2) [of x b'] keeps_wf [OF assms(1), of x b'] show "bb_safe (case p of (x, b') \<Rightarrow> f x b')" by simp
qed

lemma guarded_read:
  assumes "bb_wf b" "\<And>x b'. bb_wf b' \<Longrightarrow> fault_free (f x b')"
  shows "fault_free (bindE (malformed (rd b)) (\<lambda>(x, b'). f x b'))"
proof (rule fault_free_bindE)
  show "fault_free (malformed (rd b))" using no_fault [OF assms(1)] by simp
next
  fix p assume "malformed (rd b) = Inr p"
  then have p: "rd b = Inr p" by simp
  obtain x b' where "p = (x, b')" by (cases p)
  with p assms(2) [of b' x] keeps_wf [OF assms(1), of x b'] show "fault_free (case p of (x, b') \<Rightarrow> f x b')" by simp
qed

end

declare read_dungeons.simps [simp del]

lemma read_dungeons_more:
  "sint i < uint n \<Longrightarrow> read_dungeons (Suc fuel) i n ds b = bindE (bb_read b) (\<lambda>(dungeon :: uint32, b).
     read_dungeons fuel (i + 1) n (set_put (dungeon AND 0x00FFFFFF) ds) b)"
  by (simp only: read_dungeons.simps if_True)

lemma read_dungeons_end: "\<not> sint i < uint n \<Longrightarrow> read_dungeons (Suc fuel) i n ds b = Inr (ds, b)"
  by (simp only: read_dungeons.simps if_False)

text \<open>The loop over the dungeons ends with the packet.\<close>

lemma read_dungeons_safe:
  "bb_wf b \<Longrightarrow> bb_size b - bb_rpos b < fuel \<Longrightarrow>
   bb_safe (read_dungeons fuel i n ds b) \<and> (\<forall>ds' b'. read_dungeons fuel i n ds b = Inr (ds', b') \<longrightarrow> bb_wf b')"
proof (induction fuel arbitrary: i ds b)
  case (Suc fuel)
  show ?case
  proof (cases "sint i < uint n")
    case False
    then show ?thesis using Suc.prems(1) by (simp add: read_dungeons_end)
  next
    case True
    note step = read_dungeons_more [OF True]
    show ?thesis
    proof (cases "bb_read b :: (uint32 \<times> ByteBuffer) bb_result")
      case (Inl e)
      with r32.no_fault [OF Suc.prems(1)] step show ?thesis by simp
    next
      case (Inr p)
      obtain d c where "p = (d, c)" by (cases p)
      with Inr have p: "bb_read b = Inr (d, c)" by simp
      have c: "bb_wf c" "bb_storage c = bb_storage b" "bb_rpos c = bb_rpos b + 4"
        using bb_read_wf [OF Suc.prems(1) _ p] by simp_all
      have "bb_rpos c \<le> bb_size c" using c(1) by (simp add: bb_wf_def)
      then have "bb_size c - bb_rpos c < fuel" using Suc.prems(2) c by simp
      from Suc.IH [OF c(1) this] show ?thesis by (simp add: step p)
    qed
  qed
qed (simp add: read_dungeons.simps)


text \<open>With 128 dungeons or more the counter never reaches their number.\<close>

lemma read_dungeons_never_done:
  "n \<ge> 128 \<Longrightarrow> read_dungeons fuel i n ds b \<noteq> Inr r"
proof (induction fuel arbitrary: i ds b)
  case (Suc fuel)
  have "sint i < 128" using sint_lt [of i] by simp
  moreover have "128 \<le> uint n" using Suc.prems by (simp add: word_le_def)
  ultimately have "sint i < uint n" by linarith
  then show ?case using Suc.IH [OF Suc.prems] by (auto simp: read_dungeons_more bindE_Inr_iff)
qed (simp add: read_dungeons.simps)

text \<open>Reads fail with the position exception only.\<close>

lemma read_dungeons_error:
  "bb_wf b \<Longrightarrow> read_dungeons fuel i n ds b = Inl e \<Longrightarrow> e = bb_error.OutOfFuel \<or> (\<exists>pos. e = PositionException False pos 4 (bb_size b))"
proof (induction fuel arbitrary: i ds b)
  case (Suc fuel)
  show ?case
  proof (cases "sint i < uint n")
    case False
    then show ?thesis using Suc.prems(2) by (simp add: read_dungeons_end)
  next
    case True
    note step = read_dungeons_more [OF True]
    show ?thesis
    proof (cases "bb_read b :: (uint32 \<times> ByteBuffer) bb_result")
      case (Inl e')
      then show ?thesis using Suc.prems step
        by (auto simp: bb_read_def bb_read_at_cases bb_wf_def split: if_splits)
    next
      case (Inr p)
      obtain d c where "p = (d, c)" by (cases p)
      with Inr have p: "bb_read b = Inr (d, c)" by simp
      have c: "bb_wf c" "bb_storage c = bb_storage b" using bb_read_wf [OF Suc.prems(1) _ p] by simp_all
      have "read_dungeons fuel (i + 1) n (set_put (d AND 0x00FFFFFF) ds) c = Inl e" using Suc.prems(2) step p by simp
      from Suc.IH [OF c(1) this] c(2) show ?thesis by simp
    qed
  qed
qed (simp add: read_dungeons.simps)

section \<open>Join packets\<close>

text \<open>The packet of a client that asks for the dungeons \<open>ds\<close>.\<close>

definition join_fields :: "uint32 \<Rightarrow> uint16 \<Rightarrow> uint32 list \<Rightarrow> uint32 \<Rightarrow> string \<Rightarrow> field list" where
  "join_fields roles x ds y comment =
     [FU32 roles, FU16 x, FU8 (word_of_nat (length ds))] @ map FU32 ds @ [FU32 y, FStr comment]"

lemma sint_count: "k < 128 \<Longrightarrow> sint (word_of_nat k :: uint8) = int k"
  by (simp add: signed_of_nat signed_take_bit_int_eq_self)

lemma uint_count: "k < 128 \<Longrightarrow> uint (word_of_nat k :: uint8) = int k"
  by (simp add: uint_nat unat_of_nat)

lemma read_dungeons_enc:
  assumes "bb_wf b" "drop (bb_rpos b) (bb_storage b) = fields_enc (map FU32 ds) @ rest" "length ds < fuel" "k + length ds < 128"
  shows "read_dungeons fuel (word_of_nat k) (word_of_nat (k + length ds)) acc b =
    Inr (fold (\<lambda>d. set_put (d AND 0x00FFFFFF)) ds acc, advance (length (fields_enc (map FU32 ds))) b)"
  using assms
proof (induction ds arbitrary: fuel k acc b)
  case Nil
  then obtain f where f: "fuel = Suc f" by (cases fuel) auto
  have "\<not> sint (word_of_nat k :: uint8) < uint (word_of_nat k :: uint8)"
    using Nil.prems by (simp add: sint_count uint_count)
  then show ?case by (simp add: f read_dungeons_end)
next
  case (Cons d ds)
  then obtain f where f: "fuel = Suc f" by (cases fuel) auto
  have less: "sint (word_of_nat k :: uint8) < uint (word_of_nat (k + length (d # ds)) :: uint8)"
    using Cons.prems(4) sint_count [of k] uint_count [of "k + length (d # ds)"] by simp
  have dr: "drop (bb_rpos b) (bb_storage b) = word_enc d @ (fields_enc (map FU32 ds) @ rest)" using Cons.prems(2) by simp
  have read: "bb_read b = Inr (d, advance (length (word_enc d)) b)"
    by (rule u32c.rd_ok [OF TrueI Cons.prems(1) dr])
  have "read_dungeons f (word_of_nat (Suc k)) (word_of_nat (Suc k + length ds)) (set_put (d AND 0x00FFFFFF) acc) (advance (length (word_enc d)) b)
    = Inr (fold (\<lambda>d. set_put (d AND 0x00FFFFFF)) ds (set_put (d AND 0x00FFFFFF) acc),
        advance (length (fields_enc (map FU32 ds))) (advance (length (word_enc d)) b))"
    using Cons.prems f by (intro Cons.IH bb_wf_advance [OF _ dr] drop_advance [OF dr]) auto
  then show ?case using read_dungeons_more [OF less] read by (simp add: f add.commute)
qed

lemma skip_enc:
  assumes "bb_wf b" "drop (bb_rpos b) (bb_storage b) = bs @ rest"
  shows "bb_read_skip (length bs) b = Inr (advance (length bs) b)"
proof -
  have "bb_rpos b + length bs \<le> bb_size b" using arg_cong [OF assms(2), of length] assms(1) by (auto simp: bb_wf_def)
  moreover have "bb_size b < 2 ^ 62" using assms(1) by (simp add: bb_wf_def)
  ultimately show ?thesis by (simp add: bb_read_skip_def advance_def)
qed

lemma read_join_enc:
  assumes "bb_wf b" "drop (bb_rpos b) (bb_storage b) = fields_enc (join_fields roles x ds y comment) @ rest"
    and "ds \<noteq> []" "length ds < 128" "CHR 0x00 \<notin> set comment"
  shows "read_join b = Inr (Some (ucast roles, set_of_list (map (\<lambda>d. d AND 0x00FFFFFF) ds), comment))"
proof -
  define n :: uint8 where "n = word_of_nat (length ds)"
  define b1 where "b1 = advance 4 b"
  define b2 where "b2 = advance 2 b1"
  define b3 where "b3 = advance 1 b2"
  define b4 where "b4 = advance (length (fields_enc (map FU32 ds))) b3"
  define b5 where "b5 = advance 4 b4"
  have d0: "drop (bb_rpos b) (bb_storage b) = word_enc roles @ (word_enc x @ (word_enc n @ (fields_enc (map FU32 ds)
      @ (word_enc y @ (string_enc comment @ rest)))))"
    using assms(2) by (simp add: join_fields_def n_def)
  have b1: "bb_wf b1" "drop (bb_rpos b1) (bb_storage b1) = word_enc x @ (word_enc n @ (fields_enc (map FU32 ds)
      @ (word_enc y @ (string_enc comment @ rest))))" "bb_read b = Inr (roles, b1)"
    using bb_wf_advance [OF assms(1) d0] drop_advance [OF d0] u32c.rd_ok [OF TrueI assms(1) d0] by (simp_all add: b1_def)
  have b2: "bb_wf b2" "drop (bb_rpos b2) (bb_storage b2) = word_enc n @ (fields_enc (map FU32 ds)
      @ (word_enc y @ (string_enc comment @ rest)))" "bb_read_skip 2 b1 = Inr b2"
    using bb_wf_advance [OF b1(1,2)] drop_advance [OF b1(2)] skip_enc [OF b1(1,2)] by (simp_all add: b2_def)
  have b3: "bb_wf b3" "drop (bb_rpos b3) (bb_storage b3) = fields_enc (map FU32 ds)
      @ (word_enc y @ (string_enc comment @ rest))" "bb_read b2 = Inr (n, b3)"
    using bb_wf_advance [OF b2(1,2)] drop_advance [OF b2(2)] u8c.rd_ok [OF TrueI b2(1,2)] by (simp_all add: b3_def)
  have b4: "bb_wf b4" "drop (bb_rpos b4) (bb_storage b4) = word_enc y @ (string_enc comment @ rest)"
    using bb_wf_advance [OF b3(1,2)] drop_advance [OF b3(2)] by (simp_all only: b4_def)
  have b5: "bb_wf b5" "drop (bb_rpos b5) (bb_storage b5) = string_enc comment @ rest" "bb_read_skip 4 b4 = Inr b5"
    using bb_wf_advance [OF b4(1,2)] drop_advance [OF b4(2)] skip_enc [OF b4(1,2)] by (simp_all add: b5_def)
  have "length (fields_enc (map FU32 ds)) = 4 * length ds" by (induction ds) simp_all
  then have "4 * length ds \<le> bb_size b3" using arg_cong [OF b3(2), of length] by simp
  then have loop: "read_dungeons (Suc (bb_size b3)) 0 n [] b3 = Inr (set_of_list (map (\<lambda>d. d AND 0x00FFFFFF) ds), b4)"
    using read_dungeons_enc [OF b3(1,2), of "Suc (bb_size b3)" 0 "[]"] assms(4)
    by (simp add: n_def b4_def set_of_list_def fold_map comp_def)
  have "unat n = length ds" using assms(4) by (simp add: n_def unat_of_nat)
  then have "n \<noteq> 0" using assms(3) by auto
  moreover have "bb_read_string b5 = Inr (comment, advance (length (string_enc comment)) b5)"
    by (rule strc.rd_ok [OF assms(5) b5(1,2)])
  ultimately show ?thesis using b1(3) b2(3) b3(3) loop b5(3) by (simp add: read_join_def)
qed

text \<open>
  C34.  A join packet that names between one and 127 dungeons is decoded exactly as the client wrote
  it: the roles, the set of the dungeons without their types, and the comment.
\<close>

theorem join_packet_roundtrip:
  assumes "render (pkt 0x35C (join_fields roles x ds y comment)) = Inr p"
    and "ds \<noteq> []" "length ds < 128" "CHR 0x00 \<notin> set comment" "length comment < 100000"
  shows "read_join (wp_buffer p) = Inr (Some (ucast roles, set_of_list (map (\<lambda>d. d AND 0x00FFFFFF) ds), comment))"
proof -
  let ?fs = "join_fields roles x ds y comment"
  have len: "length (fields_enc (map FU32 ds)) = 4 * length ds" by (induction ds) simp_all
  have ok: "list_all field_ok ?fs" "length (fields_enc ?fs) < 10000000"
    using assms(3-5) len by (simp_all add: join_fields_def list_all_iff string_enc_def)
  then have "p = \<lparr>wp_buffer = grow (fields_enc ?fs) bb_new, wp_opcode = 0x35C\<rparr>" using render_ok [of "pkt 0x35C ?fs"] assms(1) by simp
  moreover have "bb_wf (grow (fields_enc ?fs) bb_new)" using ok(2) by (simp add: bb_wf_def)
  ultimately show ?thesis using read_join_enc [of "wp_buffer p" roles x ds y comment "[]"] assms(2-4) by simp
qed

theorem join_packet_roundtrip_witness:
  "\<exists>p. render (pkt 0x35C (join_fields 10 0 [0x01000007, 0x05000009] 0 ''hi'')) = Inr p
     \<and> read_join (wp_buffer p) = Inr (Some (10, [7, 9], ''hi''))"
proof -
  let ?fs = "join_fields 10 0 [0x01000007, 0x05000009] 0 ''hi''"
  have "\<exists>p. render (pkt 0x35C ?fs) = Inr p"
    using render_ok [of "pkt 0x35C ?fs"] by (auto simp: join_fields_def string_enc_def)
  then obtain p where p: "render (pkt 0x35C ?fs) = Inr p" ..
  have "set_of_list (map (\<lambda>d. d AND 0x00FFFFFF) [0x01000007, 0x05000009 :: uint32]) = [7, 9]" by code_simp
  then show ?thesis using join_packet_roundtrip [OF p] p by simp
qed

text \<open>
  The loop over the dungeons of a join packet counts with a signed byte.  A packet that announces
  128 dungeons or more is never accepted: the counter wraps around before it reaches the number, and
  the loop reads on until the packet ends and a read throws the position exception.  The loop always
  ends so, since every turn consumes four bytes.
\<close>

theorem join_many_dungeons_throws:
  assumes "bb_wf b" "bb_read b = Inr (roles :: uint32, b1)" "bb_read_skip 2 b1 = Inr b2" "bb_read b2 = Inr (n :: uint8, b3)" "128 \<le> n"
  shows "\<exists>pos. read_join b = Inl (PositionException False pos 4 (bb_size b))"
proof -
  have b1: "keeps_buffer b b1" using r32.keeps [OF assms(1,2)] .
  then have b2: "keeps_buffer b1 b2" using skip_keeps [OF _ assms(3)] by (simp add: keeps_buffer_def)
  then have b3: "keeps_buffer b2 b3" using r8.keeps [OF _ assms(4)] by (simp add: keeps_buffer_def)
  have wf: "bb_wf b3" "bb_size b3 = bb_size b" using b1 b2 b3 by (simp_all add: keeps_buffer_def)
  obtain e where e: "read_dungeons (Suc (bb_size b3)) 0 n [] b3 = Inl e"
    using read_dungeons_never_done [OF assms(5)] by (cases "read_dungeons (Suc (bb_size b3)) 0 n [] b3") auto
  moreover have "bb_safe (read_dungeons (Suc (bb_size b3)) 0 n [] b3)" using read_dungeons_safe [OF wf(1)] by simp
  ultimately obtain pos where "e = PositionException False pos 4 (bb_size b)"
    using read_dungeons_error [OF wf(1) e] wf(2) by (auto simp: bb_safe_def)
  moreover have "n \<noteq> 0" using assms(5) by (auto simp: word_le_def)
  ultimately show ?thesis using assms(2-4) e by (simp add: read_join_def)
qed

text \<open>A packet with 130 dungeons, all of them there.\<close>

definition demo_many_bytes :: "uint8 list" where
  "demo_many_bytes = word_enc (2 :: uint32) @ (word_enc (0 :: uint16) @ (word_enc (130 :: uint8)
     @ (concat (replicate 130 (word_enc (0x01000007 :: uint32))) @ replicate 5 0)))"

definition demo_many :: ByteBuffer where
  "demo_many = \<lparr>bb_rpos = 0, bb_wpos = 532, bb_storage = demo_many_bytes\<rparr>"

theorem join_many_dungeons_throws_witness:
  "\<exists>pos. read_join demo_many = Inl (PositionException False pos 4 532)"
proof -
  have size: "bb_size demo_many = 532"
    by (simp add: demo_many_def demo_many_bytes_def length_concat map_replicate_const sum_list_replicate)
  then have wf: "bb_wf demo_many" by (simp add: bb_wf_def demo_many_def)
  have d: "drop (bb_rpos demo_many) (bb_storage demo_many) = word_enc (2 :: uint32) @ (word_enc (0 :: uint16) @ (word_enc (130 :: uint8)
     @ (concat (replicate 130 (word_enc (0x01000007 :: uint32))) @ replicate 5 0)))"
    by (simp add: demo_many_def demo_many_bytes_def)
  note d1 = drop_advance [OF d] and w1 = bb_wf_advance [OF wf d]
  note d2 = drop_advance [OF d1] and w2 = bb_wf_advance [OF w1 d1]
  have "bb_read_skip 2 (advance (length (word_enc (2 :: uint32))) demo_many)
      = Inr (advance (length (word_enc (0 :: uint16))) (advance (length (word_enc (2 :: uint32))) demo_many))"
    using skip_enc [OF w1 d1] by simp
  from join_many_dungeons_throws [OF wf u32c.rd_ok [OF TrueI wf d] this u8c.rd_ok [OF TrueI w2 d2]] size show ?thesis by simp
qed


section \<open>All packets\<close>

lemma managed_Inr [simp]: "managed (Inr x) = Inr x" "managed r = Inr x \<longleftrightarrow> r = Inr x"
  by (auto simp: managed_def split: sum.splits)












section \<open>The time left to vote\<close>

lemma InitBoot_cancel:
  "map_of (BootsStore (InitBoot env gguid kicker victim reason m)) gguid = Some boot \<Longrightarrow> pb_cancelTime boot = me_now env + 120"
  by (auto simp: InitBoot_def Let_def lfg_frame split: if_splits)

text \<open>
  The packet of a vote shows the time left divided by 1000, though times are kept in seconds.  Votes
  last 120 seconds, so for a vote that \<^verbatim>\<open>InitBoot\<close> has started the client is told, at every moment until
  it ends, that no time is left.
\<close>

theorem vote_shows_no_time_left:
  assumes "map_of (BootsStore (InitBoot env gguid kicker victim reason m)) gguid = Some boot"
    and "me_now env \<le> now" "now \<le> pb_cancelTime boot"
    and "SendLfgBootProposalUpdate now guid boot = Inr p"
  shows "pb_cancelTime boot = me_now env + 120 \<and> pk_fields p ! 6 = FU32 0"
proof -
  have cancel: "pb_cancelTime boot = me_now env + 120" by (rule InitBoot_cancel [OF assms(1)])
  then have "trunc_div (pb_cancelTime boot - now) 1000 = 0" using assms(2,3) by (simp add: trunc_div_def)
  then show ?thesis using cancel assms(4) by (auto simp: SendLfgBootProposalUpdate_def Let_def split: option.splits)
qed

theorem vote_shows_no_time_left_witness:
  "\<exists>boot p. map_of (BootsStore (InitBoot demo_env 0x1F50000000000001 5 6 ''afk'' demo_finishing)) 0x1F50000000000001 = Some boot
     \<and> SendLfgBootProposalUpdate (me_now demo_env + 1) 5 boot = Inr p \<and> pk_fields p ! 6 = FU32 0"
proof -
  let ?m = "InitBoot demo_env 0x1F50000000000001 5 6 ''afk'' demo_finishing"
  have "map_of (BootsStore ?m) 0x1F50000000000001 \<noteq> None
    \<and> map_of (pb_votes (the (map_of (BootsStore ?m) 0x1F50000000000001))) 5 = Some LFG_ANSWER_AGREE" by code_simp
  then obtain boot where boot: "map_of (BootsStore ?m) 0x1F50000000000001 = Some boot" "map_of (pb_votes boot) 5 = Some LFG_ANSWER_AGREE"
    by auto
  then obtain p where p: "SendLfgBootProposalUpdate (me_now demo_env + 1) 5 boot = Inr p" by (simp add: SendLfgBootProposalUpdate_def Let_def)
  have "pb_cancelTime boot = me_now demo_env + 120" by (rule InitBoot_cancel [OF boot(1)])
  then show ?thesis using vote_shows_no_time_left [OF boot(1) _ _ p] boot(1) p by simp
qed


end
