(* ===== verification/EventProcessor.thy ===== *)
theory EventProcessor
  imports FC_Prelude
begin

text \<open>
  The event processor of units and other world objects: \<^verbatim>\<open>shared/Utilities/EventProcessor.{h,cpp}\<close>.

  Events are heap objects that the processor owns.  The model keeps them in a store from object
  identities to their fields, in which a deleted object has no entry, so that using or deleting
  a deleted event is an error value.  The virtual methods of an event are supplied by the
  environment: \<open>ee_Execute\<close> gives the answer of \<^verbatim>\<open>Execute\<close> and what it does to the processor (it may add
  new events, add itself again, or kill all events), \<open>ee_IsDeletable\<close> the answer of \<^verbatim>\<open>IsDeletable\<close>.
  \<^verbatim>\<open>Abort\<close> is recorded in the log; it is taken not to touch the processor.

  \<^verbatim>\<open>Update\<close> may run forever when events add events that are due at once; it is a partial function,
  and that it returns is proved for events that only add later ones.
\<close>

section \<open>Events and their store\<close>

record BasicEvent =
  be_to_Abort :: bool
  be_addTime :: uint64
  be_execTime :: uint64

definition BasicEvent_new :: BasicEvent where
  "BasicEvent_new = \<lparr>be_to_Abort = False, be_addTime = 0, be_execTime = 0\<rparr>"

datatype ep_error = UseAfterFree

datatype ep_action = EvExecuted nat | EvAborted nat | EvDeleted nat

text \<open>What an event's \<^verbatim>\<open>Execute\<close> may do to the processor.\<close>

datatype ep_command = AddNew uint64 bool | AddSelf uint64 bool | KillAll bool

record ep_env =
  ee_Execute :: "nat \<Rightarrow> nat \<Rightarrow> uint64 \<Rightarrow> uint32 \<Rightarrow> bool \<times> ep_command list"
  ee_IsDeletable :: "nat \<Rightarrow> bool"

record EventProcessor =
  ep_time :: uint64
  ep_events :: "(uint64, nat) mmap"
  ep_aborting :: bool
  ep_objects :: "nat \<Rightarrow> BasicEvent option"
  ep_fresh :: nat
  ep_log :: "ep_action list"

definition EventProcessor_new :: EventProcessor where
  "EventProcessor_new = \<lparr>ep_time = 0, ep_events = [], ep_aborting = False, ep_objects = (\<lambda>i. None), ep_fresh = 0, ep_log = []\<rparr>"

definition ep_do :: "ep_action \<Rightarrow> EventProcessor \<Rightarrow> EventProcessor" where
  "ep_do a s = s\<lparr>ep_log := ep_log s @ [a]\<rparr>"

text \<open>\<^verbatim>\<open>delete\<close>, and a change of the fields of an event through its pointer.\<close>

definition ep_delete :: "nat \<Rightarrow> EventProcessor \<Rightarrow> ep_error + EventProcessor" where
  "ep_delete i s =
     (case ep_objects s i of
        None \<Rightarrow> Inl UseAfterFree
      | Some ev \<Rightarrow> Inr (ep_do (EvDeleted i) (s\<lparr>ep_objects := (ep_objects s)(i := None)\<rparr>)))"

definition ep_modify :: "nat \<Rightarrow> (BasicEvent \<Rightarrow> BasicEvent) \<Rightarrow> EventProcessor \<Rightarrow> ep_error + EventProcessor" where
  "ep_modify i f s =
     (case ep_objects s i of
        None \<Rightarrow> Inl UseAfterFree
      | Some ev \<Rightarrow> Inr (s\<lparr>ep_objects := (ep_objects s)(i \<mapsto> f ev)\<rparr>))"

definition ep_construct :: "EventProcessor \<Rightarrow> nat \<times> EventProcessor" where
  "ep_construct s =
     (ep_fresh s, s\<lparr>ep_objects := (ep_objects s)(ep_fresh s \<mapsto> BasicEvent_new), ep_fresh := Suc (ep_fresh s)\<rparr>)"

section \<open>The operations\<close>

definition AddEvent :: "nat \<Rightarrow> uint64 \<Rightarrow> bool \<Rightarrow> EventProcessor \<Rightarrow> ep_error + EventProcessor" where
  "AddEvent i e_time set_addtime s =
     bindE (ep_modify i (\<lambda>ev. (if set_addtime then ev\<lparr>be_addTime := ep_time s\<rparr> else ev)\<lparr>be_execTime := e_time\<rparr>) s)
       (\<lambda>s. Inr (s\<lparr>ep_events := mm_insert e_time i (ep_events s)\<rparr>))"

definition CalculateTime :: "uint64 \<Rightarrow> EventProcessor \<Rightarrow> uint64" where
  "CalculateTime t_offset s = ep_time s + t_offset"

text \<open>The loop of \<^verbatim>\<open>KillAllEvents\<close>; the list returned holds the entries that are not erased.\<close>

fun kill_loop :: "ep_env \<Rightarrow> bool \<Rightarrow> (uint64, nat) mmap \<Rightarrow> EventProcessor \<Rightarrow> ep_error + (uint64, nat) mmap \<times> EventProcessor" where
  "kill_loop env force [] s = Inr ([], s)"
| "kill_loop env force ((t, i) # es) s =
     bindE (ep_modify i (\<lambda>ev. ev\<lparr>be_to_Abort := True\<rparr>) s) (\<lambda>s.
       let s = ep_do (EvAborted i) s
       in if force \<or> ee_IsDeletable env i
          then bindE (ep_delete i s) (\<lambda>s. bindE (kill_loop env force es s) (\<lambda>(kept, s).
                 Inr (if force then (t, i) # kept else kept, s)))
          else bindE (kill_loop env force es s) (\<lambda>(kept, s). Inr ((t, i) # kept, s)))"

definition KillAllEvents :: "ep_env \<Rightarrow> bool \<Rightarrow> EventProcessor \<Rightarrow> ep_error + EventProcessor" where
  "KillAllEvents env force s =
     bindE (kill_loop env force (ep_events s) (s\<lparr>ep_aborting := True\<rparr>))
       (\<lambda>(kept, s). Inr (s\<lparr>ep_events := if force then [] else kept\<rparr>))"

definition run_command :: "ep_env \<Rightarrow> nat \<Rightarrow> ep_command \<Rightarrow> EventProcessor \<Rightarrow> ep_error + EventProcessor" where
  "run_command env self c s =
     (case c of
        AddNew t b \<Rightarrow> (case ep_construct s of (i, s) \<Rightarrow> AddEvent i t b s)
      | AddSelf t b \<Rightarrow> AddEvent self t b s
      | KillAll force \<Rightarrow> KillAllEvents env force s)"

fun run_commands :: "ep_env \<Rightarrow> nat \<Rightarrow> ep_command list \<Rightarrow> EventProcessor \<Rightarrow> ep_error + EventProcessor" where
  "run_commands env self [] s = Inr s"
| "run_commands env self (c # cs) s = bindE (run_command env self c s) (run_commands env self cs)"

text \<open>The body of the loop of \<^verbatim>\<open>Update\<close>, for an event that has been taken out of the queue.\<close>

definition run_event :: "ep_env \<Rightarrow> uint32 \<Rightarrow> nat \<Rightarrow> EventProcessor \<Rightarrow> ep_error + EventProcessor" where
  "run_event env p_time i s =
     (case ep_objects s i of
        None \<Rightarrow> Inl UseAfterFree
      | Some ev \<Rightarrow>
          if \<not> be_to_Abort ev
          then case ee_Execute env i (length (ep_log s)) (ep_time s) p_time of (done, cs) \<Rightarrow>
                 bindE (run_commands env i cs (ep_do (EvExecuted i) s)) (\<lambda>s. if done then ep_delete i s else Inr s)
          else ep_delete i (ep_do (EvAborted i) s))"

partial_function (option) update_loop :: "ep_env \<Rightarrow> uint32 \<Rightarrow> EventProcessor \<Rightarrow> (ep_error + EventProcessor) option" where
  "update_loop env p_time s =
     (case ep_events s of
        [] \<Rightarrow> Some (Inr s)
      | (t, i) # es \<Rightarrow>
          if t \<le> ep_time s
          then case run_event env p_time i (s\<lparr>ep_events := es\<rparr>) of
                 Inl e \<Rightarrow> Some (Inl e)
               | Inr s \<Rightarrow> update_loop env p_time s
          else Some (Inr s))"

definition EventProcessor_Update :: "ep_env \<Rightarrow> uint32 \<Rightarrow> EventProcessor \<Rightarrow> (ep_error + EventProcessor) option" where
  "EventProcessor_Update env p_time s = update_loop env p_time (s\<lparr>ep_time := ep_time s + ucast p_time\<rparr>)"

text \<open>The flag set from outside to have an event aborted instead of executed.\<close>

definition set_to_Abort :: "nat \<Rightarrow> EventProcessor \<Rightarrow> ep_error + EventProcessor" where
  "set_to_Abort i s = ep_modify i (\<lambda>ev. ev\<lparr>be_to_Abort := True\<rparr>) s"

declare update_loop.simps [code]

section \<open>Ownership\<close>

text \<open>
  The processor owns exactly the live events: every queued event is alive and queued once, and every
  live event is queued, apart from those of \<open>X\<close> (the event that is being executed).
\<close>

definition owns :: "nat set \<Rightarrow> EventProcessor \<Rightarrow> bool" where
  "owns X s \<longleftrightarrow> mm_wf (ep_events s) \<and> distinct (map snd (ep_events s))
     \<and> dom (ep_objects s) = snd ` set (ep_events s) \<union> X \<and> X \<inter> snd ` set (ep_events s) = {}
     \<and> (\<forall>i \<in> dom (ep_objects s). i < ep_fresh s)"

lemma owns_alive: "owns X s \<Longrightarrow> i \<in> X \<Longrightarrow> \<exists>ev. ep_objects s i = Some ev"
  by (simp add: owns_def domIff set_eq_iff)

lemma owns_fresh: "owns X s \<Longrightarrow> i \<in> snd ` set (ep_events s) \<union> X \<Longrightarrow> i < ep_fresh s"
  unfolding owns_def by metis

definition due_events :: "EventProcessor \<Rightarrow> (uint64, nat) mmap" where
  "due_events s = filter (\<lambda>e. fst e \<le> ep_time s) (ep_events s)"

text \<open>The part of the log that tells which events were executed or aborted.\<close>

definition runs :: "EventProcessor \<Rightarrow> ep_action list" where
  "runs s = filter (\<lambda>a. \<not> (\<exists>i. a = EvDeleted i)) (ep_log s)"

definition planned :: "EventProcessor \<Rightarrow> nat \<Rightarrow> ep_action" where
  "planned s i = (case ep_objects s i of
     Some ev \<Rightarrow> if be_to_Abort ev then EvAborted i else EvExecuted i | None \<Rightarrow> EvExecuted i)"

lemma distinct_mm_insert: "distinct (map snd (mm_insert k v m)) \<longleftrightarrow> v \<notin> snd ` set m \<and> distinct (map snd m)"
  by (induction m) auto

lemma AddEvent_ok:
  assumes "ep_objects s i = Some ev"
  shows "\<exists>ev'. AddEvent i t b s = Inr (s\<lparr>ep_objects := (ep_objects s)(i \<mapsto> ev'), ep_events := mm_insert t i (ep_events s)\<rparr>)
    \<and> be_to_Abort ev' = be_to_Abort ev"
  using assms by (auto simp: AddEvent_def ep_modify_def)

text \<open>What a loop of \<^verbatim>\<open>KillAllEvents\<close> leaves behind.\<close>

lemma kill_loop_ok:
  assumes "snd ` set es \<subseteq> dom (ep_objects s)" "distinct (map snd es)"
  shows "\<exists>s'. kill_loop env force es s = Inr (if force then es else filter (\<lambda>e. \<not> ee_IsDeletable env (snd e)) es, s')
    \<and> dom (ep_objects s') = dom (ep_objects s) - {i \<in> snd ` set es. force \<or> ee_IsDeletable env i}
    \<and> ep_time s' = ep_time s \<and> ep_fresh s' = ep_fresh s \<and> ep_events s' = ep_events s \<and> ep_aborting s' = ep_aborting s"
  using assms
proof (induction es arbitrary: s)
  case (Cons e es)
  obtain t i where e: "e = (t, i)" by fastforce
  from Cons.prems e obtain ev where ev: "ep_objects s i = Some ev" by auto
  define s1 where "s1 = ep_do (EvAborted i) (s\<lparr>ep_objects := (ep_objects s)(i \<mapsto> ev\<lparr>be_to_Abort := True\<rparr>)\<rparr>)"
  define s2 where "s2 = ep_do (EvDeleted i) (s1\<lparr>ep_objects := (ep_objects s1)(i := None)\<rparr>)"
  note defs = s1_def s2_def ep_do_def
  have m: "ep_modify i (\<lambda>ev. ev\<lparr>be_to_Abort := True\<rparr>) s = Inr (s\<lparr>ep_objects := (ep_objects s)(i \<mapsto> ev\<lparr>be_to_Abort := True\<rparr>)\<rparr>)"
    using ev by (simp add: ep_modify_def)
  have d: "ep_delete i s1 = Inr s2" by (simp add: ep_delete_def defs)
  have i: "i \<notin> snd ` set es" using Cons.prems(2) e by auto
  show ?case
  proof (cases "force \<or> ee_IsDeletable env i")
    case True
    have "snd ` set es \<subseteq> dom (ep_objects s2)" using Cons.prems e i by (auto simp: defs)
    from Cons.IH [OF this] Cons.prems(2) e obtain s' where
      s': "kill_loop env force es s2 = Inr (if force then es else filter (\<lambda>e. \<not> ee_IsDeletable env (snd e)) es, s')"
        "dom (ep_objects s') = dom (ep_objects s2) - {i \<in> snd ` set es. force \<or> ee_IsDeletable env i}"
        "ep_time s' = ep_time s2" "ep_fresh s' = ep_fresh s2" "ep_events s' = ep_events s2" "ep_aborting s' = ep_aborting s2"
      by auto
    have "kill_loop env force (e # es) s =
        Inr (if force then e # es else filter (\<lambda>e. \<not> ee_IsDeletable env (snd e)) (e # es), s')"
      using True s'(1) d by (auto simp: e m Let_def simp flip: s1_def)
    moreover have "dom (ep_objects s') = dom (ep_objects s) - {i \<in> snd ` set (e # es). force \<or> ee_IsDeletable env i}"
      using s'(2) True by (auto simp: defs e)
    ultimately show ?thesis using s'(3-) by (intro exI [of _ s']) (simp add: defs)
  next
    case False
    have "snd ` set es \<subseteq> dom (ep_objects s1)" using Cons.prems e by (auto simp: defs)
    from Cons.IH [OF this] Cons.prems(2) e obtain s' where
      s': "kill_loop env force es s1 = Inr (if force then es else filter (\<lambda>e. \<not> ee_IsDeletable env (snd e)) es, s')"
        "dom (ep_objects s') = dom (ep_objects s1) - {i \<in> snd ` set es. force \<or> ee_IsDeletable env i}"
        "ep_time s' = ep_time s1" "ep_fresh s' = ep_fresh s1" "ep_events s' = ep_events s1" "ep_aborting s' = ep_aborting s1"
      by auto
    have "kill_loop env force (e # es) s = Inr (filter (\<lambda>e. \<not> ee_IsDeletable env (snd e)) (e # es), s')"
      using False s'(1) by (auto simp: e m Let_def simp flip: s1_def)
    moreover have "dom (ep_objects s') = dom (ep_objects s) - {i \<in> snd ` set (e # es). force \<or> ee_IsDeletable env i}"
      using s'(2) False ev by (auto simp: defs e)
    ultimately show ?thesis using s'(3-) False by (intro exI [of _ s']) (simp add: defs)
  qed
qed simp

lemma KillAllEvents_ok:
  assumes "owns X s"
  shows "\<exists>s'. KillAllEvents env force s = Inr s' \<and> owns X s' \<and> ep_time s' = ep_time s \<and> ep_aborting s'
    \<and> ep_events s' = (if force then [] else filter (\<lambda>e. \<not> ee_IsDeletable env (snd e)) (ep_events s))"
proof -
  let ?kept = "if force then [] else filter (\<lambda>e. \<not> ee_IsDeletable env (snd e)) (ep_events s)"
  have pre: "snd ` set (ep_events s) \<subseteq> dom (ep_objects (s\<lparr>ep_aborting := True\<rparr>))" "distinct (map snd (ep_events s))"
    using assms by (auto simp: owns_def)
  from kill_loop_ok [OF pre, of env force] obtain s' where
    s': "kill_loop env force (ep_events s) (s\<lparr>ep_aborting := True\<rparr>)
        = Inr (if force then ep_events s else filter (\<lambda>e. \<not> ee_IsDeletable env (snd e)) (ep_events s), s')"
      "dom (ep_objects s') = dom (ep_objects s) - {i \<in> snd ` set (ep_events s). force \<or> ee_IsDeletable env i}"
      "ep_time s' = ep_time s" "ep_fresh s' = ep_fresh s" "ep_aborting s'" by auto
  have "KillAllEvents env force s = Inr (s'\<lparr>ep_events := ?kept\<rparr>)" using s'(1) by (simp add: KillAllEvents_def)
  moreover have "owns X (s'\<lparr>ep_events := ?kept\<rparr>)"
    using assms s'(2,4) unfolding owns_def by (auto simp: distinct_map_filter)
  ultimately show ?thesis using s'(3,5) by auto
qed

section \<open>Well-behaved events\<close>

text \<open>
  Well-behaved events.  The header asks that \<^verbatim>\<open>Execute\<close> return false if the event does not want to be
  deleted; such an event has been added again, and only once (\<open>own\<close> says that it has not been).  The
  second condition is ours, no comment states it: while events run, events are added for later times
  only.  An event that adds others for the current time, as \<^verbatim>\<open>Vehicle::AddPassenger\<close> does with
  \<^verbatim>\<open>CalculateTime(0)\<close> when an event lets a passenger board, makes the update run them in the same loop, and
  one that always adds itself for the current time never lets it end.
\<close>

fun commands_ok :: "uint64 \<Rightarrow> bool \<Rightarrow> bool \<Rightarrow> ep_command list \<Rightarrow> bool" where
  "commands_ok now own done [] \<longleftrightarrow> done = own"
| "commands_ok now own done (AddNew t b # cs) \<longleftrightarrow> now < t \<and> commands_ok now own done cs"
| "commands_ok now own done (AddSelf t b # cs) \<longleftrightarrow> own \<and> now < t \<and> commands_ok now False done cs"
| "commands_ok now own done (KillAll force # cs) \<longleftrightarrow> commands_ok now own done cs"

definition well_behaved :: "ep_env \<Rightarrow> bool" where
  "well_behaved env \<longleftrightarrow> (\<forall>i n t p. case ee_Execute env i n t p of (done, cs) \<Rightarrow> commands_ok t True done cs)"

definition never_kills :: "ep_env \<Rightarrow> bool" where
  "never_kills env \<longleftrightarrow> (\<forall>i n t p force. KillAll force \<notin> set (snd (ee_Execute env i n t p)))"

text \<open>What a step keeps: the clock and, without kills, everything about the events that are due.\<close>

definition keeps_due :: "bool \<Rightarrow> nat \<Rightarrow> EventProcessor \<Rightarrow> EventProcessor \<Rightarrow> bool" where
  "keeps_due exact i s s' \<longleftrightarrow> ep_time s' = ep_time s \<and> set (due_events s') \<subseteq> set (due_events s)
     \<and> length (due_events s') \<le> length (due_events s)
     \<and> (exact \<longrightarrow> due_events s' = due_events s \<and> set (ep_events s) \<subseteq> set (ep_events s')
         \<and> (\<forall>j. j \<noteq> i \<longrightarrow> j < ep_fresh s \<longrightarrow> ep_objects s' j = ep_objects s j) \<and> ep_fresh s \<le> ep_fresh s')"

lemma keeps_due_refl: "keeps_due exact i s s"
  by (simp add: keeps_due_def)

lemma keeps_due_trans: "keeps_due exact i s s' \<Longrightarrow> keeps_due exact i s' s'' \<Longrightarrow> keeps_due exact i s s''"
  by (auto simp: keeps_due_def)

lemma due_insert_later: "mm_wf (ep_events s) \<Longrightarrow> ep_time s < t \<Longrightarrow>
    filter (\<lambda>e. fst e \<le> ep_time s) (mm_insert t i (ep_events s)) = filter (\<lambda>e. fst e \<le> ep_time s) (ep_events s)"
  using leD [of t "ep_time s"] by (auto simp: filter_mm_insert)

lemma run_command_ok:
  assumes "owns X s" "X = (if own then {i} else {})" "commands_ok (ep_time s) own done (c # cs)"
  shows "\<exists>s' own'. run_command env i c s = Inr s' \<and> owns (if own' then {i} else {}) s'
    \<and> commands_ok (ep_time s') own' done cs \<and> keeps_due (\<forall>force. c \<noteq> KillAll force) i s s'
    \<and> ((\<forall>force. c \<noteq> KillAll force) \<longrightarrow> ep_log s' = ep_log s)"
proof (cases c)
  case (AddNew t b)
  let ?s = "s\<lparr>ep_objects := (ep_objects s)(ep_fresh s \<mapsto> BasicEvent_new), ep_fresh := Suc (ep_fresh s)\<rparr>"
  from AddEvent_ok [of ?s "ep_fresh s" BasicEvent_new t b] obtain ev where
    r: "AddEvent (ep_fresh s) t b ?s =
      Inr (?s\<lparr>ep_objects := (ep_objects ?s)(ep_fresh s \<mapsto> ev), ep_events := mm_insert t (ep_fresh s) (ep_events ?s)\<rparr>)" by auto
  let ?s' = "?s\<lparr>ep_objects := (ep_objects ?s)(ep_fresh s \<mapsto> ev), ep_events := mm_insert t (ep_fresh s) (ep_events ?s)\<rparr>"
  have fresh: "ep_fresh s \<notin> snd ` set (ep_events s) \<union> X" using assms(1) by (force simp: owns_def)
  then have "owns X ?s'" using assms(1) less_SucI [OF owns_fresh [OF assms(1)]] by (auto simp: owns_def distinct_mm_insert)
  moreover have "keeps_due True i s ?s'"
    using assms AddNew by (auto simp: keeps_due_def due_events_def due_insert_later owns_def)
  ultimately show ?thesis using assms(2,3) AddNew r by (intro exI [of _ ?s'] exI [of _ own]) (simp add: run_command_def ep_construct_def)
next
  case (AddSelf t b)
  with assms have own: own "X = {i}" "ep_time s < t" by simp_all
  then obtain ev where "ep_objects s i = Some ev" using owns_alive [OF assms(1)] by auto
  from AddEvent_ok [OF this] obtain ev' where
    r: "AddEvent i t b s = Inr (s\<lparr>ep_objects := (ep_objects s)(i \<mapsto> ev'), ep_events := mm_insert t i (ep_events s)\<rparr>)" by blast
  let ?s' = "s\<lparr>ep_objects := (ep_objects s)(i \<mapsto> ev'), ep_events := mm_insert t i (ep_events s)\<rparr>"
  have "owns {} ?s'" using assms(1) own by (auto simp: owns_def distinct_mm_insert)
  moreover have "keeps_due True i s ?s'"
    using assms(1) own by (auto simp: keeps_due_def due_events_def due_insert_later owns_def)
  ultimately show ?thesis using assms(3) AddSelf r by (intro exI [of _ ?s'] exI [of _ False]) (simp add: run_command_def)
next
  case (KillAll force)
  from KillAllEvents_ok [OF assms(1), of env force] obtain s' where
    s': "KillAllEvents env force s = Inr s'" "owns X s'" "ep_time s' = ep_time s"
      "ep_events s' = (if force then [] else filter (\<lambda>e. \<not> ee_IsDeletable env (snd e)) (ep_events s))" by blast
  have "due_events s' = (if force then [] else filter (\<lambda>e. \<not> ee_IsDeletable env (snd e)) (due_events s))"
    using s' by (simp add: due_events_def conj_commute)
  then have "keeps_due False i s s'" using s' by (auto simp: keeps_due_def)
  moreover have ex: "(\<forall>force. c \<noteq> KillAll force) = False" using KillAll by blast
  ultimately show ?thesis unfolding ex using s' assms KillAll by (intro exI [of _ s'] exI [of _ own]) (simp add: run_command_def)
qed

lemma keeps_due_weaken: "keeps_due e i s s' \<Longrightarrow> (exact \<Longrightarrow> e) \<Longrightarrow> keeps_due exact i s s'"
  by (auto simp: keeps_due_def)

lemma run_commands_ok:
  assumes "owns (if own then {i} else {}) s" "commands_ok (ep_time s) own done cs"
  shows "\<exists>s'. run_commands env i cs s = Inr s' \<and> owns (if done then {i} else {}) s'
    \<and> keeps_due (\<forall>force. KillAll force \<notin> set cs) i s s' \<and> ((\<forall>force. KillAll force \<notin> set cs) \<longrightarrow> ep_log s' = ep_log s)"
  using assms
proof (induction cs arbitrary: own s)
  case Nil
  then show ?case by (simp add: keeps_due_refl)
next
  case (Cons c cs)
  from run_command_ok [OF Cons.prems(1) refl Cons.prems(2), of env] obtain s1 own' where
    1: "run_command env i c s = Inr s1" "owns (if own' then {i} else {}) s1" "commands_ok (ep_time s1) own' done cs"
      "keeps_due (\<forall>force. c \<noteq> KillAll force) i s s1" "(\<forall>force. c \<noteq> KillAll force) \<longrightarrow> ep_log s1 = ep_log s" by blast
  from Cons.IH [OF 1(2,3)] obtain s2 where
    2: "run_commands env i cs s1 = Inr s2" "owns (if done then {i} else {}) s2"
      "keeps_due (\<forall>force. KillAll force \<notin> set cs) i s1 s2" "(\<forall>force. KillAll force \<notin> set cs) \<longrightarrow> ep_log s2 = ep_log s1" by blast
  have "keeps_due (\<forall>force. KillAll force \<notin> set (c # cs)) i s s2"
    by (rule keeps_due_trans [OF keeps_due_weaken [OF 1(4)] keeps_due_weaken [OF 2(3)]]) auto
  with 1 2 show ?case by auto
qed

lemma ep_delete_ok:
  assumes "owns {i} s"
  shows "\<exists>s'. ep_delete i s = Inr s' \<and> owns {} s' \<and> keeps_due True i s s' \<and> ep_log s' = ep_log s @ [EvDeleted i]"
proof -
  from owns_alive [OF assms] obtain ev where "ep_objects s i = Some ev" by auto
  with assms show ?thesis
    by (auto simp: ep_delete_def ep_do_def owns_def keeps_due_def due_events_def)
qed

lemma run_event_ok:
  assumes "owns {i} s" "well_behaved env"
  shows "\<exists>s'. run_event env p i s = Inr s' \<and> owns {} s' \<and> keeps_due (never_kills env) i s s'
    \<and> (never_kills env \<longrightarrow> runs s' = runs s @ [planned s i])"
proof -
  from owns_alive [OF assms(1)] obtain ev where ev: "ep_objects s i = Some ev" by auto
  have log: "owns {i} (ep_do a s)" "keeps_due True i s (ep_do a s)" "ep_log (ep_do a s) = ep_log s @ [a]" "ep_time (ep_do a s) = ep_time s" for a
    using assms(1) by (simp_all add: owns_def ep_do_def keeps_due_def due_events_def)
  show ?thesis
  proof (cases "be_to_Abort ev")
    case True
    from ep_delete_ok [OF log(1)] obtain s' where
      s': "ep_delete i (ep_do (EvAborted i) s) = Inr s'" "owns {} s'" "keeps_due True i (ep_do (EvAborted i) s) s'"
        "ep_log s' = ep_log (ep_do (EvAborted i) s) @ [EvDeleted i]" by blast
    have "keeps_due (never_kills env) i s s'"
      by (rule keeps_due_weaken [OF keeps_due_trans [OF log(2) s'(3)]]) simp
    with s' True ev log(3) show ?thesis by (auto simp: run_event_def runs_def planned_def)
  next
    case False
    obtain done' cs where x: "ee_Execute env i (length (ep_log s)) (ep_time s) p = (done', cs)" by fastforce
    with assms(2) have "commands_ok (ep_time s) True done' cs"
      unfolding well_behaved_def by (metis case_prod_conv)
    with run_commands_ok [of True i "ep_do (EvExecuted i) s" done' cs env] log obtain s1 where
      1: "run_commands env i cs (ep_do (EvExecuted i) s) = Inr s1" "owns (if done' then {i} else {}) s1"
        "keeps_due (\<forall>force. KillAll force \<notin> set cs) i (ep_do (EvExecuted i) s) s1"
        "(\<forall>force. KillAll force \<notin> set cs) \<longrightarrow> ep_log s1 = ep_log (ep_do (EvExecuted i) s)" by auto
    have nk: "\<forall>force. KillAll force \<notin> set cs" if "never_kills env" using that x unfolding never_kills_def by (metis snd_conv)
    have k1: "keeps_due (never_kills env) i s s1"
      by (rule keeps_due_trans [OF keeps_due_weaken [OF log(2)] keeps_due_weaken [OF 1(3)]]) (use nk in auto)
    obtain s2 where 2: "(if done' then ep_delete i s1 else Inr s1) = Inr s2" "owns {} s2" "keeps_due True i s1 s2"
        "runs s2 = runs s1"
      using 1(2) ep_delete_ok [of i s1] by (cases done') (auto simp: keeps_due_refl runs_def)
    have "keeps_due (never_kills env) i s s2" by (rule keeps_due_trans [OF k1 keeps_due_weaken [OF 2(3)]]) simp
    moreover have "runs s2 = runs s @ [planned s i]" if "never_kills env"
      using nk [OF that] 1(4) 2(4) log(3) ev False by (simp add: runs_def planned_def)
    ultimately show ?thesis using 1(1) 2 x ev False by (auto simp: run_event_def)
  qed
qed

section \<open>The update loop\<close>

lemma owns_take:
  assumes "owns {} s" "ep_events s = (t, i) # es"
  shows "owns {i} (s\<lparr>ep_events := es\<rparr>)"
  using assms by (auto simp: owns_def)

lemma planned_cong: "ep_objects s' i = ep_objects s i \<Longrightarrow> planned s' i = planned s i"
  by (simp add: planned_def)

lemma update_loop_ok:
  assumes "owns {} s" "well_behaved env"
  shows "\<exists>s'. update_loop env p s = Some (Inr s') \<and> owns {} s' \<and> ep_time s' = ep_time s \<and> due_events s' = []
    \<and> (never_kills env \<longrightarrow> runs s' = runs s @ map (planned s \<circ> snd) (due_events s)
        \<and> {e \<in> set (ep_events s). ep_time s < fst e} \<subseteq> set (ep_events s'))"
  using assms(1)
proof (induction "length (due_events s)" arbitrary: s rule: less_induct)
  case less
  have wf: "mm_wf (ep_events s)" using less.prems by (simp add: owns_def)
  show ?case
  proof (cases "\<exists>t i es. ep_events s = (t, i) # es \<and> t \<le> ep_time s")
    case False
    then have none: "due_events s = []"
      using wf by (cases "ep_events s") (auto simp: due_events_def filter_empty_conv dest: order.trans)
    have "update_loop env p s = Some (Inr s)"
      using False by (subst update_loop.simps) (auto split: list.splits)
    with none less.prems show ?thesis by auto
  next
    case True
    then obtain t i es where e: "ep_events s = (t, i) # es" and t: "t \<le> ep_time s" by blast
    let ?s = "s\<lparr>ep_events := es\<rparr>"
    have due: "due_events s = (t, i) # due_events ?s" using e t by (simp add: due_events_def)
    from run_event_ok [OF owns_take [OF less.prems e] assms(2), of p] obtain s1 where
      1: "run_event env p i ?s = Inr s1" "owns {} s1" "keeps_due (never_kills env) i ?s s1"
        "never_kills env \<longrightarrow> runs s1 = runs ?s @ [planned ?s i]" by blast
    have "length (due_events s1) < length (due_events s)" using 1(3) due by (simp add: keeps_due_def)
    from less.hyps [OF this 1(2)] obtain s' where
      s': "update_loop env p s1 = Some (Inr s')" "owns {} s'" "ep_time s' = ep_time s1" "due_events s' = []"
        "never_kills env \<longrightarrow> runs s' = runs s1 @ map (planned s1 \<circ> snd) (due_events s1)
          \<and> {e \<in> set (ep_events s1). ep_time s1 < fst e} \<subseteq> set (ep_events s')" by blast
    have "update_loop env p s = Some (Inr s')"
      using e t 1(1) s'(1) by (subst update_loop.simps) simp
    moreover have "runs s' = runs s @ map (planned s \<circ> snd) (due_events s)
        \<and> {e \<in> set (ep_events s). ep_time s < fst e} \<subseteq> set (ep_events s')" if nk: "never_kills env"
    proof
      have d: "due_events s1 = due_events ?s" using 1(3) nk by (simp add: keeps_due_def)
      have "ep_objects s1 j = ep_objects s j" if "(u, j) \<in> set (due_events ?s)" for u j
      proof -
        from that have "(u, j) \<in> set es" by (simp add: due_events_def)
        then have j: "j \<in> snd ` set es" by (metis image_eqI snd_conv)
        moreover have "i \<notin> snd ` set es" using less.prems e by (simp add: owns_def)
        ultimately have "j \<in> snd ` set (ep_events s)" "j \<noteq> i" using e by auto
        with owns_fresh [OF less.prems] 1(3) nk show ?thesis by (auto simp: keeps_due_def)
      qed
      then have "map (planned s1 \<circ> snd) (due_events s1) = map (planned s \<circ> snd) (due_events ?s)"
        unfolding d by (auto intro: planned_cong)
      moreover have "runs ?s = runs s" "planned ?s i = planned s i" by (simp_all add: runs_def planned_def)
      ultimately show "runs s' = runs s @ map (planned s \<circ> snd) (due_events s)" using s'(5) 1(4) nk due by simp
      have "set es \<subseteq> set (ep_events s1)" "ep_time s1 = ep_time s" using 1(3) nk by (simp_all add: keeps_due_def)
      with s'(5) nk e t show "{e \<in> set (ep_events s). ep_time s < fst e} \<subseteq> set (ep_events s')" by auto
    qed
    moreover have "ep_time s' = ep_time s" using s'(3) 1(3) by (simp add: keeps_due_def)
    ultimately show ?thesis using s'(2,4) by blast
  qed
qed

section \<open>Reachable processors\<close>

definition ep_init :: "EventProcessor \<Rightarrow> bool" where
  "ep_init s \<longleftrightarrow> s = EventProcessor_new"

text \<open>
  The owner of a processor adds new events, sets abort flags, kills all events and updates; the
  events are well behaved.
\<close>

inductive ep_step :: "EventProcessor \<Rightarrow> EventProcessor \<Rightarrow> bool" where
  ep_add: "ep_construct s = (i, s1) \<Longrightarrow> AddEvent i t b s1 = Inr s' \<Longrightarrow> ep_step s s'"
| ep_mark: "set_to_Abort i s = Inr s' \<Longrightarrow> ep_step s s'"
| ep_kill: "KillAllEvents env force s = Inr s' \<Longrightarrow> ep_step s s'"
| ep_update: "well_behaved env \<Longrightarrow> EventProcessor_Update env p s = Some (Inr s') \<Longrightarrow> ep_step s s'"

lemma owns_time: "owns X s \<Longrightarrow> owns X (s\<lparr>ep_time := t\<rparr>)"
  by (simp add: owns_def)

lemma ep_step_owns:
  assumes "ep_step s s'" "owns {} s"
  shows "owns {} s'"
  using assms
proof (induction rule: ep_step.induct)
  case (ep_add s i s1 t b s')
  have i: "i = ep_fresh s" "s1 = s\<lparr>ep_objects := (ep_objects s)(i \<mapsto> BasicEvent_new), ep_fresh := Suc i\<rparr>"
    using ep_add(1) by (auto simp: ep_construct_def)
  have fresh: "i \<notin> snd ` set (ep_events s)" using owns_fresh [OF ep_add(3), of i] i(1) by auto
  from AddEvent_ok [of s1 i BasicEvent_new t b] i ep_add(2) obtain ev where
    "s' = s1\<lparr>ep_objects := (ep_objects s1)(i \<mapsto> ev), ep_events := mm_insert t i (ep_events s1)\<rparr>" by auto
  with ep_add(3) i fresh less_SucI [OF owns_fresh [OF ep_add(3)]] show ?case
    by (auto simp: owns_def distinct_mm_insert)
next
  case (ep_mark i s s')
  then obtain ev ev' where "ep_objects s i = Some ev" "s' = s\<lparr>ep_objects := (ep_objects s)(i \<mapsto> ev')\<rparr>"
    by (auto simp: set_to_Abort_def ep_modify_def split: option.splits)
  then have "ep_events s' = ep_events s" "dom (ep_objects s') = dom (ep_objects s)" "ep_fresh s' = ep_fresh s" by auto
  with ep_mark(2) show ?case unfolding owns_def by simp
next
  case (ep_kill env force s s')
  with KillAllEvents_ok [OF ep_kill(2), of env force] show ?case by auto
next
  case (ep_update env p s s')
  with update_loop_ok [OF owns_time [OF ep_update(3)] ep_update(1), of p "ep_time s + ucast p"] show ?case
    by (auto simp: EventProcessor_Update_def)
qed

lemma owns_new: "owns {} EventProcessor_new"
  by (simp add: owns_def EventProcessor_new_def)

interpretation ep: invariant_system ep_init ep_step "owns {}"
  by unfold_locales (use owns_new ep_step_owns in \<open>auto simp: ep_init_def\<close>)

section \<open>Properties\<close>

text \<open>
  C15.  An update always returns, uses no deleted event and leaks none: from whatever state the
  processor has reached, with well-behaved events (each returns false exactly when it has been added
  again, and adds events for later times only), the loop ends, no event that is due is left, and
  the live events are exactly the queued ones.
\<close>

theorem update_returns_safely:
  assumes "reachable ep_init ep_step s" "well_behaved env"
  shows "\<exists>s'. EventProcessor_Update env p s = Some (Inr s') \<and> ep_time s' = ep_time s + ucast p
    \<and> (\<forall>(t, i) \<in> set (ep_events s'). ep_time s' < t)
    \<and> dom (ep_objects s') = snd ` set (ep_events s') \<and> distinct (map snd (ep_events s'))"
proof -
  from update_loop_ok [OF owns_time [OF ep.reachable_inv [OF assms(1)]] assms(2), of p "ep_time s + ucast p"]
  obtain s' where s': "EventProcessor_Update env p s = Some (Inr s')" "owns {} s'"
    "ep_time s' = ep_time s + ucast p" "due_events s' = []"
    by (auto simp: EventProcessor_Update_def)
  then show ?thesis by (intro exI [of _ s']) (force simp: owns_def due_events_def filter_empty_conv not_le)
qed

text \<open>An event that adds itself once more for a later time, and others that do nothing.\<close>

definition demo_behaviour :: ep_env where
  "demo_behaviour = \<lparr>ee_Execute = (\<lambda>i n t p. if i = 0 \<and> t < 1000 then (False, [AddSelf 1000 True]) else (True, [])),
     ee_IsDeletable = (\<lambda>i. True)\<rparr>"

lemma demo_behaviour_ok: "well_behaved demo_behaviour" "never_kills demo_behaviour"
  by (auto simp: well_behaved_def never_kills_def demo_behaviour_def)

definition demo_processor :: EventProcessor where
  "demo_processor = \<lparr>ep_time = 0, ep_events = [(20, 1), (50, 0)], ep_aborting = False,
     ep_objects = [0 \<mapsto> \<lparr>be_to_Abort = False, be_addTime = 0, be_execTime = 50\<rparr>,
                   1 \<mapsto> \<lparr>be_to_Abort = False, be_addTime = 0, be_execTime = 20\<rparr>],
     ep_fresh = 2, ep_log = []\<rparr>"

lemma demo_processor_reachable: "reachable ep_init ep_step demo_processor"
proof -
  let ?one = "\<lparr>ep_time = 0, ep_events = [(50, 0)], ep_aborting = False,
     ep_objects = [0 \<mapsto> \<lparr>be_to_Abort = False, be_addTime = 0, be_execTime = 50\<rparr>], ep_fresh = 1, ep_log = []\<rparr>"
  note defs = EventProcessor_new_def ep_construct_def AddEvent_def ep_modify_def BasicEvent_new_def demo_processor_def
  have "reachable ep_init ep_step EventProcessor_new" by (rule reach_init) (simp add: ep_init_def)
  moreover have "ep_step EventProcessor_new ?one"
    by (rule ep_add [OF surjective_pairing, of _ 50 True]) (simp add: defs)
  moreover have "ep_step ?one demo_processor"
    by (rule ep_add [OF surjective_pairing, of _ 20 True]) (simp add: defs)
  ultimately show ?thesis by (meson reach_step)
qed

theorem update_returns_safely_witness:
  "\<exists>s'. EventProcessor_Update demo_behaviour 100 demo_processor = Some (Inr s') \<and> (\<forall>(t, i) \<in> set (ep_events s'). ep_time s' < t)"
  using update_returns_safely [OF demo_processor_reachable demo_behaviour_ok(1)] by blast

text \<open>
  C27.  Every event that is due is run exactly once and in order: when the events are well behaved (each
  returns false exactly when it has been added again, and adds events for later times only) and none
  kills the others, an update executes the due events, or aborts those marked so, in the order of their times and of
  their arrival, and keeps all later ones.
\<close>

theorem update_runs_due_events:
  assumes "reachable ep_init ep_step s" "well_behaved env" "never_kills env"
    and "EventProcessor_Update env p s = Some (Inr s')"
  shows "runs s' = runs s @ map (\<lambda>(t, i). planned s i) (filter (\<lambda>(t, i). t \<le> ep_time s + ucast p) (ep_events s))
    \<and> {(t, i) \<in> set (ep_events s). ep_time s + ucast p < t} \<subseteq> set (ep_events s')"
proof -
  let ?s = "s\<lparr>ep_time := ep_time s + ucast p\<rparr>"
  have "planned ?s = planned s" "runs ?s = runs s" by (simp_all add: planned_def runs_def fun_eq_iff)
  with update_loop_ok [OF owns_time [OF ep.reachable_inv [OF assms(1)]] assms(2), of p "ep_time s + ucast p"] assms(3,4)
  show ?thesis by (auto simp: EventProcessor_Update_def due_events_def case_prod_unfold comp_def)
qed

theorem update_runs_due_events_witness:
  "\<exists>s'. EventProcessor_Update demo_behaviour 100 demo_processor = Some (Inr s') \<and> runs s' = [EvExecuted 1, EvExecuted 0]"
proof -
  from update_loop_ok [OF owns_time [OF ep.reachable_inv [OF demo_processor_reachable]] demo_behaviour_ok(1)]
  obtain s' where s': "EventProcessor_Update demo_behaviour 100 demo_processor = Some (Inr s')"
    by (metis EventProcessor_Update_def)
  with update_runs_due_events [OF demo_processor_reachable demo_behaviour_ok s'] show ?thesis
    by (simp add: demo_processor_def runs_def planned_def)
qed

text \<open>
  Killing with force, as the destructor does, deletes every event; but the flag \<^verbatim>\<open>m_aborting\<close> that is
  to \<^verbatim>\<open>prevent event insertions\<close> prevents nothing: an event can be added afterwards as before.
\<close>

theorem kill_does_not_prevent_insertions:
  assumes "reachable ep_init ep_step s"
  shows "\<exists>s'. KillAllEvents env True s = Inr s' \<and> ep_aborting s' \<and> ep_events s' = [] \<and> dom (ep_objects s') = {}
    \<and> (\<exists>i s2 s3. ep_construct s' = (i, s2) \<and> AddEvent i t b s2 = Inr s3 \<and> ep_events s3 = [(t, i)])"
proof -
  from KillAllEvents_ok [OF ep.reachable_inv [OF assms], of env True] obtain s' where
    s': "KillAllEvents env True s = Inr s'" "owns {} s'" "ep_events s' = []" "ep_aborting s'" by auto
  have "\<exists>i s2 s3. ep_construct s' = (i, s2) \<and> AddEvent i t b s2 = Inr s3 \<and> ep_events s3 = [(t, i)]"
    using s'(3) by (simp add: ep_construct_def AddEvent_def ep_modify_def)
  with s' show ?thesis by (auto simp: owns_def)
qed

theorem kill_does_not_prevent_insertions_witness:
  "\<exists>s'. KillAllEvents demo_behaviour True demo_processor = Inr s' \<and> ep_events s' = []"
  using kill_does_not_prevent_insertions [OF demo_processor_reachable, of demo_behaviour] by blast

end
