(* ===== verification/EventMap.thy ===== *)
theory EventMap
  imports FC_Prelude
begin

text \<open>
  The event map of creature scripts (\<^verbatim>\<open>class EventMap\<close> in \<^verbatim>\<open>game/AI/CreatureAIImpl.h\<close>): a stopwatch,
  a mask of active phases and a multimap from times to event data.  The data of an event is a word
  \<^verbatim>\<open>0xPPGGEEEE\<close> of phase bits, group bits and event identifier, kept packed here as in the source.
\<close>

section \<open>State and operations\<close>

record EventMap =
  em_time :: uint32
  em_phase :: uint8
  em_eventMap :: "(uint32, uint32) mmap"

definition EventMap_Reset :: "EventMap \<Rightarrow> EventMap" where
  "EventMap_Reset m = m\<lparr>em_eventMap := [], em_time := 0, em_phase := 0\<rparr>"

definition EventMap_new :: EventMap where
  "EventMap_new = \<lparr>em_time = 0, em_phase = 0, em_eventMap = []\<rparr>"

definition EventMap_Update :: "uint32 \<Rightarrow> EventMap \<Rightarrow> EventMap" where
  "EventMap_Update diff m = m\<lparr>em_time := em_time m + diff\<rparr>"

definition EventMap_Empty :: "EventMap \<Rightarrow> bool" where
  "EventMap_Empty m \<longleftrightarrow> em_eventMap m = []"

text \<open>The bits of a phase in the mask, and of a group and a phase in the data of an event.\<close>

definition phase_mask :: "uint8 \<Rightarrow> uint8" where
  "phase_mask phase = push_bit (unat (phase - 1)) 1"

definition group_bit :: "uint32 \<Rightarrow> uint32" where
  "group_bit grp = push_bit (unat (grp + 15)) 1"

definition phase_bit :: "uint8 \<Rightarrow> uint32" where
  "phase_bit phase = push_bit (unat phase + 23) 1"

definition SetPhase :: "uint8 \<Rightarrow> EventMap \<Rightarrow> EventMap" where
  "SetPhase phase m =
     (if phase = 0 then m\<lparr>em_phase := 0\<rparr>
      else if phase \<le> 8 then m\<lparr>em_phase := phase_mask phase\<rparr> else m)"

definition AddPhase :: "uint8 \<Rightarrow> EventMap \<Rightarrow> EventMap" where
  "AddPhase phase m =
     (if phase \<noteq> 0 \<and> phase \<le> 8 then m\<lparr>em_phase := set_flag (em_phase m) (phase_mask phase)\<rparr> else m)"

definition RemovePhase :: "uint8 \<Rightarrow> EventMap \<Rightarrow> EventMap" where
  "RemovePhase phase m =
     (if phase \<noteq> 0 \<and> phase \<le> 8 then m\<lparr>em_phase := clear_flag (em_phase m) (phase_mask phase)\<rparr> else m)"

definition event_data :: "uint32 \<Rightarrow> uint32 \<Rightarrow> uint8 \<Rightarrow> uint32" where
  "event_data eventId grp phase =
     (let eventId = (if grp \<noteq> 0 \<and> grp \<le> 8 then set_flag eventId (group_bit grp) else eventId)
      in if phase \<noteq> 0 \<and> phase \<le> 8 then set_flag eventId (phase_bit phase) else eventId)"

definition ScheduleEvent :: "uint32 \<Rightarrow> uint32 \<Rightarrow> uint32 \<Rightarrow> uint8 \<Rightarrow> EventMap \<Rightarrow> EventMap" where
  "ScheduleEvent eventId delay grp phase m =
     m\<lparr>em_eventMap := mm_insert (em_time m + delay) (event_data eventId grp phase) (em_eventMap m)\<rparr>"

text \<open>The identifier in the data of an event.\<close>

definition event_id :: "uint32 \<Rightarrow> uint32" where
  "event_id data = data AND 0x0000FFFF"

definition CancelEvent :: "uint32 \<Rightarrow> EventMap \<Rightarrow> EventMap" where
  "CancelEvent eventId m = m\<lparr>em_eventMap := filter (\<lambda>e. eventId \<noteq> event_id (snd e)) (em_eventMap m)\<rparr>"

definition RescheduleEvent :: "uint32 \<Rightarrow> uint32 \<Rightarrow> uint32 \<Rightarrow> uint8 \<Rightarrow> EventMap \<Rightarrow> EventMap" where
  "RescheduleEvent eventId delay grp phase m = ScheduleEvent eventId delay grp phase (CancelEvent eventId m)"

definition RepeatEvent :: "uint32 \<Rightarrow> EventMap \<Rightarrow> EventMap" where
  "RepeatEvent delay m =
     (case em_eventMap m of
        [] \<Rightarrow> m
      | (t, eventId) # es \<Rightarrow> ScheduleEvent eventId delay 0 0 (m\<lparr>em_eventMap := es\<rparr>))"

definition PopEvent :: "EventMap \<Rightarrow> EventMap" where
  "PopEvent m = m\<lparr>em_eventMap := tl (em_eventMap m)\<rparr>"

fun execute_loop :: "uint32 \<Rightarrow> uint8 \<Rightarrow> (uint32, uint32) mmap \<Rightarrow> uint32 \<times> (uint32, uint32) mmap" where
  "execute_loop now phase [] = (0, [])"
| "execute_loop now phase ((t, data) # es) =
     (if t > now then (0, (t, data) # es)
      else if phase \<noteq> 0 \<and> data AND 0xFF000000 \<noteq> 0 \<and> drop_bit 24 data AND ucast phase = 0
      then execute_loop now phase es
      else (event_id data, es))"

definition ExecuteEvent :: "EventMap \<Rightarrow> uint32 \<times> EventMap" where
  "ExecuteEvent m =
     (case execute_loop (em_time m) (em_phase m) (em_eventMap m) of (eventId, es) \<Rightarrow> (eventId, m\<lparr>em_eventMap := es\<rparr>))"

fun get_loop :: "uint32 \<Rightarrow> uint8 \<Rightarrow> (uint32, uint32) mmap \<Rightarrow> uint32 \<times> (uint32, uint32) mmap" where
  "get_loop now phase [] = (0, [])"
| "get_loop now phase ((t, data) # es) =
     (if t > now then (0, (t, data) # es)
      else if phase \<noteq> 0 \<and> data AND 0xFF000000 \<noteq> 0 \<and> data AND push_bit 24 (ucast phase) = 0
      then get_loop now phase es
      else (event_id data, (t, data) # es))"

definition GetEvent :: "EventMap \<Rightarrow> uint32 \<times> EventMap" where
  "GetEvent m =
     (case get_loop (em_time m) (em_phase m) (em_eventMap m) of (eventId, es) \<Rightarrow> (eventId, m\<lparr>em_eventMap := es\<rparr>))"

definition DelayEvents :: "uint32 \<Rightarrow> EventMap \<Rightarrow> EventMap" where
  "DelayEvents delay m = m\<lparr>em_time := if delay < em_time m then em_time m - delay else 0\<rparr>"

definition in_group :: "uint32 \<Rightarrow> uint32 \<Rightarrow> bool" where
  "in_group grp data \<longleftrightarrow> has_flag data (group_bit grp)"

definition DelayEvents_group :: "uint32 \<Rightarrow> uint32 \<Rightarrow> EventMap \<Rightarrow> EventMap" where
  "DelayEvents_group delay grp m =
     (if grp = 0 \<or> grp > 8 \<or> EventMap_Empty m then m
      else let es = em_eventMap m;
               delayed = fold (\<lambda>(t, data). mm_insert (t + delay) data) (filter (\<lambda>e. in_group grp (snd e)) es) []
           in m\<lparr>em_eventMap := fold (\<lambda>(t, data). mm_insert t data) delayed (filter (\<lambda>e. \<not> in_group grp (snd e)) es)\<rparr>)"

definition CancelEventGroup :: "uint32 \<Rightarrow> EventMap \<Rightarrow> EventMap" where
  "CancelEventGroup grp m =
     (if grp = 0 \<or> grp > 8 \<or> EventMap_Empty m then m
      else m\<lparr>em_eventMap := filter (\<lambda>e. \<not> in_group grp (snd e)) (em_eventMap m)\<rparr>)"

definition GetNextEventTime_of :: "uint32 \<Rightarrow> EventMap \<Rightarrow> uint32" where
  "GetNextEventTime_of eventId m =
     (case filter (\<lambda>e. eventId = event_id (snd e)) (em_eventMap m) of [] \<Rightarrow> 0 | e # es \<Rightarrow> fst e)"

definition GetNextEventTime :: "EventMap \<Rightarrow> uint32" where
  "GetNextEventTime m = (case em_eventMap m of [] \<Rightarrow> 0 | e # es \<Rightarrow> fst e)"

definition IsInPhase :: "uint8 \<Rightarrow> EventMap \<Rightarrow> bool" where
  "IsInPhase phase m \<longleftrightarrow> phase \<le> 8 \<and> (phase = 0 \<or> has_flag (em_phase m) (phase_mask phase))"

section \<open>Event data\<close>

lemma unat_add15: "grp \<le> 8 \<Longrightarrow> unat (grp + 15 :: uint32) = unat grp + 15"
  by (simp add: unat_word_ariths word_le_nat_alt)

lemma bit_group_bit: "grp \<le> 8 \<Longrightarrow> bit (group_bit grp) n \<longleftrightarrow> n = unat grp + 15"
  by (auto simp: group_bit_def unat_add15 word_le_nat_alt bit_exp_iff)

lemma bit_phase_bit: "phase \<le> 8 \<Longrightarrow> bit (phase_bit phase) n \<longleftrightarrow> n = unat phase + 23"
  by (auto simp: phase_bit_def word_le_nat_alt bit_exp_iff)

lemma bit_phase_mask: "phase \<noteq> 0 \<Longrightarrow> phase \<le> 8 \<Longrightarrow> bit (phase_mask phase) n \<longleftrightarrow> Suc n = unat phase"
proof -
  assume p: "phase \<noteq> 0" "phase \<le> 8"
  then have "unat (phase - 1) = unat phase - 1" "0 < unat phase" "unat phase \<le> 8"
    by (simp_all add: unat_minus_one unat_gt_0 word_le_nat_alt)
  then show ?thesis by (auto simp: phase_mask_def bit_exp_iff)
qed

lemma bit_below: "w < (2 :: uint32) ^ 16 \<Longrightarrow> bit w n \<Longrightarrow> n < 16"
proof (rule ccontr)
  assume "w < 2 ^ 16" "bit w n" "\<not> n < 16"
  then have "take_bit 16 w = w" by (simp add: take_bit_eq_mod word_mod_def word_less_def)
  with \<open>bit w n\<close> \<open>\<not> n < 16\<close> show False by (metis bit_take_bit_iff)
qed

lemma bit_event_data:
  assumes "grp \<le> 8" "phase \<le> 8"
  shows "bit (event_data eventId grp phase) n \<longleftrightarrow> bit eventId n \<or> (grp \<noteq> 0 \<and> n = unat grp + 15)
    \<or> (phase \<noteq> 0 \<and> n = unat phase + 23)"
  using assms by (auto simp: event_data_def Let_def set_flag_def bit_or_iff bit_group_bit bit_phase_bit)

lemma has_flag_bit_one: "(\<And>n. bit m n \<longleftrightarrow> n = k) \<Longrightarrow> has_flag w m \<longleftrightarrow> bit w k"
  by (auto simp: has_flag_bit)

text \<open>The events a mask of phases lets through.\<close>

definition allowed :: "uint8 \<Rightarrow> uint32 \<Rightarrow> bool" where
  "allowed phase data \<longleftrightarrow> phase = 0 \<or> data AND 0xFF000000 = 0 \<or> drop_bit 24 data AND ucast phase \<noteq> 0"

lemma bit_high_mask: "bit (0xFF000000 :: uint32) n \<longleftrightarrow> 24 \<le> n \<and> n < 32"
proof -
  have "(0xFF000000 :: uint32) = NOT (mask 24)" by (simp add: mask_eq_exp_minus_1)
  then show ?thesis by (simp only: bit_not_iff bit_mask_iff) auto
qed

lemma allowed_bits:
  "allowed phase data \<longleftrightarrow> phase = 0 \<or> (\<forall>n. 24 \<le> n \<longrightarrow> \<not> bit data n) \<or> (\<exists>n. bit data (24 + n) \<and> bit phase n)"
proof -
  have "data AND 0xFF000000 = 0 \<longleftrightarrow> (\<forall>n. 24 \<le> n \<longrightarrow> \<not> bit data n)"
    unfolding bit_eq_iff bit_and_iff bit_high_mask using bit_imp_le_length [of data] by auto
  moreover have "drop_bit 24 data AND ucast phase \<noteq> 0 \<longleftrightarrow> (\<exists>n. bit data (24 + n) \<and> bit phase n)"
    unfolding bit_eq_iff bit_and_iff bit_drop_bit_eq using bit_imp_le_length [of phase] by (force simp: bit_ucast_iff)
  ultimately show ?thesis unfolding allowed_def by simp
qed

text \<open>\<^verbatim>\<open>GetEvent\<close> tests the phase with the opposite shift.\<close>

lemma phase_shift: "drop_bit 24 data AND ucast phase = 0 \<longleftrightarrow> data AND push_bit 24 (ucast phase) = 0"
  for data :: uint32 and phase :: uint8
proof
  assume l: "drop_bit 24 data AND ucast phase = 0"
  have "\<not> (bit data n \<and> bit (push_bit 24 (ucast phase :: uint32)) n)" for n
  proof
    assume a: "bit data n \<and> bit (push_bit 24 (ucast phase :: uint32)) n"
    then have "bit (drop_bit 24 data AND ucast phase) (n - 24)"
      by (auto simp: bit_and_iff bit_drop_bit_eq bit_push_bit_iff)
    with l show False by simp
  qed
  then show "data AND push_bit 24 (ucast phase) = 0" by (auto simp: bit_eq_iff bit_and_iff)
next
  assume r: "data AND push_bit 24 (ucast phase) = 0"
  have "\<not> (bit (drop_bit 24 data) n \<and> bit (ucast phase :: uint32) n)" for n
  proof
    assume a: "bit (drop_bit 24 data) n \<and> bit (ucast phase :: uint32) n"
    then have "bit (data AND push_bit 24 (ucast phase)) (24 + n)"
      by (auto simp: bit_and_iff bit_drop_bit_eq bit_push_bit_iff dest: bit_imp_le_length)
    with r show False by simp
  qed
  then show "drop_bit 24 data AND ucast phase = 0" by (auto simp: bit_eq_iff bit_and_iff)
qed


section \<open>Executing events\<close>

lemma execute_loop_spec:
  assumes "mm_wf es"
  shows "execute_loop now phase es =
    (case dropWhile (\<lambda>e. \<not> allowed phase (snd e)) (filter (\<lambda>e. fst e \<le> now) es) of
       [] \<Rightarrow> (0, filter (\<lambda>e. now < fst e) es)
     | e # due \<Rightarrow> (event_id (snd e), due @ filter (\<lambda>e. now < fst e) es))"
  using assms
proof (induction es)
  case (Cons e es)
  obtain t data where e: "e = (t, data)" by fastforce
  show ?case
  proof (cases "now < t")
    case True
    with Cons.prems e have "\<forall>x \<in> set es. now < fst x" by auto
    then have "filter (\<lambda>e. fst e \<le> now) es = []" "filter (\<lambda>e. now < fst e) es = es"
      by (auto simp: filter_empty_conv filter_id_conv)
    moreover have "\<not> t \<le> now" using True by simp
    ultimately show ?thesis using True e by simp
  next
    case False
    from Cons have IH: "execute_loop now phase es =
      (case dropWhile (\<lambda>e. \<not> allowed phase (snd e)) (filter (\<lambda>e. fst e \<le> now) es) of
         [] \<Rightarrow> (0, filter (\<lambda>e. now < fst e) es)
       | e # due \<Rightarrow> (event_id (snd e), due @ filter (\<lambda>e. now < fst e) es))" by simp
    have skip: "phase \<noteq> 0 \<and> data AND 0xFF000000 \<noteq> 0 \<and> drop_bit 24 data AND ucast phase = 0 \<longleftrightarrow> \<not> allowed phase data"
      by (auto simp: allowed_def)
    have parts: "filter (\<lambda>e. fst e \<le> now) es @ filter (\<lambda>e. now < fst e) es = es"
      using Cons.prems by (intro mm_wf_split [symmetric]) simp
    have "execute_loop now phase (e # es) = (if allowed phase data then (event_id data, es) else execute_loop now phase es)"
      using False e skip by auto
    moreover have f: "filter (\<lambda>e. now < fst e) (e # es) = filter (\<lambda>e. now < fst e) es"
      "filter (\<lambda>e. fst e \<le> now) (e # es) = e # filter (\<lambda>e. fst e \<le> now) es" using False e by (simp_all add: not_less)
    ultimately show ?thesis
      unfolding f using IH e by (cases "allowed phase data") (simp_all add: parts del: execute_loop.simps)
  qed
qed simp

lemma execute_loop_subset:
  assumes "mm_wf es" "execute_loop now phase es = (e, es')"
  shows "mm_wf es' \<and> set es' \<subseteq> set es \<and> (e \<noteq> 0 \<longrightarrow> length es' < length es)"
  using assms by (induction now phase es rule: execute_loop.induct) (fastforce split: if_splits)+

text \<open>The loop of a script: execute events until there is none.\<close>

function execute_all :: "EventMap \<Rightarrow> uint32 list \<times> EventMap" where
  "execute_all m =
     (case ExecuteEvent m of (e, m') \<Rightarrow>
        if e = 0 \<or> \<not> length (em_eventMap m') < length (em_eventMap m) then ([], m')
        else case execute_all m' of (es, m'') \<Rightarrow> (e # es, m''))"
  by pat_completeness auto

termination
  by (relation "measure (\<lambda>m. length (em_eventMap m))") auto

declare execute_all.simps [simp del]

text \<open>The length test is never the reason to stop.\<close>

lemma execute_all_unfold:
  assumes "mm_wf (em_eventMap m)"
  shows "execute_all m = (case ExecuteEvent m of (e, m') \<Rightarrow>
    if e = 0 then ([], m') else case execute_all m' of (es, m'') \<Rightarrow> (e # es, m''))"
  using execute_loop_subset [OF assms]
  by (subst execute_all.simps) (auto simp: ExecuteEvent_def split: prod.splits)

definition due :: "EventMap \<Rightarrow> (uint32, uint32) mmap" where
  "due m = filter (\<lambda>e. fst e \<le> em_time m) (em_eventMap m)"

definition later :: "EventMap \<Rightarrow> (uint32, uint32) mmap" where
  "later m = filter (\<lambda>e. em_time m < fst e) (em_eventMap m)"

lemma ExecuteEvent_spec:
  assumes "mm_wf (em_eventMap m)"
  shows "ExecuteEvent m =
    (case dropWhile (\<lambda>e. \<not> allowed (em_phase m) (snd e)) (due m) of
       [] \<Rightarrow> (0, m\<lparr>em_eventMap := later m\<rparr>)
     | e # es \<Rightarrow> (event_id (snd e), m\<lparr>em_eventMap := es @ later m\<rparr>))"
  by (cases "dropWhile (\<lambda>e. \<not> allowed (em_phase m) (snd e)) (due m)")
    (simp_all add: ExecuteEvent_def later_def execute_loop_spec [OF assms] del: dropWhile_eq_Nil_conv flip: due_def)

lemma execute_all_spec:
  assumes "mm_wf (em_eventMap m)" "\<forall>e \<in> set (due m). event_id (snd e) \<noteq> 0"
  shows "execute_all m = (map (\<lambda>e. event_id (snd e)) (filter (\<lambda>e. allowed (em_phase m) (snd e)) (due m)),
    m\<lparr>em_eventMap := later m\<rparr>)"
  using assms
proof (induction "length (em_eventMap m)" arbitrary: m rule: less_induct)
  case less
  let ?al = "\<lambda>e. allowed (em_phase m) (snd e)"
  show ?case
  proof (cases "dropWhile (\<lambda>e. \<not> ?al e) (due m)")
    case Nil
    then have "filter ?al (due m) = []" by (simp add: filter_empty_conv)
    moreover have "ExecuteEvent m = (0, m\<lparr>em_eventMap := later m\<rparr>)"
      unfolding ExecuteEvent_spec [OF less.prems(1)] Nil by simp
    ultimately show ?thesis by (simp add: execute_all_unfold [OF less.prems(1)])
  next
    case (Cons e es)
    let ?m = "m\<lparr>em_eventMap := es @ later m\<rparr>"
    have x: "ExecuteEvent m = (event_id (snd e), ?m)"
      by (simp add: ExecuteEvent_spec [OF less.prems(1)] Cons)
    have d: "due m = takeWhile (\<lambda>e. \<not> ?al e) (due m) @ e # es" unfolding Cons [symmetric] by simp
    then have sub: "set (e # es) \<subseteq> set (due m)" by (metis set_append Un_upper2)
    have due: "due ?m = es"
    proof -
      have "filter (\<lambda>e. fst e \<le> em_time m) es = es" using sub by (auto simp: due_def filter_id_conv)
      moreover have "filter (\<lambda>e. fst e \<le> em_time m) (later m) = []" by (auto simp: later_def filter_empty_conv)
      ultimately show ?thesis by (simp add: due_def)
    qed
    have later: "later ?m = later m"
    proof -
      have "filter (\<lambda>e. em_time m < fst e) es = []" using sub by (force simp: due_def filter_empty_conv)
      then show ?thesis by (simp add: later_def)
    qed
    from x have l: "execute_loop (em_time m) (em_phase m) (em_eventMap m) = (event_id (snd e), es @ later m)"
      by (cases m) (auto simp: ExecuteEvent_def split: prod.splits)
    have e: "event_id (snd e) \<noteq> 0" using less.prems(2) sub by auto
    from execute_loop_subset [OF less.prems(1) l] e
    have "mm_wf (em_eventMap ?m)" "length (em_eventMap ?m) < length (em_eventMap m)" by simp_all
    moreover have "\<forall>x \<in> set (due ?m). event_id (snd x) \<noteq> 0" using less.prems(2) sub due by auto
    ultimately have IH: "execute_all ?m = (map (\<lambda>e. event_id (snd e)) (filter ?al es), m\<lparr>em_eventMap := later m\<rparr>)"
      using less.hyps [of ?m] by (simp add: due later)
    have "?al e" using Cons by (metis hd_dropWhile list.distinct(1) list.sel(1))
    moreover have "filter ?al (takeWhile (\<lambda>e. \<not> ?al e) (due m)) = []"
      by (auto simp: filter_empty_conv dest: set_takeWhileD)
    ultimately have "filter ?al (due m) = e # filter ?al es" by (subst d) simp
    with IH x e show ?thesis by (simp add: execute_all_unfold [OF less.prems(1)])
  qed
qed

lemma get_loop_agrees:
  "fst (get_loop now phase es) = fst (execute_loop now phase es)
   \<and> (fst (get_loop now phase es) \<noteq> 0 \<longrightarrow> tl (snd (get_loop now phase es)) = snd (execute_loop now phase es))"
  by (induction now phase es rule: execute_loop.induct) (auto simp: phase_shift)

section \<open>Reachable event maps\<close>

text \<open>What a script may do with its event map, in any order.\<close>

inductive em_step :: "EventMap \<Rightarrow> EventMap \<Rightarrow> bool" where
  "em_step m (EventMap_Reset m)"
| "em_step m (EventMap_Update diff m)"
| "em_step m (SetPhase phase m)"
| "em_step m (AddPhase phase m)"
| "em_step m (RemovePhase phase m)"
| "em_step m (ScheduleEvent eventId delay grp phase m)"
| "em_step m (RescheduleEvent eventId delay grp phase m)"
| "em_step m (RepeatEvent delay m)"
| "em_step m (PopEvent m)"
| "em_step m (snd (ExecuteEvent m))"
| "em_step m (snd (GetEvent m))"
| "em_step m (DelayEvents delay m)"
| "em_step m (DelayEvents_group delay grp m)"
| "em_step m (CancelEvent eventId m)"
| "em_step m (CancelEventGroup grp m)"

definition em_init :: "EventMap \<Rightarrow> bool" where
  "em_init m \<longleftrightarrow> m = EventMap_new"

definition em_inv :: "EventMap \<Rightarrow> bool" where
  "em_inv m \<longleftrightarrow> mm_wf (em_eventMap m)"

lemma mm_wf_tl: "mm_wf m \<Longrightarrow> mm_wf (tl m)"
  by (cases m) auto

lemma mm_wf_fold: "mm_wf m \<Longrightarrow> mm_wf (fold (\<lambda>(t, data). mm_insert (f t) data) es m)"
  by (induction es arbitrary: m) auto

lemma get_loop_wf: "mm_wf es \<Longrightarrow> mm_wf (snd (get_loop now phase es))"
  by (induction now phase es rule: get_loop.induct) auto

lemma ScheduleEvent_inv: "em_inv m \<Longrightarrow> em_inv (ScheduleEvent eventId delay grp phase m)"
  by (simp add: em_inv_def ScheduleEvent_def)

lemma em_step_inv: "em_step m m' \<Longrightarrow> em_inv m \<Longrightarrow> em_inv m'"
proof (induction rule: em_step.induct)
  case (8 m delay)
  then show ?case
    by (auto simp: RepeatEvent_def em_inv_def ScheduleEvent_def split: list.splits)
next
  case (10 m)
  then show ?case
    using execute_loop_subset by (auto simp: ExecuteEvent_def em_inv_def split: prod.splits)
next
  case (11 m)
  then show ?case
    using get_loop_wf [of "em_eventMap m"] by (simp add: GetEvent_def em_inv_def split_beta)
next
  case (13 m delay grp)
  then show ?case
    by (auto simp: DelayEvents_group_def em_inv_def Let_def intro!: mm_wf_fold [where f = "\<lambda>t. t"])
qed (auto simp: em_inv_def EventMap_Reset_def EventMap_Update_def SetPhase_def AddPhase_def RemovePhase_def
    ScheduleEvent_def RescheduleEvent_def PopEvent_def mm_wf_tl DelayEvents_def CancelEvent_def CancelEventGroup_def)

interpretation em: invariant_system em_init em_step em_inv
  by unfold_locales (auto simp: em_init_def em_inv_def EventMap_new_def intro: em_step_inv [unfolded em_inv_def])

section \<open>Properties\<close>

text \<open>
  C26.  Every event is delivered: a script that executes events until there is none gets exactly the
  events whose time has come and which the active phases let through, in the order of their times
  and, at equal times, of their arrival; the events whose time has not come stay as they are.
  (Identifiers are not zero, which is the answer for \<open>no event\<close>.)
\<close>

theorem due_events_delivered:
  assumes "reachable em_init em_step m" "\<forall>e \<in> set (due m). event_id (snd e) \<noteq> 0"
  shows "execute_all m = (map (\<lambda>e. event_id (snd e)) (filter (\<lambda>e. allowed (em_phase m) (snd e)) (due m)),
      m\<lparr>em_eventMap := later m\<rparr>) \<and> sorted (map fst (em_eventMap m))"
proof -
  from em.reachable_inv [OF assms(1)] have wf: "mm_wf (em_eventMap m)" by (simp add: em_inv_def)
  with execute_all_spec [OF wf assms(2)] show ?thesis by (simp add: mm_wf_def)
qed

definition demo_events :: EventMap where
  "demo_events = EventMap_Update 50 (ScheduleEvent 3 20 0 2 (ScheduleEvent 2 40 1 1 (ScheduleEvent 1 40 0 0 (SetPhase 1 EventMap_new))))"

lemma demo_events_reachable: "reachable em_init em_step demo_events"
proof -
  have "reachable em_init em_step EventMap_new" by (rule reach_init) (simp add: em_init_def)
  note reach_step [OF this em_step.intros(3)]
  note reach_step [OF this em_step.intros(6)]
  note reach_step [OF this em_step.intros(6)]
  note reach_step [OF this em_step.intros(6)]
  note reach_step [OF this em_step.intros(2)]
  then show ?thesis unfolding demo_events_def .
qed

theorem due_events_delivered_witness:
  "fst (execute_all demo_events) = [1, 2] \<and> em_eventMap demo_events \<noteq> []"
proof -
  have "\<forall>e \<in> set (due demo_events). event_id (snd e) \<noteq> 0"
    "map (\<lambda>e. event_id (snd e)) (filter (\<lambda>e. allowed (em_phase demo_events) (snd e)) (due demo_events)) = [1, 2]"
    "em_eventMap demo_events \<noteq> []" by code_simp+
  with due_events_delivered [OF demo_events_reachable] show ?thesis by simp
qed

text \<open>
  The data word keeps what was scheduled: its identifier, the group it belongs to and no other, and
  the phases in which it may occur.
\<close>

theorem event_data_roundtrip:
  assumes "eventId < 2 ^ 16" "grp \<le> 8" "phase \<le> 8"
  shows "event_id (event_data eventId grp phase) = eventId
    \<and> (\<forall>g. g \<noteq> 0 \<longrightarrow> g \<le> 8 \<longrightarrow> in_group g (event_data eventId grp phase) = (g = grp))
    \<and> (\<forall>active. allowed active (event_data eventId grp phase) \<longleftrightarrow>
          active = 0 \<or> phase = 0 \<or> has_flag active (phase_mask phase))"
proof (intro conjI allI impI)
  let ?d = "event_data eventId grp phase"
  have ub: "unat grp \<le> 8" "unat phase \<le> 8" using assms by (simp_all add: word_le_nat_alt)
  note bits = bit_event_data [OF assms(2,3), of eventId]
  have low: "n < 16" if "bit eventId n" for n by (rule bit_below [OF assms(1) that])
  have m16: "(0x0000FFFF :: uint32) = mask 16" by (simp add: mask_eq_exp_minus_1)
  have "bit (?d AND mask 16) n \<longleftrightarrow> bit eventId n" for n
    using low [of n] by (auto simp: bit_and_iff bit_mask_iff bits unat_eq_0 dest: bit_imp_le_length)
  then show "event_id ?d = eventId" unfolding event_id_def m16 by (intro bit_word_eqI) blast
  show "in_group g ?d = (g = grp)" if "g \<noteq> 0" "g \<le> 8" for g
  proof -
    have "unat g \<le> 8" "0 < unat g" using that by (simp_all add: word_le_nat_alt unat_gt_0)
    then have "bit ?d (unat g + 15) \<longleftrightarrow> g = grp"
      using low [of "unat g + 15"] that by (auto simp: bits word_unat_eq_iff)
    then show ?thesis
      unfolding in_group_def has_flag_bit_one [of "group_bit g", OF bit_group_bit [OF that(2)]] .
  qed
  show "allowed active ?d \<longleftrightarrow> active = 0 \<or> phase = 0 \<or> has_flag active (phase_mask phase)" for active
  proof (cases "phase = 0")
    case True
    have "\<not> bit ?d n" if "24 \<le> n" for n unfolding bits using that low [of n] True ub by auto
    with True show ?thesis by (auto simp: allowed_bits)
  next
    case False
    then have p: "0 < unat phase" by (simp add: unat_gt_0)
    then have "bit ?d (24 + n) \<longleftrightarrow> Suc n = unat phase" for n
      using low [of "24 + n"] False ub by (auto simp: bits)
    moreover from this [of "unat phase - 1"] have "\<exists>n. 24 \<le> n \<and> bit ?d n" using p by (intro exI [of _ "24 + (unat phase - 1)"]) simp
    ultimately show ?thesis using False bit_phase_mask [OF False assms(3)] by (auto simp: allowed_bits has_flag_bit)
  qed
qed

theorem event_data_roundtrip_witness:
  "event_id (event_data 7 3 2) = 7 \<and> in_group 3 (event_data 7 3 2) \<and> \<not> in_group 4 (event_data 7 3 2)"
  using event_data_roundtrip [of 7 3 2] by simp

text \<open>
  \<^verbatim>\<open>GetEvent\<close> and \<^verbatim>\<open>ExecuteEvent\<close> agree: looking at the next event and then removing the first entry is
  executing it, although the two test the phase with different shifts.
\<close>

theorem get_event_agrees:
  "fst (GetEvent m) = fst (ExecuteEvent m) \<and> (fst (GetEvent m) \<noteq> 0 \<longrightarrow> PopEvent (snd (GetEvent m)) = snd (ExecuteEvent m))"
  using get_loop_agrees [of "em_time m" "em_phase m" "em_eventMap m"]
  by (auto simp: GetEvent_def ExecuteEvent_def PopEvent_def split: prod.splits)

text \<open>
  \<^verbatim>\<open>DelayEvents\<close> lengthens the time until every event by the delay, but by no more than the timer's
  value.  The comment on it says that a delay of at least that value is taken as zero.
\<close>

theorem delay_all_events:
  "em_eventMap (DelayEvents delay m) = em_eventMap m
   \<and> (\<forall>t. t - em_time (DelayEvents delay m) = (t - em_time m) + min delay (em_time m))"
  by (auto simp: DelayEvents_def min_def not_less)

end
