(* ===== verification/GroupState.thy ===== *)
theory GroupState
  imports LFGMgr WorldPacket
begin

text \<open>
  Groups of players: the data of \<^verbatim>\<open>game/Groups/Group.h\<close>, \<^verbatim>\<open>GroupMgr.{h,cpp}\<close> and the simple methods of
  \<^verbatim>\<open>Group.cpp\<close>.

  Groups are heap objects.  Players refer to them by plain pointers (\<^verbatim>\<open>m_groupInvite\<close>) and by linked
  references (\<^verbatim>\<open>m_group\<close>, \<^verbatim>\<open>m_originalGroup\<close>), which the destructor of a group clears.  The world of the
  model is a store from addresses to groups, in which a deleted group has no entry, with the players
  that are in memory, the loots that are rolled for, the fields of \<^verbatim>\<open>GroupMgr\<close>, and the dungeon finder's
  manager, which the group code and its scripts call.  Undefined behaviour (the use of a deleted
  group, an index outside an array, a failed assertion) is recorded in \<open>gw_fault\<close>; the state after a fault
  has no meaning, and theorems say that there is none.  Packets, statements and calls into the
  rest of the server are appended to \<open>gw_log\<close> in the order of the code.
\<close>

section \<open>Data\<close>

type_synonym gptr = nat

datatype group_error = UseAfterFree | OutOfRange | AssertFailed | NullDereferenced | ScriptFailed lfg_error

abbreviation MAXGROUPSIZE :: nat where "MAXGROUPSIZE \<equiv> 5"
abbreviation MAXRAIDSIZE :: nat where "MAXRAIDSIZE \<equiv> 40"
abbreviation MAX_RAID_SUBGROUPS :: nat where "MAX_RAID_SUBGROUPS \<equiv> 8"
abbreviation TARGETICONCOUNT :: nat where "TARGETICONCOUNT \<equiv> 8"

abbreviation MEMBER_FLAG_ASSISTANT :: uint8 where "MEMBER_FLAG_ASSISTANT \<equiv> 0x01"
abbreviation MEMBER_FLAG_MAINTANK :: uint8 where "MEMBER_FLAG_MAINTANK \<equiv> 0x02"
abbreviation MEMBER_FLAG_MAINASSIST :: uint8 where "MEMBER_FLAG_MAINASSIST \<equiv> 0x04"

abbreviation GROUPTYPE_NORMAL :: uint8 where "GROUPTYPE_NORMAL \<equiv> 0x00"
abbreviation GROUPTYPE_RAID :: uint8 where "GROUPTYPE_RAID \<equiv> 0x02"
abbreviation GROUPTYPE_BGRAID :: uint8 where "GROUPTYPE_BGRAID \<equiv> 0x03"
abbreviation GROUPTYPE_UNK1 :: uint8 where "GROUPTYPE_UNK1 \<equiv> 0x04"
abbreviation GROUPTYPE_LFG :: uint8 where "GROUPTYPE_LFG \<equiv> 0x08"

abbreviation FREE_FOR_ALL :: uint32 where "FREE_FOR_ALL \<equiv> 0"
abbreviation MASTER_LOOT :: uint32 where "MASTER_LOOT \<equiv> 2"
abbreviation GROUP_LOOT :: uint32 where "GROUP_LOOT \<equiv> 3"
abbreviation NEED_BEFORE_GREED :: uint32 where "NEED_BEFORE_GREED \<equiv> 4"
abbreviation ITEM_QUALITY_UNCOMMON :: uint32 where "ITEM_QUALITY_UNCOMMON \<equiv> 2"

datatype RollVote = PASS | NEED | GREED | DISENCHANT | NOT_EMITED_YET | NOT_VALID

text \<open>\<open>ro_loot\<close> is the link to the loot; it is cut when the loot is deleted.\<close>

record Roll =
  ro_itemGUID :: uint64
  ro_itemid :: uint32
  ro_itemRandomPropId :: uint32
  ro_itemRandomSuffix :: uint32
  ro_itemCount :: uint8
  ro_playerVote :: "(uint64, RollVote) smap"
  ro_totalPlayersRolling :: uint8
  ro_totalNeed :: uint8
  ro_totalGreed :: uint8
  ro_totalPass :: uint8
  ro_itemSlot :: uint8
  ro_rollVoteMask :: uint8
  ro_loot :: "nat option"

record MemberSlot =
  ms_guid :: uint64
  ms_name :: string
  ms_group :: uint8
  ms_flags :: uint8
  ms_roles :: uint8

text \<open>
  \<open>g_memberMgr\<close> is the list of the references to the group, the newest first: the player, and whether it
  is his \<^verbatim>\<open>m_originalGroup\<close>.  \<open>g_subGroupsCounts\<close> is the counters' array, \<^verbatim>\<open>NULL\<close> unless the group is a
  raid.
\<close>

record Group =
  g_memberSlots :: "MemberSlot list"
  g_memberMgr :: "(uint64 \<times> bool) list"
  g_invitees :: "uint64 sset"
  g_leaderGuid :: uint64
  g_leaderName :: string
  g_groupType :: uint8
  g_dungeonDifficulty :: uint8
  g_raidDifficulty :: uint8
  g_bgGroup :: bool
  g_bfGroup :: bool
  g_targetIcons :: "uint64 list"
  g_lootMethod :: uint32
  g_lootThreshold :: uint32
  g_looterGuid :: uint64
  g_rolls :: "Roll list"
  g_subGroupsCounts :: "uint8 list option"
  g_guid :: uint64
  g_counter :: uint32
  g_maxEnchantingLevel :: uint32
  g_dbStoreId :: uint32

definition Group_new :: Group where
  "Group_new = \<lparr>g_memberSlots = [], g_memberMgr = [], g_invitees = [], g_leaderGuid = 0, g_leaderName = [],
     g_groupType = GROUPTYPE_NORMAL, g_dungeonDifficulty = 0, g_raidDifficulty = 0, g_bgGroup = False, g_bfGroup = False,
     g_targetIcons = replicate TARGETICONCOUNT 0, g_lootMethod = FREE_FOR_ALL, g_lootThreshold = ITEM_QUALITY_UNCOMMON,
     g_looterGuid = 0, g_rolls = [], g_subGroupsCounts = None, g_guid = 0, g_counter = 0, g_maxEnchantingLevel = 0,
     g_dbStoreId = 0\<rparr>"

record LootItem =
  li_itemid :: uint32
  li_randomSuffix :: uint32
  li_randomPropertyId :: uint32
  li_count :: uint8
  li_is_looted :: bool
  li_is_blocked :: bool
  li_freeforall :: bool
  li_is_underthreshold :: bool
  li_follow_loot_rules :: bool

record Loot =
  lo_items :: "LootItem list"
  lo_quest_items :: "LootItem list"
  lo_unlootedCount :: uint8
  lo_PlayersLooting :: "uint64 sset"

text \<open>What the group code reads and writes of a player in memory; a group reference carries the subgroup.\<close>

record group_player =
  gp_name :: string
  gp_inWorld :: bool
  gp_session :: bool
  gp_group :: "(gptr \<times> uint8) option"
  gp_original :: "(gptr \<times> uint8) option"
  gp_invite :: "gptr option"
  gp_passOnGroupLoot :: bool
  gp_level :: uint8
  gp_enchanting :: uint16
  gp_dungeonDifficulty :: uint8
  gp_raidDifficulty :: uint8
  gp_instanceValid :: bool

datatype group_stmt =
  CHAR_INS_GROUP uint32 uint32 uint8 uint32 uint8 "uint32 list" uint8 uint8 uint8
| CHAR_INS_GROUP_MEMBER uint32 uint32 uint8 uint8 uint8
| CHAR_DEL_GROUP_MEMBER uint32
| CHAR_DEL_GROUP_INSTANCE_PERM_BINDING uint32 uint32
| CHAR_UPD_GROUP_LEADER uint32 uint32
| CHAR_UPD_GROUP_TYPE uint8 uint32
| CHAR_UPD_GROUP_MEMBER_SUBGROUP uint8 uint32
| CHAR_UPD_GROUP_MEMBER_FLAG uint8 uint32
| CHAR_UPD_GROUP_DIFFICULTY uint8 uint32
| CHAR_UPD_GROUP_RAID_DIFFICULTY uint8 uint32
| CHAR_DEL_GROUP uint32
| CHAR_DEL_GROUP_MEMBER_ALL uint32
| GROUP_CHAR_DEL_LFG_DATA uint32

text \<open>What the code does outside the model, in order.\<close>

datatype group_effect =
  SendPacket uint64 packet
| Execute group_stmt
| UpdateForQuestWorldObjects uint64
| UpdateObjectVisibility uint64
| ForceValuesUpdate uint64
| ConvertInstancesToGroup uint64 bool
| ResetPlayerInstances uint64 bool
| ResetGroupInstances uint64 bool
| UnbindPermanentInstances uint64
| RepopAtGraveyard uint64
| SendDifficulty uint64 bool
| SendPartyMemberStats uint64
| BroadcastMemberFields uint64
| StoreNewItem uint64 uint32 uint8
| AutoStoreLoot uint64 uint32
| SendEquipError uint64 uint8
| UpdateAchievementCriteria uint64 uint32 uint32 uint32
| SetGroupLootTimer nat uint32
| StopNow
| LfgEffect lfg_effect

record group_world =
  gw_groups :: "gptr \<Rightarrow> Group option"
  gw_fresh :: gptr
  gw_players :: "uint64 \<Rightarrow> group_player option"
  gw_loots :: "nat \<Rightarrow> Loot option"
  gw_NextGroupId :: uint32
  gw_NextGroupDbStoreId :: uint32
  gw_GroupStore :: "(uint32, gptr) smap"
  gw_GroupDbStore :: "gptr option list"
  gw_itemGuid :: uint32
  gw_drawn :: nat
  gw_lfg :: LFGMgr
  gw_log :: "group_effect list"
  gw_fault :: "group_error option"

record ItemTemplate =
  it_Quality :: uint32
  it_Flags2 :: uint32
  it_DisenchantID :: uint32
  it_RequiredDisenchantSkill :: uint32

text \<open>
  What the group code asks of the rest of the server: positions and maps of players and looted objects,
  items, conditions on loot, inventories, random numbers, names of characters.
\<close>

record group_env =
  ge_lfg :: lfgm_env
  ge_near :: "nat \<Rightarrow> uint64 \<Rightarrow> bool"
  ge_objectMap :: "nat \<Rightarrow> uint32"
  ge_allowed :: "LootItem \<Rightarrow> uint64 \<Rightarrow> bool"
  ge_item :: "uint32 \<Rightarrow> ItemTemplate option"
  ge_canNeed :: "uint32 \<Rightarrow> uint64 \<Rightarrow> bool"
  ge_canStore :: "uint64 \<Rightarrow> uint32 \<Rightarrow> uint8 \<Rightarrow> uint8"
  ge_urand :: "nat \<Rightarrow> uint8"
  ge_alive :: "uint64 \<Rightarrow> bool"
  ge_mapId :: "uint64 \<Rightarrow> uint32"
  ge_inDungeon :: "uint64 \<Rightarrow> bool"
  ge_gameMaster :: "uint64 \<Rightarrow> bool"
  ge_boundHere :: "uint64 \<Rightarrow> uint64 \<Rightarrow> bool"
  ge_strandedBy :: "uint64 \<Rightarrow> uint64 \<Rightarrow> bool"
  ge_nameOf :: "uint32 \<Rightarrow> string option"

section \<open>Access to the world\<close>

definition fault :: "group_error \<Rightarrow> group_world \<Rightarrow> group_world" where
  "fault e w = (if gw_fault w = None then w\<lparr>gw_fault := Some e\<rparr> else w)"

definition emit :: "group_effect list \<Rightarrow> group_world \<Rightarrow> group_world" where
  "emit es w = w\<lparr>gw_log := gw_log w @ es\<rparr>"

text \<open>A method called through a pointer; a change of the fields of a group; the fields of a group.\<close>

definition deref :: "gptr \<Rightarrow> (group_world \<Rightarrow> group_world) \<Rightarrow> group_world \<Rightarrow> group_world" where
  "deref p f w = (if gw_groups w p = None then fault UseAfterFree w else f w)"

definition on_grp :: "gptr \<Rightarrow> (Group \<Rightarrow> Group) \<Rightarrow> group_world \<Rightarrow> group_world" where
  "on_grp p f w = (case gw_groups w p of None \<Rightarrow> fault UseAfterFree w | Some g \<Rightarrow> w\<lparr>gw_groups := (gw_groups w)(p \<mapsto> f g)\<rparr>)"

definition grp :: "group_world \<Rightarrow> gptr \<Rightarrow> Group" where
  "grp w p = (case gw_groups w p of None \<Rightarrow> Group_new | Some g \<Rightarrow> g)"

definition on_plr :: "uint64 \<Rightarrow> (group_player \<Rightarrow> group_player) \<Rightarrow> group_world \<Rightarrow> group_world" where
  "on_plr guid f w = w\<lparr>gw_players := (gw_players w)(guid := map_option f (gw_players w guid))\<rparr>"

definition FindPlayer :: "group_world \<Rightarrow> uint64 \<Rightarrow> group_player option" where
  "FindPlayer w guid = (case gw_players w guid of None \<Rightarrow> None | Some pl \<Rightarrow> if gp_inWorld pl then Some pl else None)"

definition online :: "group_world \<Rightarrow> uint64 \<Rightarrow> bool" where
  "online w guid \<longleftrightarrow> FindPlayer w guid \<noteq> None"

text \<open>The players to whom a packet can be sent through \<^verbatim>\<open>FindPlayer\<close>.\<close>

definition connected :: "group_world \<Rightarrow> uint64 \<Rightarrow> bool" where
  "connected w guid \<longleftrightarrow> (case FindPlayer w guid of None \<Rightarrow> False | Some pl \<Rightarrow> gp_session pl)"

definition group_ptr :: "group_world \<Rightarrow> uint64 \<Rightarrow> gptr option" where
  "group_ptr w guid = (case gw_players w guid of None \<Rightarrow> None | Some pl \<Rightarrow> map_option fst (gp_group pl))"

definition original_ptr :: "group_world \<Rightarrow> uint64 \<Rightarrow> gptr option" where
  "original_ptr w guid = (case gw_players w guid of None \<Rightarrow> None | Some pl \<Rightarrow> map_option fst (gp_original pl))"

definition invite_ptr :: "group_world \<Rightarrow> uint64 \<Rightarrow> gptr option" where
  "invite_ptr w guid = (case gw_players w guid of None \<Rightarrow> None | Some pl \<Rightarrow> gp_invite pl)"

text \<open>The environment of the dungeon finder's manager: who is online is known here.\<close>

definition lfg_env_of :: "group_env \<Rightarrow> group_world \<Rightarrow> lfgm_env" where
  "lfg_env_of ge w = (ge_lfg ge)\<lparr>me_online := online w\<rparr>"

definition on_lfg :: "(LFGMgr \<Rightarrow> LFGMgr) \<Rightarrow> group_world \<Rightarrow> group_world" where
  "on_lfg f w = w\<lparr>gw_lfg := f (gw_lfg w)\<rparr>"

definition call_script :: "(LFGMgr \<Rightarrow> lfg_error + LFGMgr) \<Rightarrow> group_world \<Rightarrow> group_world" where
  "call_script h w = (case h (gw_lfg w) of Inl e \<Rightarrow> fault (ScriptFailed e) w | Inr m \<Rightarrow> w\<lparr>gw_lfg := m\<rparr>)"

section \<open>Properties of a group\<close>

definition isLFGGroup :: "Group \<Rightarrow> bool" where
  "isLFGGroup g \<longleftrightarrow> has_flag (g_groupType g) GROUPTYPE_LFG"

definition isRaidGroup :: "Group \<Rightarrow> bool" where
  "isRaidGroup g \<longleftrightarrow> has_flag (g_groupType g) GROUPTYPE_RAID"

text \<open>\<^verbatim>\<open>isBGGroup() || isBFGroup()\<close>\<close>

definition isBattleGroup :: "Group \<Rightarrow> bool" where
  "isBattleGroup g \<longleftrightarrow> g_bgGroup g \<or> g_bfGroup g"

definition GetMembersCount :: "Group \<Rightarrow> nat" where
  "GetMembersCount g = length (g_memberSlots g)"

definition IsFull :: "Group \<Rightarrow> bool" where
  "IsFull g \<longleftrightarrow> (if isRaidGroup g then GetMembersCount g \<ge> MAXRAIDSIZE else GetMembersCount g \<ge> MAXGROUPSIZE)"

definition IsCreated :: "Group \<Rightarrow> bool" where
  "IsCreated g \<longleftrightarrow> GetMembersCount g > 0"

definition getMemberSlot :: "Group \<Rightarrow> uint64 \<Rightarrow> MemberSlot option" where
  "getMemberSlot g guid = find (\<lambda>s. ms_guid s = guid) (g_memberSlots g)"

definition IsMember :: "Group \<Rightarrow> uint64 \<Rightarrow> bool" where
  "IsMember g guid \<longleftrightarrow> getMemberSlot g guid \<noteq> None"

definition IsLeader :: "Group \<Rightarrow> uint64 \<Rightarrow> bool" where
  "IsLeader g guid \<longleftrightarrow> g_leaderGuid g = guid"

definition GetMemberGUID :: "Group \<Rightarrow> string \<Rightarrow> uint64" where
  "GetMemberGUID g name = (case find (\<lambda>s. ms_name s = name) (g_memberSlots g) of None \<Rightarrow> 0 | Some s \<Rightarrow> ms_guid s)"

definition IsAssistant :: "Group \<Rightarrow> uint64 \<Rightarrow> bool" where
  "IsAssistant g guid \<longleftrightarrow> (case getMemberSlot g guid of None \<Rightarrow> False | Some s \<Rightarrow> has_flag (ms_flags s) MEMBER_FLAG_ASSISTANT)"

definition SameSubGroup_slot :: "Group \<Rightarrow> uint64 \<Rightarrow> MemberSlot option \<Rightarrow> bool" where
  "SameSubGroup_slot g guid1 slot2 \<longleftrightarrow>
     (case (getMemberSlot g guid1, slot2) of (Some s1, Some s2) \<Rightarrow> ms_group s1 = ms_group s2 | _ \<Rightarrow> False)"

definition SameSubGroup :: "Group \<Rightarrow> uint64 \<Rightarrow> uint64 \<Rightarrow> bool" where
  "SameSubGroup g guid1 guid2 \<longleftrightarrow>
     (case getMemberSlot g guid2 of None \<Rightarrow> False | Some s \<Rightarrow> SameSubGroup_slot g guid1 (Some s))"

definition HasFreeSlotSubGroup :: "Group \<Rightarrow> uint8 \<Rightarrow> bool" where
  "HasFreeSlotSubGroup g subgroup \<longleftrightarrow>
     (case g_subGroupsCounts g of None \<Rightarrow> False
      | Some cs \<Rightarrow> unat subgroup < length cs \<and> cs ! unat subgroup < of_nat MAXGROUPSIZE)"

definition GetMemberGroup :: "Group \<Rightarrow> uint64 \<Rightarrow> uint8" where
  "GetMemberGroup g guid = (case getMemberSlot g guid of None \<Rightarrow> of_nat MAX_RAID_SUBGROUPS + 1 | Some s \<Rightarrow> ms_group s)"

definition GetDifficulty :: "Group \<Rightarrow> bool \<Rightarrow> uint8" where
  "GetDifficulty g isRaid = (if isRaid then g_raidDifficulty g else g_dungeonDifficulty g)"

text \<open>The search goes through pointers to the players who are invited; one who has been deleted is an error.\<close>

definition GetInvited :: "group_world \<Rightarrow> Group \<Rightarrow> uint64 \<Rightarrow> group_error + uint64 option" where
  "GetInvited w g guid =
     (if list_ex (\<lambda>i. gw_players w i = None) (g_invitees g) then Inl UseAfterFree
      else Inr (if guid \<in> set (g_invitees g) then Some guid else None))"

definition GetInvited_name :: "group_world \<Rightarrow> Group \<Rightarrow> string \<Rightarrow> group_error + uint64 option" where
  "GetInvited_name w g name =
     (if list_ex (\<lambda>i. gw_players w i = None) (g_invitees g) then Inl UseAfterFree
      else Inr (find (\<lambda>guid. case gw_players w guid of None \<Rightarrow> False | Some pl \<Rightarrow> gp_name pl = name) (g_invitees g)))"

section \<open>Changes of a group\<close>

definition set_slot :: "uint64 \<Rightarrow> (MemberSlot \<Rightarrow> MemberSlot) \<Rightarrow> Group \<Rightarrow> Group" where
  "set_slot guid f g = g\<lparr>g_memberSlots := map (\<lambda>s. if ms_guid s = guid then f s else s) (g_memberSlots g)\<rparr>"

text \<open>\<^verbatim>\<open>++m_subGroupsCounts[subgroup]\<close> and \<^verbatim>\<open>--m_subGroupsCounts[subgroup]\<close>, an index outside the array being an error.\<close>

definition count_subgroup :: "(uint8 \<Rightarrow> uint8) \<Rightarrow> uint8 \<Rightarrow> Group \<Rightarrow> group_error + Group" where
  "count_subgroup f subgroup g =
     (case g_subGroupsCounts g of
        None \<Rightarrow> Inr g
      | Some cs \<Rightarrow> if unat subgroup < length cs
                   then Inr (g\<lparr>g_subGroupsCounts := Some (cs[unat subgroup := f (cs ! unat subgroup)])\<rparr>)
                   else Inl OutOfRange)"

definition SubGroupCounterIncrease :: "uint8 \<Rightarrow> Group \<Rightarrow> group_error + Group" where
  "SubGroupCounterIncrease = count_subgroup (\<lambda>n. n + 1)"

definition SubGroupCounterDecrease :: "uint8 \<Rightarrow> Group \<Rightarrow> group_error + Group" where
  "SubGroupCounterDecrease = count_subgroup (\<lambda>n. n - 1)"

fun count_slots :: "MemberSlot list \<Rightarrow> Group \<Rightarrow> group_error + Group" where
  "count_slots [] g = Inr g"
| "count_slots (s # ss) g = bindE (SubGroupCounterIncrease (ms_group s) g) (count_slots ss)"

definition initRaidSubGroupsCounter :: "Group \<Rightarrow> group_error + Group" where
  "initRaidSubGroupsCounter g =
     count_slots (g_memberSlots g) (g\<lparr>g_subGroupsCounts := Some (replicate MAX_RAID_SUBGROUPS 0)\<rparr>)"

definition on_grp_checked :: "gptr \<Rightarrow> (Group \<Rightarrow> group_error + Group) \<Rightarrow> group_world \<Rightarrow> group_world" where
  "on_grp_checked p f w = (case f (grp w p) of Inl e \<Rightarrow> fault e w | Inr g \<Rightarrow> on_grp p (\<lambda>_. g) w)"

definition ToggleGroupMemberFlag :: "uint64 \<Rightarrow> uint8 \<Rightarrow> bool \<Rightarrow> Group \<Rightarrow> Group" where
  "ToggleGroupMemberFlag guid fl apply =
     set_slot guid (\<lambda>s. s\<lparr>ms_flags := if apply then set_flag (ms_flags s) fl else clear_flag (ms_flags s) fl\<rparr>)"

definition RemoveUniqueGroupMemberFlag :: "uint8 \<Rightarrow> Group \<Rightarrow> Group" where
  "RemoveUniqueGroupMemberFlag fl g =
     g\<lparr>g_memberSlots := map (\<lambda>s. if has_flag (ms_flags s) fl then s\<lparr>ms_flags := clear_flag (ms_flags s) fl\<rparr> else s) (g_memberSlots g)\<rparr>"

text \<open>\<^verbatim>\<open>ResetMaxEnchantingLevel\<close>: the highest skill among the members who are online.\<close>

definition ResetMaxEnchantingLevel :: "group_world \<Rightarrow> Group \<Rightarrow> Group" where
  "ResetMaxEnchantingLevel w g =
     g\<lparr>g_maxEnchantingLevel :=
         fold (\<lambda>s level. case FindPlayer w (ms_guid s) of
                            Some pl \<Rightarrow> if level < ucast (gp_enchanting pl) then ucast (gp_enchanting pl) else level
                          | None \<Rightarrow> level) (g_memberSlots g) 0\<rparr>"

section \<open>References of players to groups\<close>

text \<open>
  \<^verbatim>\<open>Reference::link\<close> and \<^verbatim>\<open>unlink\<close> for \<^verbatim>\<open>m_group\<close> (\<open>orig = False\<close>) and \<^verbatim>\<open>m_originalGroup\<close> (\<open>orig = True\<close>): a link is
  inserted first into the group's list.
\<close>

definition ref_of :: "bool \<Rightarrow> group_player \<Rightarrow> (gptr \<times> uint8) option" where
  "ref_of orig pl = (if orig then gp_original pl else gp_group pl)"

definition set_ref :: "bool \<Rightarrow> (gptr \<times> uint8) option \<Rightarrow> group_player \<Rightarrow> group_player" where
  "set_ref orig r pl = (if orig then pl\<lparr>gp_original := r\<rparr> else pl\<lparr>gp_group := r\<rparr>)"

definition unlink :: "bool \<Rightarrow> uint64 \<Rightarrow> group_world \<Rightarrow> group_world" where
  "unlink orig guid w =
     (case gw_players w guid of
        None \<Rightarrow> w
      | Some pl \<Rightarrow> (case ref_of orig pl of
          None \<Rightarrow> w
        | Some (p, subgroup) \<Rightarrow>
            on_plr guid (set_ref orig None) (on_grp p (\<lambda>g. g\<lparr>g_memberMgr := removeAll (guid, orig) (g_memberMgr g)\<rparr>) w)))"

definition link :: "bool \<Rightarrow> uint64 \<Rightarrow> gptr \<Rightarrow> uint8 \<Rightarrow> group_world \<Rightarrow> group_world" where
  "link orig guid p subgroup w =
     (let w = unlink orig guid w
      in on_grp p (\<lambda>g. g\<lparr>g_memberMgr := (guid, orig) # g_memberMgr g\<rparr>) (on_plr guid (set_ref orig (Some (p, subgroup))) w))"

text \<open>\<^verbatim>\<open>Player::SetGroup\<close>, \<^verbatim>\<open>SetOriginalGroup\<close>, and the move to and from the raid of a battleground.\<close>

definition Player_SetGroup :: "uint64 \<Rightarrow> (gptr \<times> uint8) option \<Rightarrow> group_world \<Rightarrow> group_world" where
  "Player_SetGroup guid r w =
     emit [UpdateObjectVisibility guid] (case r of None \<Rightarrow> unlink False guid w | Some (p, subgroup) \<Rightarrow> link False guid p subgroup w)"

definition SetOriginalGroup :: "uint64 \<Rightarrow> (gptr \<times> uint8) option \<Rightarrow> group_world \<Rightarrow> group_world" where
  "SetOriginalGroup guid r w = (case r of None \<Rightarrow> unlink True guid w | Some (p, subgroup) \<Rightarrow> link True guid p subgroup w)"

definition player_ref :: "bool \<Rightarrow> group_world \<Rightarrow> uint64 \<Rightarrow> (gptr \<times> uint8) option" where
  "player_ref orig w guid = (case gw_players w guid of None \<Rightarrow> None | Some pl \<Rightarrow> ref_of orig pl)"

definition SetBattlegroundOrBattlefieldRaid :: "uint64 \<Rightarrow> gptr \<Rightarrow> uint8 \<Rightarrow> group_world \<Rightarrow> group_world" where
  "SetBattlegroundOrBattlefieldRaid guid p subgroup w =
     link False guid p subgroup (unlink False guid (SetOriginalGroup guid (player_ref False w guid) w))"

definition RemoveFromBattlegroundOrBattlefieldRaid :: "uint64 \<Rightarrow> group_world \<Rightarrow> group_world" where
  "RemoveFromBattlegroundOrBattlefieldRaid guid w =
     (let w = unlink False guid w;
          w = (case player_ref True w guid of None \<Rightarrow> w | Some (p, subgroup) \<Rightarrow> link False guid p subgroup w)
      in SetOriginalGroup guid None w)"

definition DelinkMember :: "gptr \<Rightarrow> uint64 \<Rightarrow> group_world \<Rightarrow> group_world" where
  "DelinkMember p guid w =
     (case find (\<lambda>r. fst r = guid) (g_memberMgr (grp w p)) of None \<Rightarrow> w | Some (_, orig) \<Rightarrow> unlink orig guid w)"

text \<open>The destructor of the list of references invalidates them; \<^verbatim>\<open>delete\<close> frees the group.\<close>

definition invalidate :: "uint64 \<times> bool \<Rightarrow> group_world \<Rightarrow> group_world" where
  "invalidate r w = on_plr (fst r) (set_ref (snd r) None) w"

definition delete_group :: "gptr \<Rightarrow> group_world \<Rightarrow> group_world" where
  "delete_group p w =
     (if gw_groups w p = None then fault UseAfterFree w
      else let w = fold invalidate (g_memberMgr (grp w p)) w in w\<lparr>gw_groups := (gw_groups w)(p := None)\<rparr>)"

definition new_group :: "group_world \<Rightarrow> gptr \<times> group_world" where
  "new_group w = (gw_fresh w, w\<lparr>gw_groups := (gw_groups w)(gw_fresh w \<mapsto> Group_new), gw_fresh := Suc (gw_fresh w)\<rparr>)"

section \<open>The registry of groups\<close>

text \<open>
  The identifiers under which groups are stored in the database are reused: the next one is the
  least that is free.  The loop looks for it from the current one on; it is bounded by the size of
  the vector, behind which everything is free.
\<close>

definition store_free :: "gptr option list \<Rightarrow> uint32 \<Rightarrow> bool" where
  "store_free db i \<longleftrightarrow> unat i < length db \<and> db ! unat i = None \<or> length db \<le> unat i"

function next_free :: "gptr option list \<Rightarrow> uint32 \<Rightarrow> uint32 option" where
  "next_free db i = (if i < 0xFFFFFFFF then if store_free db i then Some i else next_free db (i + 1) else None)"
  by pat_completeness auto

lemma unat_next: "i < (0xFFFFFFFF :: uint32) \<Longrightarrow> unat (i + 1) = unat i + 1"
  by (simp add: word_less_nat_alt unat_word_ariths(1))

termination next_free
  by (relation "measure (\<lambda>(db, i). 0xFFFFFFFF - unat i)") (auto simp: unat_next word_less_nat_alt)

definition GenerateNewGroupDbStoreId :: "group_world \<Rightarrow> uint32 \<times> group_world" where
  "GenerateNewGroupDbStoreId w =
     (let newStorageId = gw_NextGroupDbStoreId w;
          first = newStorageId + 1;
          nextId = (case next_free (gw_GroupDbStore w) first of Some i \<Rightarrow> i | None \<Rightarrow> first);
          w = w\<lparr>gw_NextGroupDbStoreId := nextId\<rparr>
      in (newStorageId, if newStorageId = nextId then emit [StopNow] w else w))"

definition RegisterGroupDbStoreId :: "uint32 \<Rightarrow> gptr \<Rightarrow> group_world \<Rightarrow> group_world" where
  "RegisterGroupDbStoreId storageId p w =
     (let db = gw_GroupDbStore w;
          db = (if unat storageId \<ge> length db then db @ replicate (unat storageId + 1 - length db) None else db)
      in w\<lparr>gw_GroupDbStore := db[unat storageId := Some p]\<rparr>)"

definition FreeGroupDbStoreId :: "gptr \<Rightarrow> group_world \<Rightarrow> group_world" where
  "FreeGroupDbStoreId p w =
     (let storageId = g_dbStoreId (grp w p);
          w = (if storageId < gw_NextGroupDbStoreId w then w\<lparr>gw_NextGroupDbStoreId := storageId\<rparr> else w)
      in if unat storageId < length (gw_GroupDbStore w) then w\<lparr>gw_GroupDbStore := (gw_GroupDbStore w)[unat storageId := None]\<rparr>
         else fault OutOfRange w)"

definition GetGroupByDbStoreId :: "group_world \<Rightarrow> uint32 \<Rightarrow> gptr option" where
  "GetGroupByDbStoreId w storageId = (if unat storageId < length (gw_GroupDbStore w) then gw_GroupDbStore w ! unat storageId else None)"

definition GenerateGroupId :: "group_world \<Rightarrow> uint32 \<times> group_world" where
  "GenerateGroupId w =
     (let w = (if gw_NextGroupId w \<ge> 0xFFFFFFFE then emit [StopNow] w else w)
      in (gw_NextGroupId w, w\<lparr>gw_NextGroupId := gw_NextGroupId w + 1\<rparr>))"

definition GetGroupByGUID :: "group_world \<Rightarrow> uint32 \<Rightarrow> gptr option" where
  "GetGroupByGUID w groupId = map_of (gw_GroupStore w) groupId"

definition AddGroup :: "gptr \<Rightarrow> group_world \<Rightarrow> group_world" where
  "AddGroup p w = w\<lparr>gw_GroupStore := map_put (GUID_LOPART (g_guid (grp w p))) p (gw_GroupStore w)\<rparr>"

definition RemoveGroup :: "gptr \<Rightarrow> group_world \<Rightarrow> group_world" where
  "RemoveGroup p w = w\<lparr>gw_GroupStore := map_erase (GUID_LOPART (g_guid (grp w p))) (gw_GroupStore w)\<rparr>"

section \<open>Packets to the members\<close>

definition group_list_fields :: "group_world \<Rightarrow> Group \<Rightarrow> MemberSlot \<Rightarrow> field list" where
  "group_list_fields w g slot =
     [FU8 (g_groupType g), FU8 (ms_group slot), FU8 (ms_flags slot), FU8 (ms_roles slot)]
     @ (if isLFGGroup g
        then [FU8 (if GetState (gw_lfg w) (g_guid g) = LFG_STATE_FINISHED_DUNGEON then 2 else 0), FU32 (GetDungeon (gw_lfg w) (g_guid g) True)]
        else [])
     @ [FU64 (g_guid g), FU32 (g_counter g), FU32 (of_nat (GetMembersCount g) - 1)]
     @ concat (map (\<lambda>s. [FStr (ms_name s), FU64 (ms_guid s),
                 FU8 ((if online w (ms_guid s) then 0x01 else 0x00) OR (if isBattleGroup g then 0x02 else 0)),
                 FU8 (ms_group s), FU8 (ms_flags s), FU8 (ms_roles s)])
          (filter (\<lambda>s. ms_guid slot \<noteq> ms_guid s) (g_memberSlots g)))
     @ [FU64 (g_leaderGuid g)]
     @ (if of_nat (GetMembersCount g) - 1 \<noteq> (0 :: uint32)
        then [FU8 (ucast (g_lootMethod g)), FU64 (g_looterGuid g), FU8 (ucast (g_lootThreshold g)),
              FU8 (g_dungeonDifficulty g), FU8 (g_raidDifficulty g), FU8 0]
        else [])"

definition SendUpdateToPlayer :: "gptr \<Rightarrow> uint64 \<Rightarrow> MemberSlot option \<Rightarrow> group_world \<Rightarrow> group_world" where
  "SendUpdateToPlayer p guid slot w =
     (if \<not> connected w guid \<or> group_ptr w guid \<noteq> Some p then w
      else case (case slot of Some s \<Rightarrow> Some s | None \<Rightarrow> getMemberSlot (grp w p) guid) of
             None \<Rightarrow> w
           | Some s \<Rightarrow> emit [SendPacket guid (pkt 0x07D (group_list_fields w (grp w p) s))]
                         (on_grp p (\<lambda>g. g\<lparr>g_counter := g_counter g + 1\<rparr>) w))"

definition SendUpdate :: "gptr \<Rightarrow> group_world \<Rightarrow> group_world" where
  "SendUpdate p w = fold (\<lambda>s. SendUpdateToPlayer p (ms_guid s) (Some s)) (g_memberSlots (grp w p)) w"

text \<open>
  \<^verbatim>\<open>BroadcastPacket\<close> goes to the players with a reference to the group; the subgroup is the one in the
  reference.
\<close>

definition BroadcastPacket :: "gptr \<Rightarrow> packet \<Rightarrow> bool \<Rightarrow> uint8 option \<Rightarrow> uint64 \<Rightarrow> group_world \<Rightarrow> group_world" where
  "BroadcastPacket p packet ignorePlayersInBGRaid subgroup ignored w =
     emit (map (\<lambda>r. SendPacket (fst r) packet)
       (filter (\<lambda>r. case gw_players w (fst r) of
                       None \<Rightarrow> False
                     | Some pl \<Rightarrow> \<not> (ignored \<noteq> 0 \<and> fst r = ignored)
                         \<and> \<not> (ignorePlayersInBGRaid \<and> map_option fst (gp_group pl) \<noteq> Some p)
                         \<and> gp_session pl \<and> (subgroup = None \<or> map_option snd (ref_of (snd r) pl) = subgroup))
         (g_memberMgr (grp w p)))) w"

definition BroadcastReadyCheck :: "gptr \<Rightarrow> packet \<Rightarrow> group_world \<Rightarrow> group_world" where
  "BroadcastReadyCheck p packet w =
     emit (map (\<lambda>r. SendPacket (fst r) packet)
       (filter (\<lambda>r. case gw_players w (fst r) of
                       None \<Rightarrow> False
                     | Some pl \<Rightarrow> gp_session pl \<and> (IsLeader (grp w p) (fst r) \<or> IsAssistant (grp w p) (fst r)))
         (g_memberMgr (grp w p)))) w"

definition OfflineReadyCheck :: "gptr \<Rightarrow> group_world \<Rightarrow> group_world" where
  "OfflineReadyCheck p w =
     fold (\<lambda>s w. if connected w (ms_guid s) then w else BroadcastReadyCheck p (pkt 0x3AE [FU64 (ms_guid s), FU8 0]) w)
       (g_memberSlots (grp w p)) w"

definition BroadcastGroupUpdate :: "gptr \<Rightarrow> group_world \<Rightarrow> group_world" where
  "BroadcastGroupUpdate p w = emit (map (\<lambda>s. ForceValuesUpdate (ms_guid s)) (filter (\<lambda>s. online w (ms_guid s)) (g_memberSlots (grp w p)))) w"

definition icon_packet :: "uint64 \<Rightarrow> uint8 \<Rightarrow> uint64 \<Rightarrow> packet" where
  "icon_packet whoGuid i targetGuid = pkt 0x321 [FU8 0, FU64 whoGuid, FU8 i, FU64 targetGuid]"

definition set_icon :: "gptr \<Rightarrow> nat \<Rightarrow> uint64 \<Rightarrow> uint64 \<Rightarrow> group_world \<Rightarrow> group_world" where
  "set_icon p i whoGuid targetGuid w =
     BroadcastPacket p (icon_packet whoGuid (of_nat i) targetGuid) True None 0
       (on_grp p (\<lambda>g. g\<lparr>g_targetIcons := (g_targetIcons g)[i := targetGuid]\<rparr>) w)"

definition SetTargetIcon :: "gptr \<Rightarrow> uint8 \<Rightarrow> uint64 \<Rightarrow> uint64 \<Rightarrow> group_world \<Rightarrow> group_world" where
  "SetTargetIcon p i whoGuid targetGuid w =
     (if unat i \<ge> TARGETICONCOUNT then w
      else let w = (if targetGuid \<noteq> 0
                    then fold (\<lambda>j w. if g_targetIcons (grp w p) ! j = targetGuid then set_icon p j 0 0 w else w) [0..<TARGETICONCOUNT] w
                    else w)
           in set_icon p (unat i) whoGuid targetGuid w)"

definition SendTargetIconList :: "gptr \<Rightarrow> uint64 \<Rightarrow> group_world \<Rightarrow> group_world" where
  "SendTargetIconList p guid w =
     emit [SendPacket guid (pkt 0x321 (FU8 1 #
       concat (map (\<lambda>i. if g_targetIcons (grp w p) ! i = 0 then [] else [FU8 (of_nat i), FU64 (g_targetIcons (grp w p) ! i)])
         [0..<TARGETICONCOUNT])))] w"

section \<open>Frames\<close>

lemma emit_frame [simp]:
  "gw_groups (emit es w) = gw_groups w" "gw_fresh (emit es w) = gw_fresh w" "gw_players (emit es w) = gw_players w"
  "gw_loots (emit es w) = gw_loots w" "gw_GroupDbStore (emit es w) = gw_GroupDbStore w" "gw_GroupStore (emit es w) = gw_GroupStore w"
  "gw_lfg (emit es w) = gw_lfg w" "gw_fault (emit es w) = gw_fault w" "gw_NextGroupDbStoreId (emit es w) = gw_NextGroupDbStoreId w"
  "gw_drawn (emit es w) = gw_drawn w" "gw_log (emit es w) = gw_log w @ es"
  by (simp_all add: emit_def)

lemma on_plr_frame [simp]:
  "gw_groups (on_plr guid f w) = gw_groups w" "gw_fresh (on_plr guid f w) = gw_fresh w"
  "gw_loots (on_plr guid f w) = gw_loots w" "gw_GroupDbStore (on_plr guid f w) = gw_GroupDbStore w"
  "gw_lfg (on_plr guid f w) = gw_lfg w" "gw_fault (on_plr guid f w) = gw_fault w" "gw_NextGroupDbStoreId (on_plr guid f w) = gw_NextGroupDbStoreId w"
  "gw_players (on_plr guid f w) = (gw_players w)(guid := map_option f (gw_players w guid))"
  by (simp_all add: on_plr_def)

lemma fault_frame [simp]:
  "gw_groups (fault e w) = gw_groups w" "gw_players (fault e w) = gw_players w" "gw_lfg (fault e w) = gw_lfg w"
  "gw_loots (fault e w) = gw_loots w" "gw_GroupDbStore (fault e w) = gw_GroupDbStore w" "gw_fresh (fault e w) = gw_fresh w"
  by (simp_all add: fault_def)

lemma on_grp_frame [simp]:
  "gw_fresh (on_grp p f w) = gw_fresh w" "gw_players (on_grp p f w) = gw_players w"
  "gw_loots (on_grp p f w) = gw_loots w" "gw_GroupDbStore (on_grp p f w) = gw_GroupDbStore w"
  "gw_lfg (on_grp p f w) = gw_lfg w"
  by (simp_all add: on_grp_def split: option.split)

lemma on_grp_live:
  assumes "gw_groups w p = Some g"
  shows "gw_groups (on_grp p f w) = (gw_groups w)(p \<mapsto> f g)" "gw_fault (on_grp p f w) = gw_fault w"
  using assms by (simp_all add: on_grp_def)

lemma grp_live: "gw_groups w p = Some g \<Longrightarrow> grp w p = g"
  by (simp add: grp_def)

lemma grp_frame [simp]:
  "grp (emit es w) = grp w" "grp (on_plr guid f w) = grp w"
  by (simp_all add: grp_def fun_eq_iff)

lemma finders_frame [simp]:
  "FindPlayer (emit es w) = FindPlayer w" "online (emit es w) = online w" "connected (emit es w) = connected w"
  "group_ptr (emit es w) = group_ptr w" "invite_ptr (emit es w) = invite_ptr w" "original_ptr (emit es w) = original_ptr w"
  "FindPlayer (on_grp p f w) = FindPlayer w" "online (on_grp p f w) = online w" "connected (on_grp p f w) = connected w"
  "group_ptr (on_grp p f w) = group_ptr w" "invite_ptr (on_grp p f w) = invite_ptr w" "original_ptr (on_grp p f w) = original_ptr w"
  by (simp_all add: FindPlayer_def online_def connected_def group_ptr_def invite_ptr_def original_ptr_def fun_eq_iff)

lemma on_lfg_frame [simp]:
  "gw_groups (on_lfg f w) = gw_groups w" "gw_players (on_lfg f w) = gw_players w" "gw_fault (on_lfg f w) = gw_fault w"
  "gw_loots (on_lfg f w) = gw_loots w" "gw_GroupDbStore (on_lfg f w) = gw_GroupDbStore w" "gw_fresh (on_lfg f w) = gw_fresh w"
  "gw_lfg (on_lfg f w) = f (gw_lfg w)" "grp (on_lfg f w) = grp w"
  by (simp_all add: on_lfg_def grp_def fun_eq_iff)

end
