(* ===== verification/GroupLoot.thy ===== *)
theory GroupLoot
  imports GroupState
begin

text \<open>
  The loot system of \<^verbatim>\<open>Group.cpp\<close>: the rolls that a group starts for the items of a loot, the votes of
  the players, and the end of a roll.  A roll is started for the members who are near and allowed to
  loot; when all of them have voted, or the time is over, the dice are thrown among those who voted
  need, or else greed or disenchant, and the winner gets the item.
\<close>

abbreviation ROLL_PASS :: uint8 where "ROLL_PASS \<equiv> 0"
abbreviation ROLL_NEED :: uint8 where "ROLL_NEED \<equiv> 1"
abbreviation ROLL_GREED :: uint8 where "ROLL_GREED \<equiv> 2"
abbreviation ROLL_DISENCHANT :: uint8 where "ROLL_DISENCHANT \<equiv> 3"
abbreviation MAX_ROLL_TYPE :: uint8 where "MAX_ROLL_TYPE \<equiv> 4"
abbreviation ROLL_FLAG_TYPE_NEED :: uint8 where "ROLL_FLAG_TYPE_NEED \<equiv> 0x02"
abbreviation ROLL_FLAG_TYPE_DISENCHANT :: uint8 where "ROLL_FLAG_TYPE_DISENCHANT \<equiv> 0x08"
abbreviation ROLL_ALL_TYPE_NO_DISENCHANT :: uint8 where "ROLL_ALL_TYPE_NO_DISENCHANT \<equiv> 0x07"
abbreviation ITEM_FLAGS_EXTRA_NEED_ROLL_DISABLED :: uint32 where "ITEM_FLAGS_EXTRA_NEED_ROLL_DISABLED \<equiv> 0x100"

fun RollVote_code :: "RollVote \<Rightarrow> uint8" where
  "RollVote_code PASS = 0"
| "RollVote_code NEED = 1"
| "RollVote_code GREED = 2"
| "RollVote_code DISENCHANT = 3"
| "RollVote_code NOT_EMITED_YET = 4"
| "RollVote_code NOT_VALID = 5"

section \<open>Packets\<close>

definition Roll_new :: "uint64 \<Rightarrow> LootItem \<Rightarrow> Roll" where
  "Roll_new guid li = \<lparr>ro_itemGUID = guid, ro_itemid = li_itemid li, ro_itemRandomPropId = li_randomPropertyId li,
     ro_itemRandomSuffix = li_randomSuffix li, ro_itemCount = li_count li, ro_playerVote = [], ro_totalPlayersRolling = 0,
     ro_totalNeed = 0, ro_totalGreed = 0, ro_totalPass = 0, ro_itemSlot = 0, ro_rollVoteMask = ROLL_ALL_TYPE_NO_DISENCHANT,
     ro_loot = None\<rparr>"

definition start_roll_packet :: "uint32 \<Rightarrow> uint32 \<Rightarrow> uint8 \<Rightarrow> Roll \<Rightarrow> packet" where
  "start_roll_packet countDown mapid voteMask r =
     pkt 0x2A1 [FU64 (ro_itemGUID r), FU32 mapid, FU32 (ucast (ro_itemSlot r)), FU32 (ro_itemid r), FU32 (ro_itemRandomSuffix r),
       FU32 (ro_itemRandomPropId r), FU32 (ucast (ro_itemCount r)), FU32 countDown, FU8 voteMask]"

text \<open>The players of a roll who are connected and whose vote satisfies \<open>P\<close>, in the order of the map.\<close>

definition rollers :: "(RollVote \<Rightarrow> bool) \<Rightarrow> group_world \<Rightarrow> Roll \<Rightarrow> uint64 list" where
  "rollers P w r = map fst (filter (\<lambda>e. connected w (fst e) \<and> P (snd e)) (ro_playerVote r))"

definition SendLootStartRoll :: "uint32 \<Rightarrow> uint32 \<Rightarrow> Roll \<Rightarrow> group_world \<Rightarrow> group_world" where
  "SendLootStartRoll countDown mapid r w =
     emit (map (\<lambda>guid. SendPacket guid (start_roll_packet countDown mapid (ro_rollVoteMask r) r)) (rollers (\<lambda>v. v = NOT_EMITED_YET) w r)) w"

definition SendLootStartRollToPlayer :: "uint32 \<Rightarrow> uint32 \<Rightarrow> uint64 \<Rightarrow> bool \<Rightarrow> Roll \<Rightarrow> group_world \<Rightarrow> group_world" where
  "SendLootStartRollToPlayer countDown mapId guid canNeed r w =
     emit [SendPacket guid (start_roll_packet countDown mapId
       (if canNeed then ro_rollVoteMask r else clear_flag (ro_rollVoteMask r) ROLL_FLAG_TYPE_NEED) r)] w"

definition SendLootRoll :: "uint64 \<Rightarrow> uint64 \<Rightarrow> uint8 \<Rightarrow> uint8 \<Rightarrow> Roll \<Rightarrow> group_world \<Rightarrow> group_world" where
  "SendLootRoll sourceGuid targetGuid rollNumber rollType r w =
     emit (map (\<lambda>guid. SendPacket guid (pkt 0x2A2 [FU64 sourceGuid, FU32 (ucast (ro_itemSlot r)), FU64 targetGuid, FU32 (ro_itemid r),
         FU32 (ro_itemRandomSuffix r), FU32 (ro_itemRandomPropId r), FU8 rollNumber, FU8 rollType, FU8 0]))
       (rollers (\<lambda>v. v \<noteq> NOT_VALID) w r)) w"

definition SendLootRollWon :: "uint64 \<Rightarrow> uint64 \<Rightarrow> uint8 \<Rightarrow> uint8 \<Rightarrow> Roll \<Rightarrow> group_world \<Rightarrow> group_world" where
  "SendLootRollWon sourceGuid targetGuid rollNumber rollType r w =
     emit (map (\<lambda>guid. SendPacket guid (pkt 0x29F [FU64 sourceGuid, FU32 (ucast (ro_itemSlot r)), FU32 (ro_itemid r),
         FU32 (ro_itemRandomSuffix r), FU32 (ro_itemRandomPropId r), FU64 targetGuid, FU8 rollNumber, FU8 rollType]))
       (rollers (\<lambda>v. v \<noteq> NOT_VALID) w r)) w"

definition SendLootAllPassed :: "Roll \<Rightarrow> group_world \<Rightarrow> group_world" where
  "SendLootAllPassed r w =
     emit (map (\<lambda>guid. SendPacket guid (pkt 0x29E [FU64 (ro_itemGUID r), FU32 (ucast (ro_itemSlot r)), FU32 (ro_itemid r),
         FU32 (ro_itemRandomPropId r), FU32 (ro_itemRandomSuffix r)]))
       (rollers (\<lambda>v. v \<noteq> NOT_VALID) w r)) w"

section \<open>Items of a loot\<close>

text \<open>
  An item is addressed by its slot: the items first, then the quest items.  A slot behind both
  vectors is an access outside them.
\<close>

definition on_loot :: "nat \<Rightarrow> (Loot \<Rightarrow> Loot) \<Rightarrow> group_world \<Rightarrow> group_world" where
  "on_loot l f w = (case gw_loots w l of None \<Rightarrow> fault UseAfterFree w | Some lo \<Rightarrow> w\<lparr>gw_loots := (gw_loots w)(l \<mapsto> f lo)\<rparr>)"

definition loot_slot :: "Loot \<Rightarrow> nat \<Rightarrow> LootItem option" where
  "loot_slot lo i =
     (if i < length (lo_items lo) then Some (lo_items lo ! i)
      else if i - length (lo_items lo) < length (lo_quest_items lo) then Some (lo_quest_items lo ! (i - length (lo_items lo)))
      else None)"

definition on_slot :: "nat \<Rightarrow> (LootItem \<Rightarrow> LootItem) \<Rightarrow> Loot \<Rightarrow> Loot" where
  "on_slot i f lo =
     (if i < length (lo_items lo) then lo\<lparr>lo_items := (lo_items lo)[i := f (lo_items lo ! i)]\<rparr>
      else let j = i - length (lo_items lo) in lo\<lparr>lo_quest_items := (lo_quest_items lo)[j := f (lo_quest_items lo ! j)]\<rparr>)"

definition roll_item :: "group_world \<Rightarrow> Roll \<Rightarrow> LootItem option" where
  "roll_item w r =
     (case ro_loot r of None \<Rightarrow> None
      | Some l \<Rightarrow> (case gw_loots w l of None \<Rightarrow> None | Some lo \<Rightarrow> loot_slot lo (unat (ro_itemSlot r))))"

definition on_roll_item :: "Roll \<Rightarrow> (LootItem \<Rightarrow> LootItem) \<Rightarrow> group_world \<Rightarrow> group_world" where
  "on_roll_item r f w = (case ro_loot r of None \<Rightarrow> w | Some l \<Rightarrow> on_loot l (on_slot (unat (ro_itemSlot r)) f) w)"

definition NotifyItemRemoved :: "nat \<Rightarrow> uint8 \<Rightarrow> group_world \<Rightarrow> group_world" where
  "NotifyItemRemoved l lootIndex w =
     (case gw_loots w l of
        None \<Rightarrow> fault UseAfterFree w
      | Some lo \<Rightarrow>
          emit (map (\<lambda>guid. SendPacket guid (pkt 0x162 [FU8 lootIndex])) (filter (online w) (lo_PlayersLooting lo)))
            (on_loot l (\<lambda>lo. lo\<lparr>lo_PlayersLooting := filter (online w) (lo_PlayersLooting lo)\<rparr>) w))"

text \<open>The item leaves the loot.\<close>

definition take_item :: "Roll \<Rightarrow> group_world \<Rightarrow> group_world" where
  "take_item r w =
     (case ro_loot r of
        None \<Rightarrow> w
      | Some l \<Rightarrow> on_loot l (\<lambda>lo. lo\<lparr>lo_unlootedCount := lo_unlootedCount lo - 1\<rparr>)
                   (NotifyItemRemoved l (ro_itemSlot r) (on_roll_item r (\<lambda>i. i\<lparr>li_is_looted := True\<rparr>) w)))"

section \<open>The end of a roll\<close>

text \<open>\<^verbatim>\<open>urand(1, 100)\<close>, one number for every player who takes part, in the order of the map.\<close>

fun throw_dice ::
    "group_env \<Rightarrow> Roll \<Rightarrow> (RollVote \<Rightarrow> bool) \<Rightarrow> (RollVote \<Rightarrow> uint8) \<Rightarrow> (uint64, RollVote) smap
     \<Rightarrow> uint8 \<times> uint64 \<times> RollVote \<times> group_world \<Rightarrow> uint8 \<times> uint64 \<times> RollVote \<times> group_world" where
  "throw_dice ge r P code [] st = st"
| "throw_dice ge r P code ((guid, v) # vs) (maxresul, maxguid, rollvote, w) =
     (if \<not> P v then throw_dice ge r P code vs (maxresul, maxguid, rollvote, w)
      else let randomN = ge_urand ge (gw_drawn w);
               w = SendLootRoll 0 guid randomN (code v) r (w\<lparr>gw_drawn := Suc (gw_drawn w)\<rparr>)
           in throw_dice ge r P code vs (if maxresul < randomN then (randomN, guid, v, w) else (maxresul, maxguid, rollvote, w)))"

definition store_or_unblock :: "group_env \<Rightarrow> Roll \<Rightarrow> LootItem \<Rightarrow> uint64 \<Rightarrow> group_world \<Rightarrow> group_world" where
  "store_or_unblock ge r item guid w =
     (let msg = ge_canStore ge guid (ro_itemid r) (li_count item)
      in if msg = 0 then emit [StoreNewItem guid (ro_itemid r) (li_count item)] (take_item r w)
         else emit [SendEquipError guid msg] (on_roll_item r (\<lambda>i. i\<lparr>li_is_blocked := False\<rparr>) w))"

definition award_need :: "group_env \<Rightarrow> Roll \<Rightarrow> group_world \<Rightarrow> group_world" where
  "award_need ge r w =
     (case ro_playerVote r of
        [] \<Rightarrow> w
      | (first, v) # vs \<Rightarrow>
          (case throw_dice ge r (\<lambda>v. v = NEED) (\<lambda>v. ROLL_NEED) (ro_playerVote r) (0, first, NOT_VALID, w) of
             (maxresul, maxguid, rollvote, w) \<Rightarrow>
               let w = SendLootRollWon 0 maxguid maxresul ROLL_NEED r w
               in if \<not> connected w maxguid then w
                  else let w = emit [UpdateAchievementCriteria maxguid 50 (ro_itemid r) (ucast maxresul)] w
                       in case roll_item w r of None \<Rightarrow> fault OutOfRange w | Some item \<Rightarrow> store_or_unblock ge r item maxguid w))"

definition award_greed :: "group_env \<Rightarrow> Roll \<Rightarrow> group_world \<Rightarrow> group_world" where
  "award_greed ge r w =
     (case ro_playerVote r of
        [] \<Rightarrow> w
      | (first, v) # vs \<Rightarrow>
          (case throw_dice ge r (\<lambda>v. v = GREED \<or> v = DISENCHANT) RollVote_code (ro_playerVote r) (0, first, NOT_VALID, w) of
             (maxresul, maxguid, rollvote, w) \<Rightarrow>
               let w = SendLootRollWon 0 maxguid maxresul (RollVote_code rollvote) r w
               in if \<not> connected w maxguid then w
                  else let w = emit [UpdateAchievementCriteria maxguid 51 (ro_itemid r) (ucast maxresul)] w
                       in case roll_item w r of
                            None \<Rightarrow> fault OutOfRange w
                          | Some item \<Rightarrow>
                              if rollvote = GREED then store_or_unblock ge r item maxguid w
                              else if rollvote = DISENCHANT
                              then let w = take_item r w
                                   in case ge_item ge (ro_itemid r) of
                                        None \<Rightarrow> fault NullDereferenced w
                                      | Some proto \<Rightarrow> emit [AutoStoreLoot maxguid (it_DisenchantID proto), UpdateAchievementCriteria maxguid 29 13262 0] w
                              else w))"

definition all_passed :: "Roll \<Rightarrow> group_world \<Rightarrow> group_world" where
  "all_passed r w =
     (let w = SendLootAllPassed r w
      in case roll_item w r of
           None \<Rightarrow> fault OutOfRange w
         | Some item \<Rightarrow> on_roll_item r (\<lambda>i. i\<lparr>li_is_blocked := False\<rparr>) w)"

definition roll_valid :: "Roll \<Rightarrow> bool" where
  "roll_valid r \<longleftrightarrow> ro_loot r \<noteq> None"

definition erase_roll :: "gptr \<Rightarrow> nat \<Rightarrow> group_world \<Rightarrow> group_world" where
  "erase_roll p i w = on_grp p (\<lambda>g. g\<lparr>g_rolls := take i (g_rolls g) @ drop (Suc i) (g_rolls g)\<rparr>) w"

text \<open>The roll is given by its position in \<^verbatim>\<open>RollId\<close>.\<close>

definition CountTheRoll :: "group_env \<Rightarrow> gptr \<Rightarrow> nat \<Rightarrow> group_world \<Rightarrow> group_world" where
  "CountTheRoll ge p i w =
     (let r = g_rolls (grp w p) ! i
      in erase_roll p i
           (if \<not> roll_valid r then w
            else if ro_totalNeed r > 0 then award_need ge r w
            else if ro_totalGreed r > 0 then award_greed ge r w
            else all_passed r w))"

section \<open>Votes\<close>

fun find_index :: "('a \<Rightarrow> bool) \<Rightarrow> 'a list \<Rightarrow> nat option" where
  "find_index P [] = None"
| "find_index P (x # xs) = (if P x then Some 0 else map_option Suc (find_index P xs))"

definition GetRoll :: "Group \<Rightarrow> uint64 \<Rightarrow> nat option" where
  "GetRoll g guid = find_index (\<lambda>r. ro_itemGUID r = guid \<and> roll_valid r) (g_rolls g)"

definition set_roll :: "gptr \<Rightarrow> nat \<Rightarrow> (Roll \<Rightarrow> Roll) \<Rightarrow> group_world \<Rightarrow> group_world" where
  "set_roll p i f w = on_grp p (\<lambda>g. g\<lparr>g_rolls := (g_rolls g)[i := f (g_rolls g ! i)]\<rparr>) w"

text \<open>The packet is sent first and shows the votes as they were; then the vote is counted.\<close>

definition cast_vote :: "uint64 \<Rightarrow> uint8 \<Rightarrow> Roll \<Rightarrow> Roll" where
  "cast_vote guid choice r =
     (if choice = ROLL_PASS then r\<lparr>ro_totalPass := ro_totalPass r + 1, ro_playerVote := map_put guid PASS (ro_playerVote r)\<rparr>
      else if choice = ROLL_NEED then r\<lparr>ro_totalNeed := ro_totalNeed r + 1, ro_playerVote := map_put guid NEED (ro_playerVote r)\<rparr>
      else if choice = ROLL_GREED then r\<lparr>ro_totalGreed := ro_totalGreed r + 1, ro_playerVote := map_put guid GREED (ro_playerVote r)\<rparr>
      else if choice = ROLL_DISENCHANT then r\<lparr>ro_totalGreed := ro_totalGreed r + 1, ro_playerVote := map_put guid DISENCHANT (ro_playerVote r)\<rparr>
      else r)"

definition tell_vote :: "uint64 \<Rightarrow> uint8 \<Rightarrow> Roll \<Rightarrow> group_world \<Rightarrow> group_world" where
  "tell_vote guid choice r w =
     (if choice = ROLL_PASS then SendLootRoll 0 guid 128 ROLL_PASS r w
      else if choice = ROLL_NEED then SendLootRoll 0 guid 0 0 r w
      else if choice = ROLL_GREED then SendLootRoll 0 guid 128 ROLL_GREED r w
      else if choice = ROLL_DISENCHANT then SendLootRoll 0 guid 128 ROLL_DISENCHANT r w
      else w)"

text \<open>The sum of the three counters is an \<^verbatim>\<open>int\<close>: the 8-bit counters are promoted before they are added.\<close>

definition all_voted :: "Roll \<Rightarrow> bool" where
  "all_voted r \<longleftrightarrow> unat (ro_totalPass r) + unat (ro_totalNeed r) + unat (ro_totalGreed r) \<ge> unat (ro_totalPlayersRolling r)"

definition no_items :: "group_world \<Rightarrow> Roll \<Rightarrow> bool" where
  "no_items w r \<longleftrightarrow> (case ro_loot r of None \<Rightarrow> False
     | Some l \<Rightarrow> (case gw_loots w l of None \<Rightarrow> False | Some lo \<Rightarrow> lo_items lo = []))"

definition CountRollVote :: "group_env \<Rightarrow> gptr \<Rightarrow> uint64 \<Rightarrow> uint64 \<Rightarrow> uint8 \<Rightarrow> group_world \<Rightarrow> group_world" where
  "CountRollVote ge p playerGUID guid choice w =
     (case GetRoll (grp w p) guid of
        None \<Rightarrow> w
      | Some i \<Rightarrow>
          let r = g_rolls (grp w p) ! i
          in if map_of (ro_playerVote r) playerGUID = None \<or> no_items w r then w
             else let w = set_roll p i (cast_vote playerGUID choice) (tell_vote playerGUID choice r w)
                  in if all_voted (cast_vote playerGUID choice r) then CountTheRoll ge p i w else w)"

text \<open>
  When the time is over all rolls of the loot end; after each one the search starts again at the
  front.  Every turn erases a roll, so that as many turns as there are rolls are enough.
\<close>

fun end_rolls :: "group_env \<Rightarrow> gptr \<Rightarrow> nat \<Rightarrow> nat \<Rightarrow> group_world \<Rightarrow> group_world option" where
  "end_rolls ge p l 0 w = (if find_index (\<lambda>r. ro_loot r = Some l) (g_rolls (grp w p)) = None then Some w else None)"
| "end_rolls ge p l (Suc n) w =
     (case find_index (\<lambda>r. ro_loot r = Some l) (g_rolls (grp w p)) of
        None \<Rightarrow> Some w
      | Some i \<Rightarrow> end_rolls ge p l n (CountTheRoll ge p i w))"

definition EndRoll :: "group_env \<Rightarrow> gptr \<Rightarrow> nat \<Rightarrow> group_world \<Rightarrow> group_world option" where
  "EndRoll ge p l w = end_rolls ge p l (length (g_rolls (grp w p))) w"

section \<open>Start of rolls\<close>

definition GenerateItemGuid :: "group_world \<Rightarrow> uint64 \<times> group_world" where
  "GenerateItemGuid w =
     (let w = (if gw_itemGuid w < 0xFFFFFFFE then w else fault AssertFailed w)
      in (MAKE_NEW_GUID (gw_itemGuid w) 0 HIGHGUID_ITEM, w\<lparr>gw_itemGuid := gw_itemGuid w + 1\<rparr>))"

text \<open>A member takes part when he is connected, allowed to loot the item and near.\<close>

definition eligible :: "group_env \<Rightarrow> group_world \<Rightarrow> nat \<Rightarrow> LootItem \<Rightarrow> uint64 \<Rightarrow> bool" where
  "eligible ge w obj li guid \<longleftrightarrow>
     (case gw_players w guid of None \<Rightarrow> False | Some pl \<Rightarrow> gp_session pl) \<and> ge_allowed ge li guid \<and> ge_near ge obj guid"

definition passes :: "group_world \<Rightarrow> uint64 \<Rightarrow> bool" where
  "passes w guid \<longleftrightarrow> (case gw_players w guid of None \<Rightarrow> False | Some pl \<Rightarrow> gp_passOnGroupLoot pl)"

definition enter_roll :: "group_env \<Rightarrow> group_world \<Rightarrow> nat \<Rightarrow> LootItem \<Rightarrow> bool \<Rightarrow> uint64 \<times> bool \<Rightarrow> Roll \<Rightarrow> Roll" where
  "enter_roll ge w obj li autoPass ref r =
     (if \<not> eligible ge w obj li (fst ref) then r
      else let r = r\<lparr>ro_totalPlayersRolling := ro_totalPlayersRolling r + 1\<rparr>
           in if autoPass \<and> passes w (fst ref)
              then r\<lparr>ro_playerVote := map_put (fst ref) PASS (ro_playerVote r), ro_totalPass := ro_totalPass r + 1\<rparr>
              else r\<lparr>ro_playerVote := map_put (fst ref) NOT_EMITED_YET (ro_playerVote r)\<rparr>)"

definition gather_rollers :: "group_env \<Rightarrow> group_world \<Rightarrow> gptr \<Rightarrow> nat \<Rightarrow> LootItem \<Rightarrow> bool \<Rightarrow> Roll \<Rightarrow> Roll" where
  "gather_rollers ge w p obj li autoPass r = fold (enter_roll ge w obj li autoPass) (g_memberMgr (grp w p)) r"

text \<open>
  \<^verbatim>\<open>is_blocked\<close> of the item in an 8-bit slot.  For a quest item the number of items is subtracted from
  the slot as \<^verbatim>\<open>size_t\<close>: a slot that has wrapped around is an access outside the vector.
\<close>

definition block_item :: "nat \<Rightarrow> uint8 \<Rightarrow> bool \<Rightarrow> group_world \<Rightarrow> group_world" where
  "block_item l slot quest w =
     (case gw_loots w l of
        None \<Rightarrow> fault UseAfterFree w
      | Some lo \<Rightarrow>
          if (unat slot < length (lo_items lo)) = quest \<or> loot_slot lo (unat slot) = None then fault OutOfRange w
          else on_loot l (on_slot (unat slot) (\<lambda>i. i\<lparr>li_is_blocked := True\<rparr>)) w)"

definition tell_start :: "group_env \<Rightarrow> nat \<Rightarrow> uint32 \<Rightarrow> bool \<Rightarrow> Roll \<Rightarrow> group_world \<Rightarrow> group_world" where
  "tell_start ge obj itemid needBeforeGreed r w =
     (if needBeforeGreed
      then fold (\<lambda>(guid, v) w.
             if \<not> connected w guid then w
             else if v = PASS then SendLootRoll (ro_itemGUID r) guid 128 ROLL_PASS r w
             else SendLootStartRollToPlayer 60000 (ge_objectMap ge obj) guid (ge_canNeed ge itemid guid) r w) (ro_playerVote r) w
      else let w = (if ro_totalPass r \<noteq> 0
                    then fold (\<lambda>(guid, v) w. if connected w guid \<and> v = PASS then SendLootRoll (ro_itemGUID r) guid 128 ROLL_PASS r w else w)
                           (ro_playerVote r) w
                    else w)
           in SendLootStartRoll 60000 (ge_objectMap ge obj) r w)"

definition roll_mask :: "Group \<Rightarrow> ItemTemplate option \<Rightarrow> bool \<Rightarrow> bool \<Rightarrow> uint8 \<Rightarrow> uint8" where
  "roll_mask g proto needBeforeGreed quest m =
     (case proto of
        None \<Rightarrow> m
      | Some item \<Rightarrow>
          if quest then m
          else let m = (if it_DisenchantID item \<noteq> 0 \<and> g_maxEnchantingLevel g \<ge> it_RequiredDisenchantSkill item
                        then set_flag m ROLL_FLAG_TYPE_DISENCHANT else m)
               in if needBeforeGreed \<and> has_flag (it_Flags2 item) ITEM_FLAGS_EXTRA_NEED_ROLL_DISABLED
                  then clear_flag m ROLL_FLAG_TYPE_NEED else m)"

definition start_roll :: "group_env \<Rightarrow> bool \<Rightarrow> gptr \<Rightarrow> nat \<Rightarrow> nat \<Rightarrow> uint8 \<Rightarrow> bool \<Rightarrow> LootItem \<Rightarrow> group_world \<Rightarrow> group_world" where
  "start_roll ge needBeforeGreed p l obj slot quest li w =
     (case GenerateItemGuid w of (newitemGUID, w) \<Rightarrow>
        let r = gather_rollers ge w p obj li (\<not> quest) (Roll_new newitemGUID li)
        in if ro_totalPlayersRolling r > 0
           then let r = r\<lparr>ro_loot := Some l, ro_itemSlot := slot,
                          ro_rollVoteMask := roll_mask (grp w p) (ge_item ge (li_itemid li)) needBeforeGreed quest (ro_rollVoteMask r)\<rparr>;
                    w = block_item l slot quest w;
                    w = tell_start ge obj (li_itemid li) needBeforeGreed r w;
                    w = on_grp p (\<lambda>g. g\<lparr>g_rolls := g_rolls g @ [r]\<rparr>) w
                in emit [SetGroupLootTimer obj (GUID_LOPART (g_guid (grp w p)))] w
           else w)"

definition set_underthreshold :: "nat \<Rightarrow> nat \<Rightarrow> group_world \<Rightarrow> group_world" where
  "set_underthreshold l k w = on_loot l (on_slot k (\<lambda>i. i\<lparr>li_is_underthreshold := True\<rparr>)) w"

text \<open>One item of \<^verbatim>\<open>loot->items\<close>, at position \<open>k\<close>, and one of \<^verbatim>\<open>loot->quest_items\<close>.\<close>

definition loot_item :: "group_env \<Rightarrow> bool \<Rightarrow> gptr \<Rightarrow> nat \<Rightarrow> nat \<Rightarrow> nat \<times> LootItem \<Rightarrow> group_world \<Rightarrow> group_world" where
  "loot_item ge needBeforeGreed p l obj e w =
     (case e of (k, li) \<Rightarrow>
        if li_freeforall li then w
        else case ge_item ge (li_itemid li) of
               None \<Rightarrow> if needBeforeGreed then fault NullDereferenced w else w
             | Some item \<Rightarrow> if it_Quality item \<ge> g_lootThreshold (grp w p) then start_roll ge needBeforeGreed p l obj (of_nat k) False li w
                            else set_underthreshold l k w)"

definition loot_quest_item :: "group_env \<Rightarrow> bool \<Rightarrow> gptr \<Rightarrow> nat \<Rightarrow> nat \<Rightarrow> nat \<times> LootItem \<Rightarrow> group_world \<Rightarrow> group_world" where
  "loot_quest_item ge needBeforeGreed p l obj e w =
     (case e of (k, li) \<Rightarrow>
        if \<not> li_follow_loot_rules li then w
        else if \<not> needBeforeGreed \<and> ge_item ge (li_itemid li) = None then w
        else start_roll ge needBeforeGreed p l obj (of_nat k) True li w)"

definition loot_all :: "group_env \<Rightarrow> bool \<Rightarrow> gptr \<Rightarrow> nat \<Rightarrow> nat \<Rightarrow> group_world \<Rightarrow> group_world" where
  "loot_all ge needBeforeGreed p l obj w =
     (case gw_loots w l of
        None \<Rightarrow> fault UseAfterFree w
      | Some lo \<Rightarrow>
          let n = length (lo_items lo);
              w = fold (loot_item ge needBeforeGreed p l obj) (zip [0..<n] (lo_items lo)) w
          in fold (loot_quest_item ge needBeforeGreed p l obj) (zip [n..<n + length (lo_quest_items lo)] (lo_quest_items lo)) w)"

definition GroupLoot :: "group_env \<Rightarrow> gptr \<Rightarrow> nat \<Rightarrow> nat \<Rightarrow> group_world \<Rightarrow> group_world" where
  "GroupLoot ge = loot_all ge False"

definition NeedBeforeGreed :: "group_env \<Rightarrow> gptr \<Rightarrow> nat \<Rightarrow> nat \<Rightarrow> group_world \<Rightarrow> group_world" where
  "NeedBeforeGreed ge = loot_all ge True"

text \<open>\<^verbatim>\<open>put<uint8>(0, real_count)\<close> replaces the number of members, the first operand, by the number of those who are near.\<close>

definition MasterLoot :: "group_env \<Rightarrow> gptr \<Rightarrow> nat \<Rightarrow> group_world \<Rightarrow> group_world" where
  "MasterLoot ge p obj w =
     (let refs = map fst (g_memberMgr (grp w p));
          near = filter (\<lambda>guid. online w guid \<and> ge_near ge obj guid) refs
      in emit (map (\<lambda>guid. SendPacket guid (pkt 0x2A4 (FU8 (of_nat (length near)) # map FU64 near))) (filter (ge_near ge obj) refs)) w)"

definition pack_guid_fields :: "uint64 \<Rightarrow> field list" where
  "pack_guid_fields guid =
     (let bytes = filter (\<lambda>i. (drop_bit (8 * i) guid AND 0xFF) \<noteq> 0) [0..<8]
      in FU8 (fold (\<lambda>i m. m OR push_bit i 1) bytes 0) # map (\<lambda>i. FU8 (ucast (drop_bit (8 * i) guid))) bytes)"

definition SendLooter :: "gptr \<Rightarrow> uint64 \<Rightarrow> uint64 option \<Rightarrow> group_world \<Rightarrow> group_world" where
  "SendLooter p creature groupLooter w =
     BroadcastPacket p (pkt 0x3F9 ([FU64 creature, FU8 0] @ (case groupLooter of None \<Rightarrow> [FU8 0] | Some guid \<Rightarrow> pack_guid_fields guid))) False None 0 w"

end
