(* ===== verification/GroupMembers.thy ===== *)
theory GroupMembers
  imports GroupLoot
begin

text \<open>
  The members of a group: \<^verbatim>\<open>Create\<close>, invitations, \<^verbatim>\<open>AddMember\<close>, \<^verbatim>\<open>RemoveMember\<close>, \<^verbatim>\<open>ChangeLeader\<close>, \<^verbatim>\<open>Disband\<close>, flags,
  subgroups, looter, difficulties, and the loading of \<^verbatim>\<open>Group.cpp\<close>.  Bindings to instances and the
  broadcast of update fields are effects.
\<close>

section \<open>Invitations\<close>

definition set_invite :: "gptr option \<Rightarrow> uint64 \<Rightarrow> group_world \<Rightarrow> group_world" where
  "set_invite to guid w = on_plr guid (\<lambda>pl. pl\<lparr>gp_invite := to\<rparr>) w"

definition RemoveInvite :: "gptr \<Rightarrow> uint64 \<Rightarrow> group_world \<Rightarrow> group_world" where
  "RemoveInvite p guid w = set_invite None guid (on_grp p (\<lambda>g. g\<lparr>g_invitees := set_erase guid (g_invitees g)\<rparr>) w)"

text \<open>The group of a player outside of battlegrounds.\<close>

definition regular_group :: "group_world \<Rightarrow> uint64 \<Rightarrow> gptr option" where
  "regular_group w guid =
     (case group_ptr w guid of
        None \<Rightarrow> None
      | Some q \<Rightarrow> if isBattleGroup (grp w q) then original_ptr w guid else Some q)"

definition AddInvite :: "group_env \<Rightarrow> gptr \<Rightarrow> uint64 \<Rightarrow> group_world \<Rightarrow> bool \<times> group_world" where
  "AddInvite ge p guid w =
     (if gw_players w guid = None \<or> invite_ptr w guid \<noteq> None \<or> regular_group w guid \<noteq> None then (False, w)
      else let w = RemoveInvite p guid w;
               w = on_grp p (\<lambda>g. g\<lparr>g_invitees := set_put guid (g_invitees g)\<rparr>) w;
               w = set_invite (Some p) guid w
           in (True, call_script (OnInviteMember (lfg_env_of ge w) (g_guid (grp w p)) (g_leaderGuid (grp w p))) w))"

definition name_of :: "group_world \<Rightarrow> uint64 \<Rightarrow> string" where
  "name_of w guid = (case gw_players w guid of None \<Rightarrow> [] | Some pl \<Rightarrow> gp_name pl)"

definition AddLeaderInvite :: "group_env \<Rightarrow> gptr \<Rightarrow> uint64 \<Rightarrow> group_world \<Rightarrow> bool \<times> group_world" where
  "AddLeaderInvite ge p guid w =
     (case AddInvite ge p guid w of (ok, w) \<Rightarrow>
        if \<not> ok then (False, w)
        else (True, on_grp p (\<lambda>g. g\<lparr>g_leaderGuid := guid, g_leaderName := name_of w guid\<rparr>) w))"

text \<open>The invitations hold pointers to players: to reset the one of a player who has been deleted is an error.\<close>

definition reset_invite :: "uint64 \<Rightarrow> group_world \<Rightarrow> group_world" where
  "reset_invite guid w = (if gw_players w guid = None then fault UseAfterFree w else set_invite None guid w)"

definition RemoveAllInvites :: "gptr \<Rightarrow> group_world \<Rightarrow> group_world" where
  "RemoveAllInvites p w = on_grp p (\<lambda>g. g\<lparr>g_invitees := []\<rparr>) (fold reset_invite (g_invitees (grp w p)) w)"

section \<open>Members\<close>

text \<open>The subgroup for a new member: the first with a place, or none in a full raid.\<close>

definition first_subgroup :: "Group \<Rightarrow> nat option" where
  "first_subgroup g =
     (case g_subGroupsCounts g of
        None \<Rightarrow> Some 0
      | Some cs \<Rightarrow> find (\<lambda>i. cs ! i < of_nat MAXGROUPSIZE) [0..<MAX_RAID_SUBGROUPS])"

definition adopt_difficulty :: "gptr \<Rightarrow> uint64 \<Rightarrow> group_world \<Rightarrow> group_world" where
  "adopt_difficulty p guid w =
     (case gw_players w guid of
        None \<Rightarrow> w
      | Some pl \<Rightarrow>
          if gp_level pl < 70 then w
          else let g = grp w p;
                   w = (if gp_dungeonDifficulty pl \<noteq> g_dungeonDifficulty g
                        then emit [SendDifficulty guid False] (on_plr guid (\<lambda>pl. pl\<lparr>gp_dungeonDifficulty := g_dungeonDifficulty g\<rparr>) w) else w)
               in if gp_raidDifficulty pl \<noteq> g_raidDifficulty g
                  then emit [SendDifficulty guid True] (on_plr guid (\<lambda>pl. pl\<lparr>gp_raidDifficulty := g_raidDifficulty g\<rparr>) w) else w)"

text \<open>The references of a player who enters a group.\<close>

definition enter_group :: "gptr \<Rightarrow> uint64 \<Rightarrow> uint8 \<Rightarrow> group_world \<Rightarrow> group_world" where
  "enter_group p guid subGroup w =
     (if group_ptr w guid \<noteq> None
      then if isBattleGroup (grp w p) then SetBattlegroundOrBattlefieldRaid guid p subGroup w
           else SetOriginalGroup guid (Some (p, subGroup)) w
      else Player_SetGroup guid (Some (p, subGroup)) w)"

definition raise_enchanting :: "uint64 \<Rightarrow> group_world \<Rightarrow> Group \<Rightarrow> Group" where
  "raise_enchanting guid w g =
     (case gw_players w guid of
        None \<Rightarrow> g
      | Some pl \<Rightarrow> if g_maxEnchantingLevel g < ucast (gp_enchanting pl) then g\<lparr>g_maxEnchantingLevel := ucast (gp_enchanting pl)\<rparr> else g)"

definition AddMember :: "group_env \<Rightarrow> gptr \<Rightarrow> uint64 \<Rightarrow> group_world \<Rightarrow> bool \<times> group_world" where
  "AddMember ge p guid w =
     (case first_subgroup (grp w p) of
        None \<Rightarrow> (False, w)
      | Some n \<Rightarrow>
          let subGroup = of_nat n;
              slot = \<lparr>ms_guid = guid, ms_name = name_of w guid, ms_group = subGroup, ms_flags = 0, ms_roles = 0\<rparr>;
              w = on_grp p (\<lambda>g. g\<lparr>g_memberSlots := g_memberSlots g @ [slot]\<rparr>) w;
              w = on_grp_checked p (SubGroupCounterIncrease subGroup) w;
              w = set_invite None guid w;
              w = enter_group p guid subGroup w;
              w = (if ge_boundHere ge (g_guid (grp w p)) guid then on_plr guid (\<lambda>pl. pl\<lparr>gp_instanceValid := True\<rparr>) w else w);
              w = (if isRaidGroup (grp w p) then w else on_grp p (\<lambda>g. g\<lparr>g_targetIcons := replicate TARGETICONCOUNT 0\<rparr>) w);
              w = (if isBattleGroup (grp w p) then w
                   else emit [Execute (CHAR_INS_GROUP_MEMBER (g_dbStoreId (grp w p)) (GUID_LOPART guid) 0 subGroup 0)] w);
              w = SendUpdate p w;
              w = call_script (OnAddMember (lfg_env_of ge w) (g_guid (grp w p)) (g_leaderGuid (grp w p)) guid) w;
              w = (if \<not> IsLeader (grp w p) guid \<and> \<not> isBattleGroup (grp w p)
                   then adopt_difficulty p guid (emit [ResetPlayerInstances guid False, ResetPlayerInstances guid True] w) else w);
              w = emit [SendPartyMemberStats guid] w;
              w = (if isRaidGroup (grp w p) then emit [UpdateForQuestWorldObjects guid] w else w);
              w = emit [BroadcastMemberFields guid] w
          in (True, on_grp p (raise_enchanting guid w) w))"

definition GROUP_row :: "Group \<Rightarrow> group_stmt" where
  "GROUP_row g = CHAR_INS_GROUP (g_dbStoreId g) (GUID_LOPART (g_leaderGuid g)) (ucast (g_lootMethod g)) (GUID_LOPART (g_looterGuid g))
     (ucast (g_lootThreshold g)) (map ucast (g_targetIcons g)) (g_groupType g) (g_dungeonDifficulty g) (g_raidDifficulty g)"

definition Group_Create :: "group_env \<Rightarrow> gptr \<Rightarrow> uint64 \<Rightarrow> group_world \<Rightarrow> bool \<times> group_world" where
  "Group_Create ge p leader w =
     (case GenerateGroupId w of (lowguid, w) \<Rightarrow>
        let w = on_grp p (\<lambda>g. g\<lparr>g_guid := MAKE_NEW_GUID lowguid 0 HIGHGUID_GROUP, g_leaderGuid := leader, g_leaderName := name_of w leader\<rparr>) w;
            w = (if isBattleGroup (grp w p) then on_grp p (\<lambda>g. g\<lparr>g_groupType := GROUPTYPE_BGRAID\<rparr>) w else w);
            w = (if isRaidGroup (grp w p) then on_grp_checked p initRaidSubGroupsCounter w else w);
            w = on_grp p (\<lambda>g. g\<lparr>g_lootMethod := if isLFGGroup g then g_lootMethod g else GROUP_LOOT,
                  g_lootThreshold := ITEM_QUALITY_UNCOMMON, g_looterGuid := leader, g_dungeonDifficulty := 0, g_raidDifficulty := 0\<rparr>) w
        in if isBattleGroup (grp w p) then AddMember ge p leader w
           else let (dd, rd) = (case gw_players w leader of None \<Rightarrow> (0, 0) | Some pl \<Rightarrow> (gp_dungeonDifficulty pl, gp_raidDifficulty pl));
                    (storeId, w) = GenerateNewGroupDbStoreId w;
                    w = on_grp p (\<lambda>g. g\<lparr>g_dungeonDifficulty := dd, g_raidDifficulty := rd, g_dbStoreId := storeId\<rparr>) w;
                    w = RegisterGroupDbStoreId storeId p w;
                    w = emit [Execute (GROUP_row (grp w p))] w;
                    (ok, w) = AddMember ge p leader w;
                    w = (if ok then w else fault AssertFailed w)
                in (True, emit [ConvertInstancesToGroup leader False] w))"

section \<open>Leaders\<close>

definition save_type :: "gptr \<Rightarrow> group_world \<Rightarrow> group_world" where
  "save_type p w = (if isBattleGroup (grp w p) then w else emit [Execute (CHAR_UPD_GROUP_TYPE (g_groupType (grp w p)) (g_dbStoreId (grp w p)))] w)"

definition ConvertToLFG :: "gptr \<Rightarrow> group_world \<Rightarrow> group_world" where
  "ConvertToLFG p w =
     SendUpdate p (save_type p (on_grp p (\<lambda>g. g\<lparr>g_groupType := g_groupType g OR GROUPTYPE_LFG OR GROUPTYPE_UNK1, g_lootMethod := NEED_BEFORE_GREED\<rparr>) w))"

definition ConvertToRaid :: "gptr \<Rightarrow> group_world \<Rightarrow> group_world" where
  "ConvertToRaid p w =
     (let w = on_grp p (\<lambda>g. g\<lparr>g_groupType := g_groupType g OR GROUPTYPE_RAID\<rparr>) w;
          w = on_grp_checked p initRaidSubGroupsCounter w;
          w = SendUpdate p (save_type p w)
      in emit (map (\<lambda>s. UpdateForQuestWorldObjects (ms_guid s)) (filter (\<lambda>s. online w (ms_guid s)) (g_memberSlots (grp w p)))) w)"

definition ChangeLeader :: "group_env \<Rightarrow> gptr \<Rightarrow> uint64 \<Rightarrow> group_world \<Rightarrow> group_world" where
  "ChangeLeader ge p guid w =
     (case getMemberSlot (grp w p) guid of
        None \<Rightarrow> w
      | Some slot \<Rightarrow>
          if \<not> online w guid then w
          else let w = on_lfg (OnChangeLeader (g_guid (grp w p)) guid) w;
                   w = (if isBattleGroup (grp w p) then w
                        else emit (map (\<lambda>s. RepopAtGraveyard (ms_guid s))
                                     (filter (\<lambda>s. online w (ms_guid s) \<and> ge_strandedBy ge (ms_guid s) guid) (g_memberSlots (grp w p)))
                                   @ [UnbindPermanentInstances (g_guid (grp w p)),
                                      Execute (CHAR_DEL_GROUP_INSTANCE_PERM_BINDING (g_dbStoreId (grp w p)) (GUID_LOPART guid)),
                                      ConvertInstancesToGroup guid True,
                                      Execute (CHAR_UPD_GROUP_LEADER (GUID_LOPART guid) (g_dbStoreId (grp w p)))]) w);
                   w = on_grp p (\<lambda>g. ToggleGroupMemberFlag guid MEMBER_FLAG_ASSISTANT False (g\<lparr>g_leaderGuid := guid, g_leaderName := name_of w guid\<rparr>)) w
               in BroadcastPacket p (pkt 0x079 [FStr (ms_name slot)]) True None 0 w)"

section \<open>Leaving\<close>

definition homebindIfInstance :: "group_env \<Rightarrow> uint64 \<Rightarrow> group_world \<Rightarrow> group_world" where
  "homebindIfInstance ge guid w =
     (if \<not> ge_gameMaster ge guid \<and> ge_inDungeon ge guid then on_plr guid (\<lambda>pl. pl\<lparr>gp_instanceValid := False\<rparr>) w else w)"

text \<open>The packet of an empty group.\<close>

definition empty_list_packet :: "Group \<Rightarrow> packet" where
  "empty_list_packet g = pkt 0x07D [FU8 0x10, FU8 0, FU8 0, FU8 0, FU64 (g_guid g), FU32 (g_counter g), FU32 0, FU64 0]"

definition leave_refs :: "gptr \<Rightarrow> uint64 \<Rightarrow> group_world \<Rightarrow> group_world" where
  "leave_refs p guid w =
     (if isBattleGroup (grp w p) then RemoveFromBattlegroundOrBattlefieldRaid guid w
      else if original_ptr w guid = Some p then SetOriginalGroup guid None w
      else Player_SetGroup guid None w)"

text \<open>\<^verbatim>\<open>Disband\<close> for one member who is online.\<close>

definition disband_member :: "group_env \<Rightarrow> gptr \<Rightarrow> bool \<Rightarrow> MemberSlot \<Rightarrow> group_world \<Rightarrow> group_world" where
  "disband_member ge p hideDestroy s w =
     (let guid = ms_guid s in
      if \<not> online w guid then w
      else let w = leave_refs p guid w;
               w = (if isRaidGroup (grp w p) then emit [UpdateForQuestWorldObjects guid] w else w)
           in if \<not> connected w guid then w
              else let w = (if hideDestroy then w else emit [SendPacket guid (pkt 0x07C [])] w);
                       w = (case group_ptr w guid of
                              Some q \<Rightarrow> deref q (SendUpdate q) w
                            | None \<Rightarrow> emit [SendPacket guid (empty_list_packet (grp w p))] w)
                   in homebindIfInstance ge guid w)"

definition Disband :: "group_env \<Rightarrow> gptr \<Rightarrow> bool \<Rightarrow> group_world \<Rightarrow> group_world" where
  "Disband ge p hideDestroy w =
     (let w = on_lfg (OnDisband (lfg_env_of ge w) (g_guid (grp w p))) w;
          w = fold (disband_member ge p hideDestroy) (g_memberSlots (grp w p)) w;
          w = on_grp p (\<lambda>g. g\<lparr>g_rolls := [], g_memberSlots := []\<rparr>) w;
          w = RemoveAllInvites p w;
          w = (if isBattleGroup (grp w p) then w
               else FreeGroupDbStoreId p (emit [Execute (CHAR_DEL_GROUP (g_dbStoreId (grp w p))), Execute (CHAR_DEL_GROUP_MEMBER_ALL (g_dbStoreId (grp w p))),
                      ResetGroupInstances (g_guid (grp w p)) False, ResetGroupInstances (g_guid (grp w p)) True,
                      Execute (GROUP_CHAR_DEL_LFG_DATA (g_dbStoreId (grp w p)))] w));
          w = RemoveGroup p w
      in delete_group p w)"

text \<open>
  A member who leaves is taken out of the rolls; then the code counts a vote of the kind
  \<^verbatim>\<open>MAX_ROLL_TYPE\<close> for him.
\<close>

definition withdraw_vote :: "uint64 \<Rightarrow> RollVote \<Rightarrow> Roll \<Rightarrow> Roll" where
  "withdraw_vote guid v r =
     (let r = (if v = GREED \<or> v = DISENCHANT then r\<lparr>ro_totalGreed := ro_totalGreed r - 1\<rparr>
               else if v = NEED then r\<lparr>ro_totalNeed := ro_totalNeed r - 1\<rparr>
               else if v = PASS then r\<lparr>ro_totalPass := ro_totalPass r - 1\<rparr> else r);
          r = (if v \<noteq> NOT_VALID then r\<lparr>ro_totalPlayersRolling := ro_totalPlayersRolling r - 1\<rparr> else r)
      in r\<lparr>ro_playerVote := map_erase guid (ro_playerVote r)\<rparr>)"

definition leave_roll :: "group_env \<Rightarrow> gptr \<Rightarrow> uint64 \<Rightarrow> nat \<Rightarrow> group_world \<Rightarrow> group_world" where
  "leave_roll ge p guid i w =
     (let r = g_rolls (grp w p) ! i
      in case map_of (ro_playerVote r) guid of
           None \<Rightarrow> w
         | Some v \<Rightarrow> CountRollVote ge p guid (ro_itemGUID r) MAX_ROLL_TYPE (set_roll p i (withdraw_vote guid v) w))"

definition leave_rolls :: "group_env \<Rightarrow> gptr \<Rightarrow> uint64 \<Rightarrow> group_world \<Rightarrow> group_world" where
  "leave_rolls ge p guid w = fold (leave_roll ge p guid) [0..<length (g_rolls (grp w p))] w"

definition part_with :: "group_env \<Rightarrow> gptr \<Rightarrow> uint64 \<Rightarrow> RemoveMethod \<Rightarrow> group_world \<Rightarrow> group_world" where
  "part_with ge p guid how w =
     (let w = leave_refs p guid w;
          w = (if isBattleGroup (grp w p) then w else emit [UpdateForQuestWorldObjects guid] w);
          w = (if how = GROUP_REMOVEMETHOD_KICK \<or> how = GROUP_REMOVEMETHOD_KICK_LFG then emit [SendPacket guid (pkt 0x077 [])] w else w);
          w = emit [SendPacket guid (empty_list_packet (grp w p))] w
      in homebindIfInstance ge guid w)"

definition erase_slot :: "gptr \<Rightarrow> uint64 \<Rightarrow> group_world \<Rightarrow> group_world" where
  "erase_slot p guid w =
     (case getMemberSlot (grp w p) guid of
        None \<Rightarrow> w
      | Some slot \<Rightarrow> on_grp p (\<lambda>g. g\<lparr>g_memberSlots := remove1 slot (g_memberSlots g)\<rparr>)
                        (on_grp_checked p (SubGroupCounterDecrease (ms_group slot)) w))"

definition new_leader :: "group_env \<Rightarrow> gptr \<Rightarrow> uint64 \<Rightarrow> group_world \<Rightarrow> group_world" where
  "new_leader ge p guid w =
     (if g_leaderGuid (grp w p) = guid
      then case find (\<lambda>s. online w (ms_guid s)) (g_memberSlots (grp w p)) of
             None \<Rightarrow> w
           | Some s \<Rightarrow> ChangeLeader ge p (ms_guid s) w
      else w)"

definition call_OnRemoveMember :: "group_env \<Rightarrow> gptr \<Rightarrow> uint64 \<Rightarrow> RemoveMethod \<Rightarrow> uint64 \<Rightarrow> string \<Rightarrow> group_world \<Rightarrow> group_world" where
  "call_OnRemoveMember ge p guid how kicker reason w =
     (case OnRemoveMember (lfg_env_of ge w) (g_guid (grp w p)) (isLFGGroup (grp w p)) guid how kicker reason (gw_lfg w) of
        Inl e \<Rightarrow> fault (ScriptFailed e) w
      | Inr (m, effects) \<Rightarrow> emit (map LfgEffect effects) (w\<lparr>gw_lfg := m\<rparr>))"

definition abandoned :: "group_env \<Rightarrow> gptr \<Rightarrow> group_world \<Rightarrow> bool" where
  "abandoned ge p w \<longleftrightarrow>
     isLFGGroup (grp w p) \<and> GetMembersCount (grp w p) = 1
     \<and> (let leader = g_leaderGuid (grp w p); mapId = GetDungeonMapId (gw_lfg w) (g_guid (grp w p))
        in mapId = 0 \<or> \<not> online w leader \<or> ge_alive ge leader \<and> ge_mapId ge leader \<noteq> mapId)"

definition RemoveMember :: "group_env \<Rightarrow> gptr \<Rightarrow> uint64 \<Rightarrow> RemoveMethod \<Rightarrow> uint64 \<Rightarrow> string \<Rightarrow> group_world \<Rightarrow> bool \<times> group_world" where
  "RemoveMember ge p guid how kicker reason w =
     (let w = BroadcastGroupUpdate p w;
          w = call_OnRemoveMember ge p guid how kicker reason w
      in if isLFGGroup (grp w p) \<and> how = GROUP_REMOVEMETHOD_KICK then (GetMembersCount (grp w p) \<noteq> 0, w)
         else if GetMembersCount (grp w p) > (if isBattleGroup (grp w p) \<or> isLFGGroup (grp w p) then 1 else 2)
         then let found = FindPlayer w guid;
                  w = (if found = None then w else part_with ge p guid how w);
                  w = (if isBattleGroup (grp w p) then w
                       else DelinkMember p guid (emit [Execute (CHAR_DEL_GROUP_MEMBER (GUID_LOPART guid))] w));
                  w = (case found of
                         None \<Rightarrow> on_grp p (ResetMaxEnchantingLevel w) w
                       | Some pl \<Rightarrow> if gp_enchanting pl \<noteq> 0 then on_grp p (ResetMaxEnchantingLevel w) w else w);
                  w = leave_rolls ge p guid w;
                  w = erase_slot p guid w;
                  w = new_leader ge p guid w;
                  w = SendUpdate p w
              in if abandoned ge p w then (False, Disband ge p False w)
                 else if length (g_memberMgr (grp w p)) < (if isLFGGroup (grp w p) \<or> g_bgGroup (grp w p) then 1 else 2)
                 then (True, Disband ge p False w)
                 else (True, w)
         else (False, Disband ge p False w))"

definition UninviteFromGroup :: "group_env \<Rightarrow> uint64 \<Rightarrow> group_world \<Rightarrow> group_world" where
  "UninviteFromGroup ge guid w =
     (case invite_ptr w guid of
        None \<Rightarrow> w
      | Some p \<Rightarrow> deref p (\<lambda>w.
          let w = RemoveInvite p guid w
          in if GetMembersCount (grp w p) \<le> 1
             then if IsCreated (grp w p) then Disband ge p True w else delete_group p (RemoveAllInvites p w)
             else w) w)"

section \<open>Flags, subgroups, looter, difficulty\<close>

definition SetGroupMemberFlag :: "gptr \<Rightarrow> uint64 \<Rightarrow> bool \<Rightarrow> uint8 \<Rightarrow> group_world \<Rightarrow> group_world" where
  "SetGroupMemberFlag p guid apply fl w =
     (if \<not> isRaidGroup (grp w p) \<or> getMemberSlot (grp w p) guid = None then w
      else if fl \<noteq> MEMBER_FLAG_MAINASSIST \<and> fl \<noteq> MEMBER_FLAG_MAINTANK \<and> fl \<noteq> MEMBER_FLAG_ASSISTANT then w
      else let w = (if fl = MEMBER_FLAG_ASSISTANT then w else on_grp p (RemoveUniqueGroupMemberFlag fl) w);
               w = on_grp p (ToggleGroupMemberFlag guid fl apply) w;
               flags = (case getMemberSlot (grp w p) guid of None \<Rightarrow> 0 | Some s \<Rightarrow> ms_flags s)
           in SendUpdate p (emit [Execute (CHAR_UPD_GROUP_MEMBER_FLAG flags (GUID_LOPART guid))] w))"

definition save_subgroup :: "gptr \<Rightarrow> uint64 \<Rightarrow> uint8 \<Rightarrow> group_world \<Rightarrow> group_world" where
  "save_subgroup p guid subgroup w =
     (if isBattleGroup (grp w p) then w else emit [Execute (CHAR_UPD_GROUP_MEMBER_SUBGROUP subgroup (GUID_LOPART guid))] w)"

definition setMembersGroup :: "gptr \<Rightarrow> uint64 \<Rightarrow> uint8 \<Rightarrow> group_world \<Rightarrow> bool \<times> group_world" where
  "setMembersGroup p guid subgroup w =
     (if getMemberSlot (grp w p) guid = None then (False, w)
      else (True, save_subgroup p guid subgroup
                    (on_grp_checked p (SubGroupCounterIncrease subgroup) (on_grp p (set_slot guid (\<lambda>s. s\<lparr>ms_group := subgroup\<rparr>)) w))))"

definition set_ref_subgroup :: "bool \<Rightarrow> uint8 \<Rightarrow> group_player \<Rightarrow> group_player" where
  "set_ref_subgroup orig subgroup pl = set_ref orig (map_option (\<lambda>r. (fst r, subgroup)) (ref_of orig pl)) pl"

definition ChangeMembersGroup :: "gptr \<Rightarrow> uint64 \<Rightarrow> uint8 \<Rightarrow> group_world \<Rightarrow> group_world" where
  "ChangeMembersGroup p guid subgroup w =
     (if \<not> isRaidGroup (grp w p) \<or> getMemberSlot (grp w p) guid = None then w
      else let prevSubGroup = GetMemberGroup (grp w p) guid
           in if prevSubGroup = subgroup then w
              else let w = on_grp p (set_slot guid (\<lambda>s. s\<lparr>ms_group := subgroup\<rparr>)) w;
                       w = on_grp_checked p (SubGroupCounterIncrease subgroup) w;
                       w = on_grp_checked p (SubGroupCounterDecrease prevSubGroup) w;
                       w = save_subgroup p guid subgroup w;
                       w = (if online w guid then on_plr guid (set_ref_subgroup (group_ptr w guid \<noteq> Some p) subgroup) w else w)
                   in SendUpdate p w)"

definition SetLfgRoles :: "gptr \<Rightarrow> uint64 \<Rightarrow> uint8 \<Rightarrow> group_world \<Rightarrow> group_world" where
  "SetLfgRoles p guid roles w =
     (if getMemberSlot (grp w p) guid = None then w
      else SendUpdate p (on_grp p (set_slot guid (\<lambda>s. s\<lparr>ms_roles := roles\<rparr>)) w))"

definition set_looter :: "gptr \<Rightarrow> uint64 \<Rightarrow> group_world \<Rightarrow> group_world" where
  "set_looter p guid w = SendUpdate p (on_grp p (\<lambda>g. g\<lparr>g_looterGuid := guid\<rparr>) w)"

text \<open>
  The next player in turn: the first member after the current looter, and then from the front, who is
  near.  With \<open>ifneed\<close> a looter who is near keeps his turn.
\<close>

definition UpdateLooterGuid :: "group_env \<Rightarrow> gptr \<Rightarrow> nat \<Rightarrow> bool \<Rightarrow> group_world \<Rightarrow> group_world" where
  "UpdateLooterGuid ge p obj ifneed w =
     (let g = grp w p; near = (\<lambda>s. online w (ms_guid s) \<and> ge_near ge obj (ms_guid s))
      in if g_lootMethod g = MASTER_LOOT \<or> g_lootMethod g = FREE_FOR_ALL then w
         else let before = takeWhile (\<lambda>s. ms_guid s \<noteq> g_looterGuid g) (g_memberSlots g);
                  rest = dropWhile (\<lambda>s. ms_guid s \<noteq> g_looterGuid g) (g_memberSlots g)
              in if ifneed \<and> rest \<noteq> [] \<and> near (hd rest) then w
                 else let order = (if rest = [] then before else tl rest @ before @ [hd rest])
                      in case find near order of
                           Some s \<Rightarrow> if ms_guid s = g_looterGuid g then w else set_looter p (ms_guid s) w
                         | None \<Rightarrow> set_looter p 0 w)"

definition SetDungeonDifficulty :: "gptr \<Rightarrow> uint8 \<Rightarrow> group_world \<Rightarrow> group_world" where
  "SetDungeonDifficulty p difficulty w =
     (let w = on_grp p (\<lambda>g. g\<lparr>g_dungeonDifficulty := difficulty\<rparr>) w;
          w = (if isBattleGroup (grp w p) then w else emit [Execute (CHAR_UPD_GROUP_DIFFICULTY difficulty (g_dbStoreId (grp w p)))] w)
      in fold (\<lambda>r w. case gw_players w (fst r) of
                        Some pl \<Rightarrow> if gp_session pl then emit [SendDifficulty (fst r) False] (on_plr (fst r) (\<lambda>pl. pl\<lparr>gp_dungeonDifficulty := difficulty\<rparr>) w) else w
                      | None \<Rightarrow> w) (g_memberMgr (grp w p)) w)"

definition SetRaidDifficulty :: "gptr \<Rightarrow> uint8 \<Rightarrow> group_world \<Rightarrow> group_world" where
  "SetRaidDifficulty p difficulty w =
     (let w = on_grp p (\<lambda>g. g\<lparr>g_raidDifficulty := difficulty\<rparr>) w;
          w = (if isBattleGroup (grp w p) then w else emit [Execute (CHAR_UPD_GROUP_RAID_DIFFICULTY difficulty (g_dbStoreId (grp w p)))] w)
      in fold (\<lambda>r w. case gw_players w (fst r) of
                        Some pl \<Rightarrow> if gp_session pl then emit [SendDifficulty (fst r) True] (on_plr (fst r) (\<lambda>pl. pl\<lparr>gp_raidDifficulty := difficulty\<rparr>) w) else w
                      | None \<Rightarrow> w) (g_memberMgr (grp w p)) w)"

section \<open>Loading\<close>

text \<open>A row of the table of groups, with the dungeon and state kept for the dungeon finder.\<close>

record group_row =
  gr_leaderGuid :: uint32
  gr_lootMethod :: uint8
  gr_looterGuid :: uint32
  gr_lootThreshold :: uint8
  gr_icons :: "uint32 list"
  gr_groupType :: uint8
  gr_difficulty :: uint8
  gr_raiddifficulty :: uint8
  gr_guid :: uint32
  gr_lfg :: "(uint32 \<times> LfgState) option"

definition LoadGroupFromDB :: "group_env \<Rightarrow> gptr \<Rightarrow> group_row \<Rightarrow> group_world \<Rightarrow> group_world" where
  "LoadGroupFromDB ge p row w =
     (case GenerateGroupId w of (lowguid, w) \<Rightarrow>
        let w = on_grp p (\<lambda>g. g\<lparr>g_dbStoreId := gr_guid row, g_guid := MAKE_NEW_GUID lowguid 0 HIGHGUID_GROUP,
                  g_leaderGuid := MAKE_NEW_GUID (gr_leaderGuid row) 0 HIGHGUID_PLAYER\<rparr>) w
        in case ge_nameOf ge (gr_leaderGuid row) of
             None \<Rightarrow> w
           | Some name \<Rightarrow>
               let w = on_grp p (\<lambda>g. g\<lparr>g_leaderName := name, g_lootMethod := ucast (gr_lootMethod row),
                         g_looterGuid := MAKE_NEW_GUID (gr_looterGuid row) 0 HIGHGUID_PLAYER, g_lootThreshold := ucast (gr_lootThreshold row),
                         g_targetIcons := map ucast (gr_icons row), g_groupType := gr_groupType row\<rparr>) w;
                   w = (if isRaidGroup (grp w p) then on_grp_checked p initRaidSubGroupsCounter w else w);
                   w = on_grp p (\<lambda>g. g\<lparr>g_dungeonDifficulty := if gr_difficulty row \<ge> 3 then 0 else gr_difficulty row,
                         g_raidDifficulty := if gr_raiddifficulty row \<ge> 4 then 0 else gr_raiddifficulty row\<rparr>) w
               in if isLFGGroup (grp w p)
                  then on_lfg (LoadFromDB (Some (gr_leaderGuid row, (case gr_lfg row of None \<Rightarrow> (0, LFG_STATE_NONE) | Some d \<Rightarrow> d))) (g_guid (grp w p))) w
                  else w)"

definition LoadMemberFromDB :: "group_env \<Rightarrow> gptr \<Rightarrow> uint32 \<Rightarrow> uint8 \<Rightarrow> uint8 \<Rightarrow> uint8 \<Rightarrow> group_world \<Rightarrow> group_world" where
  "LoadMemberFromDB ge p guidLow memberFlags subgroup roles w =
     (case ge_nameOf ge guidLow of
        None \<Rightarrow> emit [Execute (CHAR_DEL_GROUP_MEMBER guidLow)] w
      | Some name \<Rightarrow>
          let guid = MAKE_NEW_GUID guidLow 0 HIGHGUID_PLAYER;
              slot = \<lparr>ms_guid = guid, ms_name = name, ms_group = subgroup, ms_flags = memberFlags, ms_roles = roles\<rparr>;
              w = on_grp p (\<lambda>g. g\<lparr>g_memberSlots := g_memberSlots g @ [slot]\<rparr>) w;
              w = on_grp_checked p (SubGroupCounterIncrease subgroup) w
          in on_lfg (SetupGroupMember guid (g_guid (grp w p))) w)"

text \<open>\<^verbatim>\<open>GroupMgr::LoadGroups\<close> over the rows of groups and of members, in the order of the queries.\<close>

definition load_group :: "group_env \<Rightarrow> group_row \<Rightarrow> group_world \<Rightarrow> group_world" where
  "load_group ge row w =
     (case new_group w of (p, w) \<Rightarrow>
        let w = LoadGroupFromDB ge p row w;
            w = AddGroup p w;
            storageId = g_dbStoreId (grp w p);
            w = RegisterGroupDbStoreId storageId p w
        in if storageId = gw_NextGroupDbStoreId w then w\<lparr>gw_NextGroupDbStoreId := gw_NextGroupDbStoreId w + 1\<rparr> else w)"

definition load_member :: "group_env \<Rightarrow> uint32 \<times> uint32 \<times> uint8 \<times> uint8 \<times> uint8 \<Rightarrow> group_world \<Rightarrow> group_world" where
  "load_member ge row w =
     (case row of (groupId, memberGuid, memberFlags, subgroup, roles) \<Rightarrow>
        case GetGroupByDbStoreId w groupId of None \<Rightarrow> w | Some p \<Rightarrow> LoadMemberFromDB ge p memberGuid memberFlags subgroup roles w)"

definition LoadGroups :: "group_env \<Rightarrow> group_row list \<Rightarrow> (uint32 \<times> uint32 \<times> uint8 \<times> uint8 \<times> uint8) list \<Rightarrow> group_world \<Rightarrow> group_world" where
  "LoadGroups ge groups members w = (if groups = [] then w else fold (load_member ge) members (fold (load_group ge) groups w))"

text \<open>\<^verbatim>\<open>Player::_LoadGroup\<close>: a player who logs in finds his group by the row of the table of members, if there is one.\<close>

definition Player_LoadGroup :: "uint32 option \<Rightarrow> uint64 \<Rightarrow> group_world \<Rightarrow> group_world" where
  "Player_LoadGroup row guid w =
     (case row of
        None \<Rightarrow> w
      | Some storageId \<Rightarrow>
          (case GetGroupByDbStoreId w storageId of
             None \<Rightarrow> w
           | Some p \<Rightarrow>
               let w = Player_SetGroup guid (Some (p, GetMemberGroup (grp w p) guid)) w
               in on_plr guid (\<lambda>pl. if gp_level pl \<ge> 70
                                     then pl\<lparr>gp_dungeonDifficulty := g_dungeonDifficulty (grp w p), gp_raidDifficulty := g_raidDifficulty (grp w p)\<rparr> else pl) w))"

end
