(* ===== verification/GroupHandler.thy ===== *)
theory GroupHandler
  imports GroupMembers
begin

text \<open>
  The packet handlers of \<^verbatim>\<open>game/Handlers/GroupHandler.cpp\<close>, from the raw bytes, and the departure of a
  player who logs out (\<^verbatim>\<open>WorldSession::LogoutPlayer\<close>).  Not modelled: the packets with the state of a
  party member (health, auras, pets), which depend on the world objects.
\<close>

section \<open>The environment of a session\<close>

datatype PartyResult = ERR_PARTY_RESULT_OK | ERR_BAD_PLAYER_NAME_S | ERR_TARGET_NOT_IN_GROUP_S | ERR_TARGET_NOT_IN_INSTANCE_S
  | ERR_GROUP_FULL | ERR_ALREADY_IN_GROUP_S | ERR_NOT_IN_GROUP | ERR_NOT_LEADER | ERR_PLAYER_WRONG_FACTION | ERR_IGNORING_YOU_S
  | ERR_INVITE_RESTRICTED | ERR_PARTY_LFG_BOOT_LIMIT | ERR_PARTY_LFG_BOOT_IN_PROGRESS | ERR_PARTY_LFG_BOOT_TOO_FEW_PLAYERS
  | ERR_PARTY_LFG_BOOT_IN_COMBAT | ERR_PARTY_LFG_BOOT_DUNGEON_COMPLETE | ERR_PARTY_LFG_BOOT_LOOT_ROLLS

fun PartyResult_code :: "PartyResult \<Rightarrow> uint32" where
  "PartyResult_code ERR_PARTY_RESULT_OK = 0"
| "PartyResult_code ERR_BAD_PLAYER_NAME_S = 1"
| "PartyResult_code ERR_TARGET_NOT_IN_GROUP_S = 2"
| "PartyResult_code ERR_TARGET_NOT_IN_INSTANCE_S = 3"
| "PartyResult_code ERR_GROUP_FULL = 4"
| "PartyResult_code ERR_ALREADY_IN_GROUP_S = 5"
| "PartyResult_code ERR_NOT_IN_GROUP = 6"
| "PartyResult_code ERR_NOT_LEADER = 7"
| "PartyResult_code ERR_PLAYER_WRONG_FACTION = 8"
| "PartyResult_code ERR_IGNORING_YOU_S = 9"
| "PartyResult_code ERR_INVITE_RESTRICTED = 13"
| "PartyResult_code ERR_PARTY_LFG_BOOT_LIMIT = 20"
| "PartyResult_code ERR_PARTY_LFG_BOOT_IN_PROGRESS = 22"
| "PartyResult_code ERR_PARTY_LFG_BOOT_TOO_FEW_PLAYERS = 23"
| "PartyResult_code ERR_PARTY_LFG_BOOT_IN_COMBAT = 26"
| "PartyResult_code ERR_PARTY_LFG_BOOT_DUNGEON_COMPLETE = 28"
| "PartyResult_code ERR_PARTY_LFG_BOOT_LOOT_ROLLS = 29"

abbreviation PARTY_OP_INVITE :: uint32 where "PARTY_OP_INVITE \<equiv> 0"
abbreviation PARTY_OP_UNINVITE :: uint32 where "PARTY_OP_UNINVITE \<equiv> 1"
abbreviation PARTY_OP_LEAVE :: uint32 where "PARTY_OP_LEAVE \<equiv> 2"

text \<open>
  \<open>gs_byName\<close> is \<^verbatim>\<open>FindPlayerByName\<close>, which finds players in the world only; \<open>gs_normalize\<close> is
  \<^verbatim>\<open>normalizePlayerName\<close> (\<open>None\<close>: not a name).
\<close>

record group_session_env =
  gs_ge :: group_env
  gs_normalize :: "string \<Rightarrow> string option"
  gs_byName :: "group_world \<Rightarrow> string \<Rightarrow> uint64 option"
  gs_characterByName :: "string \<Rightarrow> uint64"
  gs_allowGMGroup :: bool
  gs_twoSideGroup :: bool
  gs_team :: "uint64 \<Rightarrow> uint32"
  gs_instanceId :: "uint64 \<Rightarrow> uint32"
  gs_ignores :: "uint64 \<Rightarrow> uint64 \<Rightarrow> bool"
  gs_inBattleground :: "uint64 \<Rightarrow> bool"
  gs_inCombat :: "uint64 \<Rightarrow> bool"
  gs_random :: "uint32 \<Rightarrow> uint32 \<Rightarrow> uint32"

type_synonym group_outcome = "group_world bb_result"

definition SendPartyResult :: "uint64 \<Rightarrow> uint32 \<Rightarrow> string \<Rightarrow> PartyResult \<Rightarrow> group_world \<Rightarrow> group_world" where
  "SendPartyResult me operation member res w =
     emit [SendPacket me (pkt 0x07F [FU32 operation, FStr member, FU32 (PartyResult_code res), FU32 0])] w"

section \<open>Invitations\<close>

definition invite_packet :: "uint8 \<Rightarrow> string \<Rightarrow> packet" where
  "invite_packet fl name = pkt 0x06F [FU8 fl, FStr name, FU32 0, FU8 0, FU32 0]"

text \<open>Here only battlegrounds count, not battlefields.\<close>

definition group_outside_bg :: "group_world \<Rightarrow> uint64 \<Rightarrow> gptr option" where
  "group_outside_bg w guid =
     (case group_ptr w guid of None \<Rightarrow> None | Some q \<Rightarrow> if g_bgGroup (grp w q) then original_ptr w guid else Some q)"

text \<open>The conditions on the two players, in order; the result that is sent when one fails.\<close>

definition invite_refused :: "group_session_env \<Rightarrow> uint64 \<Rightarrow> uint64 \<Rightarrow> group_world \<Rightarrow> PartyResult option" where
  "invite_refused gs me other w =
     (let gm = ge_gameMaster (gs_ge gs);
          difficulty = (\<lambda>g. case gw_players w g of None \<Rightarrow> 0 | Some pl \<Rightarrow> gp_dungeonDifficulty pl)
      in if \<not> gs_allowGMGroup gs \<and> \<not> gm me \<and> gm other then Some ERR_BAD_PLAYER_NAME_S
         else if \<not> gm me \<and> \<not> gs_twoSideGroup gs \<and> gs_team gs me \<noteq> gs_team gs other then Some ERR_PLAYER_WRONG_FACTION
         else if gs_instanceId gs me \<noteq> 0 \<and> gs_instanceId gs other \<noteq> 0 \<and> gs_instanceId gs me \<noteq> gs_instanceId gs other
                 \<and> ge_mapId (gs_ge gs) me = ge_mapId (gs_ge gs) other then Some ERR_TARGET_NOT_IN_INSTANCE_S
         else if gs_instanceId gs other \<noteq> 0 \<and> difficulty other \<noteq> difficulty me then Some ERR_IGNORING_YOU_S
         else if gs_ignores gs other me then Some ERR_IGNORING_YOU_S
         else None)"

text \<open>The invitation itself; the answer says whether the packets are sent.\<close>

definition do_invite :: "group_session_env \<Rightarrow> uint64 \<Rightarrow> uint64 \<Rightarrow> gptr option \<Rightarrow> group_world \<Rightarrow> bool \<times> group_world" where
  "do_invite gs me other own w =
     (case own of
        Some p \<Rightarrow> AddInvite (gs_ge gs) p other w
      | None \<Rightarrow>
          (case new_group w of (p, w) \<Rightarrow>
           case AddLeaderInvite (gs_ge gs) p me w of (ok, w) \<Rightarrow>
             if \<not> ok then (False, delete_group p w)
             else case AddInvite (gs_ge gs) p other w of (ok, w) \<Rightarrow>
                    if \<not> ok then (False, delete_group p w) else (True, w)))"

definition HandleGroupInviteOpcode :: "group_session_env \<Rightarrow> uint64 \<Rightarrow> ByteBuffer \<Rightarrow> group_world \<Rightarrow> group_outcome" where
  "HandleGroupInviteOpcode gs me recvData w =
     bindE (bb_read_string recvData) (\<lambda>(rawname, b).
     bindE (bb_read_skip 4 b) (\<lambda>b.
     Inr (case gs_normalize gs rawname of
       None \<Rightarrow> SendPartyResult me PARTY_OP_INVITE rawname ERR_BAD_PLAYER_NAME_S w
     | Some membername \<Rightarrow> (case gs_byName gs w membername of
         None \<Rightarrow> SendPartyResult me PARTY_OP_INVITE membername ERR_BAD_PLAYER_NAME_S w
       | Some other \<Rightarrow> (case invite_refused gs me other w of
           Some res \<Rightarrow> SendPartyResult me PARTY_OP_INVITE membername res w
         | None \<Rightarrow>
             let own = group_outside_bg w me; group2 = group_outside_bg w other
             in if group2 \<noteq> None \<or> invite_ptr w other \<noteq> None
                then let w = SendPartyResult me PARTY_OP_INVITE membername ERR_ALREADY_IN_GROUP_S w
                     in if group2 \<noteq> None then emit [SendPacket other (invite_packet 0 (name_of w me))] w else w
                else if (case own of None \<Rightarrow> False | Some p \<Rightarrow> \<not> IsLeader (grp w p) me \<and> \<not> IsAssistant (grp w p) me)
                then SendPartyResult me PARTY_OP_INVITE [] ERR_NOT_LEADER w
                else if (case own of None \<Rightarrow> False | Some p \<Rightarrow> IsFull (grp w p))
                then SendPartyResult me PARTY_OP_INVITE [] ERR_GROUP_FULL w
                else case do_invite gs me other own w of (ok, w) \<Rightarrow>
                       if \<not> ok then w
                       else SendPartyResult me PARTY_OP_INVITE membername ERR_PARTY_RESULT_OK
                              (emit [SendPacket other (invite_packet 1 (name_of w me))] w))))))"

text \<open>The group the invitation points to is used through the pointer.\<close>

definition accept_invite :: "group_session_env \<Rightarrow> uint64 \<Rightarrow> gptr \<Rightarrow> group_world \<Rightarrow> group_world" where
  "accept_invite gs me p w =
     (let w = RemoveInvite p me w
      in if g_leaderGuid (grp w p) = me then w
         else if IsFull (grp w p) then SendPartyResult me PARTY_OP_INVITE [] ERR_GROUP_FULL w
         else let leader = g_leaderGuid (grp w p)
              in if \<not> IsCreated (grp w p) \<and> \<not> online w leader then RemoveAllInvites p w
                 else let w = (if IsCreated (grp w p) then w
                               else AddGroup p (snd (Group_Create (gs_ge gs) p leader (RemoveInvite p leader w))))
                      in case AddMember (gs_ge gs) p me w of (ok, w) \<Rightarrow> if \<not> ok then w else BroadcastGroupUpdate p w)"

definition HandleGroupAcceptOpcode :: "group_session_env \<Rightarrow> uint64 \<Rightarrow> ByteBuffer \<Rightarrow> group_world \<Rightarrow> group_outcome" where
  "HandleGroupAcceptOpcode gs me recvData w =
     bindE (bb_read_skip 4 recvData) (\<lambda>b.
     Inr (case invite_ptr w me of None \<Rightarrow> w | Some p \<Rightarrow> deref p (accept_invite gs me p) w))"

definition HandleGroupDeclineOpcode :: "group_session_env \<Rightarrow> uint64 \<Rightarrow> group_world \<Rightarrow> group_world" where
  "HandleGroupDeclineOpcode gs me w =
     (case invite_ptr w me of
        None \<Rightarrow> w
      | Some p \<Rightarrow> deref p (\<lambda>w.
          let leader = g_leaderGuid (grp w p); found = connected w leader;
              w = UninviteFromGroup (gs_ge gs) me w
          in if found then emit [SendPacket leader (pkt 0x074 [FStr (name_of w me)])] w else w) w)"

section \<open>Removal\<close>

definition CanUninviteFromGroup :: "group_session_env \<Rightarrow> uint64 \<Rightarrow> group_world \<Rightarrow> PartyResult" where
  "CanUninviteFromGroup gs me w =
     (case group_ptr w me of
        None \<Rightarrow> ERR_NOT_IN_GROUP
      | Some p \<Rightarrow>
          let g = grp w p in
          if isLFGGroup g
          then let gguid = g_guid g; state = GetState (gw_lfg w) gguid
               in if gd_KicksLeft (group_data (gw_lfg w) gguid) = 0 then ERR_PARTY_LFG_BOOT_LIMIT
                  else if state = LFG_STATE_BOOT then ERR_PARTY_LFG_BOOT_IN_PROGRESS
                  else if GetMembersCount g \<le> 3 then ERR_PARTY_LFG_BOOT_TOO_FEW_PLAYERS
                  else if state = LFG_STATE_FINISHED_DUNGEON then ERR_PARTY_LFG_BOOT_DUNGEON_COMPLETE
                  else if g_rolls g \<noteq> [] then ERR_PARTY_LFG_BOOT_LOOT_ROLLS
                  else if list_ex (\<lambda>r. gs_inCombat gs (fst r)) (g_memberMgr g) then ERR_PARTY_LFG_BOOT_IN_COMBAT
                  else ERR_PARTY_RESULT_OK
          else if \<not> IsLeader g me \<and> \<not> IsAssistant g me then ERR_NOT_LEADER
          else if gs_inBattleground gs me then ERR_INVITE_RESTRICTED
          else ERR_PARTY_RESULT_OK)"

definition HandleGroupUninviteGuidOpcode :: "group_session_env \<Rightarrow> uint64 \<Rightarrow> ByteBuffer \<Rightarrow> group_world \<Rightarrow> group_outcome" where
  "HandleGroupUninviteGuidOpcode gs me recvData w =
     bindE (bb_read recvData) (\<lambda>(guid :: uint64, b).
     bindE (bb_read_string b) (\<lambda>(reason, b).
     Inr (if guid = me then w
          else if CanUninviteFromGroup gs me w \<noteq> ERR_PARTY_RESULT_OK
          then SendPartyResult me PARTY_OP_UNINVITE [] (CanUninviteFromGroup gs me w) w
          else case group_ptr w me of
                 None \<Rightarrow> w
               | Some p \<Rightarrow>
                   if IsLeader (grp w p) guid then SendPartyResult me PARTY_OP_UNINVITE [] ERR_NOT_LEADER w
                   else if IsMember (grp w p) guid then snd (RemoveMember (gs_ge gs) p guid GROUP_REMOVEMETHOD_KICK me reason w)
                   else case GetInvited w (grp w p) guid of
                          Inl e \<Rightarrow> fault e w
                        | Inr (Some invited) \<Rightarrow> UninviteFromGroup (gs_ge gs) invited w
                        | Inr None \<Rightarrow> SendPartyResult me PARTY_OP_UNINVITE [] ERR_TARGET_NOT_IN_GROUP_S w)))"

definition HandleGroupUninviteOpcode :: "group_session_env \<Rightarrow> uint64 \<Rightarrow> ByteBuffer \<Rightarrow> group_world \<Rightarrow> group_outcome" where
  "HandleGroupUninviteOpcode gs me recvData w =
     bindE (bb_read_string recvData) (\<lambda>(rawname, b).
     Inr (case gs_normalize gs rawname of
            None \<Rightarrow> w
          | Some membername \<Rightarrow>
              if name_of w me = membername then w
              else if CanUninviteFromGroup gs me w \<noteq> ERR_PARTY_RESULT_OK
              then SendPartyResult me PARTY_OP_UNINVITE [] (CanUninviteFromGroup gs me w) w
              else case group_ptr w me of
                     None \<Rightarrow> w
                   | Some p \<Rightarrow>
                       let guid = GetMemberGUID (grp w p) membername
                       in if guid \<noteq> 0 then snd (RemoveMember (gs_ge gs) p guid GROUP_REMOVEMETHOD_KICK me [] w)
                          else case GetInvited_name w (grp w p) membername of
                                 Inl e \<Rightarrow> fault e w
                               | Inr (Some invited) \<Rightarrow> UninviteFromGroup (gs_ge gs) invited w
                               | Inr None \<Rightarrow> SendPartyResult me PARTY_OP_UNINVITE membername ERR_TARGET_NOT_IN_GROUP_S w))"

definition HandleGroupDisbandOpcode :: "group_session_env \<Rightarrow> uint64 \<Rightarrow> group_world \<Rightarrow> group_world" where
  "HandleGroupDisbandOpcode gs me w =
     (case group_ptr w me of
        None \<Rightarrow> w
      | Some p \<Rightarrow>
          if gs_inBattleground gs me then SendPartyResult me PARTY_OP_INVITE [] ERR_INVITE_RESTRICTED w
          else snd (RemoveMember (gs_ge gs) p me GROUP_REMOVEMETHOD_LEAVE 0 []
                     (SendPartyResult me PARTY_OP_LEAVE (name_of w me) ERR_PARTY_RESULT_OK w)))"

section \<open>Commands of the leader and his assistants\<close>

definition HandleGroupSetLeaderOpcode :: "group_session_env \<Rightarrow> uint64 \<Rightarrow> ByteBuffer \<Rightarrow> group_world \<Rightarrow> group_outcome" where
  "HandleGroupSetLeaderOpcode gs me recvData w =
     bindE (bb_read recvData) (\<lambda>(guid :: uint64, b).
     Inr (case group_ptr w me of
            None \<Rightarrow> w
          | Some p \<Rightarrow>
              if \<not> online w guid \<or> \<not> IsLeader (grp w p) me \<or> group_ptr w guid \<noteq> Some p then w
              else SendUpdate p (ChangeLeader (gs_ge gs) p guid w)))"

definition HandleLootMethodOpcode :: "group_session_env \<Rightarrow> uint64 \<Rightarrow> ByteBuffer \<Rightarrow> group_world \<Rightarrow> group_outcome" where
  "HandleLootMethodOpcode gs me recvData w =
     bindE (bb_read recvData) (\<lambda>(lootMethod :: uint32, b).
     bindE (bb_read b) (\<lambda>(lootMaster :: uint64, b).
     bindE (bb_read b) (\<lambda>(lootThreshold :: uint32, b).
     Inr (case group_ptr w me of
            None \<Rightarrow> w
          | Some p \<Rightarrow>
              if \<not> IsLeader (grp w p) me then w
              else SendUpdate p (on_grp p (\<lambda>g. g\<lparr>g_lootMethod := lootMethod, g_looterGuid := lootMaster, g_lootThreshold := lootThreshold\<rparr>) w)))))"

definition HandleLootRoll :: "group_session_env \<Rightarrow> uint64 \<Rightarrow> ByteBuffer \<Rightarrow> group_world \<Rightarrow> group_outcome" where
  "HandleLootRoll gs me recvData w =
     bindE (bb_read recvData) (\<lambda>(guid :: uint64, b).
     bindE (bb_read b) (\<lambda>(itemSlot :: uint32, b).
     bindE (bb_read b) (\<lambda>(rollType :: uint8, b).
     Inr (case group_ptr w me of
            None \<Rightarrow> w
          | Some p \<Rightarrow>
              let w = CountRollVote (gs_ge gs) p me guid rollType w
              in if rollType = ROLL_NEED then emit [UpdateAchievementCriteria me 93 1 0] w
                 else if rollType = ROLL_GREED then emit [UpdateAchievementCriteria me 94 1 0] w else w))))"

text \<open>The coordinates are passed on as they came.\<close>

definition HandleMinimapPingOpcode :: "group_session_env \<Rightarrow> uint64 \<Rightarrow> ByteBuffer \<Rightarrow> group_world \<Rightarrow> group_outcome" where
  "HandleMinimapPingOpcode gs me recvData w =
     (case group_ptr w me of
        None \<Rightarrow> Inr w
      | Some p \<Rightarrow>
          bindE (bb_read recvData) (\<lambda>(x :: uint32, b).
          bindE (bb_read b) (\<lambda>(y :: uint32, b).
          Inr (BroadcastPacket p (pkt 0x1D5 [FU64 me, FU32 x, FU32 y]) True None me w))))"

definition HandleRandomRollOpcode :: "group_session_env \<Rightarrow> uint64 \<Rightarrow> ByteBuffer \<Rightarrow> group_world \<Rightarrow> group_outcome" where
  "HandleRandomRollOpcode gs me recvData w =
     bindE (bb_read recvData) (\<lambda>(minimum :: uint32, b).
     bindE (bb_read b) (\<lambda>(maximum :: uint32, b).
     Inr (if minimum > maximum \<or> maximum > 10000 then w
          else let p = pkt 0x1FB [FU32 minimum, FU32 maximum, FU32 (gs_random gs minimum maximum), FU64 me]
               in case group_ptr w me of Some q \<Rightarrow> BroadcastPacket q p False None 0 w | None \<Rightarrow> emit [SendPacket me p] w)))"

definition may_lead :: "Group \<Rightarrow> uint64 \<Rightarrow> bool" where
  "may_lead g me \<longleftrightarrow> IsLeader g me \<or> IsAssistant g me"

definition HandleRaidTargetUpdateOpcode :: "group_session_env \<Rightarrow> uint64 \<Rightarrow> ByteBuffer \<Rightarrow> group_world \<Rightarrow> group_outcome" where
  "HandleRaidTargetUpdateOpcode gs me recvData w =
     (case group_ptr w me of
        None \<Rightarrow> Inr w
      | Some p \<Rightarrow>
          bindE (bb_read recvData) (\<lambda>(x :: uint8, b).
          if x = 0xFF then Inr (SendTargetIconList p me w)
          else if \<not> may_lead (grp w p) me then Inr w
          else bindE (bb_read b) (\<lambda>(guid :: uint64, b). Inr (SetTargetIcon p x me guid w))))"

definition HandleGroupRaidConvertOpcode :: "group_session_env \<Rightarrow> uint64 \<Rightarrow> group_world \<Rightarrow> group_world" where
  "HandleGroupRaidConvertOpcode gs me w =
     (case group_ptr w me of
        None \<Rightarrow> w
      | Some p \<Rightarrow>
          if gs_inBattleground gs me \<or> \<not> IsLeader (grp w p) me \<or> GetMembersCount (grp w p) < 2 then w
          else ConvertToRaid p (SendPartyResult me PARTY_OP_INVITE [] ERR_PARTY_RESULT_OK w))"

definition HandleGroupChangeSubGroupOpcode :: "group_session_env \<Rightarrow> uint64 \<Rightarrow> ByteBuffer \<Rightarrow> group_world \<Rightarrow> group_outcome" where
  "HandleGroupChangeSubGroupOpcode gs me recvData w =
     (case group_ptr w me of
        None \<Rightarrow> Inr w
      | Some p \<Rightarrow>
          bindE (bb_read_string recvData) (\<lambda>(name, b).
          bindE (bb_read b) (\<lambda>(groupNr :: uint8, b).
          Inr (if unat groupNr \<ge> MAX_RAID_SUBGROUPS \<or> \<not> may_lead (grp w p) me \<or> \<not> HasFreeSlotSubGroup (grp w p) groupNr then w
               else ChangeMembersGroup p (case gs_byName gs w name of Some guid \<Rightarrow> guid | None \<Rightarrow> gs_characterByName gs name) groupNr w))))"

definition HandleGroupAssistantLeaderOpcode :: "group_session_env \<Rightarrow> uint64 \<Rightarrow> ByteBuffer \<Rightarrow> group_world \<Rightarrow> group_outcome" where
  "HandleGroupAssistantLeaderOpcode gs me recvData w =
     (case group_ptr w me of
        None \<Rightarrow> Inr w
      | Some p \<Rightarrow>
          if \<not> IsLeader (grp w p) me then Inr w
          else bindE (bb_read recvData) (\<lambda>(guid :: uint64, b).
               bindE (bb_read_bool b) (\<lambda>(apply, b).
               Inr (SendUpdate p (SetGroupMemberFlag p guid apply MEMBER_FLAG_ASSISTANT w)))))"

definition HandlePartyAssignmentOpcode :: "group_session_env \<Rightarrow> uint64 \<Rightarrow> ByteBuffer \<Rightarrow> group_world \<Rightarrow> group_outcome" where
  "HandlePartyAssignmentOpcode gs me recvData w =
     (case group_ptr w me of
        None \<Rightarrow> Inr w
      | Some p \<Rightarrow>
          if \<not> may_lead (grp w p) me then Inr w
          else bindE (bb_read recvData) (\<lambda>(assignment :: uint8, b).
               bindE (bb_read_bool b) (\<lambda>(apply, b).
               bindE (bb_read b) (\<lambda>(guid :: uint64, b).
               let assign = (\<lambda>fl. SetGroupMemberFlag p guid apply fl (on_grp p (RemoveUniqueGroupMemberFlag fl) w));
                   w = (if assignment = 1 then assign MEMBER_FLAG_MAINASSIST else if assignment = 0 then assign MEMBER_FLAG_MAINTANK else w)
               in Inr (SendUpdate p w)))))"

definition HandleRaidReadyCheckOpcode :: "group_session_env \<Rightarrow> uint64 \<Rightarrow> ByteBuffer \<Rightarrow> group_world \<Rightarrow> group_outcome" where
  "HandleRaidReadyCheckOpcode gs me recvData w =
     (case group_ptr w me of
        None \<Rightarrow> Inr w
      | Some p \<Rightarrow>
          if bb_size recvData = 0
          then Inr (if \<not> may_lead (grp w p) me then w
                    else OfflineReadyCheck p (BroadcastPacket p (pkt 0x322 [FU64 me]) False None 0 w))
          else bindE (bb_read recvData) (\<lambda>(state :: uint8, b).
               Inr (BroadcastReadyCheck p (pkt 0x3AE [FU64 me, FU8 state]) w)))"

definition HandleOptOutOfLootOpcode :: "group_session_env \<Rightarrow> uint64 \<Rightarrow> ByteBuffer \<Rightarrow> group_world \<Rightarrow> group_outcome" where
  "HandleOptOutOfLootOpcode gs me recvData w =
     bindE (bb_read recvData) (\<lambda>(passOnLoot :: uint32, b).
     Inr (on_plr me (\<lambda>pl. pl\<lparr>gp_passOnGroupLoot := (passOnLoot \<noteq> 0)\<rparr>) w))"

section \<open>Logging out\<close>

text \<open>The player leaves his group unless it is a raid or the connection was lost, and is deleted.\<close>

definition LogoutPlayer :: "group_session_env \<Rightarrow> uint64 \<Rightarrow> bool \<Rightarrow> group_world \<Rightarrow> group_world" where
  "LogoutPlayer gs me socket w =
     (let w = UninviteFromGroup (gs_ge gs) me w;
          w = (case group_ptr w me of
                 None \<Rightarrow> w
               | Some p \<Rightarrow> if \<not> isRaidGroup (grp w p) \<and> socket
                            then snd (RemoveMember (gs_ge gs) p me GROUP_REMOVEMETHOD_DEFAULT 0 [] w) else w);
          w = (case group_ptr w me of
                 None \<Rightarrow> w
               | Some p \<Rightarrow> let w = SendUpdate p w in on_grp p (ResetMaxEnchantingLevel w) w);
          w = unlink True me (unlink False me w)
      in w\<lparr>gw_players := (gw_players w)(me := None)\<rparr>)"

section \<open>Dispatch\<close>

datatype group_opcode = CMSG_GROUP_INVITE | CMSG_GROUP_ACCEPT | CMSG_GROUP_DECLINE | CMSG_GROUP_UNINVITE_GUID | CMSG_GROUP_UNINVITE
  | CMSG_GROUP_SET_LEADER | CMSG_GROUP_DISBAND | CMSG_LOOT_METHOD | CMSG_LOOT_ROLL | MSG_MINIMAP_PING | MSG_RANDOM_ROLL
  | MSG_RAID_TARGET_UPDATE | CMSG_GROUP_RAID_CONVERT | CMSG_GROUP_CHANGE_SUB_GROUP | CMSG_GROUP_ASSISTANT_LEADER
  | MSG_PARTY_ASSIGNMENT | MSG_RAID_READY_CHECK | CMSG_OPT_OUT_OF_LOOT

fun handle_group :: "group_opcode \<Rightarrow> group_session_env \<Rightarrow> uint64 \<Rightarrow> ByteBuffer \<Rightarrow> group_world \<Rightarrow> group_outcome" where
  "handle_group CMSG_GROUP_INVITE gs me b w = HandleGroupInviteOpcode gs me b w"
| "handle_group CMSG_GROUP_ACCEPT gs me b w = HandleGroupAcceptOpcode gs me b w"
| "handle_group CMSG_GROUP_DECLINE gs me b w = Inr (HandleGroupDeclineOpcode gs me w)"
| "handle_group CMSG_GROUP_UNINVITE_GUID gs me b w = HandleGroupUninviteGuidOpcode gs me b w"
| "handle_group CMSG_GROUP_UNINVITE gs me b w = HandleGroupUninviteOpcode gs me b w"
| "handle_group CMSG_GROUP_SET_LEADER gs me b w = HandleGroupSetLeaderOpcode gs me b w"
| "handle_group CMSG_GROUP_DISBAND gs me b w = Inr (HandleGroupDisbandOpcode gs me w)"
| "handle_group CMSG_LOOT_METHOD gs me b w = HandleLootMethodOpcode gs me b w"
| "handle_group CMSG_LOOT_ROLL gs me b w = HandleLootRoll gs me b w"
| "handle_group MSG_MINIMAP_PING gs me b w = HandleMinimapPingOpcode gs me b w"
| "handle_group MSG_RANDOM_ROLL gs me b w = HandleRandomRollOpcode gs me b w"
| "handle_group MSG_RAID_TARGET_UPDATE gs me b w = HandleRaidTargetUpdateOpcode gs me b w"
| "handle_group CMSG_GROUP_RAID_CONVERT gs me b w = Inr (HandleGroupRaidConvertOpcode gs me w)"
| "handle_group CMSG_GROUP_CHANGE_SUB_GROUP gs me b w = HandleGroupChangeSubGroupOpcode gs me b w"
| "handle_group CMSG_GROUP_ASSISTANT_LEADER gs me b w = HandleGroupAssistantLeaderOpcode gs me b w"
| "handle_group MSG_PARTY_ASSIGNMENT gs me b w = HandlePartyAssignmentOpcode gs me b w"
| "handle_group MSG_RAID_READY_CHECK gs me b w = HandleRaidReadyCheckOpcode gs me b w"
| "handle_group CMSG_OPT_OUT_OF_LOOT gs me b w = HandleOptOutOfLootOpcode gs me b w"

end
