(* ===== verification/GroupRolls.thy ===== *)
theory GroupRolls
  imports GroupHandler
begin

text \<open>
  What the loot rolls of \<^verbatim>\<open>Group.cpp\<close> achieve: counters that agree with the votes, when a roll ends, who
  wins, that the end of the time ends every roll of a loot; and what repeated votes of one player do.
\<close>

section \<open>Counters and votes\<close>

definition vote_count :: "(RollVote \<Rightarrow> bool) \<Rightarrow> (uint64, RollVote) smap \<Rightarrow> nat" where
  "vote_count P vs = length (filter (\<lambda>e. P (snd e)) vs)"

lemma vote_count_simps [simp]:
  "vote_count P [] = 0" "vote_count P (e # vs) = (if P (snd e) then Suc (vote_count P vs) else vote_count P vs)"
  by (simp_all add: vote_count_def)


lemma vote_count_put_new:
  "map_of vs guid = None \<Longrightarrow> vote_count P (map_put guid v vs) = vote_count P vs + (if P v then 1 else 0)"
  by (induction vs) (auto split: if_splits)

lemma vote_count_erase:
  assumes "map_wf vs" "map_of vs guid = Some old"
  shows "vote_count P vs = vote_count P (map_erase guid vs) + (if P old then 1 else 0)"
  using assms
proof (induction vs)
  case (Cons e vs)
  show ?case
  proof (cases "fst e = guid")
    case True
    with Cons.prems(1) have "map_of vs guid = None" by (auto simp: map_of_eq_None_iff)
    then have "map_erase guid (e # vs) = vs" using True map_erase_absent [of vs guid] by (simp add: map_erase_def)
    then show ?thesis using True Cons.prems(2) by (cases e) simp
  next
    case False
    then have "map_erase guid (e # vs) = e # map_erase guid vs" by (simp add: map_erase_def)
    then show ?thesis using False Cons by (cases e) simp
  qed
qed simp

lemma vote_count_le: "vote_count P vs \<le> length vs"
  by (simp add: vote_count_def)

lemma vote_count_zero: "vote_count P vs = 0 \<longleftrightarrow> (\<forall>e \<in> set vs. \<not> P (snd e))"
  by (auto simp: vote_count_def filter_empty_conv)

abbreviation is_greed :: "RollVote \<Rightarrow> bool" where
  "is_greed v \<equiv> v = GREED \<or> v = DISENCHANT"

text \<open>The counters of a roll are those of its votes.\<close>

definition votes_exact :: "Roll \<Rightarrow> bool" where
  "votes_exact r \<longleftrightarrow> map_wf (ro_playerVote r) \<and> length (ro_playerVote r) < 256
     \<and> unat (ro_totalPlayersRolling r) = length (ro_playerVote r)
     \<and> unat (ro_totalPass r) = vote_count (\<lambda>v. v = PASS) (ro_playerVote r)
     \<and> unat (ro_totalNeed r) = vote_count (\<lambda>v. v = NEED) (ro_playerVote r)
     \<and> unat (ro_totalGreed r) = vote_count is_greed (ro_playerVote r)
     \<and> vote_count (\<lambda>v. v = NOT_VALID) (ro_playerVote r) = 0"

definition awaited :: "Roll \<Rightarrow> uint64 list" where
  "awaited r = map fst (filter (\<lambda>e. snd e = NOT_EMITED_YET) (ro_playerVote r))"

lemma votes_total:
  "length vs = vote_count (\<lambda>v. v = PASS) vs + vote_count (\<lambda>v. v = NEED) vs + vote_count is_greed vs
     + vote_count (\<lambda>v. v = NOT_EMITED_YET) vs + vote_count (\<lambda>v. v = NOT_VALID) vs"
proof (induction vs)
  case (Cons e vs)
  then show ?case by (cases "snd e") simp_all
qed simp


lemma unat_inc8: "unat (n :: uint8) < 255 \<Longrightarrow> unat (n + 1) = unat n + 1"
  by (simp add: unat_word_ariths(1))

lemma unat_dec8: "0 < unat (n :: uint8) \<Longrightarrow> unat (n - 1) = unat n - 1"
  by (metis One_nat_def Suc_leI unat_1 unat_sub word_le_nat_alt)



lemma awaited_iff: "map_wf (ro_playerVote r) \<Longrightarrow> guid \<in> set (awaited r) \<longleftrightarrow> map_of (ro_playerVote r) guid = Some NOT_EMITED_YET"
  by (auto simp: awaited_def image_iff map_wf_find [symmetric])


text \<open>A member who leaves the group takes his vote with him.\<close>

lemma exact_withdraw_vote:
  assumes r: "votes_exact r" and v: "map_of (ro_playerVote r) guid = Some v"
  shows "votes_exact (withdraw_vote guid v r)"
proof -
  let ?vs = "ro_playerVote r"
  have wf: "map_wf ?vs" using r by (simp add: votes_exact_def)
  note er = vote_count_erase [OF wf v]
  have "v \<noteq> NOT_VALID" using r map_of_SomeD [OF v] by (auto simp: votes_exact_def vote_count_zero)
  moreover have "length ?vs = Suc (length (map_erase guid ?vs))"
    using er [of "\<lambda>_. True"] by (simp add: vote_count_def)
  ultimately show ?thesis
    using r er [of "\<lambda>v. v = PASS"] er [of "\<lambda>v. v = NEED"] er [of is_greed] er [of "\<lambda>v. v = NOT_VALID"]
    by (cases v) (simp_all add: votes_exact_def withdraw_vote_def unat_dec8)
qed

text \<open>The members who are eligible enter the roll.\<close>

lemma exact_enter_roll:
  assumes "votes_exact r" "map_of (ro_playerVote r) (fst ref) = None" "length (ro_playerVote r) < 255"
  shows "votes_exact (enter_roll ge w obj li autoPass ref r)"
proof -
  let ?vs = "ro_playerVote r"
  have wf: "map_wf ?vs" using assms(1) by (simp add: votes_exact_def)
  note put = vote_count_put_new [OF assms(2)]
  have "unat (ro_totalPass r) < 255" "unat (ro_totalPlayersRolling r) < 255"
    using assms(1,3) vote_count_le [of "\<lambda>v. v = PASS" ?vs] by (auto simp: votes_exact_def)
  then show ?thesis
    using assms by (auto simp: votes_exact_def enter_roll_def Let_def put length_map_put [OF wf] unat_inc8)
qed

lemma enter_roll_other:
  "guid \<noteq> fst ref \<Longrightarrow> map_of (ro_playerVote (enter_roll ge w obj li autoPass ref r)) guid = map_of (ro_playerVote r) guid"
  by (simp add: enter_roll_def Let_def)

lemma length_enter_roll: "map_wf (ro_playerVote r) \<Longrightarrow> length (ro_playerVote (enter_roll ge w obj li autoPass ref r)) \<le> Suc (length (ro_playerVote r))"
  by (simp add: enter_roll_def Let_def length_map_put)

lemma exact_fold_enter:
  assumes "votes_exact r" "distinct (map fst refs)" "\<forall>ref \<in> set refs. map_of (ro_playerVote r) (fst ref) = None"
    "length (ro_playerVote r) + length refs < 256"
  shows "votes_exact (fold (enter_roll ge w obj li autoPass) refs r)"
  using assms
proof (induction refs arbitrary: r)
  case (Cons ref refs)
  let ?r = "enter_roll ge w obj li autoPass ref r"
  have "votes_exact ?r" using exact_enter_roll Cons.prems by simp
  moreover have "\<forall>x \<in> set refs. map_of (ro_playerVote ?r) (fst x) = None"
    using Cons.prems(2,3) enter_roll_other [of _ ref] by (metis image_eqI list.set_intros(2) distinct.simps(2) list.simps(9) set_map)
  moreover have "length (ro_playerVote ?r) + length refs < 256"
    using Cons.prems(1,4) length_enter_roll [of r ge w obj li autoPass ref] by (simp add: votes_exact_def)
  ultimately show ?case using Cons.IH Cons.prems(2) by simp
qed simp

lemma exact_gather:
  assumes "distinct (map fst (g_memberMgr (grp w p)))" "length (g_memberMgr (grp w p)) < 256"
  shows "votes_exact (gather_rollers ge w p obj li autoPass (Roll_new guid li))"
  unfolding gather_rollers_def using assms by (intro exact_fold_enter) (simp_all add: votes_exact_def Roll_new_def)

section \<open>What a roll leaves alone\<close>

lemma on_loot_frame [simp]:
  "gw_groups (on_loot l f w) = gw_groups w" "gw_players (on_loot l f w) = gw_players w" "gw_lfg (on_loot l f w) = gw_lfg w"
  "gw_log (on_loot l f w) = gw_log w" "gw_fresh (on_loot l f w) = gw_fresh w" "gw_GroupDbStore (on_loot l f w) = gw_GroupDbStore w"
  by (simp_all add: on_loot_def fault_def split: option.split)

lemma send_rolls_frame [simp]:
  "gw_groups (SendLootRoll a b c d r w) = gw_groups w" "gw_players (SendLootRoll a b c d r w) = gw_players w"
  "gw_lfg (SendLootRoll a b c d r w) = gw_lfg w" "gw_loots (SendLootRoll a b c d r w) = gw_loots w" "gw_fault (SendLootRoll a b c d r w) = gw_fault w"
  "gw_fresh (SendLootRoll a b c d r w) = gw_fresh w" "gw_GroupDbStore (SendLootRoll a b c d r w) = gw_GroupDbStore w"
  "gw_groups (SendLootRollWon a b c d r w) = gw_groups w" "gw_players (SendLootRollWon a b c d r w) = gw_players w"
  "gw_lfg (SendLootRollWon a b c d r w) = gw_lfg w" "gw_loots (SendLootRollWon a b c d r w) = gw_loots w" "gw_fault (SendLootRollWon a b c d r w) = gw_fault w"
  "gw_fresh (SendLootRollWon a b c d r w) = gw_fresh w" "gw_GroupDbStore (SendLootRollWon a b c d r w) = gw_GroupDbStore w"
  "gw_groups (SendLootAllPassed r w) = gw_groups w" "gw_players (SendLootAllPassed r w) = gw_players w"
  "gw_lfg (SendLootAllPassed r w) = gw_lfg w" "gw_loots (SendLootAllPassed r w) = gw_loots w" "gw_fault (SendLootAllPassed r w) = gw_fault w"
  "gw_fresh (SendLootAllPassed r w) = gw_fresh w" "gw_GroupDbStore (SendLootAllPassed r w) = gw_GroupDbStore w"
  by (simp_all add: SendLootRoll_def SendLootRollWon_def SendLootAllPassed_def)

text \<open>The players to whom an effect gives something.\<close>

fun receives :: "group_effect \<Rightarrow> uint64 option" where
  "receives (StoreNewItem guid item cnt) = Some guid"
| "receives (AutoStoreLoot guid loot) = Some guid"
| "receives _ = None"

definition received :: "group_world \<Rightarrow> group_world \<Rightarrow> uint64 list" where
  "received w w' = List.map_filter receives (drop (length (gw_log w)) (gw_log w'))"

definition quiet :: "group_world \<Rightarrow> group_world \<Rightarrow> bool" where
  "quiet w w' \<longleftrightarrow> (\<exists>es. gw_log w' = gw_log w @ es \<and> (\<forall>e \<in> set es. receives e = None))"

lemma quiet_trans: "quiet w w' \<Longrightarrow> quiet w' w'' \<Longrightarrow> quiet w w''"
  by (auto simp: quiet_def)

lemma quiet_same_log: "gw_log w' = gw_log w \<Longrightarrow> quiet w w'"
  by (simp add: quiet_def)

lemma quiet_emit: "(\<forall>e \<in> set es. receives e = None) \<Longrightarrow> quiet w (emit es w)"
  by (auto simp: quiet_def)

lemma quiet_packets [simp]:
  "quiet w (SendLootRoll a b c d r w)" "quiet w (SendLootRollWon a b c d r w)" "quiet w (SendLootAllPassed r w)"
  by (auto simp: SendLootRoll_def SendLootRollWon_def SendLootAllPassed_def intro!: quiet_emit)

lemma received_quiet: "quiet w w' \<Longrightarrow> received w w' = []"
  by (auto simp: quiet_def received_def List.map_filter_def filter_empty_conv)

lemma received_emit:
  "quiet w w' \<Longrightarrow> received w (emit es w') = List.map_filter receives es"
  by (auto simp: quiet_def received_def List.map_filter_def filter_empty_conv)

lemma received_same_log: "gw_log w'' = gw_log w' \<Longrightarrow> received w w'' = received w w'"
  by (simp add: received_def)

text \<open>The dice: the first of the highest wins.\<close>

definition takers :: "(RollVote \<Rightarrow> bool) \<Rightarrow> (uint64, RollVote) smap \<Rightarrow> uint64 list" where
  "takers P vs = map fst (filter (\<lambda>e. P (snd e)) vs)"

lemma takers_simps [simp]: "takers P [] = []" "takers P (e # vs) = (if P (snd e) then fst e # takers P vs else takers P vs)"
  by (simp_all add: takers_def)

fun dice_from :: "group_env \<Rightarrow> nat \<Rightarrow> uint64 list \<Rightarrow> (uint64 \<times> uint8) list" where
  "dice_from ge n [] = []"
| "dice_from ge n (guid # guids) = (guid, ge_urand ge n) # dice_from ge (Suc n) guids"

lemma throw_dice_frame:
  assumes "throw_dice ge r P code vs (a, b, c, w) = (a', b', c', w')"
  shows "gw_groups w' = gw_groups w \<and> gw_players w' = gw_players w \<and> gw_lfg w' = gw_lfg w \<and> gw_loots w' = gw_loots w
    \<and> gw_fault w' = gw_fault w \<and> gw_fresh w' = gw_fresh w \<and> gw_GroupDbStore w' = gw_GroupDbStore w \<and> quiet w w'"
  using assms
proof (induction vs arbitrary: a b c w)
  case Nil
  then show ?case by (simp add: quiet_same_log)
next
  case (Cons e vs)
  obtain guid v where e: "e = (guid, v)" by (cases e)
  let ?n = "ge_urand ge (gw_drawn w)"
  let ?w = "SendLootRoll 0 guid ?n (code v) r (w\<lparr>gw_drawn := Suc (gw_drawn w)\<rparr>)"
  have q: "quiet w ?w" by (rule quiet_trans [OF quiet_same_log quiet_packets(1)]) simp
  show ?case
  proof (cases "P v")
    case True
    then have "throw_dice ge r P code vs (if a < ?n then (?n, guid, v, ?w) else (a, b, c, ?w)) = (a', b', c', w')"
      using Cons.prems by (simp add: e Let_def)
    then show ?thesis using Cons.IH [of _ _ _ ?w] quiet_trans [OF q] by (auto split: if_splits)
  qed (use Cons in \<open>simp add: e\<close>)
qed

lemma throw_dice_winner:
  assumes "throw_dice ge r P code vs (a, b, c, w) = (a', b', c', w')"
  shows "(\<forall>x \<in> set (dice_from ge (gw_drawn w) (takers P vs)). snd x \<le> a') \<and> a \<le> a'
    \<and> ((a', b', c') = (a, b, c) \<or> a < a' \<and> (b', a') \<in> set (dice_from ge (gw_drawn w) (takers P vs)) \<and> (b', c') \<in> set vs \<and> P c')"
  using assms
proof (induction vs arbitrary: a b c w)
  case (Cons e vs)
  obtain guid v where e: "e = (guid, v)" by (cases e)
  let ?n = "ge_urand ge (gw_drawn w)"
  let ?w = "SendLootRoll 0 guid ?n (code v) r (w\<lparr>gw_drawn := Suc (gw_drawn w)\<rparr>)"
  show ?case
  proof (cases "P v")
    case True
    then have step: "throw_dice ge r P code vs (if a < ?n then (?n, guid, v, ?w) else (a, b, c, ?w)) = (a', b', c', w')"
      using Cons.prems by (simp add: e Let_def)
    have drawn: "gw_drawn ?w = Suc (gw_drawn w)" by (simp add: SendLootRoll_def)
    show ?thesis
    proof (cases "a < ?n")
      case True
      with Cons.IH [of ?n guid v ?w] step \<open>P v\<close> show ?thesis by (auto simp: e drawn intro: less_le_trans order.strict_implies_order)
    next
      case False
      with Cons.IH [of a b c ?w] step \<open>P v\<close> show ?thesis by (auto simp: e drawn not_less intro: order_trans)
    qed
  qed (use Cons in \<open>auto simp: e\<close>)
qed simp

text \<open>The item of a roll.\<close>

lemma slot_on_slot: "loot_slot lo i = Some item \<Longrightarrow> loot_slot (on_slot i f lo) i = Some (f item)"
  by (auto simp: loot_slot_def on_slot_def Let_def split: if_splits)

lemma roll_item_cases:
  assumes "roll_item w r = Some item"
  obtains l lo where "ro_loot r = Some l" "gw_loots w l = Some lo" "loot_slot lo (unat (ro_itemSlot r)) = Some item"
  using assms by (auto simp: roll_item_def split: option.splits)

lemma roll_item_on_roll_item:
  assumes "roll_item w r = Some item"
  shows "roll_item (on_roll_item r f w) r = Some (f item)" "gw_fault (on_roll_item r f w) = gw_fault w"
  using assms by (auto simp: on_roll_item_def on_loot_def roll_item_def slot_on_slot split: option.splits)

lemma on_roll_item_frame [simp]:
  "gw_groups (on_roll_item r f w) = gw_groups w" "gw_players (on_roll_item r f w) = gw_players w" "gw_lfg (on_roll_item r f w) = gw_lfg w"
  "gw_log (on_roll_item r f w) = gw_log w" "gw_fresh (on_roll_item r f w) = gw_fresh w" "gw_GroupDbStore (on_roll_item r f w) = gw_GroupDbStore w"
  by (simp_all add: on_roll_item_def split: option.split)

lemma NotifyItemRemoved_frame [simp]:
  "gw_groups (NotifyItemRemoved l s w) = gw_groups w" "gw_players (NotifyItemRemoved l s w) = gw_players w" "gw_lfg (NotifyItemRemoved l s w) = gw_lfg w"
  "gw_fresh (NotifyItemRemoved l s w) = gw_fresh w" "gw_GroupDbStore (NotifyItemRemoved l s w) = gw_GroupDbStore w"
  by (simp_all add: NotifyItemRemoved_def split: option.split)

lemma take_item_frame [simp]:
  "gw_groups (take_item r w) = gw_groups w" "gw_players (take_item r w) = gw_players w" "gw_lfg (take_item r w) = gw_lfg w"
  "gw_fresh (take_item r w) = gw_fresh w" "gw_GroupDbStore (take_item r w) = gw_GroupDbStore w"
  by (simp_all add: take_item_def split: option.split)

lemma loot_slot_fields:
  "loot_slot (lo\<lparr>lo_PlayersLooting := a\<rparr>) i = loot_slot lo i" "loot_slot (lo\<lparr>lo_unlootedCount := n\<rparr>) i = loot_slot lo i"
  by (simp_all add: loot_slot_def)

lemma take_item_result:
  assumes "roll_item w r = Some item"
  shows "roll_item (take_item r w) r = Some (item\<lparr>li_is_looted := True\<rparr>)" "gw_fault (take_item r w) = gw_fault w" "quiet w (take_item r w)"
proof -
  from assms obtain l lo where l: "ro_loot r = Some l" "gw_loots w l = Some lo" "loot_slot lo (unat (ro_itemSlot r)) = Some item"
    by (rule roll_item_cases)
  then show "roll_item (take_item r w) r = Some (item\<lparr>li_is_looted := True\<rparr>)" "gw_fault (take_item r w) = gw_fault w" "quiet w (take_item r w)"
    by (auto simp: take_item_def on_roll_item_def NotifyItemRemoved_def on_loot_def roll_item_def slot_on_slot loot_slot_fields quiet_def)
qed

lemma frame_of_loots: "gw_loots w' = gw_loots w \<Longrightarrow> roll_item w' r = roll_item w r"
  by (simp add: roll_item_def cong: option.case_cong)

lemma roll_item_emit [simp]: "roll_item (emit es w) r = roll_item w r"
  by (rule frame_of_loots) simp

lemma connected_cong: "gw_players w' = gw_players w \<Longrightarrow> connected w' = connected w"
  by (simp add: connected_def FindPlayer_def fun_eq_iff)

lemma store_or_unblock_frame [simp]:
  "gw_groups (store_or_unblock ge r item guid w) = gw_groups w" "gw_players (store_or_unblock ge r item guid w) = gw_players w"
  "gw_lfg (store_or_unblock ge r item guid w) = gw_lfg w" "gw_fresh (store_or_unblock ge r item guid w) = gw_fresh w"
  "gw_GroupDbStore (store_or_unblock ge r item guid w) = gw_GroupDbStore w"
  by (simp_all add: store_or_unblock_def Let_def)

lemma store_or_unblock_result:
  fixes ge guid
  assumes "roll_item w r = Some item" "quiet w0 w"
  defines "room \<equiv> ge_canStore ge guid (ro_itemid r) (li_count item) = 0"
  shows "gw_fault (store_or_unblock ge r item guid w) = gw_fault w"
    and "received w0 (store_or_unblock ge r item guid w) = (if room then [guid] else [])"
    and "roll_item (store_or_unblock ge r item guid w) r = Some (if room then item\<lparr>li_is_looted := True\<rparr> else item\<lparr>li_is_blocked := False\<rparr>)"
proof -
  note t = take_item_result [OF assms(1)] and u = roll_item_on_roll_item [OF assms(1), of "\<lambda>i. i\<lparr>li_is_blocked := False\<rparr>"]
  have q: "quiet w0 (take_item r w)" "quiet w0 (on_roll_item r (\<lambda>i. i\<lparr>li_is_blocked := False\<rparr>) w)"
    using quiet_trans [OF assms(2)] t(3) quiet_same_log by simp_all
  show "gw_fault (store_or_unblock ge r item guid w) = gw_fault w" by (simp add: store_or_unblock_def Let_def t u)
  show "received w0 (store_or_unblock ge r item guid w) = (if room then [guid] else [])"
    by (simp add: store_or_unblock_def Let_def room_def received_emit q List.map_filter_def)
  show "roll_item (store_or_unblock ge r item guid w) r = Some (if room then item\<lparr>li_is_looted := True\<rparr> else item\<lparr>li_is_blocked := False\<rparr>)"
    using t(1) u(1) by (simp add: store_or_unblock_def Let_def room_def)
qed

section \<open>Who wins\<close>

lemma award_need_frames: "gw_groups (award_need ge r w) = gw_groups w \<and> gw_players (award_need ge r w) = gw_players w \<and> gw_lfg (award_need ge r w) = gw_lfg w \<and> gw_fresh (award_need ge r w) = gw_fresh w \<and> gw_GroupDbStore (award_need ge r w) = gw_GroupDbStore w"
proof (cases "ro_playerVote r")
  case (Cons e vs)
  then obtain first v0 where e: "ro_playerVote r = (first, v0) # vs" by (cases e) simp
  obtain a guid v w1 where t: "throw_dice ge r (\<lambda>v. v = NEED) (\<lambda>v. ROLL_NEED) ((first, v0) # vs) (0, first, NOT_VALID, w) = (a, guid, v, w1)"
    using prod_cases4 by blast
  show ?thesis using throw_dice_frame [OF t] by (simp add: award_need_def Let_def e t del: throw_dice.simps split: option.split)
qed (simp add: award_need_def)

lemmas award_need_frame [simp] = award_need_frames [THEN conjunct1] award_need_frames [THEN conjunct2, THEN conjunct1]
  award_need_frames [THEN conjunct2, THEN conjunct2, THEN conjunct1] award_need_frames [THEN conjunct2, THEN conjunct2, THEN conjunct2, THEN conjunct1]
  award_need_frames [THEN conjunct2, THEN conjunct2, THEN conjunct2, THEN conjunct2]

lemma award_greed_frames: "gw_groups (award_greed ge r w) = gw_groups w \<and> gw_players (award_greed ge r w) = gw_players w \<and> gw_lfg (award_greed ge r w) = gw_lfg w \<and> gw_fresh (award_greed ge r w) = gw_fresh w \<and> gw_GroupDbStore (award_greed ge r w) = gw_GroupDbStore w"
proof (cases "ro_playerVote r")
  case (Cons e vs)
  then obtain first v0 where e: "ro_playerVote r = (first, v0) # vs" by (cases e) simp
  obtain a guid v w1 where t: "throw_dice ge r is_greed RollVote_code ((first, v0) # vs) (0, first, NOT_VALID, w) = (a, guid, v, w1)"
    using prod_cases4 by blast
  show ?thesis using throw_dice_frame [OF t] by (simp add: award_greed_def Let_def e t del: throw_dice.simps split: option.split)
qed (simp add: award_greed_def)

lemmas award_greed_frame [simp] = award_greed_frames [THEN conjunct1] award_greed_frames [THEN conjunct2, THEN conjunct1]
  award_greed_frames [THEN conjunct2, THEN conjunct2, THEN conjunct1] award_greed_frames [THEN conjunct2, THEN conjunct2, THEN conjunct2, THEN conjunct1]
  award_greed_frames [THEN conjunct2, THEN conjunct2, THEN conjunct2, THEN conjunct2]

lemma all_passed_frame [simp]:
  "gw_groups (all_passed r w) = gw_groups w" "gw_players (all_passed r w) = gw_players w"
  "gw_lfg (all_passed r w) = gw_lfg w" "gw_fresh (all_passed r w) = gw_fresh w" "gw_GroupDbStore (all_passed r w) = gw_GroupDbStore w"
  by (auto simp: all_passed_def Let_def split: option.split)

text \<open>The winner is known; nothing has been given yet.\<close>

lemma dice_settled:
  assumes t: "throw_dice ge r P code vs (0, first, NOT_VALID, w) = (a, guid, v, w1)"
    and some: "takers P vs \<noteq> []" and dice: "\<forall>n. 1 \<le> ge_urand ge n"
  shows "(guid, a) \<in> set (dice_from ge (gw_drawn w) (takers P vs))" "\<forall>x \<in> set (dice_from ge (gw_drawn w) (takers P vs)). snd x \<le> a"
    "(guid, v) \<in> set vs" "P v"
proof -
  note win = throw_dice_winner [OF t]
  obtain g gs where "takers P vs = g # gs" using some by (cases "takers P vs") auto
  then have "1 \<le> a" using win dice by (auto intro: order_trans)
  then have "a \<noteq> 0" by auto
  then show "(guid, a) \<in> set (dice_from ge (gw_drawn w) (takers P vs))" "\<forall>x \<in> set (dice_from ge (gw_drawn w) (takers P vs)). snd x \<le> a"
    "(guid, v) \<in> set vs" "P v" using win by auto
qed

lemma dice_world:
  fixes k
  assumes t: "throw_dice ge r P code vs st = (a, guid, v, w1)" "st = (n, first, v0, w)" and item: "roll_item w r = Some item"
  defines "w2 \<equiv> SendLootRollWon 0 guid a k r w1"
  shows "roll_item w2 r = Some item" "connected w2 guid = connected w guid" "quiet w w2" "gw_fault w2 = gw_fault w"
proof -
  note fr = throw_dice_frame [OF t(1) [unfolded t(2)]]
  have "gw_loots w2 = gw_loots w" "gw_players w2 = gw_players w" "gw_fault w2 = gw_fault w" using fr by (simp_all add: w2_def)
  then show "roll_item w2 r = Some item" "connected w2 guid = connected w guid" "gw_fault w2 = gw_fault w"
    using item frame_of_loots connected_cong by metis+
  show "quiet w w2" unfolding w2_def using fr quiet_trans quiet_packets(2) by blast
qed

definition wins :: "group_env \<Rightarrow> Roll \<Rightarrow> (RollVote \<Rightarrow> bool) \<Rightarrow> group_world \<Rightarrow> uint64 \<Rightarrow> bool" where
  "wins ge r P w guid \<longleftrightarrow> (\<exists>die. let dice = dice_from ge (gw_drawn w) (takers P (ro_playerVote r))
     in (guid, die) \<in> set dice \<and> (\<forall>x \<in> set dice. snd x \<le> die))"

lemma award_need_result:
  assumes item: "roll_item w r = Some item" and some: "takers (\<lambda>v. v = NEED) (ro_playerVote r) \<noteq> []" and dice: "\<forall>n. 1 \<le> ge_urand ge n"
    and w0: "quiet w0 w"
  shows "\<exists>guid. wins ge r (\<lambda>v. v = NEED) w guid \<and> gw_fault (award_need ge r w) = gw_fault w
    \<and> received w0 (award_need ge r w) = (if connected w guid \<and> ge_canStore ge guid (ro_itemid r) (li_count item) = 0 then [guid] else [])"
proof -
  obtain first v0 vs where vs: "ro_playerVote r = (first, v0) # vs" using some by (cases "ro_playerVote r") auto
  obtain a guid v w1 where t: "throw_dice ge r (\<lambda>v. v = NEED) (\<lambda>v. ROLL_NEED) (ro_playerVote r) (0, first, NOT_VALID, w) = (a, guid, v, w1)"
    using prod_cases4 by blast
  note d = dice_settled [OF t some dice]
  note e = dice_world [OF t refl item, of ROLL_NEED]
  let ?w = "emit [UpdateAchievementCriteria guid 50 (ro_itemid r) (ucast a)] (SendLootRollWon 0 guid a ROLL_NEED r w1)"
  have q: "quiet w0 ?w" by (rule quiet_trans [OF quiet_trans [OF w0 e(3)] quiet_emit]) simp
  have it: "roll_item ?w r = Some item" using e(1) by simp
  have "award_need ge r w = (if connected w guid then store_or_unblock ge r item guid ?w else SendLootRollWon 0 guid a ROLL_NEED r w1)"
    using e(2) it by (simp add: award_need_def Let_def vs t [unfolded vs] del: throw_dice.simps)
  moreover note store_or_unblock_result [OF it q, where ge = ge and guid = guid]
  moreover have "wins ge r (\<lambda>v. v = NEED) w guid" using d(1,2) by (auto simp: wins_def Let_def)
  ultimately show ?thesis using e(4) received_quiet [OF quiet_trans [OF w0 e(3)]] by (intro exI [of _ guid]) auto
qed


lemma award_greed_result:
  assumes item: "roll_item w r = Some item" and some: "takers is_greed (ro_playerVote r) \<noteq> []" and dice: "\<forall>n. 1 \<le> ge_urand ge n"
    and proto: "ge_item ge (ro_itemid r) \<noteq> None" and wf: "map_wf (ro_playerVote r)"
  shows "\<exists>guid. wins ge r is_greed w guid \<and> gw_fault (award_greed ge r w) = gw_fault w
    \<and> received w (award_greed ge r w) =
        (if connected w guid \<and> (map_of (ro_playerVote r) guid = Some DISENCHANT \<or> ge_canStore ge guid (ro_itemid r) (li_count item) = 0)
         then [guid] else [])"
proof -
  obtain first v0 vs where vs: "ro_playerVote r = (first, v0) # vs" using some by (cases "ro_playerVote r") auto
  obtain a guid v w1 where t: "throw_dice ge r is_greed RollVote_code (ro_playerVote r) (0, first, NOT_VALID, w) = (a, guid, v, w1)"
    using prod_cases4 by blast
  note d = dice_settled [OF t some dice]
  note e = dice_world [OF t refl item, of "RollVote_code v"]
  obtain proto' where pr: "ge_item ge (ro_itemid r) = Some proto'" using proto by auto
  let ?u = "SendLootRollWon 0 guid a (RollVote_code v) r w1"
  let ?w = "emit [UpdateAchievementCriteria guid 51 (ro_itemid r) (ucast a)] ?u"
  have q: "quiet w ?w" by (rule quiet_trans [OF e(3) quiet_emit]) simp
  have it: "roll_item ?w r = Some item" using e(1) by simp
  note ti = take_item_result [OF it]
  have eq: "award_greed ge r w = (if \<not> connected w guid then ?u else if v = GREED then store_or_unblock ge r item guid ?w
      else emit [AutoStoreLoot guid (it_DisenchantID proto'), UpdateAchievementCriteria guid 29 13262 0] (take_item r ?w))"
    using e(2) it d(4) pr by (auto simp: award_greed_def Let_def vs t [unfolded vs] simp del: throw_dice.simps)
  have v: "map_of (ro_playerVote r) guid = Some v" using d(3) map_wf_find [OF wf] by simp
  have "wins ge r is_greed w guid" using d(1,2) by (auto simp: wins_def Let_def)
  moreover note store_or_unblock_result [OF it q, where ge = ge and guid = guid]
  moreover have "received w (emit [AutoStoreLoot guid (it_DisenchantID proto'), UpdateAchievementCriteria guid 29 13262 0] (take_item r ?w)) = [guid]"
    using received_emit [OF quiet_trans [OF q ti(3)]] by (simp add: List.map_filter_def)
  ultimately show ?thesis using e(3,4) received_quiet ti(2) d(4) v eq by (intro exI [of _ guid]) auto
qed

lemma all_passed_result:
  assumes "roll_item w r = Some item"
  shows "roll_item (all_passed r w) r = Some (item\<lparr>li_is_blocked := False\<rparr>)" "gw_fault (all_passed r w) = gw_fault w" "received w (all_passed r w) = []"
proof -
  have "roll_item (SendLootAllPassed r w) r = Some item" using assms by (simp add: frame_of_loots [of "SendLootAllPassed r w" w])
  note u = roll_item_on_roll_item [OF this, of "\<lambda>i. i\<lparr>li_is_blocked := False\<rparr>"] this
  then show "roll_item (all_passed r w) r = Some (item\<lparr>li_is_blocked := False\<rparr>)" "gw_fault (all_passed r w) = gw_fault w"
    by (simp_all add: all_passed_def Let_def)
  show "received w (all_passed r w) = []"
    using u received_quiet [OF quiet_packets(3), of w r]
      received_same_log [of "on_roll_item r (\<lambda>i. i\<lparr>li_is_blocked := False\<rparr>) (SendLootAllPassed r w)" "SendLootAllPassed r w" w]
    by (simp add: all_passed_def Let_def)
qed

lemma dice_from_takers: "(guid, n) \<in> set (dice_from ge k (takers P vs)) \<Longrightarrow> \<exists>v. (guid, v) \<in> set vs \<and> P v"
  by (induction vs arbitrary: k) (auto split: if_splits)

lemma takers_empty: "takers P vs = [] \<longleftrightarrow> vote_count P vs = 0"
  by (simp add: takers_def vote_count_def)

lemma erase_roll_result:
  assumes "gw_groups w p = Some g"
  shows "g_rolls (grp (erase_roll p i w) p) = take i (g_rolls g) @ drop (Suc i) (g_rolls g)"
    "gw_log (erase_roll p i w) = gw_log w" "gw_fault (erase_roll p i w) = gw_fault w" "gw_loots (erase_roll p i w) = gw_loots w"
  using assms by (simp_all add: erase_roll_def on_grp_def grp_def)

lemma CountTheRoll_award:
  assumes g: "gw_groups w p = Some g" and r: "i < length (g_rolls g)" "r = g_rolls g ! i"
    and exact: "votes_exact r" and item: "roll_item w r = Some item" and proto: "ge_item ge (ro_itemid r) \<noteq> None"
    and dice: "\<forall>n. 1 \<le> ge_urand ge n"
  defines "P \<equiv> (if NEED \<in> snd ` set (ro_playerVote r) then (\<lambda>v. v = NEED) else is_greed)"
  defines "w' \<equiv> CountTheRoll ge p i w"
  shows "gw_fault w' = gw_fault w \<and> g_rolls (grp w' p) = take i (g_rolls g) @ drop (Suc i) (g_rolls g)
    \<and> (if takers P (ro_playerVote r) = [] then received w w' = [] \<and> roll_item w' r = Some (item\<lparr>li_is_blocked := False\<rparr>)
       else \<exists>guid. wins ge r P w guid
              \<and> received w w' = (if connected w guid \<and> (map_of (ro_playerVote r) guid = Some DISENCHANT \<or> ge_canStore ge guid (ro_itemid r) (li_count item) = 0)
                                  then [guid] else []))"
proof -
  let ?vs = "ro_playerVote r"
  have wf: "map_wf ?vs" using exact by (simp add: votes_exact_def)
  have valid: "roll_valid r" using item by (auto simp: roll_valid_def elim: roll_item_cases)
  have "0 < ro_totalNeed r \<longleftrightarrow> vote_count (\<lambda>v. v = NEED) ?vs \<noteq> 0" and greed: "0 < ro_totalGreed r \<longleftrightarrow> takers is_greed ?vs \<noteq> []"
    using exact unfolding takers_empty by (auto simp: votes_exact_def word_neq_0_conv [symmetric] simp flip: unat_eq_zero)
  then have need: "0 < ro_totalNeed r \<longleftrightarrow> NEED \<in> snd ` set ?vs" unfolding vote_count_zero by force
  let ?u = "if 0 < ro_totalNeed r then award_need ge r w else if 0 < ro_totalGreed r then award_greed ge r w else all_passed r w"
  have w': "w' = erase_roll p i ?u" using valid r g by (simp add: w'_def CountTheRoll_def Let_def grp_def)
  have u: "gw_groups ?u p = Some g" using g by simp
  note er = erase_roll_result [OF u, of i, folded w']
  have re: "received w w' = received w ?u" by (rule received_same_log [OF er(2)])
  have ri: "roll_item w' r = roll_item ?u r" by (rule frame_of_loots [OF er(4)])
  show ?thesis
  proof (cases "0 < ro_totalNeed r")
    case True
    then have P: "P = (\<lambda>v. v = NEED)" and some: "takers P ?vs \<noteq> []" using need by (force simp: P_def takers_def filter_empty_conv)+
    obtain guid where guid: "wins ge r P w guid" "gw_fault ?u = gw_fault w"
      "received w ?u = (if connected w guid \<and> ge_canStore ge guid (ro_itemid r) (li_count item) = 0 then [guid] else [])"
      using award_need_result [OF item some [unfolded P] dice quiet_same_log [OF refl]] True P by auto
    have "(guid, NEED) \<in> set ?vs" using guid(1) P by (auto simp: wins_def Let_def dest!: dice_from_takers)
    then have "map_of ?vs guid = Some NEED" using map_wf_find [OF wf] by simp
    then have "wins ge r P w guid \<and> received w w' = (if connected w guid \<and> (map_of ?vs guid = Some DISENCHANT
        \<or> ge_canStore ge guid (ro_itemid r) (li_count item) = 0) then [guid] else [])" by (simp add: re guid(1,3))
    then show ?thesis unfolding er(1,3) guid(2) if_not_P [OF some] by blast
  next
    case False
    then have P: "P = is_greed" using need by (simp add: P_def)
    show ?thesis
    proof (cases "0 < ro_totalGreed r")
      case True
      then show ?thesis using award_greed_result [OF item _ dice proto wf] False P greed re er by auto
    next
      case g0: False
      then show ?thesis using all_passed_result [OF item] False P greed re ri er by auto
    qed
  qed
qed

text \<open>
  C7.  The end of a roll whose counters agree with its votes: if somebody needs the item, dice are thrown among those who
  need it, otherwise among those who want it or want to disenchant it; the winner has the highest
  number and nobody else receives anything; he receives the item if he is connected and can store it (for
  a disenchanted item the latter is not needed).  If all have passed nobody receives the item and it is free again.
  In each case the roll is over and nothing else of the group has changed.
\<close>

theorem roll_award:
  assumes g: "gw_groups w p = Some g" and r: "i < length (g_rolls g)" "r = g_rolls g ! i"
    and exact: "votes_exact r" and item: "roll_item w r = Some item" and proto: "ge_item ge (ro_itemid r) \<noteq> None"
    and dice: "\<forall>n. 1 \<le> ge_urand ge n"
  defines "P \<equiv> (if NEED \<in> snd ` set (ro_playerVote r) then (\<lambda>v. v = NEED) else is_greed)"
  defines "w' \<equiv> CountTheRoll ge p i w"
  shows "gw_fault w' = gw_fault w \<and> g_rolls (grp w' p) = take i (g_rolls g) @ drop (Suc i) (g_rolls g)
    \<and> (if takers P (ro_playerVote r) = [] then received w w' = [] \<and> roll_item w' r = Some (item\<lparr>li_is_blocked := False\<rparr>)
       else \<exists>guid. wins ge r P w guid
              \<and> received w w' = (if connected w guid \<and> (map_of (ro_playerVote r) guid = Some DISENCHANT \<or> ge_canStore ge guid (ro_itemid r) (li_count item) = 0)
                                  then [guid] else []))"
  unfolding P_def w'_def by (rule CountTheRoll_award [OF g r exact item proto dice])

section \<open>Votes and the end of the time\<close>

lemma CountTheRoll_groups:
  assumes "gw_groups w p = Some g"
  shows "gw_groups (CountTheRoll ge p i w) = (gw_groups w)(p \<mapsto> g\<lparr>g_rolls := take i (g_rolls g) @ drop (Suc i) (g_rolls g)\<rparr>)"
  using assms by (simp add: CountTheRoll_def Let_def erase_roll_def on_grp_def)

lemma CountTheRoll_frame [simp]:
  "gw_players (CountTheRoll ge p i w) = gw_players w" "gw_lfg (CountTheRoll ge p i w) = gw_lfg w"
  "gw_fresh (CountTheRoll ge p i w) = gw_fresh w" "gw_GroupDbStore (CountTheRoll ge p i w) = gw_GroupDbStore w"
  by (simp_all add: CountTheRoll_def Let_def erase_roll_def)

lemma find_index_Some:
  "find_index P xs = Some i \<Longrightarrow> i < length xs \<and> P (xs ! i)"
  by (induction xs arbitrary: i) (auto split: if_splits)

lemma find_index_None: "find_index P xs = None \<longleftrightarrow> (\<forall>x \<in> set xs. \<not> P x)"
  by (induction xs) auto

lemma find_index_update:
  "P (f (xs ! i)) = P (xs ! i) \<Longrightarrow> i < length xs \<Longrightarrow> find_index P (xs[i := f (xs ! i)]) = find_index P xs"
proof (induction xs arbitrary: i)
  case (Cons x xs)
  then show ?case by (cases i) auto
qed simp

lemma filter_without:
  assumes "i < length xs" "P (xs ! i)"
  shows "filter (\<lambda>x. \<not> P x) (take i xs @ drop (Suc i) xs) = filter (\<lambda>x. \<not> P x) xs"
    "Suc (length (filter P (take i xs @ drop (Suc i) xs))) = length (filter P xs)"
proof -
  obtain ys x zs where "xs = ys @ x # zs" "i = length ys" using assms(1) id_take_nth_drop [of i xs] by (metis length_take min.absorb4)
  then show "filter (\<lambda>x. \<not> P x) (take i xs @ drop (Suc i) xs) = filter (\<lambda>x. \<not> P x) xs"
    "Suc (length (filter P (take i xs @ drop (Suc i) xs))) = length (filter P xs)"
    using assms(2) by simp_all
qed

text \<open>Settling a roll takes no slot of a loot away.\<close>

definition keeps_slots :: "group_world \<Rightarrow> group_world \<Rightarrow> bool" where
  "keeps_slots w w' \<longleftrightarrow> (\<forall>x. roll_item w x \<noteq> None \<longrightarrow> roll_item w' x \<noteq> None)"

lemma keeps_slots_trans: "keeps_slots w w1 \<Longrightarrow> keeps_slots w1 w2 \<Longrightarrow> keeps_slots w w2"
  by (simp add: keeps_slots_def)

lemma keeps_slots_same: "gw_loots w' = gw_loots w \<Longrightarrow> keeps_slots w w'"
  by (simp add: keeps_slots_def frame_of_loots [of w' w])

lemma keeps_slots_emit: "keeps_slots w w' \<Longrightarrow> keeps_slots w (emit es w')"
  by (simp add: keeps_slots_def)

lemma keeps_slots_on_loot:
  assumes "\<And>lo i. loot_slot (f lo) i = None \<longleftrightarrow> loot_slot lo i = None"
  shows "keeps_slots w (on_loot l f w)"
proof (cases "gw_loots w l")
  case (Some lo)
  have "roll_item (on_loot l f w) x \<noteq> None" if "roll_item w x \<noteq> None" for x
    using that Some assms [of lo "unat (ro_itemSlot x)"] by (auto simp: on_loot_def roll_item_def split: option.splits if_splits)
  then show ?thesis by (simp add: keeps_slots_def)
qed (simp add: on_loot_def keeps_slots_same)

lemma on_slot_None: "loot_slot (on_slot j f lo) i = None \<longleftrightarrow> loot_slot lo i = None"
  by (simp add: loot_slot_def on_slot_def Let_def)

lemma keeps_slots_on_roll_item: "keeps_slots w (on_roll_item r f w)"
  by (cases "ro_loot r") (simp_all add: on_roll_item_def keeps_slots_same keeps_slots_on_loot on_slot_None)

lemma keeps_slots_NotifyItemRemoved: "keeps_slots w (NotifyItemRemoved l i w)"
  by (cases "gw_loots w l") (simp_all add: NotifyItemRemoved_def keeps_slots_same keeps_slots_emit keeps_slots_on_loot loot_slot_fields)

lemma keeps_slots_take_item: "keeps_slots w (take_item r w)"
proof (cases "ro_loot r")
  case (Some l)
  have "keeps_slots w (NotifyItemRemoved l (ro_itemSlot r) (on_roll_item r (\<lambda>i. i\<lparr>li_is_looted := True\<rparr>) w))"
    by (rule keeps_slots_trans [OF keeps_slots_on_roll_item keeps_slots_NotifyItemRemoved])
  from keeps_slots_trans [OF this keeps_slots_on_loot] Some show ?thesis by (simp add: take_item_def loot_slot_fields)
qed (simp add: take_item_def keeps_slots_same)

lemma keeps_slots_store: "keeps_slots w (store_or_unblock ge r item guid w)"
  by (simp add: store_or_unblock_def Let_def keeps_slots_emit keeps_slots_take_item keeps_slots_on_roll_item)

lemma keeps_slots_award_need: "keeps_slots w (award_need ge r w)"
proof (cases "ro_playerVote r")
  case (Cons e vs)
  then obtain first v0 where e: "ro_playerVote r = (first, v0) # vs" by (cases e) simp
  obtain a guid v w1 where t: "throw_dice ge r (\<lambda>v. v = NEED) (\<lambda>v. ROLL_NEED) ((first, v0) # vs) (0, first, NOT_VALID, w) = (a, guid, v, w1)"
    using prod_cases4 by blast
  have "keeps_slots w (SendLootRollWon 0 guid a ROLL_NEED r w1)" using throw_dice_frame [OF t] by (intro keeps_slots_same) simp
  then show ?thesis
    by (auto simp: award_need_def Let_def e t simp del: throw_dice.simps split: option.split
        intro: keeps_slots_emit keeps_slots_trans [OF _ keeps_slots_same] keeps_slots_trans [OF keeps_slots_emit keeps_slots_store])
qed (simp add: award_need_def keeps_slots_same)

lemma keeps_slots_award_greed: "keeps_slots w (award_greed ge r w)"
proof (cases "ro_playerVote r")
  case (Cons e vs)
  then obtain first v0 where e: "ro_playerVote r = (first, v0) # vs" by (cases e) simp
  obtain a guid v w1 where t: "throw_dice ge r is_greed RollVote_code ((first, v0) # vs) (0, first, NOT_VALID, w) = (a, guid, v, w1)"
    using prod_cases4 by blast
  have "keeps_slots w (SendLootRollWon 0 guid a (RollVote_code v) r w1)" using throw_dice_frame [OF t] by (intro keeps_slots_same) simp
  then show ?thesis
    by (auto simp: award_greed_def Let_def e t simp del: throw_dice.simps split: option.split
        intro: keeps_slots_emit keeps_slots_trans [OF _ keeps_slots_same] keeps_slots_trans [OF keeps_slots_emit keeps_slots_store]
          keeps_slots_emit [OF keeps_slots_trans [OF keeps_slots_emit keeps_slots_take_item]]
          keeps_slots_trans [OF keeps_slots_trans [OF keeps_slots_emit keeps_slots_take_item] keeps_slots_same])
qed (simp add: award_greed_def keeps_slots_same)

lemma keeps_slots_all_passed: "keeps_slots w (all_passed r w)"
proof -
  have "keeps_slots w (SendLootAllPassed r w)" by (rule keeps_slots_same) simp
  then show ?thesis
    by (auto simp: all_passed_def Let_def split: option.split
        intro: keeps_slots_trans [OF _ keeps_slots_same] keeps_slots_trans [OF _ keeps_slots_on_roll_item])
qed

lemma keeps_slots_CountTheRoll: "keeps_slots w (CountTheRoll ge p i w)"
proof -
  have "keeps_slots u (erase_roll p i u)" for u by (rule keeps_slots_same) (simp add: erase_roll_def on_grp_def fault_def split: option.split)
  then show ?thesis
    unfolding CountTheRoll_def Let_def
    by (auto intro: keeps_slots_trans [OF keeps_slots_award_need] keeps_slots_trans [OF keeps_slots_award_greed] keeps_slots_trans [OF keeps_slots_all_passed])
qed

text \<open>
  A roll as the code starts it: its counters agree with its votes, its item is in the loot and has a
  template.  What its end does with the item: the winner of the dice, among those who need it or otherwise
  among those who want it, receives it if he is there and can take it; if nobody wants it, it is free again.
\<close>

definition roll_ready :: "group_env \<Rightarrow> group_world \<Rightarrow> Roll \<Rightarrow> bool" where
  "roll_ready ge w r \<longleftrightarrow> votes_exact r \<and> roll_item w r \<noteq> None \<and> ge_item ge (ro_itemid r) \<noteq> None"

definition awarded :: "group_env \<Rightarrow> Roll \<Rightarrow> group_world \<Rightarrow> group_world \<Rightarrow> bool" where
  "awarded ge r w w' \<longleftrightarrow>
     (let P = (if NEED \<in> snd ` set (ro_playerVote r) then (\<lambda>v. v = NEED) else is_greed); item = the (roll_item w r)
      in if takers P (ro_playerVote r) = [] then received w w' = [] \<and> roll_item w' r = Some (item\<lparr>li_is_blocked := False\<rparr>)
         else \<exists>guid. wins ge r P w guid
                \<and> received w w' = (if connected w guid \<and> (map_of (ro_playerVote r) guid = Some DISENCHANT \<or> ge_canStore ge guid (ro_itemid r) (li_count item) = 0)
                                    then [guid] else []))"

definition counted :: "group_env \<Rightarrow> gptr \<Rightarrow> Roll \<Rightarrow> group_world \<Rightarrow> group_world \<Rightarrow> bool" where
  "counted ge p r w w' \<longleftrightarrow> (\<exists>i < length (g_rolls (grp w p)). g_rolls (grp w p) ! i = r \<and> w' = CountTheRoll ge p i w)"

lemma ready_awarded:
  assumes "counted ge p r w w'" "roll_ready ge w r" "\<forall>n. 1 \<le> ge_urand ge n"
  shows "gw_fault w' = gw_fault w \<and> awarded ge r w w'"
proof -
  obtain i where i: "i < length (g_rolls (grp w p))" "g_rolls (grp w p) ! i = r" "w' = CountTheRoll ge p i w" using assms(1) by (auto simp: counted_def)
  then obtain g where g: "gw_groups w p = Some g" by (auto simp: grp_def Group_new_def split: option.splits)
  then have gr: "grp w p = g" by (simp add: grp_def)
  obtain item where it: "roll_item w r = Some item" using assms(2) by (auto simp: roll_ready_def)
  have "votes_exact r" "ge_item ge (ro_itemid r) \<noteq> None" using assms(2) by (simp_all add: roll_ready_def)
  from CountTheRoll_award [OF g i(1) [unfolded gr] i(2) [unfolded gr, symmetric] this(1) it this(2) assms(3)]
  show ?thesis unfolding i(3) awarded_def Let_def it option.sel by blast
qed

lemma ready_kept: "keeps_slots w w' \<Longrightarrow> roll_ready ge w r \<Longrightarrow> roll_ready ge w' r"
  by (simp add: keeps_slots_def roll_ready_def)

lemma filter_find_index:
  "find_index P xs = Some i \<Longrightarrow> filter P xs = xs ! i # filter P (take i xs @ drop (Suc i) xs)"
  by (induction xs arbitrary: i) (auto split: if_splits)

text \<open>The worlds between the turns of the loop.\<close>

lemma end_rolls_returns:
  assumes "length (filter (\<lambda>r. ro_loot r = Some l) (g_rolls (grp w p))) \<le> n" "rs = filter (\<lambda>r. ro_loot r = Some l) (g_rolls (grp w p))"
  shows "\<exists>ws. length ws = Suc (length rs) \<and> ws ! 0 = w \<and> end_rolls ge p l n w = Some (ws ! length rs)
    \<and> (\<forall>k < length rs. counted ge p (rs ! k) (ws ! k) (ws ! Suc k))
    \<and> g_rolls (grp (ws ! length rs) p) = filter (\<lambda>r. ro_loot r \<noteq> Some l) (g_rolls (grp w p))"
  using assms
proof (induction n arbitrary: w rs)
  case 0
  then have "\<forall>r \<in> set (g_rolls (grp w p)). ro_loot r \<noteq> Some l" "rs = []" by (simp_all add: filter_empty_conv)
  then show ?case by (intro exI [of _ "[w]"]) (simp add: find_index_None filter_id_conv)
next
  case (Suc n)
  let ?rs = "g_rolls (grp w p)" and ?P = "\<lambda>r. ro_loot r = Some l"
  show ?case
  proof (cases "find_index ?P ?rs")
    case None
    then have "\<forall>r \<in> set ?rs. ro_loot r \<noteq> Some l" by (simp add: find_index_None)
    then show ?thesis using None Suc.prems(2) by (intro exI [of _ "[w]"]) (simp add: filter_id_conv filter_empty_conv)
  next
    case (Some i)
    define w1 where "w1 = CountTheRoll ge p i w"
    have i: "i < length ?rs" "?P (?rs ! i)" using Some by (auto dest: find_index_Some)
    then obtain g where "gw_groups w p = Some g" by (auto simp: grp_def Group_new_def split: option.splits)
    then have rolls: "g_rolls (grp w1 p) = take i ?rs @ drop (Suc i) ?rs" by (simp add: grp_def CountTheRoll_groups w1_def)
    have rs: "rs = ?rs ! i # filter ?P (g_rolls (grp w1 p))" unfolding Suc.prems(2) rolls by (rule filter_find_index [OF Some])
    then have "length (filter ?P (g_rolls (grp w1 p))) \<le> n" using Suc.prems by (metis Suc_le_mono length_Cons)
    from Suc.IH [OF this refl] obtain ws where
      ws: "length ws = length rs" "ws ! 0 = w1" "end_rolls ge p l n w1 = Some (ws ! length (tl rs))"
        "\<forall>k < length (tl rs). counted ge p (tl rs ! k) (ws ! k) (ws ! Suc k)"
        "g_rolls (grp (ws ! length (tl rs)) p) = filter (\<lambda>r. ro_loot r \<noteq> Some l) (g_rolls (grp w1 p))"
      by (auto simp: rs)
    have "counted ge p (rs ! 0) w w1" using i(1) by (auto simp: counted_def rs w1_def)
    then have "\<forall>k < length rs. counted ge p (rs ! k) ((w # ws) ! k) ((w # ws) ! Suc k)"
      using ws(2,4) rs by (auto simp: nth_Cons' less_Suc_eq_0_disj)
    moreover have "filter (\<lambda>r. ro_loot r \<noteq> Some l) (g_rolls (grp w1 p)) = filter (\<lambda>r. ro_loot r \<noteq> Some l) ?rs"
      unfolding rolls using filter_without(1) [of i ?rs ?P] i by simp
    ultimately show ?thesis using ws(1,3,5) rs Some by (intro exI [of _ "w # ws"]) (simp add: w1_def)
  qed
qed

lemma counted_rolls_ready:
  assumes "\<forall>k < length rs. counted ge p (rs ! k) (ws ! k) (ws ! Suc k)" "\<forall>r \<in> set rs. roll_ready ge (ws ! 0) r" "\<forall>n. 1 \<le> ge_urand ge n"
  shows "k \<le> length rs \<Longrightarrow> (\<forall>r \<in> set rs. roll_ready ge (ws ! k) r) \<and> gw_fault (ws ! k) = gw_fault (ws ! 0)"
proof (induction k)
  case (Suc k)
  then have k: "counted ge p (rs ! k) (ws ! k) (ws ! Suc k)" and r: "roll_ready ge (ws ! k) (rs ! k)" using assms(1) by auto
  have "keeps_slots (ws ! k) (ws ! Suc k)" using k keeps_slots_CountTheRoll by (auto simp: counted_def)
  with Suc ready_awarded [OF k r assms(3)] show ?case using ready_kept by auto
qed (use assms(2) in simp)

text \<open>
  C11.  When the time is over the loop over the rolls ends.  Every roll of the loot is counted once, in the order
  of the list, the rolls for other loots are left, and where the counters of the loot's rolls agree with their
  votes and their items are in the loot, nothing faults and each item goes to the winner of its dice, if he is
  there and can take it, or is free again if nobody wants it.
\<close>

theorem EndRoll_settles:
  fixes ge p l w
  defines "rs \<equiv> filter (\<lambda>r. ro_loot r = Some l) (g_rolls (grp w p))"
  shows "\<exists>ws. length ws = Suc (length rs) \<and> ws ! 0 = w \<and> EndRoll ge p l w = Some (ws ! length rs)
    \<and> (\<forall>k < length rs. counted ge p (rs ! k) (ws ! k) (ws ! Suc k))
    \<and> g_rolls (grp (ws ! length rs) p) = filter (\<lambda>r. ro_loot r \<noteq> Some l) (g_rolls (grp w p))
    \<and> ((\<forall>r \<in> set rs. roll_ready ge w r) \<and> (\<forall>n. 1 \<le> ge_urand ge n) \<longrightarrow>
         gw_fault (ws ! length rs) = gw_fault w \<and> (\<forall>k < length rs. awarded ge (rs ! k) (ws ! k) (ws ! Suc k)))"
proof -
  obtain ws where ws: "length ws = Suc (length rs)" "ws ! 0 = w" "EndRoll ge p l w = Some (ws ! length rs)"
    "\<forall>k < length rs. counted ge p (rs ! k) (ws ! k) (ws ! Suc k)"
    "g_rolls (grp (ws ! length rs) p) = filter (\<lambda>r. ro_loot r \<noteq> Some l) (g_rolls (grp w p))"
    using end_rolls_returns [of l w p "length (g_rolls (grp w p))" rs ge] by (auto simp: EndRoll_def rs_def)
  have "gw_fault (ws ! length rs) = gw_fault w \<and> (\<forall>k < length rs. awarded ge (rs ! k) (ws ! k) (ws ! Suc k))"
    if "\<forall>r \<in> set rs. roll_ready ge w r" and dice: "\<forall>n. 1 \<le> ge_urand ge n"
  proof -
    note ready = counted_rolls_ready [OF ws(4) that(1) [folded ws(2)] dice]
    have "awarded ge (rs ! k) (ws ! k) (ws ! Suc k)" if "k < length rs" for k
      using ready_awarded [OF ws(4) [rule_format, OF that] _ dice] ready [of k] that by simp
    with ready [of "length rs"] ws(2) show ?thesis by simp
  qed
  with ws show ?thesis by blast
qed

lemma tell_vote_frame [simp]:
  "gw_groups (tell_vote guid choice r w) = gw_groups w" "gw_players (tell_vote guid choice r w) = gw_players w"
  "gw_lfg (tell_vote guid choice r w) = gw_lfg w" "gw_loots (tell_vote guid choice r w) = gw_loots w" "gw_fault (tell_vote guid choice r w) = gw_fault w"
  "gw_fresh (tell_vote guid choice r w) = gw_fresh w" "gw_GroupDbStore (tell_vote guid choice r w) = gw_GroupDbStore w" "quiet w (tell_vote guid choice r w)"
  by (simp_all add: tell_vote_def quiet_same_log)

lemma voted_world:
  fixes choice
  assumes g: "gw_groups w p = Some g" and i: "GetRoll g item = Some i" and r: "r = g_rolls g ! i"
    and in_roll: "map_of (ro_playerVote r) guid \<noteq> None" "\<not> no_items w r"
  defines "w1 \<equiv> set_roll p i (cast_vote guid choice) (tell_vote guid choice r w)"
  shows "gw_groups w1 p = Some (g\<lparr>g_rolls := (g_rolls g)[i := cast_vote guid choice r]\<rparr>)" "gw_players w1 = gw_players w" "gw_loots w1 = gw_loots w"
    "quiet w w1" "CountRollVote ge p guid item choice w = (if all_voted (cast_vote guid choice r) then CountTheRoll ge p i w1 else w1)"
proof -
  have "grp w p = g" using g by (simp add: grp_def)
  then show "CountRollVote ge p guid item choice w = (if all_voted (cast_vote guid choice r) then CountTheRoll ge p i w1 else w1)"
    using i in_roll r by (auto simp: CountRollVote_def Let_def w1_def)
  show "gw_groups w1 p = Some (g\<lparr>g_rolls := (g_rolls g)[i := cast_vote guid choice r]\<rparr>)" "gw_players w1 = gw_players w" "gw_loots w1 = gw_loots w"
    using g r by (simp_all add: w1_def set_roll_def on_grp_def)
  have "gw_log w1 = gw_log (tell_vote guid choice r w)" using g by (simp add: w1_def set_roll_def on_grp_def)
  then show "quiet w w1" using quiet_trans [OF tell_vote_frame(8) quiet_same_log] by blast
qed



section \<open>Repeated votes\<close>

text \<open>Nothing keeps a player from voting again: every vote is counted, though only the last is recorded.\<close>

lemma cast_need_fields:
  "ro_playerVote (cast_vote me ROLL_NEED r) = map_put me NEED (ro_playerVote r)" "ro_totalNeed (cast_vote me ROLL_NEED r) = ro_totalNeed r + 1"
  "ro_totalPass (cast_vote me ROLL_NEED r) = ro_totalPass r" "ro_totalGreed (cast_vote me ROLL_NEED r) = ro_totalGreed r"
  "ro_totalPlayersRolling (cast_vote me ROLL_NEED r) = ro_totalPlayersRolling r" "ro_loot (cast_vote me ROLL_NEED r) = ro_loot r"
  "ro_itemSlot (cast_vote me ROLL_NEED r) = ro_itemSlot r" "ro_itemGUID (cast_vote me ROLL_NEED r) = ro_itemGUID r"
  "ro_itemid (cast_vote me ROLL_NEED r) = ro_itemid r"
  by (simp_all add: cast_vote_def)

lemma repeated_need_fields:
  fixes me r
  defines "R n \<equiv> (cast_vote me ROLL_NEED ^^ n) r"
  shows "ro_totalNeed (R n) = ro_totalNeed r + of_nat n" "ro_totalPass (R n) = ro_totalPass r" "ro_totalGreed (R n) = ro_totalGreed r"
    "ro_totalPlayersRolling (R n) = ro_totalPlayersRolling r" "ro_loot (R n) = ro_loot r" "ro_itemSlot (R n) = ro_itemSlot r"
    "ro_itemGUID (R n) = ro_itemGUID r" "ro_itemid (R n) = ro_itemid r"
    "ro_playerVote (R n) = (if n = 0 then ro_playerVote r else map_put me NEED (ro_playerVote r))"
  unfolding R_def by (induction n) (auto simp: cast_need_fields map_put_twice)

lemma repeated_need_count:
  assumes exact: "votes_exact r" and n: "n \<le> length (awaited r)"
  shows "unat (ro_totalNeed r + of_nat n) = unat (ro_totalNeed r) + n"
proof -
  let ?vs = "ro_playerVote r"
  have "length (awaited r) = vote_count (\<lambda>v. v = NOT_EMITED_YET) ?vs" by (simp add: awaited_def vote_count_def)
  then have "unat (ro_totalNeed r) + n < 256" using exact n votes_total [of ?vs] by (simp add: votes_exact_def)
  then show ?thesis by (simp add: unat_word_ariths(1) unat_of_nat)
qed

lemma repeated_need_ends:
  assumes exact: "votes_exact r" and n: "n \<le> length (awaited r)"
  shows "all_voted ((cast_vote me ROLL_NEED ^^ n) r) \<longleftrightarrow> n = length (awaited r)"
proof -
  let ?vs = "ro_playerVote r"
  have a: "length (awaited r) = vote_count (\<lambda>v. v = NOT_EMITED_YET) ?vs" by (simp add: awaited_def vote_count_def)
  show ?thesis using repeated_need_count [OF assms] exact n a votes_total [of ?vs] by (auto simp: all_voted_def repeated_need_fields votes_exact_def)
qed

lemma takers_put:
  assumes "map_wf vs" "map_of vs me = Some v" "\<forall>e \<in> set vs. snd e \<noteq> NEED"
  shows "takers (\<lambda>v. v = NEED) (map_put me NEED vs) = [me]"
  using assms
proof (induction vs)
  case (Cons e vs)
  have no: "takers (\<lambda>v. v = NEED) vs = []" using Cons.prems(3) by (simp add: takers_def filter_empty_conv)
  have "fst e < me" if "fst e \<noteq> me" using Cons.prems that by (auto dest!: map_of_SomeD split: if_splits)
  with Cons no show ?case by (cases e) (auto split: if_splits)
qed simp

text \<open>The world after so many votes that the roll is not yet over, and the next vote.\<close>

lemma repeated_need_vote:
  fixes n ge
  assumes g: "gw_groups w p = Some (g\<lparr>g_rolls := (g_rolls g)[i := (cast_vote me ROLL_NEED ^^ n) r]\<rparr>)"
    and loots: "gw_loots w = gw_loots w0" and i: "GetRoll g item = Some i" and r: "r = g_rolls g ! i"
    and exact: "votes_exact r" and in_roll: "me \<in> set (awaited r)" and items: "\<not> no_items w0 r"
  defines "R \<equiv> (cast_vote me ROLL_NEED ^^ Suc n) r"
  obtains w1 where "gw_groups w1 p = Some (g\<lparr>g_rolls := (g_rolls g)[i := R]\<rparr>)" "gw_players w1 = gw_players w"
    "gw_loots w1 = gw_loots w" "quiet w w1" "CountRollVote ge p me item ROLL_NEED w = (if all_voted R then CountTheRoll ge p i w1 else w1)"
proof -
  let ?R = "(cast_vote me ROLL_NEED ^^ n) r"
  let ?g = "g\<lparr>g_rolls := (g_rolls g)[i := ?R]\<rparr>"
  have len: "i < length (g_rolls g)" using i by (auto simp: GetRoll_def dest: find_index_Some)
  have i': "GetRoll ?g item = Some i"
    using i len r by (simp add: GetRoll_def find_index_update [of _ "cast_vote me ROLL_NEED ^^ n"] roll_valid_def repeated_need_fields)
  have wf: "map_wf (ro_playerVote r)" using exact by (simp add: votes_exact_def)
  have v: "map_of (ro_playerVote ?R) me \<noteq> None" using in_roll awaited_iff [OF wf] by (simp add: repeated_need_fields)
  have it: "\<not> no_items w ?R" using items loots by (simp add: no_items_def repeated_need_fields cong: option.case_cong)
  show ?thesis using that voted_world [OF g i' _ v it, where choice = ROLL_NEED] len by (simp add: R_def)
qed

lemma funpow_Suc: "(f ^^ Suc n) x = f ((f ^^ n) x)"
  by simp

lemma repeated_need_world:
  fixes n ge
  assumes g: "gw_groups w p = Some g" and i: "GetRoll g item = Some i" and r: "r = g_rolls g ! i"
    and exact: "votes_exact r" and in_roll: "me \<in> set (awaited r)" and items: "\<not> no_items w r" and n: "n < length (awaited r)"
  defines "wn \<equiv> (CountRollVote ge p me item ROLL_NEED ^^ n) w"
  shows "gw_groups wn p = Some (g\<lparr>g_rolls := (g_rolls g)[i := (cast_vote me ROLL_NEED ^^ n) r]\<rparr>)
    \<and> gw_players wn = gw_players w \<and> gw_loots wn = gw_loots w \<and> quiet w wn"
  using n unfolding wn_def
proof (induction n)
  case 0
  then show ?case using g r by (simp add: quiet_same_log)
next
  case (Suc n)
  let ?w = "(CountRollVote ge p me item ROLL_NEED ^^ n) w"
  have IH: "gw_groups ?w p = Some (g\<lparr>g_rolls := (g_rolls g)[i := (cast_vote me ROLL_NEED ^^ n) r]\<rparr>)"
    "gw_players ?w = gw_players w" "gw_loots ?w = gw_loots w" "quiet w ?w" using Suc by auto
  obtain w1 where w1: "gw_groups w1 p = Some (g\<lparr>g_rolls := (g_rolls g)[i := (cast_vote me ROLL_NEED ^^ Suc n) r]\<rparr>)" "gw_players w1 = gw_players ?w"
    "gw_loots w1 = gw_loots ?w" "quiet ?w w1"
    "CountRollVote ge p me item ROLL_NEED ?w = (if all_voted ((cast_vote me ROLL_NEED ^^ Suc n) r) then CountTheRoll ge p i w1 else w1)"
    by (rule repeated_need_vote [OF IH(1,3) i r exact in_roll items, where ge = ge])
  moreover have "\<not> all_voted ((cast_vote me ROLL_NEED ^^ Suc n) r)" using repeated_need_ends [OF exact, of "Suc n" me] Suc.prems by simp
  ultimately have "(CountRollVote ge p me item ROLL_NEED ^^ Suc n) w = w1" by (simp only: funpow_Suc if_False)
  then show ?case using w1(1-3) IH quiet_trans [OF IH(4) w1(4)] by (simp only:)
qed

text \<open>
  C38.  A defect: a player of a roll in which nobody has voted need can end it alone and take the item, by
  sending as many need votes as players, himself included, have still to vote.
\<close>

theorem repeated_need_takes_item:
  assumes g: "gw_groups w p = Some g" and i: "GetRoll g item = Some i" and r: "r = g_rolls g ! i"
    and exact: "votes_exact r" and in_roll: "me \<in> set (awaited r)" and items: "\<not> no_items w r"
    and no_need: "\<forall>e \<in> set (ro_playerVote r). snd e \<noteq> NEED" and it: "roll_item w r = Some loot"
    and me: "connected w me" "ge_canStore ge me (ro_itemid r) (li_count loot) = 0" and dice: "\<forall>n. 1 \<le> ge_urand ge n"
  shows "received w ((CountRollVote ge p me item ROLL_NEED ^^ length (awaited r)) w) = [me]"
proof -
  obtain n where n: "length (awaited r) = Suc n" using in_roll by (cases "awaited r") auto
  let ?w = "(CountRollVote ge p me item ROLL_NEED ^^ n) w" and ?R = "(cast_vote me ROLL_NEED ^^ Suc n) r"
  have W: "gw_groups ?w p = Some (g\<lparr>g_rolls := (g_rolls g)[i := (cast_vote me ROLL_NEED ^^ n) r]\<rparr>)"
    "gw_players ?w = gw_players w" "gw_loots ?w = gw_loots w" "quiet w ?w"
    using repeated_need_world [OF g i r exact in_roll items, of n] n by auto
  have all: "all_voted ?R" using repeated_need_ends [OF exact, of "Suc n" me] n by simp
  obtain w1 where w1: "gw_groups w1 p = Some (g\<lparr>g_rolls := (g_rolls g)[i := ?R]\<rparr>)" "gw_players w1 = gw_players ?w"
    "gw_loots w1 = gw_loots ?w" "quiet ?w w1" "CountRollVote ge p me item ROLL_NEED ?w = (if all_voted ?R then CountTheRoll ge p i w1 else w1)"
    by (rule repeated_need_vote [OF W(1,3) i r exact in_roll items, where ge = ge])
  have len: "i < length (g_rolls g)" and valid: "roll_valid r" using i r by (auto simp: GetRoll_def dest: find_index_Some)
  have wf: "map_wf (ro_playerVote r)" using exact by (simp add: votes_exact_def)
  have mine: "map_of (ro_playerVote r) me = Some NOT_EMITED_YET" using in_roll awaited_iff [OF wf] by simp
  have takers: "takers (\<lambda>v. v = NEED) (ro_playerVote ?R) = [me]"
    using takers_put [OF wf mine no_need] by (simp only: repeated_need_fields) simp
  have it': "roll_item w1 ?R = Some loot" using it W(3) w1(3) by (simp only: roll_item_def repeated_need_fields)
  obtain guid where guid: "wins ge ?R (\<lambda>v. v = NEED) w1 guid"
    "received w (award_need ge ?R w1) = (if connected w1 guid \<and> ge_canStore ge guid (ro_itemid ?R) (li_count loot) = 0 then [guid] else [])"
    using award_need_result [OF it' _ dice quiet_trans [OF W(4) w1(4)]] takers by (metis list.distinct(1))
  have "guid = me" using guid(1) unfolding wins_def Let_def takers by simp
  then have re: "received w (award_need ge ?R w1) = [me]"
    using guid(2) me connected_cong [of w1 w] W(2) w1(2) by (simp only: repeated_need_fields) simp
  have "unat (ro_totalNeed ?R) \<noteq> 0" using repeated_need_count [OF exact, of "Suc n"] n by (simp only: repeated_need_fields)
  then have "ro_totalNeed ?R \<noteq> 0" by auto
  then have "CountTheRoll ge p i w1 = erase_roll p i (award_need ge ?R w1)"
    using valid len w1(1) by (auto simp: CountTheRoll_def Let_def grp_def roll_valid_def repeated_need_fields word_neq_0_conv simp del: funpow.simps)
  then have "(CountRollVote ge p me item ROLL_NEED ^^ Suc n) w = erase_roll p i (award_need ge ?R w1)"
    using w1(5) all by (simp only: funpow_Suc if_True)
  moreover have "gw_log (erase_roll p i (award_need ge ?R w1)) = gw_log (award_need ge ?R w1)"
    using erase_roll_result(2) [of "award_need ge ?R w1" p] w1(1) by simp
  ultimately show ?thesis using re received_same_log n by metis
qed


section \<open>A member who leaves\<close>

definition withdraw :: "uint64 \<Rightarrow> Roll \<Rightarrow> Roll" where
  "withdraw guid r = (case map_of (ro_playerVote r) guid of None \<Rightarrow> r | Some v \<Rightarrow> withdraw_vote guid v r)"

lemma withdraw_fields:
  "ro_itemGUID (withdraw guid r) = ro_itemGUID r" "map_of (ro_playerVote (withdraw guid r)) guid = None"
  by (auto simp: withdraw_def withdraw_vote_def Let_def split: option.split)

lemma leave_roll_result:
  assumes g: "gw_groups w p = Some g" and i: "i < length (g_rolls g)" and d: "distinct (map ro_itemGUID (g_rolls g))"
  shows "gw_groups (leave_roll ge p guid i w) p = Some (g\<lparr>g_rolls := (g_rolls g)[i := withdraw guid (g_rolls g ! i)]\<rparr>)
    \<and> gw_log (leave_roll ge p guid i w) = gw_log w"
proof (cases "map_of (ro_playerVote (g_rolls g ! i)) guid")
  case None
  then show ?thesis using g by (simp add: leave_roll_def Let_def grp_def withdraw_def)
next
  case (Some v)
  let ?rs = "(g_rolls g)[i := withdraw guid (g_rolls g ! i)]"
  let ?w = "set_roll p i (withdraw_vote guid v) w"
  have w: "gw_groups ?w p = Some (g\<lparr>g_rolls := ?rs\<rparr>)" "gw_log ?w = gw_log w"
    using g Some by (simp_all add: set_roll_def on_grp_def withdraw_def)
  have "map ro_itemGUID ?rs = map ro_itemGUID (g_rolls g)" using i by (simp add: map_update withdraw_fields list_update_same_conv)
  then have d': "distinct (map ro_itemGUID ?rs)" using d by simp
  have "CountRollVote ge p guid (ro_itemGUID (g_rolls g ! i)) MAX_ROLL_TYPE ?w = ?w"
  proof (cases "GetRoll (grp ?w p) (ro_itemGUID (g_rolls g ! i))")
    case (Some j)
    then have j: "j < length ?rs" "ro_itemGUID (?rs ! j) = ro_itemGUID (g_rolls g ! i)"
      using w by (auto simp: GetRoll_def grp_def dest: find_index_Some)
    then have "j = i" using d' i by (auto simp: distinct_conv_nth nth_list_update withdraw_fields split: if_splits)
    then show ?thesis using Some w i by (simp add: CountRollVote_def Let_def grp_def withdraw_fields)
  qed (simp add: CountRollVote_def)
  then show ?thesis using w g Some by (simp add: leave_roll_def Let_def grp_def)
qed

lemma leave_rolls_prefix:
  fixes ge guid
  assumes g: "gw_groups w p = Some g" and d: "distinct (map ro_itemGUID (g_rolls g))" and n: "n \<le> length (g_rolls g)"
  defines "wn \<equiv> fold (leave_roll ge p guid) [0..<n] w"
  shows "gw_groups wn p = Some (g\<lparr>g_rolls := map (withdraw guid) (take n (g_rolls g)) @ drop n (g_rolls g)\<rparr>) \<and> gw_log wn = gw_log w"
  using n unfolding wn_def
proof (induction n)
  case 0
  then show ?case using g by simp
next
  case (Suc n)
  let ?rs = "map (withdraw guid) (take n (g_rolls g)) @ drop n (g_rolls g)"
  have n: "n < length (g_rolls g)" using Suc.prems by simp
  have "map ro_itemGUID ?rs = map ro_itemGUID (g_rolls g)"
    using map_append [of ro_itemGUID "take n (g_rolls g)" "drop n (g_rolls g)"] by (simp add: withdraw_fields comp_def)
  moreover have "?rs[n := withdraw guid (?rs ! n)] = map (withdraw guid) (take (Suc n) (g_rolls g)) @ drop (Suc n) (g_rolls g)"
    using n by (simp add: take_Suc_conv_app_nth nth_append list_update_append flip: Cons_nth_drop_Suc)
  ultimately show ?case
    using Suc leave_roll_result [of "fold (leave_roll ge p guid) [0..<n] w" p "g\<lparr>g_rolls := ?rs\<rparr>" n ge guid] d n by simp
qed

text \<open>
  C29.  A member who leaves takes his votes with him, and that is all: the counters stay exact, but the vote that
  the code counts for him at the end has no effect, since he is no longer in the roll.  A roll in which
  he alone had still to vote does not end; it waits for the timer.
\<close>

theorem leaving_withdraws_votes:
  assumes "gw_groups w p = Some g" "distinct (map ro_itemGUID (g_rolls g))" "\<forall>r \<in> set (g_rolls g). votes_exact r"
  shows "g_rolls (grp (leave_rolls ge p guid w) p) = map (withdraw guid) (g_rolls g)
    \<and> gw_log (leave_rolls ge p guid w) = gw_log w
    \<and> (\<forall>r \<in> set (g_rolls g). votes_exact (withdraw guid r) \<and> set (awaited (withdraw guid r)) = set (awaited r) - {guid})"
proof -
  have "set (awaited (withdraw guid r)) = set (awaited r) - {guid}" for r
    by (cases "map_of (ro_playerVote r) guid")
      (auto simp: withdraw_def withdraw_vote_def Let_def awaited_def map_erase_def dest: map_of_eq_None_iff [THEN iffD1])
  moreover have "votes_exact (withdraw guid r)" if "r \<in> set (g_rolls g)" for r
    using that assms(3) exact_withdraw_vote by (auto simp: withdraw_def split: option.split)
  moreover note leave_rolls_prefix [OF assms(1,2) order_refl, of ge guid]
  ultimately show ?thesis using assms(1) by (simp add: leave_rolls_def grp_def)
qed

section \<open>Two players and one item\<close>

definition duo_env :: group_env where
  "duo_env = \<lparr>ge_lfg = \<lparr>me_now = 1000, me_online = \<lambda>_. True, me_ignores = \<lambda>_ _. False, me_urand = \<lambda>q n lo hi. lo, me_twoSideGroups = False,
       me_inDungeonMap = \<lambda>_. False\<rparr>,
     ge_near = \<lambda>_ _. True, ge_objectMap = \<lambda>_. 0, ge_allowed = \<lambda>_ _. True,
     ge_item = \<lambda>_. Some \<lparr>it_Quality = 3, it_Flags2 = 0, it_DisenchantID = 0, it_RequiredDisenchantSkill = 0\<rparr>, ge_canNeed = \<lambda>_ _. True,
     ge_canStore = \<lambda>_ _ _. 0, ge_urand = \<lambda>n. if even n then 50 else 70, ge_alive = \<lambda>_. True, ge_mapId = \<lambda>_. 0, ge_inDungeon = \<lambda>_. False,
     ge_gameMaster = \<lambda>_. False, ge_boundHere = \<lambda>_ _. False, ge_strandedBy = \<lambda>_ _. False, ge_nameOf = \<lambda>_. None\<rparr>"

definition duo_player :: "string \<Rightarrow> gptr option \<Rightarrow> group_player" where
  "duo_player name p = \<lparr>gp_name = name, gp_inWorld = True, gp_session = True, gp_group = map_option (\<lambda>p. (p, 0)) p, gp_original = None, gp_invite = None,
     gp_passOnGroupLoot = False, gp_level = 10, gp_enchanting = 0, gp_dungeonDifficulty = 0, gp_raidDifficulty = 0, gp_instanceValid = True\<rparr>"

definition duo_slot :: "uint64 \<Rightarrow> string \<Rightarrow> MemberSlot" where
  "duo_slot guid name = \<lparr>ms_guid = guid, ms_name = name, ms_group = 0, ms_flags = 0, ms_roles = 0\<rparr>"

definition duo_group :: Group where
  "duo_group = Group_new\<lparr>g_memberSlots := [duo_slot 1 ''Ann'', duo_slot 2 ''Bob''], g_memberMgr := [(2, False), (1, False)], g_leaderGuid := 1,
     g_lootMethod := GROUP_LOOT, g_looterGuid := 1, g_guid := 1, g_dbStoreId := 1\<rparr>"

definition duo_item :: LootItem where
  "duo_item = \<lparr>li_itemid = 100, li_randomSuffix = 0, li_randomPropertyId = 0, li_count = 1, li_is_looted = False, li_is_blocked = False,
     li_freeforall = False, li_is_underthreshold = False, li_follow_loot_rules = False\<rparr>"

definition duo_start :: group_world where
  "duo_start = \<lparr>gw_groups = [0 \<mapsto> duo_group], gw_fresh = 1, gw_players = [1 \<mapsto> duo_player ''Ann'' (Some 0), 2 \<mapsto> duo_player ''Bob'' (Some 0)],
     gw_loots = [0 \<mapsto> \<lparr>lo_items = [duo_item], lo_quest_items = [], lo_unlootedCount = 1, lo_PlayersLooting = [1]\<rparr>],
     gw_NextGroupId = 2, gw_NextGroupDbStoreId = 2, gw_GroupStore = [(1, 0)], gw_GroupDbStore = [None, Some 0], gw_itemGuid = 5, gw_drawn = 0,
     gw_lfg = LFGMgr_new 0, gw_log = [], gw_fault = None\<rparr>"

definition duo_rolling :: group_world where
  "duo_rolling = GroupLoot duo_env 0 0 0 duo_start"

definition duo_roll :: Roll where
  "duo_roll = g_rolls (grp duo_rolling 0) ! 0"

definition duo_needed :: group_world where
  "duo_needed = CountRollVote duo_env 0 1 (ro_itemGUID duo_roll) ROLL_NEED duo_rolling"

lemma duo_dice: "\<forall>n. 1 \<le> ge_urand duo_env n"
  by (simp add: duo_env_def)

lemma duo_rolling_state:
  "gw_groups duo_rolling 0 \<noteq> None" "GetRoll (grp duo_rolling 0) (ro_itemGUID duo_roll) = Some 0" "votes_exact duo_roll"
  "awaited duo_roll = [1, 2]" "\<not> no_items duo_rolling duo_roll" "map snd (ro_playerVote duo_roll) = [NOT_EMITED_YET, NOT_EMITED_YET]"
  "roll_item duo_rolling duo_roll = Some (duo_item\<lparr>li_is_blocked := True\<rparr>)" "connected duo_rolling 2"
  by code_simp+

lemma duo_rolling_group: "gw_groups duo_rolling 0 = Some (grp duo_rolling 0)"
  using duo_rolling_state(1) by (auto simp: grp_def)


theorem repeated_need_takes_item_witness:
  "received duo_rolling ((CountRollVote duo_env 0 2 (ro_itemGUID duo_roll) ROLL_NEED ^^ 2) duo_rolling) = [2]"
proof -
  have "NEED \<notin> snd ` set (ro_playerVote duo_roll)"
    unfolding set_map [symmetric] duo_rolling_state(6) by simp
  then have "\<forall>e \<in> set (ro_playerVote duo_roll). snd e \<noteq> NEED" by force
  moreover have "ge_canStore duo_env 2 (ro_itemid duo_roll) (li_count (duo_item\<lparr>li_is_blocked := True\<rparr>)) = 0" by (simp add: duo_env_def)
  ultimately show ?thesis
    using repeated_need_takes_item [OF duo_rolling_group duo_rolling_state(2) duo_roll_def duo_rolling_state(3) _ duo_rolling_state(5) _
        duo_rolling_state(7) duo_rolling_state(8) _ duo_dice] by (simp add: duo_rolling_state(4) numeral_2_eq_2)
qed

lemma duo_awaits: "awaited (g_rolls (grp duo_needed 0) ! 0) = [2]"
  by code_simp

lemma duo_needed_state:
  "gw_groups duo_needed 0 \<noteq> None" "length (g_rolls (grp duo_needed 0)) = 1" "votes_exact (g_rolls (grp duo_needed 0) ! 0)"
  "roll_item duo_needed (g_rolls (grp duo_needed 0) ! 0) = Some (duo_item\<lparr>li_is_blocked := True\<rparr>)"
  "map snd (ro_playerVote (g_rolls (grp duo_needed 0) ! 0)) = [NEED, NOT_EMITED_YET]" "gw_fault duo_needed = None"
  by code_simp+

theorem roll_award_witness:
  "gw_fault (CountTheRoll duo_env 0 0 duo_needed) = None \<and> g_rolls (grp (CountTheRoll duo_env 0 0 duo_needed) 0) = []
   \<and> (\<exists>guid. wins duo_env (g_rolls (grp duo_needed 0) ! 0) (\<lambda>v. v = NEED) duo_needed guid)"
proof -
  let ?r = "g_rolls (grp duo_needed 0) ! 0"
  have g: "gw_groups duo_needed 0 = Some (grp duo_needed 0)" using duo_needed_state(1) by (auto simp: grp_def)
  have need: "NEED \<in> snd ` set (ro_playerVote ?r)" unfolding set_map [symmetric] duo_needed_state(5) by simp
  then have some: "takers (\<lambda>v. v = NEED) (ro_playerVote ?r) \<noteq> []" by (force simp: takers_def filter_empty_conv)
  have "ge_item duo_env (ro_itemid ?r) \<noteq> None" by (simp add: duo_env_def)
  moreover have "0 < length (g_rolls (grp duo_needed 0))" by (simp add: duo_needed_state)
  ultimately show ?thesis
    using roll_award [OF g _ refl duo_needed_state(3,4) _ duo_dice] need some by (auto simp: duo_needed_state)
qed

theorem EndRoll_settles_witness:
  "\<exists>w'. EndRoll duo_env 0 0 duo_needed = Some w' \<and> g_rolls (grp w' 0) = [] \<and> gw_fault w' = None
     \<and> awarded duo_env (g_rolls (grp duo_needed 0) ! 0) duo_needed w'"
proof -
  obtain r where r: "g_rolls (grp duo_needed 0) = [r]" using duo_needed_state(2) by (auto simp: length_Suc_conv)
  have "ro_loot (g_rolls (grp duo_needed 0) ! 0) = Some 0" by code_simp
  then have l: "ro_loot r = Some 0" by (simp add: r)
  have "roll_ready duo_env duo_needed r" using duo_needed_state(3,4) by (simp add: roll_ready_def r duo_env_def)
  with l EndRoll_settles [of 0 duo_needed 0 duo_env] duo_dice show ?thesis
    by (auto simp: r duo_needed_state(6))
qed

theorem leaving_withdraws_votes_witness:
  "g_rolls (grp (leave_rolls duo_env 0 2 duo_needed) 0) = map (withdraw 2) (g_rolls (grp duo_needed 0))
   \<and> length (g_rolls (grp (leave_rolls duo_env 0 2 duo_needed) 0)) = 1 \<and> awaited (hd (g_rolls (grp (leave_rolls duo_env 0 2 duo_needed) 0))) = []"
proof -
  have g: "gw_groups duo_needed 0 = Some (grp duo_needed 0)" using duo_needed_state(1) by (auto simp: grp_def)
  obtain r where r: "g_rolls (grp duo_needed 0) = [r]" using duo_needed_state(2) by (auto simp: length_Suc_conv)
  then have "votes_exact r" "awaited r = [2]" using duo_needed_state(3) duo_awaits by simp_all
  then show ?thesis using leaving_withdraws_votes [OF g, of duo_env 2] r by auto
qed


end
