(* ===== verification/GroupRegistry.thy ===== *)
theory GroupRegistry
  imports GroupRolls
begin

text \<open>
  The identifiers under which \<^verbatim>\<open>GroupMgr\<close> stores groups: in every state after loading, creations and
  disbandings the next identifier is the least one that is free.
\<close>

definition in_use :: "gptr option list \<Rightarrow> uint32 \<Rightarrow> bool" where
  "in_use db i \<longleftrightarrow> unat i < length db \<and> db ! unat i \<noteq> None"

definition ids_ok :: "group_world \<Rightarrow> bool" where
  "ids_ok w \<longleftrightarrow> 0 < gw_NextGroupDbStoreId w \<and> \<not> in_use (gw_GroupDbStore w) (gw_NextGroupDbStoreId w)
     \<and> (\<forall>j. 0 < j \<and> j < gw_NextGroupDbStoreId w \<longrightarrow> in_use (gw_GroupDbStore w) j)"

lemma store_free_iff: "store_free db i \<longleftrightarrow> \<not> in_use db i"
  by (auto simp: store_free_def in_use_def)

declare next_free.simps [simp del]

lemma next_free_Some:
  assumes "next_free db i = Some n"
  shows "i \<le> n \<and> n < 0xFFFFFFFF \<and> \<not> in_use db n \<and> (\<forall>j. i \<le> j \<and> j < n \<longrightarrow> in_use db j)"
  using assms
proof (induction db i rule: next_free.induct)
  case (1 db i)
  show ?case
  proof (cases "i < 0xFFFFFFFF \<and> in_use db i")
    case True
    then have i: "i < 0xFFFFFFFF" "in_use db i" by auto
    have n: "next_free db (i + 1) = Some n" using 1 True by (simp add: next_free.simps [of db i] store_free_iff)
    have IH: "i + 1 \<le> n \<and> n < 0xFFFFFFFF \<and> \<not> in_use db n \<and> (\<forall>j. i + 1 \<le> j \<and> j < n \<longrightarrow> in_use db j)"
      using "1.IH" [OF i(1)] n i(2) store_free_iff by blast
    have "i < i + 1" using unat_next [OF i(1)] by (simp add: word_less_nat_alt)
    moreover have "j = i \<or> i + 1 \<le> j" if "i \<le> j" for j
      using that unat_next [OF i(1)] by (auto simp: word_le_nat_alt word_unat_eq_iff)
    ultimately show ?thesis using IH i(2) by (metis order.trans order_less_imp_le)
  qed (use 1 in \<open>auto simp: next_free.simps [of db i] store_free_iff split: if_splits\<close>)
qed

lemma next_free_None:
  assumes "next_free db i = None" "i \<le> j" "j < 0xFFFFFFFF"
  shows "in_use db j"
  using assms
proof (induction db i rule: next_free.induct)
  case (1 db i)
  then have i: "i < 0xFFFFFFFF" by simp
  then have "in_use db i" "next_free db (i + 1) = None" using "1.prems"(1) by (auto simp: next_free.simps [of db i] store_free_iff split: if_splits)
  moreover have "j = i \<or> i + 1 \<le> j" using "1.prems"(2) unat_next [OF i] by (auto simp: word_le_nat_alt word_unat_eq_iff)
  ultimately show ?case using "1.IH" i "1.prems"(3) store_free_iff by blast
qed

text \<open>
  A defect: the check for an overflow of the identifiers compares the identifier with the next one, and
  these never agree, so that it never stops the server.
\<close>

theorem store_overflow_undetected:
  "gw_log (snd (GenerateNewGroupDbStoreId w)) = gw_log w"
proof -
  let ?n = "gw_NextGroupDbStoreId w" and ?db = "gw_GroupDbStore w"
  have "(case next_free ?db (?n + 1) of Some i \<Rightarrow> i | None \<Rightarrow> ?n + 1) \<noteq> ?n"
  proof (cases "next_free ?db (?n + 1)")
    case (Some i)
    show ?thesis
    proof (cases "?n < 0xFFFFFFFF")
      case True
      then have "?n < ?n + 1" using unat_next [of ?n] by (simp add: word_less_nat_alt)
      then show ?thesis using next_free_Some [OF Some] Some by auto
    qed (use next_free_Some [OF Some] Some in auto)
  qed simp
  then show ?thesis by (simp add: GenerateNewGroupDbStoreId_def Let_def emit_def)
qed

section \<open>Creation, disbanding, loading\<close>

lemma in_use_register:
  "in_use (gw_GroupDbStore (RegisterGroupDbStoreId n p w)) j \<longleftrightarrow> j = n \<or> in_use (gw_GroupDbStore w) j"
  "gw_NextGroupDbStoreId (RegisterGroupDbStoreId n p w) = gw_NextGroupDbStoreId w"
  by (auto simp: RegisterGroupDbStoreId_def Let_def in_use_def nth_list_update nth_append word_unat_eq_iff)

lemma length_register:
  "length (gw_GroupDbStore (RegisterGroupDbStoreId n p w)) = max (length (gw_GroupDbStore w)) (unat n + 1)"
  by (auto simp: RegisterGroupDbStoreId_def Let_def)

lemma ids_ok_bound:
  assumes "ids_ok w"
  shows "unat (gw_NextGroupDbStoreId w) \<le> max 1 (length (gw_GroupDbStore w))"
proof (cases "gw_NextGroupDbStoreId w = 1")
  case False
  let ?n = "gw_NextGroupDbStoreId w"
  have "0 < ?n" using assms by (simp add: ids_ok_def)
  then have "unat (?n - 1) = unat ?n - 1" by (simp add: unat_minus_one word_neq_0_conv)
  moreover have "1 < unat ?n" using \<open>0 < ?n\<close> False by (simp add: word_unat_eq_iff word_less_nat_alt)
  ultimately have "0 < ?n - 1" "?n - 1 < ?n" by (simp_all add: word_less_nat_alt)
  then have "in_use (gw_GroupDbStore w) (?n - 1)" using assms by (simp add: ids_ok_def)
  then show ?thesis using \<open>unat (?n - 1) = unat ?n - 1\<close> by (auto simp: in_use_def)
qed simp

lemma generate_fields:
  assumes "GenerateNewGroupDbStoreId w = (n, w1)"
  shows "n = gw_NextGroupDbStoreId w" "gw_GroupDbStore w1 = gw_GroupDbStore w" "gw_groups w1 = gw_groups w" "gw_fault w1 = gw_fault w"
    "gw_NextGroupDbStoreId w1 = (case next_free (gw_GroupDbStore w) (n + 1) of Some i \<Rightarrow> i | None \<Rightarrow> n + 1)"
  using assms by (auto simp: GenerateNewGroupDbStoreId_def Let_def emit_def split: if_splits)

lemma ids_ok_create:
  assumes w: "ids_ok w" and small: "length (gw_GroupDbStore w) < 0xFFFFFFF0" and n: "GenerateNewGroupDbStoreId w = (n, w1)"
  shows "ids_ok (RegisterGroupDbStoreId n p w1)"
proof -
  let ?db = "gw_GroupDbStore w"
  note f = generate_fields [OF n]
  have bound: "unat n \<le> max 1 (length ?db)" using ids_ok_bound [OF w] f(1) by simp
  then have "unat n < 0xFFFFFFF0" using small by linarith
  then have lt: "n < 0xFFFFFFFF" by (simp add: word_less_nat_alt)
  have n1: "unat (n + 1) = unat n + 1" by (rule unat_next [OF lt])
  define m :: uint32 where "m = of_nat (max (unat n + 1) (length ?db))"
  have um: "unat m = max (unat n + 1) (length ?db)" unfolding m_def unat_of_nat by (rule mod_less) (use \<open>unat n < 0xFFFFFFF0\<close> small in simp)
  then have "n + 1 \<le> m" "m < 0xFFFFFFFF" "\<not> in_use ?db m"
    using n1 small \<open>unat n < 0xFFFFFFF0\<close> by (simp_all add: word_le_nat_alt word_less_nat_alt in_use_def)
  then obtain i where i: "next_free ?db (n + 1) = Some i" using next_free_None by fastforce
  note s = next_free_Some [OF i]
  have "n < i" using s n1 by (simp add: word_le_nat_alt word_less_nat_alt)
  moreover have "j < n \<or> j = n \<or> n + 1 \<le> j" for j using n1 by (auto simp: word_le_nat_alt word_less_nat_alt word_unat_eq_iff)
  ultimately show ?thesis
    using w s f i unfolding ids_ok_def in_use_register by (metis dual_order.strict_trans order_less_irrefl option.case(2))
qed

lemma ids_ok_free:
  assumes w: "ids_ok w" and g: "0 < g_dbStoreId (grp w p)" "GetGroupByDbStoreId w (g_dbStoreId (grp w p)) = Some p"
  shows "ids_ok (FreeGroupDbStoreId p w)" "gw_fault (FreeGroupDbStoreId p w) = gw_fault w"
    "in_use (gw_GroupDbStore (FreeGroupDbStoreId p w)) j \<longleftrightarrow> j \<noteq> g_dbStoreId (grp w p) \<and> in_use (gw_GroupDbStore w) j"
proof -
  let ?n = "g_dbStoreId (grp w p)"
  have len: "unat ?n < length (gw_GroupDbStore w)" "in_use (gw_GroupDbStore w) ?n"
    using g(2) by (auto simp: GetGroupByDbStoreId_def in_use_def split: if_splits)
  then show iu: "in_use (gw_GroupDbStore (FreeGroupDbStoreId p w)) j \<longleftrightarrow> j \<noteq> ?n \<and> in_use (gw_GroupDbStore w) j" for j
    by (auto simp: FreeGroupDbStoreId_def Let_def in_use_def nth_list_update word_unat_eq_iff)
  show "gw_fault (FreeGroupDbStoreId p w) = gw_fault w" using len by (simp add: FreeGroupDbStoreId_def Let_def)
  have "gw_NextGroupDbStoreId (FreeGroupDbStoreId p w) = min ?n (gw_NextGroupDbStoreId w)"
    using len by (auto simp: FreeGroupDbStoreId_def Let_def min_def)
  then show "ids_ok (FreeGroupDbStoreId p w)" using w g(1) len(2) unfolding ids_ok_def iu by (auto simp: min_def)
qed

text \<open>Loading in the order of the identifiers.\<close>

lemma registry_frame [simp]:
  "gw_NextGroupDbStoreId (fault e w) = gw_NextGroupDbStoreId w" "gw_NextGroupDbStoreId (on_grp p f w) = gw_NextGroupDbStoreId w"
  "gw_NextGroupDbStoreId (on_grp_checked p h w) = gw_NextGroupDbStoreId w" "gw_GroupDbStore (on_grp_checked p h w) = gw_GroupDbStore w"
  "gw_NextGroupDbStoreId (on_lfg k w) = gw_NextGroupDbStoreId w"
  "gw_NextGroupDbStoreId (AddGroup p w) = gw_NextGroupDbStoreId w" "gw_GroupDbStore (AddGroup p w) = gw_GroupDbStore w"
  by (auto simp: fault_def on_grp_def on_grp_checked_def on_lfg_def AddGroup_def split: option.split sum.split)

definition stored_as :: "gptr \<Rightarrow> uint32 \<Rightarrow> group_world \<Rightarrow> bool" where
  "stored_as p n w \<longleftrightarrow> gw_groups w p \<noteq> None \<and> g_dbStoreId (grp w p) = n"

lemma stored_as_on_grp:
  "stored_as p n w \<Longrightarrow> (\<And>g. g_dbStoreId (f g) = g_dbStoreId g) \<Longrightarrow> stored_as p n (on_grp p f w)"
  by (auto simp: stored_as_def on_grp_def grp_def)

lemma count_slots_dbStoreId: "count_slots ss g = Inr g' \<Longrightarrow> g_dbStoreId g' = g_dbStoreId g"
  by (induction ss arbitrary: g)
    (auto simp: bindE_Inr_iff SubGroupCounterIncrease_def count_subgroup_def split: option.splits if_splits)

lemma stored_as_init: "stored_as p n w \<Longrightarrow> stored_as p n (on_grp_checked p initRaidSubGroupsCounter w)"
  by (auto simp: on_grp_checked_def initRaidSubGroupsCounter_def stored_as_def on_grp_def fault_def grp_def
      split: sum.split option.splits dest: count_slots_dbStoreId)

lemma LoadGroupFromDB_registry:
  assumes "gw_groups w p \<noteq> None"
  shows "gw_GroupDbStore (LoadGroupFromDB ge p row w) = gw_GroupDbStore w"
    "gw_NextGroupDbStoreId (LoadGroupFromDB ge p row w) = gw_NextGroupDbStoreId w" "stored_as p (gr_guid row) (LoadGroupFromDB ge p row w)"
proof -
  obtain lowguid w1 where w1: "GenerateGroupId w = (lowguid, w1)" by (cases "GenerateGroupId w")
  then have f: "gw_GroupDbStore w1 = gw_GroupDbStore w" "gw_NextGroupDbStoreId w1 = gw_NextGroupDbStoreId w" "gw_groups w1 = gw_groups w"
    by (auto simp: GenerateGroupId_def Let_def emit_def split: if_splits)
  define w2 where "w2 = on_grp p (\<lambda>g. g\<lparr>g_dbStoreId := gr_guid row, g_guid := MAKE_NEW_GUID lowguid 0 HIGHGUID_GROUP,
                  g_leaderGuid := MAKE_NEW_GUID (gr_leaderGuid row) 0 HIGHGUID_PLAYER\<rparr>) w1"
  have s: "stored_as p (gr_guid row) w2" using assms f(3) by (auto simp: w2_def stored_as_def on_grp_def grp_def)
  have lfg: "stored_as p n (on_lfg h w) \<longleftrightarrow> stored_as p n w" for n h w by (simp add: stored_as_def)
  show "gw_GroupDbStore (LoadGroupFromDB ge p row w) = gw_GroupDbStore w" "gw_NextGroupDbStoreId (LoadGroupFromDB ge p row w) = gw_NextGroupDbStoreId w"
    by (simp_all add: LoadGroupFromDB_def w1 Let_def f split: option.split)
  show "stored_as p (gr_guid row) (LoadGroupFromDB ge p row w)"
    unfolding LoadGroupFromDB_def w1 prod.case Let_def w2_def [symmetric]
    by (auto simp: lfg s split: option.split intro!: stored_as_on_grp stored_as_init)
qed

lemma load_group_registry:
  "gw_GroupDbStore (load_group ge row w) = gw_GroupDbStore (RegisterGroupDbStoreId (gr_guid row) (gw_fresh w) w)"
  "gw_NextGroupDbStoreId (load_group ge row w) = (if gr_guid row = gw_NextGroupDbStoreId w then gw_NextGroupDbStoreId w + 1 else gw_NextGroupDbStoreId w)"
proof -
  let ?p = "gw_fresh w" and ?w = "snd (new_group w)"
  let ?l = "AddGroup ?p (LoadGroupFromDB ge ?p row ?w)"
  have "gw_groups ?w ?p \<noteq> None" by (simp add: new_group_def)
  note L = LoadGroupFromDB_registry [OF this, where ge = ge and row = row]
  have db: "gw_GroupDbStore ?l = gw_GroupDbStore w" "gw_NextGroupDbStoreId ?l = gw_NextGroupDbStoreId w" "g_dbStoreId (grp ?l ?p) = gr_guid row"
    using L by (simp_all add: stored_as_def AddGroup_def grp_def new_group_def)
  show "gw_GroupDbStore (load_group ge row w) = gw_GroupDbStore (RegisterGroupDbStoreId (gr_guid row) (gw_fresh w) w)"
    "gw_NextGroupDbStoreId (load_group ge row w) = (if gr_guid row = gw_NextGroupDbStoreId w then gw_NextGroupDbStoreId w + 1 else gw_NextGroupDbStoreId w)"
    using db by (simp_all add: load_group_def new_group_def Let_def RegisterGroupDbStoreId_def)
qed

lemma ids_ok_load:
  assumes "sorted_wrt (<) (map gr_guid rows)" "\<forall>row \<in> set rows. hi < gr_guid row \<and> gr_guid row < 0xFFFFFFFF"
    and "ids_ok w" "\<forall>j. in_use (gw_GroupDbStore w) j \<longrightarrow> j \<le> hi"
  shows "ids_ok (fold (load_group ge) rows w)"
  using assms
proof (induction rows arbitrary: w hi)
  case (Cons row rows)
  let ?n = "gr_guid row" and ?w = "load_group ge row w"
  note L = load_group_registry [of ge row w] and iu = in_use_register(1) [of ?n "gw_fresh w" w]
  have n: "hi < ?n" "?n < 0xFFFFFFFF" using Cons.prems(2) by auto
  have n1: "unat (?n + 1) = unat ?n + 1" by (rule unat_next [OF n(2)])
  have "ids_ok ?w"
  proof (cases "?n = gw_NextGroupDbStoreId w")
    case True
    have "\<not> in_use (gw_GroupDbStore w) (?n + 1)" using Cons.prems(4) n n1 by (force simp: word_less_nat_alt word_le_nat_alt)
    moreover have "?n \<noteq> ?n + 1" "0 < ?n + 1" using n1 by (auto simp: word_less_nat_alt)
    moreover have "j < ?n \<or> j = ?n" if "j < ?n + 1" for j using that n1 by (auto simp: word_less_nat_alt word_unat_eq_iff)
    ultimately show ?thesis using Cons.prems(3) True unfolding ids_ok_def L iu by auto
  next
    case False
    then show ?thesis using Cons.prems(3) unfolding ids_ok_def L iu by auto
  qed
  moreover have "\<forall>j. in_use (gw_GroupDbStore ?w) j \<longrightarrow> j \<le> ?n" unfolding L iu using Cons.prems(4) n(1) by (meson order.trans order_less_imp_le order_refl)
  moreover have "\<forall>r \<in> set rows. ?n < gr_guid r \<and> gr_guid r < 0xFFFFFFFF" "sorted_wrt (<) (map gr_guid rows)" using Cons.prems(1,2) by auto
  ultimately show ?case using Cons.IH [of ?n ?w] by simp
qed simp

lemma load_member_registry [simp]:
  "gw_GroupDbStore (load_member ge row w) = gw_GroupDbStore w" "gw_NextGroupDbStoreId (load_member ge row w) = gw_NextGroupDbStoreId w"
  by (auto simp: load_member_def LoadMemberFromDB_def Let_def split: prod.split option.split)

lemma load_members_registry:
  "gw_GroupDbStore (fold (load_member ge) rows w) = gw_GroupDbStore w
   \<and> gw_NextGroupDbStoreId (fold (load_member ge) rows w) = gw_NextGroupDbStoreId w"
  by (induction rows arbitrary: w) auto

definition registry_loaded :: "group_world \<Rightarrow> bool" where
  "registry_loaded w \<longleftrightarrow> (\<exists>ge groups members w0. gw_GroupDbStore w0 = [] \<and> gw_NextGroupDbStoreId w0 = 1
     \<and> sorted_wrt (<) (map gr_guid groups) \<and> (\<forall>row \<in> set groups. 0 < gr_guid row \<and> gr_guid row < 0xFFFFFFFF)
     \<and> w = LoadGroups ge groups members w0)"

text \<open>What \<^verbatim>\<open>Group::Create\<close> and \<^verbatim>\<open>Group::Disband\<close> do to the registry.\<close>

inductive registry_step :: "group_world \<Rightarrow> group_world \<Rightarrow> bool" where
  create: "GenerateNewGroupDbStoreId w = (n, w1) \<Longrightarrow> length (gw_GroupDbStore w) < 0xFFFFFFF0
    \<Longrightarrow> registry_step w (RegisterGroupDbStoreId n p (on_grp p (\<lambda>g. g\<lparr>g_dbStoreId := n\<rparr>) w1))"
| free: "0 < g_dbStoreId (grp w p) \<Longrightarrow> GetGroupByDbStoreId w (g_dbStoreId (grp w p)) = Some p \<Longrightarrow> registry_step w (FreeGroupDbStoreId p w)"
| other: "gw_GroupDbStore w' = gw_GroupDbStore w \<Longrightarrow> gw_NextGroupDbStoreId w' = gw_NextGroupDbStoreId w \<Longrightarrow> registry_step w w'"

lemma ids_ok_cong: "gw_GroupDbStore w' = gw_GroupDbStore w \<Longrightarrow> gw_NextGroupDbStoreId w' = gw_NextGroupDbStoreId w \<Longrightarrow> ids_ok w' = ids_ok w"
  by (simp add: ids_ok_def)

interpretation registry: invariant_system registry_loaded registry_step ids_ok
proof
  fix w
  assume "registry_loaded w"
  then obtain ge groups members w0 where l: "gw_GroupDbStore w0 = []" "gw_NextGroupDbStoreId w0 = 1" "sorted_wrt (<) (map gr_guid groups)"
    "\<forall>row \<in> set groups. 0 < gr_guid row \<and> gr_guid row < 0xFFFFFFFF" "w = LoadGroups ge groups members w0"
    by (auto simp: registry_loaded_def)
  have w0: "ids_ok w0" using l(1,2) by (auto simp: ids_ok_def in_use_def word_less_nat_alt)
  have "ids_ok (fold (load_group ge) groups w0)" by (rule ids_ok_load [OF l(3,4) w0]) (simp add: l(1) in_use_def)
  then show "ids_ok w" using w0 l(5) load_members_registry by (auto simp: LoadGroups_def ids_ok_def)
next
  fix w w'
  assume "ids_ok w" "registry_step w w'"
  from this(2,1) show "ids_ok w'"
  proof cases
    case (create n w1 p)
    have "ids_ok (RegisterGroupDbStoreId n p w1)" by (rule ids_ok_create [OF \<open>ids_ok w\<close> create(3,2)])
    then show ?thesis unfolding create(1) by (subst ids_ok_cong) (simp_all add: RegisterGroupDbStoreId_def Let_def)
  next
    case (free p)
    then show ?thesis using ids_ok_free(1) \<open>ids_ok w\<close> by simp
  next
    case other
    then show ?thesis using ids_ok_cong \<open>ids_ok w\<close> by metis
  qed
qed

text \<open>
  C12.  After any sequence of creations and disbandings the identifier for the next group is positive, is not that
  of a stored group, and is the least such.
\<close>

theorem next_store_id_least_free:
  assumes "reachable registry_loaded registry_step w" "GenerateNewGroupDbStoreId w = (n, w')"
  shows "0 < n \<and> GetGroupByDbStoreId w n = None \<and> (\<forall>j. 0 < j \<and> j < n \<longrightarrow> GetGroupByDbStoreId w j \<noteq> None)"
proof -
  have "ids_ok w" by (rule registry.reachable_inv [OF assms(1)])
  then show ?thesis using generate_fields(1) [OF assms(2)] by (auto simp: ids_ok_def in_use_def GetGroupByDbStoreId_def)
qed

definition stored_row :: "uint32 \<Rightarrow> group_row" where
  "stored_row n = \<lparr>gr_leaderGuid = 1, gr_lootMethod = 0, gr_looterGuid = 1, gr_lootThreshold = 2, gr_icons = replicate TARGETICONCOUNT 0,
     gr_groupType = 0, gr_difficulty = 0, gr_raiddifficulty = 0, gr_guid = n, gr_lfg = None\<rparr>"

text \<open>Groups 1 and 3 are stored: the next one is 2.\<close>

definition two_stored :: group_world where
  "two_stored = LoadGroups duo_env [stored_row 1, stored_row 3] [] (duo_start\<lparr>gw_GroupDbStore := [], gw_NextGroupDbStoreId := 1\<rparr>)"

theorem next_store_id_least_free_witness:
  "fst (GenerateNewGroupDbStoreId two_stored) = 2 \<and> GetGroupByDbStoreId two_stored 2 = None \<and> GetGroupByDbStoreId two_stored 1 \<noteq> None"
proof -
  have "registry_loaded two_stored" unfolding registry_loaded_def two_stored_def
    by (intro exI conjI; (rule refl)?) (simp_all add: duo_start_def stored_row_def)
  then have r: "reachable registry_loaded registry_step two_stored" by (rule reach_init)
  obtain n w' where n: "GenerateNewGroupDbStoreId two_stored = (n, w')" by (cases "GenerateNewGroupDbStoreId two_stored")
  have "gw_NextGroupDbStoreId two_stored = 2" by code_simp
  then have "n = 2" using generate_fields(1) [OF n] by simp
  then show ?thesis using next_store_id_least_free [OF r n] n by simp
qed


end
