(* ===== verification/GroupScripts.thy ===== *)
theory GroupScripts
  imports GroupRolls LFGHandler
begin

text \<open>
  The groups as the dungeon finder uses them.  The record \<open>lfg_groups\<close> that the manager of the dungeon finder is
  parameterised with is instantiated with the operations of \<^verbatim>\<open>Group.cpp\<close>, and the law that the theorems
  about the manager rest on is proved: whatever a group does, it changes the manager only through the
  hooks of \<^verbatim>\<open>LFGScripts.cpp\<close>.
\<close>

section \<open>The instance\<close>

text \<open>
  The manager is handed over for the call and taken back.  \<open>cast\<close> and \<open>teleport\<close> stand for the spell and the teleport of a player.
\<close>

definition group_call :: "gptr option \<Rightarrow> (gptr \<Rightarrow> group_world \<Rightarrow> group_world) \<Rightarrow> group_world \<Rightarrow> group_world" where
  "group_call to f w = (case to of None \<Rightarrow> fault NullDereferenced w | Some p \<Rightarrow> deref p (f p) w)"

definition with_manager :: "(group_world \<Rightarrow> group_world) \<Rightarrow> LFGMgr \<times> group_world \<Rightarrow> LFGMgr \<times> group_world" where
  "with_manager f mw = (let w = f ((snd mw)\<lparr>gw_lfg := fst mw\<rparr>) in (gw_lfg w, w))"

definition make_lfg_group :: "group_env \<Rightarrow> uint64 \<Rightarrow> group_world \<Rightarrow> gptr \<times> group_world" where
  "make_lfg_group ge leader w = (case new_group w of (p, w) \<Rightarrow> (p, snd (Group_Create ge p leader (ConvertToLFG p w))))"

definition server_groups ::
    "group_env \<Rightarrow> (uint64 \<Rightarrow> group_world \<Rightarrow> group_world) \<Rightarrow> (uint64 \<Rightarrow> LFGMgr \<Rightarrow> group_world \<Rightarrow> group_world) \<Rightarrow> group_world lfg_groups" where
  "server_groups ge cast teleport =
     (let to = (\<lambda>w gguid. GetGroupByGUID w (GUID_LOPART gguid))
      in \<lparr>lg_groupOf = \<lambda>w guid. case group_ptr w guid of None \<Rightarrow> 0 | Some p \<Rightarrow> g_guid (grp w p),
          lg_exists = \<lambda>w gguid. to w gguid \<noteq> None,
          lg_dbStoreId = \<lambda>w gguid. case to w gguid of None \<Rightarrow> 0 | Some p \<Rightarrow> g_dbStoreId (grp w p),
          lg_Create = \<lambda>guid mw. case make_lfg_group ge guid ((snd mw)\<lparr>gw_lfg := fst mw\<rparr>) of (p, w) \<Rightarrow> (g_guid (grp w p), gw_lfg w, w),
          lg_AddGroup = \<lambda>gguid w. AddGroup (gw_fresh w - 1) w,
          lg_AddMember = \<lambda>gguid guid. with_manager (\<lambda>w. group_call (to w gguid) (\<lambda>p w. snd (AddMember ge p guid w)) w),
          lg_RemoveMember = \<lambda>gguid guid how. with_manager (\<lambda>w. group_call (to w gguid) (\<lambda>p w. snd (RemoveMember ge p guid how 0 [] w)) w),
          lg_SetLfgRoles = \<lambda>gguid guid roles m w. group_call (to w gguid) (\<lambda>p. SetLfgRoles p guid roles) (w\<lparr>gw_lfg := m\<rparr>),
          lg_SetDungeonDifficulty = \<lambda>gguid difficulty w. group_call (to w gguid) (\<lambda>p. SetDungeonDifficulty p difficulty) w,
          lg_CastCooldown = cast,
          lg_TeleportPlayer = teleport,
          lg_SendUpdate = \<lambda>gguid m w. group_call (to w gguid) SendUpdate (w\<lparr>gw_lfg := m\<rparr>)\<rparr>)"

section \<open>What leaves the manager alone\<close>

lemma fold_same: "(\<And>x w. F (f x w) = F w) \<Longrightarrow> F (fold f xs w) = F w"
  by (induction xs arbitrary: w) auto

lemma lfg_frame_basic [simp]:
  "gw_lfg (on_grp_checked p h w) = gw_lfg w" "gw_lfg (deref p f w) = (if gw_groups w p = None then gw_lfg w else gw_lfg (f w))"
  "gw_lfg (set_invite to guid w) = gw_lfg w" "gw_lfg (RemoveInvite p guid w) = gw_lfg w" "gw_lfg (reset_invite guid w) = gw_lfg w"
  "gw_lfg (unlink orig guid w) = gw_lfg w" "gw_lfg (set_roll p i k w) = gw_lfg w"
  "gw_lfg (BroadcastPacket p pk b s x w) = gw_lfg w" "gw_lfg (BroadcastGroupUpdate p w) = gw_lfg w"
  "gw_lfg (AddGroup p w) = gw_lfg w" "gw_lfg (RemoveGroup p w) = gw_lfg w" "gw_lfg (invalidate r w) = gw_lfg w"
  "gw_lfg (RegisterGroupDbStoreId n p w) = gw_lfg w" "gw_lfg (FreeGroupDbStoreId p w) = gw_lfg w"
  "gw_lfg (homebindIfInstance ge guid w) = gw_lfg w" "gw_lfg (adopt_difficulty p guid w) = gw_lfg w" "gw_lfg (SendUpdateToPlayer p guid sl w) = gw_lfg w"
  "gw_lfg (save_type p w) = gw_lfg w"
  by (auto simp: on_grp_checked_def deref_def set_invite_def RemoveInvite_def reset_invite_def unlink_def set_roll_def BroadcastPacket_def
      BroadcastGroupUpdate_def AddGroup_def RemoveGroup_def invalidate_def RegisterGroupDbStoreId_def FreeGroupDbStoreId_def Let_def
      homebindIfInstance_def adopt_difficulty_def SendUpdateToPlayer_def save_type_def split: sum.split option.split prod.split)

lemma lfg_frame_folds [simp]:
  "gw_lfg (SendUpdate p w) = gw_lfg w" "gw_lfg (RemoveAllInvites p w) = gw_lfg w" "gw_lfg (link orig guid p n w) = gw_lfg w"
  "gw_lfg (delete_group p w) = gw_lfg w"
  by (auto simp: SendUpdate_def RemoveAllInvites_def link_def delete_group_def Let_def fold_same [of gw_lfg])

lemma lfg_frame_refs [simp]:
  "gw_lfg (Player_SetGroup guid r w) = gw_lfg w" "gw_lfg (SetOriginalGroup guid r w) = gw_lfg w"
  "gw_lfg (SetBattlegroundOrBattlefieldRaid guid p n w) = gw_lfg w" "gw_lfg (RemoveFromBattlegroundOrBattlefieldRaid guid w) = gw_lfg w"
  "gw_lfg (enter_group p guid n w) = gw_lfg w" "gw_lfg (leave_refs p guid w) = gw_lfg w" "gw_lfg (DelinkMember p guid w) = gw_lfg w"
  by (auto simp: Player_SetGroup_def SetOriginalGroup_def SetBattlegroundOrBattlefieldRaid_def RemoveFromBattlegroundOrBattlefieldRaid_def
      enter_group_def leave_refs_def DelinkMember_def Let_def split: option.split prod.split)

lemma lfg_frame_leaving [simp]:
  "gw_lfg (CountRollVote ge p guid item choice w) = gw_lfg w" "gw_lfg (leave_roll ge p guid i w) = gw_lfg w" "gw_lfg (leave_rolls ge p guid w) = gw_lfg w"
  "gw_lfg (part_with ge p guid how w) = gw_lfg w" "gw_lfg (erase_slot p guid w) = gw_lfg w" "gw_lfg (disband_member ge p hide s w) = gw_lfg w"
  "gw_lfg (ConvertToLFG p w) = gw_lfg w"
proof -
  show c: "gw_lfg (CountRollVote ge p guid item choice w) = gw_lfg w" for item choice w
    by (auto simp: CountRollVote_def Let_def split: option.split)
  then show l: "gw_lfg (leave_roll ge p guid i w) = gw_lfg w" for i w by (auto simp: leave_roll_def Let_def split: option.split)
  then show "gw_lfg (leave_rolls ge p guid w) = gw_lfg w" unfolding leave_rolls_def by (rule fold_same)
qed (auto simp: part_with_def erase_slot_def disband_member_def ConvertToLFG_def Let_def split: option.split)

section \<open>Through the scripts\<close>

text \<open>The rules follow the operations: each binds the world anew, and every world on the way is reached by hooks.\<close>

definition hooked :: "LFGMgr \<Rightarrow> group_world \<Rightarrow> bool" where
  "hooked m w \<longleftrightarrow> script_step\<^sup>*\<^sup>* m (gw_lfg w)"

lemma hooked_same: "hooked m w \<Longrightarrow> gw_lfg w' = gw_lfg w \<Longrightarrow> hooked m w'"
  by (simp add: hooked_def)

lemma hooked_let: "hooked m t \<Longrightarrow> (\<And>w. hooked m w \<Longrightarrow> hooked m (f w)) \<Longrightarrow> hooked m (Let t f)"
  by (simp add: Let_def)

lemma hooked_snd_let: "hooked m t \<Longrightarrow> (\<And>w. hooked m w \<Longrightarrow> hooked m (snd (f w))) \<Longrightarrow> hooked m (snd (Let t f))"
  by (simp add: Let_def)

lemma hooked_snd_let_value: "(\<And>x. hooked m (snd (f x))) \<Longrightarrow> hooked m (snd (Let t f))"
  by (simp add: Let_def)

lemma hooked_if: "hooked m a \<Longrightarrow> hooked m b \<Longrightarrow> hooked m (if c then a else b)"
  by simp

lemma hooked_snd_if: "hooked m (snd a) \<Longrightarrow> hooked m (snd b) \<Longrightarrow> hooked m (snd (if c then a else b))"
  by simp

lemma hooked_option: "hooked m a \<Longrightarrow> (\<And>x. hooked m (b x)) \<Longrightarrow> hooked m (case y of None \<Rightarrow> a | Some x \<Rightarrow> b x)"
  by (cases y) auto

lemma hooked_snd_option: "hooked m (snd a) \<Longrightarrow> (\<And>x. hooked m (snd (b x))) \<Longrightarrow> hooked m (snd (case y of None \<Rightarrow> a | Some x \<Rightarrow> b x))"
  by (cases y) auto

lemma hooked_snd_pair: "hooked m w \<Longrightarrow> hooked m (snd (b, w))"
  by simp

lemma hooked_step: "hooked m w \<Longrightarrow> script_step (gw_lfg w) (gw_lfg w') \<Longrightarrow> hooked m w'"
  unfolding hooked_def by (rule rtranclp.rtrancl_into_rtrancl)

lemma hooked_add:
  assumes "hooked m w"
  shows "hooked m (call_script (OnAddMember e g l guid) w)"
proof (cases "OnAddMember e g l guid (gw_lfg w)")
  case (Inr m')
  show ?thesis by (rule hooked_step [OF assms]) (use Inr in \<open>auto simp: call_script_def intro: script_step.add\<close>)
qed (simp add: call_script_def hooked_same [OF assms])

lemma hooked_disband: "hooked m w \<Longrightarrow> hooked m (on_lfg (OnDisband e g) w)"
  by (erule hooked_step) (auto simp: on_lfg_def intro: script_step.disband)

lemma hooked_leader: "hooked m w \<Longrightarrow> hooked m (on_lfg (OnChangeLeader g l) w)"
  by (erule hooked_step) (auto simp: on_lfg_def intro: script_step.leader)

lemma hooked_remove:
  assumes "hooked m w"
  shows "hooked m (call_OnRemoveMember ge p guid how kicker reason w)"
proof (cases "OnRemoveMember (lfg_env_of ge w) (g_guid (grp w p)) (isLFGGroup (grp w p)) guid how kicker reason (gw_lfg w)")
  case (Inr r)
  show ?thesis by (rule hooked_step [OF assms]) (use Inr in \<open>cases r, auto simp: call_OnRemoveMember_def intro: script_step.remove\<close>)
qed (simp add: call_OnRemoveMember_def hooked_same [OF assms])

lemma hooked_AddMember: "hooked m w \<Longrightarrow> hooked m (snd (AddMember ge p guid w))"
  unfolding AddMember_def
  by (rule hooked_snd_let hooked_snd_let_value hooked_snd_option hooked_snd_pair hooked_add hooked_if | assumption | erule hooked_same, simp)+

lemma hooked_Disband: "hooked m w \<Longrightarrow> hooked m (Disband ge p hide w)"
  unfolding Disband_def
  by (rule hooked_let hooked_disband hooked_if | assumption | erule hooked_same, simp add: fold_same [of gw_lfg])+

lemma hooked_ChangeLeader: "hooked m w \<Longrightarrow> hooked m (ChangeLeader ge p guid w)"
  unfolding ChangeLeader_def
  by (rule hooked_let hooked_option hooked_leader hooked_if | assumption | erule hooked_same, simp)+

lemma hooked_new_leader: "hooked m w \<Longrightarrow> hooked m (new_leader ge p guid w)"
  unfolding new_leader_def by (rule hooked_if hooked_option hooked_ChangeLeader | assumption)+

lemma hooked_RemoveMember: "hooked m w \<Longrightarrow> hooked m (snd (RemoveMember ge p guid how kicker reason w))"
  unfolding RemoveMember_def
  by (rule hooked_snd_let hooked_snd_let_value hooked_remove hooked_snd_if hooked_snd_pair hooked_Disband hooked_new_leader hooked_if hooked_option
      | assumption | erule hooked_same, simp)+

lemma hooked_snd_let_pair:
  "hooked m (snd t) \<Longrightarrow> (\<And>a w. hooked m w \<Longrightarrow> hooked m (snd (f (a, w)))) \<Longrightarrow> hooked m (snd (Let t f))"
  by (cases t) (simp add: Let_def)

lemma hooked_snd_case:
  "hooked m (snd t) \<Longrightarrow> (\<And>a w. hooked m w \<Longrightarrow> hooked m (snd (f a w))) \<Longrightarrow> hooked m (snd (case t of (a, w) \<Rightarrow> f a w))"
  by (cases t) simp

lemma hooked_snd_case_value: "(\<And>a b. hooked m (snd (f a b))) \<Longrightarrow> hooked m (snd (case t of (a, b) \<Rightarrow> f a b))"
  by (cases t) simp

lemma lfg_frame_ids [simp]:
  "gw_lfg (snd (GenerateGroupId w)) = gw_lfg w" "gw_lfg (snd (GenerateNewGroupDbStoreId w)) = gw_lfg w" "gw_lfg (snd (new_group w)) = gw_lfg w"
  by (simp_all add: GenerateGroupId_def GenerateNewGroupDbStoreId_def new_group_def Let_def)

lemma hooked_Group_Create: "hooked m w \<Longrightarrow> hooked m (snd (Group_Create ge p leader w))"
  unfolding Group_Create_def
  by (rule hooked_snd_let hooked_snd_let_pair hooked_snd_case hooked_snd_let_value hooked_snd_case_value hooked_AddMember hooked_snd_if hooked_snd_pair hooked_if
      | assumption | erule hooked_same, simp | simp only: prod.case)+

lemma hooked_make_lfg_group: "hooked m w \<Longrightarrow> hooked m (snd (make_lfg_group ge leader w))"
  unfolding make_lfg_group_def
  by (auto simp: new_group_def intro!: hooked_Group_Create elim: hooked_same)

lemma hooked_group_call: "hooked m w \<Longrightarrow> (\<And>p w. hooked m w \<Longrightarrow> hooked m (f p w)) \<Longrightarrow> hooked m (group_call to f w)"
  unfolding group_call_def deref_def by (rule hooked_option hooked_if | assumption | erule hooked_same, simp)+

lemma hooked_with_manager:
  "(\<And>m w. hooked m w \<Longrightarrow> hooked m (f w)) \<Longrightarrow> script_step\<^sup>*\<^sup>* (fst mw) (fst (with_manager f mw))"
  by (simp add: with_manager_def Let_def hooked_def)

text \<open>
  C6.  The groups of the server reach the manager of the dungeon finder only through the script hooks, whatever
  the groups, the manager and the players are: the hypothesis of the theorems about the manager holds of the
  code.
\<close>

theorem server_groups_through_scripts: "through_scripts (server_groups ge cast teleport)"
proof -
  have "script_step\<^sup>*\<^sup>* (fst mw) (fst (snd (lg_Create (server_groups ge cast teleport) guid mw)))" for guid and mw :: "LFGMgr \<times> group_world"
    using hooked_make_lfg_group [of "fst mw" "(snd mw)\<lparr>gw_lfg := fst mw\<rparr>" ge guid]
    by (auto simp: server_groups_def Let_def hooked_def split: prod.split)
  moreover have "script_step\<^sup>*\<^sup>* (fst mw) (fst (lg_AddMember (server_groups ge cast teleport) gguid guid mw))" for gguid guid and mw :: "LFGMgr \<times> group_world"
    unfolding server_groups_def Let_def by (simp, intro hooked_with_manager hooked_group_call hooked_AddMember)
  moreover have "script_step\<^sup>*\<^sup>* (fst mw) (fst (lg_RemoveMember (server_groups ge cast teleport) gguid guid how mw))" for gguid guid how and mw :: "LFGMgr \<times> group_world"
    unfolding server_groups_def Let_def by (simp, intro hooked_with_manager hooked_group_call hooked_RemoveMember)
  ultimately show ?thesis unfolding through_scripts_def by blast
qed


end
