(* ===== verification/Spec2Isabelle.thy ===== *)
theory Spec2Isabelle
  imports FC_Prelude ByteBuffer Util RBAC WorldPacket Channel ChannelMgr Reputation ObjectGuid LFGRoles LFGSearch LFGOutcomes LFGHandler Timers EventProcessor EventMap GroupRegistry GroupScripts
begin

text \<open>
  A verification development for the FaceCore game server (a TrinityCore derivative for client
  3.3.5a; C++ under \<^verbatim>\<open>src/src/server\<close>).  All file names below are relative to that directory.

  \<^bold>\<open>The program.\<close>  One process, the world server, runs sessions of players.  Packets arrive as byte
  buffers, an opcode table selects a handler of \<^verbatim>\<open>game/Handlers\<close>, the handler reads the buffer and
  calls a manager; managers keep the state of the world in containers and answer with packets.
  Besides, a world loop calls the managers' periodic updates.  The parts modelled here are those where
  this logic is the program's own and not game content:

  \<^item> \<^verbatim>\<open>shared/Packets/ByteBuffer.h\<close>, \<^verbatim>\<open>WorldPacket.h\<close>: theories \<^verbatim>\<open>ByteBuffer\<close>, \<^verbatim>\<open>WorldPacket\<close>.  A buffer
    is a record of its bytes and its read and write positions; a read past the end is the value
    \<^verbatim>\<open>PositionException\<close> of an error type, an access outside the storage a different one, and the theorems
    say that the latter never happens.
  \<^item> \<^verbatim>\<open>shared/Utilities\<close>: \<^verbatim>\<open>Util\<close> (tokenizer and string functions of \<^verbatim>\<open>Util.cpp\<close>), \<^verbatim>\<open>Timers\<close> (\<^verbatim>\<open>Timer.h\<close>),
    \<^verbatim>\<open>EventProcessor\<close> (the queue of delayed events, with the heap objects it owns).
  \<^item> \<^verbatim>\<open>game/AI/CreatureAIImpl.h\<close>: \<^verbatim>\<open>EventMap\<close>, the timers of scripts.
  \<^item> \<^verbatim>\<open>game/Accounts\<close>: \<^verbatim>\<open>RBAC\<close>, the permissions of accounts and their definitions in \<^verbatim>\<open>AccountMgr.cpp\<close>.
  \<^item> \<^verbatim>\<open>game/Chat/Channels\<close>, \<^verbatim>\<open>game/Handlers/ChannelHandler.cpp\<close>: \<^verbatim>\<open>Channel\<close> (a channel and every command
    on it), \<^verbatim>\<open>ChannelMgr\<close> (the maps of channels and the eighteen handlers).
  \<^item> \<^verbatim>\<open>game/Reputation\<close>: \<^verbatim>\<open>Reputation\<close>, the standings of a player with the factions.
  \<^item> \<^verbatim>\<open>game/Entities/Object/ObjectDefines.h\<close>: \<^verbatim>\<open>ObjectGuid\<close>, the 64-bit identifiers.
  \<^item> \<^verbatim>\<open>game/DungeonFinding\<close>, \<^verbatim>\<open>game/Handlers/LFGHandler.cpp\<close>: the dungeon finder.  \<^verbatim>\<open>LFGRoles\<close> is
    \<^verbatim>\<open>LFGMgr::CheckGroupRoles\<close>; \<^verbatim>\<open>LFGQueue\<close> holds all definitions of \<^verbatim>\<open>LFGQueue.cpp\<close> and \<^verbatim>\<open>LFGSearch\<close> their
    theorems; \<^verbatim>\<open>LFGData\<close> is the data of players and groups (\<^verbatim>\<open>LFGPlayerData\<close>, \<^verbatim>\<open>LFGGroupData\<close>, the structures of
    \<^verbatim>\<open>LFGMgr.h\<close>); \<^verbatim>\<open>LFGMgr\<close> holds the operations of \<^verbatim>\<open>LFGMgr.cpp\<close> and the hooks of \<^verbatim>\<open>LFGScripts.cpp\<close>; \<^verbatim>\<open>LFGStates\<close>
    the invariants of the manager; \<^verbatim>\<open>LFGDungeons\<close> the dungeons, rewards, teleports and options;
    \<^verbatim>\<open>LFGOutcomes\<close> the step relation of the manager and what its operations achieve; \<^verbatim>\<open>LFGHandler\<close> the
    handlers and packets.
  \<^item> \<^verbatim>\<open>game/Groups\<close>, \<^verbatim>\<open>game/Handlers/GroupHandler.cpp\<close>: parties and raids.  \<^verbatim>\<open>GroupState\<close> holds the data of
    \<^verbatim>\<open>Group.h\<close>, the registry of \<^verbatim>\<open>GroupMgr.cpp\<close>, the references between players and groups and the packets to the
    members; \<^verbatim>\<open>GroupLoot\<close> the loot rolls; \<^verbatim>\<open>GroupMembers\<close> everything that changes members, leaders and
    settings; \<^verbatim>\<open>GroupHandler\<close> the handlers.  \<^verbatim>\<open>GroupRolls\<close> and \<^verbatim>\<open>GroupRegistry\<close> are the theorems about rolls
    and identifiers, and \<^verbatim>\<open>GroupScripts\<close> connects groups and dungeon finder.  Groups and players are heap
    objects here: a deleted group has no entry in the store, and its use is recorded as a fault.
  \<^item> \<^verbatim>\<open>FC_Prelude\<close>: names of the machine integers, the error monad, ordered association lists for
    \<^verbatim>\<open>std::map\<close>, sorted lists for \<^verbatim>\<open>std::set\<close> and \<^verbatim>\<open>std::multimap\<close>, reachability and the locale
    \<^verbatim>\<open>invariant_system\<close> of invariants, and the generic lemmas.

  \<^bold>\<open>How code and model correspond.\<close>  A class is a record with the class's members; an enumeration is a
  datatype; integers are words of their width, so that they wrap as in C++; \<^verbatim>\<open>float\<close> values are
  rationals (rounding is not modelled); \<^verbatim>\<open>std::map\<close> is an association list in the order of its keys,
  because the code iterates in that order, and \<^verbatim>\<open>operator[]\<close> inserts a default where the source's does.
  A method is a function on the record with the name of the method; loops are recursive functions
  named after what they do.  Exceptions, null dereferences and uses of an end iterator are values of
  error types.  Packets sent, statements executed and effects on players are values that are returned
  or appended to a log, in the order of the code.  Every handler is the whole handler, from the raw
  bytes.

  \<^bold>\<open>Parameters.\<close>  What a component asks of the rest of the server is a record of functions, an
  argument of its operations: online players and sessions, configuration, DBC rows and database rows,
  the clock, random numbers, the case folding of names (which rests on the vendored utf8cpp), the
  virtual methods of events.  The groups, as far as the dungeon finder uses them, are the
  record \<^verbatim>\<open>lfg_groups\<close>; the only law used of it, \<^verbatim>\<open>through_scripts\<close>, says that its operations change the
  manager only by the script hooks.  \<^verbatim>\<open>GroupScripts\<close> instantiates the record with the groups of the server
  and proves the law.

  \<^bold>\<open>Hypotheses.\<close>  Clients are not trusted: handlers get any bytes, and the dungeon finder any role masks and
  dungeons.  What its reachable states assume is that players and groups have GUIDs of their kinds, that a
  role check has fewer than 250 members (its size is compared as a byte) and that random numbers are within the
  bounds asked for.  Events of \<^verbatim>\<open>EventProcessor\<close> are assumed to return false exactly when they have been
  added again and to add events for later times only; the code does not state the latter.

  \<^bold>\<open>Loops and fuel.\<close>  \<^verbatim>\<open>CheckGroupRoles\<close>, \<^verbatim>\<open>FindNewGroups\<close> and the loop of \<^verbatim>\<open>FindGroups\<close> recur on data
  their callees change; they carry a fuel, and it is proved that \<^verbatim>\<open>role_fuel\<close>, two times the number of
  waiting groups plus two, and the number of new groups plus one are enough in every reachable state.
  The loop of \<^verbatim>\<open>Group::EndRoll\<close> starts again after every roll; the number of rolls is enough.
  The loop over the dungeons of a join packet has the size of the packet plus one as fuel, also
  proved to be enough.  \<^verbatim>\<open>EventProcessor::Update\<close> runs virtual methods that may schedule events without end; it
  is a partial function and is proved to return when events schedule only later ones.

  \<^bold>\<open>What is shown.\<close>  Buffers: reads stay inside the packet, everything written is read back.
  Permissions: the cached permissions are those an abstract definition prescribes, after any commands.
  Channels: at most one owner, a custom channel never loses its owner, who may enter, who may
  moderate, what survives a restart, and that no packet breaks any of it.  Reputation: clamping, rank table, the
  8-bit counters.  Timers and events: no time is lost, every due event is run once and in order, no event is
  used after its deletion or leaked.  Dungeon finder: the role check is a complete search; every
  proposal is a full group of players who asked for it; searches and the periodic update return from every
  reachable state; the outcomes of role checks, proposals and votes; rewards are given once; packets
  from clients keep all invariants.  Groups: who wins a roll and when it ends, that every roll of a loot is settled,
  that identifiers of stored groups are never given twice, and that groups reach the dungeon finder only
  through its hooks.  The component locales state these contracts where one component
  relies on another (\<^verbatim>\<open>byte_codec\<close> and \<^verbatim>\<open>safe_reader\<close> for values in buffers, \<^verbatim>\<open>account_command\<close>,
  \<^verbatim>\<open>moderator_command\<close>, \<^verbatim>\<open>channel_handler\<close> and \<^verbatim>\<open>invariant_system\<close> for operations and step relations) and are
  interpreted on the definitions of the model.  The theorems called a defect prove that the code does
  what it does not mean to do.

  \<^bold>\<open>Not modelled.\<close>  Game content (spells, auras, combat, AI, quests, loot tables, achievements, scripts) and the
  world objects, which depend on data files and on floating-point geometry; maps and grids; network
  sockets, threads, database and configuration layers, cryptography, which wrap ACE, MySQL and
  OpenSSL; the vendored libraries; the tools.  Of the modelled files, logging texts and raw allocation
  are left out, and of \<^verbatim>\<open>Util.cpp\<close> and \<^verbatim>\<open>AccountMgr.cpp\<close> what rests on utf8cpp, SHA1 or SQL alone.

  \<^bold>\<open>Next.\<close>  The social lists; \<^verbatim>\<open>MotionMaster\<close>; pools and game events.
\<close>

end
